(* ===== verification/VII_Prelude.thy ===== *)
theory VII_Prelude
  imports Main "HOL-Library.Word" "HOL-Library.List_Lexorder"
begin

text \<open>
  Shared vocabulary of the development: the machine types of the XDR files, the
  error monad in which fallible C++ code is written, and the two ordered containers of
  the C++ standard library that the consensus code iterates over (\<open>std::set\<close> as a
  strictly sorted list, \<open>std::map\<close> as an association list with strictly sorted keys).
  The generic lemmas the components share are declared here once, either as simp rules or
  in the collections \<open>err_simps\<close> and \<open>omap_simps\<close>.
\<close>

named_theorems err_simps \<open>inversion rules of the error monad\<close>
named_theorems omap_simps \<open>lookup and domain of the ordered containers\<close>

subsection \<open>Machine types\<close>

type_synonym uint8 = "8 word"
type_synonym uint32 = "32 word"
type_synonym uint64 = "64 word"

abbreviation UINT32_MAX :: uint32 where "UINT32_MAX \<equiv> - 1"
abbreviation UINT64_MAX :: uint64 where "UINT64_MAX \<equiv> - 1"

lemma unat_minus_one_pos:
  fixes w :: "'a::len word"
  shows "0 < w \<Longrightarrow> unat (w - 1) = unat w - 1"
  by (metis unat_minus_one word_greater_zero_iff)

lemma word_le_UINT32_MAX [simp]: "(w :: uint32) \<le> UINT32_MAX"
  by simp

lemma unat_UINT32_MAX [simp]: "unat UINT32_MAX = 4294967295"
  by (simp add: unsigned_minus_1_eq_mask mask_eq_exp_minus_1)

lemma unat_UINT64_MAX [simp]: "unat UINT64_MAX = 18446744073709551615"
  by (simp add: unsigned_minus_1_eq_mask mask_eq_exp_minus_1)

subsection \<open>The error monad\<close>

text \<open>
  A C++ call that may throw or abort is a value of \<open>'e + 'a\<close>; \<open>bindE\<close> sequences two
  such calls and stops at the first failure, as unwinding does.
\<close>

definition bindE :: "'e + 'a \<Rightarrow> ('a \<Rightarrow> 'e + 'b) \<Rightarrow> 'e + 'b" where
  "bindE m f = (case m of Inl e \<Rightarrow> Inl e | Inr a \<Rightarrow> f a)"

lemma bindE_simps [simp]:
  "bindE (Inl e) f = Inl e"
  "bindE (Inr a) f = f a"
  by (simp_all add: bindE_def)

lemma bindE_Inr [err_simps]:
  "bindE m f = Inr b \<longleftrightarrow> (\<exists>a. m = Inr a \<and> f a = Inr b)"
  by (cases m) simp_all

lemma bindE_Inl [err_simps]:
  "bindE m f = Inl e \<longleftrightarrow> m = Inl e \<or> (\<exists>a. m = Inr a \<and> f a = Inl e)"
  by (cases m) simp_all

lemma bindE_cong [fundef_cong]:
  "m = m' \<Longrightarrow> (\<And>a. m' = Inr a \<Longrightarrow> f a = f' a) \<Longrightarrow> bindE m f = bindE m' f'"
  by (cases m') simp_all

definition assertE :: "'e \<Rightarrow> bool \<Rightarrow> 'e + unit" where
  "assertE e b = (if b then Inr () else Inl e)"

lemma assertE_Inr [err_simps]: "assertE e b = Inr u \<longleftrightarrow> b"
  by (simp add: assertE_def)

lemma assertE_Inl [err_simps]: "assertE e b = Inl e' \<longleftrightarrow> \<not> b \<and> e' = e"
  by (auto simp: assertE_def)

definition derefE :: "'e \<Rightarrow> 'a option \<Rightarrow> 'e + 'a" where
  "derefE e p = (case p of None \<Rightarrow> Inl e | Some a \<Rightarrow> Inr a)"

lemma derefE_simps [simp]:
  "derefE e None = Inl e"
  "derefE e (Some a) = Inr a"
  by (simp_all add: derefE_def)

lemma derefE_Inr [err_simps]: "derefE e p = Inr a \<longleftrightarrow> p = Some a"
  by (cases p) simp_all

lemma derefE_Inl [err_simps]: "derefE e p = Inl e' \<longleftrightarrow> p = None \<and> e' = e"
  by (cases p) auto

subsection \<open>\<open>std::set\<close> as a strictly sorted list\<close>

fun set_insert :: "'a::linorder \<Rightarrow> 'a list \<Rightarrow> 'a list" where
  "set_insert x [] = [x]"
| "set_insert x (y # ys) =
     (if x < y then x # y # ys else if x = y then y # ys else y # set_insert x ys)"

lemma set_set_insert [simp]: "set (set_insert x xs) = insert x (set xs)"
  by (induction xs) auto

lemma sorted_set_insert: "sorted_wrt (<) xs \<Longrightarrow> sorted_wrt (<) (set_insert x xs)"
  by (induction xs) (auto intro: less_trans)

lemma set_insert_neq_Nil [simp]: "set_insert x xs \<noteq> []"
  by (cases xs) auto

subsection \<open>\<open>std::map\<close> as a key-sorted association list\<close>

fun map_insert :: "'k::linorder \<Rightarrow> 'v \<Rightarrow> ('k \<times> 'v) list \<Rightarrow> ('k \<times> 'v) list" where
  "map_insert k v [] = [(k, v)]"
| "map_insert k v ((k', v') # xs) =
     (if k < k' then (k, v) # (k', v') # xs
      else if k = k' then (k, v) # xs
      else (k', v') # map_insert k v xs)"

definition map_sorted :: "('k::linorder \<times> 'v) list \<Rightarrow> bool" where
  "map_sorted m \<longleftrightarrow> sorted_wrt (<) (map fst m)"

lemma map_of_map_insert [omap_simps]: "map_of (map_insert k v m) = (map_of m)(k \<mapsto> v)"
  by (induction m) (auto simp: fun_eq_iff)

lemma keys_map_insert [omap_simps]: "fst ` set (map_insert k v m) = insert k (fst ` set m)"
  by (induction k v m rule: map_insert.induct) (simp_all add: insert_commute)

lemma map_sorted_Nil [simp]: "map_sorted []"
  by (simp add: map_sorted_def)

lemma map_sorted_insert [intro]: "map_sorted m \<Longrightarrow> map_sorted (map_insert k v m)"
proof (induction m)
  case (Cons kv m)
  obtain k' v' where kv: "kv = (k', v')" by force
  have keys: "k' < q" if "q \<in> fst ` set (map_insert k v m)" "\<not> k < k'" "k \<noteq> k'" for q
    using that Cons.prems by (auto simp: kv map_sorted_def keys_map_insert)
  show ?case
    using Cons keys by (auto simp: kv map_sorted_def intro: less_trans)
qed (simp add: map_sorted_def)

lemma map_sorted_distinct: "map_sorted m \<Longrightarrow> distinct (map fst m)"
  by (simp add: map_sorted_def strict_sorted_iff)

lemma map_sorted_lookup:
  "map_sorted m \<Longrightarrow> (k, v) \<in> set m \<longleftrightarrow> map_of m k = Some v"
  by (simp add: map_sorted_distinct)

lemma set_map_insert_subset: "set (map_insert k v m) \<subseteq> insert (k, v) (set m)"
  by (induction m) (auto split: if_splits)

subsection \<open>Counting with \<open>filter\<close>, for the threshold loops\<close>

lemma length_filter_disj:
  "(\<And>x. x \<in> set xs \<Longrightarrow> P x \<Longrightarrow> Q x) \<Longrightarrow> length (filter P xs) \<le> length (filter Q xs)"
  by (induction xs) auto

lemma length_filter_compl_eq:
  "length (filter (\<lambda>x. \<not> P x) xs) = length xs - length (filter P xs)"
  by (metis add_diff_cancel_left' sum_length_filter_compl)

end
