(* ===== verification/SCP_Types.thy ===== *)
theory SCP_Types
  imports VII_Prelude
begin

text \<open>
  The XDR types of \<open>src/src/xdr/vii-SCP.x\<close> and \<open>vii-types.x\<close> that the consensus code
  exchanges, and the ballot order of \<open>src/src/scp/BallotProtocol.cpp\<close>
  (\<open>compareBallots\<close>), which is also the order of \<open>std::set<SCPBallot>\<close>: it is
  installed as the \<open>linorder\<close> instance of the ballot type.

  A \<open>PublicKey\<close> has a single arm holding 32 opaque bytes, compared bytewise from the first
  byte on, so a node identifier is a 256-bit word with the unsigned order; a hash is a
  256-bit word as well. A \<open>Value\<close> and a \<open>Signature\<close> are byte vectors with the
  lexicographic order of \<open>std::vector\<close>.
\<close>

type_synonym NodeID = "256 word"
type_synonym Hash = "256 word"
type_synonym Value = "uint8 list"
type_synonym Signature = "uint8 list"

datatype SCPBallot = SCPBallot (counter: uint32) (bvalue: Value)

text \<open>The ballot a default-constructed \<open>SCPBallot\<close> denotes.\<close>

definition SCPBallot0 :: SCPBallot where
  "SCPBallot0 = SCPBallot 0 []"

definition compareBallots :: "SCPBallot \<Rightarrow> SCPBallot \<Rightarrow> int" where
  "compareBallots b1 b2 =
     (if counter b1 < counter b2 then - 1
      else if counter b2 < counter b1 then 1
      else if bvalue b1 < bvalue b2 then - 1
      else if bvalue b2 < bvalue b1 then 1
      else 0)"

definition compareBallotPtrs :: "SCPBallot option \<Rightarrow> SCPBallot option \<Rightarrow> int" where
  "compareBallotPtrs b1 b2 =
     (case (b1, b2) of
        (Some x, Some y) \<Rightarrow> compareBallots x y
      | (Some x, None) \<Rightarrow> 1
      | (None, Some y) \<Rightarrow> - 1
      | (None, None) \<Rightarrow> 0)"

definition areBallotsCompatible :: "SCPBallot \<Rightarrow> SCPBallot \<Rightarrow> bool" where
  "areBallotsCompatible b1 b2 \<longleftrightarrow> bvalue b1 = bvalue b2"

definition areBallotsLessAndIncompatible :: "SCPBallot \<Rightarrow> SCPBallot \<Rightarrow> bool" where
  "areBallotsLessAndIncompatible b1 b2 \<longleftrightarrow>
     compareBallots b1 b2 \<le> 0 \<and> \<not> areBallotsCompatible b1 b2"

definition areBallotsLessAndCompatible :: "SCPBallot \<Rightarrow> SCPBallot \<Rightarrow> bool" where
  "areBallotsLessAndCompatible b1 b2 \<longleftrightarrow>
     compareBallots b1 b2 \<le> 0 \<and> areBallotsCompatible b1 b2"

instantiation SCPBallot :: linorder
begin

definition less_eq_SCPBallot :: "SCPBallot \<Rightarrow> SCPBallot \<Rightarrow> bool" where
  "less_eq_SCPBallot a b \<longleftrightarrow>
     counter a < counter b \<or> counter a = counter b \<and> bvalue a \<le> bvalue b"

definition less_SCPBallot :: "SCPBallot \<Rightarrow> SCPBallot \<Rightarrow> bool" where
  "less_SCPBallot a b \<longleftrightarrow>
     counter a < counter b \<or> counter a = counter b \<and> bvalue a < bvalue b"

instance
proof
  fix x y z :: SCPBallot
  show "(x < y) = (x \<le> y \<and> \<not> y \<le> x)"
    by (auto simp: less_eq_SCPBallot_def less_SCPBallot_def)
  show "x \<le> x"
    by (simp add: less_eq_SCPBallot_def)
  show "x \<le> y \<Longrightarrow> y \<le> z \<Longrightarrow> x \<le> z"
    by (auto simp: less_eq_SCPBallot_def intro: less_trans order_trans)
  show "x \<le> y \<Longrightarrow> y \<le> x \<Longrightarrow> x = y"
    by (cases x; cases y) (auto simp: less_eq_SCPBallot_def)
  show "x \<le> y \<or> y \<le> x"
    by (auto simp: less_eq_SCPBallot_def)
qed

end

text \<open>
  The three-way comparison decides this order. The \<open>ballot_order\<close> collection turns every
  comparison of the code into the library's \<open>\<le>\<close>, \<open><\<close> and \<open>=\<close>, after which the
  order automation applies.
\<close>

named_theorems ballot_order \<open>compareBallots in terms of the linear order\<close>

lemma compareBallots_le [ballot_order]: "compareBallots a b \<le> 0 \<longleftrightarrow> a \<le> b"
  by (auto simp: compareBallots_def less_eq_SCPBallot_def)

lemma compareBallots_lt [ballot_order]: "compareBallots a b < 0 \<longleftrightarrow> a < b"
  by (auto simp: compareBallots_def less_SCPBallot_def)

lemma compareBallots_gt [ballot_order]: "0 < compareBallots a b \<longleftrightarrow> b < a"
  by (auto simp: compareBallots_def less_SCPBallot_def)

lemma compareBallots_ge [ballot_order]: "0 \<le> compareBallots a b \<longleftrightarrow> b \<le> a"
  by (auto simp: compareBallots_def less_eq_SCPBallot_def)

lemma compareBallots_eq [ballot_order]: "compareBallots a b = 0 \<longleftrightarrow> a = b"
  by (cases a; cases b) (auto simp: compareBallots_def)

lemma ballot_le_counter: "a \<le> b \<Longrightarrow> counter a \<le> counter b"
  by (auto simp: less_eq_SCPBallot_def)

lemma ballot_le_same_value:
  "bvalue a = bvalue b \<Longrightarrow> a \<le> b \<longleftrightarrow> counter a \<le> counter b"
  by (auto simp: less_eq_SCPBallot_def)

lemma less_compatible_iff:
  "areBallotsLessAndCompatible a b \<longleftrightarrow> counter a \<le> counter b \<and> bvalue a = bvalue b"
  by (auto simp: areBallotsLessAndCompatible_def areBallotsCompatible_def ballot_order
      ballot_le_same_value)

lemma less_incompatible_iff:
  "areBallotsLessAndIncompatible a b \<longleftrightarrow> a < b \<and> bvalue a \<noteq> bvalue b"
  by (auto simp: areBallotsLessAndIncompatible_def areBallotsCompatible_def ballot_order
      order_le_less)

lemmas ballot_defs =
  areBallotsCompatible_def less_compatible_iff less_incompatible_iff ballot_order

subsection \<open>Statements and envelopes\<close>

datatype SCPPledges =
    Prepare (prep_qSetHash: Hash) (prep_ballot: SCPBallot) (prepared: "SCPBallot option")
      (preparedPrime: "SCPBallot option") (prep_nC: uint32) (prep_nH: uint32)
  | Confirm (conf_ballot: SCPBallot) (nPrepared: uint32) (nCommit: uint32) (conf_nH: uint32)
      (conf_qSetHash: Hash)
  | Externalize (ext_commit: SCPBallot) (ext_nH: uint32) (commitQuorumSetHash: Hash)
  | Nominate (nom_qSetHash: Hash) (votes: "Value list") (accepted: "Value list")

text \<open>The numbering of \<open>SCPStatementType\<close>, by which statement types are compared.\<close>

fun pledge_type :: "SCPPledges \<Rightarrow> nat" where
  "pledge_type (Prepare _ _ _ _ _ _) = 0"
| "pledge_type (Confirm _ _ _ _ _) = 1"
| "pledge_type (Externalize _ _ _) = 2"
| "pledge_type (Nominate _ _ _) = 3"

record SCPStatement =
  nodeID :: NodeID
  slotIndex :: uint64
  pledges :: SCPPledges

record SCPEnvelope =
  statement :: SCPStatement
  signature :: Signature

text \<open>\<open>std::map<NodeID, SCPEnvelope>\<close>.\<close>

type_synonym EnvelopeMap = "(NodeID \<times> SCPEnvelope) list"

datatype EnvelopeState = INVALID | VALID

datatype ValidationLevel = kInvalidValue | kFullyValidatedValue | kMaybeValidValue

end
