(* ===== verification/Quorum_Sets.thy ===== *)
theory Quorum_Sets
  imports SCP_Types
begin

text \<open>
  Quorum sets: the type \<open>SCPQuorumSet\<close> of \<open>vii-SCP.x\<close> and the slice, blocking and
  closest-blocking-set computations of \<open>src/src/scp/LocalNode.cpp\<close>. Each loop of the
  source is one recursive function carrying the source's counter at its machine width. The
  reference definitions \<open>slice\<close> and \<open>blocked\<close> say in terms of sets what the loops
  compute; the lemmas below them are the equivalence, monotonicity and duality facts that
  the federated voting theory builds on.
\<close>

datatype SCPQuorumSet =
  SCPQuorumSet (threshold: uint32) (validators: "NodeID list") (innerSets: "SCPQuorumSet list")

subsection \<open>The operations of \<open>LocalNode\<close>\<close>

definition buildSingletonQSet :: "NodeID \<Rightarrow> SCPQuorumSet" where
  "buildSingletonQSet n = SCPQuorumSet 1 [n] []"

definition getSingletonQSet :: "NodeID \<Rightarrow> SCPQuorumSet option" where
  "getSingletonQSet n = Some (buildSingletonQSet n)"

text \<open>\<open>forAllNodes\<close> as the list of nodes its callback is applied to, in order.\<close>

fun forAllNodes :: "SCPQuorumSet \<Rightarrow> NodeID list"
  and forAllNodes_inner :: "SCPQuorumSet list \<Rightarrow> NodeID list" where
  "forAllNodes (SCPQuorumSet t vs is) = vs @ forAllNodes_inner is"
| "forAllNodes_inner [] = []"
| "forAllNodes_inner (q # qs) = forAllNodes q @ forAllNodes_inner qs"

text \<open>
  The two loops of \<open>isQuorumSliceInternal\<close>: the counter \<open>thresholdLeft\<close> is a
  \<open>uint32\<close> that is decremented before it is compared with zero, so a threshold of zero
  wraps around. The validator loop returns \<open>None\<close> where the source returns true.
\<close>

fun slice_validators :: "uint32 \<Rightarrow> NodeID list \<Rightarrow> NodeID list \<Rightarrow> uint32 option" where
  "slice_validators thresholdLeft [] nodeSet = Some thresholdLeft"
| "slice_validators thresholdLeft (v # vs) nodeSet =
     (if v \<in> set nodeSet
      then (let left = thresholdLeft - 1
            in if left \<le> 0 then None else slice_validators left vs nodeSet)
      else slice_validators thresholdLeft vs nodeSet)"

fun isQuorumSliceInternal :: "SCPQuorumSet \<Rightarrow> NodeID list \<Rightarrow> bool"
  and slice_inner :: "uint32 \<Rightarrow> SCPQuorumSet list \<Rightarrow> NodeID list \<Rightarrow> bool" where
  "isQuorumSliceInternal (SCPQuorumSet t vs is) nodeSet =
     (case slice_validators t vs nodeSet of
        None \<Rightarrow> True
      | Some thresholdLeft \<Rightarrow> slice_inner thresholdLeft is nodeSet)"
| "slice_inner thresholdLeft [] nodeSet = False"
| "slice_inner thresholdLeft (q # qs) nodeSet =
     (if isQuorumSliceInternal q nodeSet
      then (let left = thresholdLeft - 1
            in if left \<le> 0 then True else slice_inner left qs nodeSet)
      else slice_inner thresholdLeft qs nodeSet)"

definition isQuorumSlice :: "SCPQuorumSet \<Rightarrow> NodeID list \<Rightarrow> bool" where
  "isQuorumSlice qSet nodeSet = isQuorumSliceInternal qSet nodeSet"

text \<open>
  \<open>isVBlockingInternal\<close>: \<open>leftTillBlock\<close> is computed in \<open>size_t\<close>, narrowed to a
  32-bit \<open>int\<close> and then counted down.
\<close>

definition leftTillBlock0 :: "SCPQuorumSet \<Rightarrow> int" where
  "leftTillBlock0 q =
     sint (word_of_int (int (1 + length (validators q) + length (innerSets q))
                          - uint (threshold q)) :: uint32)"

fun blocking_validators :: "int \<Rightarrow> NodeID list \<Rightarrow> NodeID list \<Rightarrow> int option" where
  "blocking_validators leftTillBlock [] nodeSet = Some leftTillBlock"
| "blocking_validators leftTillBlock (v # vs) nodeSet =
     (if v \<in> set nodeSet
      then (let left = leftTillBlock - 1
            in if left \<le> 0 then None else blocking_validators left vs nodeSet)
      else blocking_validators leftTillBlock vs nodeSet)"

fun isVBlockingInternal :: "SCPQuorumSet \<Rightarrow> NodeID list \<Rightarrow> bool"
  and blocking_inner :: "int \<Rightarrow> SCPQuorumSet list \<Rightarrow> NodeID list \<Rightarrow> bool" where
  "isVBlockingInternal (SCPQuorumSet t vs is) nodeSet =
     (if t = 0 then False
      else case blocking_validators (leftTillBlock0 (SCPQuorumSet t vs is)) vs nodeSet of
             None \<Rightarrow> True
           | Some leftTillBlock \<Rightarrow> blocking_inner leftTillBlock is nodeSet)"
| "blocking_inner leftTillBlock [] nodeSet = False"
| "blocking_inner leftTillBlock (q # qs) nodeSet =
     (if isVBlockingInternal q nodeSet
      then (let left = leftTillBlock - 1
            in if left \<le> 0 then True else blocking_inner left qs nodeSet)
      else blocking_inner leftTillBlock qs nodeSet)"

definition isVBlocking :: "SCPQuorumSet \<Rightarrow> NodeID list \<Rightarrow> bool" where
  "isVBlocking qSet nodeSet = isVBlockingInternal qSet nodeSet"

text \<open>The nodes of an envelope map whose statement passes a filter, in map order.\<close>

definition filterNodes :: "EnvelopeMap \<Rightarrow> (SCPStatement \<Rightarrow> bool) \<Rightarrow> NodeID list" where
  "filterNodes m flt = map fst (filter (\<lambda>(n, e). flt (statement e)) m)"

definition isVBlockingMap :: "SCPQuorumSet \<Rightarrow> EnvelopeMap \<Rightarrow> (SCPStatement \<Rightarrow> bool) \<Rightarrow> bool" where
  "isVBlockingMap qSet m flt = isVBlocking qSet (filterNodes m flt)"

text \<open>
  The fixpoint loop of \<open>isQuorum\<close>: nodes whose own quorum set is not met by the current
  list are dropped until the size is stable. \<open>quorumOf\<close> is the quorum set a node's
  statement announces (a node of the list always has a statement in the map).
\<close>

definition quorumFilter ::
  "(NodeID \<Rightarrow> SCPQuorumSet option) \<Rightarrow> NodeID list \<Rightarrow> NodeID \<Rightarrow> bool" where
  "quorumFilter quorumOf pNodes n =
     (case quorumOf n of Some q \<Rightarrow> isQuorumSlice q pNodes | None \<Rightarrow> False)"

function quorumLoop ::
  "(NodeID \<Rightarrow> SCPQuorumSet option) \<Rightarrow> NodeID list \<Rightarrow> NodeID list" where
  "quorumLoop quorumOf pNodes =
     (let fNodes = filter (quorumFilter quorumOf pNodes) pNodes
      in if length fNodes = length pNodes then fNodes else quorumLoop quorumOf fNodes)"
  by pat_completeness auto
termination
  by (relation "measure (\<lambda>(f, p). length p)")
     (auto simp: le_neq_implies_less length_filter_le)

declare quorumLoop.simps [simp del]

definition statementQuorum ::
  "EnvelopeMap \<Rightarrow> (SCPStatement \<Rightarrow> SCPQuorumSet option) \<Rightarrow> NodeID \<Rightarrow> SCPQuorumSet option" where
  "statementQuorum m qfun n =
     (case map_of m n of Some e \<Rightarrow> qfun (statement e) | None \<Rightarrow> None)"

definition isQuorum ::
  "SCPQuorumSet \<Rightarrow> EnvelopeMap \<Rightarrow> (SCPStatement \<Rightarrow> SCPQuorumSet option) \<Rightarrow>
   (SCPStatement \<Rightarrow> bool) \<Rightarrow> bool" where
  "isQuorum qSet m qfun flt =
     isQuorumSlice qSet (quorumLoop (statementQuorum m qfun) (filterNodes m flt))"

subsection \<open>\<open>findClosestVBlocking\<close>\<close>

fun closest_validators ::
  "NodeID option \<Rightarrow> NodeID list \<Rightarrow> NodeID list \<Rightarrow> uint64 \<Rightarrow> NodeID list \<Rightarrow>
   (uint64 \<times> NodeID list) option" where
  "closest_validators excluded nodes [] leftTillBlock res = Some (leftTillBlock, res)"
| "closest_validators excluded nodes (v # vs) leftTillBlock res =
     (if excluded = None \<or> excluded \<noteq> Some v
      then (if v \<notin> set nodes
            then (let left = leftTillBlock - 1
                  in if left = 0 then None else closest_validators excluded nodes vs left res)
            else closest_validators excluded nodes vs leftTillBlock (res @ [v]))
      else closest_validators excluded nodes vs leftTillBlock res)"

text \<open>\<open>std::multiset<vector, orderBySize>::emplace\<close>: after the elements of equal size.\<close>

fun emplaceBySize :: "'a list \<Rightarrow> 'a list list \<Rightarrow> 'a list list" where
  "emplaceBySize v [] = [v]"
| "emplaceBySize v (w # ws) = (if length v < length w then v # w # ws else w # emplaceBySize v ws)"

fun take_internals :: "uint64 \<Rightarrow> NodeID list list \<Rightarrow> NodeID list \<Rightarrow> NodeID list" where
  "take_internals leftTillBlock [] res = res"
| "take_internals leftTillBlock (v # vs) res =
     (if leftTillBlock \<noteq> 0 then take_internals (leftTillBlock - 1) vs (res @ v) else res)"

definition closest_select ::
  "uint64 \<Rightarrow> NodeID list \<Rightarrow> NodeID list list \<Rightarrow> NodeID list" where
  "closest_select leftTillBlock res internals =
     (let res1 = (if unat leftTillBlock < length res then take (unat leftTillBlock) res else res)
      in take_internals (leftTillBlock - of_nat (length res1)) internals res1)"

fun findClosestVBlocking :: "NodeID option \<Rightarrow> NodeID list \<Rightarrow> SCPQuorumSet \<Rightarrow> NodeID list"
  and closest_inner ::
  "NodeID option \<Rightarrow> NodeID list \<Rightarrow> SCPQuorumSet list \<Rightarrow> uint64 \<Rightarrow> NodeID list list \<Rightarrow>
   (uint64 \<times> NodeID list list) option" where
  "findClosestVBlocking excluded nodes (SCPQuorumSet t vs is) =
     (case closest_validators excluded nodes vs
             (of_nat (1 + length vs + length is) - ucast t) [] of
        None \<Rightarrow> []
      | Some (left1, res) \<Rightarrow>
          (case closest_inner excluded nodes is left1 [] of
             None \<Rightarrow> []
           | Some (left2, internals) \<Rightarrow> closest_select left2 res internals))"
| "closest_inner excluded nodes [] leftTillBlock internals = Some (leftTillBlock, internals)"
| "closest_inner excluded nodes (q # qs) leftTillBlock internals =
     (let v = findClosestVBlocking excluded nodes q
      in if length v = 0
         then (let left = leftTillBlock - 1
               in if left = 0 then None else closest_inner excluded nodes qs left internals)
         else closest_inner excluded nodes qs leftTillBlock (emplaceBySize v internals))"

definition findClosestVBlockingMap ::
  "SCPQuorumSet \<Rightarrow> EnvelopeMap \<Rightarrow> (SCPStatement \<Rightarrow> bool) \<Rightarrow> NodeID option \<Rightarrow> NodeID list" where
  "findClosestVBlockingMap qset m flt excluded =
     findClosestVBlocking excluded (fold set_insert (filterNodes m flt) []) qset"

subsection \<open>Reference definitions\<close>

text \<open>
  The number of entries of a quorum set that a predicate on nodes and a predicate on inner
  sets satisfy, the threshold the slice loops really test (zero stands for \<open>2^32\<close>,
  because of the wrap-around), and the meaning of slice and blocking set.
\<close>

definition effThreshold :: "uint32 \<Rightarrow> nat" where
  "effThreshold t = (if t = 0 then 2 ^ 32 else unat t)"

fun slice :: "SCPQuorumSet \<Rightarrow> NodeID set \<Rightarrow> bool" where
  "slice (SCPQuorumSet t vs is) U \<longleftrightarrow>
     effThreshold t \<le> length (filter (\<lambda>v. v \<in> U) vs) + length (filter (\<lambda>q. slice q U) is)"

fun blocked :: "SCPQuorumSet \<Rightarrow> NodeID set \<Rightarrow> bool" where
  "blocked (SCPQuorumSet t vs is) B \<longleftrightarrow>
     t \<noteq> 0 \<and> length vs + length is <
       unat t + length (filter (\<lambda>v. v \<in> B) vs) + length (filter (\<lambda>q. blocked q B) is)"

text \<open>Thresholds within range at every level; every sane quorum set is like that.\<close>

fun thresholds_ok :: "SCPQuorumSet \<Rightarrow> bool" where
  "thresholds_ok (SCPQuorumSet t vs is) \<longleftrightarrow>
     1 \<le> unat t \<and> unat t \<le> length vs + length is \<and> length vs + length is < 2 ^ 31 - 1 \<and>
     list_all thresholds_ok is"

subsection \<open>The loops compute the reference definitions\<close>

lemma effThreshold_pos [simp]: "0 < effThreshold t"
  by (simp add: effThreshold_def unat_gt_0)

lemma effThreshold_minus_one:
  "t \<noteq> 1 \<Longrightarrow> effThreshold (t - 1) = effThreshold t - 1"
proof (cases "t = 0")
  case True
  then show ?thesis by (simp add: effThreshold_def)
next
  case False
  assume "t \<noteq> 1"
  with False have "t - 1 \<noteq> 0" and "unat (t - 1) = unat t - 1"
    by (auto simp: unat_minus_one)
  with False show ?thesis by (simp add: effThreshold_def)
qed

lemma effThreshold_eq_1 [simp]: "effThreshold t = Suc 0 \<longleftrightarrow> t = 1"
  by (auto simp: effThreshold_def word_unat_eq_iff)

lemma slice_validators_eq:
  "slice_validators t vs ns =
     (let c = length (filter (\<lambda>v. v \<in> set ns) vs)
      in if effThreshold t \<le> c then None else Some (t - of_nat c))"
proof (induction vs arbitrary: t)
  case (Cons v vs)
  show ?case
  proof (cases "v \<in> set ns \<and> t \<noteq> 1")
    case True
    then have "effThreshold (t - 1) = effThreshold t - 1"
      by (simp add: effThreshold_minus_one)
    moreover have "0 < effThreshold t" by simp
    ultimately show ?thesis
      using True Cons.IH [of "t - 1"]
      by (auto simp: Let_def algebra_simps le_diff_conv)
  next
    case False
    then show ?thesis using Cons.IH [of t] by (auto simp: Let_def effThreshold_def)
  qed
qed (simp add: Let_def effThreshold_def unat_gt_0)

lemma effThreshold_minus_count:
  "c < effThreshold t \<Longrightarrow> effThreshold (t - of_nat c) = effThreshold t - c"
proof (induction c)
  case (Suc c)
  then have IH: "effThreshold (t - of_nat c) = effThreshold t - c" by simp
  with Suc.prems have "t - of_nat c \<noteq> 1"
    by (metis Suc_lessD diff_is_0_eq diff_diff_left effThreshold_eq_1 not_less_eq_eq plus_1_eq_Suc
        diff_Suc_1 add.commute leD)
  then have "effThreshold (t - of_nat c - 1) = effThreshold t - c - 1"
    by (simp add: effThreshold_minus_one IH)
  then show ?case by (simp add: algebra_simps)
qed simp

lemma slice_internal_eq:
  "isQuorumSliceInternal q ns = slice q (set ns)"
  "slice_inner t qs ns = (effThreshold t \<le> length (filter (\<lambda>q. slice q (set ns)) qs))"
proof (induction q ns and t qs ns rule: isQuorumSliceInternal_slice_inner.induct)
  case (1 t vs qs ns)
  then show ?case
    by (auto simp: slice_validators_eq Let_def effThreshold_minus_count not_le)
next
  case (3 t q qs ns)
  then show ?case
  proof (cases "t = 1")
    case False
    moreover have "0 < effThreshold t" by simp
    ultimately show ?thesis using 3 by (auto simp: effThreshold_minus_one Let_def)
  qed (auto simp: effThreshold_def)
qed simp

lemma isQuorumSlice_eq: "isQuorumSlice q ns \<longleftrightarrow> slice q (set ns)"
  by (simp add: isQuorumSlice_def slice_internal_eq)

lemma slice_mono: "U \<subseteq> V \<Longrightarrow> slice q U \<Longrightarrow> slice q V"
proof (induction q)
  case (SCPQuorumSet t vs qs)
  have "length (filter (\<lambda>v. v \<in> U) vs) \<le> length (filter (\<lambda>v. v \<in> V) vs)"
    using SCPQuorumSet.prems(1) by (intro length_filter_disj) auto
  moreover have "length (filter (\<lambda>q. slice q U) qs) \<le> length (filter (\<lambda>q. slice q V) qs)"
    using SCPQuorumSet by (intro length_filter_disj) auto
  ultimately show ?case using SCPQuorumSet.prems(2) by simp
qed

lemma blocked_mono: "A \<subseteq> B \<Longrightarrow> blocked q A \<Longrightarrow> blocked q B"
proof (induction q)
  case (SCPQuorumSet t vs qs)
  have "length (filter (\<lambda>v. v \<in> A) vs) \<le> length (filter (\<lambda>v. v \<in> B) vs)"
    using SCPQuorumSet.prems(1) by (intro length_filter_disj) auto
  moreover have "length (filter (\<lambda>q. blocked q A) qs) \<le> length (filter (\<lambda>q. blocked q B) qs)"
    using SCPQuorumSet by (intro length_filter_disj) auto
  ultimately show ?case using SCPQuorumSet.prems(2) by simp
qed

lemma leftTillBlock0_eq:
  assumes "thresholds_ok (SCPQuorumSet t vs qs)"
  shows "leftTillBlock0 (SCPQuorumSet t vs qs) = int (1 + length vs + length qs) - int (unat t)"
proof -
  define x where "x = int (1 + length vs + length qs) - int (unat t)"
  have "0 \<le> x" "x < 2 ^ 31"
    using assms by (simp_all add: x_def del: of_nat_unat)
  then have "sint (word_of_int x :: uint32) = x"
    by (simp add: signed_take_bit_int_eq_self sint_sbintrunc')
  then show ?thesis by (simp add: leftTillBlock0_def x_def)
qed

lemma blocking_validators_eq:
  "0 < l \<Longrightarrow> blocking_validators l vs ns =
     (let c = int (length (filter (\<lambda>v. v \<in> set ns) vs))
      in if l \<le> c then None else Some (l - c))"
  by (induction vs arbitrary: l) (auto simp: Let_def)

lemma blocking_internal_eq:
  "thresholds_ok q \<Longrightarrow> isVBlockingInternal q ns = blocked q (set ns)"
  "list_all thresholds_ok qs \<Longrightarrow> 0 < l \<Longrightarrow>
     blocking_inner l qs ns = (l \<le> int (length (filter (\<lambda>q. blocked q (set ns)) qs)))"
proof (induction q ns and l qs ns rule: isVBlockingInternal_blocking_inner.induct)
  case (1 t vs qs ns)
  have t: "t \<noteq> 0" and ok: "list_all thresholds_ok qs" using 1(2) by auto
  have l: "0 < leftTillBlock0 (SCPQuorumSet t vs qs)"
    using 1(2) unfolding leftTillBlock0_eq [OF 1(2)] thresholds_ok.simps by linarith
  show ?case using 1(1) [OF t _ ok] t l
    by (auto simp: blocking_validators_eq Let_def leftTillBlock0_eq [OF 1(2)] simp del: of_nat_unat)
next
  case (3 l q qs ns)
  then show ?case by (auto simp: Let_def)
qed simp

lemma isVBlocking_eq:
  "thresholds_ok q \<Longrightarrow> isVBlocking q ns \<longleftrightarrow> blocked q (set ns)"
  by (simp add: isVBlocking_def blocking_internal_eq)

lemma blocked_iff_not_slice:
  "thresholds_ok q \<Longrightarrow> blocked q B \<longleftrightarrow> \<not> slice q (- B)"
proof (induction q)
  case (SCPQuorumSet t vs qs)
  have "filter (\<lambda>q. blocked q B) qs = filter (\<lambda>q. \<not> slice q (- B)) qs"
    using SCPQuorumSet by (intro filter_cong) (auto simp: list_all_iff)
  then have "length (filter (\<lambda>q. blocked q B) qs) = length qs - length (filter (\<lambda>q. slice q (- B)) qs)"
    by (simp add: length_filter_compl_eq)
  moreover have "length (filter (\<lambda>v. v \<in> B) vs) = length vs - length (filter (\<lambda>v. v \<in> - B) vs)"
    using length_filter_compl_eq [of "\<lambda>v. v \<in> - B" vs] by simp
  moreover have "length (filter (\<lambda>v. v \<in> - B) vs) \<le> length vs"
    "length (filter (\<lambda>q. slice q (- B)) qs) \<le> length qs"
    by (rule length_filter_le)+
  moreover have "t \<noteq> 0" "effThreshold t = unat t"
    using SCPQuorumSet.prems by (auto simp: effThreshold_def)
  ultimately show ?case by auto
qed

subsection \<open>The quorum loop computes the largest quorum\<close>

text \<open>
  A set of nodes is self-sufficient when every member announces a quorum set of which the
  set contains a slice.
\<close>

definition selfSufficient :: "(NodeID \<Rightarrow> SCPQuorumSet option) \<Rightarrow> NodeID set \<Rightarrow> bool" where
  "selfSufficient quorumOf U \<longleftrightarrow> (\<forall>n \<in> U. \<exists>q. quorumOf n = Some q \<and> slice q U)"

lemma quorumFilter_eq:
  "quorumFilter f p n \<longleftrightarrow> (\<exists>q. f n = Some q \<and> slice q (set p))"
  by (auto simp: quorumFilter_def isQuorumSlice_eq split: option.splits)

lemma quorumLoop_subset: "set (quorumLoop f p) \<subseteq> set p"
  by (induction f p rule: quorumLoop.induct)
     (subst quorumLoop.simps, auto simp: Let_def split: if_splits)

lemma quorumLoop_selfSufficient: "selfSufficient f (set (quorumLoop f p))"
proof (induction f p rule: quorumLoop.induct)
  case (1 f p)
  let ?F = "filter (quorumFilter f p) p"
  show ?case
  proof (cases "length ?F = length p")
    case True
    then have "?F = p" by (metis filter_True length_filter_less linorder_neq_iff)
    then have "\<forall>n \<in> set p. quorumFilter f p n" by (metis filter_id_conv)
    with \<open>?F = p\<close> show ?thesis
      by (subst quorumLoop.simps) (simp add: Let_def selfSufficient_def quorumFilter_eq)
  next
    case False
    with 1 show ?thesis by (subst quorumLoop.simps) (simp add: Let_def)
  qed
qed

lemma quorumLoop_greatest:
  "U \<subseteq> set p \<Longrightarrow> selfSufficient f U \<Longrightarrow> U \<subseteq> set (quorumLoop f p)"
proof (induction f p rule: quorumLoop.induct)
  case (1 f p)
  have "U \<subseteq> set (filter (quorumFilter f p) p)"
  proof
    fix n assume "n \<in> U"
    with 1 obtain q where "f n = Some q" "slice q U" by (auto simp: selfSufficient_def)
    with 1 \<open>n \<in> U\<close> show "n \<in> set (filter (quorumFilter f p) p)"
      by (auto simp: quorumFilter_eq intro: slice_mono)
  qed
  with 1 show ?case by (subst quorumLoop.simps) (auto simp: Let_def)
qed

lemma quorumLoop_iff:
  "isQuorumSlice q (quorumLoop f p) \<longleftrightarrow>
     (\<exists>U. U \<subseteq> set p \<and> selfSufficient f U \<and> slice q U)"
  by (metis isQuorumSlice_eq quorumLoop_greatest quorumLoop_selfSufficient quorumLoop_subset
      slice_mono)

lemma set_filterNodes:
  "map_sorted m \<Longrightarrow>
   set (filterNodes m flt) = {n. \<exists>e. map_of m n = Some e \<and> flt (statement e)}"
  by (force simp: filterNodes_def map_sorted_lookup)

lemma isQuorum_iff:
  assumes "map_sorted m"
  shows "isQuorum q m qfun flt \<longleftrightarrow>
    (\<exists>U. slice q U \<and> (\<forall>n \<in> U. \<exists>e qs. map_of m n = Some e \<and> flt (statement e) \<and>
       qfun (statement e) = Some qs \<and> slice qs U))"
  unfolding isQuorum_def quorumLoop_iff set_filterNodes [OF assms]
  by (fastforce simp: selfSufficient_def statementQuorum_def split: option.splits)

end
