(* ===== verification/Quorum_Set_Utils.thy ===== *)
theory Quorum_Set_Utils
  imports Quorum_Sets "HOL-Library.Multiset"
begin

text \<open>
  \<open>src/src/scp/QuorumSetUtils.cpp\<close>: the sanity check of quorum sets received from the
  network and the normal form under which quorum sets are hashed. The sanity checker
  threads the set of known nodes and the node count through the recursion; \<open>None\<close> stands
  for its \<open>return false\<close>. The lemmas show that the check decides the declarative
  predicate \<open>qset_sane\<close>, that the comparator used for sorting is a linear order, and that
  normalisation changes neither the slices nor the nodes of a quorum set.
\<close>

subsection \<open>\<open>QuorumSetSanityChecker\<close>\<close>

fun insertKnown :: "NodeID list \<Rightarrow> NodeID list \<Rightarrow> NodeID list option" where
  "insertKnown [] known = Some known"
| "insertKnown (n # ns) known =
     (if n \<in> set known then None else insertKnown ns (set_insert n known))"

fun checkSanity ::
  "bool \<Rightarrow> SCPQuorumSet \<Rightarrow> nat \<Rightarrow> NodeID list \<times> nat \<Rightarrow> (NodeID list \<times> nat) option"
  and checkSanity_inner ::
  "bool \<Rightarrow> SCPQuorumSet list \<Rightarrow> nat \<Rightarrow> NodeID list \<times> nat \<Rightarrow> (NodeID list \<times> nat) option" where
  "checkSanity extraChecks (SCPQuorumSet t vs is) depth (mKnownNodes, mCount) =
     (if depth > 2 then None
      else if unat t < 1 then None
      else
        (let totEntries = length vs + length is;
             vBlockingSize = totEntries - unat t + 1;
             mCount1 = mCount + length vs
         in if unat t > totEntries then None
            else if extraChecks \<and> unat t < vBlockingSize then None
            else case insertKnown vs mKnownNodes of
                   None \<Rightarrow> None
                 | Some known \<Rightarrow> checkSanity_inner extraChecks is (depth + 1) (known, mCount1)))"
| "checkSanity_inner extraChecks [] depth st = Some st"
| "checkSanity_inner extraChecks (q # qs) depth st =
     (case checkSanity extraChecks q depth st of
        None \<Rightarrow> None
      | Some st' \<Rightarrow> checkSanity_inner extraChecks qs depth st')"

definition isQuorumSetSane :: "SCPQuorumSet \<Rightarrow> bool \<Rightarrow> bool" where
  "isQuorumSetSane qSet extraChecks =
     (case checkSanity extraChecks qSet 0 ([], 0) of
        None \<Rightarrow> False
      | Some (mKnownNodes, mCount) \<Rightarrow> mCount \<ge> 1 \<and> mCount \<le> 1000)"

subsection \<open>Normal form\<close>

text \<open>
  \<open>std::remove_if\<close> with \<open>erase\<close> keeps the other validators in order; the threshold is
  decreased, with \<open>uint32\<close> wrap-around, by the number of removed entries. The loop over the
  inner sets moves every simplified singleton to the end of the validators.
\<close>

definition removeNode :: "NodeID option \<Rightarrow> NodeID list \<Rightarrow> NodeID list" where
  "removeNode idToRemove v =
     (case idToRemove of None \<Rightarrow> v | Some i \<Rightarrow> filter (\<lambda>n. n \<noteq> i) v)"

fun normalizeQSetSimplify :: "NodeID option \<Rightarrow> SCPQuorumSet \<Rightarrow> SCPQuorumSet"
  and simplifyLoop ::
  "NodeID option \<Rightarrow> SCPQuorumSet list \<Rightarrow> NodeID list \<Rightarrow> NodeID list \<times> SCPQuorumSet list" where
  "normalizeQSetSimplify idToRemove (SCPQuorumSet t v i) =
     (let v1 = removeNode idToRemove v;
          t1 = t - of_nat (length v - length v1);
          (v2, i2) = simplifyLoop idToRemove i v1
      in if t1 = 1 \<and> length v2 = 0 \<and> length i2 = 1 then last i2 else SCPQuorumSet t1 v2 i2)"
| "simplifyLoop idToRemove [] v = (v, [])"
| "simplifyLoop idToRemove (q # qs) v =
     (let q' = normalizeQSetSimplify idToRemove q
      in if threshold q' = 1 \<and> length (validators q') = 1 \<and> length (innerSets q') = 0
         then simplifyLoop idToRemove qs (v @ [hd (validators q')])
         else (let (v', i') = simplifyLoop idToRemove qs v in (v', q' # i')))"

fun intLexicographicalCompare :: "('a \<Rightarrow> 'a \<Rightarrow> int) \<Rightarrow> 'a list \<Rightarrow> 'a list \<Rightarrow> int" where
  "intLexicographicalCompare cf [] [] = 0"
| "intLexicographicalCompare cf [] (y # ys) = - 1"
| "intLexicographicalCompare cf (x # xs) [] = 1"
| "intLexicographicalCompare cf (x # xs) (y # ys) =
     (let c = cf x y in if c \<noteq> 0 then c else intLexicographicalCompare cf xs ys)"

lemma intLexicographicalCompare_cong [fundef_cong]:
  assumes "xs = xs'" and "ys = ys'"
    and "\<And>x y. x \<in> set xs' \<Longrightarrow> y \<in> set ys' \<Longrightarrow> c x y = c' x y"
  shows "intLexicographicalCompare c xs ys = intLexicographicalCompare c' xs' ys'"
  unfolding assms(1,2) using assms(3)
  by (induction c xs' ys' rule: intLexicographicalCompare.induct) (auto simp: Let_def)

definition compareKeys :: "'a::linorder \<Rightarrow> 'a \<Rightarrow> int" where
  "compareKeys l r = (if l < r then - 1 else if r < l then 1 else 0)"

fun qSetCompareInt :: "SCPQuorumSet \<Rightarrow> SCPQuorumSet \<Rightarrow> int" where
  "qSetCompareInt (SCPQuorumSet lt lv li) (SCPQuorumSet rt rv ri) =
     (let res = intLexicographicalCompare compareKeys lv rv
      in if res \<noteq> 0 then res
         else (let res = intLexicographicalCompare qSetCompareInt li ri
               in if res \<noteq> 0 then res
                  else if lt < rt then - 1 else if lt = rt then 0 else 1))"

text \<open>
  A comparator that returns a negative, zero or positive integer is lawful when it decides
  equality, is antisymmetric and transitive; then it induces a linear order. The comparators
  of the code are instances: node keys, ballots and quorum sets.
\<close>

locale comparator =
  fixes cmp :: "'a \<Rightarrow> 'a \<Rightarrow> int"
  assumes cmp_eq: "cmp x y = 0 \<longleftrightarrow> x = y"
    and cmp_anti: "cmp y x = - cmp x y"
    and cmp_trans: "cmp x y \<le> 0 \<Longrightarrow> cmp y z \<le> 0 \<Longrightarrow> cmp x z \<le> 0"
begin

lemma cmp_refl: "cmp x x = 0"
  by (simp add: cmp_eq)

lemma cmp_total: "cmp x y \<le> 0 \<or> cmp y x \<le> 0"
  using cmp_anti [of x y] by linarith

lemma cmp_antisym: "cmp x y \<le> 0 \<Longrightarrow> cmp y x \<le> 0 \<Longrightarrow> x = y"
  using cmp_anti [of x y] cmp_eq [of x y] by linarith

lemma cmp_less: "cmp x y < 0 \<longleftrightarrow> cmp x y \<le> 0 \<and> \<not> cmp y x \<le> 0"
  using cmp_anti [of x y] by linarith

lemma cmp_less_trans: "cmp x y < 0 \<Longrightarrow> cmp y z \<le> 0 \<Longrightarrow> cmp x z < 0"
  using cmp_trans [of x y z] cmp_eq [of x z] cmp_anti [of y x] cmp_anti [of y z]
    cmp_trans [of y z x] cmp_refl [of x] by (metis cmp_less less_imp_le)

end

interpretation key_cmp: comparator "compareKeys :: 'a::linorder \<Rightarrow> 'a \<Rightarrow> int"
  by unfold_locales (auto simp: compareKeys_def split: if_splits)

interpretation ballot_cmp: comparator compareBallots
proof unfold_locales
  fix x y z :: SCPBallot
  show "compareBallots x y = 0 \<longleftrightarrow> x = y" by (rule compareBallots_eq)
  show "compareBallots y x = - compareBallots x y"
    by (auto simp: compareBallots_def)
  show "compareBallots x y \<le> 0 \<Longrightarrow> compareBallots y z \<le> 0 \<Longrightarrow> compareBallots x z \<le> 0"
    by (simp add: ballot_order)
qed

text \<open>The laws lift from elements to lists, relative to the elements of one list.\<close>

lemma lexcmp_eq:
  "(\<And>x y. x \<in> set xs \<Longrightarrow> c x y = 0 \<longleftrightarrow> x = y) \<Longrightarrow>
   intLexicographicalCompare c xs ys = 0 \<longleftrightarrow> xs = ys"
  by (induction c xs ys rule: intLexicographicalCompare.induct) (auto simp: Let_def)

lemma lexcmp_anti:
  "(\<And>x y. x \<in> set xs \<Longrightarrow> c y x = - c x y) \<Longrightarrow>
   intLexicographicalCompare c ys xs = - intLexicographicalCompare c xs ys"
  by (induction c xs ys rule: intLexicographicalCompare.induct) (auto simp: Let_def)

lemma lexcmp_trans:
  assumes "\<And>x y. x \<in> set xs \<Longrightarrow> c x y = 0 \<longleftrightarrow> x = y"
    and "\<And>x y. x \<in> set xs \<Longrightarrow> c y x = - c x y"
    and "\<And>x y z. x \<in> set xs \<Longrightarrow> c x y \<le> 0 \<Longrightarrow> c y z \<le> 0 \<Longrightarrow> c x z \<le> 0"
  shows "intLexicographicalCompare c xs ys \<le> 0 \<Longrightarrow> intLexicographicalCompare c ys zs \<le> 0 \<Longrightarrow>
         intLexicographicalCompare c xs zs \<le> 0"
  using assms
proof (induction xs arbitrary: ys zs)
  case Nil
  show ?case by (cases zs) auto
next
  case (Cons x xs)
  from Cons.prems(1,2) obtain y ys' z zs' where ys: "ys = y # ys'" and zs: "zs = z # zs'"
    by (cases ys; cases zs) auto
  have x: "c x y \<le> 0" "c y z \<le> 0"
    using Cons.prems(1,2) by (auto simp: ys zs Let_def split: if_splits)
  then have xz: "c x z \<le> 0" using Cons.prems(5) by simp
  show ?case
  proof (cases "c x z = 0")
    case True
    then have "x = z" using Cons.prems(3) by simp
    with x(2) have "c y x \<le> 0" by simp
    with x(1) Cons.prems(4) [OF list.set_intros(1), of y] have "c x y = 0" by linarith
    then have "x = y" using Cons.prems(3) by simp
    then have "intLexicographicalCompare c xs ys' \<le> 0" "intLexicographicalCompare c ys' zs' \<le> 0"
      using Cons.prems(1,2) \<open>x = z\<close> True by (auto simp: ys zs Let_def)
    then have "intLexicographicalCompare c xs zs' \<le> 0"
      using Cons.prems(3,4,5) by (intro Cons.IH [of ys' zs']) auto
    with True show ?thesis by (simp add: zs Let_def)
  qed (use xz in \<open>simp add: zs Let_def\<close>)
qed

lemma qSetCompareInt_eq: "qSetCompareInt l r = 0 \<longleftrightarrow> l = r"
proof (induction l arbitrary: r)
  case (SCPQuorumSet t vs qs)
  have "intLexicographicalCompare qSetCompareInt qs zs = 0 \<longleftrightarrow> qs = zs" for zs
    using SCPQuorumSet by (rule lexcmp_eq)
  then show ?case
    by (cases r) (auto simp: Let_def lexcmp_eq [OF key_cmp.cmp_eq])
qed

lemma qSetCompareInt_anti: "qSetCompareInt r l = - qSetCompareInt l r"
proof (induction l arbitrary: r)
  case (SCPQuorumSet t vs qs)
  have "intLexicographicalCompare qSetCompareInt zs qs = - intLexicographicalCompare qSetCompareInt qs zs" for zs
    using SCPQuorumSet by (rule lexcmp_anti)
  then show ?case
    by (cases r) (auto simp: Let_def lexcmp_anti [OF key_cmp.cmp_anti, where xs = vs] split: if_splits)
qed

lemma qSetCompareInt_trans:
  "qSetCompareInt l m \<le> 0 \<Longrightarrow> qSetCompareInt m r \<le> 0 \<Longrightarrow> qSetCompareInt l r \<le> 0"
proof (induction l arbitrary: m r)
  case (SCPQuorumSet lt lv li)
  obtain mt mv mi where m: "m = SCPQuorumSet mt mv mi" by (cases m)
  obtain rt rv ri where r: "r = SCPQuorumSet rt rv ri" by (cases r)
  let ?K = "intLexicographicalCompare compareKeys"
  let ?Q = "intLexicographicalCompare qSetCompareInt"
  have K: "?K lv rv \<le> 0" if "?K lv mv \<le> 0" "?K mv rv \<le> 0"
    using key_cmp.cmp_eq key_cmp.cmp_anti key_cmp.cmp_trans that by (rule lexcmp_trans)
  have Q: "?Q li ri \<le> 0" if "?Q li mi \<le> 0" "?Q mi ri \<le> 0"
    using qSetCompareInt_eq qSetCompareInt_anti SCPQuorumSet.IH that by (rule lexcmp_trans)
  have K0: "?K xs ys = 0 \<longleftrightarrow> xs = ys" for xs ys by (rule lexcmp_eq [OF key_cmp.cmp_eq])
  have Q0: "?Q xs ys = 0 \<longleftrightarrow> xs = ys" for xs ys by (rule lexcmp_eq [OF qSetCompareInt_eq])
  have Ka: "?K ys xs = - ?K xs ys" for xs ys by (rule lexcmp_anti [OF key_cmp.cmp_anti])
  have Qa: "?Q ys xs = - ?Q xs ys" for xs ys by (rule lexcmp_anti [OF qSetCompareInt_anti])
  have k: "?K lv mv \<le> 0" "?K mv rv \<le> 0"
    using SCPQuorumSet.prems by (auto simp: m r Let_def split: if_splits)
  show ?case
  proof (cases "?K lv rv = 0")
    case False
    then show ?thesis using K [OF k] by (simp add: r Let_def)
  next
    case True
    then have lr: "rv = lv" by (simp add: K0)
    with k Ka [of lv mv] have "?K lv mv = 0" by simp
    then have lm: "mv = lv" by (simp add: K0)
    have q: "?Q li mi \<le> 0" "?Q mi ri \<le> 0"
      using SCPQuorumSet.prems True lr lm by (auto simp: m r Let_def split: if_splits)
    show ?thesis
    proof (cases "?Q li ri = 0")
      case False
      then show ?thesis using Q [OF q] True by (simp add: r Let_def)
    next
      case qr: True
      then have "ri = li" by (simp add: Q0)
      moreover from this q Qa [of li mi] have "?Q li mi = 0" by simp
      ultimately show ?thesis
        using SCPQuorumSet.prems True lr lm qr Q0
        by (auto simp: m r Let_def split: if_splits)
    qed
  qed
qed

interpretation qset_cmp: comparator qSetCompareInt
  by unfold_locales (fact qSetCompareInt_eq qSetCompareInt_anti qSetCompareInt_trans)+

instantiation SCPQuorumSet :: linorder
begin

definition less_eq_SCPQuorumSet :: "SCPQuorumSet \<Rightarrow> SCPQuorumSet \<Rightarrow> bool" where
  "less_eq_SCPQuorumSet l r \<longleftrightarrow> qSetCompareInt l r \<le> 0"

definition less_SCPQuorumSet :: "SCPQuorumSet \<Rightarrow> SCPQuorumSet \<Rightarrow> bool" where
  "less_SCPQuorumSet l r \<longleftrightarrow> qSetCompareInt l r < 0"

instance
proof
  fix x y z :: SCPQuorumSet
  note defs = less_eq_SCPQuorumSet_def less_SCPQuorumSet_def
  show "(x < y) = (x \<le> y \<and> \<not> y \<le> x)" by (simp add: defs qset_cmp.cmp_less)
  show "x \<le> x" by (simp add: defs qset_cmp.cmp_refl)
  show "x \<le> y \<Longrightarrow> y \<le> z \<Longrightarrow> x \<le> z" unfolding defs by (rule qset_cmp.cmp_trans)
  show "x \<le> y \<Longrightarrow> y \<le> x \<Longrightarrow> x = y" unfolding defs by (rule qset_cmp.cmp_antisym)
  show "x \<le> y \<or> y \<le> x" unfolding defs by (rule qset_cmp.cmp_total)
qed

end

text \<open>
  \<open>std::sort\<close> with a strict weak order whose ties are equal elements yields the sorted
  list, whatever algorithm is used.
\<close>

fun normalizeQuorumSetReorder :: "SCPQuorumSet \<Rightarrow> SCPQuorumSet" where
  "normalizeQuorumSetReorder (SCPQuorumSet t v i) =
     SCPQuorumSet t (sort v) (sort (map normalizeQuorumSetReorder i))"

definition normalizeQSet :: "SCPQuorumSet \<Rightarrow> NodeID option \<Rightarrow> SCPQuorumSet" where
  "normalizeQSet qSet idToRemove =
     normalizeQuorumSetReorder (normalizeQSetSimplify idToRemove qSet)"

subsection \<open>Normalisation keeps slices and nodes\<close>

lemma length_filter_sort: "length (filter P (sort xs)) = length (filter P xs)"
  by (metis mset_filter mset_sort size_mset)

lemma slice_reorder: "slice (normalizeQuorumSetReorder q) U \<longleftrightarrow> slice q U"
proof (induction q)
  case (SCPQuorumSet t v i)
  have "length (filter (\<lambda>q. slice q U) (map normalizeQuorumSetReorder i)) =
      length (filter (\<lambda>q. slice q U) i)"
    using SCPQuorumSet by (induction i) auto
  then show ?case by (simp add: length_filter_sort)
qed

lemma slice_singleton [simp]: "slice (SCPQuorumSet 1 [x] []) U \<longleftrightarrow> x \<in> U"
  by (simp add: effThreshold_def)

lemma singleton_shape:
  "threshold q = 1 \<and> length (validators q) = 1 \<and> length (innerSets q) = 0 \<longleftrightarrow>
   q = SCPQuorumSet 1 [hd (validators q)] []"
  by (cases q) (auto simp: length_Suc_conv)

lemma slice_simplify:
  "idr = None \<Longrightarrow> slice (normalizeQSetSimplify idr q) U \<longleftrightarrow> slice q U"
  "idr = None \<Longrightarrow> simplifyLoop idr qs v = (v', i') \<Longrightarrow>
   length (filter (\<lambda>n. n \<in> U) v') + length (filter (\<lambda>q. slice q U) i') =
   length (filter (\<lambda>n. n \<in> U) v) + length (filter (\<lambda>q. slice q U) qs)"
proof (induction idr q and idr qs v arbitrary: and v' i' rule: normalizeQSetSimplify_simplifyLoop.induct)
  case (1 idr t v i)
  obtain v2 i2 where loop: "simplifyLoop None i v = (v2, i2)" by force
  have cnt: "length (filter (\<lambda>n. n \<in> U) v2) + length (filter (\<lambda>q. slice q U) i2) =
      length (filter (\<lambda>n. n \<in> U) v) + length (filter (\<lambda>q. slice q U) i)"
    using 1 loop by (simp add: removeNode_def)
  show ?case
  proof (cases "t = 1 \<and> length v2 = 0 \<and> length i2 = 1")
    case True
    then obtain q where "i2 = [q]" by (auto simp: length_Suc_conv)
    with True cnt 1 loop show ?thesis
      by (auto simp: removeNode_def effThreshold_def split: if_splits)
  next
    case False
    then have "normalizeQSetSimplify idr (SCPQuorumSet t v i) = SCPQuorumSet t v2 i2"
      using 1 loop by (auto simp: removeNode_def)
    with cnt show ?thesis by simp
  qed
next
  case (2 idr v)
  then show ?case by simp
next
  case (3 idr q qs v)
  let ?q = "normalizeQSetSimplify idr q"
  have q: "slice ?q U \<longleftrightarrow> slice q U" using 3 by blast
  show ?case
  proof (cases "?q = SCPQuorumSet 1 [hd (validators ?q)] []")
    case True
    then have "simplifyLoop idr qs (v @ [hd (validators ?q)]) = (v', i')"
      using 3 singleton_shape [of ?q] by (simp add: Let_def del: length_greater_0_conv)
    then have "length (filter (\<lambda>n. n \<in> U) v') + length (filter (\<lambda>q. slice q U) i') =
      length (filter (\<lambda>n. n \<in> U) (v @ [hd (validators ?q)])) + length (filter (\<lambda>q. slice q U) qs)"
      using 3 True singleton_shape [of ?q] by (simp add: Let_def)
    moreover have "slice q U \<longleftrightarrow> hd (validators ?q) \<in> U"
      using q True by (metis slice_singleton)
    ultimately show ?thesis by simp
  next
    case False
    then obtain i'' where "simplifyLoop idr qs v = (v', i'')" "i' = ?q # i''"
      using 3 singleton_shape [of ?q] by (auto simp: Let_def split: prod.splits if_splits)
    then show ?thesis using 3 q False singleton_shape [of ?q] by (simp add: Let_def)
  qed
qed

lemma forAllNodes_inner_concat: "forAllNodes_inner qs = concat (map forAllNodes qs)"
  by (induction qs) auto

lemma set_forAllNodes: "set (forAllNodes q) = set (validators q) \<union> (\<Union>q' \<in> set (innerSets q). set (forAllNodes q'))"
  by (cases q) (auto simp: forAllNodes_inner_concat)

lemma nodes_reorder: "set (forAllNodes (normalizeQuorumSetReorder q)) = set (forAllNodes q)"
  by (induction q) (auto simp: forAllNodes_inner_concat)

lemma nodes_simplify:
  "idr = None \<Longrightarrow> set (forAllNodes (normalizeQSetSimplify idr q)) = set (forAllNodes q)"
  "idr = None \<Longrightarrow> simplifyLoop idr qs v = (v', i') \<Longrightarrow>
   set v' \<union> set (forAllNodes_inner i') = set v \<union> set (forAllNodes_inner qs)"
proof (induction idr q and idr qs v arbitrary: and v' i' rule: normalizeQSetSimplify_simplifyLoop.induct)
  case (1 idr t v i)
  obtain v2 i2 where loop: "simplifyLoop None i v = (v2, i2)" by force
  have "set v2 \<union> set (forAllNodes_inner i2) = set v \<union> set (forAllNodes_inner i)"
    using 1 loop by (simp add: removeNode_def)
  then show ?case
    using 1 loop by (auto simp: removeNode_def length_Suc_conv split: if_splits)
next
  case (3 idr q qs v)
  let ?q = "normalizeQSetSimplify idr q"
  have q: "set (forAllNodes ?q) = set (forAllNodes q)" using 3 by blast
  show ?case
  proof (cases "?q = SCPQuorumSet 1 [hd (validators ?q)] []")
    case True
    then have "simplifyLoop idr qs (v @ [hd (validators ?q)]) = (v', i')"
      using 3 singleton_shape [of ?q] by (simp add: Let_def)
    then have "set v' \<union> set (forAllNodes_inner i') =
        set (v @ [hd (validators ?q)]) \<union> set (forAllNodes_inner qs)"
      using 3 True singleton_shape [of ?q] by (simp add: Let_def)
    moreover have "set (forAllNodes q) = {hd (validators ?q)}"
      using q True by (metis append_Nil2 empty_set forAllNodes.simps forAllNodes_inner.simps(1) list.simps(15))
    ultimately show ?thesis by simp
  next
    case False
    then obtain i'' where "simplifyLoop idr qs v = (v', i'')" "i' = ?q # i''"
      using 3 singleton_shape [of ?q] by (auto simp: Let_def split: prod.splits if_splits)
    moreover from this have "set v' \<union> set (forAllNodes_inner i'') = set v \<union> set (forAllNodes_inner qs)"
      using 3 False singleton_shape [of ?q] by (simp add: Let_def)
    ultimately show ?thesis using q by auto
  qed
qed simp

subsection \<open>What the sanity check decides\<close>

fun qset_depth :: "SCPQuorumSet \<Rightarrow> nat" where
  "qset_depth (SCPQuorumSet t vs qs) = foldr max (map (\<lambda>q. qset_depth q + 1) qs) 0"

fun levels_ok :: "bool \<Rightarrow> SCPQuorumSet \<Rightarrow> bool" where
  "levels_ok extra (SCPQuorumSet t vs qs) \<longleftrightarrow>
     1 \<le> unat t \<and> unat t \<le> length vs + length qs \<and>
     (extra \<longrightarrow> length vs + length qs < 2 * unat t) \<and> list_all (levels_ok extra) qs"

definition qset_sane :: "bool \<Rightarrow> SCPQuorumSet \<Rightarrow> bool" where
  "qset_sane extra q \<longleftrightarrow>
     qset_depth q \<le> 2 \<and> levels_ok extra q \<and> distinct (forAllNodes q) \<and>
     1 \<le> length (forAllNodes q) \<and> length (forAllNodes q) \<le> 1000"

lemma insertKnown_eq:
  "insertKnown ns known =
     (if distinct ns \<and> set ns \<inter> set known = {} then Some (fold set_insert ns known) else None)"
  by (induction ns arbitrary: known) auto

lemma set_fold_set_insert: "set (fold set_insert ns known) = set ns \<union> set known"
  by (induction ns arbitrary: known) auto

lemma foldr_max_le: "foldr max (map f xs) (0::nat) \<le> k \<longleftrightarrow> (\<forall>x \<in> set xs. f x \<le> k)"
  by (induction xs) auto

definition sanity_result ::
  "bool \<Rightarrow> NodeID list \<Rightarrow> NodeID list \<times> nat \<Rightarrow> (NodeID list \<times> nat) option \<Rightarrow> bool" where
  "sanity_result ok nodes st r =
     (case r of
        None \<Rightarrow> \<not> (ok \<and> distinct nodes \<and> set nodes \<inter> set (fst st) = {})
      | Some (known, cnt) \<Rightarrow> ok \<and> distinct nodes \<and> set nodes \<inter> set (fst st) = {} \<and>
          set known = set nodes \<union> set (fst st) \<and> cnt = snd st + length nodes)"

lemma checkSanity_result:
  "sanity_result (qset_depth q + d \<le> 2 \<and> levels_ok extra q) (forAllNodes q) st (checkSanity extra q d st)"
  "sanity_result (\<forall>q \<in> set qs. qset_depth q + d \<le> 2 \<and> levels_ok extra q) (forAllNodes_inner qs) st
     (checkSanity_inner extra qs d st)"
proof (induction extra q d st and extra qs d st rule: checkSanity_checkSanity_inner.induct)
  case (1 extra t vs qs d known cnt)
  have dep: "qset_depth (SCPQuorumSet t vs qs) + d \<le> 2 \<longleftrightarrow>
      d \<le> 2 \<and> (\<forall>q \<in> set qs. qset_depth q + (d + 1) \<le> 2)"
    using foldr_max_le [of "\<lambda>q. qset_depth q + 1" qs "2 - d"]
    by (cases qs) (auto simp: le_diff_conv2 add.commute le_diff_conv)
  let ?guard = "d \<le> 2 \<and> 1 \<le> unat t \<and> unat t \<le> length vs + length qs \<and>
      (extra \<longrightarrow> length vs + length qs < 2 * unat t)"
  show ?case
  proof (cases "?guard \<and> distinct vs \<and> set vs \<inter> set known = {}")
    case False
    then have "checkSanity extra (SCPQuorumSet t vs qs) d (known, cnt) = None"
      by (auto simp: insertKnown_eq Let_def)
    then show ?thesis using False unfolding dep by (auto simp: sanity_result_def)
  next
    case True
    let ?st = "(fold set_insert vs known, cnt + length vs)"
    have step: "checkSanity extra (SCPQuorumSet t vs qs) d (known, cnt) =
        checkSanity_inner extra qs (d + 1) ?st"
      using True by (auto simp: insertKnown_eq Let_def)
    have "sanity_result (\<forall>q \<in> set qs. qset_depth q + (d + 1) \<le> 2 \<and> levels_ok extra q)
        (forAllNodes_inner qs) ?st (checkSanity_inner extra qs (d + 1) ?st)"
      using True by (intro 1) (auto simp: insertKnown_eq)
    then show ?thesis unfolding step dep using True
      by (auto simp: sanity_result_def set_fold_set_insert list_all_iff split: option.splits)
  qed
next
  case (3 extra q qs d st)
  then show ?case
    by (cases st) (auto simp: sanity_result_def split: option.splits)
qed (simp add: sanity_result_def split: prod.splits)

lemma isQuorumSetSane_eq: "isQuorumSetSane q extra \<longleftrightarrow> qset_sane extra q"
  using checkSanity_result(1) [of q 0 extra "([], 0)"]
  by (auto simp: isQuorumSetSane_def qset_sane_def sanity_result_def split: option.splits)

text \<open>
  A quorum set that passes the check has its thresholds in range, so the blocking-set
  computations apply to it without narrowing problems.
\<close>

lemma levels_ok_nonempty: "levels_ok extra q \<Longrightarrow> 1 \<le> length (forAllNodes q)"
proof (induction q)
  case (SCPQuorumSet t vs qs)
  show ?case
  proof (cases vs)
    case Nil
    with SCPQuorumSet.prems obtain q where "q \<in> set qs" by (cases qs) auto
    with SCPQuorumSet have "forAllNodes q \<noteq> []" by (fastforce simp: list_all_iff)
    with \<open>q \<in> set qs\<close> show ?thesis by (auto simp: forAllNodes_inner_concat Suc_le_eq)
  qed simp
qed

lemma levels_ok_lengths:
  "list_all (levels_ok extra) qs \<Longrightarrow> length qs \<le> length (forAllNodes_inner qs)"
proof (induction qs)
  case (Cons q qs)
  then show ?case using levels_ok_nonempty [of extra q] by simp
qed simp

lemma length_inner_nodes: "q \<in> set qs \<Longrightarrow> length (forAllNodes q) \<le> length (forAllNodes_inner qs)"
  by (induction qs) auto

lemma levels_ok_thresholds_ok:
  "levels_ok extra q \<Longrightarrow> length (forAllNodes q) \<le> 1000 \<Longrightarrow> thresholds_ok q"
proof (induction q)
  case (SCPQuorumSet t vs qs)
  have "length qs \<le> length (forAllNodes_inner qs)"
    using SCPQuorumSet.prems by (auto intro: levels_ok_lengths)
  moreover have "thresholds_ok q" if "q \<in> set qs" for q
    using SCPQuorumSet.IH [OF that] SCPQuorumSet.prems length_inner_nodes [OF that] that
    by (auto simp: list_all_iff)
  ultimately show ?case using SCPQuorumSet.prems by (auto simp: list_all_iff)
qed

lemma sane_thresholds_ok: "isQuorumSetSane q extra \<Longrightarrow> thresholds_ok q"
  by (auto simp: isQuorumSetSane_eq qset_sane_def intro: levels_ok_thresholds_ok)

end
