(* ===== verification/Slot_State.thy ===== *)
theory Slot_State
  imports Quorum_Set_Utils
begin

text \<open>
  The state of a consensus slot: the member variables of \<open>BallotProtocol\<close>,
  \<open>NominationProtocol\<close> and \<open>Slot\<close> (the headers under \<open>src/src/scp\<close>), the local node, and
  the driver through which the protocol talks to the rest of the node. The driver is an
  abstract class in the source (\<open>SCPDriver.h\<close>); its query methods are functions of a record
  passed to every operation, its notification methods are recorded as a log of calls in the
  slot. Pointers that may be null are options; a null dereference, a failed assertion, an
  \<open>abort\<close> and a thrown \<open>std::runtime_error\<close> are values of \<open>scp_error\<close>.
\<close>

datatype scp_error = RuntimeError string | NullDeref | AssertFailed | AbortError | OutOfFuel

subsection \<open>The local node\<close>

record LocalNode =
  mNodeID :: NodeID
  mIsValidator :: bool
  mQSet :: SCPQuorumSet
  mQSetHash :: Hash
  gSingleQSetHash :: Hash
  mSingleQSet :: SCPQuorumSet

text \<open>
  The constructor normalises the quorum set before hashing it; \<open>sha256 \<circ> xdr_to_opaque\<close> is
  outside the sources and is the parameter \<open>hash\<close>.
\<close>

definition LocalNode_new ::
  "(SCPQuorumSet \<Rightarrow> Hash) \<Rightarrow> NodeID \<Rightarrow> bool \<Rightarrow> SCPQuorumSet \<Rightarrow> LocalNode" where
  "LocalNode_new hash nid isValidator qSet =
     (let q = normalizeQSet qSet None; single = buildSingletonQSet nid
      in \<lparr>mNodeID = nid, mIsValidator = isValidator, mQSet = q, mQSetHash = hash q,
          gSingleQSetHash = hash single, mSingleQSet = single\<rparr>)"

definition updateQuorumSet ::
  "(SCPQuorumSet \<Rightarrow> Hash) \<Rightarrow> SCPQuorumSet \<Rightarrow> LocalNode \<Rightarrow> LocalNode" where
  "updateQuorumSet hash qSet ln = ln\<lparr>mQSetHash := hash qSet, mQSet := qSet\<rparr>"

subsection \<open>The driver\<close>

text \<open>
  \<open>NDEBUG\<close> says whether \<open>dbgAssert\<close> is compiled out (\<open>util/GlobalChecks.h\<close>);
  \<open>currentTime\<close> is \<open>std::time(nullptr)\<close>.
\<close>

record SCPDriver =
  signEnvelope :: "SCPStatement \<Rightarrow> Signature"
  getQSet :: "Hash \<Rightarrow> SCPQuorumSet option"
  validateValue :: "uint64 \<Rightarrow> Value \<Rightarrow> bool \<Rightarrow> ValidationLevel"
  extractValidValue :: "uint64 \<Rightarrow> Value \<Rightarrow> Value"
  computeHashNode :: "uint64 \<Rightarrow> Value \<Rightarrow> bool \<Rightarrow> 32 word \<Rightarrow> NodeID \<Rightarrow> uint64"
  computeValueHash :: "uint64 \<Rightarrow> Value \<Rightarrow> 32 word \<Rightarrow> Value \<Rightarrow> uint64"
  combineCandidates :: "uint64 \<Rightarrow> Value list \<Rightarrow> Value"
  currentTime :: int
  NDEBUG :: bool

datatype timerID = NOMINATION_TIMER | BALLOT_PROTOCOL_TIMER

datatype timerCallback =
    NoCallback
  | BallotProtocolTimerExpired
  | NominateTimedOut Value Value

datatype DriverCall =
    EmitEnvelope SCPEnvelope
  | SetupTimer uint64 timerID nat timerCallback
  | ValueExternalized uint64 Value
  | NominatingValue uint64 Value
  | UpdatedCandidateValue uint64 Value
  | StartedBallotProtocol uint64 SCPBallot
  | AcceptedBallotPrepared uint64 SCPBallot
  | ConfirmedBallotPrepared uint64 SCPBallot
  | AcceptedCommit uint64 SCPBallot
  | BallotDidHearFromQuorum uint64 SCPBallot

text \<open>\<open>SCPDriver::computeTimeout\<close>, in milliseconds.\<close>

definition MAX_TIMEOUT_SECONDS :: nat where
  "MAX_TIMEOUT_SECONDS = 30 * 60"

definition computeTimeout :: "uint32 \<Rightarrow> nat" where
  "computeTimeout roundNumber =
     1000 * (if unat roundNumber > MAX_TIMEOUT_SECONDS then MAX_TIMEOUT_SECONDS
             else unat roundNumber)"

subsection \<open>The slot\<close>

datatype SCPPhase = SCP_PHASE_PREPARE | SCP_PHASE_CONFIRM | SCP_PHASE_EXTERNALIZE

record BallotProtocol =
  mHeardFromQuorum :: bool
  mCurrentBallot :: "SCPBallot option"
  mPrepared :: "SCPBallot option"
  mPreparedPrime :: "SCPBallot option"
  mHighBallot :: "SCPBallot option"
  mCommit :: "SCPBallot option"
  mLatestEnvelopes :: EnvelopeMap
  mPhase :: SCPPhase
  mValueOverride :: "Value option"
  mCurrentMessageLevel :: int
  mLastEnvelope :: "SCPEnvelope option"
  mLastEnvelopeEmit :: "SCPEnvelope option"

definition BallotProtocol_new :: BallotProtocol where
  "BallotProtocol_new =
     \<lparr>mHeardFromQuorum = False, mCurrentBallot = None, mPrepared = None, mPreparedPrime = None,
      mHighBallot = None, mCommit = None, mLatestEnvelopes = [], mPhase = SCP_PHASE_PREPARE,
      mValueOverride = None, mCurrentMessageLevel = 0, mLastEnvelope = None,
      mLastEnvelopeEmit = None\<rparr>"

text \<open>The three sets of values are \<open>std::set\<close>s, the round number an \<open>int32\<close>.\<close>

record NominationProtocol =
  mRoundNumber :: "32 word"
  mVotes :: "Value list"
  mAccepted :: "Value list"
  mCandidates :: "Value list"
  mLatestNominations :: EnvelopeMap
  mLastNomination :: "SCPEnvelope option"
  mRoundLeaders :: "NodeID list"
  mNominationStarted :: bool
  mLatestCompositeCandidate :: Value
  mPreviousValue :: Value

definition NominationProtocol_new :: NominationProtocol where
  "NominationProtocol_new =
     \<lparr>mRoundNumber = 0, mVotes = [], mAccepted = [], mCandidates = [], mLatestNominations = [],
      mLastNomination = None, mRoundLeaders = [], mNominationStarted = False,
      mLatestCompositeCandidate = [], mPreviousValue = []\<rparr>"

record HistoricalStatement =
  mWhen :: int
  mStatement :: SCPStatement
  mValidated :: bool

record Slot =
  mSlotIndex :: uint64
  localNode :: LocalNode
  mBallotProtocol :: BallotProtocol
  mNominationProtocol :: NominationProtocol
  mStatementsHistory :: "HistoricalStatement list"
  mFullyValidated :: bool
  driverCalls :: "DriverCall list"

definition Slot_new :: "uint64 \<Rightarrow> LocalNode \<Rightarrow> Slot" where
  "Slot_new i ln =
     \<lparr>mSlotIndex = i, localNode = ln, mBallotProtocol = BallotProtocol_new,
      mNominationProtocol = NominationProtocol_new, mStatementsHistory = [],
      mFullyValidated = mIsValidator ln, driverCalls = []\<rparr>"

abbreviation bp :: "Slot \<Rightarrow> BallotProtocol" where "bp s \<equiv> mBallotProtocol s"
abbreviation np :: "Slot \<Rightarrow> NominationProtocol" where "np s \<equiv> mNominationProtocol s"
abbreviation bp_update :: "(BallotProtocol \<Rightarrow> BallotProtocol) \<Rightarrow> Slot \<Rightarrow> Slot" where
  "bp_update f s \<equiv> mBallotProtocol_update f s"
abbreviation np_update :: "(NominationProtocol \<Rightarrow> NominationProtocol) \<Rightarrow> Slot \<Rightarrow> Slot" where
  "np_update f s \<equiv> mNominationProtocol_update f s"

definition driverCall :: "DriverCall \<Rightarrow> Slot \<Rightarrow> Slot" where
  "driverCall c s = s\<lparr>driverCalls := driverCalls s @ [c]\<rparr>"

lemma driverCall_sel [simp]:
  "mSlotIndex (driverCall c s) = mSlotIndex s"
  "localNode (driverCall c s) = localNode s"
  "bp (driverCall c s) = bp s"
  "np (driverCall c s) = np s"
  "mFullyValidated (driverCall c s) = mFullyValidated s"
  "mStatementsHistory (driverCall c s) = mStatementsHistory s"
  by (simp_all add: driverCall_def)

definition dbgAssert :: "SCPDriver \<Rightarrow> bool \<Rightarrow> scp_error + unit" where
  "dbgAssert D b = (if NDEBUG D then Inr () else assertE AssertFailed b)"

lemma dbgAssert_True [simp]: "dbgAssert D True = Inr ()"
  by (simp add: dbgAssert_def assertE_def)

lemma dbgAssert_Inr [err_simps]: "dbgAssert D b = Inr u \<longleftrightarrow> NDEBUG D \<or> b"
  by (auto simp: dbgAssert_def err_simps)

lemma dbgAssert_Inl [err_simps]: "dbgAssert D b = Inl e \<longleftrightarrow> \<not> NDEBUG D \<and> \<not> b \<and> e = AssertFailed"
  by (auto simp: dbgAssert_def err_simps)

subsection \<open>Slot operations shared by the two protocols\<close>

definition recordStatement :: "SCPDriver \<Rightarrow> SCPStatement \<Rightarrow> Slot \<Rightarrow> Slot" where
  "recordStatement D st s =
     s\<lparr>mStatementsHistory := mStatementsHistory s @
        [\<lparr>mWhen = currentTime D, mStatement = st, mValidated = mFullyValidated s\<rparr>]\<rparr>"

definition setFullyValidated :: "bool \<Rightarrow> Slot \<Rightarrow> Slot" where
  "setFullyValidated b s = s\<lparr>mFullyValidated := b\<rparr>"

definition createEnvelope :: "SCPDriver \<Rightarrow> SCPStatement \<Rightarrow> Slot \<Rightarrow> SCPEnvelope" where
  "createEnvelope D st s =
     (let mySt = st\<lparr>nodeID := mNodeID (localNode s), slotIndex := mSlotIndex s\<rparr>
      in \<lparr>statement = mySt, signature = signEnvelope D mySt\<rparr>)"

definition stopNomination :: "Slot \<Rightarrow> Slot" where
  "stopNomination s = np_update (\<lambda>n. n\<lparr>mNominationStarted := False\<rparr>) s"

fun getCompanionQuorumSetHashFromStatement :: "SCPStatement \<Rightarrow> Hash" where
  "getCompanionQuorumSetHashFromStatement st =
     (case pledges st of
        Prepare h b p p' nC nH \<Rightarrow> h
      | Confirm b nP nC nH h \<Rightarrow> h
      | Externalize c nH h \<Rightarrow> h
      | Nominate h vs acc \<Rightarrow> h)"

definition getQuorumSetFromStatement :: "SCPDriver \<Rightarrow> SCPStatement \<Rightarrow> SCPQuorumSet option" where
  "getQuorumSetFromStatement D st =
     (case pledges st of
        Externalize c nH h \<Rightarrow> getSingletonQSet (nodeID st)
      | Prepare h b p p' nC nH \<Rightarrow> getQSet D h
      | Confirm b nP nC nH h \<Rightarrow> getQSet D h
      | Nominate h vs acc \<Rightarrow> getQSet D h)"

definition federatedAccept ::
  "SCPDriver \<Rightarrow> Slot \<Rightarrow> (SCPStatement \<Rightarrow> bool) \<Rightarrow> (SCPStatement \<Rightarrow> bool) \<Rightarrow> EnvelopeMap \<Rightarrow> bool" where
  "federatedAccept D s voted acceptedP envs =
     (if isVBlockingMap (mQSet (localNode s)) envs acceptedP then True
      else (let ratifyFilter = (\<lambda>st. acceptedP st \<or> voted st)
            in if isQuorum (mQSet (localNode s)) envs (getQuorumSetFromStatement D) ratifyFilter
               then True else False))"

definition federatedRatify ::
  "SCPDriver \<Rightarrow> Slot \<Rightarrow> (SCPStatement \<Rightarrow> bool) \<Rightarrow> EnvelopeMap \<Rightarrow> bool" where
  "federatedRatify D s voted envs =
     isQuorum (mQSet (localNode s)) envs (getQuorumSetFromStatement D) voted"

end
