(* ===== verification/Ballot_Protocol.thy ===== *)
theory Ballot_Protocol
  imports Slot_State
begin

text \<open>
  \<open>src/src/scp/BallotProtocol.cpp\<close>, operation by operation. Operations that emit a
  statement re-enter the protocol (\<open>emitCurrentStateStatement\<close> processes the node's own
  envelope); they take the emission as an argument \<open>emit\<close>, and the recursion is tied at the
  end of the theory in \<open>processEnvelope\<close>, with a fuel that bounds both the depth of the
  recursion and the number of rounds of the bump loop. The searches that precede a state
  change do not modify the slot and are separate functions. Trace output is left out.
\<close>

subsection \<open>Comparison and recording of statements\<close>

definition isNewerStatement :: "SCPStatement \<Rightarrow> SCPStatement \<Rightarrow> bool" where
  "isNewerStatement oldst st =
     (if pledge_type (pledges oldst) \<noteq> pledge_type (pledges st)
      then pledge_type (pledges oldst) < pledge_type (pledges st)
      else case (pledges oldst, pledges st) of
        (Externalize _ _ _, Externalize _ _ _) \<Rightarrow> False
      | (Confirm ob onP onC onH oh, Confirm b nP nC nH h) \<Rightarrow>
          (let compBallot = compareBallots ob b
           in if compBallot < 0 then True
              else if compBallot = 0
              then (if onP = nP then onH < nH else onP < nP)
              else False)
      | (Prepare oh ob op op' onC onH, Prepare h b p p' nC nH) \<Rightarrow>
          (let compBallot = compareBallots ob b
           in if compBallot < 0 then True
              else if compBallot = 0
              then (let compBallot = compareBallotPtrs op p
                    in if compBallot < 0 then True
                       else if compBallot = 0
                       then (let compBallot = compareBallotPtrs op' p'
                             in if compBallot < 0 then True
                                else if compBallot = 0 then onH < nH
                                else False)
                       else False)
              else False)
      | _ \<Rightarrow> False)"

definition isNewerStatementFrom :: "Slot \<Rightarrow> NodeID \<Rightarrow> SCPStatement \<Rightarrow> bool" where
  "isNewerStatementFrom s n st =
     (case map_of (mLatestEnvelopes (bp s)) n of
        None \<Rightarrow> True
      | Some oldp \<Rightarrow> isNewerStatement (statement oldp) st)"

definition recordEnvelope :: "SCPDriver \<Rightarrow> SCPEnvelope \<Rightarrow> Slot \<Rightarrow> Slot" where
  "recordEnvelope D env s =
     recordStatement D (statement env)
       (bp_update (\<lambda>b. b\<lparr>mLatestEnvelopes :=
          map_insert (nodeID (statement env)) env (mLatestEnvelopes b)\<rparr>) s)"

fun getWorkingBallot :: "SCPStatement \<Rightarrow> SCPBallot" where
  "getWorkingBallot st =
     (case pledges st of
        Prepare _ b _ _ _ _ \<Rightarrow> b
      | Confirm b nP nC nH _ \<Rightarrow> SCPBallot nC (bvalue b)
      | Externalize c _ _ \<Rightarrow> c
      | Nominate _ _ _ \<Rightarrow> SCPBallot0)"

text \<open>
  The per-type part of \<open>isStatementSane\<close>. Nomination statements reach \<open>dbgAbort\<close>; since
  every envelope that is recorded has passed this check first, the predicates below never
  see one and their nomination arms (an \<open>abort\<close> in the source) are immaterial.
\<close>

fun pledgesSane :: "bool \<Rightarrow> SCPPledges \<Rightarrow> bool" where
  "pledgesSane self (Prepare h b p p' nC nH) =
     ((self \<or> counter b > 0) \<and>
      ((p' = None \<or> p = None) \<or> areBallotsLessAndIncompatible (the p') (the p)) \<and>
      (nH = 0 \<or> (p \<noteq> None \<and> nH \<le> counter (the p))) \<and>
      (nC = 0 \<or> (nH \<noteq> 0 \<and> counter b \<ge> nH \<and> nH \<ge> nC)))"
| "pledgesSane self (Confirm b nP nC nH h) = (counter b > 0 \<and> nH \<le> counter b \<and> nC \<le> nH)"
| "pledgesSane self (Externalize c nH h) = (counter c > 0 \<and> nH \<ge> counter c)"
| "pledgesSane self (Nominate h vs acc) = False"

definition isStatementSane :: "SCPDriver \<Rightarrow> SCPStatement \<Rightarrow> bool \<Rightarrow> scp_error + bool" where
  "isStatementSane D st self =
     (if (case getQuorumSetFromStatement D st of
            None \<Rightarrow> False | Some qSet \<Rightarrow> isQuorumSetSane qSet False)
      then (case pledges st of
              Nominate h vs acc \<Rightarrow> Inl AbortError
            | pl \<Rightarrow> Inr (pledgesSane self pl))
      else Inr False)"

text \<open>
  \<open>validateValues\<close>: the values are collected in a \<open>std::set\<close> and visited in order; each
  value that is not fully validated overwrites the result.
\<close>

fun statementValueSet :: "SCPPledges \<Rightarrow> Value list option" where
  "statementValueSet (Prepare h b p p' nC nH) =
     (let vs = (if counter b \<noteq> 0 then set_insert (bvalue b) [] else [])
      in Some (case p of None \<Rightarrow> vs | Some pb \<Rightarrow> set_insert (bvalue pb) vs))"
| "statementValueSet (Confirm b nP nC nH h) = Some (set_insert (bvalue b) [])"
| "statementValueSet (Externalize c nH h) = Some (set_insert (bvalue c) [])"
| "statementValueSet (Nominate h vs acc) = None"

fun validateLoop :: "(Value \<Rightarrow> ValidationLevel) \<Rightarrow> Value list \<Rightarrow> ValidationLevel \<Rightarrow> ValidationLevel" where
  "validateLoop f [] res = res"
| "validateLoop f (v # vs) res =
     (let tr = f v
      in validateLoop f vs
           (if tr \<noteq> kFullyValidatedValue
            then (if tr = kInvalidValue then kInvalidValue else kMaybeValidValue)
            else res))"

definition validateValues :: "SCPDriver \<Rightarrow> Slot \<Rightarrow> SCPStatement \<Rightarrow> ValidationLevel" where
  "validateValues D s st =
     (case statementValueSet (pledges st) of
        None \<Rightarrow> kInvalidValue
      | Some vs \<Rightarrow> validateLoop (\<lambda>v. validateValue D (mSlotIndex s) v False) vs kFullyValidatedValue)"

subsection \<open>Invariants checked by the code\<close>

text \<open>
  \<open>checkInvariants\<close> is a sequence of \<open>dbgAssert\<close>s; compiled out under \<open>NDEBUG\<close>, together
  with the dereferences in their arguments.
\<close>

definition checkInvariants :: "SCPDriver \<Rightarrow> Slot \<Rightarrow> scp_error + unit" where
  "checkInvariants D s =
     (if NDEBUG D then Inr ()
      else
        bindE (case mCurrentBallot (bp s) of
                 None \<Rightarrow> Inr () | Some b \<Rightarrow> assertE AssertFailed (counter b \<noteq> 0)) (\<lambda>_.
        bindE (case (mPrepared (bp s), mPreparedPrime (bp s)) of
                 (Some p, Some p') \<Rightarrow> assertE AssertFailed (areBallotsLessAndIncompatible p' p)
               | _ \<Rightarrow> Inr ()) (\<lambda>_.
        bindE (case mHighBallot (bp s) of
                 None \<Rightarrow> Inr ()
               | Some h \<Rightarrow>
                   bindE (derefE AssertFailed (mCurrentBallot (bp s))) (\<lambda>b.
                   assertE AssertFailed (areBallotsLessAndCompatible h b))) (\<lambda>_.
        bindE (case mCommit (bp s) of
                 None \<Rightarrow> Inr ()
               | Some c \<Rightarrow>
                   bindE (derefE AssertFailed (mCurrentBallot (bp s))) (\<lambda>b.
                   bindE (derefE NullDeref (mHighBallot (bp s))) (\<lambda>h.
                   bindE (assertE AssertFailed (areBallotsLessAndCompatible c h)) (\<lambda>_.
                   assertE AssertFailed (areBallotsLessAndCompatible h b))))) (\<lambda>_.
        (case mPhase (bp s) of
           SCP_PHASE_PREPARE \<Rightarrow> Inr ()
         | SCP_PHASE_CONFIRM \<Rightarrow> assertE AssertFailed (mCommit (bp s) \<noteq> None)
         | SCP_PHASE_EXTERNALIZE \<Rightarrow>
             bindE (assertE AssertFailed (mCommit (bp s) \<noteq> None)) (\<lambda>_.
             assertE AssertFailed (mHighBallot (bp s) \<noteq> None))))))))"

subsection \<open>Creating and emitting statements\<close>

definition counterOr0 :: "SCPBallot option \<Rightarrow> uint32" where
  "counterOr0 p = (case p of None \<Rightarrow> 0 | Some b \<Rightarrow> counter b)"

definition createStatement :: "SCPDriver \<Rightarrow> SCPPhase \<Rightarrow> Slot \<Rightarrow> scp_error + SCPStatement" where
  "createStatement D t s =
     bindE (checkInvariants D s) (\<lambda>_.
     bindE
       (case t of
          SCP_PHASE_PREPARE \<Rightarrow>
            Inr (Prepare (mQSetHash (localNode s))
                   (case mCurrentBallot (bp s) of None \<Rightarrow> SCPBallot0 | Some b \<Rightarrow> b)
                   (mPrepared (bp s)) (mPreparedPrime (bp s))
                   (counterOr0 (mCommit (bp s))) (counterOr0 (mHighBallot (bp s))))
        | SCP_PHASE_CONFIRM \<Rightarrow>
            bindE (derefE NullDeref (mCurrentBallot (bp s))) (\<lambda>b.
            bindE (derefE NullDeref (mPrepared (bp s))) (\<lambda>p.
            bindE (derefE NullDeref (mCommit (bp s))) (\<lambda>c.
            bindE (derefE NullDeref (mHighBallot (bp s))) (\<lambda>h.
            Inr (Confirm b (counter p) (counter c) (counter h) (mQSetHash (localNode s)))))))
        | SCP_PHASE_EXTERNALIZE \<Rightarrow>
            bindE (derefE NullDeref (mCommit (bp s))) (\<lambda>c.
            bindE (derefE NullDeref (mHighBallot (bp s))) (\<lambda>h.
            Inr (Externalize c (counter h) (mQSetHash (localNode s))))))
       (\<lambda>pl. Inr \<lparr>nodeID = 0, slotIndex = 0, pledges = pl\<rparr>))"

definition sendLatestEnvelope :: "Slot \<Rightarrow> Slot" where
  "sendLatestEnvelope s =
     (case mLastEnvelope (bp s) of
        None \<Rightarrow> s
      | Some e \<Rightarrow>
          if mCurrentMessageLevel (bp s) = 0 \<and> mFullyValidated s \<and>
             (mLastEnvelopeEmit (bp s) = None \<or> mLastEnvelope (bp s) \<noteq> mLastEnvelopeEmit (bp s))
          then driverCall (EmitEnvelope e) (bp_update (\<lambda>b. b\<lparr>mLastEnvelopeEmit := Some e\<rparr>) s)
          else s)"

definition emitCurrentStateStatement ::
  "SCPDriver \<Rightarrow> (SCPEnvelope \<Rightarrow> Slot \<Rightarrow> scp_error + EnvelopeState \<times> Slot) \<Rightarrow>
   Slot \<Rightarrow> scp_error + Slot" where
  "emitCurrentStateStatement D process s =
     bindE (createStatement D (mPhase (bp s)) s) (\<lambda>st.
     (let envelope = createEnvelope D st s;
          canEmit = (mCurrentBallot (bp s) \<noteq> None);
          lastEnv = map_of (mLatestEnvelopes (bp s)) (mNodeID (localNode s))
      in if lastEnv = None \<or> lastEnv \<noteq> Some envelope
         then bindE (process envelope s) (\<lambda>(r, s1).
                if r = VALID
                then (if canEmit \<and>
                         (case mLastEnvelope (bp s1) of
                            None \<Rightarrow> True
                          | Some l \<Rightarrow> isNewerStatement (statement l) (statement envelope))
                      then Inr (sendLatestEnvelope
                                  (bp_update (\<lambda>b. b\<lparr>mLastEnvelope := Some envelope\<rparr>) s1))
                      else Inr s1)
                else Inl (RuntimeError ''moved to a bad state (ballot protocol)''))
         else Inr s))"

subsection \<open>Timers and the quorum heard from\<close>

definition startBallotProtocolTimer :: "SCPBallot \<Rightarrow> Slot \<Rightarrow> Slot" where
  "startBallotProtocolTimer b s =
     driverCall (SetupTimer (mSlotIndex s) BALLOT_PROTOCOL_TIMER (computeTimeout (counter b))
                   BallotProtocolTimerExpired) s"

definition stopBallotProtocolTimer :: "Slot \<Rightarrow> Slot" where
  "stopBallotProtocolTimer s =
     driverCall (SetupTimer (mSlotIndex s) BALLOT_PROTOCOL_TIMER 0 NoCallback) s"

fun heardFilter :: "SCPBallot \<Rightarrow> SCPStatement \<Rightarrow> bool" where
  "heardFilter cur st =
     (case pledges st of
        Prepare h b p p' nC nH \<Rightarrow> counter cur \<le> counter b
      | _ \<Rightarrow> True)"

definition checkHeardFromQuorum :: "SCPDriver \<Rightarrow> Slot \<Rightarrow> Slot" where
  "checkHeardFromQuorum D s =
     (case mCurrentBallot (bp s) of
        None \<Rightarrow> s
      | Some cur \<Rightarrow>
          if isQuorum (mQSet (localNode s)) (mLatestEnvelopes (bp s)) (getQuorumSetFromStatement D)
               (heardFilter cur)
          then
            (let oldHQ = mHeardFromQuorum (bp s);
                 s1 = bp_update (\<lambda>b. b\<lparr>mHeardFromQuorum := True\<rparr>) s;
                 s2 = (if \<not> oldHQ
                       then (let s' = driverCall (BallotDidHearFromQuorum (mSlotIndex s) cur) s1
                             in if mPhase (bp s) \<noteq> SCP_PHASE_EXTERNALIZE
                                then startBallotProtocolTimer cur s' else s')
                       else s1)
             in if mPhase (bp s) = SCP_PHASE_EXTERNALIZE then stopBallotProtocolTimer s2 else s2)
          else stopBallotProtocolTimer (bp_update (\<lambda>b. b\<lparr>mHeardFromQuorum := False\<rparr>) s))"

subsection \<open>Moving the current ballot\<close>

definition bumpToBallot :: "SCPDriver \<Rightarrow> SCPBallot \<Rightarrow> bool \<Rightarrow> Slot \<Rightarrow> scp_error + Slot" where
  "bumpToBallot D ballot check s =
     bindE (dbgAssert D (mPhase (bp s) \<noteq> SCP_PHASE_EXTERNALIZE)) (\<lambda>_.
     bindE (if check
            then dbgAssert D (case mCurrentBallot (bp s) of
                                None \<Rightarrow> True | Some cur \<Rightarrow> compareBallots ballot cur \<ge> 0)
            else Inr ()) (\<lambda>_.
     (let gotBumped = (case mCurrentBallot (bp s) of
                         None \<Rightarrow> True | Some cur \<Rightarrow> counter cur \<noteq> counter ballot);
          s1 = (if mCurrentBallot (bp s) = None
                then driverCall (StartedBallotProtocol (mSlotIndex s) ballot) s else s);
          s2 = bp_update (\<lambda>b. b\<lparr>mCurrentBallot := Some ballot\<rparr>) s1;
          s3 = bp_update (\<lambda>b. b\<lparr>mHighBallot :=
                 (case mHighBallot b of
                    None \<Rightarrow> None
                  | Some h \<Rightarrow> if \<not> areBallotsCompatible ballot h then None else Some h)\<rparr>) s2
      in Inr (if gotBumped then bp_update (\<lambda>b. b\<lparr>mHeardFromQuorum := False\<rparr>) s3 else s3))))"

definition updateCurrentValue :: "SCPDriver \<Rightarrow> SCPBallot \<Rightarrow> Slot \<Rightarrow> scp_error + bool \<times> Slot" where
  "updateCurrentValue D ballot s =
     (if mPhase (bp s) \<noteq> SCP_PHASE_PREPARE \<and> mPhase (bp s) \<noteq> SCP_PHASE_CONFIRM
      then Inr (False, s)
      else
        (case mCurrentBallot (bp s) of
           None \<Rightarrow>
             bindE (bumpToBallot D ballot True s) (\<lambda>s1.
             bindE (checkInvariants D s1) (\<lambda>_. Inr (True, s1)))
         | Some cur \<Rightarrow>
             bindE (dbgAssert D (compareBallots cur ballot \<le> 0)) (\<lambda>_.
             if (case mCommit (bp s) of None \<Rightarrow> False | Some c \<Rightarrow> \<not> areBallotsCompatible c ballot)
             then Inr (False, s)
             else
               (let comp = compareBallots cur ballot
                in if comp < 0
                   then bindE (bumpToBallot D ballot True s) (\<lambda>s1.
                        bindE (checkInvariants D s1) (\<lambda>_. Inr (True, s1)))
                   else if comp > 0 then Inr (False, s)
                   else bindE (checkInvariants D s) (\<lambda>_. Inr (False, s))))))"

definition updateCurrentIfNeeded :: "SCPDriver \<Rightarrow> SCPBallot \<Rightarrow> Slot \<Rightarrow> scp_error + bool \<times> Slot" where
  "updateCurrentIfNeeded D h s =
     (if (case mCurrentBallot (bp s) of None \<Rightarrow> True | Some cur \<Rightarrow> compareBallots cur h < 0)
      then bindE (bumpToBallot D h True s) (\<lambda>s1. Inr (True, s1))
      else Inr (False, s))"

definition bumpStateN ::
  "SCPDriver \<Rightarrow> (Slot \<Rightarrow> scp_error + Slot) \<Rightarrow> Value \<Rightarrow> uint32 \<Rightarrow> Slot \<Rightarrow> scp_error + bool \<times> Slot" where
  "bumpStateN D emit value n s =
     (if mPhase (bp s) \<noteq> SCP_PHASE_PREPARE \<and> mPhase (bp s) \<noteq> SCP_PHASE_CONFIRM
      then Inr (False, s)
      else
        (let newb = SCPBallot n (case mValueOverride (bp s) of Some z \<Rightarrow> z | None \<Rightarrow> value)
         in bindE (updateCurrentValue D newb s) (\<lambda>(updated, s1).
              if updated
              then bindE (emit s1) (\<lambda>s2. Inr (True, checkHeardFromQuorum D s2))
              else Inr (False, s1))))"

definition bumpState ::
  "SCPDriver \<Rightarrow> (Slot \<Rightarrow> scp_error + Slot) \<Rightarrow> Value \<Rightarrow> bool \<Rightarrow> Slot \<Rightarrow> scp_error + bool \<times> Slot" where
  "bumpState D emit value force s =
     (if \<not> force \<and> mCurrentBallot (bp s) \<noteq> None then Inr (False, s)
      else bumpStateN D emit value
             (case mCurrentBallot (bp s) of Some b \<Rightarrow> counter b + 1 | None \<Rightarrow> 1) s)"

definition abandonBallot ::
  "SCPDriver \<Rightarrow> (Slot \<Rightarrow> scp_error + Slot) \<Rightarrow> uint32 \<Rightarrow> Slot \<Rightarrow> scp_error + bool \<times> Slot" where
  "abandonBallot D emit n s =
     (let v0 = mLatestCompositeCandidate (np s);
          v = (if v0 = []
               then (case mCurrentBallot (bp s) of Some b \<Rightarrow> bvalue b | None \<Rightarrow> v0)
               else v0)
      in if v \<noteq> []
         then (if n = 0 then bumpState D emit v True s else bumpStateN D emit v n s)
         else Inr (False, s))"

definition ballotProtocolTimerExpired ::
  "SCPDriver \<Rightarrow> (Slot \<Rightarrow> scp_error + Slot) \<Rightarrow> Slot \<Rightarrow> scp_error + Slot" where
  "ballotProtocolTimerExpired D emit s =
     bindE (abandonBallot D emit 0 s) (\<lambda>(r, s1). Inr s1)"

subsection \<open>Predicates on statements\<close>

fun hasPreparedBallot :: "SCPBallot \<Rightarrow> SCPStatement \<Rightarrow> bool" where
  "hasPreparedBallot ballot st =
     (case pledges st of
        Prepare h b p p' nC nH \<Rightarrow>
          (case p of Some pb \<Rightarrow> areBallotsLessAndCompatible ballot pb | None \<Rightarrow> False) \<or>
          (case p' of Some pb \<Rightarrow> areBallotsLessAndCompatible ballot pb | None \<Rightarrow> False)
      | Confirm b nP nC nH h \<Rightarrow> areBallotsLessAndCompatible ballot (SCPBallot nP (bvalue b))
      | Externalize c nH h \<Rightarrow> areBallotsCompatible ballot c
      | Nominate h vs acc \<Rightarrow> False)"

text \<open>The vote predicate of \<open>attemptPreparedAccept\<close> (a lambda in the source).\<close>

fun votesPrepare :: "SCPBallot \<Rightarrow> SCPStatement \<Rightarrow> bool" where
  "votesPrepare ballot st =
     (case pledges st of
        Prepare h b p p' nC nH \<Rightarrow> areBallotsLessAndCompatible ballot b
      | Confirm b nP nC nH h \<Rightarrow> areBallotsCompatible ballot b
      | Externalize c nH h \<Rightarrow> areBallotsCompatible ballot c
      | Nominate h vs acc \<Rightarrow> False)"

type_synonym Interval = "uint32 \<times> uint32"

fun commitPredicate :: "SCPBallot \<Rightarrow> Interval \<Rightarrow> SCPStatement \<Rightarrow> bool" where
  "commitPredicate ballot chk st =
     (case pledges st of
        Prepare h b p p' nC nH \<Rightarrow> False
      | Confirm b nP nC nH h \<Rightarrow>
          areBallotsCompatible ballot b \<and> nC \<le> fst chk \<and> snd chk \<le> nH
      | Externalize c nH h \<Rightarrow> areBallotsCompatible ballot c \<and> counter c \<le> fst chk
      | Nominate h vs acc \<Rightarrow> False)"

text \<open>The vote predicate of \<open>attemptAcceptCommit\<close> (a lambda in the source).\<close>

fun votesCommit :: "SCPBallot \<Rightarrow> Interval \<Rightarrow> SCPStatement \<Rightarrow> bool" where
  "votesCommit ballot cur st =
     (case pledges st of
        Prepare h b p p' nC nH \<Rightarrow>
          areBallotsCompatible ballot b \<and> nC \<noteq> 0 \<and> nC \<le> fst cur \<and> snd cur \<le> nH
      | Confirm b nP nC nH h \<Rightarrow> areBallotsCompatible ballot b \<and> nC \<le> fst cur
      | Externalize c nH h \<Rightarrow> areBallotsCompatible ballot c \<and> counter c \<le> fst cur
      | Nominate h vs acc \<Rightarrow> False)"

subsection \<open>Candidate ballots\<close>

fun hintBallots :: "SCPPledges \<Rightarrow> SCPBallot list" where
  "hintBallots (Prepare h b p p' nC nH) =
     (let l1 = set_insert b [];
          l2 = (case p of Some pb \<Rightarrow> set_insert pb l1 | None \<Rightarrow> l1)
      in (case p' of Some pb \<Rightarrow> set_insert pb l2 | None \<Rightarrow> l2))"
| "hintBallots (Confirm b nP nC nH h) =
     set_insert (SCPBallot UINT32_MAX (bvalue b)) (set_insert (SCPBallot nP (bvalue b)) [])"
| "hintBallots (Externalize c nH h) = set_insert (SCPBallot UINT32_MAX (bvalue c)) []"
| "hintBallots (Nominate h vs acc) = []"

fun insertIf :: "bool \<Rightarrow> SCPBallot \<Rightarrow> SCPBallot list \<Rightarrow> SCPBallot list" where
  "insertIf c b l = (if c then set_insert b l else l)"

fun statementCandidates :: "SCPBallot \<Rightarrow> SCPPledges \<Rightarrow> SCPBallot list \<Rightarrow> SCPBallot list" where
  "statementCandidates topVote (Prepare h b p p' nC nH) cs =
     (let c1 = insertIf (areBallotsLessAndCompatible b topVote) b cs;
          c2 = (case p of
                  Some pb \<Rightarrow> insertIf (areBallotsLessAndCompatible pb topVote) pb c1 | None \<Rightarrow> c1)
      in (case p' of
            Some pb \<Rightarrow> insertIf (areBallotsLessAndCompatible pb topVote) pb c2 | None \<Rightarrow> c2))"
| "statementCandidates topVote (Confirm b nP nC nH h) cs =
     (if areBallotsCompatible topVote b
      then insertIf (nP < counter topVote) (SCPBallot nP (bvalue topVote)) (set_insert topVote cs)
      else cs)"
| "statementCandidates topVote (Externalize c nH h) cs =
     insertIf (areBallotsCompatible topVote c) topVote cs"
| "statementCandidates topVote (Nominate h vs acc) cs = cs"

text \<open>The hint ballots are consumed from the largest to the smallest.\<close>

fun candidatesLoop :: "EnvelopeMap \<Rightarrow> SCPBallot list \<Rightarrow> SCPBallot list \<Rightarrow> SCPBallot list" where
  "candidatesLoop m [] cs = cs"
| "candidatesLoop m (topVote # hs) cs =
     candidatesLoop m hs
       (fold (\<lambda>(n, e) cs. statementCandidates topVote (pledges (statement e)) cs) m cs)"

definition getPrepareCandidates :: "Slot \<Rightarrow> SCPStatement \<Rightarrow> SCPBallot list" where
  "getPrepareCandidates s hint =
     candidatesLoop (mLatestEnvelopes (bp s)) (rev (hintBallots (pledges hint))) []"

subsection \<open>Accepting a ballot as prepared\<close>

definition setPrepared :: "SCPBallot \<Rightarrow> Slot \<Rightarrow> bool \<times> Slot" where
  "setPrepared ballot s =
     (case mPrepared (bp s) of
        Some p \<Rightarrow>
          (let comp = compareBallots p ballot
           in if comp < 0
              then (True, bp_update (\<lambda>b. b\<lparr>mPreparedPrime :=
                       (if \<not> areBallotsCompatible p ballot then Some p else mPreparedPrime b),
                     mPrepared := Some ballot\<rparr>) s)
              else if comp > 0 \<and>
                      (case mPreparedPrime (bp s) of
                         None \<Rightarrow> True
                       | Some p' \<Rightarrow> compareBallots p' ballot < 0 \<and> \<not> areBallotsCompatible p ballot)
              then (True, bp_update (\<lambda>b. b\<lparr>mPreparedPrime := Some ballot\<rparr>) s)
              else (False, s))
      | None \<Rightarrow> (True, bp_update (\<lambda>b. b\<lparr>mPrepared := Some ballot\<rparr>) s))"

definition lessIncompatiblePtr :: "SCPBallot \<Rightarrow> SCPBallot option \<Rightarrow> bool" where
  "lessIncompatiblePtr h p =
     (case p of Some pb \<Rightarrow> areBallotsLessAndIncompatible h pb | None \<Rightarrow> False)"

definition setPreparedAccept ::
  "SCPDriver \<Rightarrow> (Slot \<Rightarrow> scp_error + Slot) \<Rightarrow> SCPBallot \<Rightarrow> Slot \<Rightarrow> scp_error + bool \<times> Slot" where
  "setPreparedAccept D emit ballot s =
     (let (didWork1, s1) = setPrepared ballot s
      in bindE
           (case (mCommit (bp s1), mHighBallot (bp s1)) of
              (Some c, Some h) \<Rightarrow>
                if lessIncompatiblePtr h (mPrepared (bp s1)) \<or>
                   lessIncompatiblePtr h (mPreparedPrime (bp s1))
                then bindE (dbgAssert D (mPhase (bp s1) = SCP_PHASE_PREPARE)) (\<lambda>_.
                     Inr (True, bp_update (\<lambda>b. b\<lparr>mCommit := None\<rparr>) s1))
                else Inr (didWork1, s1)
            | _ \<Rightarrow> Inr (didWork1, s1)) (\<lambda>(didWork, s2).
         if didWork
         then bindE (emit (driverCall (AcceptedBallotPrepared (mSlotIndex s2) ballot) s2))
                (\<lambda>s3. Inr (True, s3))
         else Inr (False, s2)))"

text \<open>The search of \<open>attemptPreparedAccept\<close>: the first candidate that can be accepted.\<close>

fun findAcceptPrepared ::
  "SCPDriver \<Rightarrow> Slot \<Rightarrow> SCPBallot list \<Rightarrow> scp_error + SCPBallot option" where
  "findAcceptPrepared D s [] = Inr None"
| "findAcceptPrepared D s (ballot # bs) =
     bindE
       (if mPhase (bp s) = SCP_PHASE_CONFIRM
        then bindE (derefE NullDeref (mPrepared (bp s))) (\<lambda>p.
               if \<not> areBallotsLessAndCompatible p ballot then Inr True
               else if NDEBUG D then Inr False
               else bindE (derefE NullDeref (mCommit (bp s))) (\<lambda>c.
                    bindE (dbgAssert D (areBallotsCompatible c ballot)) (\<lambda>_. Inr False)))
        else Inr False) (\<lambda>skip1.
     if skip1 \<or>
        (case mPreparedPrime (bp s) of Some p' \<Rightarrow> compareBallots ballot p' \<le> 0 | None \<Rightarrow> False) \<or>
        (case mPrepared (bp s) of Some p \<Rightarrow> areBallotsLessAndCompatible ballot p | None \<Rightarrow> False)
     then findAcceptPrepared D s bs
     else if federatedAccept D s (votesPrepare ballot) (hasPreparedBallot ballot)
               (mLatestEnvelopes (bp s))
     then Inr (Some ballot)
     else findAcceptPrepared D s bs)"

definition attemptPreparedAccept ::
  "SCPDriver \<Rightarrow> (Slot \<Rightarrow> scp_error + Slot) \<Rightarrow> SCPStatement \<Rightarrow> Slot \<Rightarrow> scp_error + bool \<times> Slot" where
  "attemptPreparedAccept D emit hint s =
     (if mPhase (bp s) \<noteq> SCP_PHASE_PREPARE \<and> mPhase (bp s) \<noteq> SCP_PHASE_CONFIRM
      then Inr (False, s)
      else bindE (findAcceptPrepared D s (rev (getPrepareCandidates s hint))) (\<lambda>r.
           case r of
             None \<Rightarrow> Inr (False, s)
           | Some ballot \<Rightarrow> setPreparedAccept D emit ballot s))"

subsection \<open>Confirming a ballot as prepared\<close>

text \<open>
  The two loops of \<open>attemptPreparedConfirmed\<close> share an iterator: the search for the new
  high ballot returns it together with the remaining candidates, itself first, from which
  the lowest ballot to commit is computed.
\<close>

fun findNewH :: "SCPDriver \<Rightarrow> Slot \<Rightarrow> SCPBallot list \<Rightarrow> (SCPBallot \<times> SCPBallot list) option" where
  "findNewH D s [] = None"
| "findNewH D s (ballot # bs) =
     (if (case mHighBallot (bp s) of Some h \<Rightarrow> compareBallots h ballot \<ge> 0 | None \<Rightarrow> False)
      then None
      else if federatedRatify D s (hasPreparedBallot ballot) (mLatestEnvelopes (bp s))
      then Some (ballot, ballot # bs)
      else findNewH D s bs)"

fun findNewC ::
  "SCPDriver \<Rightarrow> Slot \<Rightarrow> SCPBallot \<Rightarrow> SCPBallot \<Rightarrow> SCPBallot list \<Rightarrow> SCPBallot \<Rightarrow> SCPBallot" where
  "findNewC D s b newH [] newC = newC"
| "findNewC D s b newH (ballot # bs) newC =
     (if compareBallots ballot b < 0 then newC
      else if \<not> areBallotsLessAndCompatible ballot newH then findNewC D s b newH bs newC
      else if federatedRatify D s (hasPreparedBallot ballot) (mLatestEnvelopes (bp s))
      then findNewC D s b newH bs ballot
      else newC)"

text \<open>The part of \<open>setPreparedConfirmed\<close> that may raise \<open>h\<close> and set \<open>c\<close>.\<close>

definition setConfirmedBallots ::
  "SCPDriver \<Rightarrow> SCPBallot \<Rightarrow> SCPBallot \<Rightarrow> Slot \<Rightarrow> scp_error + bool \<times> Slot" where
  "setConfirmedBallots D newC newH s =
     (if (case mCurrentBallot (bp s) of None \<Rightarrow> True | Some b \<Rightarrow> areBallotsCompatible b newH)
      then
        (let raise = (case mHighBallot (bp s) of
                        None \<Rightarrow> True | Some h \<Rightarrow> compareBallots newH h > 0);
             s2 = (if raise then bp_update (\<lambda>b. b\<lparr>mHighBallot := Some newH\<rparr>) s else s)
         in bindE
              (if counter newC \<noteq> 0
               then bindE (dbgAssert D (mCommit (bp s2) = None)) (\<lambda>_.
                    Inr (True, bp_update (\<lambda>b. b\<lparr>mCommit := Some newC\<rparr>) s2))
               else Inr (raise, s2)) (\<lambda>(didWork, s3).
            Inr (didWork,
                 if didWork
                 then driverCall (ConfirmedBallotPrepared (mSlotIndex s3) newH) s3
                 else s3)))
      else Inr (False, s))"

definition setPreparedConfirmed ::
  "SCPDriver \<Rightarrow> (Slot \<Rightarrow> scp_error + Slot) \<Rightarrow> SCPBallot \<Rightarrow> SCPBallot \<Rightarrow> Slot \<Rightarrow>
   scp_error + bool \<times> Slot" where
  "setPreparedConfirmed D emit newC newH s =
     bindE (setConfirmedBallots D newC newH
              (bp_update (\<lambda>b. b\<lparr>mValueOverride := Some (bvalue newH)\<rparr>) s)) (\<lambda>(didWork1, s4).
     bindE (updateCurrentIfNeeded D newH s4) (\<lambda>(didWork2, s5).
     if didWork2 \<or> didWork1
     then bindE (emit s5) (\<lambda>s6. Inr (True, s6))
     else Inr (False, s5)))"

definition attemptPreparedConfirmed ::
  "SCPDriver \<Rightarrow> (Slot \<Rightarrow> scp_error + Slot) \<Rightarrow> SCPStatement \<Rightarrow> Slot \<Rightarrow> scp_error + bool \<times> Slot" where
  "attemptPreparedConfirmed D emit hint s =
     (if mPhase (bp s) \<noteq> SCP_PHASE_PREPARE then Inr (False, s)
      else if mPrepared (bp s) = None then Inr (False, s)
      else
        (case findNewH D s (rev (getPrepareCandidates s hint)) of
           None \<Rightarrow> Inr (False, s)
         | Some (newH, rest) \<Rightarrow>
             (let b = (case mCurrentBallot (bp s) of Some cur \<Rightarrow> cur | None \<Rightarrow> SCPBallot0);
                  newC = (if mCommit (bp s) = None \<and>
                             \<not> lessIncompatiblePtr newH (mPrepared (bp s)) \<and>
                             \<not> lessIncompatiblePtr newH (mPreparedPrime (bp s))
                          then findNewC D s b newH rest SCPBallot0
                          else SCPBallot0)
              in setPreparedConfirmed D emit newC newH s)))"

subsection \<open>Accepting and confirming a commit\<close>

fun extendInterval :: "(Interval \<Rightarrow> bool) \<Rightarrow> uint32 list \<Rightarrow> Interval \<Rightarrow> Interval" where
  "extendInterval P [] candidate = candidate"
| "extendInterval P (b # bs) candidate =
     (if fst candidate \<noteq> 0 \<and> b > snd candidate then extendInterval P bs candidate
      else
        (let cur = (if fst candidate = 0 then (b, b) else (b, snd candidate))
         in if P cur then extendInterval P bs cur
            else if fst candidate \<noteq> 0 then candidate
            else extendInterval P bs candidate))"

text \<open>\<open>boundaries\<close> is a \<open>std::set\<close>, visited from the largest element down.\<close>

definition findExtendedInterval :: "uint32 list \<Rightarrow> (Interval \<Rightarrow> bool) \<Rightarrow> Interval" where
  "findExtendedInterval boundaries P = extendInterval P (rev boundaries) (0, 0)"

fun statementBoundaries :: "SCPBallot \<Rightarrow> SCPPledges \<Rightarrow> uint32 list \<Rightarrow> uint32 list" where
  "statementBoundaries ballot (Prepare h b p p' nC nH) res =
     (if areBallotsCompatible ballot b \<and> nC \<noteq> 0 then set_insert nH (set_insert nC res) else res)"
| "statementBoundaries ballot (Confirm b nP nC nH h) res =
     (if areBallotsCompatible ballot b then set_insert nH (set_insert nC res) else res)"
| "statementBoundaries ballot (Externalize c nH h) res =
     (if areBallotsCompatible ballot c
      then set_insert UINT32_MAX (set_insert nH (set_insert (counter c) res)) else res)"
| "statementBoundaries ballot (Nominate h vs acc) res = res"

definition getCommitBoundariesFromStatements :: "Slot \<Rightarrow> SCPBallot \<Rightarrow> uint32 list" where
  "getCommitBoundariesFromStatements s ballot =
     fold (\<lambda>(n, e) res. statementBoundaries ballot (pledges (statement e)) res)
       (mLatestEnvelopes (bp s)) []"

text \<open>The two parts of \<open>setAcceptCommit\<close> that precede its emission.\<close>

definition setCommitBallots :: "SCPBallot \<Rightarrow> SCPBallot \<Rightarrow> Slot \<Rightarrow> bool \<times> Slot" where
  "setCommitBallots c h s =
     (if (case (mHighBallot (bp s), mCommit (bp s)) of
            (Some h0, Some c0) \<Rightarrow> compareBallots h0 h \<noteq> 0 \<or> compareBallots c0 c \<noteq> 0
          | _ \<Rightarrow> True)
      then (True, bp_update (\<lambda>b. b\<lparr>mCommit := Some c, mHighBallot := Some h\<rparr>) s)
      else (False, s))"

definition enterConfirmPhase :: "SCPDriver \<Rightarrow> SCPBallot \<Rightarrow> Slot \<Rightarrow> scp_error + Slot" where
  "enterConfirmPhase D h s =
     (let s1 = bp_update (\<lambda>b. b\<lparr>mPhase := SCP_PHASE_CONFIRM\<rparr>) s
      in bindE
           (if (case mCurrentBallot (bp s1) of
                  None \<Rightarrow> False | Some b \<Rightarrow> \<not> areBallotsLessAndCompatible h b)
            then bumpToBallot D h False s1
            else Inr s1) (\<lambda>s2.
         Inr (bp_update (\<lambda>b. b\<lparr>mPreparedPrime := None\<rparr>) s2)))"

definition setAcceptCommit ::
  "SCPDriver \<Rightarrow> (Slot \<Rightarrow> scp_error + Slot) \<Rightarrow> SCPBallot \<Rightarrow> SCPBallot \<Rightarrow> Slot \<Rightarrow>
   scp_error + bool \<times> Slot" where
  "setAcceptCommit D emit c h s =
     (let (changed, s2) = setCommitBallots c h
                            (bp_update (\<lambda>b. b\<lparr>mValueOverride := Some (bvalue h)\<rparr>) s)
      in bindE
           (if mPhase (bp s2) = SCP_PHASE_PREPARE
            then bindE (enterConfirmPhase D h s2) (\<lambda>s4. Inr (True, s4))
            else Inr (changed, s2)) (\<lambda>(didWork, s5).
         if didWork
         then bindE (derefE NullDeref (mHighBallot (bp s5))) (\<lambda>hb.
              bindE (updateCurrentIfNeeded D hb s5) (\<lambda>(w, s6).
              bindE (emit (driverCall (AcceptedCommit (mSlotIndex s6) h) s6)) (\<lambda>s7. Inr (True, s7))))
         else Inr (False, s5)))"

fun acceptCommitBallot :: "SCPPledges \<Rightarrow> SCPBallot option" where
  "acceptCommitBallot (Prepare h b p p' nC nH) =
     (if nC \<noteq> 0 then Some (SCPBallot nH (bvalue b)) else None)"
| "acceptCommitBallot (Confirm b nP nC nH h) = Some (SCPBallot nH (bvalue b))"
| "acceptCommitBallot (Externalize c nH h) = Some (SCPBallot nH (bvalue c))"
| "acceptCommitBallot (Nominate h vs acc) = None"

definition attemptAcceptCommit ::
  "SCPDriver \<Rightarrow> (Slot \<Rightarrow> scp_error + Slot) \<Rightarrow> SCPStatement \<Rightarrow> Slot \<Rightarrow> scp_error + bool \<times> Slot" where
  "attemptAcceptCommit D emit hint s =
     (if mPhase (bp s) \<noteq> SCP_PHASE_PREPARE \<and> mPhase (bp s) \<noteq> SCP_PHASE_CONFIRM
      then Inr (False, s)
      else
        (case acceptCommitBallot (pledges hint) of
           None \<Rightarrow> Inr (False, s)
         | Some ballot \<Rightarrow>
             bindE (if mPhase (bp s) = SCP_PHASE_CONFIRM
                    then bindE (derefE NullDeref (mHighBallot (bp s))) (\<lambda>h.
                         Inr (\<not> areBallotsCompatible ballot h, counter h))
                    else Inr (False, 0)) (\<lambda>(incompatible, hn).
             if incompatible then Inr (False, s)
             else
               (let P = (\<lambda>cur. federatedAccept D s (votesCommit ballot cur)
                                  (commitPredicate ballot cur) (mLatestEnvelopes (bp s)));
                    boundaries = getCommitBoundariesFromStatements s ballot
                in if boundaries = [] then Inr (False, s)
                   else
                     (let candidate = findExtendedInterval boundaries P
                      in if fst candidate \<noteq> 0 \<and>
                            (mPhase (bp s) \<noteq> SCP_PHASE_CONFIRM \<or> snd candidate > hn)
                         then setAcceptCommit D emit (SCPBallot (fst candidate) (bvalue ballot))
                                (SCPBallot (snd candidate) (bvalue ballot)) s
                         else Inr (False, s))))))"

definition setConfirmCommit ::
  "SCPDriver \<Rightarrow> (Slot \<Rightarrow> scp_error + Slot) \<Rightarrow> SCPBallot \<Rightarrow> SCPBallot \<Rightarrow> Slot \<Rightarrow>
   scp_error + bool \<times> Slot" where
  "setConfirmCommit D emit c h s =
     (let s1 = bp_update (\<lambda>b. b\<lparr>mCommit := Some c, mHighBallot := Some h\<rparr>) s
      in bindE (updateCurrentIfNeeded D h s1) (\<lambda>(w, s2).
         (let s3 = bp_update (\<lambda>b. b\<lparr>mPhase := SCP_PHASE_EXTERNALIZE\<rparr>) s2
          in bindE (emit s3) (\<lambda>s4.
             (let s5 = stopNomination s4
              in bindE (derefE NullDeref (mCommit (bp s5))) (\<lambda>c'.
                 Inr (True, driverCall (ValueExternalized (mSlotIndex s5) (bvalue c')) s5)))))))"

fun confirmCommitBallot :: "SCPPledges \<Rightarrow> SCPBallot option" where
  "confirmCommitBallot (Prepare h b p p' nC nH) = None"
| "confirmCommitBallot (Confirm b nP nC nH h) = Some (SCPBallot nH (bvalue b))"
| "confirmCommitBallot (Externalize c nH h) = Some (SCPBallot nH (bvalue c))"
| "confirmCommitBallot (Nominate h vs acc) = None"

definition attemptConfirmCommit ::
  "SCPDriver \<Rightarrow> (Slot \<Rightarrow> scp_error + Slot) \<Rightarrow> SCPStatement \<Rightarrow> Slot \<Rightarrow> scp_error + bool \<times> Slot" where
  "attemptConfirmCommit D emit hint s =
     (if mPhase (bp s) \<noteq> SCP_PHASE_CONFIRM then Inr (False, s)
      else
        (case (mHighBallot (bp s), mCommit (bp s), confirmCommitBallot (pledges hint)) of
           (Some h0, Some c0, Some ballot) \<Rightarrow>
             if \<not> areBallotsCompatible ballot c0 then Inr (False, s)
             else
               (let boundaries = getCommitBoundariesFromStatements s ballot;
                    P = (\<lambda>cur. federatedRatify D s (commitPredicate ballot cur)
                                 (mLatestEnvelopes (bp s)));
                    candidate = findExtendedInterval boundaries P
                in if fst candidate \<noteq> 0
                   then setConfirmCommit D emit (SCPBallot (fst candidate) (bvalue ballot))
                          (SCPBallot (snd candidate) (bvalue ballot)) s
                   else Inr (False, s))
         | _ \<Rightarrow> Inr (False, s)))"

subsection \<open>Catching up with a blocking set that is ahead\<close>

fun statementBallotCounter :: "SCPStatement \<Rightarrow> uint32" where
  "statementBallotCounter st =
     (case pledges st of
        Prepare h b p p' nC nH \<Rightarrow> counter b
      | Confirm b nP nC nH h \<Rightarrow> counter b
      | Externalize c nH h \<Rightarrow> UINT32_MAX
      | Nominate h vs acc \<Rightarrow> 0)"

definition hasVBlockingSubsetStrictlyAheadOf :: "Slot \<Rightarrow> uint32 \<Rightarrow> bool" where
  "hasVBlockingSubsetStrictlyAheadOf s n =
     isVBlockingMap (mQSet (localNode s)) (mLatestEnvelopes (bp s))
       (\<lambda>st. statementBallotCounter st > n)"

definition countersAbove :: "EnvelopeMap \<Rightarrow> uint32 \<Rightarrow> uint32 list" where
  "countersAbove m n =
     fold (\<lambda>(i, e) cs. let c = statementBallotCounter (statement e)
                       in if c > n then set_insert c cs else cs) m []"

definition attemptBump ::
  "SCPDriver \<Rightarrow> (Slot \<Rightarrow> scp_error + Slot) \<Rightarrow> Slot \<Rightarrow> scp_error + bool \<times> Slot" where
  "attemptBump D emit s =
     (if mPhase (bp s) = SCP_PHASE_PREPARE \<or> mPhase (bp s) = SCP_PHASE_CONFIRM
      then
        (let localCounter = counterOr0 (mCurrentBallot (bp s))
         in if \<not> hasVBlockingSubsetStrictlyAheadOf s localCounter then Inr (False, s)
            else
              (case find (\<lambda>n. \<not> hasVBlockingSubsetStrictlyAheadOf s n)
                      (countersAbove (mLatestEnvelopes (bp s)) localCounter) of
                 None \<Rightarrow> Inr (False, s)
               | Some n \<Rightarrow> abandonBallot D emit n s))
      else Inr (False, s))"

subsection \<open>Advancing the slot and processing envelopes\<close>

definition MAX_ADVANCE_SLOT_RECURSION :: int where
  "MAX_ADVANCE_SLOT_RECURSION = 50"

fun bumpLoop ::
  "nat \<Rightarrow> SCPDriver \<Rightarrow> (Slot \<Rightarrow> scp_error + Slot) \<Rightarrow> bool \<Rightarrow> Slot \<Rightarrow> scp_error + bool \<times> Slot" where
  "bumpLoop 0 D emit didWork s = Inl OutOfFuel"
| "bumpLoop (Suc k) D emit didWork s =
     bindE (attemptBump D emit s) (\<lambda>(didBump, s1).
       if didBump then bumpLoop k D emit True s1 else Inr (didWork, s1))"

text \<open>The four attempts of \<open>advanceSlot\<close>, and the catch-up loop at the outermost level.\<close>

definition attemptTransitions ::
  "SCPDriver \<Rightarrow> (Slot \<Rightarrow> scp_error + Slot) \<Rightarrow> SCPStatement \<Rightarrow> Slot \<Rightarrow> scp_error + bool \<times> Slot" where
  "attemptTransitions D emit hint s =
     bindE (attemptPreparedAccept D emit hint s) (\<lambda>(w1, s1).
     bindE (attemptPreparedConfirmed D emit hint s1) (\<lambda>(w2, s2).
     bindE (attemptAcceptCommit D emit hint s2) (\<lambda>(w3, s3).
     bindE (attemptConfirmCommit D emit hint s3) (\<lambda>(w4, s4).
     Inr (w1 \<or> w2 \<or> w3 \<or> w4, s4)))))"

definition catchUp ::
  "nat \<Rightarrow> SCPDriver \<Rightarrow> (Slot \<Rightarrow> scp_error + Slot) \<Rightarrow> bool \<Rightarrow> Slot \<Rightarrow> scp_error + bool \<times> Slot" where
  "catchUp k D emit didWork s =
     (if mCurrentMessageLevel (bp s) = 1
      then bindE (bumpLoop k D emit didWork s) (\<lambda>(w, s1). Inr (w, checkHeardFromQuorum D s1))
      else Inr (didWork, s))"

definition advanceSlot ::
  "nat \<Rightarrow> SCPDriver \<Rightarrow> (Slot \<Rightarrow> scp_error + Slot) \<Rightarrow> SCPStatement \<Rightarrow> Slot \<Rightarrow> scp_error + Slot" where
  "advanceSlot k D emit hint s0 =
     (let s = bp_update (\<lambda>b. b\<lparr>mCurrentMessageLevel := mCurrentMessageLevel b + 1\<rparr>) s0
      in if mCurrentMessageLevel (bp s) \<ge> MAX_ADVANCE_SLOT_RECURSION
         then Inl (RuntimeError ''maximum number of transitions reached in advanceSlot'')
         else
           bindE (attemptTransitions D emit hint s) (\<lambda>(didWork, s1).
           bindE (catchUp k D emit didWork s1) (\<lambda>(didWork, s2).
           (let s3 = bp_update (\<lambda>b. b\<lparr>mCurrentMessageLevel := mCurrentMessageLevel b - 1\<rparr>) s2
            in Inr (if didWork then sendLatestEnvelope s3 else s3)))))"

definition processEnvelope_with ::
  "SCPDriver \<Rightarrow> (SCPStatement \<Rightarrow> Slot \<Rightarrow> scp_error + Slot) \<Rightarrow> SCPEnvelope \<Rightarrow> bool \<Rightarrow> Slot \<Rightarrow>
   scp_error + EnvelopeState \<times> Slot" where
  "processEnvelope_with D advance envelope self s =
     bindE (dbgAssert D (slotIndex (statement envelope) = mSlotIndex s)) (\<lambda>_.
     bindE (isStatementSane D (statement envelope) self) (\<lambda>sane.
     if \<not> sane then Inr (INVALID, s)
     else if \<not> isNewerStatementFrom s (nodeID (statement envelope)) (statement envelope)
     then Inr (INVALID, s)
     else
       (let validationRes = validateValues D s (statement envelope)
        in if validationRes \<noteq> kInvalidValue
           then
             (if mPhase (bp s) \<noteq> SCP_PHASE_EXTERNALIZE
              then
                (let s1 = (if validationRes = kMaybeValidValue then setFullyValidated False s else s)
                 in bindE (advance (statement envelope) (recordEnvelope D envelope s1)) (\<lambda>s2.
                    Inr (VALID, s2)))
              else
                bindE (derefE NullDeref (mCommit (bp s))) (\<lambda>c.
                if bvalue c = bvalue (getWorkingBallot (statement envelope))
                then Inr (VALID, recordEnvelope D envelope s)
                else Inr (INVALID, s)))
           else Inr (INVALID, s))))"

fun processEnvelope ::
  "nat \<Rightarrow> SCPDriver \<Rightarrow> SCPEnvelope \<Rightarrow> bool \<Rightarrow> Slot \<Rightarrow> scp_error + EnvelopeState \<times> Slot" where
  "processEnvelope 0 D envelope self s = Inl OutOfFuel"
| "processEnvelope (Suc k) D envelope self s =
     processEnvelope_with D
       (advanceSlot k D (emitCurrentStateStatement D (\<lambda>e. processEnvelope k D e True)))
       envelope self s"

text \<open>The emission used by the operations that enter the protocol from outside.\<close>

definition emitStatement :: "nat \<Rightarrow> SCPDriver \<Rightarrow> Slot \<Rightarrow> scp_error + Slot" where
  "emitStatement k D = emitCurrentStateStatement D (\<lambda>e. processEnvelope k D e True)"

subsection \<open>Restoring and reporting state\<close>

text \<open>\<open>setStateFromEnvelope\<close>; the dispatch on the statement type happens in \<open>Slot\<close>.\<close>

definition setStateFromEnvelope :: "SCPDriver \<Rightarrow> SCPEnvelope \<Rightarrow> Slot \<Rightarrow> scp_error + Slot" where
  "setStateFromEnvelope D e s =
     (if mCurrentBallot (bp s) \<noteq> None
      then Inl (RuntimeError ''Cannot set state after starting ballot protocol'')
      else
        (let s1 = recordEnvelope D e s;
             s2 = bp_update (\<lambda>b. b\<lparr>mLastEnvelope := Some e, mLastEnvelopeEmit := Some e\<rparr>) s1
         in case pledges (statement e) of
              Prepare hq b p p' nC nH \<Rightarrow>
                bindE (bumpToBallot D b True s2) (\<lambda>s3.
                Inr (bp_update (\<lambda>x. x\<lparr>
                  mPrepared := (if p \<noteq> None then p else mPrepared x),
                  mPreparedPrime := (if p' \<noteq> None then p' else mPreparedPrime x),
                  mHighBallot := (if nH \<noteq> 0 then Some (SCPBallot nH (bvalue b)) else mHighBallot x),
                  mCommit := (if nC \<noteq> 0 then Some (SCPBallot nC (bvalue b)) else mCommit x),
                  mPhase := SCP_PHASE_PREPARE\<rparr>) s3))
            | Confirm b nP nC nH hq \<Rightarrow>
                bindE (bumpToBallot D b True s2) (\<lambda>s3.
                Inr (bp_update (\<lambda>x. x\<lparr>
                  mPrepared := Some (SCPBallot nP (bvalue b)),
                  mHighBallot := Some (SCPBallot nH (bvalue b)),
                  mCommit := Some (SCPBallot nC (bvalue b)),
                  mPhase := SCP_PHASE_CONFIRM\<rparr>) s3))
            | Externalize c nH hq \<Rightarrow>
                bindE (bumpToBallot D (SCPBallot UINT32_MAX (bvalue c)) True s2) (\<lambda>s3.
                Inr (bp_update (\<lambda>x. x\<lparr>
                  mPrepared := Some (SCPBallot UINT32_MAX (bvalue c)),
                  mHighBallot := Some (SCPBallot nH (bvalue c)),
                  mCommit := Some c,
                  mPhase := SCP_PHASE_EXTERNALIZE\<rparr>) s3))
            | Nominate hq vs acc \<Rightarrow> Inl AbortError))"

definition getCurrentState :: "Slot \<Rightarrow> SCPEnvelope list" where
  "getCurrentState s =
     map snd (filter (\<lambda>(n, e). n \<noteq> mNodeID (localNode s) \<or> mFullyValidated s)
                (mLatestEnvelopes (bp s)))"

definition getLatestMessage :: "Slot \<Rightarrow> NodeID \<Rightarrow> SCPEnvelope option" where
  "getLatestMessage s n = map_of (mLatestEnvelopes (bp s)) n"

definition getExternalizingState :: "Slot \<Rightarrow> scp_error + SCPEnvelope list" where
  "getExternalizingState s =
     (if mPhase (bp s) = SCP_PHASE_EXTERNALIZE
      then bindE (if list_all (\<lambda>(n, e). n = mNodeID (localNode s)) (mLatestEnvelopes (bp s))
                  then Inr SCPBallot0 else derefE NullDeref (mCommit (bp s))) (\<lambda>c.
           Inr (map snd (filter
             (\<lambda>(n, e). if n \<noteq> mNodeID (localNode s)
                       then areBallotsCompatible (getWorkingBallot (statement e)) c
                       else mFullyValidated s) (mLatestEnvelopes (bp s)))))
      else Inr [])"

end
