(* ===== verification/Ballot_Steps.thy ===== *)
theory Ballot_Steps
  imports Ballot_Protocol
begin

text \<open>
  The abstract transition system of the ballot protocol and the refinement theorem that
  connects the code to it. A step is one change of the protocol variables (\<open>core\<close>)
  together with the guard under which the code makes it; a step that the code follows by an
  emission also knows that the new state can be emitted (\<open>emittable\<close>). The states between
  a change and its emission are obtained from the operations of \<open>Ballot_Protocol\<close> with the
  identity emission \<open>Inr\<close>. The locale \<open>ballot_emission\<close> is the contract of an emission:
  it only succeeds from emittable states and performs steps itself. Under this contract every
  operation performs steps, so the emission built from \<open>processEnvelope\<close> satisfies the
  contract by induction on its fuel, and every operation of the protocol refines the system.
\<close>

declare hasPreparedBallot.simps [simp del] votesPrepare.simps [simp del]
  commitPredicate.simps [simp del] votesCommit.simps [simp del]

lemmas statement_predicates = hasPreparedBallot.simps votesPrepare.simps commitPredicate.simps
  votesCommit.simps

subsection \<open>The protocol variables\<close>

text \<open>
  The envelopes the node has handed to the network or is about to (\<open>mLastEnvelope\<close>).
\<close>

definition outbox :: "Slot \<Rightarrow> SCPEnvelope set" where
  "outbox s = {e. EmitEnvelope e \<in> set (driverCalls s)} \<union> set_option (mLastEnvelope (bp s))"

lemma outbox_frame [simp]:
  "(\<And>b. mLastEnvelope (f b) = mLastEnvelope b) \<Longrightarrow> outbox (bp_update f s) = outbox s"
  "outbox (np_update g s) = outbox s"
  "outbox (s\<lparr>mFullyValidated := v\<rparr>) = outbox s"
  "outbox (s\<lparr>mStatementsHistory := hist\<rparr>) = outbox s"
  "(\<And>e. c \<noteq> EmitEnvelope e) \<Longrightarrow> outbox (driverCall c s) = outbox s"
  by (auto simp: outbox_def driverCall_def)

definition core where
  "core s = (localNode s, mSlotIndex s, mPhase (bp s), mCurrentBallot (bp s), mPrepared (bp s),
     mPreparedPrime (bp s), mHighBallot (bp s), mCommit (bp s), mLatestEnvelopes (bp s), outbox s)"

text \<open>Two slots that differ at most in what was sent.\<close>

definition sameVars :: "Slot \<Rightarrow> Slot \<Rightarrow> bool" where
  "sameVars s t \<longleftrightarrow>
     localNode t = localNode s \<and> mSlotIndex t = mSlotIndex s \<and> mPhase (bp t) = mPhase (bp s) \<and>
     mCurrentBallot (bp t) = mCurrentBallot (bp s) \<and> mPrepared (bp t) = mPrepared (bp s) \<and>
     mPreparedPrime (bp t) = mPreparedPrime (bp s) \<and> mHighBallot (bp t) = mHighBallot (bp s) \<and>
     mCommit (bp t) = mCommit (bp s) \<and> mLatestEnvelopes (bp t) = mLatestEnvelopes (bp s)"

named_theorems core_simps \<open>effect of the operations on the protocol variables\<close>

lemma core_driverCall [core_simps]:
  "(\<And>e. c \<noteq> EmitEnvelope e) \<Longrightarrow> core (driverCall c s) = core s"
  by (simp add: core_def)

lemma core_sendLatestEnvelope [core_simps]: "core (sendLatestEnvelope s) = core s"
  by (auto simp: core_def sendLatestEnvelope_def outbox_def driverCall_def split: option.splits)

lemma core_checkHeardFromQuorum [core_simps]: "core (checkHeardFromQuorum D s) = core s"
  by (simp add: core_def checkHeardFromQuorum_def Let_def startBallotProtocolTimer_def
      stopBallotProtocolTimer_def split: option.splits)

lemma core_stopNomination [core_simps]: "core (stopNomination s) = core s"
  by (simp add: core_def stopNomination_def)

lemma core_setFullyValidated [core_simps]: "core (setFullyValidated v s) = core s"
  by (simp add: core_def setFullyValidated_def)

lemma core_message_level [core_simps]:
  "core (bp_update (\<lambda>b. b\<lparr>mCurrentMessageLevel := f b\<rparr>) s) = core s"
  "core (bp_update (\<lambda>b. b\<lparr>mValueOverride := z\<rparr>) s) = core s"
  "core (bp_update (\<lambda>b. b\<lparr>mHeardFromQuorum := q\<rparr>) s) = core s"
  by (simp_all add: core_def)

lemma coreD:
  "core t = core s \<Longrightarrow>
   localNode t = localNode s \<and> mSlotIndex t = mSlotIndex s \<and> mPhase (bp t) = mPhase (bp s) \<and>
   mCurrentBallot (bp t) = mCurrentBallot (bp s) \<and> mPrepared (bp t) = mPrepared (bp s) \<and>
   mPreparedPrime (bp t) = mPreparedPrime (bp s) \<and> mHighBallot (bp t) = mHighBallot (bp s) \<and>
   mCommit (bp t) = mCommit (bp s) \<and> mLatestEnvelopes (bp t) = mLatestEnvelopes (bp s) \<and>
   outbox t = outbox s"
  by (simp add: core_def)

subsection \<open>Emittable states and sane recorded statements\<close>

definition emittable :: "SCPDriver \<Rightarrow> Slot \<Rightarrow> bool" where
  "emittable D t \<longleftrightarrow>
     (\<exists>st. createStatement D (mPhase (bp t)) t = Inr st \<and> pledgesSane True (pledges st))"

definition recordedSane :: "Slot \<Rightarrow> bool" where
  "recordedSane s \<longleftrightarrow> map_sorted (mLatestEnvelopes (bp s)) \<and> (\<forall>n e. map_of (mLatestEnvelopes (bp s)) n = Some e \<longrightarrow>
     pledgesSane True (pledges (statement e)) \<and> nodeID (statement e) = n)"

lemma pledgesSane_weaken: "pledgesSane self pl \<Longrightarrow> pledgesSane True pl"
  by (cases pl) auto

lemma isStatementSaneD: "isStatementSane D st self = Inr True \<Longrightarrow> pledgesSane self (pledges st)"
  by (cases "pledges st") (auto simp: isStatementSane_def split: if_splits)

lemma recordEnvelope_sel [simp]:
  "localNode (recordEnvelope D e s) = localNode s"
  "mSlotIndex (recordEnvelope D e s) = mSlotIndex s"
  "mPhase (bp (recordEnvelope D e s)) = mPhase (bp s)"
  "mCurrentBallot (bp (recordEnvelope D e s)) = mCurrentBallot (bp s)"
  "mPrepared (bp (recordEnvelope D e s)) = mPrepared (bp s)"
  "mPreparedPrime (bp (recordEnvelope D e s)) = mPreparedPrime (bp s)"
  "mHighBallot (bp (recordEnvelope D e s)) = mHighBallot (bp s)"
  "mCommit (bp (recordEnvelope D e s)) = mCommit (bp s)"
  "mCurrentMessageLevel (bp (recordEnvelope D e s)) = mCurrentMessageLevel (bp s)"
  "mLatestEnvelopes (bp (recordEnvelope D e s)) =
     map_insert (nodeID (statement e)) e (mLatestEnvelopes (bp s))"
  "outbox (recordEnvelope D e s) = outbox s"
  by (simp_all add: recordEnvelope_def recordStatement_def)

subsection \<open>Guards of the transitions\<close>

definition acceptPreparedGuard :: "SCPDriver \<Rightarrow> Slot \<Rightarrow> SCPBallot \<Rightarrow> bool" where
  "acceptPreparedGuard D s ballot \<longleftrightarrow>
     mPhase (bp s) \<noteq> SCP_PHASE_EXTERNALIZE \<and>
     (mPhase (bp s) = SCP_PHASE_CONFIRM \<longrightarrow>
        (\<exists>p. mPrepared (bp s) = Some p \<and> areBallotsLessAndCompatible p ballot)) \<and>
     (\<forall>p'. mPreparedPrime (bp s) = Some p' \<longrightarrow> p' < ballot) \<and>
     (\<forall>p. mPrepared (bp s) = Some p \<longrightarrow> \<not> areBallotsLessAndCompatible ballot p) \<and>
     federatedAccept D s (votesPrepare ballot) (hasPreparedBallot ballot) (mLatestEnvelopes (bp s))"

definition confirmPreparedGuard :: "SCPDriver \<Rightarrow> Slot \<Rightarrow> SCPBallot \<Rightarrow> SCPBallot \<Rightarrow> bool" where
  "confirmPreparedGuard D s newC newH \<longleftrightarrow>
     mPhase (bp s) = SCP_PHASE_PREPARE \<and> mPrepared (bp s) \<noteq> None \<and>
     (\<forall>h. mHighBallot (bp s) = Some h \<longrightarrow> h < newH) \<and>
     federatedRatify D s (hasPreparedBallot newH) (mLatestEnvelopes (bp s)) \<and>
     (newC = SCPBallot0 \<or>
      mCommit (bp s) = None \<and> areBallotsLessAndCompatible newC newH \<and>
      (\<forall>b. mCurrentBallot (bp s) = Some b \<longrightarrow> b \<le> newC) \<and>
      \<not> lessIncompatiblePtr newH (mPrepared (bp s)) \<and>
      \<not> lessIncompatiblePtr newH (mPreparedPrime (bp s)) \<and>
      federatedRatify D s (hasPreparedBallot newC) (mLatestEnvelopes (bp s)))"

definition acceptCommitGuard :: "SCPDriver \<Rightarrow> Slot \<Rightarrow> SCPBallot \<Rightarrow> SCPBallot \<Rightarrow> bool" where
  "acceptCommitGuard D s c h \<longleftrightarrow>
     (mPhase (bp s) = SCP_PHASE_PREPARE \<or>
      mPhase (bp s) = SCP_PHASE_CONFIRM \<and>
        (\<exists>h0. mHighBallot (bp s) = Some h0 \<and> bvalue h0 = bvalue h \<and> counter h0 < counter h)) \<and>
     counter c \<noteq> 0 \<and> areBallotsLessAndCompatible c h \<and>
     federatedAccept D s (votesCommit h (counter c, counter h))
       (commitPredicate h (counter c, counter h)) (mLatestEnvelopes (bp s))"

definition confirmCommitGuard :: "SCPDriver \<Rightarrow> Slot \<Rightarrow> SCPBallot \<Rightarrow> SCPBallot \<Rightarrow> bool" where
  "confirmCommitGuard D s c h \<longleftrightarrow>
     mPhase (bp s) = SCP_PHASE_CONFIRM \<and>
     (\<exists>c0. mCommit (bp s) = Some c0 \<and> bvalue c0 = bvalue c) \<and>
     counter c \<noteq> 0 \<and> areBallotsLessAndCompatible c h \<and>
     federatedRatify D s (commitPredicate h (counter c, counter h)) (mLatestEnvelopes (bp s))"

definition recordGuard :: "SCPDriver \<Rightarrow> Slot \<Rightarrow> SCPEnvelope \<Rightarrow> bool" where
  "recordGuard D s e \<longleftrightarrow>
     (\<exists>self. isStatementSane D (statement e) self = Inr True) \<and>
     isNewerStatementFrom s (nodeID (statement e)) (statement e) \<and>
     validateValues D s (statement e) \<noteq> kInvalidValue \<and>
     (mPhase (bp s) = SCP_PHASE_EXTERNALIZE \<longrightarrow>
        (\<exists>c. mCommit (bp s) = Some c \<and> bvalue c = bvalue (getWorkingBallot (statement e))))"

subsection \<open>The transition system\<close>

text \<open>
  \<open>X\<close> is the set of envelopes that come from outside. The node records one of them or an
  envelope it has just created for its own state, and it announces only envelopes that agree
  with its state.
\<close>

definition ownEnvelope :: "SCPDriver \<Rightarrow> Slot \<Rightarrow> SCPEnvelope \<Rightarrow> bool" where
  "ownEnvelope D s e \<longleftrightarrow>
     (\<exists>st. createStatement D (mPhase (bp s)) s = Inr st \<and> e = createEnvelope D st s)"

definition attests :: "Slot \<Rightarrow> SCPEnvelope \<Rightarrow> bool" where
  "attests s e \<longleftrightarrow>
     nodeID (statement e) = mNodeID (localNode s) \<and>
     getCompanionQuorumSetHashFromStatement (statement e) = mQSetHash (localNode s) \<and>
     (case pledges (statement e) of
        Confirm b nP nC nH h \<Rightarrow> mPhase (bp s) \<noteq> SCP_PHASE_PREPARE \<and>
          (\<exists>c. mCommit (bp s) = Some c \<and> bvalue c = bvalue b)
      | Externalize c nH h \<Rightarrow> mPhase (bp s) = SCP_PHASE_EXTERNALIZE \<and>
          (\<exists>c'. mCommit (bp s) = Some c' \<and> bvalue c' = bvalue c)
      | _ \<Rightarrow> True)"

inductive ballot_step :: "SCPDriver \<Rightarrow> SCPEnvelope set \<Rightarrow> Slot \<Rightarrow> Slot \<Rightarrow> bool" for D X where
  frame: "core t = core s \<Longrightarrow> ballot_step D X s t"
| announce: "sameVars s t \<Longrightarrow> outbox t \<subseteq> insert e (outbox s) \<Longrightarrow> attests s e \<Longrightarrow>
    ballot_step D X s t"
| record_env: "recordGuard D s e \<Longrightarrow> e \<in> X \<or> ownEnvelope D s e \<Longrightarrow>
    core t = core (recordEnvelope D e s) \<Longrightarrow> ballot_step D X s t"
| accept_prepared: "acceptPreparedGuard D s ballot \<Longrightarrow>
    setPreparedAccept D Inr ballot s = Inr (True, t) \<Longrightarrow> emittable D t \<Longrightarrow> ballot_step D X s t"
| confirm_prepared: "confirmPreparedGuard D s newC newH \<Longrightarrow>
    setPreparedConfirmed D Inr newC newH s = Inr (True, t) \<Longrightarrow> emittable D t \<Longrightarrow> ballot_step D X s t"
| accept_commit: "acceptCommitGuard D s c h \<Longrightarrow>
    setAcceptCommit D Inr c h s = Inr (True, t) \<Longrightarrow> emittable D t \<Longrightarrow> ballot_step D X s t"
| confirm_commit: "confirmCommitGuard D s c h \<Longrightarrow>
    setConfirmCommit D Inr c h s = Inr (True, t) \<Longrightarrow> emittable D t \<Longrightarrow> ballot_step D X s t"
| bump: "updateCurrentValue D ballot s = Inr (True, t) \<Longrightarrow> emittable D t \<Longrightarrow> ballot_step D X s t"

abbreviation ballot_steps :: "SCPDriver \<Rightarrow> SCPEnvelope set \<Rightarrow> Slot \<Rightarrow> Slot \<Rightarrow> bool" where
  "ballot_steps D X \<equiv> (ballot_step D X)\<^sup>*\<^sup>*"

lemma steps_frame: "ballot_steps D X s t \<Longrightarrow> core u = core t \<Longrightarrow> ballot_steps D X s u"
  by (meson ballot_step.frame rtranclp.rtrancl_into_rtrancl)

lemma steps_frame': "core t = core s \<Longrightarrow> ballot_steps D X t u \<Longrightarrow> ballot_steps D X s u"
  by (meson ballot_step.frame converse_rtranclp_into_rtranclp)

subsection \<open>Effects of the state changes on the protocol variables\<close>

definition keepCompatible :: "SCPBallot \<Rightarrow> SCPBallot option \<Rightarrow> SCPBallot option" where
  "keepCompatible b ho =
     (case ho of None \<Rightarrow> None | Some h \<Rightarrow> if areBallotsCompatible b h then Some h else None)"

lemma bumpToBallot_effect:
  "bumpToBallot D b chk s = Inr t \<Longrightarrow>
   core t = core (bp_update (\<lambda>x. x\<lparr>mCurrentBallot := Some b,
     mHighBallot := keepCompatible b (mHighBallot x)\<rparr>) s)"
  by (auto simp: bumpToBallot_def bindE_Inr Let_def core_def keepCompatible_def
      split: option.splits if_split_asm)

definition currentBelow :: "Slot \<Rightarrow> SCPBallot \<Rightarrow> bool" where
  "currentBelow s h = (case mCurrentBallot (bp s) of None \<Rightarrow> True | Some cur \<Rightarrow> cur < h)"

lemma updateCurrentIfNeeded_effect:
  "updateCurrentIfNeeded D h s = Inr (w, t) \<Longrightarrow>
   w = currentBelow s h \<and>
   core t = (if currentBelow s h
             then core (bp_update (\<lambda>x. x\<lparr>mCurrentBallot := Some h,
                    mHighBallot := keepCompatible h (mHighBallot x)\<rparr>) s)
             else core s)"
  by (auto simp: updateCurrentIfNeeded_def currentBelow_def err_simps ballot_order
      dest!: bumpToBallot_effect split: option.splits if_splits)

lemma updateCurrentValue_effect:
  assumes "updateCurrentValue D b s = Inr (True, t)"
  shows "mPhase (bp s) \<noteq> SCP_PHASE_EXTERNALIZE \<and> currentBelow s b \<and>
     (mCurrentBallot (bp s) \<noteq> None \<longrightarrow> (\<forall>c. mCommit (bp s) = Some c \<longrightarrow> bvalue c = bvalue b)) \<and>
     core t = core (bp_update (\<lambda>x. x\<lparr>mCurrentBallot := Some b,
                    mHighBallot := keepCompatible b (mHighBallot x)\<rparr>) s)"
  using assms
  by (auto simp: updateCurrentValue_def currentBelow_def err_simps ballot_order areBallotsCompatible_def
      dest!: bumpToBallot_effect split: option.splits if_splits)

lemma setPrepared_effect:
  "setPrepared b s = (w, t) \<Longrightarrow>
   localNode t = localNode s \<and> mSlotIndex t = mSlotIndex s \<and> mPhase (bp t) = mPhase (bp s) \<and>
   mCurrentBallot (bp t) = mCurrentBallot (bp s) \<and> mHighBallot (bp t) = mHighBallot (bp s) \<and>
   mCommit (bp t) = mCommit (bp s) \<and> mLatestEnvelopes (bp t) = mLatestEnvelopes (bp s) \<and>
   outbox t = outbox s"
  by (auto simp: setPrepared_def Let_def split: option.splits if_splits)

lemma setPreparedAccept_effect:
  assumes "setPreparedAccept D Inr b s = Inr (w, t)"
  shows "localNode t = localNode s \<and> mSlotIndex t = mSlotIndex s \<and> mPhase (bp t) = mPhase (bp s) \<and>
   mCurrentBallot (bp t) = mCurrentBallot (bp s) \<and> mHighBallot (bp t) = mHighBallot (bp s) \<and>
   mLatestEnvelopes (bp t) = mLatestEnvelopes (bp s) \<and>
   mPrepared (bp t) = mPrepared (bp (snd (setPrepared b s))) \<and>
   mPreparedPrime (bp t) = mPreparedPrime (bp (snd (setPrepared b s))) \<and>
   (mCommit (bp t) = mCommit (bp s) \<and>
      (\<forall>c h. mCommit (bp s) = Some c \<longrightarrow> mHighBallot (bp s) = Some h \<longrightarrow>
         \<not> lessIncompatiblePtr h (mPrepared (bp t)) \<and>
         \<not> lessIncompatiblePtr h (mPreparedPrime (bp t))) \<or>
    mCommit (bp t) = None) \<and> outbox t = outbox s"
proof -
  obtain w1 s1 where p: "setPrepared b s = (w1, s1)" by force
  from assms have "core t = core s1 \<and>
      (\<forall>c h. mCommit (bp s1) = Some c \<longrightarrow> mHighBallot (bp s1) = Some h \<longrightarrow>
         \<not> lessIncompatiblePtr h (mPrepared (bp s1)) \<and>
         \<not> lessIncompatiblePtr h (mPreparedPrime (bp s1))) \<or>
      core t = core (bp_update (\<lambda>b. b\<lparr>mCommit := None\<rparr>) s1)"
    by (cases "mCommit (bp s1)"; cases "mHighBallot (bp s1)")
      (auto simp: setPreparedAccept_def p bindE_Inr core_simps split: if_split_asm)
  then show ?thesis
    using setPrepared_effect [OF p] by (elim disjE) (simp_all add: p core_def)
qed

lemma setConfirmedBallots_effect:
  assumes "setConfirmedBallots D newC newH s = Inr (w, t)"
  defines "cpt \<equiv> (case mCurrentBallot (bp s) of None \<Rightarrow> True | Some b \<Rightarrow> bvalue b = bvalue newH)"
  shows "core t = core (bp_update (\<lambda>x. x\<lparr>
     mHighBallot := (if cpt \<and> (case mHighBallot (bp s) of None \<Rightarrow> True | Some h \<Rightarrow> h < newH)
                     then Some newH else mHighBallot (bp s)),
     mCommit := (if cpt \<and> counter newC \<noteq> 0 then Some newC else mCommit (bp s))\<rparr>) s)"
proof -
  have cpt: "(case mCurrentBallot (bp s) of None \<Rightarrow> True | Some b \<Rightarrow> areBallotsCompatible b newH) = cpt"
    by (auto simp: cpt_def areBallotsCompatible_def split: option.splits)
  show ?thesis
    using assms(1) unfolding setConfirmedBallots_def cpt
    by (cases cpt; cases "mHighBallot (bp s)")
      (auto simp: err_simps Let_def core_def ballot_order split: if_splits)
qed

lemma setPreparedConfirmed_effect:
  assumes "setPreparedConfirmed D Inr newC newH s = Inr (w, t)"
  defines "cpt \<equiv> (case mCurrentBallot (bp s) of None \<Rightarrow> True | Some b \<Rightarrow> bvalue b = bvalue newH)"
  defines "h1 \<equiv> (if cpt \<and> (case mHighBallot (bp s) of None \<Rightarrow> True | Some h \<Rightarrow> h < newH)
                then Some newH else mHighBallot (bp s))"
  shows "localNode t = localNode s \<and> mSlotIndex t = mSlotIndex s \<and> mPhase (bp t) = mPhase (bp s) \<and>
   mPrepared (bp t) = mPrepared (bp s) \<and> mPreparedPrime (bp t) = mPreparedPrime (bp s) \<and>
   mLatestEnvelopes (bp t) = mLatestEnvelopes (bp s) \<and>
   mCurrentBallot (bp t) = (if currentBelow s newH then Some newH else mCurrentBallot (bp s)) \<and>
   mHighBallot (bp t) = (if currentBelow s newH then keepCompatible newH h1 else h1) \<and>
   mCommit (bp t) = (if cpt \<and> counter newC \<noteq> 0 then Some newC else mCommit (bp s)) \<and>
   outbox t = outbox s"
proof -
  from assms(1) obtain w1 s4 w2 where
    s4: "setConfirmedBallots D newC newH
           (bp_update (\<lambda>b. b\<lparr>mValueOverride := Some (bvalue newH)\<rparr>) s) = Inr (w1, s4)"
    and up: "updateCurrentIfNeeded D newH s4 = Inr (w2, t)"
    by (auto simp: setPreparedConfirmed_def err_simps split: if_splits)
  note c4 = setConfirmedBallots_effect [OF s4, simplified, folded cpt_def, folded h1_def]
  have "currentBelow s4 newH = currentBelow s newH"
    using coreD [OF c4] by (simp add: currentBelow_def)
  then show ?thesis
    using updateCurrentIfNeeded_effect [OF up] coreD [OF c4]
    by (auto simp: core_def h1_def split: if_splits)
qed

lemma setCommitBallots_effect:
  "setCommitBallots c h s = (w, t) \<Longrightarrow>
   core t = core (bp_update (\<lambda>b. b\<lparr>mCommit := Some c, mHighBallot := Some h\<rparr>) s)"
  by (auto simp: setCommitBallots_def core_def ballot_order split: option.splits if_splits)

lemma enterConfirmPhase_effect:
  assumes "enterConfirmPhase D h s = Inr t" "mHighBallot (bp s) = Some h"
  shows "core t = core (bp_update (\<lambda>x. x\<lparr>mPhase := SCP_PHASE_CONFIRM, mPreparedPrime := None,
    mCurrentBallot := (case mCurrentBallot (bp s) of
       None \<Rightarrow> None | Some b \<Rightarrow> if areBallotsLessAndCompatible h b then Some b else Some h)\<rparr>) s)"
  using assms
  by (auto simp: enterConfirmPhase_def Let_def err_simps core_def keepCompatible_def
      areBallotsCompatible_def dest!: bumpToBallot_effect split: option.splits if_splits)

lemma setAcceptCommit_effect:
  assumes "setAcceptCommit D Inr c h s = Inr (True, t)"
  shows "localNode t = localNode s \<and> mSlotIndex t = mSlotIndex s \<and>
   mPhase (bp t) = (if mPhase (bp s) = SCP_PHASE_PREPARE then SCP_PHASE_CONFIRM else mPhase (bp s)) \<and>
   mPrepared (bp t) = mPrepared (bp s) \<and>
   mPreparedPrime (bp t) =
     (if mPhase (bp s) = SCP_PHASE_PREPARE then None else mPreparedPrime (bp s)) \<and>
   mLatestEnvelopes (bp t) = mLatestEnvelopes (bp s) \<and>
   mCurrentBallot (bp t) =
     (if mPhase (bp s) = SCP_PHASE_PREPARE
      then (case mCurrentBallot (bp s) of
              None \<Rightarrow> Some h
            | Some b \<Rightarrow> if areBallotsLessAndCompatible h b then Some b else Some h)
      else (if currentBelow s h then Some h else mCurrentBallot (bp s))) \<and>
   mHighBallot (bp t) = Some h \<and> mCommit (bp t) = Some c \<and> outbox t = outbox s"
proof -
  obtain ch s2 where s2: "setCommitBallots c h
      (bp_update (\<lambda>b. b\<lparr>mValueOverride := Some (bvalue h)\<rparr>) s) = (ch, s2)" by force
  note c2 = coreD [OF setCommitBallots_effect [OF s2], simplified]
  show ?thesis
  proof (cases "mPhase (bp s) = SCP_PHASE_PREPARE")
    case True
    with assms c2 obtain s4 h' w s6 where s4: "enterConfirmPhase D h s2 = Inr s4"
      and h: "mHighBallot (bp s4) = Some h'" and s6: "updateCurrentIfNeeded D h' s4 = Inr (w, s6)"
      and t: "core t = core s6"
      by (auto simp: setAcceptCommit_def s2 err_simps core_simps split: if_splits)
    from c2 have "mHighBallot (bp s2) = Some h" by simp
    note c4 = coreD [OF enterConfirmPhase_effect [OF s4 this], simplified]
    from c2 c4 h have "h' = h" by simp
    note up = updateCurrentIfNeeded_effect [OF s6, unfolded this]
    have "x < h \<Longrightarrow> \<not> areBallotsLessAndCompatible h x" for x
      by (auto simp: areBallotsLessAndCompatible_def ballot_order)
    then show ?thesis
      using True c2 c4 up coreD [OF t]
      by (auto simp: core_def currentBelow_def keepCompatible_def areBallotsCompatible_def
          split: option.splits if_splits)
  next
    case False
    with assms c2 obtain w s6 where s6: "updateCurrentIfNeeded D h s2 = Inr (w, s6)"
      and t: "core t = core s6"
      by (auto simp: setAcceptCommit_def s2 err_simps core_simps split: if_splits)
    show ?thesis
      using False c2 updateCurrentIfNeeded_effect [OF s6] coreD [OF t]
      by (auto simp: core_def currentBelow_def keepCompatible_def areBallotsCompatible_def
          split: if_splits)
  qed
qed

lemma setConfirmCommit_effect:
  assumes "setConfirmCommit D Inr c h s = Inr (w, t)"
  shows "localNode t = localNode s \<and> mSlotIndex t = mSlotIndex s \<and>
   mPhase (bp t) = SCP_PHASE_EXTERNALIZE \<and>
   mPrepared (bp t) = mPrepared (bp s) \<and> mPreparedPrime (bp t) = mPreparedPrime (bp s) \<and>
   mLatestEnvelopes (bp t) = mLatestEnvelopes (bp s) \<and>
   mCurrentBallot (bp t) = (if currentBelow s h then Some h else mCurrentBallot (bp s)) \<and>
   mHighBallot (bp t) = Some h \<and> mCommit (bp t) = Some c \<and> outbox t = outbox s"
proof -
  from assms obtain w2 s2 where
    up: "updateCurrentIfNeeded D h (bp_update (\<lambda>b. b\<lparr>mCommit := Some c, mHighBallot := Some h\<rparr>) s)
           = Inr (w2, s2)"
    and t: "core t = core (bp_update (\<lambda>b. b\<lparr>mPhase := SCP_PHASE_EXTERNALIZE\<rparr>) s2)"
    by (auto simp: setConfirmCommit_def err_simps Let_def core_simps)
  show ?thesis
    using updateCurrentIfNeeded_effect [OF up] coreD [OF t]
    by (auto simp: core_def currentBelow_def keepCompatible_def areBallotsCompatible_def
        split: if_splits)
qed

lemmas step_effects = setPreparedAccept_effect setPreparedConfirmed_effect setAcceptCommit_effect
  setConfirmCommit_effect updateCurrentValue_effect

subsection \<open>Facts that depend on the protocol variables only\<close>

lemma checkInvariants_core: "core t = core s \<Longrightarrow> checkInvariants D t = checkInvariants D s"
  by (drule coreD, elim conjE) (simp only: checkInvariants_def)

lemma createStatement_core: "core t = core s \<Longrightarrow> createStatement D p t = createStatement D p s"
  by (frule checkInvariants_core [of t s D], drule coreD, elim conjE) (simp only: createStatement_def)

lemma emittable_core: "core t = core s \<Longrightarrow> emittable D t = emittable D s"
  using createStatement_core [of t s D] by (simp add: emittable_def core_def)

lemma recordedSane_core: "core t = core s \<Longrightarrow> recordedSane t = recordedSane s"
  by (simp add: recordedSane_def core_def)

lemma recordedSane_envs:
  "mLatestEnvelopes (bp t) = mLatestEnvelopes (bp s) \<Longrightarrow> recordedSane s \<Longrightarrow> recordedSane t"
  by (simp add: recordedSane_def)

lemma recordedSane_record:
  assumes "recordedSane s" "recordGuard D s e" "core t = core (recordEnvelope D e s)"
  shows "recordedSane t"
  using assms coreD [OF assms(3)]
  by (auto simp: recordedSane_def recordGuard_def omap_simps
      dest!: isStatementSaneD intro: pledgesSane_weaken split: if_splits)

lemma recordedSane_changes:
  "setPreparedAccept D Inr b s = Inr (True, t) \<Longrightarrow> recordedSane s \<Longrightarrow> recordedSane t"
  "setPreparedConfirmed D Inr c h s = Inr (True, t) \<Longrightarrow> recordedSane s \<Longrightarrow> recordedSane t"
  "setAcceptCommit D Inr c h s = Inr (True, t) \<Longrightarrow> recordedSane s \<Longrightarrow> recordedSane t"
  "setConfirmCommit D Inr c h s = Inr (True, t) \<Longrightarrow> recordedSane s \<Longrightarrow> recordedSane t"
  "updateCurrentValue D b s = Inr (True, t) \<Longrightarrow> recordedSane s \<Longrightarrow> recordedSane t"
      apply (drule setPreparedAccept_effect, erule recordedSane_envs [rotated], elim conjE, assumption)
     apply (drule setPreparedConfirmed_effect, erule recordedSane_envs [rotated], elim conjE, assumption)
    apply (drule setAcceptCommit_effect, erule recordedSane_envs [rotated], elim conjE, assumption)
   apply (drule setConfirmCommit_effect, erule recordedSane_envs [rotated], elim conjE, assumption)
  apply (drule updateCurrentValue_effect, erule recordedSane_envs [rotated], simp add: core_def)
  done

lemma recordedSane_step:
  assumes "ballot_step D X s t" "recordedSane s"
  shows "recordedSane t"
  using assms(1)
proof (cases rule: ballot_step.cases)
  case frame
  then show ?thesis using assms(2) recordedSane_core by blast
next
  case (announce e)
  from this(1) show ?thesis by (intro recordedSane_envs [OF _ assms(2)]) (simp add: sameVars_def)
next
  case (record_env e)
  then show ?thesis by (intro recordedSane_record [OF assms(2)])
qed (erule recordedSane_changes [OF _ assms(2)])+

lemma recordedSane_steps: "ballot_steps D X s t \<Longrightarrow> recordedSane s \<Longrightarrow> recordedSane t"
  by (induction rule: rtranclp_induct) (auto intro: recordedSane_step)

end
