(* ===== verification/Ballot_Invariant.thy ===== *)
theory Ballot_Invariant
  imports Ballot_Steps
begin

text \<open>
  The invariant of the ballot protocol and what is stable along its steps. The invariant is
  the one \<open>checkInvariants\<close> asserts in debug builds (apart from the non-zero counter of the
  current ballot), strengthened by the facts the protocol needs to keep it; it is shown to be
  preserved by every step, whether the assertions are compiled in or not. Stability: the
  phase never goes back, a commit value is never revised once it is accepted, and what a
  node has attested remains true.
\<close>

lemma lac_iff: "areBallotsLessAndCompatible a b \<longleftrightarrow> a \<le> b \<and> bvalue a = bvalue b"
  by (simp add: areBallotsLessAndCompatible_def areBallotsCompatible_def ballot_order)

lemmas ballot_rel = lac_iff less_incompatible_iff areBallotsCompatible_def ballot_order

subsection \<open>The invariant\<close>

definition prepared_ok :: "SCPBallot option \<Rightarrow> SCPBallot option \<Rightarrow> bool" where
  "prepared_ok p p' \<longleftrightarrow>
     (\<forall>y. p' = Some y \<longrightarrow> (\<exists>x. p = Some x \<and> areBallotsLessAndIncompatible y x))"

definition high_ok :: "SCPBallot option \<Rightarrow> SCPBallot option \<Rightarrow> bool" where
  "high_ok b h \<longleftrightarrow> (\<forall>y. h = Some y \<longrightarrow> (\<exists>x. b = Some x \<and> areBallotsLessAndCompatible y x))"

definition commit_ok :: "SCPBallot option \<Rightarrow> SCPBallot option \<Rightarrow> bool" where
  "commit_ok h c \<longleftrightarrow>
     (\<forall>y. c = Some y \<longrightarrow> counter y \<noteq> 0 \<and> (\<exists>x. h = Some x \<and> areBallotsLessAndCompatible y x))"

definition vote_ok ::
  "SCPBallot option \<Rightarrow> SCPBallot option \<Rightarrow> SCPBallot option \<Rightarrow> SCPBallot option \<Rightarrow> bool" where
  "vote_ok p p' h c \<longleftrightarrow>
     (\<forall>y x. c = Some y \<longrightarrow> h = Some x \<longrightarrow> \<not> lessIncompatiblePtr x p \<and> \<not> lessIncompatiblePtr x p')"

definition ballot_inv :: "Slot \<Rightarrow> bool" where
  "ballot_inv s \<longleftrightarrow>
     prepared_ok (mPrepared (bp s)) (mPreparedPrime (bp s)) \<and>
     high_ok (mCurrentBallot (bp s)) (mHighBallot (bp s)) \<and>
     commit_ok (mHighBallot (bp s)) (mCommit (bp s)) \<and>
     (case mPhase (bp s) of
        SCP_PHASE_PREPARE \<Rightarrow>
          vote_ok (mPrepared (bp s)) (mPreparedPrime (bp s)) (mHighBallot (bp s)) (mCommit (bp s))
      | _ \<Rightarrow> mCommit (bp s) \<noteq> None \<and> mPrepared (bp s) \<noteq> None \<and> mPreparedPrime (bp s) = None)"

lemmas inv_parts = prepared_ok_def high_ok_def commit_ok_def vote_ok_def

lemma ballot_inv_core: "core t = core s \<Longrightarrow> ballot_inv s \<Longrightarrow> ballot_inv t"
  by (drule coreD, elim conjE) (simp only: ballot_inv_def)

lemma ballot_inv_vars:
  "mPhase (bp t) = mPhase (bp s) \<Longrightarrow> mCurrentBallot (bp t) = mCurrentBallot (bp s) \<Longrightarrow>
   mPrepared (bp t) = mPrepared (bp s) \<Longrightarrow> mPreparedPrime (bp t) = mPreparedPrime (bp s) \<Longrightarrow>
   mHighBallot (bp t) = mHighBallot (bp s) \<Longrightarrow> mCommit (bp t) = mCommit (bp s) \<Longrightarrow>
   ballot_inv s \<Longrightarrow> ballot_inv t"
  by (simp only: ballot_inv_def)

lemma ballot_inv_new: "ballot_inv (Slot_new i ln)"
  by (simp add: ballot_inv_def inv_parts Slot_new_def BallotProtocol_new_def)

text \<open>In the phases after PREPARE all ballots are there and carry one value.\<close>

lemma ballot_inv_committed:
  assumes "ballot_inv s" "mPhase (bp s) \<noteq> SCP_PHASE_PREPARE"
  obtains c h b p where "mCommit (bp s) = Some c" "mHighBallot (bp s) = Some h"
    "mCurrentBallot (bp s) = Some b" "mPrepared (bp s) = Some p" "mPreparedPrime (bp s) = None"
    "c \<le> h" "h \<le> b" "bvalue c = bvalue b" "bvalue h = bvalue b" "counter c \<noteq> 0"
proof -
  from assms obtain c p where cp: "mCommit (bp s) = Some c" "mPrepared (bp s) = Some p"
    "mPreparedPrime (bp s) = None"
    by (cases "mPhase (bp s)") (auto simp: ballot_inv_def)
  moreover from assms(1) cp(1) obtain h where h: "mHighBallot (bp s) = Some h" "c \<le> h"
    "bvalue c = bvalue h" "counter c \<noteq> 0"
    by (auto simp: ballot_inv_def commit_ok_def lac_iff)
  moreover from assms(1) h(1) obtain b where "mCurrentBallot (bp s) = Some b" "h \<le> b"
    "bvalue h = bvalue b"
    by (auto simp: ballot_inv_def high_ok_def lac_iff)
  ultimately show ?thesis using that by auto
qed

subsection \<open>Preservation\<close>

text \<open>What an emittable state guarantees beyond the effect of the change.\<close>

lemma emittable_prepare:
  "emittable D t \<Longrightarrow> mPhase (bp t) = SCP_PHASE_PREPARE \<Longrightarrow> mCommit (bp t) = Some c \<Longrightarrow>
   counter c \<noteq> 0 \<Longrightarrow> mHighBallot (bp t) \<noteq> None"
  by (cases "mHighBallot (bp t)") (auto simp: emittable_def createStatement_def bindE_Inr counterOr0_def)

lemma emittable_confirm:
  "emittable D t \<Longrightarrow> mPhase (bp t) = SCP_PHASE_CONFIRM \<Longrightarrow>
   mCommit (bp t) \<noteq> None \<and> mPrepared (bp t) \<noteq> None"
  by (auto simp: emittable_def createStatement_def err_simps)

definition newPrepared :: "SCPBallot \<Rightarrow> SCPBallot option \<Rightarrow> SCPBallot option" where
  "newPrepared b p = (case p of None \<Rightarrow> Some b | Some x \<Rightarrow> Some (max x b))"

definition newPreparedPrime ::
  "SCPBallot \<Rightarrow> SCPBallot option \<Rightarrow> SCPBallot option \<Rightarrow> SCPBallot option" where
  "newPreparedPrime b p p' =
     (case p of
        None \<Rightarrow> p'
      | Some x \<Rightarrow> if x < b then (if bvalue x = bvalue b then p' else Some x)
                 else if b < x \<and> (case p' of None \<Rightarrow> True | Some y \<Rightarrow> y < b \<and> bvalue x \<noteq> bvalue b)
                 then Some b else p')"

lemma setPrepared_sel:
  "mPrepared (bp (snd (setPrepared b s))) = newPrepared b (mPrepared (bp s))"
  "mPreparedPrime (bp (snd (setPrepared b s))) =
     newPreparedPrime b (mPrepared (bp s)) (mPreparedPrime (bp s))"
  by (auto simp add: setPrepared_def newPrepared_def newPreparedPrime_def Let_def ballot_order
        areBallotsCompatible_def max_def split: option.split)

lemma newPrepared_ok:
  assumes "prepared_ok p p'" "\<forall>x. p = Some x \<longrightarrow> \<not> areBallotsLessAndCompatible b x"
  shows "prepared_ok (newPrepared b p) (newPreparedPrime b p p')"
  using assms
  by (cases p; cases p')
    (auto simp: prepared_ok_def newPrepared_def newPreparedPrime_def lac_iff less_incompatible_iff
      max_def)

lemma newPrepared_confirm:
  assumes "areBallotsLessAndCompatible x b" "\<not> areBallotsLessAndCompatible b x"
  shows "newPreparedPrime b (Some x) p' = p'"
  using assms by (auto simp: newPreparedPrime_def lac_iff)

lemma inv_accept_prepared:
  assumes "ballot_inv s" "acceptPreparedGuard D s ballot"
    "setPreparedAccept D Inr ballot s = Inr (True, t)" "emittable D t"
  shows "ballot_inv t"
proof -
  note eff = setPreparedAccept_effect [OF assms(3)]
  have g: "\<forall>p. mPrepared (bp s) = Some p \<longrightarrow> \<not> areBallotsLessAndCompatible ballot p"
    and ne: "mPhase (bp s) \<noteq> SCP_PHASE_EXTERNALIZE"
    using assms(2) by (auto simp: acceptPreparedGuard_def)
  have p: "prepared_ok (mPrepared (bp t)) (mPreparedPrime (bp t))" "mPrepared (bp t) \<noteq> None"
    using newPrepared_ok [OF _ g] assms(1) eff
    by (auto simp: ballot_inv_def setPrepared_sel newPrepared_def split: option.splits)
  have hc: "high_ok (mCurrentBallot (bp t)) (mHighBallot (bp t))"
    "commit_ok (mHighBallot (bp t)) (mCommit (bp t))"
    using assms(1) eff by (auto simp: ballot_inv_def commit_ok_def)
  show ?thesis
  proof (cases "mPhase (bp s)")
    case SCP_PHASE_PREPARE
    with p hc eff show ?thesis by (auto simp: ballot_inv_def vote_ok_def)
  next
    case SCP_PHASE_CONFIRM
    with assms(2) have "mPreparedPrime (bp t) = mPreparedPrime (bp s)"
      using eff by (auto simp: acceptPreparedGuard_def setPrepared_sel newPrepared_confirm)
    with SCP_PHASE_CONFIRM p hc eff emittable_confirm [OF assms(4)] assms(1) show ?thesis
      by (auto simp: ballot_inv_def)
  qed (use ne in simp)
qed

lemma inv_confirm_prepared:
  assumes "ballot_inv s" "confirmPreparedGuard D s newC newH"
    "setPreparedConfirmed D Inr newC newH s = Inr (True, t)" "emittable D t"
  shows "ballot_inv t"
proof -
  note eff = setPreparedConfirmed_effect [OF assms(3)]
  have ph: "mPhase (bp s) = SCP_PHASE_PREPARE" and hi: "\<forall>h. mHighBallot (bp s) = Some h \<longrightarrow> h < newH"
    using assms(2) by (auto simp: confirmPreparedGuard_def)
  have pt: "mPhase (bp t) = SCP_PHASE_PREPARE" using eff ph by simp
  have inv: "high_ok (mCurrentBallot (bp s)) (mHighBallot (bp s))"
    "commit_ok (mHighBallot (bp s)) (mCommit (bp s))"
    "vote_ok (mPrepared (bp s)) (mPreparedPrime (bp s)) (mHighBallot (bp s)) (mCommit (bp s))"
    "prepared_ok (mPrepared (bp s)) (mPreparedPrime (bp s))"
    using assms(1) ph by (auto simp: ballot_inv_def)
  have nc: "newC = SCPBallot0 \<or> mCommit (bp s) = None \<and> areBallotsLessAndCompatible newC newH \<and>
      \<not> lessIncompatiblePtr newH (mPrepared (bp s)) \<and> \<not> lessIncompatiblePtr newH (mPreparedPrime (bp s))"
    using assms(2) by (auto simp: confirmPreparedGuard_def)
  have "high_ok (mCurrentBallot (bp t)) (mHighBallot (bp t)) \<and>
    commit_ok (mHighBallot (bp t)) (mCommit (bp t)) \<and>
    vote_ok (mPrepared (bp t)) (mPreparedPrime (bp t)) (mHighBallot (bp t)) (mCommit (bp t))"
  proof (cases "mCurrentBallot (bp s)")
    case None
    with inv have "mHighBallot (bp s) = None" "mCommit (bp s) = None"
      by (auto simp: high_ok_def commit_ok_def)
    with None eff nc show ?thesis
      by (auto simp: inv_parts currentBelow_def keepCompatible_def ballot_rel SCPBallot0_def)
  next
    case (Some b)
    show ?thesis
    proof (cases "bvalue b = bvalue newH")
      case True
      have h: "mHighBallot (bp t) = Some newH"
        using Some True eff hi
        by (cases "mHighBallot (bp s)") (auto simp: currentBelow_def keepCompatible_def ballot_rel)
      have c: "mCommit (bp t) = (if counter newC \<noteq> 0 then Some newC else mCommit (bp s))"
        using Some True eff by auto
      have "high_ok (mCurrentBallot (bp t)) (mHighBallot (bp t))"
        using Some eff h True by (auto simp: high_ok_def currentBelow_def lac_iff)
      moreover have "commit_ok (mHighBallot (bp t)) (mCommit (bp t))"
      proof (cases "counter newC = 0")
        case True
        then show ?thesis
          using inv(1,2) hi Some h c \<open>bvalue b = bvalue newH\<close>
          by (auto simp: commit_ok_def high_ok_def lac_iff)
      next
        case False
        then show ?thesis using nc h c by (auto simp: commit_ok_def SCPBallot0_def)
      qed
      moreover have "vote_ok (mPrepared (bp t)) (mPreparedPrime (bp t)) (mHighBallot (bp t))
         (mCommit (bp t))"
      proof (cases "counter newC = 0")
        case True
        have "lessIncompatiblePtr newH p \<Longrightarrow> h \<le> newH \<Longrightarrow> bvalue h = bvalue newH \<Longrightarrow>
            lessIncompatiblePtr h p" for h p
          by (cases p) (auto simp: lessIncompatiblePtr_def less_incompatible_iff)
        then show ?thesis
          using inv(1-3) hi Some h c eff True \<open>bvalue b = bvalue newH\<close>
          by (fastforce simp: vote_ok_def commit_ok_def high_ok_def lac_iff)
      next
        case False
        then show ?thesis using nc h c eff by (auto simp: vote_ok_def SCPBallot0_def)
      qed
      ultimately show ?thesis by blast
    next
      case False
      have c: "mCommit (bp t) = mCommit (bp s)" using Some False eff by simp
      have h: "mHighBallot (bp t) =
          (if b < newH then keepCompatible newH (mHighBallot (bp s)) else mHighBallot (bp s))"
        using Some False eff by (simp add: currentBelow_def)
      have "mHighBallot (bp t) = None \<or> mHighBallot (bp t) = mHighBallot (bp s) \<and> \<not> b < newH"
        using Some False h inv(1)
        by (cases "mHighBallot (bp s)") (auto simp: high_ok_def keepCompatible_def ballot_rel)
      then show ?thesis
      proof
        assume "mHighBallot (bp t) = None"
        moreover from this have "mCommit (bp t) = None"
          using emittable_prepare [OF assms(4) pt] c inv(2)
          by (cases "mCommit (bp s)") (auto simp: commit_ok_def)
        ultimately show ?thesis by (simp add: inv_parts)
      next
        assume "mHighBallot (bp t) = mHighBallot (bp s) \<and> \<not> b < newH"
        then show ?thesis using Some False eff inv c by (simp add: currentBelow_def)
      qed
    qed
  qed
  then show ?thesis using eff ph inv by (simp add: ballot_inv_def)
qed

lemma inv_accept_commit:
  assumes "ballot_inv s" "acceptCommitGuard D s c h"
    "setAcceptCommit D Inr c h s = Inr (True, t)" "emittable D t"
  shows "ballot_inv t"
proof -
  note eff = setAcceptCommit_effect [OF assms(3)]
  have g: "counter c \<noteq> 0" "areBallotsLessAndCompatible c h"
    using assms(2) by (auto simp: acceptCommitGuard_def)
  have ph: "mPhase (bp t) = SCP_PHASE_CONFIRM"
    using assms(2) eff by (auto simp: acceptCommitGuard_def)
  have "\<exists>b. mCurrentBallot (bp t) = Some b \<and> areBallotsLessAndCompatible h b"
  proof (cases "mPhase (bp s) = SCP_PHASE_PREPARE")
    case True
    with eff show ?thesis by (auto simp: lac_iff split: option.splits if_splits)
  next
    case False
    from ballot_inv_committed [OF assms(1) False] obtain h0 b where
      "mHighBallot (bp s) = Some h0" "mCurrentBallot (bp s) = Some b" "bvalue h0 = bvalue b"
      by metis
    with False eff assms(2) show ?thesis
      by (auto simp: acceptCommitGuard_def currentBelow_def lac_iff)
  qed
  moreover have "mPreparedPrime (bp t) = None"
    using eff ballot_inv_committed [OF assms(1)] by (cases "mPhase (bp s) = SCP_PHASE_PREPARE") auto
  ultimately show ?thesis
    using ph eff g emittable_confirm [OF assms(4)]
    by (auto simp: ballot_inv_def prepared_ok_def high_ok_def commit_ok_def)
qed

lemma inv_confirm_commit:
  assumes "ballot_inv s" "confirmCommitGuard D s c h" "setConfirmCommit D Inr c h s = Inr (True, t)"
  shows "ballot_inv t"
proof -
  note eff = setConfirmCommit_effect [OF assms(3)]
  have g: "mPhase (bp s) = SCP_PHASE_CONFIRM" "counter c \<noteq> 0" "areBallotsLessAndCompatible c h"
    "\<exists>c0. mCommit (bp s) = Some c0 \<and> bvalue c0 = bvalue c"
    using assms(2) by (auto simp: confirmCommitGuard_def)
  from ballot_inv_committed [OF assms(1)] g(1) obtain c0 b p where
    "mCommit (bp s) = Some c0" "mCurrentBallot (bp s) = Some b" "bvalue c0 = bvalue b"
    "mPrepared (bp s) = Some p" "mPreparedPrime (bp s) = None"
    by (metis SCPPhase.distinct(1))
  with g eff show ?thesis
    by (auto simp: ballot_inv_def prepared_ok_def high_ok_def commit_ok_def lac_iff currentBelow_def)
qed

lemma inv_bump:
  assumes "ballot_inv s" "updateCurrentValue D b s = Inr (True, t)"
  shows "ballot_inv t"
proof -
  from updateCurrentValue_effect [OF assms(2)] have
    below: "currentBelow s b" and cv: "mCurrentBallot (bp s) \<noteq> None \<longrightarrow>
       (\<forall>c. mCommit (bp s) = Some c \<longrightarrow> bvalue c = bvalue b)"
    and co: "core t = core (bp_update (\<lambda>x. x\<lparr>mCurrentBallot := Some b,
                    mHighBallot := keepCompatible b (mHighBallot x)\<rparr>) s)" by auto
  note eff = coreD [OF co, simplified]
  have hk: "mHighBallot (bp t) = mHighBallot (bp s)" if "mCommit (bp s) \<noteq> None"
    using that eff assms(1) cv
    by (auto simp: ballot_inv_def commit_ok_def high_ok_def keepCompatible_def ballot_rel)
  have "high_ok (mCurrentBallot (bp t)) (mHighBallot (bp t))"
    using eff below assms(1)
    by (cases "mHighBallot (bp s)")
      (auto simp: ballot_inv_def high_ok_def keepCompatible_def currentBelow_def ballot_rel)
  moreover have "commit_ok (mHighBallot (bp t)) (mCommit (bp t))"
    using hk eff assms(1) by (cases "mCommit (bp s)") (auto simp: ballot_inv_def commit_ok_def)
  moreover have "vote_ok p p' (mHighBallot (bp s)) (mCommit (bp s)) \<Longrightarrow>
      vote_ok p p' (mHighBallot (bp t)) (mCommit (bp t))" for p p'
    using hk eff by (cases "mCommit (bp s)") (auto simp: vote_ok_def)
  ultimately show ?thesis
    using eff assms(1) by (cases "mPhase (bp s)") (auto simp: ballot_inv_def)
qed

lemma ballot_inv_step:
  assumes "ballot_step D X s t" "ballot_inv s"
  shows "ballot_inv t"
  using assms(1)
proof (cases rule: ballot_step.cases)
  case (announce e)
  from this(1) assms(2) show ?thesis by (intro ballot_inv_vars [of t s]) (simp_all add: sameVars_def)
next
  case (record_env e)
  from coreD [OF this(3)] assms(2) show ?thesis by (intro ballot_inv_vars [of t s]) simp_all
qed (use assms(2) in \<open>blast intro: ballot_inv_core inv_accept_prepared inv_confirm_prepared
      inv_accept_commit inv_confirm_commit inv_bump\<close>)+

lemma ballot_inv_steps: "ballot_steps D X s t \<Longrightarrow> ballot_inv s \<Longrightarrow> ballot_inv t"
  by (induction rule: rtranclp_induct) (auto intro: ballot_inv_step)

subsection \<open>What is stable\<close>

text \<open>The lexicographic position of a state: the phase, then the current ballot.\<close>

fun phase_num :: "SCPPhase \<Rightarrow> nat" where
  "phase_num SCP_PHASE_PREPARE = 0"
| "phase_num SCP_PHASE_CONFIRM = 1"
| "phase_num SCP_PHASE_EXTERNALIZE = 2"

definition ballotLe :: "SCPBallot option \<Rightarrow> SCPBallot option \<Rightarrow> bool" where
  "ballotLe b b' \<longleftrightarrow> (\<forall>x. b = Some x \<longrightarrow> (\<exists>y. b' = Some y \<and> x \<le> y))"

lemma ballotLe_refl [simp]: "ballotLe b b" by (simp add: ballotLe_def)

lemma ballotLe_trans: "ballotLe a b \<Longrightarrow> ballotLe b c \<Longrightarrow> ballotLe a c"
  by (fastforce simp: ballotLe_def)

lemma ballotLe_below: "ballotLe (mCurrentBallot (bp s)) (if currentBelow s h then Some h else mCurrentBallot (bp s))"
  by (auto simp: ballotLe_def currentBelow_def)

definition notBefore :: "Slot \<Rightarrow> Slot \<Rightarrow> bool" where
  "notBefore s t \<longleftrightarrow>
     phase_num (mPhase (bp s)) < phase_num (mPhase (bp t)) \<or>
     mPhase (bp s) = mPhase (bp t) \<and> ballotLe (mCurrentBallot (bp s)) (mCurrentBallot (bp t))"

definition commitKept :: "Slot \<Rightarrow> Slot \<Rightarrow> bool" where
  "commitKept s t \<longleftrightarrow> mPhase (bp s) \<noteq> SCP_PHASE_PREPARE \<longrightarrow>
     map_option bvalue (mCommit (bp t)) = map_option bvalue (mCommit (bp s))"

definition finalKept :: "Slot \<Rightarrow> Slot \<Rightarrow> bool" where
  "finalKept s t \<longleftrightarrow> mPhase (bp s) = SCP_PHASE_EXTERNALIZE \<longrightarrow>
     mPhase (bp t) = SCP_PHASE_EXTERNALIZE \<and> mCommit (bp t) = mCommit (bp s) \<and>
     mHighBallot (bp t) = mHighBallot (bp s) \<and> mCurrentBallot (bp t) = mCurrentBallot (bp s) \<and>
     mPrepared (bp t) = mPrepared (bp s)"

definition stable :: "Slot \<Rightarrow> Slot \<Rightarrow> bool" where
  "stable s t \<longleftrightarrow> localNode t = localNode s \<and> mSlotIndex t = mSlotIndex s \<and> notBefore s t \<and>
     commitKept s t \<and> finalKept s t"

lemmas stable_defs = stable_def notBefore_def commitKept_def finalKept_def

lemma stable_vars:
  "localNode t = localNode s \<and> mSlotIndex t = mSlotIndex s \<and> mPhase (bp t) = mPhase (bp s) \<and>
   mCurrentBallot (bp t) = mCurrentBallot (bp s) \<and> mPrepared (bp t) = mPrepared (bp s) \<and>
   mHighBallot (bp t) = mHighBallot (bp s) \<and> mCommit (bp t) = mCommit (bp s) \<Longrightarrow> stable s t"
  by (simp add: stable_defs)

lemma stable_refl [simp]: "stable s s"
  by (simp add: stable_vars)

lemma stable_accept_prepared:
  assumes "ballot_inv s" "acceptPreparedGuard D s ballot"
    "setPreparedAccept D Inr ballot s = Inr (True, t)" "emittable D t"
  shows "stable s t"
proof -
  note eff = setPreparedAccept_effect [OF assms(3)]
  have "mPhase (bp s) \<noteq> SCP_PHASE_EXTERNALIZE" using assms(2) by (simp add: acceptPreparedGuard_def)
  moreover have "mCommit (bp t) = mCommit (bp s)" if "mPhase (bp s) = SCP_PHASE_CONFIRM"
    using eff emittable_confirm [OF assms(4)] that by auto
  ultimately show ?thesis using eff by (cases "mPhase (bp s)") (auto simp: stable_defs)
qed

lemma stable_accept_commit:
  assumes "ballot_inv s" "acceptCommitGuard D s c h" "setAcceptCommit D Inr c h s = Inr (True, t)"
  shows "stable s t"
proof -
  note eff = setAcceptCommit_effect [OF assms(3)]
  have "bvalue c = bvalue h" using assms(2) by (simp add: acceptCommitGuard_def lac_iff)
  moreover have "\<exists>c0. mCommit (bp s) = Some c0 \<and> bvalue c0 = bvalue h"
    if ph: "mPhase (bp s) = SCP_PHASE_CONFIRM"
  proof (rule ballot_inv_committed [OF assms(1)])
    show "mPhase (bp s) \<noteq> SCP_PHASE_PREPARE" using ph by simp
  next
    fix c0 h0 b p
    assume "mCommit (bp s) = Some c0" "mHighBallot (bp s) = Some h0" "bvalue c0 = bvalue b"
      "bvalue h0 = bvalue b"
    with ph assms(2) show ?thesis by (auto simp: acceptCommitGuard_def)
  qed
  moreover have "mPhase (bp s) \<noteq> SCP_PHASE_EXTERNALIZE"
    using assms(2) by (auto simp: acceptCommitGuard_def)
  ultimately show ?thesis
    using eff ballotLe_below [of s h] by (cases "mPhase (bp s)") (auto simp: stable_defs)
qed

lemma stable_confirm_commit:
  assumes "confirmCommitGuard D s c h" "setConfirmCommit D Inr c h s = Inr (True, t)"
  shows "stable s t"
  using setConfirmCommit_effect [OF assms(2)] assms(1)
  by (auto simp: stable_defs confirmCommitGuard_def)

lemma stable_bump:
  assumes "ballot_inv s" "updateCurrentValue D b s = Inr (True, t)"
  shows "stable s t"
  using updateCurrentValue_effect [OF assms(2)] ballotLe_below [of s b]
  by (auto simp: stable_defs core_def)

lemma stable_step:
  assumes "ballot_step D X s t" "ballot_inv s"
  shows "stable s t"
  using assms(1)
proof (cases rule: ballot_step.cases)
  case frame
  from coreD [OF this] show ?thesis by (intro stable_vars) simp
next
  case (announce e)
  from this(1) show ?thesis by (intro stable_vars) (simp add: sameVars_def)
next
  case (record_env e)
  from coreD [OF this(3)] show ?thesis by (intro stable_vars) simp
next
  case (confirm_prepared newC newH)
  from confirm_prepared(1) setPreparedConfirmed_effect [OF confirm_prepared(2)]
    ballotLe_below [of s newH] show ?thesis
    by (auto simp: stable_defs confirmPreparedGuard_def)
qed (use assms(2) in \<open>blast intro: stable_accept_prepared stable_accept_commit
      stable_confirm_commit stable_bump\<close>)+

lemma notBefore_trans: "notBefore s t \<Longrightarrow> notBefore t u \<Longrightarrow> notBefore s u"
  by (auto simp: notBefore_def intro: ballotLe_trans)

lemma notBefore_phase: "notBefore s t \<Longrightarrow> mPhase (bp s) \<noteq> SCP_PHASE_PREPARE \<Longrightarrow>
   mPhase (bp t) \<noteq> SCP_PHASE_PREPARE"
  by (auto simp: notBefore_def)

lemma stable_trans: "stable s t \<Longrightarrow> stable t u \<Longrightarrow> stable s u"
  using notBefore_trans [of s t u] notBefore_phase [of s t]
  by (auto simp: stable_def commitKept_def finalKept_def)

lemma stable_steps: "ballot_steps D X s t \<Longrightarrow> ballot_inv s \<Longrightarrow> stable s t"
proof (induction rule: rtranclp_induct)
  case (step t u)
  then show ?case using stable_step [of D X t u] ballot_inv_steps stable_trans by blast
qed simp

subsection \<open>Attested statements stay true\<close>

lemma attests_stable:
  assumes "attests s e" "stable s t"
  shows "attests t e"
proof -
  note st = assms(2) [unfolded stable_def]
  have c: "\<exists>c'. mCommit (bp t) = Some c' \<and> bvalue c' = v"
    if "mPhase (bp s) \<noteq> SCP_PHASE_PREPARE" "\<exists>c. mCommit (bp s) = Some c \<and> bvalue c = v" for v
    using st that by (auto simp: commitKept_def)
  have p: "mPhase (bp s) \<noteq> SCP_PHASE_PREPARE \<Longrightarrow> mPhase (bp t) \<noteq> SCP_PHASE_PREPARE"
    "mPhase (bp s) = SCP_PHASE_EXTERNALIZE \<Longrightarrow> mPhase (bp t) = SCP_PHASE_EXTERNALIZE"
    using st notBefore_phase by (auto simp: finalKept_def)
  show ?thesis
    using assms(1) st c p by (cases "pledges (statement e)") (simp_all add: attests_def)
qed

lemma createEnvelope_sel [simp]:
  "nodeID (statement (createEnvelope D st s)) = mNodeID (localNode s)"
  "pledges (statement (createEnvelope D st s)) = pledges st"
  by (simp_all add: createEnvelope_def Let_def)

lemma attests_own:
  assumes "ownEnvelope D s e" "ballot_inv s"
  shows "attests s e"
proof -
  from assms(1) obtain st where st: "createStatement D (mPhase (bp s)) s = Inr st"
    and e: "e = createEnvelope D st s" by (auto simp: ownEnvelope_def)
  show ?thesis
  proof (cases "mPhase (bp s)")
    case SCP_PHASE_PREPARE
    then have "\<exists>b p p' nC nH. pledges st = Prepare (mQSetHash (localNode s)) b p p' nC nH"
      using st by (auto simp: createStatement_def bindE_Inr)
    then show ?thesis by (auto simp: attests_def e)
  next
    case SCP_PHASE_CONFIRM
    then have "mPhase (bp s) \<noteq> SCP_PHASE_PREPARE" by simp
    from ballot_inv_committed [OF assms(2) this] obtain c h b p where
      v: "mCommit (bp s) = Some c" "mHighBallot (bp s) = Some h" "mCurrentBallot (bp s) = Some b"
      "mPrepared (bp s) = Some p" "bvalue c = bvalue b" by metis
    then have "\<exists>nP nC nH. pledges st = Confirm b nP nC nH (mQSetHash (localNode s))"
      using st SCP_PHASE_CONFIRM by (auto simp: createStatement_def bindE_Inr)
    then show ?thesis using SCP_PHASE_CONFIRM v by (auto simp: attests_def e)
  next
    case SCP_PHASE_EXTERNALIZE
    then have "\<exists>c nH. mCommit (bp s) = Some c \<and>
        pledges st = Externalize c nH (mQSetHash (localNode s))"
      using st by (auto simp: createStatement_def bindE_Inr derefE_Inr)
    then show ?thesis using SCP_PHASE_EXTERNALIZE by (auto simp: attests_def e)
  qed
qed

end
