(* ===== verification/Ballot_Refinement.thy ===== *)
theory Ballot_Refinement
  imports Ballot_Invariant
begin

text \<open>
  The refinement theorem: every operation of the ballot protocol performs a sequence of steps
  of the transition system of \<open>Ballot_Steps\<close>. The locale \<open>ballot_emission\<close> is the
  contract of an emission, under which each operation is shown to perform steps; the emission
  built from \<open>processEnvelope\<close> satisfies the contract by induction on its fuel, which
  gives the interpretation \<open>code_emission\<close> and with it the facts about the code.
\<close>

subsection \<open>Separating a change from its emission\<close>

lemma setPrepared_False: "setPrepared b s = (False, t) \<Longrightarrow> t = s"
  by (auto simp: setPrepared_def Let_def split: option.splits if_splits)

lemma setPreparedAccept_split:
  assumes "setPreparedAccept D emit b s = Inr (w, s')"
  shows "(\<not> w \<and> s' = s) \<or>
   (w \<and> (\<exists>t. setPreparedAccept D Inr b s = Inr (True, t) \<and> emit t = Inr s'))"
proof -
  obtain w1 s1 where "setPrepared b s = (w1, s1)" by force
  with assms setPrepared_False [of b s s1] show ?thesis
    by (cases "mCommit (bp s1)"; cases "mHighBallot (bp s1)")
      (auto simp: setPreparedAccept_def err_simps split: if_splits)
qed

lemma setPreparedConfirmed_split:
  assumes "setPreparedConfirmed D emit c h s = Inr (w, s')"
  shows "(\<not> w \<and> core s' = core s) \<or>
   (w \<and> (\<exists>t. setPreparedConfirmed D Inr c h s = Inr (True, t) \<and> emit t = Inr s'))"
proof -
  have same: "core t = core u" if "setConfirmedBallots D c h u = Inr (False, t)" for t u
    using that by (auto simp: setConfirmedBallots_def Let_def err_simps split: if_splits)
  have "core t = core u" if "updateCurrentIfNeeded D h u = Inr (False, t)" for t u
    using that by (auto simp: updateCurrentIfNeeded_def err_simps split: if_splits)
  with assms same show ?thesis
    by (fastforce simp: setPreparedConfirmed_def err_simps core_simps split: if_splits)
qed

lemma setAcceptCommit_split:
  assumes "setAcceptCommit D emit c h s = Inr (w, s')"
  shows "(\<not> w \<and> core s' = core s) \<or>
   (w \<and> (\<exists>t. setAcceptCommit D Inr c h s = Inr (True, t) \<and> emit t = Inr s'))"
proof -
  obtain ch s2 where s2: "setCommitBallots c h
      (bp_update (\<lambda>b. b\<lparr>mValueOverride := Some (bvalue h)\<rparr>) s) = (ch, s2)" by force
  then have "\<not> ch \<Longrightarrow> core s2 = core s"
    by (auto simp: setCommitBallots_def core_simps split: if_splits)
  with assms show ?thesis
    by (auto simp: setAcceptCommit_def s2 err_simps split: if_splits)
qed

lemma setConfirmCommit_split:
  assumes "setConfirmCommit D emit c h s = Inr (w, s')"
  shows "w \<and> (\<exists>t t' u. setConfirmCommit D Inr c h s = Inr (True, t) \<and> core t' = core t \<and>
     emit t' = Inr u \<and> core s' = core u)"
proof -
  obtain w2 s2 where
    up: "updateCurrentIfNeeded D h (bp_update (\<lambda>b. b\<lparr>mCommit := Some c, mHighBallot := Some h\<rparr>) s)
           = Inr (w2, s2)"
    using assms by (auto simp: setConfirmCommit_def err_simps Let_def)
  have c2: "mCommit (bp s2) = Some c"
    using updateCurrentIfNeeded_effect [OF up] by (auto simp: core_def split: if_splits)
  let ?t = "bp_update (\<lambda>b. b\<lparr>mPhase := SCP_PHASE_EXTERNALIZE\<rparr>) s2"
  from assms obtain u where u: "emit ?t = Inr u" "w" "core s' = core u"
    by (auto simp: setConfirmCommit_def err_simps Let_def up core_simps)
  have "\<exists>t. setConfirmCommit D Inr c h s = Inr (True, t) \<and> core ?t = core t"
    using c2 by (simp add: setConfirmCommit_def err_simps Let_def up stopNomination_def core_def)
  with u show ?thesis by blast
qed

lemma bumpStateN_split:
  assumes "bumpStateN D emit v n s = Inr (w, s')"
  shows "(\<not> w \<and> s' = s) \<or>
   (w \<and> (\<exists>b t u. updateCurrentValue D b s = Inr (True, t) \<and> counter b = n \<and>
      emit t = Inr u \<and> core s' = core u))"
proof -
  have "t = s" if "updateCurrentValue D b s = Inr (False, t)" for b t
    using that by (auto simp: updateCurrentValue_def Let_def err_simps split: option.splits if_splits)
  with assms show ?thesis
    by (fastforce simp: bumpStateN_def Let_def err_simps core_simps split: if_splits)
qed


subsection \<open>Well-formed slots\<close>

definition slot_ok :: "Slot \<Rightarrow> bool" where
  "slot_ok s \<longleftrightarrow> recordedSane s \<and> ballot_inv s"

lemma slot_ok_sane: "slot_ok s \<Longrightarrow> recordedSane s"
  by (simp add: slot_ok_def)

lemma slot_ok_core: "slot_ok s \<Longrightarrow> core t = core s \<Longrightarrow> slot_ok t"
  using recordedSane_core [of t s] by (auto simp: slot_ok_def intro: ballot_inv_core)

lemma slot_ok_step: "ballot_step D X s t \<Longrightarrow> slot_ok s \<Longrightarrow> slot_ok t"
  by (auto simp: slot_ok_def intro: recordedSane_step ballot_inv_step)

lemma slot_ok_steps: "ballot_steps D X s t \<Longrightarrow> slot_ok s \<Longrightarrow> slot_ok t"
  by (induction rule: rtranclp_induct) (auto intro: slot_ok_step)

lemma slot_ok_new: "slot_ok (Slot_new i ln)"
  by (simp add: slot_ok_def ballot_inv_new)
    (simp add: recordedSane_def Slot_new_def BallotProtocol_new_def)

subsection \<open>What the searches find\<close>

lemma findAcceptPrepared_guard:
  "findAcceptPrepared D s bs = Inr (Some b) \<Longrightarrow>
   mPhase (bp s) = SCP_PHASE_PREPARE \<or> mPhase (bp s) = SCP_PHASE_CONFIRM \<Longrightarrow>
   acceptPreparedGuard D s b"
  by (induction bs)
    (auto simp: err_simps acceptPreparedGuard_def ballot_order not_le split: if_splits option.splits)

lemma findNewH_sound:
  "findNewH D s bs = Some (newH, rest) \<Longrightarrow>
   (\<forall>h. mHighBallot (bp s) = Some h \<longrightarrow> h < newH) \<and>
   federatedRatify D s (hasPreparedBallot newH) (mLatestEnvelopes (bp s)) \<and> newH \<in> set bs"
  by (induction bs) (auto simp: ballot_order not_le split: if_splits option.splits)

lemma findNewC_sound:
  "findNewC D s b newH bs newC0 = newC0 \<or>
   b \<le> findNewC D s b newH bs newC0 \<and>
   areBallotsLessAndCompatible (findNewC D s b newH bs newC0) newH \<and>
   federatedRatify D s (hasPreparedBallot (findNewC D s b newH bs newC0)) (mLatestEnvelopes (bp s))"
proof (induction bs arbitrary: newC0)
  case (Cons a bs)
  from Cons [of a] Cons [of newC0] show ?case by (auto simp: ballot_order not_less)
qed simp

lemma extendInterval_sound:
  "extendInterval P bs cand = (lo, hi) \<Longrightarrow> fst cand = 0 \<or> fst cand \<le> snd cand \<and> P cand \<Longrightarrow>
   lo = 0 \<or> lo \<le> hi \<and> P (lo, hi)"
  by (induction bs arbitrary: cand) (auto simp: Let_def not_less split: if_splits)

lemma findExtendedInterval_sound:
  "findExtendedInterval bs P = cand \<Longrightarrow> fst cand \<noteq> 0 \<Longrightarrow> fst cand \<le> snd cand \<and> P cand"
  using extendInterval_sound [of P "rev bs" "(0, 0)"]
  by (cases cand) (auto simp: findExtendedInterval_def)

lemma commit_predicates_value:
  "commitPredicate (SCPBallot n (bvalue b)) = commitPredicate b"
  "votesCommit (SCPBallot n (bvalue b)) = votesCommit b"
  by (intro ext; simp add: statement_predicates areBallotsCompatible_def split: SCPPledges.split)+

subsection \<open>The contract of an emission\<close>

text \<open>
  What an operation relies on when it emits the current state: the emission succeeds only in
  a state whose statement can be created and is sane, and whatever the re-entrant processing
  does to the slot is a sequence of steps.
\<close>

locale ballot_emission =
  fixes D :: SCPDriver and X :: "SCPEnvelope set" and emit :: "Slot \<Rightarrow> scp_error + Slot"
  assumes emit_emittable: "recordedSane t \<Longrightarrow> emit t = Inr u \<Longrightarrow> emittable D t"
    and emit_steps: "slot_ok t \<Longrightarrow> emit t = Inr u \<Longrightarrow> ballot_steps D X t u"
begin

lemma step_then_emit:
  assumes "slot_ok s" "emit t' = Inr u" "core t' = core t" "core s' = core u" "recordedSane t"
    and "emittable D t \<Longrightarrow> ballot_step D X s t"
  shows "ballot_steps D X s s'"
proof -
  have "recordedSane t'" using recordedSane_core [OF assms(3)] assms(5) by simp
  from emit_emittable [OF this assms(2)] have "emittable D t"
    using emittable_core [OF assms(3), of D] by simp
  with assms(6) have st: "ballot_step D X s t" by blast
  then have "slot_ok t" using assms(1) by (rule slot_ok_step)
  then have "slot_ok t'" using assms(3) by (rule slot_ok_core)
  from emit_steps [OF this assms(2)] have "ballot_steps D X t u"
    using steps_frame' [of t' t D X u] assms(3) by auto
  with st have "ballot_steps D X s u" by (rule converse_rtranclp_into_rtranclp)
  then show ?thesis by (rule steps_frame) (rule assms(4))
qed

lemma attemptPreparedAccept_steps:
  assumes "attemptPreparedAccept D emit hint s = Inr (w, s')" "slot_ok s"
  shows "ballot_steps D X s s'"
proof (cases "w")
  case False
  with assms show ?thesis
    by (auto simp: attemptPreparedAccept_def err_simps dest!: setPreparedAccept_split
        split: if_splits option.splits)
next
  case True
  with assms obtain b where "acceptPreparedGuard D s b" "setPreparedAccept D emit b s = Inr (True, s')"
    by (auto simp: attemptPreparedAccept_def err_simps intro: findAcceptPrepared_guard
        split: if_splits option.splits)
  with setPreparedAccept_split [OF this(2)] show ?thesis
    by (auto intro!: step_then_emit [OF assms(2)] ballot_step.accept_prepared
        intro: recordedSane_changes(1) slot_ok_sane [OF assms(2)])
qed

lemma attemptPreparedConfirmed_guard:
  assumes "findNewH D s bs = Some (newH, rest)"
    and "mPhase (bp s) = SCP_PHASE_PREPARE" "mPrepared (bp s) \<noteq> None"
  defines "b \<equiv> (case mCurrentBallot (bp s) of Some cur \<Rightarrow> cur | None \<Rightarrow> SCPBallot0)"
  shows "confirmPreparedGuard D s
     (if mCommit (bp s) = None \<and> \<not> lessIncompatiblePtr newH (mPrepared (bp s)) \<and>
         \<not> lessIncompatiblePtr newH (mPreparedPrime (bp s))
      then findNewC D s b newH rest SCPBallot0 else SCPBallot0) newH"
  using findNewH_sound [OF assms(1)] assms(2,3)
    findNewC_sound [of D s b newH rest SCPBallot0]
  by (auto simp: confirmPreparedGuard_def b_def)

lemma attemptPreparedConfirmed_steps:
  assumes "attemptPreparedConfirmed D emit hint s = Inr (w, s')" "slot_ok s"
  shows "ballot_steps D X s s'"
proof (cases "core s' = core s")
  case True
  then show ?thesis by (auto intro: ballot_step.frame)
next
  case False
  with assms(1) obtain newH rest where
    f: "findNewH D s (rev (getPrepareCandidates s hint)) = Some (newH, rest)"
       "mPhase (bp s) = SCP_PHASE_PREPARE" "mPrepared (bp s) \<noteq> None"
    by (auto simp: attemptPreparedConfirmed_def split: if_splits option.splits)
  obtain newC where g: "confirmPreparedGuard D s newC newH"
    and u: "setPreparedConfirmed D emit newC newH s = Inr (w, s')"
    using assms(1) attemptPreparedConfirmed_guard [OF f]
    by (simp only: attemptPreparedConfirmed_def Let_def f option.case prod.case if_False if_True
        not_True_eq_False simp_thms)
  from setPreparedConfirmed_split [OF u] False obtain t where
    "setPreparedConfirmed D Inr newC newH s = Inr (True, t)" "emit t = Inr s'" by auto
  then show ?thesis
    using g by (auto intro!: step_then_emit [OF assms(2)] ballot_step.confirm_prepared
        intro: recordedSane_changes(2) slot_ok_sane [OF assms(2)])
qed

lemma attemptAcceptCommit_steps:
  assumes "attemptAcceptCommit D emit hint s = Inr (w, s')" "slot_ok s"
  shows "ballot_steps D X s s'"
proof (cases "core s' = core s")
  case True
  then show ?thesis by (auto intro: ballot_step.frame)
next
  case False
  then obtain ballot c h where u: "setAcceptCommit D emit (SCPBallot c (bvalue ballot))
      (SCPBallot h (bvalue ballot)) s = Inr (w, s')"
    and ch: "findExtendedInterval (getCommitBoundariesFromStatements s ballot)
      (\<lambda>cur. federatedAccept D s (votesCommit ballot cur) (commitPredicate ballot cur)
         (mLatestEnvelopes (bp s))) = (c, h)" "c \<noteq> 0"
    and ph: "mPhase (bp s) = SCP_PHASE_PREPARE \<or>
      mPhase (bp s) = SCP_PHASE_CONFIRM \<and>
        (\<exists>h0. mHighBallot (bp s) = Some h0 \<and> areBallotsCompatible ballot h0 \<and> counter h0 < h)"
    using assms
    by (auto simp: attemptAcceptCommit_def Let_def err_simps
        simp flip: prod.collapse split: if_splits option.splits)
  from ph findExtendedInterval_sound [OF ch(1)] ch(2)
  have g: "acceptCommitGuard D s (SCPBallot c (bvalue ballot)) (SCPBallot h (bvalue ballot))"
    by (auto simp: acceptCommitGuard_def less_compatible_iff commit_predicates_value
        areBallotsCompatible_def)
  from setAcceptCommit_split [OF u] False obtain t where
    "setAcceptCommit D Inr (SCPBallot c (bvalue ballot)) (SCPBallot h (bvalue ballot)) s
       = Inr (True, t)" "emit t = Inr s'" by auto
  then show ?thesis
    using g by (auto intro!: step_then_emit [OF assms(2)] ballot_step.accept_commit
        intro: recordedSane_changes(3) slot_ok_sane [OF assms(2)])
qed

lemma attemptConfirmCommit_steps:
  assumes "attemptConfirmCommit D emit hint s = Inr (w, s')" "slot_ok s"
  shows "ballot_steps D X s s'"
proof (cases "core s' = core s")
  case True
  then show ?thesis by (auto intro: ballot_step.frame)
next
  case False
  then obtain ballot c h where u: "setConfirmCommit D emit (SCPBallot c (bvalue ballot))
      (SCPBallot h (bvalue ballot)) s = Inr (w, s')"
    and ch: "findExtendedInterval (getCommitBoundariesFromStatements s ballot)
      (\<lambda>cur. federatedRatify D s (commitPredicate ballot cur) (mLatestEnvelopes (bp s)))
        = (c, h)" "c \<noteq> 0"
    and ph: "mPhase (bp s) = SCP_PHASE_CONFIRM"
      "\<exists>c0. mCommit (bp s) = Some c0 \<and> areBallotsCompatible ballot c0"
    using assms
    by (auto simp: attemptConfirmCommit_def Let_def
        simp flip: prod.collapse split: if_splits option.splits)
  from ph findExtendedInterval_sound [OF ch(1)] ch(2)
  have g: "confirmCommitGuard D s (SCPBallot c (bvalue ballot)) (SCPBallot h (bvalue ballot))"
    by (auto simp: confirmCommitGuard_def less_compatible_iff commit_predicates_value
        areBallotsCompatible_def)
  from setConfirmCommit_split [OF u] obtain t t' v where
    "setConfirmCommit D Inr (SCPBallot c (bvalue ballot)) (SCPBallot h (bvalue ballot)) s
       = Inr (True, t)" "core t' = core t" "emit t' = Inr v"
    "core s' = core v" by auto
  then show ?thesis
    using g by (auto intro!: step_then_emit [OF assms(2)] ballot_step.confirm_commit
        intro: recordedSane_changes(4) slot_ok_sane [OF assms(2)])
qed

lemma bumpStateN_steps:
  assumes "bumpStateN D emit v n s = Inr (w, s')" "slot_ok s"
  shows "ballot_steps D X s s'"
  using bumpStateN_split [OF assms(1)]
  by (auto intro!: step_then_emit [OF assms(2)] ballot_step.bump
      intro: recordedSane_changes(5) slot_ok_sane [OF assms(2)])

lemma bumpState_steps:
  "bumpState D emit v force s = Inr (w, s') \<Longrightarrow> slot_ok s \<Longrightarrow> ballot_steps D X s s'"
  by (auto simp: bumpState_def intro: bumpStateN_steps split: if_splits)

lemma abandonBallot_steps:
  "abandonBallot D emit n s = Inr (w, s') \<Longrightarrow> slot_ok s \<Longrightarrow> ballot_steps D X s s'"
  by (auto simp: abandonBallot_def Let_def intro: bumpStateN_steps bumpState_steps split: if_splits)

lemma attemptBump_steps:
  "attemptBump D emit s = Inr (w, s') \<Longrightarrow> slot_ok s \<Longrightarrow> ballot_steps D X s s'"
  by (auto simp: attemptBump_def Let_def intro: abandonBallot_steps split: if_splits option.splits)

lemma bumpLoop_steps:
  "bumpLoop k D emit d s = Inr (w, s') \<Longrightarrow> slot_ok s \<Longrightarrow> ballot_steps D X s s'"
proof (induction k arbitrary: d s)
  case (Suc k)
  then obtain b s1 where a: "attemptBump D emit s = Inr (b, s1)"
    and r: "if b then bumpLoop k D emit True s1 = Inr (w, s') else s' = s1"
    by (auto simp: err_simps split: if_splits)
  from attemptBump_steps [OF a Suc.prems(2)] have st: "ballot_steps D X s s1" .
  then have "slot_ok s1" using Suc.prems(2) by (rule slot_ok_steps)
  with r Suc.IH have "ballot_steps D X s1 s'" by (cases b) auto
  with st show ?case by simp
qed simp

lemma attemptTransitions_steps:
  assumes "attemptTransitions D emit hint s = Inr (w, s')" "slot_ok s"
  shows "ballot_steps D X s s'"
proof -
  from assms(1) obtain w1 s1 w2 s2 w3 s3 w4 where
    a: "attemptPreparedAccept D emit hint s = Inr (w1, s1)"
       "attemptPreparedConfirmed D emit hint s1 = Inr (w2, s2)"
       "attemptAcceptCommit D emit hint s2 = Inr (w3, s3)"
       "attemptConfirmCommit D emit hint s3 = Inr (w4, s')"
    by (clarsimp simp: attemptTransitions_def bindE_Inr)
  note st1 = attemptPreparedAccept_steps [OF a(1) assms(2)]
  note st2 = attemptPreparedConfirmed_steps [OF a(2) slot_ok_steps [OF st1 assms(2)]]
  note st12 = rtranclp_trans [OF st1 st2]
  note st3 = attemptAcceptCommit_steps [OF a(3) slot_ok_steps [OF st12 assms(2)]]
  note st123 = rtranclp_trans [OF st12 st3]
  note st4 = attemptConfirmCommit_steps [OF a(4) slot_ok_steps [OF st123 assms(2)]]
  show ?thesis using st123 st4 by (rule rtranclp_trans)
qed

lemma catchUp_steps:
  "catchUp k D emit d s = Inr (w, s') \<Longrightarrow> slot_ok s \<Longrightarrow> ballot_steps D X s s'"
  by (auto simp: catchUp_def bindE_Inr core_simps intro: bumpLoop_steps steps_frame
      split: if_splits)

lemma advanceSlot_steps:
  assumes "advanceSlot k D emit hint s = Inr s'" "slot_ok s"
  shows "ballot_steps D X s s'"
proof -
  define s0 where "s0 = bp_update (\<lambda>b. b\<lparr>mCurrentMessageLevel := mCurrentMessageLevel b + 1\<rparr>) s"
  have c0: "core s0 = core s" by (simp add: s0_def core_simps)
  have r0: "slot_ok s0" using assms(2) c0 by (rule slot_ok_core)
  from assms(1) obtain w1 s1 w2 s2 where
    a: "attemptTransitions D emit hint s0 = Inr (w1, s1)" "catchUp k D emit w1 s1 = Inr (w2, s2)"
    and c2: "core s' = core s2"
    by (auto simp: advanceSlot_def Let_def bindE_Inr core_simps s0_def split: if_splits)
  note st1 = attemptTransitions_steps [OF a(1) r0]
  note st2 = catchUp_steps [OF a(2) slot_ok_steps [OF st1 r0]]
  have "ballot_steps D X s0 s'" using rtranclp_trans [OF st1 st2] c2 by (rule steps_frame)
  with c0 show ?thesis by (rule steps_frame')
qed

end

subsection \<open>The code refines the transition system\<close>

definition processRefines ::
  "SCPDriver \<Rightarrow> SCPEnvelope set \<Rightarrow> (SCPEnvelope \<Rightarrow> Slot \<Rightarrow> scp_error + EnvelopeState \<times> Slot) \<Rightarrow>
   SCPEnvelope \<Rightarrow> Slot \<Rightarrow> bool" where
  "processRefines D X process e s \<longleftrightarrow>
     (\<forall>r s'. process e s = Inr (r, s') \<longrightarrow>
        (r = VALID \<longrightarrow> pledgesSane True (pledges (statement e))) \<and>
        (slot_ok s \<longrightarrow> e \<in> X \<or> ownEnvelope D s e \<longrightarrow> ballot_steps D X s s'))"

lemma emit_contract_from_process:
  assumes "\<And>e s. processRefines D X process e s"
  shows "ballot_emission D X (emitCurrentStateStatement D process)"
proof
  fix t u
  assume "recordedSane t" "emitCurrentStateStatement D process t = Inr u"
  then show "emittable D t"
  proof -
    obtain st where st: "createStatement D (mPhase (bp t)) t = Inr st"
      using \<open>emitCurrentStateStatement D process t = Inr u\<close>
      by (auto simp: emitCurrentStateStatement_def bindE_Inr)
    let ?e = "createEnvelope D st t"
    have "pledgesSane True (pledges (statement ?e))"
    proof (cases "map_of (mLatestEnvelopes (bp t)) (mNodeID (localNode t)) = Some ?e")
      case True
      with \<open>recordedSane t\<close> show ?thesis unfolding recordedSane_def by blast
    next
      case False
      with \<open>emitCurrentStateStatement D process t = Inr u\<close> st obtain s1 where
        "process ?e t = Inr (VALID, s1)"
        by (auto simp: emitCurrentStateStatement_def Let_def bindE_Inr split: if_splits)
      with assms [of ?e t] show ?thesis unfolding processRefines_def by blast
    qed
    with st show ?thesis by (auto simp: emittable_def)
  qed
next
  fix t u
  assume ok: "slot_ok t" and u: "emitCurrentStateStatement D process t = Inr u"
  then obtain st where st: "createStatement D (mPhase (bp t)) t = Inr st"
    by (auto simp: emitCurrentStateStatement_def bindE_Inr)
  define e where "e = createEnvelope D st t"
  have own: "ownEnvelope D t e" using st by (auto simp: ownEnvelope_def e_def)
  show "ballot_steps D X t u"
  proof (cases "map_of (mLatestEnvelopes (bp t)) (mNodeID (localNode t)) = Some e")
    case True
    with u st show ?thesis by (simp add: emitCurrentStateStatement_def Let_def e_def)
  next
    case False
    with u st obtain s1 where p: "process e t = Inr (VALID, s1)"
      and c: "core u = core s1 \<or> core u = core (bp_update (\<lambda>b. b\<lparr>mLastEnvelope := Some e\<rparr>) s1)"
      by (auto simp: emitCurrentStateStatement_def Let_def bindE_Inr core_simps e_def
          split: if_splits)
    from assms [of e t] p own ok have st1: "ballot_steps D X t s1"
      unfolding processRefines_def by blast
    have "attests s1 e"
      using attests_own [OF own] attests_stable stable_steps [OF st1] ok by (auto simp: slot_ok_def)
    moreover have "sameVars s1 u \<and> outbox u \<subseteq> insert e (outbox s1)"
      if "core u = core (bp_update (\<lambda>b. b\<lparr>mLastEnvelope := Some e\<rparr>) s1)"
      using coreD [OF that] by (auto simp: sameVars_def outbox_def)
    ultimately have "ballot_step D X s1 u"
      using c by (blast intro: ballot_step.frame ballot_step.announce)
    with st1 show ?thesis by (rule rtranclp.rtrancl_into_rtrancl)
  qed
qed

lemma processEnvelope_with_refines:
  assumes adv: "\<And>st t t'. slot_ok t \<Longrightarrow> advance st t = Inr t' \<Longrightarrow> ballot_steps D X t t'"
  shows "processRefines D X (\<lambda>e. processEnvelope_with D advance e self) e s"
  unfolding processRefines_def
proof (intro allI impI)
  fix r s'
  assume run: "processEnvelope_with D advance e self s = Inr (r, s')"
  have sane: "isStatementSane D (statement e) self = Inr True" if "r = VALID"
    using run that by (auto simp: processEnvelope_with_def err_simps split: if_splits)
  have "ballot_steps D X s s'" if ok: "slot_ok s" and x: "e \<in> X \<or> ownEnvelope D s e"
  proof (cases "r = VALID")
    case True
    define s1 where "s1 = (if mPhase (bp s) \<noteq> SCP_PHASE_EXTERNALIZE \<and>
      validateValues D s (statement e) = kMaybeValidValue then setFullyValidated False s else s)"
    have s1: "core s1 = core s" by (simp add: s1_def core_simps)
    have g: "recordGuard D s e"
      using run True sane
      by (auto simp: processEnvelope_with_def bindE_Inr derefE_Inr Let_def recordGuard_def
          split: if_splits)
    have u: "s' = recordEnvelope D e s1 \<or> advance (statement e) (recordEnvelope D e s1) = Inr s'"
      using run True
      by (auto simp: processEnvelope_with_def bindE_Inr derefE_Inr Let_def s1_def split: if_splits)
    have "core (recordEnvelope D e s1) = core (recordEnvelope D e s)"
      using coreD [OF s1] by (simp add: core_def)
    from ballot_step.record_env [OF g x this] have st: "ballot_step D X s (recordEnvelope D e s1)" .
    then have "slot_ok (recordEnvelope D e s1)" using ok by (rule slot_ok_step)
    with u adv have "ballot_steps D X (recordEnvelope D e s1) s'" by blast
    with st show ?thesis by (rule converse_rtranclp_into_rtranclp)
  next
    case False
    with run have "s' = s"
      by (auto simp: processEnvelope_with_def err_simps Let_def split: if_splits)
    then show ?thesis by simp
  qed
  then show "(r = VALID \<longrightarrow> pledgesSane True (pledges (statement e))) \<and>
    (slot_ok s \<longrightarrow> e \<in> X \<or> ownEnvelope D s e \<longrightarrow> ballot_steps D X s s')"
    using sane by (blast intro: pledgesSane_weaken dest: isStatementSaneD)
qed

lemma processEnvelope_refines: "processRefines D X (\<lambda>e. processEnvelope k D e self) e s"
proof (induction k arbitrary: e self s)
  case 0
  show ?case by (simp add: processRefines_def)
next
  case (Suc k)
  have "ballot_emission D X (emitCurrentStateStatement D (\<lambda>e. processEnvelope k D e True))"
    by (rule emit_contract_from_process) (rule Suc.IH)
  then have "ballot_steps D X t t'" if "slot_ok t"
    "advanceSlot k D (emitCurrentStateStatement D (\<lambda>e. processEnvelope k D e True)) st t = Inr t'"
    for st t t'
    using ballot_emission.advanceSlot_steps that by blast
  then show ?case
    unfolding processEnvelope.simps by (rule processEnvelope_with_refines)
qed

interpretation code_emission: ballot_emission D X "emitStatement k D" for k D X
  unfolding emitStatement_def
  by (rule emit_contract_from_process) (rule processEnvelope_refines)

lemma processEnvelope_steps:
  assumes "processEnvelope k D e self s = Inr (r, s')" "slot_ok s" "e \<in> X"
  shows "ballot_steps D X s s'"
  using processEnvelope_refines [of D X k self e s] assms unfolding processRefines_def by blast

end
