(* ===== verification/UInt128.thy ===== *)
theory UInt128
  imports VII_Prelude
begin

unbundle bit_operations_syntax

text \<open>
  The 128-bit unsigned integers of \<open>src/lib/util/uint128_t.cpp\<close>: a pair of 64-bit words
  with carries, a schoolbook multiplication on 32-bit limbs and a shift-and-subtract
  division. The model keeps the two words and the code's control flow; \<open>val128\<close> is the
  number a pair stands for, and every operation is shown to compute the corresponding
  operation on natural numbers modulo \<open>2 ^ 128\<close>. The division loop carries a fuel, which
  the correctness theorem shows to be enough.
\<close>

record uint128_t =
  UPPER :: uint64
  LOWER :: uint64

abbreviation u128 :: "uint64 \<Rightarrow> uint64 \<Rightarrow> uint128_t" where
  "u128 u l \<equiv> \<lparr>UPPER = u, LOWER = l\<rparr>"

definition u128_of64 :: "uint64 \<Rightarrow> uint128_t" where
  "u128_of64 w = u128 0 w"

definition uint128_0 :: uint128_t where "uint128_0 = u128_of64 0"
definition uint128_1 :: uint128_t where "uint128_1 = u128_of64 1"

definition u128_bool :: "uint128_t \<Rightarrow> bool" where
  "u128_bool a \<longleftrightarrow> (UPPER a OR LOWER a) \<noteq> 0"

definition u128_and :: "uint128_t \<Rightarrow> uint128_t \<Rightarrow> uint128_t" where
  "u128_and a b = u128 (UPPER a AND UPPER b) (LOWER a AND LOWER b)"

definition u128_or :: "uint128_t \<Rightarrow> uint128_t \<Rightarrow> uint128_t" where
  "u128_or a b = u128 (UPPER a OR UPPER b) (LOWER a OR LOWER b)"

definition u128_xor :: "uint128_t \<Rightarrow> uint128_t \<Rightarrow> uint128_t" where
  "u128_xor a b = u128 (UPPER a XOR UPPER b) (LOWER a XOR LOWER b)"

definition u128_not :: "uint128_t \<Rightarrow> uint128_t" where
  "u128_not a = u128 (NOT (UPPER a)) (NOT (LOWER a))"

definition u128_shl :: "uint128_t \<Rightarrow> uint128_t \<Rightarrow> uint128_t" where
  "u128_shl a rhs =
     (let shift = LOWER rhs
      in if UPPER rhs \<noteq> 0 \<or> shift \<ge> 128 then uint128_0
         else if shift = 64 then u128 (LOWER a) 0
         else if shift = 0 then a
         else if shift < 64
         then u128 (push_bit (unat shift) (UPPER a) + drop_bit (unat (64 - shift)) (LOWER a))
                (push_bit (unat shift) (LOWER a))
         else if 128 > shift \<and> shift > 64 then u128 (push_bit (unat (shift - 64)) (LOWER a)) 0
         else uint128_0)"

definition u128_shr :: "uint128_t \<Rightarrow> uint128_t \<Rightarrow> uint128_t" where
  "u128_shr a rhs =
     (let shift = LOWER rhs
      in if UPPER rhs \<noteq> 0 \<or> shift \<ge> 128 then uint128_0
         else if shift = 64 then u128 0 (UPPER a)
         else if shift = 0 then a
         else if shift < 64
         then u128 (drop_bit (unat shift) (UPPER a))
                (push_bit (unat (64 - shift)) (UPPER a) + drop_bit (unat shift) (LOWER a))
         else if 128 > shift \<and> shift > 64 then u128 0 (drop_bit (unat (shift - 64)) (UPPER a))
         else uint128_0)"

definition u128_eq :: "uint128_t \<Rightarrow> uint128_t \<Rightarrow> bool" where
  "u128_eq a b \<longleftrightarrow> UPPER a = UPPER b \<and> LOWER a = LOWER b"

definition u128_gt :: "uint128_t \<Rightarrow> uint128_t \<Rightarrow> bool" where
  "u128_gt a b = (if UPPER a = UPPER b then LOWER a > LOWER b else UPPER a > UPPER b)"

definition u128_lt :: "uint128_t \<Rightarrow> uint128_t \<Rightarrow> bool" where
  "u128_lt a b = (if UPPER a = UPPER b then LOWER a < LOWER b else UPPER a < UPPER b)"

definition u128_ge :: "uint128_t \<Rightarrow> uint128_t \<Rightarrow> bool" where
  "u128_ge a b \<longleftrightarrow> u128_gt a b \<or> u128_eq a b"

definition u128_le :: "uint128_t \<Rightarrow> uint128_t \<Rightarrow> bool" where
  "u128_le a b \<longleftrightarrow> u128_lt a b \<or> u128_eq a b"

definition u128_add :: "uint128_t \<Rightarrow> uint128_t \<Rightarrow> uint128_t" where
  "u128_add a b =
     u128 (UPPER a + UPPER b + of_bool (LOWER a + LOWER b < LOWER a)) (LOWER a + LOWER b)"

definition u128_sub :: "uint128_t \<Rightarrow> uint128_t \<Rightarrow> uint128_t" where
  "u128_sub a b =
     u128 (UPPER a - UPPER b - of_bool (LOWER a - LOWER b > LOWER a)) (LOWER a - LOWER b)"

text \<open>The limbs are the entries of \<open>top\<close> and \<open>bottom\<close>; \<open>p x y\<close> is \<open>products[x][y]\<close>.\<close>

definition lo32 :: "uint64 \<Rightarrow> uint64" where "lo32 w = w AND 0xffffffff"
definition hi32 :: "uint64 \<Rightarrow> uint64" where "hi32 w = drop_bit 32 w"

definition u128_mul :: "uint128_t \<Rightarrow> uint128_t \<Rightarrow> uint128_t" where
  "u128_mul a b =
     (let top = (\<lambda>i::nat. [hi32 (UPPER a), lo32 (UPPER a), hi32 (LOWER a), lo32 (LOWER a)] ! i);
          bottom = (\<lambda>i::nat. [hi32 (UPPER b), lo32 (UPPER b), hi32 (LOWER b), lo32 (LOWER b)] ! i);
          p = (\<lambda>x y. top (3 - x) * bottom y);
          fourth32 = lo32 (p 0 3);
          third32 = lo32 (p 0 2) + hi32 (p 0 3);
          second32 = lo32 (p 0 1) + hi32 (p 0 2);
          first32 = lo32 (p 0 0) + hi32 (p 0 1);
          third32 = third32 + lo32 (p 1 3);
          second32 = second32 + (lo32 (p 1 2) + hi32 (p 1 3));
          first32 = first32 + (lo32 (p 1 1) + hi32 (p 1 2));
          second32 = second32 + lo32 (p 2 3);
          first32 = first32 + (lo32 (p 2 2) + hi32 (p 2 3));
          first32 = first32 + lo32 (p 3 3)
      in u128_add
           (u128_add
              (u128_add (u128 (push_bit 32 first32) 0) (u128 (hi32 third32) (push_bit 32 third32)))
              (u128 second32 0))
           (u128_of64 fourth32))"

text \<open>\<open>bits\<close>: the loop shifts the word right until it is zero.\<close>

function bits_loop :: "uint64 \<Rightarrow> uint8 \<Rightarrow> uint8" where
  "bits_loop w out = (if w = 0 then out else bits_loop (drop_bit 1 w) (out + 1))"
  by auto
termination
proof (relation "measure (\<lambda>(w, out). unat w)")
  fix w :: uint64 and out :: uint8
  assume "w \<noteq> 0"
  then have "0 < unat w" by (simp add: unat_gt_0)
  then have "unat w div 2 < unat w" by (rule div_less_dividend [rotated]) simp
  then show "((drop_bit 1 w, out + 1), w, out) \<in> measure (\<lambda>(w, out). unat w)"
    by (simp add: unat_drop_bit_eq drop_bit_eq_div unat_div_distrib)
qed simp

declare bits_loop.simps [simp del]

definition u128_bits :: "uint128_t \<Rightarrow> uint8" where
  "u128_bits a = (if UPPER a \<noteq> 0 then bits_loop (UPPER a) 64 else bits_loop (LOWER a) 0)"

fun divLoop ::
  "nat \<Rightarrow> uint128_t \<Rightarrow> uint128_t \<Rightarrow> uint128_t \<Rightarrow> uint128_t \<Rightarrow> uint128_t \<Rightarrow>
   (uint128_t \<times> uint128_t) option" where
  "divLoop 0 rhs first second copyd adder = None"
| "divLoop (Suc k) rhs first second copyd adder =
     (if u128_ge second rhs
      then (let (first, second) =
                  (if u128_ge second copyd
                   then (u128_or first adder, u128_sub second copyd) else (first, second))
            in divLoop k rhs first second (u128_shr copyd uint128_1) (u128_shr adder uint128_1))
      else Some (first, second))"

datatype u128_error = DivisionByZero | DivOutOfFuel

definition u128_divmod :: "uint128_t \<Rightarrow> uint128_t \<Rightarrow> u128_error + uint128_t \<times> uint128_t" where
  "u128_divmod lhs rhs =
     (if u128_eq rhs uint128_0 then Inl DivisionByZero
      else if u128_eq rhs uint128_1 then Inr (lhs, uint128_0)
      else if u128_eq lhs rhs then Inr (uint128_1, uint128_0)
      else if u128_eq lhs uint128_0 \<or> u128_lt lhs rhs then Inr (uint128_0, lhs)
      else
        (let shift = u128_of64 (of_int (uint (u128_bits lhs) - uint (u128_bits rhs)));
             copyd = u128_shl rhs shift;
             adder = u128_shl uint128_1 shift;
             (copyd, adder) = (if u128_gt copyd lhs
                               then (u128_shr copyd uint128_1, u128_shr adder uint128_1)
                               else (copyd, adder))
         in case divLoop 129 rhs uint128_0 lhs copyd adder of
              None \<Rightarrow> Inl DivOutOfFuel | Some qr \<Rightarrow> Inr qr))"

definition u128_div :: "uint128_t \<Rightarrow> uint128_t \<Rightarrow> u128_error + uint128_t" where
  "u128_div a b = bindE (u128_divmod a b) (\<lambda>qr. Inr (fst qr))"

definition u128_mod :: "uint128_t \<Rightarrow> uint128_t \<Rightarrow> u128_error + uint128_t" where
  "u128_mod a b = bindE (u128_div a b) (\<lambda>q. Inr (u128_sub a (u128_mul b q)))"

subsection \<open>The number a pair stands for\<close>

definition val128 :: "uint128_t \<Rightarrow> nat" where
  "val128 a = unat (UPPER a) * 2 ^ 64 + unat (LOWER a)"

lemma unat64_less: "unat (w :: uint64) < 2 ^ 64"
  using unsigned_less [of w, where 'a = nat] by simp

lemma val128_less: "val128 a < 2 ^ 128"
proof -
  have "unat (UPPER a) \<le> 2 ^ 64 - 1" "unat (LOWER a) < 2 ^ 64"
    using unat64_less [of "UPPER a"] unat64_less [of "LOWER a"] by simp_all
  then have "unat (UPPER a) * 2 ^ 64 \<le> (2 ^ 64 - 1) * 2 ^ 64" by (intro mult_right_mono) simp_all
  with \<open>unat (LOWER a) < 2 ^ 64\<close> show ?thesis by (simp add: val128_def)
qed

lemma val128_inj: "val128 a = val128 b \<longleftrightarrow> a = b"
proof
  assume eq: "val128 a = val128 b"
  have "val128 x div 2 ^ 64 = unat (UPPER x)" "val128 x mod 2 ^ 64 = unat (LOWER x)" for x
    using unat64_less [of "LOWER x"] by (simp_all add: val128_def)
  with eq have "unat (UPPER a) = unat (UPPER b)" "unat (LOWER a) = unat (LOWER b)" by metis+
  then show "a = b" by (cases a; cases b) (simp add: word_unat_eq_iff)
qed simp

named_theorems val128_simps \<open>the operations on the numbers they stand for\<close>

lemma val128_consts [val128_simps, simp]:
  "val128 uint128_0 = 0" "val128 uint128_1 = 1" "val128 (u128_of64 w) = unat w"
  by (simp_all add: val128_def uint128_0_def uint128_1_def u128_of64_def)

lemma val128_eq [val128_simps]: "u128_eq a b \<longleftrightarrow> val128 a = val128 b"
  by (auto simp: val128_inj u128_eq_def)

lemma val128_lt [val128_simps]: "u128_lt a b \<longleftrightarrow> val128 a < val128 b"
proof -
  have step: "x * 2 ^ 64 + l < y * 2 ^ 64 + m" if "x < y" "l < 2 ^ 64" for x y l m :: nat
  proof -
    from that(1) have "(x + 1) * 2 ^ 64 \<le> y * 2 ^ 64" by (intro mult_right_mono) simp_all
    with that(2) show ?thesis by (simp add: algebra_simps)
  qed
  consider "UPPER a = UPPER b" | "UPPER a < UPPER b" | "UPPER b < UPPER a" by force
  then show ?thesis
  proof cases
    case 1
    then show ?thesis by (simp add: u128_lt_def val128_def word_less_nat_alt)
  next
    case 2
    with step [OF _ unat64_less] show ?thesis
      by (auto simp: u128_lt_def val128_def word_less_nat_alt)
  next
    case 3
    with step [of "unat (UPPER b)" "unat (UPPER a)" "unat (LOWER b)" "unat (LOWER a)"]
      unat64_less [of "LOWER b"]
    have "val128 b < val128 a" by (auto simp: val128_def word_less_nat_alt)
    with 3 show ?thesis by (auto simp: u128_lt_def)
  qed
qed

lemma val128_gt [val128_simps]: "u128_gt a b \<longleftrightarrow> val128 b < val128 a"
  using val128_lt [of b a] by (auto simp: u128_gt_def u128_lt_def split: if_splits)

lemma val128_ge [val128_simps]: "u128_ge a b \<longleftrightarrow> val128 b \<le> val128 a"
  by (auto simp: u128_ge_def val128_simps)

lemma val128_le [val128_simps]: "u128_le a b \<longleftrightarrow> val128 a \<le> val128 b"
  by (auto simp: u128_le_def val128_simps)


lemma mod_square: "(x mod B) * B + l = (x * B + l) mod (B * B)" if "l < B" for x l B :: nat
  using that mod_mult2_eq [of "x * B + l" B B] by simp

lemma val128_add [val128_simps]: "val128 (u128_add a b) = (val128 a + val128 b) mod 2 ^ 128"
proof -
  define B where "B = (2::nat) ^ 64"
  define c where "c = (of_bool (B \<le> unat (LOWER a) + unat (LOWER b)) :: nat)"
  have B: "unat (w :: uint64) < B" for w using unat64_less by (simp add: B_def)
  have carry: "LOWER a + LOWER b < LOWER a \<longleftrightarrow> B \<le> unat (LOWER a) + unat (LOWER b)"
    using B [of "LOWER a"] B [of "LOWER b"] by (auto simp: word_less_nat_alt unat_plus_if' B_def)
  have lo: "unat (LOWER a) + unat (LOWER b) = c * B + unat (LOWER a + LOWER b)"
    using B [of "LOWER a"] B [of "LOWER b"] by (auto simp: unat_plus_if' B_def c_def)
  have hi: "unat (UPPER (u128_add a b)) = (unat (UPPER a) + unat (UPPER b) + c) mod B"
    unfolding u128_add_def carry
    by (cases "B \<le> unat (LOWER a) + unat (LOWER b)")
      (simp_all add: unat_word_ariths mod_simps c_def B_def)
  have "val128 (u128_add a b) =
      (unat (UPPER a) + unat (UPPER b) + c) mod B * B + unat (LOWER a + LOWER b)"
    using hi by (simp add: val128_def u128_add_def B_def)
  also have "\<dots> = ((unat (UPPER a) + unat (UPPER b) + c) * B + unat (LOWER a + LOWER b)) mod (B * B)"
    by (rule mod_square) (rule B)
  also have "(unat (UPPER a) + unat (UPPER b) + c) * B + unat (LOWER a + LOWER b) =
      unat (UPPER a) * B + unat (UPPER b) * B + (unat (LOWER a) + unat (LOWER b))"
    unfolding lo by (simp add: distrib_right)
  also have "\<dots> = val128 a + val128 b" by (simp add: val128_def B_def)
  finally show ?thesis by (simp add: B_def)
qed

lemma sub_add_cancel: "u128_add (u128_sub a b) b = a"
proof -
  have "x - y + y < x - y \<longleftrightarrow> x < x - y" for x y :: uint64
    by (simp add: word_less_nat_alt unat_sub_if')
  then show ?thesis by (cases a; cases b) (simp add: u128_add_def u128_sub_def)
qed

lemma val128_sub [val128_simps]:
  assumes "val128 b \<le> val128 a"
  shows "val128 (u128_sub a b) = val128 a - val128 b"
proof -
  have "(val128 (u128_sub a b) + val128 b) mod 2 ^ 128 = val128 a"
    using sub_add_cancel [of a b] val128_add [of "u128_sub a b" b] by simp
  moreover note val128_less [of a] val128_less [of b] val128_less [of "u128_sub a b"]
  moreover have "x = y - z" if "(x + z) mod N = y" "z \<le> y" "x < N" "y < N" "z < N" for x y z N :: nat
  proof (cases "x + z < N")
    case True
    with that show ?thesis by simp
  next
    case False
    then have "(x + z) mod N = x + z - N" using that(3,5) by (simp add: le_mod_geq)
    with that False show ?thesis by linarith
  qed
  ultimately show ?thesis using assms by blast
qed

subsection \<open>Shifts\<close>

text \<open>Shifts and bitwise operations are read off the bits of the pair.\<close>

lemma bit_val128:
  "bit (val128 a) n \<longleftrightarrow> (if n < 64 then bit (LOWER a) n else bit (UPPER a) (n - 64))"
proof -
  have "push_bit 64 (unat (UPPER a)) AND unat (LOWER a) = 0"
    by (auto simp: bit_eq_iff bit_simps dest: bit_imp_le_length)
  from disjunctive_add_eq_or [OF this]
  have "val128 a = push_bit 64 (unat (UPPER a)) OR unat (LOWER a)"
    by (simp add: val128_def push_bit_eq_mult)
  then show ?thesis
    by (auto simp: bit_simps dest: bit_imp_le_length)
qed

lemma shift_parts:
  fixes x y :: uint64
  assumes "0 < n" "n < 64"
  shows "push_bit n x + drop_bit (64 - n) y = push_bit n x OR drop_bit (64 - n) y"
    "push_bit (64 - n) x + drop_bit n y = push_bit (64 - n) x OR drop_bit n y"
proof -
  have "push_bit n x AND drop_bit (64 - n) y = 0" "push_bit (64 - n) x AND drop_bit n y = 0"
    using assms by (auto simp: bit_eq_iff bit_simps dest!: bit_imp_le_length)
  then show "push_bit n x + drop_bit (64 - n) y = push_bit n x OR drop_bit (64 - n) y"
    "push_bit (64 - n) x + drop_bit n y = push_bit (64 - n) x OR drop_bit n y"
    by (simp_all only: disjunctive_add_eq_or)
qed

lemma shift_cases:
  fixes shift :: uint64
  assumes "shift < 128"
  obtains "shift = 0" | "shift = 64" | "0 < unat shift" "unat shift < 64" "shift < 64" "shift \<noteq> 0"
      "unat (64 - shift) = 64 - unat shift"
  | "64 < unat shift" "unat shift < 128" "64 < shift" "unat (shift - 64) = unat shift - 64"
proof -
  have "unat shift < 128" using assms by (simp add: word_less_nat_alt)
  consider "shift = 0" | "shift = 64" | "shift \<noteq> 0" "shift < 64" | "64 < shift" by force
  then show ?thesis
  proof cases
    case 3
    then show ?thesis using that(3) by (simp add: word_less_nat_alt unat_sub_if' unat_gt_0)
  next
    case 4
    then show ?thesis using that(4) \<open>unat shift < 128\<close>
      by (simp add: word_less_nat_alt unat_sub_if')
  qed (use that in auto)
qed

lemma bit64_bound: "bit (w :: uint64) n \<Longrightarrow> n < 64"
  using bit_imp_le_length [of w n] by simp

lemma val128_shl [val128_simps]:
  assumes "n < 128"
  shows "val128 (u128_shl a (u128_of64 n)) = (val128 a * 2 ^ unat n) mod 2 ^ 128"
proof -
  have "bit (val128 (u128_shl a (u128_of64 n))) k =
      bit (take_bit 128 (push_bit (unat n) (val128 a))) k" for k
    using assms
  proof (cases rule: shift_cases)
    case 3
    then show ?thesis
      using assms bit64_bound [of "LOWER a" "k - unat n"]
      by (auto simp: u128_shl_def u128_of64_def Let_def bit_val128 bit_simps shift_parts
          add.commute)
  next
    case 4
    then show ?thesis
      using assms bit64_bound [of "LOWER a"] bit64_bound [of "UPPER a"]
      by (auto simp: u128_shl_def u128_of64_def Let_def bit_val128 bit_simps)
  qed (use bit64_bound [of "LOWER a" "k - 64"] bit64_bound [of "UPPER a" "k - 64"] in
      \<open>auto simp: u128_shl_def u128_of64_def Let_def bit_val128 bit_simps\<close>)
  then show ?thesis by (simp add: bit_eq_iff push_bit_eq_mult take_bit_eq_mod)
qed

lemma val128_shr [val128_simps]:
  assumes "n < 128"
  shows "val128 (u128_shr a (u128_of64 n)) = val128 a div 2 ^ unat n"
proof -
  have "bit (val128 (u128_shr a (u128_of64 n))) k = bit (drop_bit (unat n) (val128 a)) k" for k
    using assms
  proof (cases rule: shift_cases)
    case 3
    then show ?thesis
      using assms bit64_bound [of "LOWER a" "k + unat n"]
      by (auto simp: u128_shr_def u128_of64_def Let_def bit_val128 bit_simps shift_parts
          add.commute [of k "unat n"])
  next
    case 4
    then show ?thesis
      using assms bit64_bound [of "UPPER a" "unat n + k - 64"]
      by (auto simp: u128_shr_def u128_of64_def Let_def bit_val128 bit_simps)
  qed (use bit64_bound [of "LOWER a"] bit64_bound [of "UPPER a"] in
      \<open>auto simp: u128_shr_def u128_of64_def Let_def bit_val128 bit_simps\<close>)
  then show ?thesis by (simp add: bit_eq_iff drop_bit_eq_div)
qed

lemma val128_or [val128_simps]: "val128 (u128_or a b) = (val128 a OR val128 b)"
  by (rule bit_eqI) (simp add: bit_val128 u128_or_def bit_simps)

lemma val128_and [val128_simps]: "val128 (u128_and a b) = (val128 a AND val128 b)"
  by (rule bit_eqI) (simp add: bit_val128 u128_and_def bit_simps)

lemma val128_xor [val128_simps]: "val128 (u128_xor a b) = (val128 a XOR val128 b)"
  by (rule bit_eqI) (simp add: bit_val128 u128_xor_def bit_simps)

subsection \<open>Multiplication\<close>

lemma unat_lo32: "unat (lo32 w) = unat w mod 2 ^ 32"
proof -
  have "lo32 w = take_bit 32 w" by (simp add: lo32_def take_bit_eq_mask mask_eq_exp_minus_1)
  then show ?thesis by (simp add: take_bit_eq_mod unat_mod_distrib)
qed

lemma unat_hi32: "unat (hi32 w) = unat w div 2 ^ 32"
  by (simp add: hi32_def drop_bit_eq_div unat_div_distrib)

lemma limb_less: "unat (lo32 w) < 2 ^ 32" "unat (hi32 w) < 2 ^ 32"
  using unat64_less [of w] by (simp_all add: unat_lo32 unat_hi32 less_mult_imp_div_less)

lemma limb_split: "unat w = unat (lo32 w) + 2 ^ 32 * unat (hi32 w)"
  by (simp add: unat_lo32 unat_hi32)

lemma limb_mult:
  fixes x y :: uint64
  assumes "unat x < 2 ^ 32" "unat y < 2 ^ 32"
  shows "unat (x * y) = unat x * unat y"
proof -
  have "unat x * unat y \<le> (2 ^ 32 - 1) * (2 ^ 32 - 1)"
    using assms by (intro mult_mono) simp_all
  then show ?thesis by (simp add: unat_mult_lem [THEN iffD1])
qed

lemma limb_sums:
  fixes x1 x2 x3 x4 x5 x6 x7 :: uint64
  assumes "unat x1 < 2 ^ 32" "unat x2 < 2 ^ 32" "unat x3 < 2 ^ 32" "unat x4 < 2 ^ 32"
    "unat x5 < 2 ^ 32" "unat x6 < 2 ^ 32" "unat x7 < 2 ^ 32"
  shows "unat (x1 + x2 + x3) = unat x1 + unat x2 + unat x3"
    "unat (x1 + x2 + (x3 + x4) + x5) = unat x1 + unat x2 + unat x3 + unat x4 + unat x5"
    "unat (x1 + x2 + (x3 + x4) + (x5 + x6) + x7) =
       unat x1 + unat x2 + unat x3 + unat x4 + unat x5 + unat x6 + unat x7"
  using assms by (simp_all add: unat_plus_if')

text \<open>The limb products, summed by weight, are the product modulo \<open>B ^ 4\<close>.\<close>

lemma limbs_identity:
  fixes B :: nat
  assumes "t3 * b3 = l03 + B * h03" "t3 * b2 = l02 + B * h02" "t3 * b1 = l01 + B * h01"
    "t3 * b0 = l00 + B * h00" "t2 * b3 = l13 + B * h13" "t2 * b2 = l12 + B * h12"
    "t2 * b1 = l11 + B * h11" "t1 * b3 = l23 + B * h23" "t1 * b2 = l22 + B * h22"
    "t0 * b3 = l33 + B * h33"
  shows "(t3 + B * t2 + B * B * (t1 + B * t0)) * (b3 + B * b2 + B * B * (b1 + B * b0)) =
    l03 + B * (l02 + h03 + l13) + B * B * (l01 + h02 + l12 + h13 + l23) +
    B * B * B * (l00 + h01 + l11 + h12 + l22 + h23 + l33) +
    B * B * B * B * (h00 + h11 + h22 + h33 + t2 * b0 + t1 * b1 + t0 * b2 +
       B * (t1 * b0 + t0 * b1) + B * B * (t0 * b0))"
proof -
  have "(t3 + B * t2 + B * B * (t1 + B * t0)) * (b3 + B * b2 + B * B * (b1 + B * b0)) =
    t3 * b3 + B * (t3 * b2 + t2 * b3) + B * B * (t3 * b1 + t2 * b2 + t1 * b3) +
    B * B * B * (t3 * b0 + t2 * b1 + t1 * b2 + t0 * b3) +
    B * B * B * B * (t2 * b0 + t1 * b1 + t0 * b2 + B * (t1 * b0 + t0 * b1) + B * B * (t0 * b0))"
    by (simp add: algebra_simps)
  then show ?thesis unfolding assms by (simp add: algebra_simps)
qed

lemma val128_parts:
  "val128 (u128 (push_bit 32 f) 0) = (unat f * 2 ^ 96) mod 2 ^ 128"
  "val128 (u128 (hi32 t) (push_bit 32 t)) = unat t * 2 ^ 32"
  "val128 (u128 s 0) = unat s * 2 ^ 64"
proof -
  have push: "unat (push_bit 32 w) = unat w * 2 ^ 32 mod 2 ^ 64" for w :: uint64
    by (simp add: push_bit_eq_mult unat_word_ariths)
  have "(unat f * 2 ^ 32 mod 2 ^ 64) * 2 ^ 64 + 0 = (unat f * 2 ^ 32 * 2 ^ 64 + 0) mod (2 ^ 64 * 2 ^ 64)"
    by (rule mod_square) simp
  then show "val128 (u128 (push_bit 32 f) 0) = (unat f * 2 ^ 96) mod 2 ^ 128"
    by (simp add: val128_def push mult.assoc)
  have "unat t * 2 ^ 32 mod (2 ^ 32 * 2 ^ 32) = unat t mod 2 ^ 32 * 2 ^ 32"
    by (simp only: mult_mod_left)
  then have "unat t * 2 ^ 32 mod 2 ^ 64 = unat (lo32 t) * 2 ^ 32" by (simp add: unat_lo32)
  then show "val128 (u128 (hi32 t) (push_bit 32 t)) = unat t * 2 ^ 32"
    using limb_split [of t] by (simp add: val128_def push)
  show "val128 (u128 s 0) = unat s * 2 ^ 64" by (simp add: val128_def)
qed

lemma val128_mul [val128_simps]: "val128 (u128_mul a b) = (val128 a * val128 b) mod 2 ^ 128"
proof -
  let ?t0 = "hi32 (UPPER a)" and ?t1 = "lo32 (UPPER a)" and ?t2 = "hi32 (LOWER a)"
    and ?t3 = "lo32 (LOWER a)"
  let ?b0 = "hi32 (UPPER b)" and ?b1 = "lo32 (UPPER b)" and ?b2 = "hi32 (LOWER b)"
    and ?b3 = "lo32 (LOWER b)"
  define F where "F = lo32 (?t3 * ?b0) + hi32 (?t3 * ?b1) + (lo32 (?t2 * ?b1) + hi32 (?t2 * ?b2))
      + (lo32 (?t1 * ?b2) + hi32 (?t1 * ?b3)) + lo32 (?t0 * ?b3)"
  define S where "S = lo32 (?t3 * ?b1) + hi32 (?t3 * ?b2) + (lo32 (?t2 * ?b2) + hi32 (?t2 * ?b3))
      + lo32 (?t1 * ?b3)"
  define T where "T = lo32 (?t3 * ?b2) + hi32 (?t3 * ?b3) + lo32 (?t2 * ?b3)"
  define R where "R = lo32 (?t3 * ?b3)"
  have mul: "u128_mul a b = u128_add (u128_add (u128_add (u128 (push_bit 32 F) 0)
      (u128 (hi32 T) (push_bit 32 T))) (u128 S 0)) (u128_of64 R)"
    by (simp add: u128_mul_def Let_def F_def S_def T_def R_def numeral_eq_Suc)
  note sums = limb_sums [OF limb_less(1) limb_less(2) limb_less(1) limb_less(2) limb_less(1)
      limb_less(2) limb_less(1)]
  have F: "unat F = unat (lo32 (?t3 * ?b0)) + unat (hi32 (?t3 * ?b1)) + unat (lo32 (?t2 * ?b1)) +
      unat (hi32 (?t2 * ?b2)) + unat (lo32 (?t1 * ?b2)) + unat (hi32 (?t1 * ?b3)) +
      unat (lo32 (?t0 * ?b3))" unfolding F_def by (rule sums)
  have S: "unat S = unat (lo32 (?t3 * ?b1)) + unat (hi32 (?t3 * ?b2)) + unat (lo32 (?t2 * ?b2)) +
      unat (hi32 (?t2 * ?b3)) + unat (lo32 (?t1 * ?b3))" unfolding S_def by (rule sums)
  have T: "unat T = unat (lo32 (?t3 * ?b2)) + unat (hi32 (?t3 * ?b3)) + unat (lo32 (?t2 * ?b3))"
    unfolding T_def by (rule sums)
  have prod: "unat x * unat y = unat (lo32 (x * y)) + 2 ^ 32 * unat (hi32 (x * y))"
    if "unat x < 2 ^ 32" "unat y < 2 ^ 32" for x y :: uint64
    using limb_mult [OF that] limb_split [of "x * y"] by simp
  define B where "B = (2::nat) ^ 32"
  note products = prod [OF limb_less(1) limb_less(1)] prod [OF limb_less(1) limb_less(2)]
    prod [OF limb_less(2) limb_less(1)] prod [OF limb_less(2) limb_less(2)]
  have val: "val128 x = unat (lo32 (LOWER x)) + B * unat (hi32 (LOWER x)) +
      B * B * (unat (lo32 (UPPER x)) + B * unat (hi32 (UPPER x)))" for x
    using limb_split [of "LOWER x"] limb_split [of "UPPER x"] by (simp add: val128_def B_def)
  note id = limbs_identity [where B = B and ?t0.0 = "unat ?t0" and ?t1.0 = "unat ?t1"
      and ?t2.0 = "unat ?t2" and ?t3.0 = "unat ?t3" and ?b0.0 = "unat ?b0" and ?b1.0 = "unat ?b1"
      and ?b2.0 = "unat ?b2" and ?b3.0 = "unat ?b3",
      OF products(1,2,1,2,3,4,3,1,2,3) [folded B_def]]
  have "val128 a * val128 b =
      unat R + B * unat T + B * B * unat S + B * B * B * unat F + B * B * B * B *
       (unat (hi32 (?t3 * ?b0)) + unat (hi32 (?t2 * ?b1)) + unat (hi32 (?t1 * ?b2)) +
        unat (hi32 (?t0 * ?b3)) + unat ?t2 * unat ?b0 + unat ?t1 * unat ?b1 + unat ?t0 * unat ?b2 +
        B * (unat ?t1 * unat ?b0 + unat ?t0 * unat ?b1) + B * B * (unat ?t0 * unat ?b0))"
    (is "_ = _ + B * B * B * B * ?Z")
    unfolding val F S T R_def by (rule id)
  then have e1: "(val128 a * val128 b) mod (B * B * B * B) =
      (unat R + B * unat T + B * B * unat S + B * B * B * unat F) mod (B * B * B * B)"
    by (simp only: mod_mult_self2)
  have e2: "2 ^ 128 = B * B * B * B" by (simp add: B_def)
  have e3: "val128 (u128_mul a b) = (unat F * 2 ^ 96 + unat T * 2 ^ 32 + unat S * 2 ^ 64 +
      unat R) mod 2 ^ 128"
    unfolding mul val128_add val128_parts(1,2) unfolding val128_parts(3) val128_consts
    by (simp only: mod_add_left_eq)
  have e4: "unat F * 2 ^ 96 + unat T * 2 ^ 32 + unat S * 2 ^ 64 + unat R =
      unat R + B * unat T + B * B * unat S + B * B * B * unat F" by (simp add: B_def)
  show ?thesis unfolding e3 e4 unfolding e2 by (rule e1 [symmetric])
qed

subsection \<open>Division\<close>

lemma bits_loop_spec:
  "unat w < 2 ^ k \<Longrightarrow> (w \<noteq> 0 \<Longrightarrow> 2 ^ (k - 1) \<le> unat w) \<Longrightarrow> (w = 0 \<longleftrightarrow> k = 0) \<Longrightarrow>
   bits_loop w out = out + of_nat k"
proof (induction k arbitrary: w out)
  case 0
  then show ?case by (simp add: bits_loop.simps)
next
  case (Suc k)
  then have "w \<noteq> 0" by simp
  have half: "unat (drop_bit 1 w) = unat w div 2" by (simp add: drop_bit_eq_div unat_div_distrib)
  have "unat w div 2 < 2 ^ k" using Suc.prems(1) by simp
  moreover have "2 ^ (k - 1) \<le> unat w div 2" if "k \<noteq> 0"
    using Suc.prems(2) [OF \<open>w \<noteq> 0\<close>] that by (cases k) simp_all
  moreover have "drop_bit 1 w = 0 \<longleftrightarrow> k = 0"
  proof
    assume "drop_bit 1 w = 0"
    with half have "unat w div 2 = 0" by simp
    with calculation(2) show "k = 0" by (cases "k = 0") auto
  next
    assume "k = 0"
    with calculation(1) half have "unat (drop_bit 1 w) = 0" by simp
    then show "drop_bit 1 w = 0" by (simp add: unat_eq_zero)
  qed
  ultimately have "bits_loop (drop_bit 1 w) (out + 1) = out + 1 + of_nat k"
    using half by (intro Suc.IH) auto
  with \<open>w \<noteq> 0\<close> show ?case by (subst bits_loop.simps) (simp add: ac_simps)
qed

text \<open>Every number below \<open>2 ^ n\<close> has a bit length of at most \<open>n\<close>.\<close>

lemma bit_length_ex:
  fixes x :: nat
  assumes "x < 2 ^ n"
  shows "\<exists>k \<le> n. x < 2 ^ k \<and> (x \<noteq> 0 \<longrightarrow> 2 ^ (k - 1) \<le> x) \<and> (x = 0 \<longleftrightarrow> k = 0)"
proof (cases "x = 0")
  case False
  define k where "k = (LEAST k. x < 2 ^ k)"
  have k: "x < 2 ^ k" "k \<le> n"
    unfolding k_def using assms by (auto intro: LeastI Least_le)
  with False have "k \<noteq> 0" by (cases k) auto
  then have "\<not> x < 2 ^ (k - 1)" using not_less_Least [of "k - 1" "\<lambda>k. x < 2 ^ k"] k_def by simp
  with k \<open>k \<noteq> 0\<close> False show ?thesis by (intro exI [of _ k]) auto
qed (auto intro!: exI [of _ 0])

lemma bits_loop_length:
  obtains k where "k \<le> 64" "unat (w :: uint64) < 2 ^ k" "w \<noteq> 0 \<Longrightarrow> k \<noteq> 0 \<and> 2 ^ (k - 1) \<le> unat w"
    "\<And>out. bits_loop w out = out + of_nat k"
proof -
  obtain k where k: "k \<le> 64" "unat w < 2 ^ k" "unat w \<noteq> 0 \<Longrightarrow> 2 ^ (k - 1) \<le> unat w"
    "unat w = 0 \<longleftrightarrow> k = 0"
    using bit_length_ex [OF unat64_less [of w]] by metis
  have z: "w = 0 \<longleftrightarrow> k = 0" using k(4) by (simp only: unat_eq_zero)
  have ge: "w \<noteq> 0 \<Longrightarrow> 2 ^ (k - 1) \<le> unat w" using k(3) unat_eq_zero [of w] by blast
  show ?thesis
    by (rule that [OF k(1,2) _ bits_loop_spec [OF k(2) ge z]]) (use z ge in blast)
qed

lemma u128_bits_spec:
  obtains k where "k \<le> 128" "u128_bits a = of_nat k" "val128 a < 2 ^ k"
    "val128 a \<noteq> 0 \<Longrightarrow> k \<noteq> 0 \<and> 2 ^ (k - 1) \<le> val128 a"
proof (cases "UPPER a = 0")
  case True
  then have v: "val128 a = unat (LOWER a)" by (simp add: val128_def)
  obtain k where k: "k \<le> 64" "unat (LOWER a) < 2 ^ k"
    "LOWER a \<noteq> 0 \<Longrightarrow> k \<noteq> 0 \<and> 2 ^ (k - 1) \<le> unat (LOWER a)"
    "\<And>out. bits_loop (LOWER a) out = out + of_nat k" by (rule bits_loop_length [of "LOWER a"]) blast
  have b: "u128_bits a = of_nat k" using True k(4) by (simp add: u128_bits_def)
  have le: "k \<le> 128" using k(1) by simp
  show ?thesis
  proof (rule that [OF le b])
    show "val128 a < 2 ^ k" unfolding v by (rule k(2))
    assume "val128 a \<noteq> 0"
    then show "k \<noteq> 0 \<and> 2 ^ (k - 1) \<le> val128 a" unfolding v by (intro k(3)) auto
  qed
next
  case False
  obtain k where k: "k \<le> 64" "unat (UPPER a) < 2 ^ k"
    "UPPER a \<noteq> 0 \<Longrightarrow> k \<noteq> 0 \<and> 2 ^ (k - 1) \<le> unat (UPPER a)"
    "\<And>out. bits_loop (UPPER a) out = out + of_nat k" by (rule bits_loop_length [of "UPPER a"]) blast
  from k(3) [OF False] have kne: "k \<noteq> 0" and ge: "2 ^ (k - 1) \<le> unat (UPPER a)" by auto
  have b: "u128_bits a = of_nat (64 + k)"
    using False k(4) by (simp add: u128_bits_def)
  have le: "64 + k \<le> 128" using k(1) by simp
  show ?thesis
  proof (rule that [OF le b])
    have "(unat (UPPER a) + 1) * 2 ^ 64 \<le> 2 ^ k * 2 ^ 64"
      using k(2) by (intro mult_right_mono) simp_all
    then have "unat (UPPER a) * 2 ^ 64 + 2 ^ 64 \<le> 2 ^ (64 + k)"
      by (simp only: power_add mult.commute [of "2 ^ 64"] distrib_right mult_1_left)
    with unat64_less [of "LOWER a"] show "val128 a < 2 ^ (64 + k)" unfolding val128_def by linarith
    have "64 + k - 1 = (k - 1) + 64" using kne by simp
    then have "(2::nat) ^ (64 + k - 1) = 2 ^ (k - 1) * 2 ^ 64" by (simp only: power_add)
    also have "\<dots> \<le> unat (UPPER a) * 2 ^ 64" using ge by (rule mult_right_mono) simp
    also have "\<dots> \<le> val128 a" unfolding val128_def by (rule le_add1)
    finally show "64 + k \<noteq> 0 \<and> 2 ^ (64 + k - 1) \<le> val128 a" by simp
  qed
qed

lemma or_adder: "(m * 2 ^ Suc j) OR 2 ^ j = m * 2 ^ Suc j + (2 ^ j :: nat)"
proof -
  have "push_bit (Suc j) m AND push_bit j 1 = 0"
    by (rule bit_eqI) (auto simp: bit_push_bit_iff bit_and_iff bit_1_iff bit_exp_iff simp del: push_bit_Suc
        push_bit_of_1)
  from disjunctive_add_eq_or [OF this] show ?thesis by (simp only: push_bit_eq_mult mult_1)
qed

lemma val128_shr1: "val128 (u128_shr a uint128_1) = val128 a div 2"
  using val128_shr [of 1 a] by (simp add: uint128_1_def)

lemma divLoop_step:
  "divLoop (Suc k) rhs first second copyd adder =
     (if val128 rhs \<le> val128 second
      then if val128 copyd \<le> val128 second
           then divLoop k rhs (u128_or first adder) (u128_sub second copyd)
                  (u128_shr copyd uint128_1) (u128_shr adder uint128_1)
           else divLoop k rhs first second (u128_shr copyd uint128_1) (u128_shr adder uint128_1)
      else Some (first, second))"
  by (simp add: val128_ge)

declare divLoop.simps [simp del]

lemma divLoop_spec:
  assumes "0 < val128 rhs" "val128 copyd = val128 rhs * 2 ^ j" "val128 adder = 2 ^ j"
    "val128 first = m * 2 ^ Suc j" "val128 first * val128 rhs + val128 second = L"
    "val128 second < val128 rhs * 2 ^ Suc j" "j + 1 < fuel"
  shows "\<exists>q r. divLoop fuel rhs first second copyd adder = Some (q, r) \<and>
     val128 q * val128 rhs + val128 r = L \<and> val128 r < val128 rhs"
  using assms
proof (induction j arbitrary: fuel first second copyd adder m)
  case (0 fuel)
  have fuel: "fuel = Suc (Suc (fuel - 2))" using 0(7) by simp
  show ?case
  proof (cases "val128 rhs \<le> val128 second")
    case True
    have c: "val128 copyd \<le> val128 second" using 0(2) True by simp
    have or: "val128 (u128_or first adder) = val128 first + 1"
      using 0(3,4) or_adder [of m 0] by (simp add: val128_or)
    have sub: "val128 (u128_sub second copyd) = val128 second - val128 rhs"
      using 0(2) val128_sub [OF c] by simp
    have "\<not> val128 rhs \<le> val128 (u128_sub second copyd)" using sub 0(6) by simp
    then have "divLoop fuel rhs first second copyd adder =
        Some (u128_or first adder, u128_sub second copyd)"
      using True c by (subst fuel) (simp only: divLoop_step if_True if_False)
    moreover have "(val128 first + 1) * val128 rhs + (val128 second - val128 rhs) = L"
      using 0(5) True by (simp add: distrib_right)
    ultimately show ?thesis using or sub 0(6) by auto
  next
    case False
    then have "divLoop fuel rhs first second copyd adder = Some (first, second)"
      by (subst fuel) (simp only: divLoop_step if_False)
    with False 0(5) show ?thesis by auto
  qed
next
  case (Suc j fuel)
  obtain k where fuel: "fuel = Suc k" "j + 1 < k" using Suc.prems(7) by (cases fuel) auto
  have down: "val128 (u128_shr copyd uint128_1) = val128 rhs * 2 ^ j"
    "val128 (u128_shr adder uint128_1) = 2 ^ j"
    using Suc.prems(2,3) by (simp_all add: val128_shr1)
  show ?case
  proof (cases "val128 rhs \<le> val128 second")
    case False
    then have "divLoop fuel rhs first second copyd adder = Some (first, second)"
      by (simp add: fuel divLoop_step)
    with False Suc.prems(5) show ?thesis by auto
  next
    case ge: True
    show ?thesis
    proof (cases "val128 copyd \<le> val128 second")
      case True
      have unf: "divLoop fuel rhs first second copyd adder =
          divLoop k rhs (u128_or first adder) (u128_sub second copyd)
            (u128_shr copyd uint128_1) (u128_shr adder uint128_1)"
        using ge True by (simp add: fuel(1) divLoop_step)
      have add: "val128 (u128_or first adder) = val128 first + val128 adder"
        using Suc.prems(3,4) or_adder [of m "Suc j"] by (simp add: val128_or)
      have or: "val128 (u128_or first adder) = (2 * m + 1) * 2 ^ Suc j"
        unfolding add Suc.prems(3,4) by (simp add: algebra_simps)
      note sub = val128_sub [OF True]
      have "val128 adder * val128 rhs = val128 copyd" unfolding Suc.prems(2,3) by simp
      then have "val128 (u128_or first adder) * val128 rhs + val128 (u128_sub second copyd) = L"
        using Suc.prems(5) True unfolding add sub distrib_right by simp
      moreover have "val128 (u128_sub second copyd) < val128 rhs * 2 ^ Suc j"
        using Suc.prems(2,6) True unfolding sub by simp
      ultimately show ?thesis
        unfolding unf by (rule Suc.IH [OF Suc.prems(1) down or _ _ fuel(2)])
    next
      case False
      have unf: "divLoop fuel rhs first second copyd adder =
          divLoop k rhs first second (u128_shr copyd uint128_1) (u128_shr adder uint128_1)"
        using ge False by (simp add: fuel(1) divLoop_step)
      have m: "val128 first = (2 * m) * 2 ^ Suc j" using Suc.prems(4) by simp
      have "val128 second < val128 rhs * 2 ^ Suc j" using False Suc.prems(2) by simp
      then show ?thesis
        unfolding unf by (rule Suc.IH [OF Suc.prems(1) down m Suc.prems(5) _ fuel(2)])
    qed
  qed
qed

lemma div_mod_unique:
  fixes q r d n :: nat
  assumes "q * d + r = n" "r < d"
  shows "q = n div d \<and> r = n mod d"
  using assms by auto

lemma u128_divmod_correct:
  assumes "val128 b \<noteq> 0"
  shows "\<exists>q r. u128_divmod a b = Inr (q, r) \<and> val128 q = val128 a div val128 b \<and>
    val128 r = val128 a mod val128 b"
proof (cases "val128 b = 1 \<or> val128 a \<le> val128 b")
  case True
  then show ?thesis using assms by (auto simp: u128_divmod_def val128_simps)
next
  case False
  then have ab: "val128 b < val128 a" "1 < val128 b" using assms by auto
  obtain bl where bl: "bl \<le> 128" "u128_bits a = of_nat bl" "val128 a < 2 ^ bl"
    "bl \<noteq> 0 \<and> 2 ^ (bl - 1) \<le> val128 a"
    using ab by (auto intro: u128_bits_spec [of a])
  obtain br where br: "br \<le> 128" "u128_bits b = of_nat br" "val128 b < 2 ^ br"
    "br \<noteq> 0 \<and> 2 ^ (br - 1) \<le> val128 b"
    using ab by (auto intro: u128_bits_spec [of b])
  have "br \<le> bl"
  proof (rule ccontr)
    assume "\<not> br \<le> bl"
    then have "(2::nat) ^ bl \<le> 2 ^ (br - 1)" by (intro power_increasing) auto
    with bl(3) br(4) ab(1) show False by linarith
  qed
  define sh where "sh = bl - br"
  have sh: "bl = br + sh" "sh < 128" using \<open>br \<le> bl\<close> bl(1) br(4) by (auto simp: sh_def)
  define w where "w = (of_int (uint (u128_bits a) - uint (u128_bits b)) :: uint64)"
  have w: "w = of_nat sh" "unat w = sh" "w < 128"
  proof -
    have "uint (u128_bits a) = int bl" "uint (u128_bits b) = int br"
      using bl(1,2) br(1,2) by (simp_all add: unsigned_of_nat take_bit_nat_eq_self)
    then show "w = of_nat sh" using sh(1) by (simp add: w_def)
    with sh(2) show "unat w = sh" by (simp add: unsigned_of_nat take_bit_nat_eq_self)
    with sh(2) show "w < 128" by (simp add: word_less_nat_alt)
  qed
  have fits: "val128 b * 2 ^ sh < 2 ^ 128" "(2::nat) ^ sh < 2 ^ 128"
  proof -
    have "val128 b * 2 ^ sh < 2 ^ br * 2 ^ sh" using br(3) by simp
    also have "\<dots> = 2 ^ bl" by (simp add: sh(1) power_add)
    also have "\<dots> \<le> 2 ^ 128" using bl(1) by (rule power_increasing) simp
    finally show "val128 b * 2 ^ sh < 2 ^ 128" .
    show "(2::nat) ^ sh < 2 ^ 128" using sh(2) by (rule power_strict_increasing) simp
  qed
  have c: "val128 (u128_shl b (u128_of64 w)) = val128 b * 2 ^ sh"
    using val128_shl [OF w(3), of b] fits(1) unfolding w(2) by simp
  have d: "val128 (u128_shl uint128_1 (u128_of64 w)) = 2 ^ sh"
    using val128_shl [OF w(3), of uint128_1] fits(2) unfolding w(2) by simp
  have up: "val128 a < val128 b * 2 ^ Suc sh"
  proof -
    have "bl = Suc (br - 1) + sh" using sh(1) br(4) by simp
    then have "(2::nat) ^ bl = 2 ^ (br - 1) * 2 ^ Suc sh" by (simp only: power_add) simp
    also have "\<dots> \<le> val128 b * 2 ^ Suc sh" using br(4) by (intro mult_right_mono) simp_all
    finally show ?thesis using bl(3) by linarith
  qed
  define copyd adder where
    "copyd = (if u128_gt (u128_shl b (u128_of64 w)) a
       then u128_shr (u128_shl b (u128_of64 w)) uint128_1 else u128_shl b (u128_of64 w))"
    and "adder = (if u128_gt (u128_shl b (u128_of64 w)) a
       then u128_shr (u128_shl uint128_1 (u128_of64 w)) uint128_1
       else u128_shl uint128_1 (u128_of64 w))"
  have eq: "u128_divmod a b = (case divLoop 129 b uint128_0 a copyd adder of
      None \<Rightarrow> Inl DivOutOfFuel | Some qr \<Rightarrow> Inr qr)"
    unfolding u128_divmod_def Let_def w_def [symmetric]
    using ab by (simp add: val128_eq val128_lt copyd_def adder_def)
  obtain j where j: "val128 copyd = val128 b * 2 ^ j" "val128 adder = 2 ^ j" "j < 128"
    "val128 a < val128 b * 2 ^ Suc j"
  proof (cases "val128 a < val128 b * 2 ^ sh")
    case True
    then obtain j where "sh = Suc j" using ab by (cases sh) auto
    with that [of j] True c d sh(2) show ?thesis
      by (simp add: copyd_def adder_def val128_gt val128_shr1)
  next
    case False
    with that [of sh] c d up sh(2) show ?thesis by (simp add: copyd_def adder_def val128_gt)
  qed
  have "\<exists>q r. divLoop 129 b uint128_0 a copyd adder = Some (q, r) \<and>
     val128 q * val128 b + val128 r = val128 a \<and> val128 r < val128 b"
    by (rule divLoop_spec [where m = 0, OF _ j(1,2) _ _ j(4)]) (use assms j(3) in simp_all)
  then obtain q r where qr: "divLoop 129 b uint128_0 a copyd adder = Some (q, r)"
    "val128 q * val128 b + val128 r = val128 a" "val128 r < val128 b" by blast
  from div_mod_unique [OF qr(2,3)] qr(1) show ?thesis unfolding eq by simp
qed

lemma u128_divmod_zero: "u128_divmod a b = Inl e \<longleftrightarrow> val128 b = 0 \<and> e = DivisionByZero"
  using u128_divmod_correct [of b a] by (auto simp: u128_divmod_def val128_eq)

lemma u128_div_correct:
  assumes "val128 b \<noteq> 0"
  obtains q where "u128_div a b = Inr q" "val128 q = val128 a div val128 b"
  using u128_divmod_correct [OF assms, of a] by (auto simp: u128_div_def)

lemma u128_mod_correct:
  assumes "val128 b \<noteq> 0"
  obtains r where "u128_mod a b = Inr r" "val128 r = val128 a mod val128 b"
proof -
  obtain q where q: "u128_div a b = Inr q" "val128 q = val128 a div val128 b"
    by (rule u128_div_correct [OF assms])
  have le: "val128 b * val128 q \<le> val128 a" using q(2) by (simp add: div_times_less_eq_dividend)
  then have m: "val128 (u128_mul b q) = val128 b * val128 q"
    using val128_less [of a] by (simp add: val128_mul)
  have "val128 (u128_sub a (u128_mul b q)) = val128 a - val128 b * val128 q"
    using val128_sub [of "u128_mul b q" a] le m by simp
  also have "\<dots> = val128 a mod val128 b" unfolding q(2) by (simp add: minus_mult_div_eq_mod)
  finally show ?thesis using that q(1) by (auto simp: u128_mod_def)
qed

end
