(* ===== verification/Numeric.thy ===== *)
theory Numeric
  imports UInt128 Quorum_Sets
begin

text \<open>
  \<open>src/src/util/numeric.cpp\<close> (128-bit scaled division with rounding) and the node weights of
  \<open>src/src/scp/LocalNode.cpp\<close> that are computed with it. A reference parameter \<open>result\<close> is
  passed in and returned. Signed 64-bit integers are 64-bit words read with \<open>sint\<close>.
\<close>

type_synonym int64 = "64 word"

abbreviation INT64_MAX :: uint64 where "INT64_MAX \<equiv> 0x7FFFFFFFFFFFFFFF"

datatype Rounding = ROUND_DOWN | ROUND_UP

datatype numeric_error = NumericAssert | DivideByZero | OverflowError

definition div128 :: "uint128_t \<Rightarrow> uint128_t \<Rightarrow> numeric_error + uint128_t" where
  "div128 a b = (case u128_div a b of Inl e \<Rightarrow> Inl DivideByZero | Inr q \<Rightarrow> Inr q)"

definition bigDivide_u64 ::
  "uint64 \<Rightarrow> uint64 \<Rightarrow> uint64 \<Rightarrow> uint64 \<Rightarrow> Rounding \<Rightarrow> numeric_error + bool \<times> uint64" where
  "bigDivide_u64 result A B C rounding =
     (let a = u128_of64 A; b = u128_of64 B; c = u128_of64 C
      in bindE (if rounding = ROUND_DOWN then div128 (u128_mul a b) c
                else div128 (u128_sub (u128_add (u128_mul a b) c) uint128_1) c) (\<lambda>x.
         Inr (u128_le x (u128_of64 UINT64_MAX), LOWER x)))"

definition bigDivide_s64 ::
  "int64 \<Rightarrow> int64 \<Rightarrow> int64 \<Rightarrow> int64 \<Rightarrow> Rounding \<Rightarrow> numeric_error + bool \<times> int64" where
  "bigDivide_s64 result A B C rounding =
     bindE (assertE NumericAssert (sint A \<ge> 0 \<and> sint B \<ge> 0 \<and> sint C > 0)) (\<lambda>_.
     bindE (bigDivide_u64 0 A B C rounding) (\<lambda>(res, r2).
     if res then Inr (r2 \<le> INT64_MAX, r2) else Inr (False, result)))"

definition bigDivide ::
  "int64 \<Rightarrow> int64 \<Rightarrow> int64 \<Rightarrow> Rounding \<Rightarrow> numeric_error + int64" where
  "bigDivide A B C rounding =
     bindE (bigDivide_s64 0 A B C rounding) (\<lambda>(ok, res). if \<not> ok then Inl OverflowError else Inr res)"

definition bigDivide128_u64 ::
  "uint64 \<Rightarrow> uint128_t \<Rightarrow> uint64 \<Rightarrow> Rounding \<Rightarrow> numeric_error + bool \<times> uint64" where
  "bigDivide128_u64 result a B rounding =
     bindE (assertE NumericAssert (B \<noteq> 0)) (\<lambda>_.
     (let b = u128_of64 B;
          UINT128_MAX = u128_not uint128_0
      in if rounding = ROUND_UP \<and> u128_gt a (u128_sub UINT128_MAX (u128_sub b uint128_1))
         then Inr (False, result)
         else bindE (if rounding = ROUND_DOWN then div128 a b
                     else div128 (u128_sub (u128_add a b) uint128_1) b) (\<lambda>x.
              Inr (u128_le x (u128_of64 UINT64_MAX), LOWER x))))"

definition bigDivide128_s64 ::
  "int64 \<Rightarrow> uint128_t \<Rightarrow> int64 \<Rightarrow> Rounding \<Rightarrow> numeric_error + bool \<times> int64" where
  "bigDivide128_s64 result a B rounding =
     bindE (assertE NumericAssert (sint B > 0)) (\<lambda>_.
     bindE (bigDivide128_u64 0 a B rounding) (\<lambda>(res, r2).
     if res then Inr (r2 \<le> INT64_MAX, r2) else Inr (False, result)))"

definition bigDivide128 :: "uint128_t \<Rightarrow> int64 \<Rightarrow> Rounding \<Rightarrow> numeric_error + int64" where
  "bigDivide128 a B rounding =
     bindE (bigDivide128_s64 0 a B rounding) (\<lambda>(ok, res). if \<not> ok then Inl OverflowError else Inr res)"

definition bigMultiply_u64 :: "uint64 \<Rightarrow> uint64 \<Rightarrow> uint128_t" where
  "bigMultiply_u64 a b = u128_mul (u128_of64 a) (u128_of64 b)"

definition bigMultiply :: "int64 \<Rightarrow> int64 \<Rightarrow> numeric_error + uint128_t" where
  "bigMultiply a b =
     bindE (assertE NumericAssert (sint a \<ge> 0 \<and> sint b \<ge> 0)) (\<lambda>_. Inr (bigMultiply_u64 a b))"

subsection \<open>Node weights\<close>

definition computeWeight :: "uint64 \<Rightarrow> uint64 \<Rightarrow> uint64 \<Rightarrow> numeric_error + uint64" where
  "computeWeight m tot thr =
     bindE (assertE NumericAssert (thr \<le> tot)) (\<lambda>_.
     bindE (bigDivide_u64 0 m thr tot ROUND_UP) (\<lambda>(ok, res). Inr res))"

fun getNodeWeight :: "NodeID \<Rightarrow> SCPQuorumSet \<Rightarrow> numeric_error + uint64"
  and weight_inner :: "NodeID \<Rightarrow> SCPQuorumSet list \<Rightarrow> uint64 \<Rightarrow> uint64 \<Rightarrow> numeric_error + uint64" where
  "getNodeWeight nid (SCPQuorumSet t vs is) =
     (let n = ucast t; d = of_nat (length is) + of_nat (length vs)
      in if nid \<in> set vs then computeWeight UINT64_MAX d n else weight_inner nid is d n)"
| "weight_inner nid [] d n = Inr 0"
| "weight_inner nid (q # qs) d n =
     bindE (getNodeWeight nid q) (\<lambda>leafW.
     if leafW \<noteq> 0 then computeWeight leafW d n else weight_inner nid qs d n)"

subsection \<open>Correctness\<close>

text \<open>The exact quotient, rounded.\<close>

definition roundedDiv :: "Rounding \<Rightarrow> nat \<Rightarrow> nat \<Rightarrow> nat" where
  "roundedDiv r n d = (case r of ROUND_DOWN \<Rightarrow> n div d | ROUND_UP \<Rightarrow> (n + d - 1) div d)"

lemma div128_correct:
  assumes "val128 b \<noteq> 0"
  obtains q where "div128 a b = Inr q" "val128 q = val128 a div val128 b"
proof -
  obtain q where "u128_div a b = Inr q" "val128 q = val128 a div val128 b"
    by (rule u128_div_correct [OF assms])
  then show ?thesis using that [of q] by (simp add: div128_def)
qed

lemma div128_zero: "val128 b = 0 \<Longrightarrow> div128 a b = Inl DivideByZero"
  by (auto simp: div128_def u128_div_def u128_divmod_def val128_eq bindE_def)

lemma val128_fits: "u128_le x (u128_of64 UINT64_MAX) \<longleftrightarrow> val128 x < 2 ^ 64"
  by (auto simp: val128_le)

lemma LOWER_val128: "unat (LOWER x) = val128 x mod 2 ^ 64"
  using unat64_less [of "LOWER x"] by (simp add: val128_def)

lemma bigDivide_u64_correct:
  fixes A B C :: uint64 and rounding :: Rounding
  assumes "C \<noteq> 0"
  defines "x \<equiv> roundedDiv rounding (unat A * unat B) (unat C)"
  shows "bigDivide_u64 result A B C rounding = Inr (x < 2 ^ 64, of_nat x)"
proof -
  have C: "0 < unat C" using assms(1) by (simp add: unat_gt_0)
  then have Cne: "val128 (u128_of64 C) \<noteq> 0" by simp
  have prod: "unat A * unat B \<le> (2 ^ 64 - 1) * (2 ^ 64 - 1)"
    using unat64_less [of A] unat64_less [of B] by (intro mult_mono) simp_all
  have mul: "val128 (u128_mul (u128_of64 A) (u128_of64 B)) = unat A * unat B"
    using prod by (simp add: val128_mul)
  have up: "val128 (u128_sub (u128_add (u128_mul (u128_of64 A) (u128_of64 B)) (u128_of64 C)) uint128_1)
      = unat A * unat B + unat C - 1"
  proof -
    have "unat A * unat B + unat C < 2 ^ 128" using prod unat64_less [of C] by simp
    then have "val128 (u128_add (u128_mul (u128_of64 A) (u128_of64 B)) (u128_of64 C)) =
        unat A * unat B + unat C" by (simp add: val128_add mul)
    with val128_sub [of uint128_1] C show ?thesis by simp
  qed
  have fin: "bindE (div128 n (u128_of64 C)) (\<lambda>x. Inr (u128_le x (u128_of64 UINT64_MAX), LOWER x)) =
      Inr (val128 n div unat C < 2 ^ 64, of_nat (val128 n div unat C))" for n
  proof -
    obtain q where q: "div128 n (u128_of64 C) = Inr q" "val128 q = val128 n div unat C"
      by (rule div128_correct [OF Cne]) simp
    have "LOWER q = of_nat (val128 q)"
      by (rule word_unat_eq_iff [THEN iffD2])
        (simp add: LOWER_val128 unsigned_of_nat take_bit_eq_mod)
    with q show ?thesis by (simp add: val128_fits)
  qed
  show ?thesis
    unfolding bigDivide_u64_def Let_def x_def roundedDiv_def
    using fin mul up by (cases rounding) simp_all
qed

lemma bigDivide_u64_zero: "bigDivide_u64 result A B 0 rounding = Inl DivideByZero"
  by (simp add: bigDivide_u64_def Let_def div128_zero)

lemma sint_nonneg:
  assumes "0 \<le> sint (w :: int64)"
  shows "sint w = int (unat w)" "unat w < 2 ^ 63"
proof -
  have "sint w < 2 ^ 63" using sint_lt [of w] by simp
  then have "uint w = sint w" using assms by (simp add: uint_sint take_bit_int_eq_self)
  then show "sint w = int (unat w)" by simp
  with \<open>sint w < 2 ^ 63\<close> have "int (unat w) < int (2 ^ 63)" by simp
  then show "unat w < 2 ^ 63" by (simp only: of_nat_less_iff)
qed

lemma sint_small:
  assumes "unat (w :: int64) < 2 ^ 63"
  shows "sint w = int (unat w)"
proof -
  have "int (unat w) < int (2 ^ 63)" using assms by (simp only: of_nat_less_iff)
  moreover have "- (2 ^ 63) \<le> (0::int)" "0 \<le> uint w" by simp_all
  then have "- (2 ^ 63) \<le> uint w" by (rule order_trans)
  ultimately have "- (2 ^ 63) \<le> uint w \<and> uint w < 2 ^ 63" by (intro conjI) simp_all
  then show ?thesis by (simp add: sint_uint signed_take_bit_int_eq_self_iff)
qed

lemma bigDivide_s64_correct:
  fixes A B C :: int64 and rounding :: Rounding
  assumes "0 \<le> sint A" "0 \<le> sint B" "0 < sint C"
  defines "x \<equiv> roundedDiv rounding (unat A * unat B) (unat C)"
  shows "\<exists>res. bigDivide_s64 result A B C rounding = Inr (x < 2 ^ 63, res) \<and>
    (x < 2 ^ 63 \<longrightarrow> sint res = int x)"
proof -
  have "C \<noteq> 0" using assms(3) by auto
  note u = bigDivide_u64_correct [OF this, of 0 A B rounding, folded x_def]
  show ?thesis
  proof (cases "x < 2 ^ 64")
    case True
    then have un: "unat (of_nat x :: int64) = x" by (simp add: unsigned_of_nat take_bit_nat_eq_self)
    then have "(of_nat x :: int64) \<le> INT64_MAX \<longleftrightarrow> x < 2 ^ 63" by (auto simp: word_le_nat_alt)
    with u True assms(1-3) un sint_small [of "of_nat x"] show ?thesis
      by (simp add: bigDivide_s64_def assertE_def)
  next
    case False
    with u assms(1-3) show ?thesis by (simp add: bigDivide_s64_def assertE_def)
  qed
qed

lemma roundedDiv_le:
  assumes "t \<le> n" "0 < n"
  shows "roundedDiv ROUND_UP (m * t) n \<le> m"
proof -
  have "m * t \<le> m * n" using assms(1) by simp
  then have "m * t + n - 1 < m * n + n" using assms(2) by linarith
  then have "m * t + n - 1 < Suc m * n" by (simp add: add.commute)
  then show ?thesis by (simp add: roundedDiv_def less_mult_imp_div_less less_Suc_eq_le [symmetric])
qed

lemma roundedDiv_pos:
  assumes "0 < m" "0 < n"
  shows "0 < roundedDiv ROUND_UP m n"
  using assms by (simp add: roundedDiv_def div_greater_zero_iff)

lemma computeWeight_correct:
  assumes "thr \<le> tot" "tot \<noteq> 0"
  shows "computeWeight m tot thr = Inr (of_nat (roundedDiv ROUND_UP (unat m * unat thr) (unat tot)))"
  using assms bigDivide_u64_correct [OF assms(2)] by (simp add: computeWeight_def assertE_def)

lemma computeWeight_bounds:
  assumes "thr \<le> tot" "tot \<noteq> 0"
  obtains w where "computeWeight m tot thr = Inr w" "w \<le> m" "w = 0 \<longleftrightarrow> m = 0 \<or> thr = 0"
proof -
  let ?x = "roundedDiv ROUND_UP (unat m * unat thr) (unat tot)"
  have le: "?x \<le> unat m" using assms by (intro roundedDiv_le) (simp_all add: word_le_nat_alt unat_gt_0)
  then have un: "unat (of_nat ?x :: uint64) = ?x"
    using unat64_less [of m] by (simp add: unsigned_of_nat take_bit_nat_eq_self)
  have "?x = 0 \<longleftrightarrow> m = 0 \<or> thr = 0"
  proof (cases "unat m * unat thr = 0")
    case True
    then show ?thesis using assms(2) by (auto simp: roundedDiv_def unat_gt_0 unat_eq_zero)
  next
    case False
    then have "0 < ?x" using assms(2) by (intro roundedDiv_pos) (simp_all add: unat_gt_0)
    with False show ?thesis by (auto simp: unat_eq_zero)
  qed
  then have "(of_nat ?x :: uint64) = 0 \<longleftrightarrow> m = 0 \<or> thr = 0" using un by (metis unat_eq_zero)
  then show ?thesis
    using that [OF computeWeight_correct [OF assms]] le un by (simp add: word_le_nat_alt)
qed

text \<open>
  In a quorum set whose thresholds are between one and the number of its members, the weight
  of a node is defined and is positive exactly for the nodes that occur in it.
\<close>

fun weights_ok :: "SCPQuorumSet \<Rightarrow> bool" where
  "weights_ok (SCPQuorumSet t vs is) \<longleftrightarrow>
     1 \<le> unat t \<and> unat t \<le> length vs + length is \<and> length vs + length is < 2 ^ 64 \<and>
     (\<forall>q \<in> set is. weights_ok q)"

lemma getNodeWeight_positive_aux:
  "weights_ok q \<Longrightarrow> \<exists>w. getNodeWeight nid q = Inr w \<and> (w \<noteq> 0 \<longleftrightarrow> nid \<in> set (forAllNodes q))"
  "(\<forall>q \<in> set qs. weights_ok q) \<Longrightarrow> n \<le> d \<Longrightarrow> n \<noteq> 0 \<Longrightarrow>
   \<exists>w. weight_inner nid qs d n = Inr w \<and> (w \<noteq> 0 \<longleftrightarrow> nid \<in> set (forAllNodes_inner qs))"
proof (induction q and qs d n rule: getNodeWeight_weight_inner.induct)
  case (1 nid t vs "is")
  define n where "n = (ucast t :: uint64)"
  define d where "d = (of_nat (length is) + of_nat (length vs) :: uint64)"
  have "unat t < 2 ^ 64" using unsigned_less [of t, where 'a = nat] by simp
  then have un: "unat n = unat t" by (simp add: n_def unsigned_ucast_eq take_bit_nat_eq_self)
  have ud: "unat d = length vs + length is"
    using 1(2) by (simp add: d_def unsigned_of_nat take_bit_nat_eq_self flip: of_nat_add)
  have nd: "n \<le> d" "n \<noteq> 0" "d \<noteq> 0"
    using 1(2) un ud by (auto simp: word_le_nat_alt simp flip: unat_eq_zero)
  show ?case
  proof (cases "nid \<in> set vs")
    case True
    obtain w where "computeWeight UINT64_MAX d n = Inr w" "w = 0 \<longleftrightarrow> UINT64_MAX = 0 \<or> n = 0"
      by (rule computeWeight_bounds [OF nd(1,3)])
    with True nd(2) show ?thesis by (simp add: Let_def flip: n_def d_def)
  next
    case False
    with 1 nd show ?thesis by (auto simp: Let_def simp flip: n_def d_def)
  qed
next
  case (3 nid q qs d n)
  then obtain lw where lw: "getNodeWeight nid q = Inr lw" "lw \<noteq> 0 \<longleftrightarrow> nid \<in> set (forAllNodes q)"
    by auto
  have d: "d \<noteq> 0" using 3(4,5) by (auto simp: word_le_nat_alt simp flip: unat_eq_zero)
  show ?case
  proof (cases "lw = 0")
    case True
    with 3 lw show ?thesis by auto
  next
    case False
    obtain w where "computeWeight lw d n = Inr w" "w = 0 \<longleftrightarrow> lw = 0 \<or> n = 0"
      by (rule computeWeight_bounds [OF 3(4) d])
    with False lw 3(5) show ?thesis by simp
  qed
qed simp

end
