(* ===== verification/Nomination_Protocol.thy ===== *)
theory Nomination_Protocol
  imports Ballot_Protocol Numeric
begin

text \<open>
  \<open>src/src/scp/NominationProtocol.cpp\<close>, operation by operation. Emitting a nomination
  re-enters the slot with the node's own envelope, and new candidates start the ballot
  protocol; both calls are arguments (\<open>process\<close> and \<open>bump\<close>) of the operations that make
  them, and \<open>Slot_Protocol\<close> supplies them. The three sets of values and the round leaders are
  \<open>std::set\<close>s. Trace output is left out.
\<close>

subsection \<open>Comparison and recording of nominations\<close>

text \<open>
  The votes and the accepted values of a statement. The source reads the union member
  \<open>nominate()\<close>, which only nomination statements have; no other statement reaches these
  operations.
\<close>

fun nomVotes :: "SCPStatement \<Rightarrow> Value list" where
  "nomVotes st = (case pledges st of Nominate h vs acc \<Rightarrow> vs | _ \<Rightarrow> [])"

fun nomAccepted :: "SCPStatement \<Rightarrow> Value list" where
  "nomAccepted st = (case pledges st of Nominate h vs acc \<Rightarrow> acc | _ \<Rightarrow> [])"

text \<open>\<open>std::includes\<close> on two ranges, the first being the larger set.\<close>

fun std_includes :: "'a::linorder list \<Rightarrow> 'a list \<Rightarrow> bool" where
  "std_includes xs [] = True"
| "std_includes [] (y # ys) = False"
| "std_includes (x # xs) (y # ys) =
     (if y < x then False
      else if x < y then std_includes xs (y # ys)
      else std_includes xs ys)"

text \<open>Returns the result and the reference parameter \<open>notEqual\<close>.\<close>

definition isSubsetHelper :: "Value list \<Rightarrow> Value list \<Rightarrow> bool \<times> bool" where
  "isSubsetHelper p v =
     (if length p \<le> length v
      then (if std_includes v p then (True, length p \<noteq> length v) else (False, True))
      else (False, True))"

definition isNewerNomination :: "SCPStatement \<Rightarrow> SCPStatement \<Rightarrow> bool" where
  "isNewerNomination oldst st =
     (let (sub, g) = isSubsetHelper (nomVotes oldst) (nomVotes st)
      in if sub
         then (let grows = g; (sub, g) = isSubsetHelper (nomAccepted oldst) (nomAccepted st)
               in if sub then grows \<or> g else False)
         else False)"

definition isNewerNominationFrom :: "Slot \<Rightarrow> NodeID \<Rightarrow> SCPStatement \<Rightarrow> bool" where
  "isNewerNominationFrom s n st =
     (case map_of (mLatestNominations (np s)) n of
        None \<Rightarrow> True
      | Some oldp \<Rightarrow> isNewerNomination (statement oldp) st)"

text \<open>\<open>std::adjacent_find\<close> with the negated order finds nothing on a strictly sorted range.\<close>

fun adjacentSorted :: "'a::linorder list \<Rightarrow> bool" where
  "adjacentSorted [] = True"
| "adjacentSorted [x] = True"
| "adjacentSorted (x # y # ys) = (if \<not> x < y then False else adjacentSorted (y # ys))"

definition isSane :: "SCPStatement \<Rightarrow> bool" where
  "isSane st =
     (length (nomVotes st) + length (nomAccepted st) \<noteq> 0 \<and>
      adjacentSorted (nomVotes st) \<and> adjacentSorted (nomAccepted st))"

definition recordNomination :: "SCPDriver \<Rightarrow> SCPEnvelope \<Rightarrow> Slot \<Rightarrow> Slot" where
  "recordNomination D env s =
     recordStatement D (statement env)
       (np_update (\<lambda>n. n\<lparr>mLatestNominations :=
          map_insert (nodeID (statement env)) env (mLatestNominations n)\<rparr>) s)"

subsection \<open>Emission\<close>

definition createNomination :: "SCPDriver \<Rightarrow> Slot \<Rightarrow> SCPEnvelope" where
  "createNomination D s =
     createEnvelope D
       \<lparr>nodeID = mNodeID (localNode s), slotIndex = 0,
        pledges = Nominate (mQSetHash (localNode s)) (mVotes (np s)) (mAccepted (np s))\<rparr> s"

definition emitNomination ::
  "SCPDriver \<Rightarrow> (SCPEnvelope \<Rightarrow> Slot \<Rightarrow> scp_error + EnvelopeState \<times> Slot) \<Rightarrow>
   Slot \<Rightarrow> scp_error + Slot" where
  "emitNomination D process s =
     (let envelope = createNomination D s
      in bindE (process envelope s) (\<lambda>(r, s1).
         if r = VALID
         then (if (case mLastNomination (np s1) of
                     None \<Rightarrow> True
                   | Some l \<Rightarrow> isNewerNomination (statement l) (statement envelope))
               then (let s2 = np_update (\<lambda>n. n\<lparr>mLastNomination := Some envelope\<rparr>) s1
                     in Inr (if mFullyValidated s2 then driverCall (EmitEnvelope envelope) s2 else s2))
               else Inr s1)
         else Inl (RuntimeError ''moved to a bad state (nomination)'')))"

definition acceptPredicate :: "Value \<Rightarrow> SCPStatement \<Rightarrow> bool" where
  "acceptPredicate v st \<longleftrightarrow> v \<in> set (nomAccepted st)"

text \<open>The vote predicate of \<open>processEnvelope\<close> (a lambda in the source).\<close>

definition votePredicate :: "Value \<Rightarrow> SCPStatement \<Rightarrow> bool" where
  "votePredicate v st \<longleftrightarrow> v \<in> set (nomVotes st)"

text \<open>\<open>applyAll\<close> as the list of values its callback is applied to, in order.\<close>

definition applyAll :: "SCPStatement \<Rightarrow> Value list" where
  "applyAll st = nomVotes st @ nomAccepted st"

subsection \<open>Round leaders\<close>

definition hashNode :: "SCPDriver \<Rightarrow> Slot \<Rightarrow> bool \<Rightarrow> NodeID \<Rightarrow> scp_error + uint64" where
  "hashNode D s isPriority n =
     bindE (dbgAssert D (mPreviousValue (np s) \<noteq> [])) (\<lambda>_.
     Inr (computeHashNode D (mSlotIndex s) (mPreviousValue (np s)) isPriority
            (mRoundNumber (np s)) n))"

definition hashValue :: "SCPDriver \<Rightarrow> Slot \<Rightarrow> Value \<Rightarrow> scp_error + uint64" where
  "hashValue D s v =
     bindE (dbgAssert D (mPreviousValue (np s) \<noteq> [])) (\<lambda>_.
     Inr (computeValueHash D (mSlotIndex s) (mPreviousValue (np s)) (mRoundNumber (np s)) v))"

definition nodeWeight :: "NodeID \<Rightarrow> SCPQuorumSet \<Rightarrow> scp_error + uint64" where
  "nodeWeight n q =
     (case getNodeWeight n q of
        Inl NumericAssert \<Rightarrow> Inl AssertFailed
      | Inl _ \<Rightarrow> Inl (RuntimeError ''Error: division or modulus by 0'')
      | Inr w \<Rightarrow> Inr w)"

definition getNodePriority :: "SCPDriver \<Rightarrow> Slot \<Rightarrow> NodeID \<Rightarrow> SCPQuorumSet \<Rightarrow> scp_error + uint64" where
  "getNodePriority D s n qset =
     bindE (if n = mNodeID (localNode s) then Inr UINT64_MAX else nodeWeight n qset) (\<lambda>w.
     if w > 0
     then bindE (hashNode D s False n) (\<lambda>hn.
          if hn \<le> w then hashNode D s True n else Inr 0)
     else Inr 0)"

fun leadersLoop ::
  "SCPDriver \<Rightarrow> Slot \<Rightarrow> SCPQuorumSet \<Rightarrow> NodeID list \<Rightarrow> uint64 \<Rightarrow> NodeID list \<Rightarrow>
   scp_error + NodeID list" where
  "leadersLoop D s q [] topPriority leaders = Inr leaders"
| "leadersLoop D s q (cur # ns) topPriority leaders =
     bindE (getNodePriority D s cur q) (\<lambda>w.
     (let (topPriority, leaders) = (if w > topPriority then (w, []) else (topPriority, leaders));
          leaders = (if w = topPriority \<and> w > 0 then set_insert cur leaders else leaders)
      in leadersLoop D s q ns topPriority leaders))"

definition updateRoundLeaders :: "SCPDriver \<Rightarrow> Slot \<Rightarrow> scp_error + Slot" where
  "updateRoundLeaders D s =
     (let localID = mNodeID (localNode s);
          myQSet = normalizeQSet (mQSet (localNode s)) (Some localID)
      in bindE (getNodePriority D s localID myQSet) (\<lambda>topPriority.
         bindE (leadersLoop D s myQSet (forAllNodes myQSet) topPriority (set_insert localID []))
           (\<lambda>newRoundLeaders.
         Inr (np_update (\<lambda>n. n\<lparr>mRoundLeaders :=
                fold set_insert newRoundLeaders (mRoundLeaders n)\<rparr>) s))))"

subsection \<open>Choosing values\<close>

fun newValueLoop ::
  "SCPDriver \<Rightarrow> Slot \<Rightarrow> Value list \<Rightarrow> Value \<Rightarrow> uint64 \<Rightarrow> scp_error + Value" where
  "newValueLoop D s [] newVote newHash = Inr newVote"
| "newValueLoop D s (value # vs) newVote newHash =
     (let valueToNominate =
            (if validateValue D (mSlotIndex s) value True = kFullyValidatedValue then value
             else extractValidValue D (mSlotIndex s) value)
      in if valueToNominate \<noteq> [] \<and> valueToNominate \<notin> set (mVotes (np s))
         then bindE (hashValue D s valueToNominate) (\<lambda>curHash.
              if curHash \<ge> newHash then newValueLoop D s vs valueToNominate curHash
              else newValueLoop D s vs newVote newHash)
         else newValueLoop D s vs newVote newHash)"

definition getNewValueFromNomination :: "SCPDriver \<Rightarrow> Slot \<Rightarrow> SCPStatement \<Rightarrow> scp_error + Value" where
  "getNewValueFromNomination D s st = newValueLoop D s (applyAll st) [] 0"

subsection \<open>Processing nominations\<close>

definition addVote :: "Value \<Rightarrow> Slot \<Rightarrow> Slot" where
  "addVote v s = np_update (\<lambda>n. n\<lparr>mVotes := set_insert v (mVotes n)\<rparr>) s"

definition addAccepted :: "Value \<Rightarrow> Slot \<Rightarrow> Slot" where
  "addAccepted v s = np_update (\<lambda>n. n\<lparr>mAccepted := set_insert v (mAccepted n)\<rparr>) s"

fun acceptLoop :: "SCPDriver \<Rightarrow> Value list \<Rightarrow> bool \<Rightarrow> Slot \<Rightarrow> bool \<times> Slot" where
  "acceptLoop D [] modified s = (modified, s)"
| "acceptLoop D (v # vs) modified s =
     (if v \<in> set (mAccepted (np s)) then acceptLoop D vs modified s
      else if federatedAccept D s (votePredicate v) (acceptPredicate v) (mLatestNominations (np s))
      then (if validateValue D (mSlotIndex s) v True = kFullyValidatedValue
            then acceptLoop D vs True (addVote v (addAccepted v s))
            else (let toVote = extractValidValue D (mSlotIndex s) v
                  in if toVote \<noteq> []
                     then acceptLoop D vs (modified \<or> toVote \<notin> set (mVotes (np s)))
                            (addVote toVote s)
                     else acceptLoop D vs modified s))
      else acceptLoop D vs modified s)"

fun candidateLoop :: "SCPDriver \<Rightarrow> Value list \<Rightarrow> bool \<Rightarrow> Slot \<Rightarrow> bool \<times> Slot" where
  "candidateLoop D [] newCandidates s = (newCandidates, s)"
| "candidateLoop D (a # as) newCandidates s =
     (if a \<in> set (mCandidates (np s)) then candidateLoop D as newCandidates s
      else if federatedRatify D s (acceptPredicate a) (mLatestNominations (np s))
      then candidateLoop D as True
             (np_update (\<lambda>n. n\<lparr>mCandidates := set_insert a (mCandidates n)\<rparr>) s)
      else candidateLoop D as newCandidates s)"

text \<open>The vote for a value of a leader, taken while there is no candidate.\<close>

definition leaderVote :: "SCPDriver \<Rightarrow> SCPStatement \<Rightarrow> bool \<Rightarrow> Slot \<Rightarrow> scp_error + bool \<times> Slot" where
  "leaderVote D st modified s =
     (if mCandidates (np s) = [] \<and> nodeID st \<in> set (mRoundLeaders (np s))
      then bindE (getNewValueFromNomination D s st) (\<lambda>newVote.
           if newVote \<noteq> []
           then Inr (True, driverCall (NominatingValue (mSlotIndex s) newVote) (addVote newVote s))
           else Inr (modified, s))
      else Inr (modified, s))"

definition updateComposite :: "SCPDriver \<Rightarrow> Slot \<Rightarrow> Slot" where
  "updateComposite D s =
     (let v = combineCandidates D (mSlotIndex s) (mCandidates (np s))
      in driverCall (UpdatedCandidateValue (mSlotIndex s) v)
           (np_update (\<lambda>n. n\<lparr>mLatestCompositeCandidate := v\<rparr>) s))"

definition nomProcessEnvelope ::
  "SCPDriver \<Rightarrow> (SCPEnvelope \<Rightarrow> Slot \<Rightarrow> scp_error + EnvelopeState \<times> Slot) \<Rightarrow>
   (Value \<Rightarrow> bool \<Rightarrow> Slot \<Rightarrow> scp_error + bool \<times> Slot) \<Rightarrow> SCPEnvelope \<Rightarrow> Slot \<Rightarrow>
   scp_error + EnvelopeState \<times> Slot" where
  "nomProcessEnvelope D process bump envelope s =
     (let st = statement envelope
      in if isNewerNominationFrom s (nodeID st) st \<and> isSane st
         then
           (let s1 = recordNomination D envelope s
            in if mNominationStarted (np s1)
               then
                 (let (modified, s2) = acceptLoop D (nomVotes st) False s1;
                      (newCandidates, s3) = candidateLoop D (mAccepted (np s2)) False s2
                  in bindE (leaderVote D st modified s3) (\<lambda>(modified, s4).
                     bindE (if modified then emitNomination D process s4 else Inr s4) (\<lambda>s5.
                     if newCandidates
                     then (let s6 = updateComposite D s5
                           in bindE (bump (mLatestCompositeCandidate (np s6)) False s6) (\<lambda>(b, s7).
                              Inr (VALID, s7)))
                     else Inr (VALID, s5))))
               else Inr (VALID, s1))
         else Inr (INVALID, s))"

definition getStatementValues_nom :: "SCPStatement \<Rightarrow> Value list" where
  "getStatementValues_nom st = applyAll st"

subsection \<open>Nominating\<close>

fun leaderValues ::
  "SCPDriver \<Rightarrow> NodeID list \<Rightarrow> bool \<Rightarrow> Value \<Rightarrow> Slot \<Rightarrow> scp_error + bool \<times> Value \<times> Slot" where
  "leaderValues D [] updated nominating s = Inr (updated, nominating, s)"
| "leaderValues D (leader # ls) updated nominating s =
     (case map_of (mLatestNominations (np s)) leader of
        None \<Rightarrow> leaderValues D ls updated nominating s
      | Some e \<Rightarrow>
          bindE (getNewValueFromNomination D s (statement e)) (\<lambda>v.
          if v \<noteq> [] then leaderValues D ls True v (addVote v s)
          else leaderValues D ls updated v s))"

definition nominate ::
  "SCPDriver \<Rightarrow> (SCPEnvelope \<Rightarrow> Slot \<Rightarrow> scp_error + EnvelopeState \<times> Slot) \<Rightarrow>
   Value \<Rightarrow> Value \<Rightarrow> bool \<Rightarrow> Slot \<Rightarrow> scp_error + bool \<times> Slot" where
  "nominate D process value previousValue timedout s =
     (if timedout \<and> \<not> mNominationStarted (np s) then Inr (False, s)
      else
        (let s1 = np_update (\<lambda>n. n\<lparr>mNominationStarted := True, mPreviousValue := previousValue,
                    mRoundNumber := mRoundNumber n + 1\<rparr>) s
         in bindE (updateRoundLeaders D s1) (\<lambda>s2.
            (let isLeader = (mNodeID (localNode s2) \<in> set (mRoundLeaders (np s2)));
                 updated0 = (isLeader \<and> value \<notin> set (mVotes (np s2)));
                 s3 = (if isLeader then addVote value s2 else s2)
             in bindE (leaderValues D (mRoundLeaders (np s3)) updated0
                         (if isLeader then value else []) s3) (\<lambda>(updated, nominatingValue, s4).
                (let s5 = driverCall (NominatingValue (mSlotIndex s4) nominatingValue) s4;
                     s6 = driverCall (SetupTimer (mSlotIndex s5) NOMINATION_TIMER
                            (computeTimeout (mRoundNumber (np s5)))
                            (NominateTimedOut value previousValue)) s5
                 in bindE (if updated then emitNomination D process s6 else Inr s6) (\<lambda>s7.
                    Inr (updated, s7))))))))"

subsection \<open>Restoring and reporting state\<close>

definition nomSetStateFromEnvelope :: "SCPDriver \<Rightarrow> SCPEnvelope \<Rightarrow> Slot \<Rightarrow> scp_error + Slot" where
  "nomSetStateFromEnvelope D e s =
     (if mNominationStarted (np s)
      then Inl (RuntimeError ''Cannot set state after nomination is started'')
      else
        (let s1 = recordNomination D e s;
             s2 = fold addAccepted (nomAccepted (statement e)) s1;
             s3 = fold addVote (nomVotes (statement e)) s2
         in Inr (np_update (\<lambda>n. n\<lparr>mLastNomination := Some e\<rparr>) s3)))"

definition nomGetCurrentState :: "Slot \<Rightarrow> SCPEnvelope list" where
  "nomGetCurrentState s =
     map snd (filter (\<lambda>(n, e). n \<noteq> mNodeID (localNode s) \<or> mFullyValidated s)
                (mLatestNominations (np s)))"

definition nomGetLatestMessage :: "Slot \<Rightarrow> NodeID \<Rightarrow> SCPEnvelope option" where
  "nomGetLatestMessage s n = map_of (mLatestNominations (np s)) n"

end
