(* ===== verification/Slot_Protocol.thy ===== *)
theory Slot_Protocol
  imports Nomination_Protocol
begin

text \<open>
  \<open>src/src/scp/Slot.cpp\<close> and \<open>src/src/scp/SCP.cpp\<close>: the slot dispatches an envelope to the
  protocol it belongs to and ties the re-entrant calls of both protocols; \<open>SCP\<close> keeps one
  slot per index in an ordered map. In the source all slots share the local node of their
  \<open>SCP\<close> object; here every slot carries a copy, and \<open>updateLocalQuorumSet\<close> updates them all.
\<close>

subsection \<open>Slots\<close>

fun isNominate :: "SCPPledges \<Rightarrow> bool" where
  "isNominate (Nominate h vs acc) = True"
| "isNominate _ = False"

fun slotProcessEnvelope ::
  "nat \<Rightarrow> SCPDriver \<Rightarrow> SCPEnvelope \<Rightarrow> bool \<Rightarrow> Slot \<Rightarrow> scp_error + EnvelopeState \<times> Slot" where
  "slotProcessEnvelope 0 D envelope self s = Inl OutOfFuel"
| "slotProcessEnvelope (Suc k) D envelope self s =
     bindE (dbgAssert D (slotIndex (statement envelope) = mSlotIndex s)) (\<lambda>_.
     if isNominate (pledges (statement envelope))
     then nomProcessEnvelope D (\<lambda>e. slotProcessEnvelope k D e True)
            (bumpState D (emitStatement k D)) envelope s
     else processEnvelope k D envelope self s)"

definition slotAbandonBallot :: "nat \<Rightarrow> SCPDriver \<Rightarrow> Slot \<Rightarrow> scp_error + bool \<times> Slot" where
  "slotAbandonBallot k D s = abandonBallot D (emitStatement k D) 0 s"

definition slotBumpState :: "nat \<Rightarrow> SCPDriver \<Rightarrow> Value \<Rightarrow> bool \<Rightarrow> Slot \<Rightarrow> scp_error + bool \<times> Slot" where
  "slotBumpState k D value force s = bumpState D (emitStatement k D) value force s"

definition slotNominate ::
  "nat \<Rightarrow> SCPDriver \<Rightarrow> Value \<Rightarrow> Value \<Rightarrow> bool \<Rightarrow> Slot \<Rightarrow> scp_error + bool \<times> Slot" where
  "slotNominate k D value previousValue timedout s =
     nominate D (\<lambda>e. slotProcessEnvelope k D e True) value previousValue timedout s"

text \<open>The callbacks that the two timers of a slot run.\<close>

fun runTimer :: "nat \<Rightarrow> SCPDriver \<Rightarrow> timerCallback \<Rightarrow> Slot \<Rightarrow> scp_error + Slot" where
  "runTimer k D NoCallback s = Inr s"
| "runTimer k D BallotProtocolTimerExpired s = ballotProtocolTimerExpired D (emitStatement k D) s"
| "runTimer k D (NominateTimedOut value prev) s =
     bindE (slotNominate k D value prev True s) (\<lambda>(b, s1). Inr s1)"

definition getLatestMessagesSend :: "Slot \<Rightarrow> SCPEnvelope list" where
  "getLatestMessagesSend s =
     (if mFullyValidated s
      then (case mLastNomination (np s) of None \<Rightarrow> [] | Some e \<Rightarrow> [e]) @
           (case mLastEnvelopeEmit (bp s) of None \<Rightarrow> [] | Some e \<Rightarrow> [e])
      else [])"

definition slotSetStateFromEnvelope :: "SCPDriver \<Rightarrow> SCPEnvelope \<Rightarrow> Slot \<Rightarrow> scp_error + Slot" where
  "slotSetStateFromEnvelope D e s =
     (if nodeID (statement e) = mNodeID (localNode s) \<and> slotIndex (statement e) = mSlotIndex s
      then (if isNominate (pledges (statement e)) then nomSetStateFromEnvelope D e s
            else setStateFromEnvelope D e s)
      else Inr s)"

definition slotGetCurrentState :: "Slot \<Rightarrow> SCPEnvelope list" where
  "slotGetCurrentState s = nomGetCurrentState s @ getCurrentState s"

definition slotGetLatestMessage :: "Slot \<Rightarrow> NodeID \<Rightarrow> SCPEnvelope option" where
  "slotGetLatestMessage s n =
     (case getLatestMessage s n of None \<Rightarrow> nomGetLatestMessage s n | Some e \<Rightarrow> Some e)"

definition getEntireCurrentState :: "Slot \<Rightarrow> SCPEnvelope list" where
  "getEntireCurrentState s = slotGetCurrentState (s\<lparr>mFullyValidated := True\<rparr>)"

definition getStatementValues :: "SCPStatement \<Rightarrow> Value list" where
  "getStatementValues st =
     (if isNominate (pledges st) then getStatementValues_nom st else [bvalue (getWorkingBallot st)])"

definition getStatementCount :: "Slot \<Rightarrow> nat" where
  "getStatementCount s = length (mStatementsHistory s)"

subsection \<open>The slots of a node\<close>

record SCP =
  mLocalNode :: LocalNode
  mKnownSlots :: "(uint64 \<times> Slot) list"

definition SCP_new ::
  "(SCPQuorumSet \<Rightarrow> Hash) \<Rightarrow> NodeID \<Rightarrow> bool \<Rightarrow> SCPQuorumSet \<Rightarrow> SCP" where
  "SCP_new hash nid isValidator qSetLocal =
     \<lparr>mLocalNode = LocalNode_new hash nid isValidator qSetLocal, mKnownSlots = []\<rparr>"

definition setSlot :: "uint64 \<Rightarrow> Slot \<Rightarrow> SCP \<Rightarrow> SCP" where
  "setSlot i s scp = scp\<lparr>mKnownSlots := map_insert i s (mKnownSlots scp)\<rparr>"

definition getSlot :: "uint64 \<Rightarrow> bool \<Rightarrow> SCP \<Rightarrow> Slot option \<times> SCP" where
  "getSlot i create scp =
     (case map_of (mKnownSlots scp) i of
        None \<Rightarrow> if create
                then (let s = Slot_new i (mLocalNode scp) in (Some s, setSlot i s scp))
                else (None, scp)
      | Some s \<Rightarrow> (Some s, scp))"

text \<open>A call of a member function of a slot that is created when it is missing.\<close>

definition onSlot :: "uint64 \<Rightarrow> (Slot \<Rightarrow> scp_error + 'a \<times> Slot) \<Rightarrow> SCP \<Rightarrow> scp_error + 'a \<times> SCP" where
  "onSlot i f scp =
     (let (so, scp1) = getSlot i True scp
      in bindE (derefE NullDeref so) (\<lambda>s.
         bindE (f s) (\<lambda>(r, s1). Inr (r, setSlot i s1 scp1))))"

definition receiveEnvelope ::
  "nat \<Rightarrow> SCPDriver \<Rightarrow> SCPEnvelope \<Rightarrow> SCP \<Rightarrow> scp_error + EnvelopeState \<times> SCP" where
  "receiveEnvelope k D envelope scp =
     onSlot (slotIndex (statement envelope)) (slotProcessEnvelope k D envelope False) scp"

definition scpNominate ::
  "nat \<Rightarrow> SCPDriver \<Rightarrow> uint64 \<Rightarrow> Value \<Rightarrow> Value \<Rightarrow> SCP \<Rightarrow> scp_error + bool \<times> SCP" where
  "scpNominate k D i value previousValue scp =
     bindE (dbgAssert D (mIsValidator (mLocalNode scp))) (\<lambda>_.
     onSlot i (slotNominate k D value previousValue False) scp)"

definition scpStopNomination :: "uint64 \<Rightarrow> SCP \<Rightarrow> SCP" where
  "scpStopNomination i scp =
     (case fst (getSlot i False scp) of
        None \<Rightarrow> scp
      | Some s \<Rightarrow> setSlot i (stopNomination s) scp)"

definition updateLocalQuorumSet :: "(SCPQuorumSet \<Rightarrow> Hash) \<Rightarrow> SCPQuorumSet \<Rightarrow> SCP \<Rightarrow> SCP" where
  "updateLocalQuorumSet hash qSet scp =
     (let ln = updateQuorumSet hash qSet (mLocalNode scp)
      in scp\<lparr>mLocalNode := ln,
             mKnownSlots := map (\<lambda>(i, s). (i, s\<lparr>localNode := ln\<rparr>)) (mKnownSlots scp)\<rparr>)"

text \<open>The erasing loop of \<open>purgeSlots\<close>.\<close>

fun purgeLoop :: "uint64 \<Rightarrow> (uint64 \<times> Slot) list \<Rightarrow> (uint64 \<times> Slot) list" where
  "purgeLoop maxSlotIndex [] = []"
| "purgeLoop maxSlotIndex ((i, s) # xs) =
     (if i < maxSlotIndex then purgeLoop maxSlotIndex xs else (i, s) # purgeLoop maxSlotIndex xs)"

definition purgeSlots :: "uint64 \<Rightarrow> SCP \<Rightarrow> SCP" where
  "purgeSlots maxSlotIndex scp = scp\<lparr>mKnownSlots := purgeLoop maxSlotIndex (mKnownSlots scp)\<rparr>"

definition isSlotFullyValidated :: "uint64 \<Rightarrow> SCP \<Rightarrow> bool" where
  "isSlotFullyValidated i scp =
     (case fst (getSlot i False scp) of Some s \<Rightarrow> mFullyValidated s | None \<Rightarrow> False)"

definition getKnownSlotsCount :: "SCP \<Rightarrow> nat" where
  "getKnownSlotsCount scp = length (mKnownSlots scp)"

definition getCumulativeStatemtCount :: "SCP \<Rightarrow> nat" where
  "getCumulativeStatemtCount scp = fold (\<lambda>(i, s) c. c + getStatementCount s) (mKnownSlots scp) 0"

definition scpGetLatestMessagesSend :: "uint64 \<Rightarrow> SCP \<Rightarrow> SCPEnvelope list" where
  "scpGetLatestMessagesSend i scp =
     (case fst (getSlot i False scp) of Some s \<Rightarrow> getLatestMessagesSend s | None \<Rightarrow> [])"

definition scpSetStateFromEnvelope ::
  "SCPDriver \<Rightarrow> uint64 \<Rightarrow> SCPEnvelope \<Rightarrow> SCP \<Rightarrow> scp_error + SCP" where
  "scpSetStateFromEnvelope D i e scp =
     bindE (onSlot i (\<lambda>s. bindE (slotSetStateFromEnvelope D e s) (\<lambda>s1. Inr ((), s1))) scp)
       (\<lambda>(u, scp1). Inr scp1)"

definition scpEmpty :: "SCP \<Rightarrow> bool" where
  "scpEmpty scp \<longleftrightarrow> mKnownSlots scp = []"

definition getLowSlotIndex :: "SCP \<Rightarrow> scp_error + uint64" where
  "getLowSlotIndex scp =
     bindE (assertE AssertFailed (\<not> scpEmpty scp)) (\<lambda>_. Inr (fst (hd (mKnownSlots scp))))"

definition getHighSlotIndex :: "SCP \<Rightarrow> scp_error + uint64" where
  "getHighSlotIndex scp =
     bindE (assertE AssertFailed (\<not> scpEmpty scp)) (\<lambda>_. Inr (fst (last (mKnownSlots scp))))"

definition scpGetCurrentState :: "uint64 \<Rightarrow> SCP \<Rightarrow> SCPEnvelope list" where
  "scpGetCurrentState i scp =
     (case fst (getSlot i False scp) of Some s \<Rightarrow> slotGetCurrentState s | None \<Rightarrow> [])"

fun latestMessageLoop :: "NodeID \<Rightarrow> (uint64 \<times> Slot) list \<Rightarrow> SCPEnvelope option" where
  "latestMessageLoop n [] = None"
| "latestMessageLoop n ((i, s) # xs) =
     (case slotGetLatestMessage s n of Some e \<Rightarrow> Some e | None \<Rightarrow> latestMessageLoop n xs)"

definition scpGetLatestMessage :: "NodeID \<Rightarrow> SCP \<Rightarrow> SCPEnvelope option" where
  "scpGetLatestMessage n scp = latestMessageLoop n (rev (mKnownSlots scp))"

definition scpGetExternalizingState :: "uint64 \<Rightarrow> SCP \<Rightarrow> scp_error + SCPEnvelope list" where
  "scpGetExternalizingState i scp =
     (case fst (getSlot i False scp) of Some s \<Rightarrow> getExternalizingState s | None \<Rightarrow> Inr [])"

end
