(* ===== verification/Slot_Refinement.thy ===== *)
theory Slot_Refinement
  imports Ballot_Refinement Slot_Protocol
begin

text \<open>
  The operations of a slot refine the transition system of the ballot protocol: nomination
  leaves the variables of the ballot protocol alone except where it starts a ballot with its
  composite candidate, and the only envelopes it sends are nominations of the node itself.
  The locale \<open>slot_reentry\<close> is the contract of the re-entrant call with which a nomination
  processes its own envelope.
\<close>

declare nomVotes.simps [simp del] nomAccepted.simps [simp del]

lemma core_np_update [core_simps]: "core (np_update f s) = core s"
  by (simp add: core_def)

lemma core_recordNomination [core_simps]: "core (recordNomination D e s) = core s"
  by (simp add: core_def recordNomination_def recordStatement_def)

lemma core_addVote [core_simps]: "core (addVote v s) = core s" "core (addAccepted v s) = core s"
  by (simp_all add: addVote_def addAccepted_def core_simps)

lemma core_acceptLoop [core_simps]: "core (snd (acceptLoop D vs m s)) = core s"
  by (induction D vs m s rule: acceptLoop.induct) (simp_all add: core_simps Let_def)

lemma core_candidateLoop [core_simps]: "core (snd (candidateLoop D as m s)) = core s"
  by (induction D as m s rule: candidateLoop.induct) (simp_all add: core_simps)

lemma core_leaderVote:
  "leaderVote D st m s = Inr (m', s') \<Longrightarrow> core s' = core s"
  by (auto simp: leaderVote_def bindE_Inr core_simps split: if_splits)

lemma core_updateComposite [core_simps]: "core (updateComposite D s) = core s"
  by (simp add: updateComposite_def Let_def core_simps)

lemma core_updateRoundLeaders: "updateRoundLeaders D s = Inr s' \<Longrightarrow> core s' = core s"
  by (auto simp: updateRoundLeaders_def bindE_Inr Let_def core_simps)

lemma core_leaderValues: "leaderValues D ls u v s = Inr (u', v', s') \<Longrightarrow> core s' = core s"
  by (induction D ls u v s rule: leaderValues.induct)
    (auto simp: bindE_Inr core_simps split: option.splits if_splits)

lemma outbox_emit: "outbox (driverCall (EmitEnvelope e) s) = insert e (outbox s)"
  by (auto simp: outbox_def driverCall_def)

lemma attests_nomination: "attests s (createNomination D s)"
  by (simp add: attests_def createNomination_def createEnvelope_def Let_def)

subsection \<open>The contract of the re-entrant call\<close>

locale slot_reentry =
  fixes D :: SCPDriver and X :: "SCPEnvelope set"
    and process :: "SCPEnvelope \<Rightarrow> Slot \<Rightarrow> scp_error + EnvelopeState \<times> Slot"
  assumes process_steps: "slot_ok s \<Longrightarrow> isNominate (pledges (statement e)) \<Longrightarrow>
    process e s = Inr (r, s') \<Longrightarrow> ballot_steps D X s s'"
begin

lemma emitNomination_steps:
  assumes "emitNomination D process s = Inr s'" "slot_ok s"
  shows "ballot_steps D X s s'"
proof -
  let ?e = "createNomination D s"
  have "isNominate (pledges (statement ?e))"
    by (simp add: createNomination_def createEnvelope_def Let_def)
  moreover from assms(1) obtain s1 where p: "process ?e s = Inr (VALID, s1)"
    and c: "core s' = core s1 \<or> (sameVars s1 s' \<and> outbox s' \<subseteq> insert ?e (outbox s1))"
    by (auto simp: emitNomination_def Let_def bindE_Inr core_simps sameVars_def outbox_emit
        split: if_splits option.splits)
  ultimately have st: "ballot_steps D X s s1" using process_steps [OF assms(2)] by blast
  have "attests s1 ?e"
    using attests_stable [OF attests_nomination] stable_steps [OF st] assms(2)
    by (simp add: slot_ok_def)
  with c have "ballot_step D X s1 s'" by (blast intro: ballot_step.frame ballot_step.announce)
  with st show ?thesis by (rule rtranclp.rtrancl_into_rtrancl)
qed

lemma nominate_steps:
  assumes "nominate D process v prev timedout s = Inr (w, s')" "slot_ok s"
  shows "ballot_steps D X s s'"
proof -
  from assms(1) have "core s' = core s \<or>
      (\<exists>t. core t = core s \<and> emitNomination D process t = Inr s')"
    by (auto simp: nominate_def Let_def bindE_Inr core_simps
        dest!: core_updateRoundLeaders core_leaderValues split: if_splits)
  then show ?thesis
  proof
    assume "core s' = core s"
    then show ?thesis by (auto intro: ballot_step.frame)
  next
    assume "\<exists>t. core t = core s \<and> emitNomination D process t = Inr s'"
    then obtain t where t: "core t = core s" "emitNomination D process t = Inr s'" by blast
    from emitNomination_steps [OF t(2) slot_ok_core [OF assms(2) t(1)]] show ?thesis
      by (rule steps_frame' [OF t(1)])
  qed
qed

lemma nomProcessEnvelope_steps:
  assumes "nomProcessEnvelope D process bump e s = Inr (r, s')" "slot_ok s"
    and bump: "\<And>v t b u. slot_ok t \<Longrightarrow> bump v False t = Inr (b, u) \<Longrightarrow> ballot_steps D X t u"
  shows "ballot_steps D X s s'"
proof -
  define s1 where "s1 = recordNomination D e s"
  have c1: "core s1 = core s" by (simp add: s1_def core_simps)
  obtain m2 s2 where s2: "acceptLoop D (nomVotes (statement e)) False s1 = (m2, s2)" by force
  obtain m3 s3 where s3: "candidateLoop D (mAccepted (np s2)) False s2 = (m3, s3)" by force
  have c3: "core s3 = core s"
    using c1 core_acceptLoop [of D "nomVotes (statement e)" False s1]
      core_candidateLoop [of D "mAccepted (np s2)" False s2] by (simp add: s2 s3)
  note run = assms(1) [unfolded nomProcessEnvelope_def Let_def, folded s1_def, unfolded s2,
      unfolded prod.case, unfolded s3, unfolded prod.case]
  show ?thesis
  proof (cases "isNewerNominationFrom s (nodeID (statement e)) (statement e) \<and>
      isSane (statement e) \<and> mNominationStarted (np s1)")
    case False
    with run have "s' = s \<or> s' = s1" by (simp split: if_split_asm)
    with c1 have "core s' = core s" by (elim disjE) simp_all
    then show ?thesis by (auto intro: ballot_step.frame)
  next
    case True
    with run obtain m4 s4 s5 where r: "leaderVote D (statement e) m2 s3 = Inr (m4, s4)"
      "(if m4 then emitNomination D process s4 else Inr s4) = Inr s5"
      "(if m3 then bindE (bump (mLatestCompositeCandidate (np (updateComposite D s5))) False
           (updateComposite D s5)) (\<lambda>(b, s7). Inr (VALID, s7))
        else Inr (VALID, s5)) = Inr (r, s')"
      by (simp only: simp_thms if_True bindE_Inr split_paired_Ex prod.case) blast
    have c4: "core s4 = core s" using core_leaderVote [OF r(1)] c3 by simp
    have ok4: "slot_ok s4" using assms(2) c4 by (rule slot_ok_core)
    have st5: "ballot_steps D X s4 s5"
      using r(2) emitNomination_steps [OF _ ok4] by (cases m4) simp_all
    have "slot_ok s5" using st5 ok4 by (rule slot_ok_steps)
    then have ok6: "slot_ok (updateComposite D s5)" by (rule slot_ok_core) (simp add: core_simps)
    have "ballot_steps D X s5 s'"
    proof (cases m3)
      case True
      with r(3) obtain b where "bump (mLatestCompositeCandidate (np (updateComposite D s5))) False
           (updateComposite D s5) = Inr (b, s')"
        by (auto simp: bindE_Inr)
      from bump [OF ok6 this] show ?thesis by (rule steps_frame' [rotated]) (simp add: core_simps)
    qed (use r(3) in simp)
    with st5 have "ballot_steps D X s4 s'" by (rule rtranclp_trans)
    with c4 show ?thesis by (rule steps_frame')
  qed
qed

end

subsection \<open>The code of a slot\<close>

lemma slotProcessEnvelope_steps_aux:
  assumes "slotProcessEnvelope k D e self s = Inr (r, s')" "slot_ok s"
    and "isNominate (pledges (statement e)) \<or> e \<in> X"
  shows "ballot_steps D X s s'"
  using assms
proof (induction k arbitrary: e self s r s')
  case (Suc k)
  have re: "slot_reentry D X (\<lambda>e. slotProcessEnvelope k D e True)"
    using Suc.IH by unfold_locales blast
  show ?case
  proof (cases "isNominate (pledges (statement e))")
    case True
    then have "nomProcessEnvelope D (\<lambda>e. slotProcessEnvelope k D e True)
        (bumpState D (emitStatement k D)) e s = Inr (r, s')"
      using Suc.prems(1) by (simp add: bindE_Inr)
    from re this Suc.prems(2) show ?thesis
      by (rule slot_reentry.nomProcessEnvelope_steps) (rule code_emission.bumpState_steps)
  next
    case False
    then show ?thesis
      using Suc.prems processEnvelope_steps [of k D e self s r s' X] by (simp add: bindE_Inr)
  qed
qed simp

interpretation code_reentry: slot_reentry D X "\<lambda>e. slotProcessEnvelope k D e True" for k D X
  by unfold_locales (blast intro: slotProcessEnvelope_steps_aux)

lemma slotProcessEnvelope_steps:
  "slotProcessEnvelope k D e self s = Inr (r, s') \<Longrightarrow> slot_ok s \<Longrightarrow> e \<in> X \<Longrightarrow>
   ballot_steps D X s s'"
  by (rule slotProcessEnvelope_steps_aux) auto

lemma slotNominate_steps:
  "slotNominate k D v prev timedout s = Inr (w, s') \<Longrightarrow> slot_ok s \<Longrightarrow> ballot_steps D X s s'"
  unfolding slotNominate_def by (rule code_reentry.nominate_steps)

lemma slotAbandonBallot_steps:
  "slotAbandonBallot k D s = Inr (w, s') \<Longrightarrow> slot_ok s \<Longrightarrow> ballot_steps D X s s'"
  unfolding slotAbandonBallot_def by (rule code_emission.abandonBallot_steps)

lemma slotBumpState_steps:
  "slotBumpState k D v force s = Inr (w, s') \<Longrightarrow> slot_ok s \<Longrightarrow> ballot_steps D X s s'"
  unfolding slotBumpState_def by (rule code_emission.bumpState_steps)

lemma runTimer_steps:
  "runTimer k D cb s = Inr s' \<Longrightarrow> slot_ok s \<Longrightarrow> ballot_steps D X s s'"
  by (cases cb)
    (auto simp: bindE_Inr ballotProtocolTimerExpired_def intro: slotNominate_steps
      code_emission.abandonBallot_steps)

subsection \<open>Histories of a slot\<close>

text \<open>One call of the slot from outside: by the network, the application or a timer.\<close>

inductive slot_op :: "SCPDriver \<Rightarrow> Slot \<Rightarrow> Slot \<Rightarrow> bool" where
  receive: "slotProcessEnvelope k D e self s = Inr (r, s') \<Longrightarrow> slot_op D s s'"
| nominates: "slotNominate k D v prev timedout s = Inr (w, s') \<Longrightarrow> slot_op D s s'"
| abandons: "slotAbandonBallot k D s = Inr (w, s') \<Longrightarrow> slot_op D s s'"
| bumps: "slotBumpState k D v force s = Inr (w, s') \<Longrightarrow> slot_op D s s'"
| timeout: "runTimer k D cb s = Inr s' \<Longrightarrow> slot_op D s s'"

definition slot_run :: "Slot \<Rightarrow> Slot \<Rightarrow> bool" where
  "slot_run = (\<lambda>s t. \<exists>D. slot_op D s t)\<^sup>*\<^sup>*"

lemma slot_op_steps:
  assumes "slot_op D s t" "slot_ok s"
  shows "ballot_steps D UNIV s t"
  using assms
  by cases (blast intro: slotProcessEnvelope_steps slotNominate_steps slotAbandonBallot_steps
      slotBumpState_steps runTimer_steps)+

lemma slot_op_ok: "slot_op D s t \<Longrightarrow> slot_ok s \<Longrightarrow> slot_ok t"
  using slot_op_steps slot_ok_steps by blast

lemma slot_op_stable: "slot_op D s t \<Longrightarrow> slot_ok s \<Longrightarrow> stable s t"
  using slot_op_steps stable_steps by (metis slot_ok_def)

lemma slot_run_ok: "slot_run s t \<Longrightarrow> slot_ok s \<Longrightarrow> slot_ok t \<and> stable s t"
  unfolding slot_run_def
proof (induction rule: rtranclp_induct)
  case (step t u)
  then obtain D where "slot_op D t u" by blast
  with step show ?case using slot_op_ok slot_op_stable stable_trans by blast
qed simp

lemma slot_run_refl [simp]: "slot_run s s"
  by (simp add: slot_run_def)

lemma slot_run_op: "slot_op D s t \<Longrightarrow> slot_run s t"
  by (auto simp: slot_run_def)

end
