(* ===== verification/Agreement.thy ===== *)
theory Agreement
  imports Slot_Refinement
begin

text \<open>
  Safety of the consensus protocol: nodes that run the code never externalize different
  values. The network is a set \<open>H\<close> of nodes that run the code of one slot; all other nodes are
  arbitrary. A step delivers an envelope to a node of \<open>H\<close>, makes it nominate a value, runs the
  callback of one of its timers or makes it abandon its ballot. Envelopes in the name of a node of \<open>H\<close> must have been emitted
  by it (signatures cannot be forged); in every other respect deliveries are arbitrary, so
  messages may be lost, duplicated and reordered. The drivers may give different answers at
  different steps.
\<close>

subsection \<open>Quorums of the network\<close>

definition supportedQuorum :: "NodeID set \<Rightarrow> (NodeID \<Rightarrow> SCPQuorumSet) \<Rightarrow> NodeID set \<Rightarrow> bool" where
  "supportedQuorum H q U \<longleftrightarrow> U \<inter> H \<noteq> {} \<and> (\<forall>n \<in> U \<inter> H. slice (q n) U)"

definition quorumIntersection :: "NodeID set \<Rightarrow> (NodeID \<Rightarrow> SCPQuorumSet) \<Rightarrow> bool" where
  "quorumIntersection H q \<longleftrightarrow>
     (\<forall>U V. supportedQuorum H q U \<longrightarrow> supportedQuorum H q V \<longrightarrow> U \<inter> V \<inter> H \<noteq> {})"

subsection \<open>The network\<close>

definition authentic :: "NodeID set \<Rightarrow> (NodeID \<Rightarrow> Slot) \<Rightarrow> SCPEnvelope \<Rightarrow> bool" where
  "authentic H G e \<longleftrightarrow>
     (nodeID (statement e) \<in> H \<longrightarrow> EmitEnvelope e \<in> set (driverCalls (G (nodeID (statement e)))))"

inductive network ::
  "NodeID set \<Rightarrow> (NodeID \<Rightarrow> SCPDriver set) \<Rightarrow> uint64 \<Rightarrow> (NodeID \<Rightarrow> LocalNode) \<Rightarrow>
   (NodeID \<Rightarrow> Slot) \<Rightarrow> bool" for H Ds i ln where
  start: "network H Ds i ln (\<lambda>n. Slot_new i (ln n))"
| deliver: "network H Ds i ln G \<Longrightarrow> n \<in> H \<Longrightarrow> D \<in> Ds n \<Longrightarrow> authentic H G e \<Longrightarrow>
    slotProcessEnvelope k D e False (G n) = Inr (r, s') \<Longrightarrow> network H Ds i ln (G(n := s'))"
| nominate: "network H Ds i ln G \<Longrightarrow> n \<in> H \<Longrightarrow> D \<in> Ds n \<Longrightarrow>
    slotNominate k D v prev timedout (G n) = Inr (w, s') \<Longrightarrow> network H Ds i ln (G(n := s'))"
| timer: "network H Ds i ln G \<Longrightarrow> n \<in> H \<Longrightarrow> D \<in> Ds n \<Longrightarrow>
    runTimer k D cb (G n) = Inr s' \<Longrightarrow> network H Ds i ln (G(n := s'))"
| abandon: "network H Ds i ln G \<Longrightarrow> n \<in> H \<Longrightarrow> D \<in> Ds n \<Longrightarrow>
    slotAbandonBallot k D (G n) = Inr (w, s') \<Longrightarrow> network H Ds i ln (G(n := s'))"

definition externalized :: "Slot \<Rightarrow> Value option" where
  "externalized s =
     (if mPhase (bp s) = SCP_PHASE_EXTERNALIZE then map_option bvalue (mCommit (bp s)) else None)"

subsection \<open>The invariant of the network\<close>

definition committedTo :: "Slot \<Rightarrow> Value \<Rightarrow> bool" where
  "committedTo s v \<longleftrightarrow> mPhase (bp s) \<noteq> SCP_PHASE_PREPARE \<and> map_option bvalue (mCommit (bp s)) = Some v"

definition backed :: "NodeID set \<Rightarrow> (NodeID \<Rightarrow> LocalNode) \<Rightarrow> (NodeID \<Rightarrow> Slot) \<Rightarrow> Value \<Rightarrow> NodeID set \<Rightarrow> bool"
  where
  "backed H ln G v U \<longleftrightarrow> (\<forall>m \<in> U \<inter> H. slice (mQSet (ln m)) U \<and> committedTo (G m) v)"

definition node_ok :: "NodeID set \<Rightarrow> (NodeID \<Rightarrow> LocalNode) \<Rightarrow> (NodeID \<Rightarrow> Slot) \<Rightarrow> NodeID \<Rightarrow> bool" where
  "node_ok H ln G n \<longleftrightarrow>
     slot_ok (G n) \<and> localNode (G n) = ln n \<and>
     (\<forall>e \<in> outbox (G n). attests (G n) e) \<and>
     (\<forall>m \<in> H. \<forall>e. map_of (mLatestEnvelopes (bp (G n))) m = Some e \<longrightarrow> attests (G m) e) \<and>
     (\<forall>v. externalized (G n) = Some v \<longrightarrow> (\<exists>U. n \<in> U \<and> backed H ln G v U))"

lemma committedTo_stable: "stable s t \<Longrightarrow> committedTo s v \<Longrightarrow> committedTo t v"
  using notBefore_phase [of s t] by (auto simp: stable_def committedTo_def commitKept_def)

lemma backed_stable:
  "stable (G n) s' \<Longrightarrow> backed H ln G v U \<Longrightarrow> backed H ln (G(n := s')) v U"
  by (auto simp: backed_def intro: committedTo_stable)

lemma attests_upd:
  "stable (G n) s' \<Longrightarrow> attests (G m) e \<Longrightarrow> attests ((G(n := s')) m) e"
  by (auto intro: attests_stable)

text \<open>A step of one node keeps the invariant of every other node.\<close>

lemma node_ok_other:
  assumes "node_ok H ln G m" "stable (G n) s'" "m \<noteq> n"
  shows "node_ok H ln (G(n := s')) m"
proof -
  have "\<exists>U. m \<in> U \<and> backed H ln (G(n := s')) v U" if "externalized (G m) = Some v" for v
    using assms(1) that backed_stable [where G = G and n = n and s' = s' and H = H, OF assms(2)]
    unfolding node_ok_def by blast
  moreover have "attests ((G(n := s')) k) e" if "attests (G k) e" for k e
    using attests_upd [where G = G and n = n and s' = s', OF assms(2)] that by blast
  ultimately show ?thesis
    using assms(1,3) unfolding node_ok_def by (simp only: fun_upd_other [OF assms(3)]) blast
qed

text \<open>
  The quorum that lets a node externalize, completed by the quorums of its members that have
  already externalized: they vouch for the value with an EXTERNALIZE statement, which the code
  takes as a quorum slice of its own.
\<close>

lemma confirm_backed:
  assumes ok: "\<forall>m \<in> H. node_ok H ln G m" and "n \<in> H"
    and g: "confirmCommitGuard D (G n) c h"
    and qs: "\<forall>m \<in> H. getQSet D (mQSetHash (ln m)) = Some (mQSet (ln m))"
  shows "\<exists>U. slice (mQSet (ln n)) U \<and> backed H ln G (bvalue c) U"
proof -
  let ?m = "mLatestEnvelopes (bp (G n))"
  have n: "slot_ok (G n)" "localNode (G n) = ln n"
    "\<And>m e. m \<in> H \<Longrightarrow> map_of ?m m = Some e \<Longrightarrow> attests (G m) e"
    using ok \<open>n \<in> H\<close> unfolding node_ok_def by blast+
  have vh: "bvalue h = bvalue c" using g by (simp add: confirmCommitGuard_def lac_iff)
  have "map_sorted ?m" using n(1) by (simp add: slot_ok_def recordedSane_def)
  with g n(2) obtain U where U: "slice (mQSet (ln n)) U"
    "\<And>m. m \<in> U \<Longrightarrow> \<exists>e q. map_of ?m m = Some e \<and>
       commitPredicate h (counter c, counter h) (statement e) \<and>
       getQuorumSetFromStatement D (statement e) = Some q \<and> slice q U"
    by (fastforce simp: confirmCommitGuard_def federatedRatify_def isQuorum_iff)
  define W where "W m = (if externalized (G m) = Some (bvalue c)
      then (SOME V. m \<in> V \<and> backed H ln G (bvalue c) V) else {})" for m
  have W: "m \<in> W m \<and> backed H ln G (bvalue c) (W m)"
    if "m \<in> H" "externalized (G m) = Some (bvalue c)" for m
    using that ok someI_ex [of "\<lambda>V. m \<in> V \<and> backed H ln G (bvalue c) V"]
    unfolding W_def node_ok_def by auto
  define V where "V = U \<union> (\<Union>m \<in> H. W m)"
  have member: "slice (mQSet (ln m)) V \<and> committedTo (G m) (bvalue c)" if "m \<in> U" "m \<in> H" for m
  proof -
    from U(2) [OF \<open>m \<in> U\<close>] obtain e q where e: "map_of ?m m = Some e"
      "commitPredicate h (counter c, counter h) (statement e)"
      "getQuorumSetFromStatement D (statement e) = Some q" "slice q U" by blast
    note at = n(3) [OF \<open>m \<in> H\<close> e(1)]
    have lm: "localNode (G m) = ln m" using ok \<open>m \<in> H\<close> by (simp add: node_ok_def)
    show ?thesis
    proof (cases "pledges (statement e)")
      case (Confirm b nP nC nH hq)
      with at e(2) vh have com: "committedTo (G m) (bvalue c)"
        by (auto simp: attests_def committedTo_def commitPredicate.simps areBallotsCompatible_def)
      from Confirm at lm have "hq = mQSetHash (ln m)" by (simp add: attests_def)
      with Confirm e(3) qs \<open>m \<in> H\<close> have "q = mQSet (ln m)" by (simp add: getQuorumSetFromStatement_def)
      with e(4) com show ?thesis by (auto simp: V_def intro: slice_mono)
    next
      case (Externalize c' nH hq)
      with at e(2) vh have x: "externalized (G m) = Some (bvalue c)"
        by (auto simp: attests_def externalized_def commitPredicate.simps areBallotsCompatible_def)
      note Wm = W [OF \<open>m \<in> H\<close> x]
      with \<open>m \<in> H\<close> have "slice (mQSet (ln m)) (W m)" "committedTo (G m) (bvalue c)"
        by (auto simp: backed_def)
      moreover have "W m \<subseteq> V" using \<open>m \<in> H\<close> by (auto simp: V_def)
      ultimately show ?thesis by (auto intro: slice_mono)
    qed (use e(2) in \<open>simp_all add: commitPredicate.simps\<close>)
  qed
  have "backed H ln G (bvalue c) V"
    unfolding backed_def
  proof
    fix m assume m: "m \<in> V \<inter> H"
    show "slice (mQSet (ln m)) V \<and> committedTo (G m) (bvalue c)"
    proof (cases "m \<in> U")
      case True
      with member m show ?thesis by blast
    next
      case False
      with m obtain k where k: "k \<in> H" "m \<in> W k" by (auto simp: V_def)
      then have "externalized (G k) = Some (bvalue c)" by (auto simp: W_def split: if_splits)
      from W [OF k(1) this] k(2) m have "slice (mQSet (ln m)) (W k)" "committedTo (G m) (bvalue c)"
        by (auto simp: backed_def)
      moreover have "W k \<subseteq> V" using k(1) by (auto simp: V_def)
      ultimately show ?thesis by (auto intro: slice_mono)
    qed
  qed
  moreover have "slice (mQSet (ln n)) V" using U(1) by (auto simp: V_def intro: slice_mono)
  ultimately show ?thesis by blast
qed

subsection \<open>Steps keep the invariant\<close>

definition attested :: "NodeID set \<Rightarrow> (NodeID \<Rightarrow> Slot) \<Rightarrow> SCPEnvelope \<Rightarrow> bool" where
  "attested H G e \<longleftrightarrow> (nodeID (statement e) \<in> H \<longrightarrow> attests (G (nodeID (statement e))) e)"

lemma step_recorded:
  assumes "ballot_step D X s t" "map_of (mLatestEnvelopes (bp t)) m = Some e"
  shows "map_of (mLatestEnvelopes (bp s)) m = Some e \<or>
    nodeID (statement e) = m \<and> (e \<in> X \<or> ownEnvelope D s e)"
  using assms(1)
proof (cases rule: ballot_step.cases)
  case frame
  from coreD [OF this] assms(2) show ?thesis by simp
next
  case (announce e)
  from this(1) assms(2) show ?thesis by (simp add: sameVars_def)
next
  case (record_env e')
  from coreD [OF this(3)] record_env(2) assms(2) show ?thesis
    by (auto simp: omap_simps split: if_splits)
next
  case (accept_prepared ballot)
  from setPreparedAccept_effect [OF this(2)] assms(2) show ?thesis by simp
next
  case (confirm_prepared newC newH)
  from setPreparedConfirmed_effect [OF this(2)] assms(2) show ?thesis by simp
next
  case (accept_commit c h)
  from setAcceptCommit_effect [OF this(2)] assms(2) show ?thesis by simp
next
  case (confirm_commit c h)
  from setConfirmCommit_effect [OF this(2)] assms(2) show ?thesis by simp
next
  case (bump ballot)
  from updateCurrentValue_effect [OF this(1)] assms(2) show ?thesis by (simp add: core_def)
qed

lemma step_outbox:
  assumes "ballot_step D X s t" "e \<in> outbox t"
  shows "e \<in> outbox s \<or> attests s e"
  using assms(1)
proof (cases rule: ballot_step.cases)
  case frame
  from coreD [OF this] assms(2) show ?thesis by simp
next
  case (announce e')
  with assms(2) show ?thesis by blast
next
  case (record_env e')
  from coreD [OF this(3)] assms(2) show ?thesis by simp
next
  case (accept_prepared ballot)
  from setPreparedAccept_effect [OF this(2)] assms(2) show ?thesis by simp
next
  case (confirm_prepared newC newH)
  from setPreparedConfirmed_effect [OF this(2)] assms(2) show ?thesis by simp
next
  case (accept_commit c h)
  from setAcceptCommit_effect [OF this(2)] assms(2) show ?thesis by simp
next
  case (confirm_commit c h)
  from setConfirmCommit_effect [OF this(2)] assms(2) show ?thesis by simp
next
  case (bump ballot)
  from updateCurrentValue_effect [OF this(1)] assms(2) show ?thesis by (simp add: core_def)
qed

lemma step_externalizes:
  assumes "ballot_step D X s t" "externalized t = Some v"
  shows "externalized s = Some v \<or> (\<exists>c h. confirmCommitGuard D s c h \<and> bvalue c = v)"
  using assms(1)
proof (cases rule: ballot_step.cases)
  case frame
  from coreD [OF this] assms(2) show ?thesis by (auto simp: externalized_def split: if_splits)
next
  case (announce e)
  from this(1) assms(2) show ?thesis by (auto simp: externalized_def sameVars_def split: if_splits)
next
  case (record_env e')
  from coreD [OF this(3)] assms(2) show ?thesis by (auto simp: externalized_def split: if_splits)
next
  case (accept_prepared ballot)
  from setPreparedAccept_effect [OF this(2)] this(1) assms(2) show ?thesis
    by (auto simp: externalized_def acceptPreparedGuard_def split: if_splits)
next
  case (confirm_prepared newC newH)
  from setPreparedConfirmed_effect [OF this(2)] this(1) assms(2) show ?thesis
    by (auto simp: externalized_def confirmPreparedGuard_def split: if_splits)
next
  case (accept_commit c h)
  from setAcceptCommit_effect [OF this(2)] this(1) assms(2) show ?thesis
    by (auto simp: externalized_def acceptCommitGuard_def split: if_splits)
next
  case (confirm_commit c h)
  from setConfirmCommit_effect [OF this(2)] this(1) assms(2) show ?thesis
    by (auto simp: externalized_def)
next
  case (bump ballot)
  from updateCurrentValue_effect [OF this(1)] assms(2) show ?thesis
    by (auto simp: externalized_def core_def split: if_splits)
qed

lemma node_ok_self:
  assumes ok: "\<forall>m \<in> H. node_ok H ln G m" and n: "n \<in> H" and ids: "\<forall>m \<in> H. mNodeID (ln m) = m"
    and qs: "\<forall>m \<in> H. getQSet D (mQSetHash (ln m)) = Some (mQSet (ln m))"
    and st: "ballot_step D X (G n) s'" and X: "\<forall>e \<in> X. attested H G e"
  shows "node_ok H ln (G(n := s')) n"
proof -
  have okn: "node_ok H ln G n" using ok n by blast
  then have inv: "ballot_inv (G n)" "slot_ok (G n)" "localNode (G n) = ln n"
    by (auto simp: node_ok_def slot_ok_def)
  note stb = stable_step [OF st inv(1)]
  have own: "attests (G n) e" if "ownEnvelope D (G n) e" for e
    using attests_own [OF that inv(1)] .
  have id: "mNodeID (localNode (G n)) = n" using ids n inv(3) by simp
  have "attests (G m) e" if "m \<in> H" "map_of (mLatestEnvelopes (bp s')) m = Some e" for m e
  proof -
    from step_recorded [OF st that(2)] show ?thesis
    proof
      assume "map_of (mLatestEnvelopes (bp (G n))) m = Some e"
      then show ?thesis using okn that(1) unfolding node_ok_def by blast
    next
      assume a: "nodeID (statement e) = m \<and> (e \<in> X \<or> ownEnvelope D (G n) e)"
      have "attests (G m) e" if "ownEnvelope D (G n) e"
        using own [OF that] a id by (auto simp: attests_def)
      with a X that(1) show ?thesis by (auto simp: attested_def)
    qed
  qed
  then have rec: "\<forall>m \<in> H. \<forall>e. map_of (mLatestEnvelopes (bp s')) m = Some e \<longrightarrow>
      attests ((G(n := s')) m) e"
    using attests_upd [where G = G and n = n and s' = s', OF stb] by blast
  have out: "\<forall>e \<in> outbox s'. attests s' e"
    using step_outbox [OF st] okn attests_stable [OF _ stb] unfolding node_ok_def by blast
  have "\<exists>U. n \<in> U \<and> backed H ln (G(n := s')) v U" if v: "externalized s' = Some v" for v
  proof -
    from step_externalizes [OF st v] show ?thesis
    proof
      assume "externalized (G n) = Some v"
      with okn obtain U where "n \<in> U" "backed H ln G v U" unfolding node_ok_def by blast
      then show ?thesis using backed_stable [where G = G and n = n, OF stb] by blast
    next
      assume "\<exists>c h. confirmCommitGuard D (G n) c h \<and> bvalue c = v"
      with confirm_backed [OF ok n _ qs] obtain U where U: "slice (mQSet (ln n)) U"
        "backed H ln G v U" by blast
      from backed_stable [where G = G and n = n, OF stb U(2)]
      have "backed H ln (G(n := s')) v U" .
      moreover have "committedTo s' v" using v by (auto simp: externalized_def committedTo_def split: if_splits)
      ultimately have "backed H ln (G(n := s')) v (insert n U)"
        using U(1) slice_mono [OF subset_insertI [of U n]]
        unfolding backed_def by (metis Int_iff fun_upd_same insert_iff)
      then show ?thesis by blast
    qed
  qed
  moreover have "slot_ok s'" using st inv(2) by (rule slot_ok_step)
  moreover have "localNode s' = ln n" using stb inv(3) by (simp add: stable_def)
  ultimately show ?thesis using rec out by (simp add: node_ok_def)
qed

lemma network_steps:
  assumes "ballot_steps D X (G n) s'" "\<forall>m \<in> H. node_ok H ln G m" "\<forall>e \<in> X. attested H G e"
    and n: "n \<in> H" and ids: "\<forall>m \<in> H. mNodeID (ln m) = m"
    and qs: "\<forall>m \<in> H. getQSet D (mQSetHash (ln m)) = Some (mQSet (ln m))"
  shows "(\<forall>m \<in> H. node_ok H ln (G(n := s')) m) \<and> (\<forall>e \<in> X. attested H (G(n := s')) e)"
  using assms(1)
proof (induction rule: rtranclp_induct)
  case base
  then show ?case using assms(2,3) by simp
next
  case (step t u)
  let ?G = "G(n := t)"
  have st: "ballot_step D X (?G n) u" using step.hyps by simp
  have ok: "\<forall>m \<in> H. node_ok H ln ?G m" and X: "\<forall>e \<in> X. attested H ?G e" using step.IH by blast+
  have "ballot_inv (?G n)" using ok n unfolding node_ok_def slot_ok_def by blast
  note stb = stable_step [OF st this]
  have eq: "?G(n := u) = G(n := u)" by simp
  have "node_ok H ln (?G(n := u)) m" if "m \<in> H" for m
    using node_ok_self [OF ok n ids qs st X] node_ok_other [where G = ?G, OF _ stb] ok that
    by (cases "m = n") blast+
  moreover have "attested H (?G(n := u)) e" if "e \<in> X" for e
    using X that attests_upd [where G = ?G, OF stb] unfolding attested_def by blast
  ultimately show ?case unfolding eq by blast
qed

lemma network_ok:
  assumes "network H Ds i ln G" and ids: "\<forall>m \<in> H. mNodeID (ln m) = m"
    and qs: "\<forall>n \<in> H. \<forall>D \<in> Ds n. \<forall>m \<in> H. getQSet D (mQSetHash (ln m)) = Some (mQSet (ln m))"
  shows "\<forall>m \<in> H. node_ok H ln G m"
  using assms(1)
proof induction
  case start
  have "outbox (Slot_new i l) = {}" "externalized (Slot_new i l) = None"
    "mLatestEnvelopes (bp (Slot_new i l)) = []" "localNode (Slot_new i l) = l" for l
    by (simp_all add: outbox_def externalized_def Slot_new_def BallotProtocol_new_def)
  then show ?case by (simp add: node_ok_def slot_ok_new)
next
  case (deliver G n D e k r s')
  have at: "attested H G e"
    using deliver(4,6) unfolding attested_def authentic_def node_ok_def outbox_def by blast
  have "slot_ok (G n)" using deliver unfolding node_ok_def by blast
  from slotProcessEnvelope_steps [OF deliver(5) this, of "{e}"]
  show ?case using network_steps [OF _ deliver(6) _ deliver(2) ids] at qs deliver(2,3) by blast
next
  case (nominate G n D k v prev timedout w s')
  have "slot_ok (G n)" using nominate unfolding node_ok_def by blast
  from slotNominate_steps [OF nominate(4) this, of "{}"]
  show ?case using network_steps [OF _ nominate(5) _ nominate(2) ids] qs nominate(2,3) by blast
next
  case (timer G n D k cb s')
  have "slot_ok (G n)" using timer unfolding node_ok_def by blast
  from runTimer_steps [OF timer(4) this, of "{}"]
  show ?case using network_steps [OF _ timer(5) _ timer(2) ids] qs timer(2,3) by blast
next
  case (abandon G n D k w s')
  have "slot_ok (G n)" using abandon unfolding node_ok_def by blast
  from slotAbandonBallot_steps [OF abandon(4) this, of "{}"]
  show ?case using network_steps [OF _ abandon(5) _ abandon(2) ids] qs abandon(2,3) by blast
qed

subsection \<open>Agreement\<close>

lemma backed_agree:
  assumes "quorumIntersection H (\<lambda>m. mQSet (ln m))" "backed H ln G v U" "backed H ln G w V"
    "n \<in> U \<inter> H" "m \<in> V \<inter> H"
  shows "v = w"
proof -
  have "supportedQuorum H (\<lambda>m. mQSet (ln m)) U" "supportedQuorum H (\<lambda>m. mQSet (ln m)) V"
    using assms(2-5) by (auto simp: supportedQuorum_def backed_def)
  with assms(1) obtain k where "k \<in> U \<inter> V \<inter> H" unfolding quorumIntersection_def by blast
  with assms(2,3) have "committedTo (G k) v" "committedTo (G k) w" by (auto simp: backed_def)
  then show ?thesis by (auto simp: committedTo_def)
qed

end
