(* ===== verification/Example_Slot.thy ===== *)
theory Example_Slot
  imports Slot_Refinement
begin

text \<open>
  Concrete nodes, driver and envelopes on which the general theorems are evaluated: three nodes
  that require all three, of which node 3 claims to have externalized the value \<open>[65]\<close>.
\<close>

definition exampleQSet :: SCPQuorumSet where
  "exampleQSet = SCPQuorumSet 3 [1, 2, 3] []"

definition exampleNode :: "NodeID \<Rightarrow> LocalNode" where
  "exampleNode n = \<lparr>mNodeID = n, mIsValidator = True, mQSet = exampleQSet, mQSetHash = 7,
     gSingleQSetHash = 0, mSingleQSet = buildSingletonQSet n\<rparr>"

definition exampleDriver :: SCPDriver where
  "exampleDriver = \<lparr>signEnvelope = (\<lambda>st. []), getQSet = (\<lambda>h. if h = 7 then Some exampleQSet else None),
     validateValue = (\<lambda>i v nom. kFullyValidatedValue), extractValidValue = (\<lambda>i v. v),
     computeHashNode = (\<lambda>i p prio r n. if prio then 1 else 0), computeValueHash = (\<lambda>i p r v. 1),
     combineCandidates = (\<lambda>i vs. last vs), currentTime = 0, NDEBUG = False\<rparr>"

definition exampleEnvelope :: "NodeID \<Rightarrow> SCPPledges \<Rightarrow> SCPEnvelope" where
  "exampleEnvelope n pl = \<lparr>statement = \<lparr>nodeID = n, slotIndex = 1, pledges = pl\<rparr>, signature = []\<rparr>"

definition exampleExternalize :: SCPEnvelope where
  "exampleExternalize = exampleEnvelope 3 (Externalize (SCPBallot 1 [65]) 1 7)"

lemma exampleExternalize_processed:
  "\<exists>r s. slotProcessEnvelope 60 exampleDriver exampleExternalize False (Slot_new 1 (exampleNode 1)) =
     Inr (r, s)"
proof -
  have "\<not> isl (slotProcessEnvelope 60 exampleDriver exampleExternalize False
      (Slot_new 1 (exampleNode 1)))"
    by code_simp
  then show ?thesis by (metis isl_def sum.exhaust surj_pair)
qed

text \<open>The state of node 1 after the envelope of node 3.\<close>

lemma exampleExternalize_state:
  "\<exists>s. slot_run (Slot_new 1 (exampleNode 1)) s \<and>
     map_of (mLatestEnvelopes (bp s)) 3 = Some exampleExternalize \<and>
     mPhase (bp s) = SCP_PHASE_CONFIRM \<and> mCurrentBallot (bp s) \<noteq> None \<and>
     \<not> isl (createStatement exampleDriver (mPhase (bp s)) s)"
proof -
  have "case slotProcessEnvelope 60 exampleDriver exampleExternalize False (Slot_new 1 (exampleNode 1)) of
      Inl x \<Rightarrow> False
    | Inr (r, s) \<Rightarrow> map_of (mLatestEnvelopes (bp s)) 3 = Some exampleExternalize \<and>
        mPhase (bp s) = SCP_PHASE_CONFIRM \<and> mCurrentBallot (bp s) \<noteq> None \<and>
        \<not> isl (createStatement exampleDriver (mPhase (bp s)) s)"
    by code_simp
  moreover obtain r s where "slotProcessEnvelope 60 exampleDriver exampleExternalize False
      (Slot_new 1 (exampleNode 1)) = Inr (r, s)"
    using exampleExternalize_processed by blast
  ultimately show ?thesis using slot_run_op [OF slot_op.receive] by fastforce
qed

lemma exampleExternalize_recorded:
  "\<exists>s e. slot_run (Slot_new 1 (exampleNode 1)) s \<and> map_of (mLatestEnvelopes (bp s)) 3 = Some e"
  using exampleExternalize_state by blast

lemma exampleExternalize_confirms:
  "\<exists>s st. slot_run (Slot_new 1 (exampleNode 1)) s \<and> mPhase (bp s) = SCP_PHASE_CONFIRM \<and>
     mCurrentBallot (bp s) \<noteq> None \<and> createStatement exampleDriver (mPhase (bp s)) s = Inr st"
  using exampleExternalize_state by (metis isl_def sum.exhaust)

end
