(* ===== verification/Network_Run.thy ===== *)
theory Network_Run
  imports Agreement Example_Slot
begin

text \<open>
  An executable scheduler for the network of \<open>Agreement\<close>: a list of deliveries is run on the
  code of the nodes, and every run is a run of the network. It is used to evaluate a concrete
  execution of the protocol in which two nodes externalize.
\<close>

type_synonym nodes = "(NodeID \<times> Slot) list"

definition slotOf :: "uint64 \<Rightarrow> (NodeID \<Rightarrow> LocalNode) \<Rightarrow> nodes \<Rightarrow> NodeID \<Rightarrow> Slot" where
  "slotOf i ln l n = (case map_of l n of Some s \<Rightarrow> s | None \<Rightarrow> Slot_new i (ln n))"

text \<open>A delivery to a node outside \<open>hs\<close>, or of a forged envelope, does nothing.\<close>

fun runDeliveries ::
  "NodeID list \<Rightarrow> SCPDriver \<Rightarrow> uint64 \<Rightarrow> (NodeID \<Rightarrow> LocalNode) \<Rightarrow> (NodeID \<times> SCPEnvelope) list \<Rightarrow>
   nodes \<Rightarrow> scp_error + nodes" where
  "runDeliveries hs D i ln [] l = Inr l"
| "runDeliveries hs D i ln ((m, e) # ds) l =
     (if m \<in> set hs \<and> (nodeID (statement e) \<in> set hs \<longrightarrow>
           EmitEnvelope e \<in> set (driverCalls (slotOf i ln l (nodeID (statement e)))))
      then bindE (slotProcessEnvelope 60 D e False (slotOf i ln l m)) (\<lambda>(r, s).
           runDeliveries hs D i ln ds ((m, s) # l))
      else runDeliveries hs D i ln ds l)"

lemma slotOf_simps [simp]:
  "slotOf i ln [] = (\<lambda>n. Slot_new i (ln n))"
  "slotOf i ln ((m, s) # l) = (slotOf i ln l)(m := s)"
  by (auto simp: slotOf_def fun_eq_iff)

lemma runDeliveries_network:
  assumes "runDeliveries hs D i ln ds l = Inr l'" "network (set hs) (\<lambda>_. {D}) i ln (slotOf i ln l)"
  shows "network (set hs) (\<lambda>_. {D}) i ln (slotOf i ln l')"
  using assms
proof (induction hs D i ln ds l rule: runDeliveries.induct)
  case (2 hs D i ln m e ds l)
  let ?ok = "m \<in> set hs \<and> (nodeID (statement e) \<in> set hs \<longrightarrow>
    EmitEnvelope e \<in> set (driverCalls (slotOf i ln l (nodeID (statement e)))))"
  show ?case
  proof (cases ?ok)
    case True
    with "2.prems"(1) obtain r s where rs: "slotProcessEnvelope 60 D e False (slotOf i ln l m) = Inr (r, s)"
      and rest: "runDeliveries hs D i ln ds ((m, s) # l) = Inr l'"
      by (auto simp: err_simps)
    have "authentic (set hs) (slotOf i ln l) e" using True by (simp add: authentic_def)
    with "2.prems"(2) True rs have "network (set hs) (\<lambda>_. {D}) i ln (slotOf i ln ((m, s) # l))"
      by (auto intro: network.deliver)
    with "2.IH"(1) [OF True rs refl] rest show ?thesis by blast
  next
    case False
    with "2.prems" "2.IH"(2) show ?thesis by auto
  qed
qed simp

subsection \<open>An execution\<close>

text \<open>
  Nodes 1 and 2 run the code, node 3 is arbitrary, and every node requires all three. Node 3
  claims to have externalized \<open>[65]\<close>; it is blocking for the other two, which accept the commit,
  confirm it after hearing from each other, and externalize.
\<close>

definition exampleRun :: "(NodeID \<times> SCPEnvelope) list" where
  "exampleRun =
     (let conf = Confirm (SCPBallot UINT32_MAX [65]) UINT32_MAX 1 UINT32_MAX 7
      in [(1, exampleExternalize), (2, exampleExternalize), (2, exampleEnvelope 1 conf),
          (1, exampleEnvelope 2 conf)])"

definition exampleNodes :: "NodeID \<Rightarrow> Slot" where
  "exampleNodes =
     (case runDeliveries [1, 2] exampleDriver 1 exampleNode exampleRun [] of
        Inr l \<Rightarrow> slotOf 1 exampleNode l
      | Inl e \<Rightarrow> (\<lambda>n. Slot_new 1 (exampleNode n)))"

lemma exampleNodes_network: "network {1, 2} (\<lambda>_. {exampleDriver}) 1 exampleNode exampleNodes"
proof (cases "runDeliveries [1, 2] exampleDriver 1 exampleNode exampleRun []")
  case (Inr l)
  with runDeliveries_network [OF Inr] show ?thesis
    by (simp add: exampleNodes_def network.start)
qed (simp add: exampleNodes_def network.start)

lemma exampleNodes_externalized:
  "externalized (exampleNodes 1) = Some [65] \<and> externalized (exampleNodes 2) = Some [65]"
  by code_simp

lemma exampleNodes_ids: "\<forall>m \<in> {1, 2}. mNodeID (exampleNode m) = m"
  by (simp add: exampleNode_def)

lemma exampleNodes_qsets:
  "\<forall>n \<in> {1, 2}. \<forall>D \<in> {exampleDriver}. \<forall>m \<in> {1, 2}.
     getQSet D (mQSetHash (exampleNode m)) = Some (mQSet (exampleNode m))"
  by (simp add: exampleNode_def exampleDriver_def)

lemma slice_exampleQSet: "slice exampleQSet U \<longleftrightarrow> {1, 2, 3} \<subseteq> U"
  by (auto simp: exampleQSet_def effThreshold_def)

lemma exampleNodes_intersection: "quorumIntersection {1, 2} (\<lambda>m. mQSet (exampleNode m))"
  by (auto simp: quorumIntersection_def supportedQuorum_def exampleNode_def slice_exampleQSet)

end
