(* ===== verification/Closest_Blocking.thy ===== *)
theory Closest_Blocking
  imports Quorum_Sets "HOL-Library.Multiset"
begin

text \<open>
  Correctness of \<open>LocalNode::findClosestVBlocking\<close> (the definitions are in
  \<open>Quorum_Sets\<close>): for a quorum set with thresholds in range, the returned nodes are taken
  from the given set, they are empty exactly when the nodes outside the given set already
  block the quorum set, and together with those outside nodes they do block it.
\<close>

lemma unat_minus_of_nat:
  fixes l :: uint64
  shows "c \<le> unat l \<Longrightarrow> unat (l - of_nat c) = unat l - c"
proof -
  assume c: "c \<le> unat l"
  then have "c < 2 ^ 64" using unsigned_less [of l, where 'a = nat] by simp
  then have "unat (of_nat c :: uint64) = c" by (simp add: unat_of_nat)
  with c show ?thesis by (simp add: unat_sub word_le_nat_alt)
qed

lemma closest_validators_eq:
  "l \<noteq> 0 \<Longrightarrow> closest_validators None nodes vs l res =
     (let c = length (filter (\<lambda>v. v \<notin> set nodes) vs)
      in if unat l \<le> c then None
         else Some (l - of_nat c, res @ filter (\<lambda>v. v \<in> set nodes) vs))"
proof (induction vs arbitrary: l res)
  case (Cons v vs)
  show ?case
  proof (cases "v \<in> set nodes")
    case False
    show ?thesis
    proof (cases "l = 1")
      case l: False
      with Cons.prems have "unat (l - 1) = unat l - 1" "l - 1 \<noteq> 0" "0 < unat l"
        by (auto simp: unat_minus_one unat_gt_0)
      with False Cons.IH [of "l - 1" res] l show ?thesis
        by (auto simp: Let_def algebra_simps)
    qed (use False in \<open>simp add: Let_def\<close>)
  qed (use Cons in \<open>auto simp: Let_def\<close>)
qed (simp add: unat_gt_0)

lemma mset_emplaceBySize: "mset (emplaceBySize v ws) = add_mset v (mset ws)"
  by (induction ws) auto

lemma closest_inner_eq:
  "l \<noteq> 0 \<Longrightarrow>
   (let rs = map (findClosestVBlocking None nodes) qs;
        c = length (filter (\<lambda>r. r = []) rs)
    in if unat l \<le> c then closest_inner None nodes qs l acc = None
       else \<exists>ints. closest_inner None nodes qs l acc = Some (l - of_nat c, ints) \<and>
                   mset ints = mset acc + mset (filter (\<lambda>r. r \<noteq> []) rs))"
proof (induction qs arbitrary: l acc)
  case (Cons q qs)
  let ?r = "findClosestVBlocking None nodes q"
  show ?case
  proof (cases "?r = []")
    case True
    show ?thesis
    proof (cases "l = 1")
      case l: False
      with Cons.prems have "unat (l - 1) = unat l - 1" "l - 1 \<noteq> 0" "0 < unat l"
        by (auto simp: unat_minus_one unat_gt_0)
      with True Cons.IH [of "l - 1" acc] l show ?thesis
        by (auto simp: Let_def algebra_simps split: if_splits)
    qed (use True in \<open>simp add: Let_def\<close>)
  next
    case False
    with Cons.IH [of l "emplaceBySize ?r acc"] Cons.prems show ?thesis
      by (auto simp: Let_def mset_emplaceBySize split: if_splits)
  qed
qed (simp add: unat_gt_0)

lemma take_internals_eq: "take_internals l ints res = res @ concat (take (unat l) ints)"
proof (induction ints arbitrary: l res)
  case (Cons v ints)
  show ?case
  proof (cases "l = 0")
    case False
    then obtain k where "unat l = Suc k" by (metis not0_implies_Suc unat_eq_0)
    with False Cons.IH [of "l - 1" "res @ v"] show ?thesis by (simp add: unat_minus_one)
  qed simp
qed simp

lemma closest_select_eq:
  "closest_select l res ints =
     take (unat l) res @ concat (take (unat l - length res) ints)"
proof (cases "unat l < length res")
  case True
  then show ?thesis
    by (simp add: closest_select_def Let_def take_internals_eq unat_minus_of_nat)
next
  case False
  then show ?thesis
    by (simp add: closest_select_def Let_def take_internals_eq unat_minus_of_nat)
qed

lemma length_filter_take_self: "min k (length ys) \<le> length (filter (\<lambda>y. y \<in> set (take k ys)) ys)"
proof -
  have "filter (\<lambda>y. y \<in> set (take k ys)) ys =
      take k ys @ filter (\<lambda>y. y \<in> set (take k ys)) (drop k ys)"
    by (metis (no_types, lifting) append_take_drop_id filter_True filter_append)
  then show ?thesis by (metis length_append length_take le_add1 min.commute)
qed

lemma length_filter_mset_take:
  assumes "mset ints = mset rs"
  shows "min k (length ints) \<le> length (filter (\<lambda>y. y \<in> set (take k ints)) rs)"
proof -
  have "mset (filter (\<lambda>y. y \<in> set (take k ints)) rs) = mset (filter (\<lambda>y. y \<in> set (take k ints)) ints)"
    using assms by simp
  then have "length (filter (\<lambda>y. y \<in> set (take k ints)) rs) =
      length (filter (\<lambda>y. y \<in> set (take k ints)) ints)"
    by (metis size_mset)
  with length_filter_take_self [of k ints] show ?thesis by simp
qed

lemma count_blocked_validators:
  fixes N :: "'a set"
  assumes "- N \<union> set (take k (filter (\<lambda>v. v \<in> N) vs)) \<subseteq> B"
  shows "length (filter (\<lambda>v. v \<notin> N) vs) + min k (length (filter (\<lambda>v. v \<in> N) vs))
           \<le> length (filter (\<lambda>v. v \<in> B) vs)"
proof -
  let ?T = "set (take k (filter (\<lambda>v. v \<in> N) vs))"
  have "length (filter (\<lambda>v. v \<notin> N \<or> v \<in> T) vs) =
      length (filter (\<lambda>v. v \<notin> N) vs) + length (filter (\<lambda>v. v \<in> T) (filter (\<lambda>v. v \<in> N) vs))" for T
    by (induction vs) auto
  note this [of ?T]
  moreover have "length (filter (\<lambda>v. v \<notin> N \<or> v \<in> ?T) vs) \<le> length (filter (\<lambda>v. v \<in> B) vs)"
    using assms by (intro length_filter_disj) auto
  ultimately show ?thesis
    using length_filter_take_self [of k "filter (\<lambda>v. v \<in> N) vs"] by linarith
qed

lemma count_blocked_inner:
  assumes IH: "\<And>q. q \<in> set qs \<Longrightarrow>
      (f q = [] \<longleftrightarrow> blocked q (- N)) \<and> blocked q (- N \<union> set (f q))"
    and perm: "mset ints = mset (filter (\<lambda>r. r \<noteq> []) (map f qs))"
    and B: "- N \<union> \<Union> (set ` set (take k ints)) \<subseteq> B"
  shows "length (filter (\<lambda>r. r = []) (map f qs)) + min k (length ints)
           \<le> length (filter (\<lambda>q. blocked q B) qs)"
proof -
  have split: "length (filter (\<lambda>q. f q = [] \<or> f q \<in> T) qs) =
      length (filter (\<lambda>r. r = []) (map f qs)) +
      length (filter (\<lambda>r. r \<in> T) (filter (\<lambda>r. r \<noteq> []) (map f qs)))" for T
    by (induction qs) auto
  have "length (filter (\<lambda>q. f q = [] \<or> f q \<in> set (take k ints)) qs)
      \<le> length (filter (\<lambda>q. blocked q B) qs)"
  proof (rule length_filter_disj)
    fix q assume "q \<in> set qs" and "f q = [] \<or> f q \<in> set (take k ints)"
    then show "blocked q B"
    proof (elim disjE)
      assume "f q = []"
      with IH [OF \<open>q \<in> set qs\<close>] have "blocked q (- N)" by simp
      then show ?thesis by (rule blocked_mono [rotated]) (use B in auto)
    next
      assume "f q \<in> set (take k ints)"
      with B have "- N \<union> set (f q) \<subseteq> B" by auto
      then show ?thesis using IH [OF \<open>q \<in> set qs\<close>] by (blast intro: blocked_mono)
    qed
  qed
  with split [of "set (take k ints)"] length_filter_mset_take [OF perm, of k]
  show ?thesis by linarith
qed

text \<open>
  One level of the computation in closed form: \<open>cv\<close> validators and \<open>ci\<close> inner sets
  are already lost; when that is not enough to block, the missing \<open>l\<close> entries are taken
  first from the available validators, then from the smallest inner results.
\<close>

lemma findClosestVBlocking_unfold:
  fixes nodes :: "NodeID list" and vs :: "NodeID list" and qs :: "SCPQuorumSet list"
  defines "f \<equiv> findClosestVBlocking None nodes"
    and "cv \<equiv> length (filter (\<lambda>v. v \<notin> set nodes) vs)"
    and "ci \<equiv> length (filter (\<lambda>r. r = []) (map (findClosestVBlocking None nodes) qs))"
    and "res \<equiv> filter (\<lambda>v. v \<in> set nodes) vs"
  assumes t: "1 \<le> unat t" "unat t \<le> length vs + length qs" "length vs + length qs < 2 ^ 31 - 1"
  defines "l \<equiv> length vs + length qs + 1 - unat t - cv - ci"
  shows "if l = 0 then f (SCPQuorumSet t vs qs) = []
         else \<exists>ints. mset ints = mset (filter (\<lambda>r. r \<noteq> []) (map f qs)) \<and>
                     f (SCPQuorumSet t vs qs) = take l res @ concat (take (l - length res) ints)"
proof -
  define w :: uint64 where "w = of_nat (1 + length vs + length qs) - ucast t"
  have w: "unat w = length vs + length qs + 1 - unat t"
  proof -
    define W :: uint64 where "W = of_nat (1 + (length vs + length qs))"
    have "unat W = 1 + (length vs + length qs)"
      using t unfolding W_def unat_of_nat by simp
    moreover have "w = W - of_nat (unat t)" by (simp add: w_def W_def)
    ultimately show ?thesis using unat_minus_of_nat [of "unat t" W] t by simp
  qed
  then have w0: "w \<noteq> 0" using t by auto
  have unf: "f (SCPQuorumSet t vs qs) =
     (case closest_validators None nodes vs w [] of None \<Rightarrow> []
      | Some (l1, r) \<Rightarrow> (case closest_inner None nodes qs l1 [] of None \<Rightarrow> []
          | Some (l2, ints) \<Rightarrow> closest_select l2 r ints))"
    by (simp add: f_def w_def)
  note val = closest_validators_eq [OF w0, of nodes vs "[]", folded cv_def res_def, unfolded Let_def]
  show ?thesis
  proof (cases "unat w \<le> cv")
    case True
    then show ?thesis using w unf val by (simp add: l_def)
  next
    case False
    have u1: "unat (w - of_nat cv) = unat w - cv" using False by (simp add: unat_minus_of_nat)
    with False have "w - of_nat cv \<noteq> 0" by auto
    note inn = closest_inner_eq [OF this, of nodes qs "[]", folded ci_def, unfolded Let_def, folded ci_def]
    show ?thesis
    proof (cases "unat w - cv \<le> ci")
      case True
      with inn u1 False show ?thesis using w unf val by (simp add: l_def)
    next
      case ci: False
      with inn u1 obtain ints where
        "closest_inner None nodes qs (w - of_nat cv) [] = Some (w - of_nat cv - of_nat ci, ints)"
        and perm: "mset ints = mset (filter (\<lambda>r. r \<noteq> []) (map f qs))"
        by (auto simp: f_def)
      moreover have "unat (w - of_nat cv - of_nat ci) = l"
        using ci u1 w by (simp add: unat_minus_of_nat l_def)
      ultimately show ?thesis using False ci w unf val
        by (auto simp: closest_select_eq l_def)
    qed
  qed
qed

lemma findClosestVBlocking_correct:
  fixes nodes :: "NodeID list"
  defines "N \<equiv> set nodes" and "f \<equiv> findClosestVBlocking None nodes"
  assumes "thresholds_ok q"
  shows "(f q = [] \<longleftrightarrow> blocked q (- N)) \<and> set (f q) \<subseteq> N \<and> blocked q (- N \<union> set (f q))"
  using assms(3)
proof (induction q)
  case (SCPQuorumSet t vs qs)
  let ?n = "length vs + length qs"
  define cv where "cv = length (filter (\<lambda>v. v \<notin> N) vs)"
  define ci where "ci = length (filter (\<lambda>r. r = []) (map f qs))"
  define res where "res = filter (\<lambda>v. v \<in> N) vs"
  define l where "l = ?n + 1 - unat t - cv - ci"
  from SCPQuorumSet.prems have t: "1 \<le> unat t" "unat t \<le> ?n" "?n < 2 ^ 31 - 1"
    and ok: "\<forall>q \<in> set qs. thresholds_ok q"
    by (simp_all add: list_all_iff)
  have IH: "(f q = [] \<longleftrightarrow> blocked q (- N)) \<and> set (f q) \<subseteq> N \<and> blocked q (- N \<union> set (f q))"
    if "q \<in> set qs" for q
    using SCPQuorumSet.IH [OF that] ok that by blast
  have "length (filter (\<lambda>q. blocked q (- N)) qs) = ci"
    unfolding ci_def using IH
    by (metis (mono_tags, lifting) filter_cong filter_map comp_apply length_map)
  then have blk0: "blocked (SCPQuorumSet t vs qs) (- N) \<longleftrightarrow> l = 0"
    using t by (auto simp: cv_def l_def)
  note unf = findClosestVBlocking_unfold [OF t, of nodes, folded N_def f_def,
      folded cv_def ci_def res_def, folded l_def]
  show ?case
  proof (cases "l = 0")
    case True
    with blk0 unf show ?thesis by simp
  next
    case False
    with unf obtain ints where perm: "mset ints = mset (filter (\<lambda>r. r \<noteq> []) (map f qs))"
      and R: "f (SCPQuorumSet t vs qs) = take l res @ concat (take (l - length res) ints)"
      by auto
    let ?B = "- N \<union> set (f (SCPQuorumSet t vs qs))"
    have "length ints = length (filter (\<lambda>r. r \<noteq> []) (map f qs))"
      using perm by (metis size_mset)
    then have lens: "length ints = length qs - ci" "length res = length vs - cv"
      "cv \<le> length vs" "ci \<le> length qs"
      using length_filter_compl_eq [of "\<lambda>v. v \<notin> N" vs]
      by (auto simp: ci_def cv_def res_def length_filter_compl_eq)
    have "cv + min l (length res) \<le> length (filter (\<lambda>v. v \<in> ?B) vs)"
      unfolding cv_def res_def by (rule count_blocked_validators) (auto simp: R res_def)
    moreover have "ci + min (l - length res) (length ints) \<le> length (filter (\<lambda>q. blocked q ?B) qs)"
      unfolding ci_def by (rule count_blocked_inner [OF _ perm]) (use IH in \<open>auto simp: R\<close>)
    ultimately have "?n < unat t + length (filter (\<lambda>v. v \<in> ?B) vs)
        + length (filter (\<lambda>q. blocked q ?B) qs)"
      using False lens t by (simp add: l_def)
    then have blkR: "blocked (SCPQuorumSet t vs qs) ?B" using t by auto
    have "set r \<subseteq> N" if "r \<in> set ints" for r
      using that mset_eq_setD [OF perm] IH by auto
    then have "set (f (SCPQuorumSet t vs qs)) \<subseteq> N"
      by (auto simp: R res_def dest!: in_set_takeD)
    moreover have "f (SCPQuorumSet t vs qs) \<noteq> []"
      using blkR blk0 False by force
    ultimately show ?thesis using blk0 blkR False by simp
  qed
qed

end
