(* ===== verification/Quorum_Properties.thy ===== *)
theory Quorum_Properties
  imports Closest_Blocking Quorum_Set_Utils
begin

text \<open>
  What \<open>LocalNode.cpp\<close> and \<open>QuorumSetUtils.cpp\<close> compute, stated over the code's own functions:
  blocking sets and slices are dual, the closest blocking set blocks, the quorum loop finds a
  quorum whenever there is one, the sanity check and the normalisation mean what they should.
\<close>

lemma slice_list: "slice q U \<longleftrightarrow> (\<exists>ms. set ms \<subseteq> U \<and> isQuorumSlice q ms)"
proof
  assume "slice q U"
  moreover obtain ms where "set ms = U" using finite_list [OF finite] by blast
  ultimately show "\<exists>ms. set ms \<subseteq> U \<and> isQuorumSlice q ms" by (auto simp: isQuorumSlice_eq)
qed (auto simp: isQuorumSlice_eq intro: slice_mono)

definition twoOfThree :: SCPQuorumSet where
  "twoOfThree = SCPQuorumSet 2 [1, 2, 3] []"

lemma twoOfThree_sane: "isQuorumSetSane twoOfThree False"
  by code_simp

text \<open>C29. For every quorum set that passes the sanity check, a set of nodes is v-blocking exactly
  when no quorum slice avoids it.\<close>

theorem isVBlocking_duality:
  assumes "isQuorumSetSane q extra"
  shows "isVBlocking q ns \<longleftrightarrow> \<not> (\<exists>ms. set ms \<inter> set ns = {} \<and> isQuorumSlice q ms)"
  using slice_list [of q "- set ns"] sane_thresholds_ok [OF assms]
  by (simp add: isVBlocking_eq blocked_iff_not_slice disjoint_eq_subset_Compl)

theorem isVBlocking_duality_witness:
  "isVBlocking twoOfThree [1, 2] \<and>
   \<not> (\<exists>ms. set ms \<inter> set [1, 2] = {} \<and> isQuorumSlice twoOfThree ms)"
proof -
  have "isVBlocking twoOfThree [1, 2]" by code_simp
  with isVBlocking_duality [OF twoOfThree_sane, of "[1, 2]"] show ?thesis by blast
qed

text \<open>C30. \<open>isQuorum\<close> finds the quorum whenever there is one: it answers true exactly when some set of
  nodes with statements that pass the filter contains a slice of the given quorum set and a
  slice of the quorum set each of its members announces.\<close>

theorem isQuorum_correct:
  assumes "map_sorted m"
  shows "isQuorum q m qfun flt \<longleftrightarrow>
    (\<exists>U. slice q U \<and> (\<forall>n \<in> U. \<exists>e qs. map_of m n = Some e \<and> flt (statement e) \<and>
       qfun (statement e) = Some qs \<and> slice qs U))"
  by (rule isQuorum_iff [OF assms])

theorem isQuorum_correct_witness:
  "isQuorum twoOfThree
     [(1, \<lparr>statement = \<lparr>nodeID = 1, slotIndex = 0, pledges = Externalize (SCPBallot 1 []) 1 0\<rparr>, signature = []\<rparr>),
      (2, \<lparr>statement = \<lparr>nodeID = 2, slotIndex = 0, pledges = Externalize (SCPBallot 1 []) 1 0\<rparr>, signature = []\<rparr>)]
     (\<lambda>st. Some twoOfThree) (\<lambda>st. nodeID st \<noteq> 3) \<and> (\<exists>U. slice twoOfThree U)"
  (is "isQuorum _ ?m ?f ?p \<and> _")
proof -
  have q: "isQuorum twoOfThree ?m ?f ?p" by code_simp
  have "map_sorted ?m" by (simp add: map_sorted_def)
  from isQuorum_correct [OF this, of twoOfThree ?f ?p] q show ?thesis by blast
qed



text \<open>The sanity check decides what the network requires of a quorum set: at most two levels of
  nesting, every threshold between one and the number of entries (a strict majority of them with
  extra checks), no node listed twice, and between one and a thousand nodes.\<close>

theorem isQuorumSetSane_correct:
  "isQuorumSetSane q extra \<longleftrightarrow>
     qset_depth q \<le> 2 \<and> levels_ok extra q \<and> distinct (forAllNodes q) \<and>
     1 \<le> length (forAllNodes q) \<and> length (forAllNodes q) \<le> 1000"
  by (simp add: isQuorumSetSane_eq qset_sane_def)

text \<open>C32. Normalising a quorum set (without removing a node), which is done before it is hashed
  and shared, keeps its meaning: it has exactly the same slices and the same nodes.\<close>

theorem normalizeQSet_preserves:
  "isQuorumSlice (normalizeQSet q None) ns = isQuorumSlice q ns \<and>
   set (forAllNodes (normalizeQSet q None)) = set (forAllNodes q)"
  by (simp add: normalizeQSet_def isQuorumSlice_eq slice_reorder slice_simplify nodes_reorder
      nodes_simplify)

text \<open>The comparison of quorum sets by which inner sets are sorted is a total order: zero exactly on
  equal sets, antisymmetric and transitive.\<close>

theorem qSetCompareInt_total_order:
  "(qSetCompareInt p q = 0 \<longleftrightarrow> p = q) \<and> qSetCompareInt q p = - qSetCompareInt p q \<and>
   (qSetCompareInt p q \<le> 0 \<longrightarrow> qSetCompareInt q r \<le> 0 \<longrightarrow> qSetCompareInt p r \<le> 0)"
  using qSetCompareInt_eq qSetCompareInt_anti qset_cmp.cmp_trans by blast

theorem qSetCompareInt_total_order_witness:
  "qSetCompareInt (SCPQuorumSet 1 [1] []) (SCPQuorumSet 3 [1, 2, 3] []) \<le> 0"
proof -
  have "qSetCompareInt (SCPQuorumSet 1 [1] []) twoOfThree \<le> 0"
    "qSetCompareInt twoOfThree (SCPQuorumSet 3 [1, 2, 3] []) \<le> 0" by code_simp+
  then show ?thesis
    using qSetCompareInt_total_order [of "SCPQuorumSet 1 [1] []" twoOfThree "SCPQuorumSet 3 [1, 2, 3] []"]
    by blast
qed

end
