(* ===== verification/Numeric_Properties.thy ===== *)
theory Numeric_Properties
  imports Numeric Quorum_Set_Utils
begin

text \<open>
  The arithmetic the ledger and the nomination protocol rely on, stated for the code's entry
  points: 128-bit integers compute modulo \<open>2^128\<close>, the scaled divisions return the exactly rounded
  quotient or report the overflow, and node weights are defined for every sane quorum set.
\<close>

text \<open>The 128-bit class computes sums, products and shifted values modulo \<open>2^128\<close> and compares by
  value, for all operands.\<close>

theorem u128_arithmetic:
  "val128 (u128_add a b) = (val128 a + val128 b) mod 2 ^ 128 \<and>
   val128 (u128_mul a b) = (val128 a * val128 b) mod 2 ^ 128 \<and>
   (u128_lt a b \<longleftrightarrow> val128 a < val128 b) \<and> (u128_eq a b \<longleftrightarrow> val128 a = val128 b) \<and>
   (u128_le a b \<longleftrightarrow> val128 a \<le> val128 b)"
  by (intro conjI) (rule val128_add val128_mul val128_lt val128_eq val128_le)+

text \<open>C33. The shift-and-subtract division ends for every divisor other than zero, and returns quotient and
  remainder; dividing by zero is the only failure.\<close>

theorem u128_divmod_total:
  "if val128 b = 0 then u128_divmod a b = Inl DivisionByZero
   else \<exists>q r. u128_divmod a b = Inr (q, r) \<and> val128 a = val128 q * val128 b + val128 r \<and>
     val128 r < val128 b"
  using u128_divmod_correct [of b a] u128_divmod_zero [of a b]
  by (auto simp: div_mult_mod_eq)

text \<open>C34. The signed scaled division \<open>A * B / C\<close> is exact in 128 bits: for operands in range it returns the
  quotient rounded as asked, and it throws exactly when the quotient exceeds \<open>INT64_MAX\<close>.\<close>

theorem bigDivide_exact:
  assumes "0 \<le> sint A" "0 \<le> sint B" "0 < sint C"
    and x: "x = roundedDiv rounding (unat A * unat B) (unat C)"
  shows "if x < 2 ^ 63 then \<exists>r. bigDivide A B C rounding = Inr r \<and> sint r = int x
    else bigDivide A B C rounding = Inl OverflowError"
  using bigDivide_s64_correct [OF assms(1-3), of 0 rounding] unfolding x
  by (auto simp: bigDivide_def)

theorem bigDivide_exact_witness:
  "\<exists>r. bigDivide 7 3 2 ROUND_UP = Inr r \<and> sint r = 11"
  using bigDivide_exact [of 7 3 2 11 ROUND_UP] by (simp add: roundedDiv_def)

lemma levels_ok_weights_ok:
  "levels_ok extra q \<Longrightarrow> length (forAllNodes q) \<le> 1000 \<Longrightarrow> weights_ok q"
proof (induction q)
  case (SCPQuorumSet t vs qs)
  have "length qs \<le> length (forAllNodes_inner qs)"
    using SCPQuorumSet.prems by (auto intro: levels_ok_lengths)
  moreover have "weights_ok q" if "q \<in> set qs" for q
    using SCPQuorumSet.IH [OF that] SCPQuorumSet.prems length_inner_nodes [OF that] that
    by (auto simp: list_all_iff)
  ultimately show ?case using SCPQuorumSet.prems by (auto simp: list_all_iff)
qed

text \<open>The weight of a node in a sane quorum set is always defined (no assertion fails and nothing is
  divided by zero), and it is positive exactly for the nodes that occur in the quorum set.\<close>

theorem getNodeWeight_positive:
  assumes "isQuorumSetSane q extra"
  shows "\<exists>w. getNodeWeight nid q = Inr w \<and> (w \<noteq> 0 \<longleftrightarrow> nid \<in> set (forAllNodes q))"
  using assms
  by (intro getNodeWeight_positive_aux(1))
    (auto simp: isQuorumSetSane_eq qset_sane_def intro: levels_ok_weights_ok)

theorem getNodeWeight_positive_witness:
  "\<exists>w. getNodeWeight 2 (SCPQuorumSet 2 [1, 2, 3] []) = Inr w \<and> w \<noteq> 0"
proof -
  have "isQuorumSetSane (SCPQuorumSet 2 [1, 2, 3] []) False" by code_simp
  from getNodeWeight_positive [OF this, of 2] show ?thesis by simp
qed

subsection \<open>Division of 128-bit numerators\<close>

lemma val128_max: "val128 (u128_not uint128_0) = 2 ^ 128 - 1"
  by (simp add: val128_def u128_not_def uint128_0_def u128_of64_def not_one_eq)

lemma val128_wrap: "val128 (u128_sub uint128_0 uint128_1) = 2 ^ 128 - 1"
  by (simp add: val128_def u128_sub_def uint128_0_def uint128_1_def u128_of64_def word_gt_0)

text \<open>Adding the divisor may wrap to zero; subtracting one then wraps back.\<close>

lemma add_sub_one:
  assumes "val128 a + unat B \<le> 2 ^ 128" "0 < val128 a + unat B"
  shows "val128 (u128_sub (u128_add a (u128_of64 B)) uint128_1) = val128 a + unat B - 1"
proof (cases "val128 a + unat B = 2 ^ 128")
  case True
  then have "val128 (u128_add a (u128_of64 B)) = val128 uint128_0" by (simp add: val128_add)
  then have "u128_add a (u128_of64 B) = uint128_0" by (simp only: val128_inj)
  then show ?thesis using True by (simp add: val128_wrap)
next
  case False
  then have "val128 (u128_add a (u128_of64 B)) = val128 a + unat B" using assms(1) by (simp add: val128_add)
  moreover have "1 \<le> val128 a + unat B" using assms(2) by linarith
  ultimately show ?thesis using val128_sub [of uint128_1 "u128_add a (u128_of64 B)"] by simp
qed

lemma word_of_val128: "LOWER q = of_nat (val128 q)"
  by (rule word_unat_eq_iff [THEN iffD2])
    (simp add: LOWER_val128 unsigned_of_nat take_bit_eq_mod)

lemma div128_value:
  assumes "B \<noteq> 0"
  shows "bindE (div128 n (u128_of64 B)) (\<lambda>x. Inr (u128_le x (u128_of64 UINT64_MAX), LOWER x)) =
      Inr (val128 n div unat B < 2 ^ 64, of_nat (val128 n div unat B))"
proof -
  have "val128 (u128_of64 B) \<noteq> 0" using assms by (simp add: unat_eq_zero)
  then obtain q where q: "div128 n (u128_of64 B) = Inr q" "val128 q = val128 n div val128 (u128_of64 B)"
    by (rule div128_correct)
  then show ?thesis by (simp add: val128_fits word_of_val128)
qed

lemma bigDivide128_u64_correct:
  assumes "B \<noteq> 0" and x: "x = roundedDiv rounding (val128 a) (unat B)"
  shows "\<exists>r. bigDivide128_u64 result a B rounding = Inr (x < 2 ^ 64, r) \<and> (x < 2 ^ 64 \<longrightarrow> r = of_nat x)"
proof -
  have B: "0 < unat B" "unat B < 2 ^ 64" using assms(1) unat64_less by (auto simp: unat_gt_0)
  have b1: "val128 (u128_sub (u128_of64 B) uint128_1) = unat B - 1"
    using val128_sub [of uint128_1 "u128_of64 B"] B by simp
  have lim: "val128 (u128_sub (u128_not uint128_0) (u128_sub (u128_of64 B) uint128_1)) = 2 ^ 128 - unat B"
    using val128_sub [of "u128_sub (u128_of64 B) uint128_1" "u128_not uint128_0"] B
    by (simp add: b1 val128_max)
  show ?thesis
  proof (cases rounding)
    case ROUND_DOWN
    then show ?thesis using assms(1) div128_value [OF assms(1), of a]
      by (simp add: bigDivide128_u64_def assertE_def Let_def x roundedDiv_def)
  next
    case ROUND_UP
    show ?thesis
    proof (cases "2 ^ 128 - unat B < val128 a")
      case True
      have "2 ^ 64 * unat B < 2 ^ 64 * 2 ^ 64" using B(2) by simp
      then have "2 ^ 64 * unat B \<le> val128 a + unat B - 1" using True by simp
      then have "2 ^ 64 \<le> x" using B(1) ROUND_UP
        by (simp add: x roundedDiv_def less_eq_div_iff_mult_less_eq)
      then show ?thesis using True ROUND_UP assms(1) lim
        by (simp add: bigDivide128_u64_def assertE_def val128_gt)
    next
      case False
      then have "val128 a + unat B \<le> 2 ^ 128" using B by simp
      then have "val128 (u128_sub (u128_add a (u128_of64 B)) uint128_1) = val128 a + unat B - 1"
        by (rule add_sub_one) (use B in simp)
      with div128_value [OF assms(1), of "u128_sub (u128_add a (u128_of64 B)) uint128_1"]
      show ?thesis using False ROUND_UP assms(1) lim
        by (simp add: bigDivide128_u64_def assertE_def val128_gt x roundedDiv_def)
    qed
  qed
qed

lemma bigDivide128_correct:
  assumes "0 < sint B" and x: "x = roundedDiv rounding (val128 a) (unat B)"
  shows "if x < 2 ^ 63 then \<exists>r. bigDivide128 a B rounding = Inr r \<and> sint r = int x
    else bigDivide128 a B rounding = Inl OverflowError"
proof -
  have "B \<noteq> 0" using assms(1) by auto
  from bigDivide128_u64_correct [OF this x, of 0] obtain r where
    r: "bigDivide128_u64 0 a B rounding = Inr (x < 2 ^ 64, r)" "x < 2 ^ 64 \<longrightarrow> r = of_nat x" by blast
  show ?thesis
  proof (cases "x < 2 ^ 64")
    case True
    then have un: "unat (of_nat x :: int64) = x" by (simp add: unsigned_of_nat take_bit_nat_eq_self)
    then have "(of_nat x :: int64) \<le> INT64_MAX \<longleftrightarrow> x < 2 ^ 63" by (auto simp: word_le_nat_alt)
    with r True assms(1) un sint_small [of "of_nat x"] show ?thesis
      by (simp add: bigDivide128_def bigDivide128_s64_def assertE_def)
  next
    case False
    with r assms(1) show ?thesis by (simp add: bigDivide128_def bigDivide128_s64_def assertE_def)
  qed
qed

text \<open>C35. Dividing a 128-bit product by a positive 64-bit number returns the exactly rounded quotient and
  throws exactly when it exceeds \<open>INT64_MAX\<close>, including where the addition of the divisor wraps.\<close>

theorem bigDivide128_exact:
  assumes "0 < sint B" "x = roundedDiv rounding (val128 a) (unat B)"
  shows "if x < 2 ^ 63 then \<exists>r. bigDivide128 a B rounding = Inr r \<and> sint r = int x
    else bigDivide128 a B rounding = Inl OverflowError"
  using assms by (rule bigDivide128_correct)

theorem bigDivide128_exact_witness:
  "\<exists>r. bigDivide128 (u128_of64 7) 2 ROUND_UP = Inr r \<and> sint r = 4"
proof -
  have "4 = roundedDiv ROUND_UP (val128 (u128_of64 7)) (unat (2 :: int64))"
    by (simp add: roundedDiv_def val128_def u128_of64_def)
  from bigDivide128_exact [OF _ this] show ?thesis by simp
qed

end
