(* ===== verification/Ballot_Properties.thy ===== *)
theory Ballot_Properties
  imports Example_Slot "HOL-Library.Option_ord" "HOL-Library.Product_Lexorder"
begin

text \<open>
  Properties of the ballot protocol as a component: the order of the statements of a node, the
  way recorded statements are replaced, the restoration of a node's state from its own
  statement, the assertions of debug builds, the searches, and two defects.
\<close>

subsection \<open>The order of statements\<close>

lemma compareBallotPtrs_order [ballot_order]:
  "compareBallotPtrs p q < 0 \<longleftrightarrow> p < q" "compareBallotPtrs p q = 0 \<longleftrightarrow> p = q"
  by (cases p; cases q; simp add: compareBallotPtrs_def ballot_order)+

text \<open>Two statements of one type are compared lexicographically.\<close>

fun newerPledges :: "SCPPledges \<Rightarrow> SCPPledges \<Rightarrow> bool" where
  "newerPledges (Prepare _ b p p' _ nH) (Prepare _ b2 p2 p2' _ nH2) \<longleftrightarrow>
     (b, p, p', nH) < (b2, p2, p2', nH2)"
| "newerPledges (Confirm b nP _ nH _) (Confirm b2 nP2 _ nH2 _) \<longleftrightarrow> (b, nP, nH) < (b2, nP2, nH2)"
| "newerPledges _ _ \<longleftrightarrow> False"

lemma isNewerStatement_iff:
  "isNewerStatement s t \<longleftrightarrow>
     pledge_type (pledges s) < pledge_type (pledges t) \<or>
     pledge_type (pledges s) = pledge_type (pledges t) \<and> newerPledges (pledges s) (pledges t)"
  by (cases "pledges s"; cases "pledges t") (auto simp: isNewerStatement_def Let_def ballot_order)

lemma newerPledges_irrefl: "\<not> newerPledges p p"
  by (cases p) simp_all

lemma newerPledges_trans: "newerPledges p q \<Longrightarrow> newerPledges q r \<Longrightarrow> newerPledges p r"
  by (cases p; cases q; cases r) (auto simp del: less_prod_simp intro: less_trans)

lemma isNewerStatement_trans: "isNewerStatement s t \<Longrightarrow> isNewerStatement t u \<Longrightarrow> isNewerStatement s u"
  by (auto simp: isNewerStatement_iff intro: newerPledges_trans)

lemma isNewerStatement_irrefl: "\<not> isNewerStatement s s"
  by (simp add: isNewerStatement_iff newerPledges_irrefl)

text \<open>The statements of a node are ordered: no statement is newer than itself, and what is newer than
  a newer statement is newer; so no two statements are each newer than the other.\<close>

theorem isNewerStatement_strict_order:
  "\<not> isNewerStatement s s \<and>
   (isNewerStatement s t \<longrightarrow> isNewerStatement t u \<longrightarrow> isNewerStatement s u) \<and>
   (isNewerStatement s t \<longrightarrow> \<not> isNewerStatement t s)"
  using isNewerStatement_irrefl isNewerStatement_trans by blast

theorem isNewerStatement_strict_order_witness:
  "isNewerStatement \<lparr>nodeID = 1, slotIndex = 1, pledges = Prepare 7 (SCPBallot 1 []) None None 0 0\<rparr>
     \<lparr>nodeID = 1, slotIndex = 1, pledges = Externalize (SCPBallot 1 []) 1 7\<rparr>"
  (is "isNewerStatement ?s ?u")
proof -
  let ?t = "\<lparr>nodeID = 1, slotIndex = 1, pledges = Confirm (SCPBallot 1 []) 1 1 1 7\<rparr>"
  have "isNewerStatement ?s ?t" "isNewerStatement ?t ?u" by code_simp+
  then show ?thesis using isNewerStatement_strict_order [of ?s ?t ?u] by blast
qed

subsection \<open>Recorded statements\<close>

definition notOlder :: "SCPEnvelope \<Rightarrow> SCPEnvelope \<Rightarrow> bool" where
  "notOlder e e' \<longleftrightarrow> e' = e \<or> isNewerStatement (statement e) (statement e')"

lemma notOlder_trans: "notOlder a b \<Longrightarrow> notOlder b c \<Longrightarrow> notOlder a c"
  by (auto simp: notOlder_def intro: isNewerStatement_trans)

definition keepsRecorded :: "Slot \<Rightarrow> Slot \<Rightarrow> bool" where
  "keepsRecorded s t \<longleftrightarrow> (\<forall>n e. map_of (mLatestEnvelopes (bp s)) n = Some e \<longrightarrow>
     (\<exists>e'. map_of (mLatestEnvelopes (bp t)) n = Some e' \<and> notOlder e e'))"

lemma keepsRecorded_same:
  "mLatestEnvelopes (bp t) = mLatestEnvelopes (bp s) \<Longrightarrow> keepsRecorded s t"
  by (simp add: keepsRecorded_def notOlder_def)

lemma keepsRecorded_trans: "keepsRecorded s t \<Longrightarrow> keepsRecorded t u \<Longrightarrow> keepsRecorded s u"
  unfolding keepsRecorded_def by (blast intro: notOlder_trans)

lemma keepsRecorded_step:
  assumes "ballot_step D X s t"
  shows "keepsRecorded s t"
  using assms
proof (cases rule: ballot_step.cases)
  case (record_env e)
  have "map_of (mLatestEnvelopes (bp t)) =
      (map_of (mLatestEnvelopes (bp s)))(nodeID (statement e) \<mapsto> e)"
    using coreD [OF record_env(3)] by (simp add: omap_simps)
  moreover have "notOlder old e"
    if "map_of (mLatestEnvelopes (bp s)) (nodeID (statement e)) = Some old" for old
    using record_env(1) that by (simp add: recordGuard_def isNewerStatementFrom_def notOlder_def)
  ultimately show ?thesis by (auto simp: keepsRecorded_def notOlder_def)
next
  case frame
  from coreD [OF this] show ?thesis by (simp add: keepsRecorded_same)
next
  case (announce e)
  then show ?thesis by (simp add: keepsRecorded_same sameVars_def)
next
  case (accept_prepared ballot)
  from setPreparedAccept_effect [OF this(2)] show ?thesis by (simp add: keepsRecorded_same)
next
  case (confirm_prepared newC newH)
  from setPreparedConfirmed_effect [OF this(2)] show ?thesis by (simp add: keepsRecorded_same)
next
  case (accept_commit c h)
  from setAcceptCommit_effect [OF this(2)] show ?thesis by (simp add: keepsRecorded_same)
next
  case (confirm_commit c h)
  from setConfirmCommit_effect [OF this(2)] show ?thesis by (simp add: keepsRecorded_same)
next
  case (bump ballot)
  from updateCurrentValue_effect [OF this(1)] show ?thesis by (simp add: keepsRecorded_same core_def)
qed

lemma keepsRecorded_steps: "ballot_steps D X s t \<Longrightarrow> keepsRecorded s t"
  by (induction rule: rtranclp_induct)
    (auto intro: keepsRecorded_same keepsRecorded_trans keepsRecorded_step)

lemma slot_run_keepsRecorded: "slot_run s t \<Longrightarrow> slot_ok s \<Longrightarrow> keepsRecorded s t"
  unfolding slot_run_def
proof (induction rule: rtranclp_induct)
  case base
  then show ?case by (simp add: keepsRecorded_same)
next
  case (step t u)
  then obtain D where "slot_op D t u" by blast
  moreover have "slot_ok t" using slot_run_ok [of s t] step by (simp add: slot_run_def)
  ultimately have "keepsRecorded t u" by (blast intro: keepsRecorded_steps slot_op_steps)
  then show ?case using step keepsRecorded_trans by blast
qed

text \<open>C6. A recorded statement is never lost and never replaced by an older one: over any sequence of calls
  to a slot, what is recorded for a node stays or makes way for a newer statement.\<close>

theorem recorded_only_newer:
  assumes "slot_run (Slot_new i ln) s" "slot_run s t" "map_of (mLatestEnvelopes (bp s)) n = Some e"
  shows "\<exists>e'. map_of (mLatestEnvelopes (bp t)) n = Some e' \<and>
    (e' = e \<or> isNewerStatement (statement e) (statement e'))"
proof -
  have "slot_ok s" using slot_run_ok [OF assms(1) slot_ok_new] by blast
  from slot_run_keepsRecorded [OF assms(2) this] assms(3) show ?thesis
    by (auto simp: keepsRecorded_def notOlder_def)
qed

theorem recorded_only_newer_witness:
  "\<exists>s e. map_of (mLatestEnvelopes (bp s)) 3 = Some e \<and> slot_run (Slot_new 1 (exampleNode 1)) s \<and>
     (\<exists>e'. map_of (mLatestEnvelopes (bp s)) 3 = Some e' \<and>
        (e' = e \<or> isNewerStatement (statement e) (statement e')))"
proof -
  obtain s e where "slot_run (Slot_new 1 (exampleNode 1)) s" "map_of (mLatestEnvelopes (bp s)) 3 = Some e"
    using exampleExternalize_recorded by blast
  with recorded_only_newer [OF this(1) slot_run_refl this(2)] show ?thesis by blast
qed

subsection \<open>Assertions of debug builds\<close>

lemma checkInvariants_inv:
  assumes inv: "ballot_inv s" and b: "NDEBUG D \<or> (\<forall>b. mCurrentBallot (bp s) = Some b \<longrightarrow> counter b \<noteq> 0)"
  shows "checkInvariants D s = Inr ()"
proof (cases "NDEBUG D")
  case False
  have h: "\<exists>b. mCurrentBallot (bp s) = Some b \<and> areBallotsLessAndCompatible h b"
    if "mHighBallot (bp s) = Some h" for h
    using inv that by (auto simp: ballot_inv_def high_ok_def)
  have c: "\<exists>h. mHighBallot (bp s) = Some h \<and> areBallotsLessAndCompatible c h"
    if "mCommit (bp s) = Some c" for c
    using inv that by (auto simp: ballot_inv_def commit_ok_def)
  have p: "areBallotsLessAndIncompatible p' p"
    if "mPrepared (bp s) = Some p" "mPreparedPrime (bp s) = Some p'" for p p'
    using inv that by (auto simp: ballot_inv_def prepared_ok_def)
  have ph: "mCommit (bp s) \<noteq> None" if "mPhase (bp s) \<noteq> SCP_PHASE_PREPARE"
    using inv that by (cases "mPhase (bp s)") (auto simp: ballot_inv_def)
  show ?thesis
    using False b h c p ph unfolding checkInvariants_def
    by (cases "mCurrentBallot (bp s)"; cases "mPrepared (bp s)"; cases "mPreparedPrime (bp s)";
        cases "mHighBallot (bp s)"; cases "mCommit (bp s)"; cases "mPhase (bp s)")
      (simp_all add: assertE_def)
qed (simp add: checkInvariants_def)

text \<open>C4. In every state that calls from outside can reach, all assertions of \<open>checkInvariants\<close> hold, apart
  from the one that the current ballot has a non-zero counter: if it does, the check passes.\<close>

theorem checkInvariants_pass:
  assumes "slot_run (Slot_new i ln) s" "\<forall>b. mCurrentBallot (bp s) = Some b \<longrightarrow> counter b \<noteq> 0"
  shows "checkInvariants D s = Inr ()"
  using slot_run_ok [OF assms(1) slot_ok_new] assms(2)
  by (intro checkInvariants_inv) (simp_all add: slot_ok_def)

theorem checkInvariants_pass_witness:
  "checkInvariants exampleDriver (Slot_new 1 (exampleNode 1)) = Inr ()"
  by (rule checkInvariants_pass [OF slot_run_refl]) (simp add: Slot_new_def BallotProtocol_new_def)

subsection \<open>Restoring the state of a node\<close>

lemma setState_fresh:
  fixes D e i ln
  defines "r \<equiv> setStateFromEnvelope D e (Slot_new i ln)"
  shows "pledges (statement e) = Prepare hq b p p' nC nH \<Longrightarrow>
      \<exists>t. r = Inr t \<and> localNode t = ln \<and> mPhase (bp t) = SCP_PHASE_PREPARE \<and>
        mCurrentBallot (bp t) = Some b \<and> mPrepared (bp t) = p \<and> mPreparedPrime (bp t) = p' \<and>
        mHighBallot (bp t) = (if nH = 0 then None else Some (SCPBallot nH (bvalue b))) \<and>
        mCommit (bp t) = (if nC = 0 then None else Some (SCPBallot nC (bvalue b)))"
    and "pledges (statement e) = Confirm b nP nC nH hq \<Longrightarrow>
      \<exists>t. r = Inr t \<and> localNode t = ln \<and> mPhase (bp t) = SCP_PHASE_CONFIRM \<and>
        mCurrentBallot (bp t) = Some b \<and> mPrepared (bp t) = Some (SCPBallot nP (bvalue b)) \<and>
        mPreparedPrime (bp t) = None \<and> mHighBallot (bp t) = Some (SCPBallot nH (bvalue b)) \<and>
        mCommit (bp t) = Some (SCPBallot nC (bvalue b))"
    and "pledges (statement e) = Externalize c nH hq \<Longrightarrow>
      \<exists>t. r = Inr t \<and> localNode t = ln \<and> mPhase (bp t) = SCP_PHASE_EXTERNALIZE \<and>
        mCurrentBallot (bp t) = Some (SCPBallot UINT32_MAX (bvalue c)) \<and>
        mPrepared (bp t) = Some (SCPBallot UINT32_MAX (bvalue c)) \<and>
        mPreparedPrime (bp t) = None \<and> mHighBallot (bp t) = Some (SCPBallot nH (bvalue c)) \<and>
        mCommit (bp t) = Some c"
  by (auto simp: r_def setStateFromEnvelope_def bumpToBallot_def Slot_new_def BallotProtocol_new_def
      recordEnvelope_def recordStatement_def driverCall_def)

lemma createStatement_pledges:
  "createStatement D ph s = Inr st \<Longrightarrow> st = \<lparr>nodeID = 0, slotIndex = 0, pledges = pledges st\<rparr>"
  by (auto simp: createStatement_def err_simps)

lemma SCPBallot_eq: "SCPBallot n v = b \<longleftrightarrow> n = counter b \<and> v = bvalue b"
  by (cases b) auto

lemma roundtrip_prepare:
  assumes inv: "ballot_inv s" and ph: "mPhase (bp s) = SCP_PHASE_PREPARE"
    and b: "mCurrentBallot (bp s) = Some b"
    and st: "createStatement D SCP_PHASE_PREPARE s = Inr st"
  shows "\<exists>t. setStateFromEnvelope D (createEnvelope D st s) (Slot_new i (localNode s)) = Inr t \<and>
    mPhase (bp t) = SCP_PHASE_PREPARE \<and> mCommit (bp t) = mCommit (bp s) \<and> ballot_inv t \<and>
    createStatement D SCP_PHASE_PREPARE t = Inr st"
proof -
  let ?h = "mHighBallot (bp s)" and ?c = "mCommit (bp s)"
  have chk: "checkInvariants D s = Inr ()" using st by (auto simp: createStatement_def err_simps)
  have cnt: "NDEBUG D \<or> counter b \<noteq> 0" using chk b by (auto simp: checkInvariants_def err_simps)
  have pl: "pledges st = Prepare (mQSetHash (localNode s)) b (mPrepared (bp s)) (mPreparedPrime (bp s))
      (counterOr0 ?c) (counterOr0 ?h)"
    using st b by (auto simp: createStatement_def bindE_Inr)
  have h: "h \<le> b \<and> bvalue h = bvalue b" if "?h = Some h" for h
    using inv that b by (auto simp: ballot_inv_def high_ok_def lac_iff)
  have c: "counter c \<noteq> 0 \<and> bvalue c = bvalue b \<and> (\<exists>h. ?h = Some h \<and> counter h \<noteq> 0 \<and> c \<le> h)"
    if c: "?c = Some c" for c
  proof -
    from inv c obtain h0 where "?h = Some h0" "c \<le> h0" "bvalue c = bvalue h0" "counter c \<noteq> 0"
      by (auto simp: ballot_inv_def commit_ok_def lac_iff)
    with h [of h0] ballot_le_counter [of c h0] show ?thesis by (auto simp: word_le_0_iff)
  qed
  obtain t where t: "setStateFromEnvelope D (createEnvelope D st s) (Slot_new i (localNode s)) = Inr t"
    "localNode t = localNode s" "mPhase (bp t) = SCP_PHASE_PREPARE" "mCurrentBallot (bp t) = Some b"
    "mPrepared (bp t) = mPrepared (bp s)" "mPreparedPrime (bp t) = mPreparedPrime (bp s)"
    "mHighBallot (bp t) = (if counterOr0 ?h = 0 then None else Some (SCPBallot (counterOr0 ?h) (bvalue b)))"
    "mCommit (bp t) = (if counterOr0 ?c = 0 then None else Some (SCPBallot (counterOr0 ?c) (bvalue b)))"
    using setState_fresh(1) [of "createEnvelope D st s", unfolded createEnvelope_sel, OF pl] by blast
  have tc: "mCommit (bp t) = ?c"
    using t(8) c by (cases ?c) (simp_all add: counterOr0_def SCPBallot_eq)
  have c0: "?c = None" if "counterOr0 ?h = 0"
  proof (rule ccontr)
    assume "?c \<noteq> None"
    then obtain y where "?c = Some y" by blast
    from c [OF this] that show False by (auto simp: counterOr0_def)
  qed
  have th: "mHighBallot (bp t) = ?h \<or> mHighBallot (bp t) = None \<and> ?c = None"
  proof (cases "counterOr0 ?h = 0")
    case True
    with t(7) c0 show ?thesis by simp
  next
    case False
    then obtain y where "?h = Some y" by (cases ?h) (auto simp: counterOr0_def)
    with h [OF this] False t(7) show ?thesis by (simp add: counterOr0_def SCPBallot_eq)
  qed
  have cnt0: "counterOr0 (mHighBallot (bp t)) = counterOr0 ?h"
    using t(7) by (auto simp: counterOr0_def split: option.splits)
  have invt: "ballot_inv t"
    using th
  proof
    assume "mHighBallot (bp t) = ?h"
    with inv t(3-6) tc b ph show ?thesis by (simp add: ballot_inv_def)
  next
    assume "mHighBallot (bp t) = None \<and> ?c = None"
    with inv t(3-6) tc ph show ?thesis by (simp add: ballot_inv_def high_ok_def commit_ok_def vote_ok_def)
  qed
  have "checkInvariants D t = Inr ()" using invt cnt t(4) by (intro checkInvariants_inv) auto
  then have "createStatement D SCP_PHASE_PREPARE t = Inr \<lparr>nodeID = 0, slotIndex = 0, pledges = pledges st\<rparr>"
    using t tc cnt0 by (simp add: createStatement_def pl)
  then show ?thesis using t(1,3) tc invt createStatement_pledges [OF st] by metis
qed

lemma roundtrip_committed:
  assumes inv: "ballot_inv s" and ph: "mPhase (bp s) \<noteq> SCP_PHASE_PREPARE"
    and st: "createStatement D (mPhase (bp s)) s = Inr st"
  shows "\<exists>t. setStateFromEnvelope D (createEnvelope D st s) (Slot_new i (localNode s)) = Inr t \<and>
    mPhase (bp t) = mPhase (bp s) \<and> mCommit (bp t) = mCommit (bp s) \<and> ballot_inv t \<and>
    createStatement D (mPhase (bp s)) t = Inr st"
proof (rule ballot_inv_committed [OF inv ph])
  fix c h b p
  assume v: "mCommit (bp s) = Some c" "mHighBallot (bp s) = Some h" "mCurrentBallot (bp s) = Some b"
    "mPrepared (bp s) = Some p" "mPreparedPrime (bp s) = None"
    "c \<le> h" "h \<le> b" "bvalue c = bvalue b" "bvalue h = bvalue b" "counter c \<noteq> 0"
  have chk: "checkInvariants D s = Inr ()" using st by (auto simp: createStatement_def err_simps)
  have cnt: "NDEBUG D \<or> counter b \<noteq> 0" using chk v(3) by (auto simp: checkInvariants_def err_simps)
  have cb: "SCPBallot (counter c) (bvalue b) = c" "SCPBallot (counter h) (bvalue b) = h"
    using v(8,9) by (simp_all add: SCPBallot_eq)
  show ?thesis
  proof (cases "mPhase (bp s)")
    case SCP_PHASE_CONFIRM
    have pl: "pledges st = Confirm b (counter p) (counter c) (counter h) (mQSetHash (localNode s))"
      using st SCP_PHASE_CONFIRM v by (auto simp: createStatement_def bindE_Inr)
    obtain t where t: "setStateFromEnvelope D (createEnvelope D st s) (Slot_new i (localNode s)) = Inr t"
      "localNode t = localNode s" "mPhase (bp t) = SCP_PHASE_CONFIRM" "mCurrentBallot (bp t) = Some b"
      "mPrepared (bp t) = Some (SCPBallot (counter p) (bvalue b))" "mPreparedPrime (bp t) = None"
      "mHighBallot (bp t) = Some h" "mCommit (bp t) = Some c"
      using setState_fresh(2) [of "createEnvelope D st s", unfolded createEnvelope_sel, OF pl] cb by metis
    have invt: "ballot_inv t" using t v by (simp add: ballot_inv_def inv_parts lac_iff)
    have "checkInvariants D t = Inr ()" using invt cnt t(4) by (intro checkInvariants_inv) auto
    then have "createStatement D SCP_PHASE_CONFIRM t = Inr \<lparr>nodeID = 0, slotIndex = 0, pledges = pledges st\<rparr>"
      using t by (simp add: createStatement_def pl)
    then show ?thesis
      using t SCP_PHASE_CONFIRM invt v(1) createStatement_pledges [OF st] by metis
  next
    case SCP_PHASE_EXTERNALIZE
    have pl: "pledges st = Externalize c (counter h) (mQSetHash (localNode s))"
      using st SCP_PHASE_EXTERNALIZE v by (auto simp: createStatement_def bindE_Inr)
    obtain t where t: "setStateFromEnvelope D (createEnvelope D st s) (Slot_new i (localNode s)) = Inr t"
      "localNode t = localNode s" "mPhase (bp t) = SCP_PHASE_EXTERNALIZE"
      "mCurrentBallot (bp t) = Some (SCPBallot UINT32_MAX (bvalue c))"
      "mPrepared (bp t) = Some (SCPBallot UINT32_MAX (bvalue c))" "mPreparedPrime (bp t) = None"
      "mHighBallot (bp t) = Some h" "mCommit (bp t) = Some c"
      using setState_fresh(3) [of "createEnvelope D st s", unfolded createEnvelope_sel, OF pl] cb v(8) by metis
    have invt: "ballot_inv t"
      using t v by (simp add: ballot_inv_def inv_parts lac_iff ballot_le_same_value)
    have "checkInvariants D t = Inr ()" using invt t(4) by (intro checkInvariants_inv) auto
    then have "createStatement D SCP_PHASE_EXTERNALIZE t = Inr \<lparr>nodeID = 0, slotIndex = 0, pledges = pledges st\<rparr>"
      using t by (simp add: createStatement_def pl)
    then show ?thesis
      using t SCP_PHASE_EXTERNALIZE invt v(1) createStatement_pledges [OF st] by metis
  qed (use ph in simp)
qed

text \<open>C10. Restarting: if a node with a current ballot is restored from the envelope it creates for its state,
  into a fresh slot, it comes back in the same phase with the same commit ballot and a well-formed
  state, and the statement it would create next is the one it was restored from.\<close>

theorem setStateFromEnvelope_roundtrip:
  assumes "slot_run (Slot_new i ln) s" "mCurrentBallot (bp s) \<noteq> None"
    and "createStatement D (mPhase (bp s)) s = Inr st"
  shows "\<exists>t. slotSetStateFromEnvelope D (createEnvelope D st s) (Slot_new i (localNode s)) = Inr t \<and>
    mPhase (bp t) = mPhase (bp s) \<and> mCommit (bp t) = mCommit (bp s) \<and> ballot_inv t \<and>
    createStatement D (mPhase (bp t)) t = Inr st"
proof -
  have ok: "ballot_inv s" "mSlotIndex s = i"
    using slot_run_ok [OF assms(1) slot_ok_new] by (auto simp: slot_ok_def stable_def Slot_new_def)
  obtain t where t: "setStateFromEnvelope D (createEnvelope D st s) (Slot_new i (localNode s)) = Inr t"
    "mPhase (bp t) = mPhase (bp s)" "mCommit (bp t) = mCommit (bp s)" "ballot_inv t"
    "createStatement D (mPhase (bp s)) t = Inr st"
  proof (cases "mPhase (bp s) = SCP_PHASE_PREPARE")
    case True
    with roundtrip_prepare [OF ok(1)] assms(2,3) that show ?thesis by fastforce
  next
    case False
    with roundtrip_committed [OF ok(1) _ assms(3)] that show ?thesis by blast
  qed
  have "\<not> isNominate (pledges st)"
    using assms(3) by (cases "mPhase (bp s)") (auto simp: createStatement_def err_simps)
  then have "slotSetStateFromEnvelope D (createEnvelope D st s) (Slot_new i (localNode s)) = Inr t"
    using t(1) ok(2) by (simp add: slotSetStateFromEnvelope_def createEnvelope_def Slot_new_def Let_def)
  with t show ?thesis by metis
qed

theorem setStateFromEnvelope_roundtrip_witness:
  "\<exists>s t st. mPhase (bp s) = SCP_PHASE_CONFIRM \<and> mPhase (bp t) = mPhase (bp s) \<and>
     createStatement exampleDriver (mPhase (bp t)) t = Inr st"
proof -
  obtain s st where s: "slot_run (Slot_new 1 (exampleNode 1)) s" "mPhase (bp s) = SCP_PHASE_CONFIRM"
    "mCurrentBallot (bp s) \<noteq> None" "createStatement exampleDriver (mPhase (bp s)) s = Inr st"
    using exampleExternalize_confirms by blast
  with setStateFromEnvelope_roundtrip [OF s(1,3,4)] show ?thesis by metis
qed

subsection \<open>The search for an interval of commit ballots\<close>

text \<open>Once a candidate is found, the loop extends it downwards while the predicate holds.\<close>

lemma extendInterval_down:
  assumes "sorted_wrt (>) bs" "\<forall>b \<in> set bs. b < fst cand \<and> b \<noteq> 0" "fst cand \<noteq> 0" "P cand"
    "fst cand \<le> snd cand"
    and mono: "\<And>l l' h. P (l, h) \<Longrightarrow> l \<le> l' \<Longrightarrow> l' \<le> h \<Longrightarrow> P (l', h)"
  shows "\<exists>lo. extendInterval P bs cand = (lo, snd cand) \<and> P (lo, snd cand) \<and> lo \<le> snd cand \<and>
    lo \<in> insert (fst cand) (set bs) \<and> (\<forall>b \<in> set bs. P (b, snd cand) \<longrightarrow> lo \<le> b)"
  using assms(1-5)
proof (induction bs arbitrary: cand)
  case (Cons b bs)
  obtain l h where cand: "cand = (l, h)" by force
  have b: "b < l" "b \<noteq> 0" "b \<le> h" using Cons.prems by (auto simp: cand)
  show ?case
  proof (cases "P (b, h)")
    case True
    have "\<exists>lo. extendInterval P bs (b, h) = (lo, snd (b, h)) \<and> P (lo, snd (b, h)) \<and> lo \<le> snd (b, h) \<and>
        lo \<in> insert (fst (b, h)) (set bs) \<and> (\<forall>c \<in> set bs. P (c, snd (b, h)) \<longrightarrow> lo \<le> c)"
      using Cons.prems True b by (intro Cons.IH) (auto simp: cand)
    then obtain lo where lo: "extendInterval P bs (b, h) = (lo, h)" "P (lo, h)" "lo \<le> h"
      "lo \<in> insert b (set bs)" "\<forall>c \<in> set bs. P (c, h) \<longrightarrow> lo \<le> c" by auto
    have "lo \<le> b" using lo(4) Cons.prems(1) by auto
    with lo True b Cons.prems(3) show ?thesis by (auto simp: cand Let_def not_less)
  next
    case False
    have "\<not> P (c, h)" if "c \<in> set bs" for c
      using mono [of c h b, OF _ less_imp_le] False that Cons.prems(1) b(3) by auto
    with False b Cons.prems show ?thesis by (auto simp: cand Let_def not_less)
  qed
qed auto

lemma extendInterval_start:
  assumes "sorted_wrt (>) bs" "0 \<notin> set bs"
    and mono: "\<And>l l' h. P (l, h) \<Longrightarrow> l \<le> l' \<Longrightarrow> l' \<le> h \<Longrightarrow> P (l', h)"
  shows "if \<exists>b \<in> set bs. P (b, b)
    then \<exists>lo hi. extendInterval P bs (0, 0) = (lo, hi) \<and> hi \<in> set bs \<and> P (hi, hi) \<and>
      (\<forall>b \<in> set bs. P (b, b) \<longrightarrow> b \<le> hi) \<and> lo \<in> set bs \<and> P (lo, hi) \<and> lo \<le> hi \<and>
      (\<forall>b \<in> set bs. b \<le> hi \<longrightarrow> P (b, hi) \<longrightarrow> lo \<le> b)
    else extendInterval P bs (0, 0) = (0, 0)"
  using assms(1,2)
proof (induction bs)
  case (Cons b bs)
  have srt: "sorted_wrt (>) bs" "\<forall>c \<in> set bs. c < b \<and> c \<noteq> 0" "b \<noteq> 0"
    using Cons.prems by auto
  show ?case
  proof (cases "P (b, b)")
    case True
    have ex: "\<exists>lo. extendInterval P bs (b, b) = (lo, snd (b, b)) \<and> P (lo, snd (b, b)) \<and> lo \<le> snd (b, b) \<and>
        lo \<in> insert (fst (b, b)) (set bs) \<and> (\<forall>c \<in> set bs. P (c, snd (b, b)) \<longrightarrow> lo \<le> c)"
      using srt True mono by (intro extendInterval_down) auto
    then obtain lo where lo: "extendInterval P bs (b, b) = (lo, b)" "P (lo, b)" "lo \<le> b"
      "lo \<in> insert b (set bs)" "\<forall>c \<in> set bs. P (c, b) \<longrightarrow> lo \<le> c" by auto
    have eq: "extendInterval P (b # bs) (0, 0) = (lo, b)" using True lo(1) by (simp add: Let_def)
    have "\<forall>c \<in> set (b # bs). P (c, c) \<longrightarrow> c \<le> b" using srt(2) by auto
    moreover have "\<forall>c \<in> set (b # bs). c \<le> b \<longrightarrow> P (c, b) \<longrightarrow> lo \<le> c" using lo by auto
    ultimately show ?thesis using True lo eq by auto
  next
    case False
    then have eq: "extendInterval P (b # bs) (0, 0) = extendInterval P bs (0, 0)" by (simp add: Let_def)
    show ?thesis
    proof (cases "\<exists>c \<in> set bs. P (c, c)")
      case True
      with Cons obtain lo hi where lh: "extendInterval P bs (0, 0) = (lo, hi)" "hi \<in> set bs"
        "P (hi, hi)" "\<forall>c \<in> set bs. P (c, c) \<longrightarrow> c \<le> hi" "lo \<in> set bs" "P (lo, hi)" "lo \<le> hi"
        "\<forall>c \<in> set bs. c \<le> hi \<longrightarrow> P (c, hi) \<longrightarrow> lo \<le> c" by auto
      have "\<not> b \<le> hi" using lh(2) srt(2) by auto
      then show ?thesis unfolding eq using lh False True by auto
    next
      case none: False
      then have "extendInterval P bs (0, 0) = (0, 0)" using Cons srt by auto
      then show ?thesis unfolding eq using none False by auto
    qed
  qed
qed simp



subsection \<open>Timeouts\<close>

text \<open>The timeout of a round grows with its number, by one second per round, and never exceeds thirty
  minutes.\<close>

theorem computeTimeout_bounds:
  "computeTimeout r \<le> 1800000 \<and> (r \<le> r' \<longrightarrow> computeTimeout r \<le> computeTimeout r') \<and>
   (r \<le> 1800 \<longrightarrow> computeTimeout r = 1000 * unat r)"
  by (auto simp: computeTimeout_def MAX_TIMEOUT_SECONDS_def word_le_nat_alt)

theorem computeTimeout_bounds_witness: "computeTimeout 2 \<le> computeTimeout 3"
  using computeTimeout_bounds [of 2 3] by simp

subsection \<open>Two defects\<close>

text \<open>
  The values of a statement are validated in their byte order and each verdict other than
  \<open>kFullyValidatedValue\<close> overwrites the previous one.
\<close>

text \<open>C40. A statement that prepares an invalid value is not rejected when its ballot carries a value that may
  be valid and is greater in byte order: \<open>validateValues\<close> then answers \<open>kMaybeValidValue\<close>, while with
  the opposite byte order it answers \<open>kInvalidValue\<close>.\<close>

theorem validateValues_order_dependent:
  assumes "pledges st = Prepare hq (SCPBallot n v) (Some (SCPBallot m w)) p' nC nH" "n \<noteq> 0" "v \<noteq> w"
    and "validateValue D (mSlotIndex s) w False = kInvalidValue"
    and "validateValue D (mSlotIndex s) v False = kMaybeValidValue"
  shows "validateValues D s st = (if w < v then kMaybeValidValue else kInvalidValue)"
  using assms by (auto simp: validateValues_def)

theorem validateValues_order_dependent_witness:
  "validateValues (exampleDriver\<lparr>validateValue := \<lambda>i v nom. if v = [66] then kMaybeValidValue else kInvalidValue\<rparr>)
     (Slot_new 1 (exampleNode 1))
     \<lparr>nodeID = 2, slotIndex = 1,
      pledges = Prepare 7 (SCPBallot 2 [66]) (Some (SCPBallot 1 [65])) None 0 0\<rparr> = kMaybeValidValue"
  by (subst validateValues_order_dependent [where v = "[66]" and w = "[65]" and n = 2 and m = 1
        and hq = 7 and p' = None and nC = 0 and nH = 0]) simp_all

text \<open>
  Node 1 trusts two of the nodes 2, 3 and 4. It starts with the value \<open>[65]\<close> and confirms the ballot
  \<open>(1, [65])\<close> as prepared, which sets its commit ballot; then nodes 2 and 3 have prepared \<open>(9, [66])\<close>
  and vote for \<open>(10, [65])\<close>. Accepting \<open>(10, [65])\<close> keeps the commit ballot, and confirming
  \<open>(9, [66])\<close> moves the current ballot to another value: \<open>bumpToBallot\<close> resets the high ballot but
  not the commit ballot.
\<close>

definition trustedQSet :: SCPQuorumSet where
  "trustedQSet = SCPQuorumSet 2 [2, 3, 4] []"

definition trustingNode :: LocalNode where
  "trustingNode = LocalNode_new (\<lambda>q. 7) 1 True trustedQSet"

definition trustingDriver :: "bool \<Rightarrow> SCPDriver" where
  "trustingDriver nd = exampleDriver\<lparr>getQSet := \<lambda>h. Some trustedQSet, NDEBUG := nd\<rparr>"

fun receiveAll :: "SCPDriver \<Rightarrow> SCPEnvelope list \<Rightarrow> Slot \<Rightarrow> scp_error + Slot" where
  "receiveAll D [] s = Inr s"
| "receiveAll D (e # es) s =
     bindE (slotProcessEnvelope 60 D e False s) (\<lambda>(r, s1). receiveAll D es s1)"

definition prepares :: "NodeID \<Rightarrow> SCPBallot \<Rightarrow> SCPBallot \<Rightarrow> SCPEnvelope" where
  "prepares n b p = exampleEnvelope n (Prepare 7 b (Some p) None 0 0)"

definition startedSlot :: "bool \<Rightarrow> scp_error + Slot" where
  "startedSlot nd =
     bindE (slotBumpState 60 (trustingDriver nd) [65] True (Slot_new 1 trustingNode)) (\<lambda>(w, s).
     receiveAll (trustingDriver nd)
       [prepares 2 (SCPBallot 1 [65]) (SCPBallot 1 [65]), prepares 3 (SCPBallot 1 [65]) (SCPBallot 1 [65]),
        prepares 2 (SCPBallot 10 [65]) (SCPBallot 9 [66])] s)"

text \<open>C39. Sane and newer statements of a quorum can make the code fail: from a state reached without error,
  the last envelope leads to a null dereference in debug builds, and to the exception \<open>moved to a bad
  state\<close> when assertions are compiled out.\<close>

theorem confirmed_prepared_crash:
  "\<exists>s t. startedSlot False = Inr s \<and> startedSlot True = Inr t \<and>
     slotProcessEnvelope 60 (trustingDriver False)
       (prepares 3 (SCPBallot 10 [65]) (SCPBallot 9 [66])) False s = Inl NullDeref \<and>
     slotProcessEnvelope 60 (trustingDriver True)
       (prepares 3 (SCPBallot 10 [65]) (SCPBallot 9 [66])) False t =
       Inl (RuntimeError ''moved to a bad state (ballot protocol)'')"
proof -
  have "case startedSlot False of Inl e \<Rightarrow> False | Inr s \<Rightarrow>
     slotProcessEnvelope 60 (trustingDriver False)
       (prepares 3 (SCPBallot 10 [65]) (SCPBallot 9 [66])) False s = Inl NullDeref"
    by code_simp
  moreover have "case startedSlot True of Inl e \<Rightarrow> False | Inr s \<Rightarrow>
     slotProcessEnvelope 60 (trustingDriver True)
       (prepares 3 (SCPBallot 10 [65]) (SCPBallot 9 [66])) False s =
     Inl (RuntimeError ''moved to a bad state (ballot protocol)'')"
    by code_simp
  ultimately show ?thesis by (auto split: sum.splits)
qed

end
