(* ===== verification/Ballot_Frame.thy ===== *)
theory Ballot_Frame
  imports Ballot_Refinement
begin

text \<open>
  What the ballot protocol leaves alone: it never touches the variables of the nomination
  protocol, except that it stops it, and every operation returns at the recursion level at which
  it was called. The locale \<open>emission_frame\<close> is this contract for the re-entrant emission; the
  code's emission satisfies it by induction on the fuel.
\<close>

definition frame :: "Slot \<Rightarrow> NominationProtocol \<times> int" where
  "frame s = ((np s)\<lparr>mNominationStarted := False\<rparr>, mCurrentMessageLevel (bp s))"

named_theorems frame_simps \<open>operations that keep the frame\<close>

lemma frame_driverCall [frame_simps]: "frame (driverCall c s) = frame s"
  by (simp add: frame_def)

lemma frame_sendLatestEnvelope [frame_simps]: "frame (sendLatestEnvelope s) = frame s"
  by (simp add: frame_def sendLatestEnvelope_def split: option.splits)

lemma frame_checkHeardFromQuorum [frame_simps]: "frame (checkHeardFromQuorum D s) = frame s"
  by (simp add: frame_def checkHeardFromQuorum_def Let_def startBallotProtocolTimer_def
      stopBallotProtocolTimer_def split: option.splits)

lemma frame_stopNomination [frame_simps]: "frame (stopNomination s) = frame s"
  by (simp add: frame_def stopNomination_def)

lemma frame_setFullyValidated [frame_simps]: "frame (setFullyValidated v s) = frame s"
  by (simp add: frame_def setFullyValidated_def)

lemma frame_recordEnvelope [frame_simps]: "frame (recordEnvelope D e s) = frame s"
  by (simp add: frame_def recordEnvelope_def recordStatement_def)

lemma frame_bp_update [frame_simps]:
  "frame (bp_update (\<lambda>b. b\<lparr>mLastEnvelope := e\<rparr>) s) = frame s"
  "frame (bp_update (\<lambda>b. b\<lparr>mValueOverride := z\<rparr>) s) = frame s"
  "frame (bp_update (\<lambda>b. b\<lparr>mHeardFromQuorum := q\<rparr>) s) = frame s"
  "frame (bp_update (\<lambda>b. b\<lparr>mPhase := ph\<rparr>) s) = frame s"
  "frame (bp_update (\<lambda>b. b\<lparr>mPreparedPrime := f b\<rparr>) s) = frame s"
  "frame (bp_update (\<lambda>b. b\<lparr>mCurrentBallot := cb\<rparr>) s) = frame s"
  "frame (bp_update (\<lambda>b. b\<lparr>mHighBallot := g b\<rparr>) s) = frame s"
  "frame (bp_update (\<lambda>b. b\<lparr>mCommit := c\<rparr>) s) = frame s"
  "frame (bp_update (\<lambda>b. b\<lparr>mCommit := c, mHighBallot := h\<rparr>) s) = frame s"
  by (simp_all add: frame_def)

lemma frame_setPrepared [frame_simps]: "frame (snd (setPrepared b s)) = frame s"
  by (simp add: frame_def setPrepared_def Let_def split: option.splits)

lemma frame_bumpToBallot: "bumpToBallot D b chk s = Inr t \<Longrightarrow> frame t = frame s"
  by (auto simp: bumpToBallot_def bindE_Inr Let_def frame_def split: if_splits)

lemma frame_updateCurrentValue: "updateCurrentValue D b s = Inr (w, t) \<Longrightarrow> frame t = frame s"
  by (auto simp: updateCurrentValue_def bindE_Inr Let_def dest!: frame_bumpToBallot
      split: option.splits if_splits)

lemma frame_updateCurrentIfNeeded: "updateCurrentIfNeeded D b s = Inr (w, t) \<Longrightarrow> frame t = frame s"
  by (auto simp: updateCurrentIfNeeded_def bindE_Inr dest!: frame_bumpToBallot split: if_splits)

lemma frame_setConfirmedBallots: "setConfirmedBallots D c h s = Inr (w, t) \<Longrightarrow> frame t = frame s"
  by (auto simp: setConfirmedBallots_def bindE_Inr Let_def frame_def split: if_splits)

lemma frame_setCommitBallots [frame_simps]: "frame (snd (setCommitBallots c h s)) = frame s"
  by (simp add: setCommitBallots_def frame_simps)

lemma frame_enterConfirmPhase: "enterConfirmPhase D h s = Inr t \<Longrightarrow> frame t = frame s"
  by (auto simp: enterConfirmPhase_def bindE_Inr Let_def frame_def dest!: frame_bumpToBallot
      split: if_splits)

locale emission_frame =
  fixes emit :: "Slot \<Rightarrow> scp_error + Slot"
  assumes emit_frame: "emit s = Inr t \<Longrightarrow> frame t = frame s"
begin

lemma setPreparedAccept_frame:
  assumes "setPreparedAccept D emit b s = Inr (w, t)"
  shows "frame t = frame s"
proof -
  obtain w1 s1 where p: "setPrepared b s = (w1, s1)" by force
  then have "frame s1 = frame s" using frame_setPrepared [of b s] by simp
  with assms show ?thesis
    by (cases "mCommit (bp s1)"; cases "mHighBallot (bp s1)")
      (auto simp: setPreparedAccept_def p bindE_Inr frame_simps dest!: emit_frame split: if_splits)
qed

lemma setPreparedConfirmed_frame:
  "setPreparedConfirmed D emit c h s = Inr (w, t) \<Longrightarrow> frame t = frame s"
  by (auto simp: setPreparedConfirmed_def bindE_Inr frame_simps
      dest!: emit_frame frame_setConfirmedBallots frame_updateCurrentIfNeeded split: if_splits)

lemma setAcceptCommit_frame:
  assumes "setAcceptCommit D emit c h s = Inr (w, t)"
  shows "frame t = frame s"
proof -
  obtain ch s2 where s2: "setCommitBallots c h
      (bp_update (\<lambda>b. b\<lparr>mValueOverride := Some (bvalue h)\<rparr>) s) = (ch, s2)" by force
  then have "frame s2 = frame s"
    by (metis frame_setCommitBallots frame_bp_update(2) snd_conv)
  with assms show ?thesis
    by (auto simp: setAcceptCommit_def s2 bindE_Inr frame_simps
        dest!: emit_frame frame_enterConfirmPhase frame_updateCurrentIfNeeded split: if_splits)
qed

lemma setConfirmCommit_frame:
  "setConfirmCommit D emit c h s = Inr (w, t) \<Longrightarrow> frame t = frame s"
  by (auto simp: setConfirmCommit_def bindE_Inr Let_def frame_simps
      dest!: emit_frame frame_updateCurrentIfNeeded)

lemma attempt_frame:
  "attemptPreparedAccept D emit hint s = Inr (w, t) \<Longrightarrow> frame t = frame s"
  "attemptPreparedConfirmed D emit hint s = Inr (w, t) \<Longrightarrow> frame t = frame s"
  "attemptAcceptCommit D emit hint s = Inr (w, t) \<Longrightarrow> frame t = frame s"
  "attemptConfirmCommit D emit hint s = Inr (w, t) \<Longrightarrow> frame t = frame s"
     apply (auto simp: attemptPreparedAccept_def bindE_Inr dest: setPreparedAccept_frame
      split: if_splits option.splits)[1]
    apply (auto simp: attemptPreparedConfirmed_def Let_def dest: setPreparedConfirmed_frame
      split: if_splits option.splits)[1]
   apply (auto simp: attemptAcceptCommit_def bindE_Inr Let_def dest: setAcceptCommit_frame
      split: if_splits option.splits)[1]
  apply (auto simp: attemptConfirmCommit_def Let_def dest: setConfirmCommit_frame
      split: if_splits option.splits)[1]
  done

lemma bumpStateN_frame: "bumpStateN D emit v n s = Inr (w, t) \<Longrightarrow> frame t = frame s"
  by (auto simp: bumpStateN_def bindE_Inr Let_def frame_simps
      dest!: emit_frame frame_updateCurrentValue split: if_splits)

lemma bumpState_frame: "bumpState D emit v force s = Inr (w, t) \<Longrightarrow> frame t = frame s"
  by (auto simp: bumpState_def dest: bumpStateN_frame split: if_splits)

lemma abandonBallot_frame: "abandonBallot D emit n s = Inr (w, t) \<Longrightarrow> frame t = frame s"
  by (auto simp: abandonBallot_def Let_def dest: bumpStateN_frame bumpState_frame split: if_splits)

lemma attemptBump_frame: "attemptBump D emit s = Inr (w, t) \<Longrightarrow> frame t = frame s"
  by (auto simp: attemptBump_def Let_def dest: abandonBallot_frame split: if_splits option.splits)

lemma bumpLoop_frame: "bumpLoop k D emit d s = Inr (w, t) \<Longrightarrow> frame t = frame s"
  by (induction k arbitrary: d s) (auto simp: bindE_Inr dest!: attemptBump_frame split: if_splits)

lemma attemptTransitions_frame: "attemptTransitions D emit hint s = Inr (w, t) \<Longrightarrow> frame t = frame s"
  by (auto simp: attemptTransitions_def bindE_Inr dest!: attempt_frame)

lemma catchUp_frame: "catchUp k D emit d s = Inr (w, t) \<Longrightarrow> frame t = frame s"
  by (auto simp: catchUp_def bindE_Inr frame_simps dest!: bumpLoop_frame split: if_splits)

lemma advanceSlot_frame:
  assumes "advanceSlot k D emit hint s = Inr t"
  shows "frame t = frame s"
proof -
  let ?s = "bp_update (\<lambda>b. b\<lparr>mCurrentMessageLevel := mCurrentMessageLevel b + 1\<rparr>) s"
  from assms obtain w1 s1 w2 s2 where a: "attemptTransitions D emit hint ?s = Inr (w1, s1)"
    "catchUp k D emit w1 s1 = Inr (w2, s2)"
    and t: "frame t = frame (bp_update (\<lambda>b. b\<lparr>mCurrentMessageLevel := mCurrentMessageLevel b - 1\<rparr>) s2)"
    by (auto simp: advanceSlot_def Let_def bindE_Inr frame_simps split: if_splits)
  have "frame s2 = frame ?s" using attemptTransitions_frame [OF a(1)] catchUp_frame [OF a(2)] by simp
  with t show ?thesis by (simp add: frame_def)
qed

end

subsection \<open>The code keeps the frame\<close>

lemma processEnvelope_with_frame:
  assumes "\<And>st t u. advance st t = Inr u \<Longrightarrow> frame u = frame t"
    and "processEnvelope_with D advance e self s = Inr (r, t)"
  shows "frame t = frame s"
  using assms(2)
  by (auto simp: processEnvelope_with_def bindE_Inr Let_def frame_simps dest!: assms(1)
      split: if_splits)

lemma emitCurrentStateStatement_frame:
  assumes "\<And>e t r u. process e t = Inr (r, u) \<Longrightarrow> frame u = frame t"
    and "emitCurrentStateStatement D process s = Inr t"
  shows "frame t = frame s"
  using assms(2)
  by (auto simp: emitCurrentStateStatement_def bindE_Inr Let_def frame_simps dest!: assms(1)
      split: if_splits)

lemma processEnvelope_frame: "processEnvelope k D e self s = Inr (r, t) \<Longrightarrow> frame t = frame s"
proof (induction k arbitrary: e self s r t)
  case (Suc k)
  have "emission_frame (emitCurrentStateStatement D (\<lambda>e. processEnvelope k D e True))"
    by unfold_locales (rule emitCurrentStateStatement_frame [OF Suc.IH])
  from emission_frame.advanceSlot_frame [OF this] Suc.prems show ?case
    unfolding processEnvelope.simps by (rule processEnvelope_with_frame)
qed simp

interpretation code_frame: emission_frame "emitStatement k D" for k D
  unfolding emitStatement_def
  by unfold_locales (rule emitCurrentStateStatement_frame [OF processEnvelope_frame])

end
