(* ===== verification/Ballot_Termination.thy ===== *)
theory Ballot_Termination
  imports Ballot_Frame
begin

text \<open>
  The ballot protocol ends. The model bounds two things by one fuel: the depth of the re-entrant
  processing of the node's own statements, which the code itself cuts off at
  \<open>MAX_ADVANCE_SLOT_RECURSION\<close>, and the rounds of the catch-up loop of \<open>advanceSlot\<close>, which the
  code does not bound: every round raises the counter of the current ballot or the phase, so
  \<open>2 ^ 33\<close> rounds are enough. The locale \<open>emission_total\<close> is the contract of an emission that does
  not run out of fuel at the recursion level of its caller.
\<close>

abbreviation level :: "Slot \<Rightarrow> int" where
  "level s \<equiv> mCurrentMessageLevel (bp s)"

lemma frame_level: "frame t = frame s \<Longrightarrow> level t = level s"
  by (simp add: frame_def)

subsection \<open>Operations that use no fuel\<close>

named_theorems fuel_simps \<open>operations that never run out of fuel\<close>

lemma fuel_checkInvariants [fuel_simps]: "checkInvariants D s \<noteq> Inl OutOfFuel"
  by (auto simp: checkInvariants_def err_simps split: option.splits SCPPhase.splits)

lemma fuel_createStatement [fuel_simps]: "createStatement D ph s \<noteq> Inl OutOfFuel"
  using fuel_checkInvariants
  by (auto simp: createStatement_def err_simps split: SCPPhase.splits)

lemma fuel_bumpToBallot [fuel_simps]: "bumpToBallot D b chk s \<noteq> Inl OutOfFuel"
  by (auto simp: bumpToBallot_def err_simps Let_def split: if_splits)

lemma fuel_updateCurrentValue [fuel_simps]: "updateCurrentValue D b s \<noteq> Inl OutOfFuel"
  using fuel_bumpToBallot fuel_checkInvariants
  by (auto simp: updateCurrentValue_def err_simps Let_def split: option.splits if_splits)

lemma fuel_updateCurrentIfNeeded [fuel_simps]: "updateCurrentIfNeeded D b s \<noteq> Inl OutOfFuel"
  using fuel_bumpToBallot
  by (auto simp: updateCurrentIfNeeded_def err_simps split: if_splits)

lemma fuel_setConfirmedBallots [fuel_simps]: "setConfirmedBallots D c h s \<noteq> Inl OutOfFuel"
  by (auto simp: setConfirmedBallots_def err_simps Let_def split: if_splits)

lemma fuel_enterConfirmPhase [fuel_simps]: "enterConfirmPhase D h s \<noteq> Inl OutOfFuel"
  using fuel_bumpToBallot
  by (auto simp: enterConfirmPhase_def err_simps Let_def split: if_splits)

lemma fuel_findAcceptPrepared [fuel_simps]: "findAcceptPrepared D s bs \<noteq> Inl OutOfFuel"
  by (induction bs) (auto simp: err_simps split: if_splits)

lemma fuel_isStatementSane [fuel_simps]: "isStatementSane D st self \<noteq> Inl OutOfFuel"
  by (auto simp: isStatementSane_def split: SCPPledges.splits)

subsection \<open>The contract of a total emission\<close>

locale emission_total = emission_frame +
  fixes l :: int
  assumes emit_total: "level s = l \<Longrightarrow> emit s \<noteq> Inl OutOfFuel"
begin

lemma setPreparedAccept_total:
  assumes "level s = l"
  shows "setPreparedAccept D emit b s \<noteq> Inl OutOfFuel"
proof -
  obtain w1 s1 where p: "setPrepared b s = (w1, s1)" by force
  then have "level s1 = l" using frame_setPrepared [of b s] assms by (auto dest: frame_level)
  then show ?thesis
    by (cases "mCommit (bp s1)"; cases "mHighBallot (bp s1)")
      (auto simp: setPreparedAccept_def p err_simps emit_total)
qed

lemma setPreparedConfirmed_total:
  assumes "level s = l"
  shows "setPreparedConfirmed D emit c h s \<noteq> Inl OutOfFuel"
proof -
  let ?s = "bp_update (\<lambda>b. b\<lparr>mValueOverride := Some (bvalue h)\<rparr>) s"
  have "level v = l" if "setConfirmedBallots D c h ?s = Inr (w, t)"
    "updateCurrentIfNeeded D h t = Inr (w', v)" for w t w' v
    using frame_setConfirmedBallots [OF that(1)] frame_updateCurrentIfNeeded [OF that(2)] assms
    by (auto simp: frame_def)
  then show ?thesis
    by (auto simp: setPreparedConfirmed_def err_simps fuel_simps emit_total split: if_splits)
qed

lemma setAcceptCommit_total:
  assumes "level s = l"
  shows "setAcceptCommit D emit c h s \<noteq> Inl OutOfFuel"
proof -
  obtain ch s2 where s2: "setCommitBallots c h
      (bp_update (\<lambda>b. b\<lparr>mValueOverride := Some (bvalue h)\<rparr>) s) = (ch, s2)" by force
  then have "frame s2 = frame s" by (metis frame_setCommitBallots frame_bp_update(2) snd_conv)
  then have l2: "level s2 = l" using assms by (auto dest: frame_level)
  have "emit (driverCall x v) \<noteq> Inl OutOfFuel" if "s5 = s2 \<or> enterConfirmPhase D h s2 = Inr s5"
    "updateCurrentIfNeeded D hb s5 = Inr (w', v)" for s5 hb w' v x
    using that(1) frame_updateCurrentIfNeeded [OF that(2)] l2 frame_enterConfirmPhase [of D h s2 s5]
    by (intro emit_total) (auto simp: frame_def)
  then show ?thesis
    by (fastforce simp: setAcceptCommit_def s2 err_simps fuel_simps split: if_splits)
qed

lemma setConfirmCommit_total:
  assumes "level s = l"
  shows "setConfirmCommit D emit c h s \<noteq> Inl OutOfFuel"
proof -
  let ?s = "bp_update (\<lambda>b. b\<lparr>mCommit := Some c, mHighBallot := Some h\<rparr>) s"
  have "level v = l" if "updateCurrentIfNeeded D h ?s = Inr (w', v)" for w' v
    using frame_updateCurrentIfNeeded [OF that] assms by (auto simp: frame_def)
  then show ?thesis
    by (auto simp: setConfirmCommit_def Let_def err_simps fuel_simps emit_total)
qed

lemma attempt_total:
  assumes "level s = l"
  shows "attemptPreparedAccept D emit hint s \<noteq> Inl OutOfFuel"
    "attemptPreparedConfirmed D emit hint s \<noteq> Inl OutOfFuel"
    "attemptAcceptCommit D emit hint s \<noteq> Inl OutOfFuel"
    "attemptConfirmCommit D emit hint s \<noteq> Inl OutOfFuel"
  using setPreparedAccept_total [OF assms] setPreparedConfirmed_total [OF assms]
    setAcceptCommit_total [OF assms] setConfirmCommit_total [OF assms]
  by (auto simp: attemptPreparedAccept_def attemptPreparedConfirmed_def attemptAcceptCommit_def
      attemptConfirmCommit_def err_simps fuel_simps Let_def split: if_splits option.splits)

lemma bumpStateN_total:
  assumes "level s = l"
  shows "bumpStateN D emit v n s \<noteq> Inl OutOfFuel"
proof -
  have "level t = l" if "updateCurrentValue D b s = Inr (w, t)" for b w t
    using frame_updateCurrentValue [OF that] assms by (auto simp: frame_def)
  then show ?thesis
    by (auto simp: bumpStateN_def Let_def err_simps fuel_simps emit_total split: if_splits)
qed

lemma abandonBallot_total: "level s = l \<Longrightarrow> abandonBallot D emit n s \<noteq> Inl OutOfFuel"
  by (auto simp: abandonBallot_def bumpState_def Let_def bumpStateN_total split: if_splits)

lemma attemptBump_total: "level s = l \<Longrightarrow> attemptBump D emit s \<noteq> Inl OutOfFuel"
  by (auto simp: attemptBump_def Let_def abandonBallot_total split: option.splits)

lemma attemptTransitions_total:
  assumes "level s = l"
  shows "attemptTransitions D emit hint s \<noteq> Inl OutOfFuel"
proof -
  have "level t = l" if "frame t = frame s" for t using frame_level [OF that] assms by simp
  then show ?thesis
    by (auto simp: attemptTransitions_def err_simps attempt_total assms dest!: attempt_frame)
qed

end

subsection \<open>Nested processing\<close>

lemma emitCurrentStateStatement_total:
  assumes "\<And>e t. level t = l \<Longrightarrow> process e t \<noteq> Inl OutOfFuel"
    and "level s = l"
  shows "emitCurrentStateStatement D process s \<noteq> Inl OutOfFuel"
  using assms by (auto simp: emitCurrentStateStatement_def err_simps fuel_simps Let_def split: if_splits)

lemma processEnvelope_with_total:
  assumes "\<And>t. level t = level s \<Longrightarrow> (slot_ok s \<Longrightarrow> slot_ok t) \<Longrightarrow> advance (statement e) t \<noteq> Inl OutOfFuel"
  shows "processEnvelope_with D advance e self s \<noteq> Inl OutOfFuel"
proof
  assume run: "processEnvelope_with D advance e self s = Inl OutOfFuel"
  define s1 where "s1 = (if validateValues D s (statement e) = kMaybeValidValue
    then setFullyValidated False s else s)"
  from run have adv: "advance (statement e) (recordEnvelope D e s1) = Inl OutOfFuel"
    and g: "recordGuard D s e"
    by (auto simp: processEnvelope_with_def err_simps fuel_simps Let_def s1_def recordGuard_def
        split: if_splits)
  have c: "core s1 = core s" by (simp add: s1_def core_simps)
  have "slot_ok (recordEnvelope D e s1)" if ok: "slot_ok s"
  proof -
    have "core (recordEnvelope D e s1) = core (recordEnvelope D e s)"
      using coreD [OF c] by (simp add: core_def)
    from ballot_step.record_env [OF g _ this, of "{e}"] show ?thesis
      using slot_ok_step ok by blast
  qed
  moreover have "level (recordEnvelope D e s1) = level s"
    by (simp add: s1_def setFullyValidated_def)
  ultimately show False using assms adv by blast
qed

lemma emission_total_process:
  assumes "\<And>e t. level t = l \<Longrightarrow> processEnvelope k D e True t \<noteq> Inl OutOfFuel"
  shows "emission_total (emitStatement k D) l"
proof
  show "emitStatement k D s \<noteq> Inl OutOfFuel" if "level s = l" for s
    unfolding emitStatement_def using assms that by (rule emitCurrentStateStatement_total)
qed

lemma advanceSlot_nested:
  assumes "emission_total (emitStatement k D) (level s + 1)" "1 \<le> level s"
  shows "advanceSlot n D (emitStatement k D) hint s \<noteq> Inl OutOfFuel"
proof -
  let ?s = "bp_update (\<lambda>b. b\<lparr>mCurrentMessageLevel := mCurrentMessageLevel b + 1\<rparr>) s"
  have "attemptTransitions D (emitStatement k D) hint ?s \<noteq> Inl OutOfFuel"
    by (rule emission_total.attemptTransitions_total [OF assms(1)]) simp
  moreover have "level t \<noteq> 1" if "attemptTransitions D (emitStatement k D) hint ?s = Inr (w, t)" for w t
    using frame_level [OF code_frame.attemptTransitions_frame [OF that]] assms(2) by simp
  ultimately show ?thesis
    by (auto simp: advanceSlot_def Let_def err_simps catchUp_def split: if_splits)
qed

lemma processEnvelope_nested:
  assumes "1 \<le> level s" "50 - level s \<le> int k" "0 < k"
  shows "processEnvelope k D e self s \<noteq> Inl OutOfFuel"
  using assms
proof (induction k arbitrary: e self s)
  case (Suc k)
  have "advanceSlot k D (emitStatement k D) st t \<noteq> Inl OutOfFuel" if l: "level t = level s" for st t
  proof (cases "level s + 1 \<ge> 50")
    case True
    with l show ?thesis by (simp add: advanceSlot_def Let_def MAX_ADVANCE_SLOT_RECURSION_def)
  next
    case False
    have "emission_total (emitStatement k D) (level s + 1)"
      using Suc.prems False by (intro emission_total_process Suc.IH) auto
    with l Suc.prems(1) show ?thesis by (intro advanceSlot_nested) simp_all
  qed
  then show ?case unfolding processEnvelope.simps emitStatement_def [symmetric]
    by (intro processEnvelope_with_total)
qed simp

text \<open>Fuel for the nesting depth is enough for every emission of the outermost call.\<close>

interpretation code_total: emission_total "emitStatement (k + 50) D" 1 for k D
  by (rule emission_total_process) (simp add: processEnvelope_nested)

subsection \<open>The catch-up loop\<close>

definition rank :: "Slot \<Rightarrow> nat" where
  "rank s = (2 - phase_num (mPhase (bp s))) * 2 ^ 32 - unat (counterOr0 (mCurrentBallot (bp s)))"

lemma rank_le: "rank s \<le> 2 ^ 33"
  by (cases "mPhase (bp s)") (simp_all add: rank_def)

lemma unat_uint32_less: "unat (w :: uint32) < 2 ^ 32"
  using unsigned_less [of w, where 'a = nat] by simp

lemma rank_stable:
  assumes "stable s t"
  shows "rank t \<le> rank s"
proof -
  have "counterOr0 (mCurrentBallot (bp s)) \<le> counterOr0 (mCurrentBallot (bp t))"
    if "mPhase (bp s) = mPhase (bp t)"
    using assms that
    by (auto simp: stable_def notBefore_def ballotLe_def counterOr0_def dest: ballot_le_counter
        split: option.splits)
  moreover have "phase_num (mPhase (bp s)) \<le> phase_num (mPhase (bp t))"
    using assms by (auto simp: stable_def notBefore_def)
  ultimately show ?thesis
    using unat_uint32_less [of "counterOr0 (mCurrentBallot (bp s))"]
    by (cases "mPhase (bp s)"; cases "mPhase (bp t)") (auto simp: rank_def word_le_nat_alt)
qed

lemma rank_bump:
  assumes "updateCurrentValue D b s = Inr (True, t)" "counterOr0 (mCurrentBallot (bp s)) < counter b"
  shows "rank t < rank s"
proof -
  from updateCurrentValue_effect [OF assms(1)] have "mPhase (bp s) \<noteq> SCP_PHASE_EXTERNALIZE"
    "mPhase (bp t) = mPhase (bp s)" "mCurrentBallot (bp t) = Some b" by (auto simp: core_def)
  with assms(2) unat_uint32_less [of "counter b"] show ?thesis
    by (cases "mPhase (bp s)") (auto simp: rank_def counterOr0_def word_less_nat_alt)
qed

lemma countersAbove_above: "x \<in> set (countersAbove m n) \<Longrightarrow> n < x"
proof -
  have "x \<in> set cs \<or> n < x" if "x \<in> set (fold (\<lambda>(i, e) cs. let c = statementBallotCounter (statement e)
        in if c > n then set_insert c cs else cs) m cs)" for cs
    using that
    by (induction m arbitrary: cs) (fastforce simp: Let_def simp del: statementBallotCounter.simps split: if_splits)+
  then show "x \<in> set (countersAbove m n) \<Longrightarrow> n < x" by (fastforce simp: countersAbove_def)
qed

lemma attemptBump_rank:
  assumes em: "ballot_emission D X emit" and run: "attemptBump D emit s = Inr (True, s')"
    and ok: "slot_ok s"
  shows "rank s' < rank s"
proof -
  let ?n0 = "counterOr0 (mCurrentBallot (bp s))"
  have above: "?n0 < n" if "find P (countersAbove (mLatestEnvelopes (bp s)) ?n0) = Some n" for P n
    using that by (metis countersAbove_above find_Some_iff nth_mem)
  from run obtain n where n: "?n0 < n" "abandonBallot D emit n s = Inr (True, s')"
    by (auto simp: attemptBump_def Let_def split: if_splits option.splits dest: above)
  then have "n \<noteq> 0" by auto
  with n(2) obtain v where "bumpStateN D emit v n s = Inr (True, s')"
    by (auto simp: abandonBallot_def Let_def split: if_splits)
  from bumpStateN_split [OF this] obtain b t u where
    b: "updateCurrentValue D b s = Inr (True, t)" "counter b = n" "emit t = Inr u" "core s' = core u"
    by auto
  have okt: "slot_ok t" using ok ballot_step.bump [OF b(1)] slot_ok_step
      ballot_emission.emit_emittable [OF em _ b(3)] recordedSane_changes(5) [OF b(1)] slot_ok_sane by blast
  have "stable t u" using ballot_emission.emit_steps [OF em okt b(3)] stable_steps okt
    by (auto simp: slot_ok_def)
  then have "rank u \<le> rank t" by (rule rank_stable)
  moreover have "rank t < rank s" using rank_bump [OF b(1)] n(1) b(2) by simp
  moreover have "rank s' = rank u" using coreD [OF b(4)] by (simp add: rank_def)
  ultimately show ?thesis by simp
qed

lemma bumpLoop_total:
  assumes em: "ballot_emission D X emit" and tot: "emission_total emit (level s)"
    and "slot_ok s" "rank s < k"
  shows "bumpLoop k D emit d s \<noteq> Inl OutOfFuel"
  using assms(2-)
proof (induction k arbitrary: d s)
  case (Suc k)
  note fr = emission_frame.attemptBump_frame [OF emission_total.axioms(1) [OF Suc.prems(1)]]
  have "bumpLoop k D emit True s1 \<noteq> Inl OutOfFuel" if a: "attemptBump D emit s = Inr (True, s1)" for s1
  proof (rule Suc.IH)
    show "emission_total emit (level s1)"
      using Suc.prems(1) frame_level [OF fr [OF a]] by simp
    show "slot_ok s1" using ballot_emission.attemptBump_steps [OF em a] slot_ok_steps Suc.prems(2) by blast
    show "rank s1 < k" using attemptBump_rank [OF em a Suc.prems(2)] Suc.prems(3) by simp
  qed
  then show ?case using emission_total.attemptBump_total [OF Suc.prems(1)]
    by (auto simp: err_simps split: if_splits)
qed simp

subsection \<open>Enough fuel\<close>

definition enoughFuel :: nat where
  "enoughFuel = 2 ^ 33 + 60"

lemma advanceSlot_outermost:
  assumes "slot_ok s" "level s = 0" "enoughFuel \<le> k"
  shows "advanceSlot k D (emitStatement k D) hint s \<noteq> Inl OutOfFuel"
proof -
  let ?e = "emitStatement k D"
  let ?s = "bp_update (\<lambda>b. b\<lparr>mCurrentMessageLevel := mCurrentMessageLevel b + 1\<rparr>) s"
  have tot: "emission_total ?e 1"
    using code_total.emission_total_axioms [of "k - 50" D] assms(3) by (simp add: enoughFuel_def)
  have "attemptTransitions D ?e hint ?s \<noteq> Inl OutOfFuel"
    by (rule emission_total.attemptTransitions_total [OF tot]) (simp add: assms(2))
  moreover have "catchUp k D ?e w t \<noteq> Inl OutOfFuel" if a: "attemptTransitions D ?e hint ?s = Inr (w, t)" for w t
  proof -
    have ok: "slot_ok ?s" using assms(1) by (rule slot_ok_core) (simp add: core_simps)
    have "slot_ok t" using code_emission.attemptTransitions_steps [OF a ok] ok by (rule slot_ok_steps)
    moreover have "emission_total ?e (level t)"
      using tot frame_level [OF code_frame.attemptTransitions_frame [OF a]] assms(2) by simp
    moreover have "rank t < k" using rank_le [of t] assms(3) by (simp add: enoughFuel_def)
    ultimately have "bumpLoop k D ?e w t \<noteq> Inl OutOfFuel"
      by (intro bumpLoop_total [OF code_emission.ballot_emission_axioms])
    then show ?thesis by (auto simp: catchUp_def err_simps split: if_splits)
  qed
  ultimately show ?thesis
    by (auto simp: advanceSlot_def Let_def err_simps split: if_splits)
qed

lemma processEnvelope_outermost:
  assumes "slot_ok s" "level s = 0" "enoughFuel < k"
  shows "processEnvelope k D e self s \<noteq> Inl OutOfFuel"
proof -
  obtain n where k: "k = Suc n" "enoughFuel \<le> n" using assms(3) by (cases k) auto
  show ?thesis
    unfolding k processEnvelope.simps emitStatement_def [symmetric]
    by (rule processEnvelope_with_total, rule advanceSlot_outermost) (use assms k(2) in auto)
qed

text \<open>A state that cannot be emitted is rejected before anything is processed.\<close>

lemma emitStatement_outermost:
  assumes ok: "emittable D s \<Longrightarrow> slot_ok s" and "level s = 0" "enoughFuel < k"
  shows "emitStatement k D s \<noteq> Inl OutOfFuel"
proof
  assume run: "emitStatement k D s = Inl OutOfFuel"
  then obtain st where st: "createStatement D (mPhase (bp s)) s = Inr st"
    and p: "processEnvelope k D (createEnvelope D st s) True s = Inl OutOfFuel"
    by (auto simp: emitStatement_def emitCurrentStateStatement_def err_simps fuel_simps Let_def
        split: if_splits)
  obtain n where "k = Suc n" using assms(3) by (cases k) auto
  with p have "isStatementSane D (statement (createEnvelope D st s)) True = Inr True"
    by (auto simp: processEnvelope_with_def err_simps fuel_simps split: if_splits)
  from isStatementSaneD [OF this] st have "emittable D s" by (auto simp: emittable_def)
  with ok assms(2,3) p processEnvelope_outermost show False by blast
qed

lemma bumpStateN_outermost:
  assumes "slot_ok s" "level s = 0" "enoughFuel < k"
  shows "bumpStateN D (emitStatement k D) v n s \<noteq> Inl OutOfFuel"
proof -
  have "emitStatement k D t \<noteq> Inl OutOfFuel" if u: "updateCurrentValue D b s = Inr (True, t)" for b t
  proof (rule emitStatement_outermost [OF _ _ assms(3)])
    show "slot_ok t" if "emittable D t"
      using slot_ok_step [OF ballot_step.bump [OF u that, of UNIV] assms(1)] .
    show "level t = 0" using frame_level [OF frame_updateCurrentValue [OF u]] assms(2) by simp
  qed
  then show ?thesis by (auto simp: bumpStateN_def Let_def err_simps fuel_simps split: if_splits)
qed

end
