(* ===== verification/Nomination_Invariant.thy ===== *)
theory Nomination_Invariant
  imports Slot_Refinement Ballot_Termination Example_Slot
begin

text \<open>
  The invariant of the nomination protocol: the votes, accepted values and candidates are sets
  with candidates among the accepted and accepted among the voted values, the recorded
  nominations are sane; and all of them only grow, whatever calls a slot receives. The locale
  \<open>nomination_reentry\<close> is the contract of the two calls with which nomination re-enters the slot.
\<close>

subsection \<open>Comparison of nominations\<close>

lemma adjacentSorted_eq: "adjacentSorted xs \<longleftrightarrow> sorted_wrt (<) xs"
  by (induction xs rule: adjacentSorted.induct) (auto intro: less_trans)

lemma std_includes_eq:
  "sorted_wrt (<) xs \<Longrightarrow> sorted_wrt (<) ys \<Longrightarrow> std_includes xs ys \<longleftrightarrow> set ys \<subseteq> set xs"
proof (induction xs ys rule: std_includes.induct)
  case (3 x xs y ys)
  consider "y < x" | "x < y" | "x = y" by (rule linorder_cases)
  then show ?case
  proof cases
    case 1
    then have "y \<notin> set (x # xs)" using 3(3) by auto
    with 1 show ?thesis by auto
  next
    case 2
    then have "x \<notin> set (y # ys)" using 3(4) by auto
    then have "set (y # ys) \<subseteq> set (x # xs) \<longleftrightarrow> set (y # ys) \<subseteq> set xs" by auto
    moreover have "\<not> y < x" using 2 by simp
    ultimately show ?thesis using 2 3 by simp
  next
    case [simp]: 3
    have "y \<notin> set ys" using "3.prems" by auto
    then have "set (y # ys) \<subseteq> set (x # xs) \<longleftrightarrow> set ys \<subseteq> set xs" by auto
    with "3.IH"(2) "3.prems" show ?thesis by simp
  qed
qed auto

lemma sorted_distinct: "sorted_wrt (<) (xs :: 'a::linorder list) \<Longrightarrow> distinct xs"
  by (simp add: strict_sorted_iff)

lemma isSubsetHelper_eq:
  assumes "sorted_wrt (<) p" "sorted_wrt (<) v"
  shows "isSubsetHelper p v = (set p \<subseteq> set v, set p \<noteq> set v)"
proof -
  have card: "card (set p) = length p" "card (set v) = length v"
    using assms by (simp_all add: sorted_distinct distinct_card)
  have "length p \<le> length v" if "set p \<subseteq> set v" using card_mono [OF _ that] card by simp
  moreover have "length p \<noteq> length v \<longleftrightarrow> set p \<noteq> set v" if "set p \<subseteq> set v"
    using card card_subset_eq [OF _ that] by auto
  ultimately show ?thesis using std_includes_eq [OF assms(2,1)] by (auto simp: isSubsetHelper_def)
qed

lemma isNewerNomination_eq:
  assumes "isSane s" "isSane t"
  shows "isNewerNomination s t \<longleftrightarrow>
    set (nomVotes s) \<subseteq> set (nomVotes t) \<and> set (nomAccepted s) \<subseteq> set (nomAccepted t) \<and>
    (set (nomVotes s), set (nomAccepted s)) \<noteq> (set (nomVotes t), set (nomAccepted t))"
  using assms by (auto simp: isNewerNomination_def isSubsetHelper_eq isSane_def adjacentSorted_eq Let_def)

subsection \<open>The invariant\<close>

definition nom_ok :: "Slot \<Rightarrow> bool" where
  "nom_ok s \<longleftrightarrow>
     sorted_wrt (<) (mVotes (np s)) \<and> sorted_wrt (<) (mAccepted (np s)) \<and>
     sorted_wrt (<) (mCandidates (np s)) \<and> set (mAccepted (np s)) \<subseteq> set (mVotes (np s)) \<and>
     set (mCandidates (np s)) \<subseteq> set (mAccepted (np s)) \<and> map_sorted (mLatestNominations (np s)) \<and>
     (\<forall>n e. map_of (mLatestNominations (np s)) n = Some e \<longrightarrow>
        nodeID (statement e) = n \<and> isSane (statement e))"

definition nomNotOlder :: "SCPEnvelope \<Rightarrow> SCPEnvelope \<Rightarrow> bool" where
  "nomNotOlder e e' \<longleftrightarrow> e' = e \<or> isNewerNomination (statement e) (statement e')"

definition nomGrows :: "Slot \<Rightarrow> Slot \<Rightarrow> bool" where
  "nomGrows s t \<longleftrightarrow>
     set (mVotes (np s)) \<subseteq> set (mVotes (np t)) \<and> set (mAccepted (np s)) \<subseteq> set (mAccepted (np t)) \<and>
     set (mCandidates (np s)) \<subseteq> set (mCandidates (np t)) \<and>
     (\<forall>n e. map_of (mLatestNominations (np s)) n = Some e \<longrightarrow>
        (\<exists>e'. map_of (mLatestNominations (np t)) n = Some e' \<and> nomNotOlder e e')) \<and>
     level t = level s"

text \<open>A step keeps the invariant and grows.\<close>

definition nom_step :: "Slot \<Rightarrow> Slot \<Rightarrow> bool" where
  "nom_step s t \<longleftrightarrow> (nom_ok s \<longrightarrow> nom_ok t \<and> nomGrows s t)"

lemma nomNotOlder_trans:
  "nomNotOlder a b \<Longrightarrow> nomNotOlder b c \<Longrightarrow> isSane (statement a) \<Longrightarrow> isSane (statement b) \<Longrightarrow>
   isSane (statement c) \<Longrightarrow> nomNotOlder a c"
  by (auto simp: nomNotOlder_def isNewerNomination_eq)

lemma nomGrows_trans:
  assumes "nom_ok s" "nom_ok t" "nom_ok u" "nomGrows s t" "nomGrows t u"
  shows "nomGrows s u"
proof -
  have "\<exists>e'. map_of (mLatestNominations (np u)) n = Some e' \<and> nomNotOlder e e'"
    if e: "map_of (mLatestNominations (np s)) n = Some e" for n e
  proof -
    from assms(4) e obtain f where f: "map_of (mLatestNominations (np t)) n = Some f" "nomNotOlder e f"
      unfolding nomGrows_def by blast
    from assms(5) f(1) obtain g where g: "map_of (mLatestNominations (np u)) n = Some g" "nomNotOlder f g"
      unfolding nomGrows_def by blast
    have "isSane (statement e)" "isSane (statement f)" "isSane (statement g)"
      using assms(1-3) e f(1) g(1) unfolding nom_ok_def by blast+
    with f(2) g have "nomNotOlder e g" by (blast intro: nomNotOlder_trans)
    with g(1) show ?thesis by blast
  qed
  with assms(4,5) show ?thesis unfolding nomGrows_def by auto
qed

lemma nom_step_trans: "nom_step s t \<Longrightarrow> nom_step t u \<Longrightarrow> nom_step s u"
  unfolding nom_step_def using nomGrows_trans by blast

lemma nom_step_refl [simp]: "nom_step s s"
  by (simp add: nom_step_def nomGrows_def nomNotOlder_def)

lemma frameD:
  assumes "frame t = frame s"
  shows "mVotes (np t) = mVotes (np s) \<and> mAccepted (np t) = mAccepted (np s) \<and>
    mCandidates (np t) = mCandidates (np s) \<and> mLatestNominations (np t) = mLatestNominations (np s) \<and>
    level t = level s"
  using assms by (cases "np t"; cases "np s") (simp add: frame_def)

lemma nom_step_frame: "frame t = frame s \<Longrightarrow> nom_step s t"
  by (drule frameD) (simp add: nom_step_def nom_ok_def nomGrows_def nomNotOlder_def)

subsection \<open>Operations that do not re-enter\<close>

lemma frame_np_update [frame_simps]:
  "frame (np_update (\<lambda>n. n\<lparr>mNominationStarted := b\<rparr>) s) = frame s"
  by (simp add: frame_def)

lemma nom_step_np_update [simp]:
  "nom_step s (np_update (\<lambda>n. n\<lparr>mLastNomination := e\<rparr>) s)"
  "nom_step s (np_update (\<lambda>n. n\<lparr>mLatestCompositeCandidate := v\<rparr>) s)"
  "nom_step s (np_update (\<lambda>n. n\<lparr>mRoundLeaders := f n\<rparr>) s)"
  "nom_step s (np_update (\<lambda>n. n\<lparr>mNominationStarted := b, mPreviousValue := p, mRoundNumber := g n\<rparr>) s)"
  by (simp_all add: nom_step_def nom_ok_def nomGrows_def nomNotOlder_def)

lemma nom_step_driverCall [simp]: "nom_step s (driverCall c s)"
  by (rule nom_step_frame) (simp add: frame_simps)

lemma nom_step_addVote [simp]: "nom_step s (addVote v s)"
  by (auto simp: nom_step_def nom_ok_def nomGrows_def nomNotOlder_def addVote_def sorted_set_insert)

lemma nom_step_accept [simp]: "nom_step s (addVote v (addAccepted v s))"
  by (auto simp: nom_step_def nom_ok_def nomGrows_def nomNotOlder_def addVote_def addAccepted_def
      sorted_set_insert)

lemma nom_step_candidate:
  "a \<in> set (mAccepted (np s)) \<Longrightarrow> nom_step s (np_update (\<lambda>n. n\<lparr>mCandidates := set_insert a (mCandidates n)\<rparr>) s)"
  by (auto simp: nom_step_def nom_ok_def nomGrows_def nomNotOlder_def sorted_set_insert)

lemma nom_step_record:
  assumes "isNewerNominationFrom s (nodeID (statement e)) (statement e)" "isSane (statement e)"
  shows "nom_step s (recordNomination D e s)"
proof -
  let ?t = "recordNomination D e s"
  have m: "map_of (mLatestNominations (np ?t)) = (map_of (mLatestNominations (np s)))(nodeID (statement e) \<mapsto> e)"
    by (simp add: recordNomination_def recordStatement_def omap_simps)
  have srt: "map_sorted (mLatestNominations (np s)) \<Longrightarrow> map_sorted (mLatestNominations (np ?t))"
    by (auto simp: recordNomination_def recordStatement_def)
  have f: "mVotes (np ?t) = mVotes (np s)" "mAccepted (np ?t) = mAccepted (np s)"
    "mCandidates (np ?t) = mCandidates (np s)" "level ?t = level s"
    by (simp_all add: recordNomination_def recordStatement_def)
  have "nomNotOlder old e" if "map_of (mLatestNominations (np s)) (nodeID (statement e)) = Some old" for old
    using assms(1) that by (simp add: isNewerNominationFrom_def nomNotOlder_def)
  then show ?thesis
    using assms(2) m srt f by (auto simp: nom_step_def nom_ok_def nomGrows_def nomNotOlder_def)
qed

lemma nom_step_acceptLoop: "nom_step s (snd (acceptLoop D vs m s))"
proof (induction D vs m s rule: acceptLoop.induct)
  case (2 D v vs m s)
  then show ?case
    by (auto simp: Let_def intro: nom_step_trans [OF nom_step_accept] nom_step_trans [OF nom_step_addVote])
qed simp

lemma candidateLoop_accepted: "mAccepted (np (snd (candidateLoop D as m s))) = mAccepted (np s)"
  by (induction D as m s rule: candidateLoop.induct) simp_all

lemma nom_step_candidateLoop:
  "set as \<subseteq> set (mAccepted (np s)) \<Longrightarrow> nom_step s (snd (candidateLoop D as m s))"
proof (induction D as m s rule: candidateLoop.induct)
  case (2 D a as m s)
  let ?t = "np_update (\<lambda>n. n\<lparr>mCandidates := set_insert a (mCandidates n)\<rparr>) s"
  have "nom_step s ?t" using 2(4) by (intro nom_step_candidate) simp
  with 2 show ?case by (auto intro: nom_step_trans)
qed simp

lemma nom_step_leaderVote: "leaderVote D st m s = Inr (m', s') \<Longrightarrow> nom_step s s'"
  by (auto simp: leaderVote_def bindE_Inr split: if_splits
      intro: nom_step_trans [OF nom_step_addVote nom_step_driverCall])

lemma nom_step_updateComposite: "nom_step s (updateComposite D s)"
  unfolding updateComposite_def Let_def by (rule nom_step_trans [OF nom_step_np_update(2) nom_step_driverCall])

lemma nom_step_updateRoundLeaders: "updateRoundLeaders D s = Inr s' \<Longrightarrow> nom_step s s'"
  by (auto simp: updateRoundLeaders_def bindE_Inr Let_def)

lemma nom_step_leaderValues: "leaderValues D ls u v s = Inr (u', v', s') \<Longrightarrow> nom_step s s'"
  by (induction D ls u v s rule: leaderValues.induct)
    (auto simp: bindE_Inr split: option.splits if_splits intro: nom_step_trans [OF nom_step_addVote])

subsection \<open>The contract of the re-entrant calls\<close>

locale nomination_reentry =
  fixes process :: "SCPEnvelope \<Rightarrow> Slot \<Rightarrow> scp_error + EnvelopeState \<times> Slot"
    and bump :: "Value \<Rightarrow> bool \<Rightarrow> Slot \<Rightarrow> scp_error + bool \<times> Slot"
  assumes process_grows: "process e s = Inr (r, t) \<Longrightarrow> nom_step s t"
    and bump_frame: "bump v f s = Inr (b, t) \<Longrightarrow> frame t = frame s"
begin

lemma emitNomination_grows:
  assumes "emitNomination D process s = Inr t"
  shows "nom_step s t"
proof -
  let ?u = "\<lambda>s1. np_update (\<lambda>n. n\<lparr>mLastNomination := Some (createNomination D s)\<rparr>) s1"
  from assms obtain s1 where p: "process (createNomination D s) s = Inr (VALID, s1)"
    and t: "t = s1 \<or> t = ?u s1 \<or> t = driverCall (EmitEnvelope (createNomination D s)) (?u s1)"
    by (auto simp: emitNomination_def bindE_Inr Let_def split: if_splits)
  have "nom_step s1 t" using t nom_step_trans [OF nom_step_np_update(1) nom_step_driverCall] by auto
  with process_grows [OF p] show ?thesis by (rule nom_step_trans)
qed

lemma nomProcessEnvelope_grows:
  assumes "nomProcessEnvelope D process bump e s = Inr (r, t)"
  shows "nom_step s t"
proof -
  let ?new = "isNewerNominationFrom s (nodeID (statement e)) (statement e) \<and> isSane (statement e)"
  define s1 where "s1 = recordNomination D e s"
  obtain m2 s2 where s2: "acceptLoop D (nomVotes (statement e)) False s1 = (m2, s2)" by force
  obtain m3 s3 where s3: "candidateLoop D (mAccepted (np s2)) False s2 = (m3, s3)" by force
  note run = assms(1) [unfolded nomProcessEnvelope_def Let_def, folded s1_def, unfolded s2,
      unfolded prod.case, unfolded s3, unfolded prod.case]
  show ?thesis
  proof (cases ?new)
    case False
    with run have "t = s" by (simp split: if_split_asm)
    then show ?thesis by simp
  next
    case new: True
    then have st1: "nom_step s s1" unfolding s1_def by (intro nom_step_record) simp_all
    show ?thesis
    proof (cases "mNominationStarted (np s1)")
      case False
      with new run st1 show ?thesis by simp
    next
      case True
      have "nom_step s1 s2" using nom_step_acceptLoop [of s1 D] s2 by (metis snd_conv)
      moreover have "nom_step s2 s3" using nom_step_candidateLoop [of _ s2 D] s3 by (metis order_refl snd_conv)
      ultimately have st3: "nom_step s s3" using st1 nom_step_trans by blast
      from new True run obtain m4 s4 s5 where r: "leaderVote D (statement e) m2 s3 = Inr (m4, s4)"
        "(if m4 then emitNomination D process s4 else Inr s4) = Inr s5"
        "(if m3 then bindE (bump (mLatestCompositeCandidate (np (updateComposite D s5))) False
             (updateComposite D s5)) (\<lambda>(b, s7). Inr (VALID, s7))
          else Inr (VALID, s5)) = Inr (r, t)"
        by (simp only: simp_thms if_True bindE_Inr split_paired_Ex prod.case) blast
      have "nom_step s4 s5" using r(2) emitNomination_grows [of D s4 s5] by (cases m4) auto
      moreover have "nom_step s5 t"
        using r(3) nom_step_trans [OF nom_step_updateComposite nom_step_frame [OF bump_frame]]
        by (cases m3) (auto simp: bindE_Inr)
      ultimately show ?thesis using st3 nom_step_leaderVote [OF r(1)] nom_step_trans by blast
    qed
  qed
qed

lemma nominate_grows:
  assumes "nominate D process v prev timedout s = Inr (w, t)"
  shows "nom_step s t"
proof (cases "timedout \<and> \<not> mNominationStarted (np s)")
  case True
  with assms show ?thesis by (simp add: nominate_def)
next
  case False
  let ?s1 = "np_update (\<lambda>n. n\<lparr>mNominationStarted := True, mPreviousValue := prev,
                    mRoundNumber := mRoundNumber n + 1\<rparr>) s"
  from assms False obtain s2 where s2: "updateRoundLeaders D ?s1 = Inr s2"
    by (auto simp: nominate_def Let_def bindE_Inr)
  define s3 where "s3 = (if mNodeID (localNode s2) \<in> set (mRoundLeaders (np s2)) then addVote v s2 else s2)"
  note run = assms [unfolded nominate_def Let_def if_not_P [OF False] s2 bindE_simps, folded s3_def]
  from run obtain u v1 s4 where a: "leaderValues D (mRoundLeaders (np s3))
      (mNodeID (localNode s2) \<in> set (mRoundLeaders (np s2)) \<and> v \<notin> set (mVotes (np s2)))
      (if mNodeID (localNode s2) \<in> set (mRoundLeaders (np s2)) then v else []) s3 = Inr (u, v1, s4)"
    by (simp only: bindE_Inr split_paired_Ex prod.case) blast
  let ?s5 = "driverCall (NominatingValue (mSlotIndex s4) v1) s4"
  let ?s6 = "driverCall (SetupTimer (mSlotIndex ?s5) NOMINATION_TIMER
    (computeTimeout (mRoundNumber (np ?s5))) (NominateTimedOut v prev)) ?s5"
  have e: "(if u then emitNomination D process ?s6 else Inr ?s6) = Inr t"
    using run unfolding a bindE_simps prod.case by (simp only: bindE_Inr sum.inject prod.inject) blast
  have "nom_step ?s1 s2" by (rule nom_step_updateRoundLeaders [OF s2])
  then have "nom_step s s2" by (rule nom_step_trans [OF nom_step_np_update(4)])
  moreover have "nom_step s2 s3" by (simp add: s3_def)
  moreover have "nom_step s3 s4" by (rule nom_step_leaderValues [OF a])
  moreover have "nom_step s4 ?s6" by (rule nom_step_trans [OF nom_step_driverCall nom_step_driverCall])
  moreover have "nom_step ?s6 t" using e emitNomination_grows [of D ?s6 t] by (cases u) auto
  ultimately show ?thesis using nom_step_trans by blast
qed

end

subsection \<open>The code of a slot\<close>

lemma slotProcessEnvelope_grows: "slotProcessEnvelope k D e self s = Inr (r, t) \<Longrightarrow> nom_step s t"
proof (induction k arbitrary: e self s r t)
  case (Suc k)
  have re: "nomination_reentry (\<lambda>e. slotProcessEnvelope k D e True) (bumpState D (emitStatement k D))"
    using Suc.IH code_frame.bumpState_frame by unfold_locales blast+
  show ?case
  proof (cases "isNominate (pledges (statement e))")
    case True
    then show ?thesis
      using Suc.prems nomination_reentry.nomProcessEnvelope_grows [OF re] by (auto simp: bindE_Inr)
  next
    case False
    then show ?thesis
      using Suc.prems processEnvelope_frame [of k D e self s r t] by (simp add: bindE_Inr nom_step_frame)
  qed
qed simp

interpretation code_nomination:
  nomination_reentry "\<lambda>e. slotProcessEnvelope k D e True" "bumpState D (emitStatement k D)" for k D
  by unfold_locales (blast intro: slotProcessEnvelope_grows code_frame.bumpState_frame)+

lemma slot_op_grows:
  assumes "slot_op D s t"
  shows "nom_step s t"
  using assms
proof cases
  case (receive k e self r)
  then show ?thesis by (blast intro: slotProcessEnvelope_grows)
next
  case (nominates k v prev timedout w)
  then show ?thesis unfolding slotNominate_def by (rule code_nomination.nominate_grows)
next
  case (abandons k w)
  then show ?thesis unfolding slotAbandonBallot_def
    by (intro nom_step_frame code_frame.abandonBallot_frame)
next
  case (bumps k v force w)
  then show ?thesis unfolding slotBumpState_def
    by (intro nom_step_frame code_frame.bumpState_frame)
next
  case (timeout k cb)
  then show ?thesis
    by (cases cb) (auto simp: bindE_Inr ballotProtocolTimerExpired_def slotNominate_def
        intro: nom_step_frame code_frame.abandonBallot_frame code_nomination.nominate_grows)
qed

lemma slot_run_grows: "slot_run s t \<Longrightarrow> nom_step s t"
  unfolding slot_run_def
  by (induction rule: rtranclp_induct) (auto intro: nom_step_trans slot_op_grows)

lemma nom_ok_new: "nom_ok (Slot_new i ln)"
  by (simp add: nom_ok_def Slot_new_def NominationProtocol_new_def)

subsection \<open>Properties\<close>

text \<open>C8. In every reachable slot, the votes, the accepted values and the candidates are strictly sorted
  sets, every accepted value is voted for, every candidate is accepted, and every recorded nomination
  passed the sanity check and is filed under its sender.\<close>

theorem nomination_invariant:
  assumes "slot_run (Slot_new i ln) s"
  shows "sorted_wrt (<) (mVotes (np s)) \<and> sorted_wrt (<) (mAccepted (np s)) \<and>
    sorted_wrt (<) (mCandidates (np s)) \<and> set (mAccepted (np s)) \<subseteq> set (mVotes (np s)) \<and>
    set (mCandidates (np s)) \<subseteq> set (mAccepted (np s)) \<and>
    (\<forall>n e. map_of (mLatestNominations (np s)) n = Some e \<longrightarrow>
       nodeID (statement e) = n \<and> isSane (statement e))"
  using slot_run_grows [OF assms] nom_ok_new unfolding nom_step_def nom_ok_def by blast

theorem nomination_invariant_witness:
  "\<exists>s. slot_run (Slot_new 1 (exampleNode 1)) s \<and> set (mCandidates (np s)) \<subseteq> set (mAccepted (np s))"
proof -
  obtain s where s: "slot_run (Slot_new 1 (exampleNode 1)) s" using exampleExternalize_state by blast
  with nomination_invariant [OF s] show ?thesis by blast
qed

text \<open>C9. Nomination is monotone: over any sequence of calls to a slot no vote, accepted value or candidate is
  ever withdrawn, and a recorded nomination is only replaced by one that extends it.\<close>

theorem nomination_monotone:
  assumes "slot_run (Slot_new i ln) s" "slot_run s t"
  shows "set (mVotes (np s)) \<subseteq> set (mVotes (np t)) \<and> set (mAccepted (np s)) \<subseteq> set (mAccepted (np t)) \<and>
    set (mCandidates (np s)) \<subseteq> set (mCandidates (np t)) \<and>
    (\<forall>n e. map_of (mLatestNominations (np s)) n = Some e \<longrightarrow>
       (\<exists>e'. map_of (mLatestNominations (np t)) n = Some e' \<and>
          set (nomVotes (statement e)) \<subseteq> set (nomVotes (statement e')) \<and>
          set (nomAccepted (statement e)) \<subseteq> set (nomAccepted (statement e'))))"
proof -
  have s: "nom_ok s" using slot_run_grows [OF assms(1)] nom_ok_new unfolding nom_step_def by blast
  then have t: "nom_ok t" "nomGrows s t" using slot_run_grows [OF assms(2)] unfolding nom_step_def by blast+
  have "\<exists>e'. map_of (mLatestNominations (np t)) n = Some e' \<and>
      set (nomVotes (statement e)) \<subseteq> set (nomVotes (statement e')) \<and>
      set (nomAccepted (statement e)) \<subseteq> set (nomAccepted (statement e'))"
    if e: "map_of (mLatestNominations (np s)) n = Some e" for n e
  proof -
    from t(2) e obtain f where f: "map_of (mLatestNominations (np t)) n = Some f" "nomNotOlder e f"
      unfolding nomGrows_def by blast
    have "isSane (statement e)" "isSane (statement f)" using s t(1) e f(1) unfolding nom_ok_def by blast+
    with f show ?thesis by (auto simp: nomNotOlder_def isNewerNomination_eq)
  qed
  with t(2) show ?thesis unfolding nomGrows_def by blast
qed

theorem nomination_monotone_witness:
  "\<exists>s. slot_run (Slot_new 1 (exampleNode 1)) s \<and> set (mVotes (np (Slot_new 1 (exampleNode 1)))) \<subseteq> set (mVotes (np s))"
proof -
  obtain s where s: "slot_run (Slot_new 1 (exampleNode 1)) s" using exampleExternalize_state by blast
  with nomination_monotone [OF slot_run_refl s] show ?thesis by blast
qed

text \<open>Between sane nominations, the merge-based comparison of the code decides growth: a nomination is
  newer exactly when it contains all votes and all accepted values of the other and one of the two sets
  is larger.\<close>

theorem isNewerNomination_correct:
  assumes "isSane s" "isSane t"
  shows "isNewerNomination s t \<longleftrightarrow>
    set (nomVotes s) \<subseteq> set (nomVotes t) \<and> set (nomAccepted s) \<subseteq> set (nomAccepted t) \<and>
    (set (nomVotes s) \<noteq> set (nomVotes t) \<or> set (nomAccepted s) \<noteq> set (nomAccepted t))"
  using isNewerNomination_eq [OF assms] by auto

theorem isNewerNomination_correct_witness:
  "isNewerNomination \<lparr>nodeID = 1, slotIndex = 1, pledges = Nominate 7 [[1]] []\<rparr>
     \<lparr>nodeID = 1, slotIndex = 1, pledges = Nominate 7 [[1], [2]] []\<rparr>"
  by (subst isNewerNomination_correct) (auto simp: isSane_def nomVotes.simps nomAccepted.simps)

text \<open>C7. The ballot protocol ends: from every reachable slot, processing any statement, starting or bumping a
  ballot and abandoning a ballot end, with a result or an exception of the code, within a fuel that
  covers the fifty levels of recursion and \<open>2 ^ 33\<close> rounds of the catch-up loop.\<close>

theorem ballot_protocol_ends:
  assumes "slot_run (Slot_new i ln) s" "enoughFuel < k"
  shows "processEnvelope k D e self s \<noteq> Inl OutOfFuel \<and> slotBumpState k D v force s \<noteq> Inl OutOfFuel \<and>
    slotAbandonBallot k D s \<noteq> Inl OutOfFuel"
proof -
  have ok: "slot_ok s" using slot_run_ok [OF assms(1) slot_ok_new] by blast
  have "nomGrows (Slot_new i ln) s"
    using slot_run_grows [OF assms(1)] nom_ok_new unfolding nom_step_def by blast
  then have l: "level s = 0" by (simp add: nomGrows_def Slot_new_def BallotProtocol_new_def)
  note bump = bumpStateN_outermost [OF ok l assms(2)]
  show ?thesis
    using processEnvelope_outermost [OF ok l assms(2)] bump
    by (auto simp: slotBumpState_def slotAbandonBallot_def abandonBallot_def bumpState_def Let_def
        split: if_splits)
qed

theorem ballot_protocol_ends_witness:
  "processEnvelope (Suc enoughFuel) exampleDriver exampleExternalize False (Slot_new 1 (exampleNode 1)) \<noteq>
     Inl OutOfFuel"
  using ballot_protocol_ends [OF slot_run_refl, of "Suc enoughFuel"] by simp

end
