(* ===== verification/SCP_Properties.thy ===== *)
theory SCP_Properties
  imports Nomination_Invariant
begin

text \<open>
  The map of slots of a node (\<open>SCP.cpp\<close>): every slot is filed under its index, shares the local
  node and is well formed; calls touch the slot they name only; purging removes exactly the old
  slots.
\<close>

definition scp_ok :: "SCP \<Rightarrow> bool" where
  "scp_ok scp \<longleftrightarrow> map_sorted (mKnownSlots scp) \<and>
     (\<forall>i s. map_of (mKnownSlots scp) i = Some s \<longrightarrow>
        mSlotIndex s = i \<and> localNode s = mLocalNode scp \<and> slot_ok s \<and> nom_ok s)"

text \<open>The slot a call works on: the known one, or a fresh one.\<close>

definition slotAt :: "uint64 \<Rightarrow> SCP \<Rightarrow> Slot" where
  "slotAt i scp = (case map_of (mKnownSlots scp) i of Some s \<Rightarrow> s | None \<Rightarrow> Slot_new i (mLocalNode scp))"

lemma slotAt_ok:
  "scp_ok scp \<Longrightarrow> mSlotIndex (slotAt i scp) = i \<and> localNode (slotAt i scp) = mLocalNode scp \<and>
     slot_ok (slotAt i scp) \<and> nom_ok (slotAt i scp)"
proof (cases "map_of (mKnownSlots scp) i")
  case None
  have "mSlotIndex (Slot_new i l) = i" "localNode (Slot_new i l) = l" for l by (simp_all add: Slot_new_def)
  with None show ?thesis by (simp add: slotAt_def slot_ok_new nom_ok_new)
qed (simp add: slotAt_def scp_ok_def)

lemma map_insert_twice: "map_insert k v (map_insert k w m) = map_insert k v m"
  by (induction m) auto

lemma onSlot_eq:
  "onSlot i f scp = bindE (f (slotAt i scp)) (\<lambda>(r, s). Inr (r, setSlot i s scp))"
  by (auto simp: onSlot_def getSlot_def slotAt_def setSlot_def Let_def map_insert_twice
      split: option.splits)

lemma scp_ok_setSlot:
  assumes "scp_ok scp" "mSlotIndex s = i" "localNode s = mLocalNode scp" "slot_ok s" "nom_ok s"
  shows "scp_ok (setSlot i s scp)"
  using assms by (auto simp: scp_ok_def setSlot_def omap_simps)

text \<open>What a slot operation keeps of its slot.\<close>

lemma slot_op_keeps:
  assumes "slot_op D s t" "slot_ok s" "nom_ok s"
  shows "mSlotIndex t = mSlotIndex s \<and> localNode t = localNode s \<and> slot_ok t \<and> nom_ok t"
  using slot_op_stable [OF assms(1,2)] slot_op_ok [OF assms(1,2)] slot_op_grows [OF assms(1)] assms(3)
  by (auto simp: stable_def nom_step_def)

lemma onSlot_ok:
  assumes ok: "scp_ok scp" and run: "onSlot i f scp = Inr (r, scp')"
    and op: "\<And>s r t. f s = Inr (r, t) \<Longrightarrow> slot_op D s t"
  shows "scp_ok scp' \<and> mLocalNode scp' = mLocalNode scp \<and>
    map_of (mKnownSlots scp') i \<noteq> None \<and> slot_op D (slotAt i scp) (slotAt i scp') \<and>
    (\<forall>j. j \<noteq> i \<longrightarrow> map_of (mKnownSlots scp') j = map_of (mKnownSlots scp) j)"
proof -
  from run obtain t where t: "f (slotAt i scp) = Inr (r, t)" and scp': "scp' = setSlot i t scp"
    by (auto simp: onSlot_eq bindE_Inr)
  note at = slotAt_ok [OF ok, of i]
  have "mSlotIndex t = i" "localNode t = mLocalNode scp" "slot_ok t" "nom_ok t"
    using slot_op_keeps [OF op [OF t]] at by auto
  with ok have "scp_ok scp'" unfolding scp' by (intro scp_ok_setSlot) auto
  moreover have "slotAt i scp' = t" by (simp add: scp' slotAt_def setSlot_def omap_simps)
  ultimately show ?thesis using op [OF t] by (auto simp: scp' setSlot_def omap_simps)
qed

lemma receiveEnvelope_local:
  assumes "scp_ok scp" "receiveEnvelope k D e scp = Inr (r, scp')"
  shows "scp_ok scp' \<and> mLocalNode scp' = mLocalNode scp \<and>
    map_of (mKnownSlots scp') (slotIndex (statement e)) \<noteq> None \<and>
    slot_op D (slotAt (slotIndex (statement e)) scp) (slotAt (slotIndex (statement e)) scp') \<and>
    (\<forall>j. j \<noteq> slotIndex (statement e) \<longrightarrow>
       map_of (mKnownSlots scp') j = map_of (mKnownSlots scp) j)"
  using assms unfolding receiveEnvelope_def by (rule onSlot_ok) (auto intro: slot_op.receive)

text \<open>Calls of a node, apart from restoring state at start-up.\<close>

inductive scp_op :: "SCPDriver \<Rightarrow> SCP \<Rightarrow> SCP \<Rightarrow> bool" where
  receives: "receiveEnvelope k D e scp = Inr (r, scp') \<Longrightarrow> scp_op D scp scp'"
| nominates: "scpNominate k D i v prev scp = Inr (w, scp') \<Longrightarrow> scp_op D scp scp'"
| stops: "scp_op D scp (scpStopNomination i scp)"
| purges: "scp_op D scp (purgeSlots m scp)"
| updates: "scp_op D scp (updateLocalQuorumSet hash q scp)"

lemma purgeLoop_filter: "purgeLoop m xs = filter (\<lambda>(i, s). m \<le> i) xs"
  by (induction m xs rule: purgeLoop.induct) auto

lemma map_of_purgeLoop: "map_of (purgeLoop m xs) i = (if i < m then None else map_of xs i)"
  by (induction m xs rule: purgeLoop.induct) auto

lemma map_sorted_filter: "map_sorted m \<Longrightarrow> map_sorted (filter P m)"
  by (induction m) (auto simp: map_sorted_def)

lemma purgeSlots_ok: "scp_ok scp \<Longrightarrow> scp_ok (purgeSlots m scp)"
  by (auto simp: scp_ok_def purgeSlots_def map_of_purgeLoop purgeLoop_filter [symmetric] split: if_splits)
    (simp add: purgeLoop_filter map_sorted_filter)

lemma stopNomination_ok: "slot_ok s \<Longrightarrow> nom_ok s \<Longrightarrow> slot_ok (stopNomination s) \<and> nom_ok (stopNomination s)"
  using slot_ok_core [OF _ core_stopNomination] nom_step_frame [OF frame_stopNomination]
  by (auto simp: nom_step_def)

lemma scpStopNomination_ok: "scp_ok scp \<Longrightarrow> scp_ok (scpStopNomination i scp)"
proof (cases "map_of (mKnownSlots scp) i")
  case (Some s)
  assume ok: "scp_ok scp"
  with Some have "mSlotIndex s = i" "localNode s = mLocalNode scp" "slot_ok s" "nom_ok s"
    by (auto simp: scp_ok_def)
  with ok Some stopNomination_ok [of s] show ?thesis
    by (auto simp: scpStopNomination_def getSlot_def stopNomination_def intro!: scp_ok_setSlot)
qed (simp add: scpStopNomination_def getSlot_def)

lemma slot_ok_localNode: "slot_ok s \<Longrightarrow> slot_ok (s\<lparr>localNode := ln\<rparr>)"
  by (auto simp: slot_ok_def recordedSane_def intro: ballot_inv_vars [of "s\<lparr>localNode := ln\<rparr>" s])

lemma nom_ok_localNode: "nom_ok s \<Longrightarrow> nom_ok (s\<lparr>localNode := ln\<rparr>)"
  by (simp add: nom_ok_def)

lemma map_of_map_value: "map_of (map (\<lambda>(i, s). (i, f s)) m) i = map_option f (map_of m i)"
  by (induction m) auto

lemma map_sorted_value: "map_sorted (map (\<lambda>(i, s). (i, f s)) m) = map_sorted m"
proof -
  have "map fst (map (\<lambda>(i, s). (i, f s)) m) = map fst m" by (induction m) auto
  then show ?thesis by (simp only: map_sorted_def)
qed

lemma updateLocalQuorumSet_ok: "scp_ok scp \<Longrightarrow> scp_ok (updateLocalQuorumSet hash q scp)"
  by (auto simp: scp_ok_def updateLocalQuorumSet_def Let_def map_of_map_value slot_ok_localNode
      nom_ok_localNode map_sorted_value)

lemma scp_op_ok:
  assumes "scp_op D scp scp'" "scp_ok scp"
  shows "scp_ok scp'"
  using assms
proof cases
  case (receives k e r)
  then show ?thesis using receiveEnvelope_local [OF assms(2)] by blast
next
  case (nominates k i v prev w)
  then have "onSlot i (slotNominate k D v prev False) scp = Inr (w, scp')"
    by (simp add: scpNominate_def bindE_Inr)
  then have "scp_ok scp' \<and> mLocalNode scp' = mLocalNode scp \<and>
    map_of (mKnownSlots scp') i \<noteq> None \<and> slot_op D (slotAt i scp) (slotAt i scp') \<and>
    (\<forall>j. j \<noteq> i \<longrightarrow> map_of (mKnownSlots scp') j = map_of (mKnownSlots scp) j)"
    using assms(2) by (intro onSlot_ok) (auto intro: slot_op.nominates)
  then show ?thesis by blast
qed (simp_all add: assms(2) scpStopNomination_ok purgeSlots_ok updateLocalQuorumSet_ok)

definition scp_run :: "SCP \<Rightarrow> SCP \<Rightarrow> bool" where
  "scp_run = (\<lambda>s t. \<exists>D. scp_op D s t)\<^sup>*\<^sup>*"

lemma scp_run_ok: "scp_run scp scp' \<Longrightarrow> scp_ok scp \<Longrightarrow> scp_ok scp'"
  unfolding scp_run_def by (induction rule: rtranclp_induct) (auto intro: scp_op_ok)

lemma scp_ok_new: "scp_ok (SCP_new hash n v q)"
  by (simp add: scp_ok_def SCP_new_def)

subsection \<open>Properties\<close>

definition exampleSCP :: SCP where
  "exampleSCP = SCP_new (\<lambda>q. 7) 1 True exampleQSet"

lemma exampleSCP_receives:
  "\<exists>r scp s. receiveEnvelope 60 exampleDriver exampleExternalize exampleSCP = Inr (r, scp) \<and>
     map_of (mKnownSlots scp) 1 = Some s"
proof -
  have "case receiveEnvelope 60 exampleDriver exampleExternalize exampleSCP of
      Inl e \<Rightarrow> False | Inr (r, scp) \<Rightarrow> map_of (mKnownSlots scp) 1 \<noteq> None"
    by code_simp
  then show ?thesis by (auto split: sum.splits)
qed



text \<open>An envelope only affects the slot it names: the slot is created if needed and processes the
  envelope, every other slot is left as it was, and the map stays well formed.\<close>

theorem receiveEnvelope_isolated:
  assumes "scp_run (SCP_new hash n v q) scp" "receiveEnvelope k D e scp = Inr (r, scp')"
    and "i = slotIndex (statement e)"
  shows "slotProcessEnvelope k D e False (slotAt i scp) = Inr (r, slotAt i scp') \<and>
    map_of (mKnownSlots scp') i = Some (slotAt i scp') \<and> scp_ok scp' \<and>
    (\<forall>j. j \<noteq> i \<longrightarrow> map_of (mKnownSlots scp') j = map_of (mKnownSlots scp) j)"
proof -
  have ok: "scp_ok scp" using scp_run_ok [OF assms(1) scp_ok_new] .
  from assms(2,3) obtain t where t: "slotProcessEnvelope k D e False (slotAt i scp) = Inr (r, t)"
    and scp': "scp' = setSlot i t scp"
    by (auto simp: receiveEnvelope_def onSlot_eq bindE_Inr)
  have "map_of (mKnownSlots scp') i = Some t" by (simp add: scp' setSlot_def omap_simps)
  moreover from this have "slotAt i scp' = t" by (simp add: slotAt_def)
  ultimately show ?thesis using t receiveEnvelope_local [OF ok assms(2)] assms(3) by auto
qed

theorem receiveEnvelope_isolated_witness:
  "\<exists>r scp. receiveEnvelope 60 exampleDriver exampleExternalize exampleSCP = Inr (r, scp) \<and>
     map_of (mKnownSlots scp) 2 = None"
proof -
  obtain r scp where r: "receiveEnvelope 60 exampleDriver exampleExternalize exampleSCP = Inr (r, scp)"
    using exampleSCP_receives by blast
  have "scp_run exampleSCP exampleSCP" by (simp add: scp_run_def)
  from receiveEnvelope_isolated [OF this [unfolded exampleSCP_def] r [unfolded exampleSCP_def] refl]
  have "map_of (mKnownSlots scp) 2 = map_of (mKnownSlots exampleSCP) 2"
    by (simp add: exampleSCP_def exampleExternalize_def exampleEnvelope_def)
  with r show ?thesis by (simp add: exampleSCP_def SCP_new_def)
qed

text \<open>Purging removes exactly the slots below the given index, and keeps the others as they are.\<close>

theorem purgeSlots_exact:
  "map_of (mKnownSlots (purgeSlots m scp)) i =
     (if i < m then None else map_of (mKnownSlots scp) i) \<and>
   mLocalNode (purgeSlots m scp) = mLocalNode scp"
  by (simp add: purgeSlots_def map_of_purgeLoop)

lemma sorted_hd_last:
  assumes "sorted_wrt (<) (xs :: 'a::linorder list)" "x \<in> set xs"
  shows "hd xs \<le> x \<and> x \<le> last xs"
  using assms
proof (induction xs)
  case (Cons y ys)
  then show ?case by (cases ys) (auto intro: less_imp_le order_trans)
qed simp

text \<open>The reported range of slots is exact: with no slot known both queries fail their assertion,
  otherwise they return the smallest and the largest known index.\<close>

theorem slot_range_exact:
  assumes "scp_run (SCP_new hash n v q) scp"
  shows "if mKnownSlots scp = []
    then getLowSlotIndex scp = Inl AssertFailed \<and> getHighSlotIndex scp = Inl AssertFailed
    else \<exists>lo hi. getLowSlotIndex scp = Inr lo \<and> getHighSlotIndex scp = Inr hi \<and>
      map_of (mKnownSlots scp) lo \<noteq> None \<and> map_of (mKnownSlots scp) hi \<noteq> None \<and>
      (\<forall>i. map_of (mKnownSlots scp) i \<noteq> None \<longrightarrow> lo \<le> i \<and> i \<le> hi)"
proof (cases "mKnownSlots scp = []")
  case False
  let ?k = "map fst (mKnownSlots scp)"
  have srt: "sorted_wrt (<) ?k" using scp_run_ok [OF assms scp_ok_new] by (simp add: scp_ok_def map_sorted_def)
  have "hd ?k \<in> set ?k" "last ?k \<in> set ?k" using False by (auto intro!: hd_in_set last_in_set simp del: set_map)
  moreover have "hd ?k = fst (hd (mKnownSlots scp))" "last ?k = fst (last (mKnownSlots scp))"
    using False by (simp_all add: hd_map last_map)
  ultimately show ?thesis
    using False sorted_hd_last [OF srt]
    by (auto simp: getLowSlotIndex_def getHighSlotIndex_def scpEmpty_def assertE_def map_of_eq_None_iff)
qed (simp add: getLowSlotIndex_def getHighSlotIndex_def scpEmpty_def assertE_def)

theorem slot_range_exact_witness:
  "\<exists>scp lo. mKnownSlots scp \<noteq> [] \<and> getLowSlotIndex scp = Inr lo"
proof -
  obtain r scp s where r: "receiveEnvelope 60 exampleDriver exampleExternalize exampleSCP = Inr (r, scp)"
    and "map_of (mKnownSlots scp) 1 = Some s"
    using exampleSCP_receives by blast
  then have "mKnownSlots scp \<noteq> []" by auto
  moreover have "scp_run exampleSCP scp" using r unfolding scp_run_def using scp_op.receives by blast
  ultimately show ?thesis using slot_range_exact [of "\<lambda>q. 7" 1 True exampleQSet scp]
    by (auto simp: exampleSCP_def)
qed

end
