(* ===== verification/Offer_Exchange.thy ===== *)
theory Offer_Exchange
  imports Numeric_Properties
begin

text \<open>
  The exchange of two assets at the price of an offer, \<open>src/src/transactions/OfferExchange.cpp\<close>:
  the three generations of the exchange function, the bound on the price error, and the adjustment
  of an offer to what its owner can deliver and receive. The seller of the offer gives wheat and
  receives sheep. Amounts are 64-bit words read with \<open>sint\<close>, prices fractions of signed 32-bit
  words, products 128-bit numbers; assertions and exceptions are values of \<open>ledger_error\<close>.
  The error \<open>EarlierProtocol\<close> marks the branches of protocol versions that the model leaves out.
\<close>

type_synonym int32 = "32 word"

datatype ledger_error =
    NumericFailure numeric_error
  | RuntimeError string
  | AssertFailure
  | WrongUnion
  | EarlierProtocol
  | InvariantDoesNotHold string

definition numericE :: "numeric_error + 'a \<Rightarrow> ledger_error + 'a" where
  "numericE m = (case m of Inl e \<Rightarrow> Inl (NumericFailure e) | Inr a \<Rightarrow> Inr a)"

definition throwIf :: "bool \<Rightarrow> string \<Rightarrow> ledger_error + unit" where
  "throwIf c msg = (if c then Inl (RuntimeError msg) else Inr ())"

record Price =
  priceN :: int32
  priceD :: int32

text \<open>\<open>std::min\<close> on signed 64-bit integers and the implicit widening of the price's components.\<close>

definition min64 :: "int64 \<Rightarrow> int64 \<Rightarrow> int64" where
  "min64 a b = (if sint b < sint a then b else a)"

definition pN :: "Price \<Rightarrow> int64" where
  "pN p = scast (priceN p)"

definition pD :: "Price \<Rightarrow> int64" where
  "pD p = scast (priceD p)"

datatype ExchangeResultType = NORMAL | REDUCED_TO_ZERO | BOGUS

record ExchangeResult =
  numWheatReceived :: int64
  numSheepSend :: int64
  reduced :: bool

definition exchangeResultType :: "ExchangeResult \<Rightarrow> ExchangeResultType" where
  "exchangeResultType r =
     (if numWheatReceived r \<noteq> 0 \<and> numSheepSend r \<noteq> 0 then NORMAL
      else if reduced r then REDUCED_TO_ZERO else BOGUS)"

record ExchangeResultV10 =
  wheatReceived10 :: int64
  sheepSend10 :: int64
  wheatStays :: bool

subsection \<open>Before protocol version 10\<close>

definition exchangeV2 :: "int64 \<Rightarrow> Price \<Rightarrow> int64 \<Rightarrow> int64 \<Rightarrow> ledger_error + ExchangeResult" where
  "exchangeV2 wheatReceived price maxWheatReceive maxSheepSend =
     (let red = (sint maxWheatReceive < sint wheatReceived);
          wheat = min64 wheatReceived maxWheatReceive
      in bindE (numericE (bigDivide_s64 0 wheat (pN price) (pD price) ROUND_DOWN)) (\<lambda>(ok, q).
         (let sheep0 = (if ok then q else INT64_MAX);
              sheep = min64 sheep0 maxSheepSend
          in bindE (numericE (bigDivide sheep (pD price) (pN price) ROUND_DOWN)) (\<lambda>w.
             Inr \<lparr>numWheatReceived = w, numSheepSend = sheep,
                  reduced = (red \<or> sint maxSheepSend < sint sheep0)\<rparr>))))"

definition exchangeV3 :: "int64 \<Rightarrow> Price \<Rightarrow> int64 \<Rightarrow> int64 \<Rightarrow> ledger_error + ExchangeResult" where
  "exchangeV3 wheatReceived price maxWheatReceive maxSheepSend =
     (let red = (sint maxWheatReceive < sint wheatReceived);
          wheat = min64 wheatReceived maxWheatReceive
      in bindE (numericE (bigDivide_s64 0 wheat (pN price) (pD price) ROUND_UP)) (\<lambda>(ok, q).
         (let sheep0 = (if ok then q else INT64_MAX);
              sheep = min64 sheep0 maxSheepSend
          in bindE (numericE (bigDivide_s64 0 sheep (pD price) (pN price) ROUND_DOWN)) (\<lambda>(ok', q').
             Inr \<lparr>numWheatReceived = min64 wheat (if ok' then q' else INT64_MAX), numSheepSend = sheep,
                  reduced = (red \<or> \<not> ok \<or> sint maxSheepSend < sint sheep0)\<rparr>))))"

subsection \<open>From protocol version 10\<close>

definition checkPriceErrorBound :: "Price \<Rightarrow> int64 \<Rightarrow> int64 \<Rightarrow> bool \<Rightarrow> ledger_error + bool" where
  "checkPriceErrorBound price wheatReceive sheepSend canFavorWheat =
     (let errN = 100 * pN price; errD = 100 * pD price
      in bindE (numericE (bigMultiply errN wheatReceive)) (\<lambda>lhs.
         bindE (numericE (bigMultiply errD sheepSend)) (\<lambda>rhs.
         if canFavorWheat \<and> u128_gt rhs lhs then Inr True
         else
           (let absDiff = (if u128_gt lhs rhs then u128_sub lhs rhs else u128_sub rhs lhs)
            in bindE (numericE (bigMultiply (pN price) wheatReceive)) (\<lambda>cap.
               Inr (u128_le absDiff cap))))))"

definition calculateOfferValue ::
  "int32 \<Rightarrow> int32 \<Rightarrow> int64 \<Rightarrow> int64 \<Rightarrow> ledger_error + uint128_t" where
  "calculateOfferValue num den maxSend maxReceive =
     bindE (numericE (bigMultiply maxSend (scast num))) (\<lambda>sendValue.
     bindE (numericE (bigMultiply maxReceive (scast den))) (\<lambda>receiveValue.
     Inr (if u128_lt receiveValue sendValue then receiveValue else sendValue)))"

text \<open>The two amounts: what the offer that does not stay is worth, divided by the price of the more
  valuable asset first.\<close>

definition exchangeAmounts ::
  "Price \<Rightarrow> bool \<Rightarrow> bool \<Rightarrow> uint128_t \<Rightarrow> uint128_t \<Rightarrow> ledger_error + int64 \<times> int64" where
  "exchangeAmounts price stays isPathPayment wheatValue sheepValue =
     (if stays
      then
        (if sint (pD price) < sint (pN price) \<or> isPathPayment
         then bindE (numericE (bigDivide128 sheepValue (pN price) ROUND_DOWN)) (\<lambda>wheatReceive.
              bindE (numericE (bigDivide wheatReceive (pN price) (pD price) ROUND_UP)) (\<lambda>sheepSend.
              Inr (wheatReceive, sheepSend)))
         else bindE (numericE (bigDivide128 sheepValue (pD price) ROUND_DOWN)) (\<lambda>sheepSend.
              bindE (numericE (bigDivide sheepSend (pD price) (pN price) ROUND_DOWN)) (\<lambda>wheatReceive.
              Inr (wheatReceive, sheepSend))))
      else
        (if sint (pD price) < sint (pN price)
         then bindE (numericE (bigDivide128 wheatValue (pN price) ROUND_DOWN)) (\<lambda>wheatReceive.
              bindE (numericE (bigDivide wheatReceive (pN price) (pD price) ROUND_DOWN)) (\<lambda>sheepSend.
              Inr (wheatReceive, sheepSend)))
         else bindE (numericE (bigDivide128 wheatValue (pD price) ROUND_DOWN)) (\<lambda>sheepSend.
              bindE (numericE (bigDivide sheepSend (pD price) (pN price) ROUND_UP)) (\<lambda>wheatReceive.
              Inr (wheatReceive, sheepSend)))))"

definition exchangeV10WithoutPriceErrorThresholds ::
  "Price \<Rightarrow> int64 \<Rightarrow> int64 \<Rightarrow> int64 \<Rightarrow> int64 \<Rightarrow> bool \<Rightarrow> ledger_error + ExchangeResultV10" where
  "exchangeV10WithoutPriceErrorThresholds price maxWheatSend maxWheatReceive maxSheepSend
     maxSheepReceive isPathPayment =
     bindE (calculateOfferValue (priceN price) (priceD price) maxWheatSend maxSheepReceive) (\<lambda>wheatValue.
     bindE (calculateOfferValue (priceD price) (priceN price) maxSheepSend maxWheatReceive) (\<lambda>sheepValue.
     (let stays = u128_gt wheatValue sheepValue
      in bindE (exchangeAmounts price stays isPathPayment wheatValue sheepValue)
           (\<lambda>(wheatReceive, sheepSend).
         bindE (throwIf (sint wheatReceive < 0 \<or>
                  sint (min64 maxWheatReceive maxWheatSend) < sint wheatReceive)
                  ''wheatReceive out of bounds'') (\<lambda>_.
         bindE (throwIf (sint sheepSend < 0 \<or>
                  sint (min64 maxSheepReceive maxSheepSend) < sint sheepSend)
                  ''sheepSend out of bounds'') (\<lambda>_.
         Inr \<lparr>wheatReceived10 = wheatReceive, sheepSend10 = sheepSend, wheatStays = stays\<rparr>))))))"

definition applyPriceErrorThresholds ::
  "Price \<Rightarrow> int64 \<Rightarrow> int64 \<Rightarrow> bool \<Rightarrow> bool \<Rightarrow> ledger_error + ExchangeResultV10" where
  "applyPriceErrorThresholds price wheatReceive sheepSend stays isPathPayment =
     (if 0 < sint wheatReceive \<and> 0 < sint sheepSend
      then
        bindE (numericE (bigMultiply wheatReceive (pN price))) (\<lambda>wheatReceiveValue.
        bindE (numericE (bigMultiply sheepSend (pD price))) (\<lambda>sheepSendValue.
        bindE (throwIf (stays \<and> u128_lt sheepSendValue wheatReceiveValue)
                 ''favored sheep when wheat stays'') (\<lambda>_.
        bindE (throwIf (\<not> stays \<and> u128_gt sheepSendValue wheatReceiveValue)
                 ''favored wheat when sheep stays'') (\<lambda>_.
        bindE (checkPriceErrorBound price wheatReceive sheepSend isPathPayment) (\<lambda>ok.
        if ok
        then Inr \<lparr>wheatReceived10 = wheatReceive, sheepSend10 = sheepSend, wheatStays = stays\<rparr>
        else if isPathPayment then Inl (RuntimeError ''exceeded price error bound'')
        else Inr \<lparr>wheatReceived10 = 0, sheepSend10 = 0, wheatStays = stays\<rparr>)))))
      else Inr \<lparr>wheatReceived10 = 0, sheepSend10 = 0, wheatStays = stays\<rparr>)"

definition exchangeV10 ::
  "Price \<Rightarrow> int64 \<Rightarrow> int64 \<Rightarrow> int64 \<Rightarrow> int64 \<Rightarrow> bool \<Rightarrow> ledger_error + ExchangeResultV10" where
  "exchangeV10 price maxWheatSend maxWheatReceive maxSheepSend maxSheepReceive isPathPayment =
     bindE (exchangeV10WithoutPriceErrorThresholds price maxWheatSend maxWheatReceive maxSheepSend
              maxSheepReceive isPathPayment) (\<lambda>r.
     applyPriceErrorThresholds price (wheatReceived10 r) (sheepSend10 r) (wheatStays r) isPathPayment)"

definition adjustOffer :: "Price \<Rightarrow> int64 \<Rightarrow> int64 \<Rightarrow> ledger_error + int64" where
  "adjustOffer price maxWheatSend maxSheepReceive =
     bindE (exchangeV10 price maxWheatSend INT64_MAX INT64_MAX maxSheepReceive False) (\<lambda>res.
     Inr (wheatReceived10 res))"

end
