(* ===== verification/Ledger_Types.thy ===== *)
theory Ledger_Types
  imports Offer_Exchange
begin

text \<open>
  The ledger entries of \<open>src/src/xdr/vii-ledger-entries.x\<close>, the ledger header of \<open>vii-ledger.x\<close> with the
  fields the modelled code reads, and the operations of \<open>src/src/util/types.cpp\<close> on them. A union
  is a datatype, the extension union of an entry an option, and reading the wrong arm of a union is the
  error \<open>WrongUnion\<close> that the generated accessors raise.
\<close>

type_synonym AccountID = "256 word"

datatype Asset =
    ASSET_TYPE_NATIVE
  | ASSET_TYPE_CREDIT_ALPHANUM4 "uint8 list" AccountID
  | ASSET_TYPE_CREDIT_ALPHANUM12 "uint8 list" AccountID

record Liabilities =
  buyingLiab :: int64
  sellingLiab :: int64

datatype SignerKey =
    SIGNER_KEY_TYPE_ED25519 "256 word"
  | SIGNER_KEY_TYPE_PRE_AUTH_TX "256 word"
  | SIGNER_KEY_TYPE_HASH_X "256 word"

record AccountEntry =
  accountID :: AccountID
  accBalance :: int64
  seqNum :: int64
  numSubEntries :: uint32
  inflationDest :: "AccountID option"
  accFlags :: uint32
  homeDomain :: "uint8 list"
  thresholds :: "uint8 list"
  signers :: "(SignerKey \<times> uint32) list"
  accExt :: "Liabilities option"

record TrustLineEntry =
  tlAccountID :: AccountID
  tlAsset :: Asset
  tlBalance :: int64
  tlLimit :: int64
  tlFlags :: uint32
  tlExt :: "Liabilities option"

record OfferEntry =
  sellerID :: AccountID
  offerID :: int64
  selling :: Asset
  buying :: Asset
  amount :: int64
  price :: Price
  offerFlags :: uint32

record DataEntry =
  dataAccountID :: AccountID
  dataName :: "uint8 list"
  dataValue :: "uint8 list"

datatype EntryData =
    ACCOUNT AccountEntry
  | TRUSTLINE TrustLineEntry
  | OFFER OfferEntry
  | DATA DataEntry

record LedgerEntry =
  lastModifiedLedgerSeq :: uint32
  entryData :: EntryData

datatype LedgerKey =
    AccountKey AccountID
  | TrustLineKey AccountID Asset
  | OfferKey AccountID int64
  | DataKey AccountID "uint8 list"

record LedgerHeader =
  ledgerVersion :: uint32
  closeTime :: uint64
  ledgerSeq :: uint32
  totalCoins :: int64
  feePool :: int64
  idPool :: uint64
  baseFee :: uint32
  baseReserve :: uint32
  maxTxSetSize :: uint32

subsection \<open>Operations of types.cpp\<close>

definition LedgerEntryKey :: "LedgerEntry \<Rightarrow> LedgerKey" where
  "LedgerEntryKey e =
     (case entryData e of
        ACCOUNT a \<Rightarrow> AccountKey (accountID a)
      | TRUSTLINE t \<Rightarrow> TrustLineKey (tlAccountID t) (tlAsset t)
      | OFFER oe \<Rightarrow> OfferKey (sellerID oe) (offerID oe)
      | DATA d \<Rightarrow> DataKey (dataAccountID d) (dataName d))"

definition isalnum :: "uint8 \<Rightarrow> bool" where
  "isalnum b \<longleftrightarrow> 48 \<le> b \<and> b \<le> 57 \<or> 65 \<le> b \<and> b \<le> 90 \<or> 97 \<le> b \<and> b \<le> 122"

text \<open>The loop over the bytes of an asset code: the number of characters, or nothing if it returns early.\<close>

fun assetCodeLoop :: "uint8 list \<Rightarrow> bool \<Rightarrow> nat \<Rightarrow> nat option" where
  "assetCodeLoop [] zeros charcount = Some charcount"
| "assetCodeLoop (b # bs) zeros charcount =
     (if b = 0 then assetCodeLoop bs True charcount
      else if zeros then None
      else if b > 0x7F \<or> \<not> isalnum b then None
      else assetCodeLoop bs zeros (charcount + 1))"

definition isAssetValid :: "Asset \<Rightarrow> bool" where
  "isAssetValid cur =
     (case cur of
        ASSET_TYPE_NATIVE \<Rightarrow> True
      | ASSET_TYPE_CREDIT_ALPHANUM4 code issuer \<Rightarrow>
          (case assetCodeLoop code False 0 of None \<Rightarrow> False | Some c \<Rightarrow> c > 0)
      | ASSET_TYPE_CREDIT_ALPHANUM12 code issuer \<Rightarrow>
          (case assetCodeLoop code False 0 of None \<Rightarrow> False | Some c \<Rightarrow> c > 4))"

definition getIssuer :: "Asset \<Rightarrow> ledger_error + AccountID" where
  "getIssuer a =
     (case a of
        ASSET_TYPE_NATIVE \<Rightarrow> Inl WrongUnion
      | ASSET_TYPE_CREDIT_ALPHANUM4 code issuer \<Rightarrow> Inr issuer
      | ASSET_TYPE_CREDIT_ALPHANUM12 code issuer \<Rightarrow> Inr issuer)"

definition unsignedToSigned32 :: "uint32 \<Rightarrow> ledger_error + int" where
  "unsignedToSigned32 v =
     (if v > 0x7FFFFFFF then Inl (RuntimeError ''unsigned-to-signed overflow'') else Inr (sint v))"

definition addBalance64 :: "int64 \<Rightarrow> int64 \<Rightarrow> int64 \<Rightarrow> ledger_error + bool \<times> int64" where
  "addBalance64 bal delta maxBalance =
     bindE (assertE AssertFailure (sint bal \<ge> 0)) (\<lambda>_.
     bindE (assertE AssertFailure (sint maxBalance \<ge> 0)) (\<lambda>_.
     if delta = 0 then Inr (True, bal)
     else if sint delta < sint (- bal) then Inr (False, bal)
     else if sint (maxBalance - bal) < sint delta then Inr (False, bal)
     else Inr (True, bal + delta)))"

definition price_ge :: "Price \<Rightarrow> Price \<Rightarrow> bool" where
  "price_ge a b =
     u128_ge (u128_mul (u128_of64 (pN a)) (u128_of64 (pD b)))
             (u128_mul (u128_of64 (pD a)) (u128_of64 (pN b)))"

definition price_gt :: "Price \<Rightarrow> Price \<Rightarrow> bool" where
  "price_gt a b =
     u128_gt (u128_mul (u128_of64 (pN a)) (u128_of64 (pD b)))
             (u128_mul (u128_of64 (pD a)) (u128_of64 (pN b)))"

end
