(* ===== verification/Ledger_Balance.thy ===== *)
theory Ledger_Balance
  imports Ledger_Types
begin

text \<open>
  Balances and liabilities of accounts and trust lines, \<open>src/src/transactions/TransactionUtils.cpp\<close>, and the
  wrapper of \<open>src/src/ledger/TrustLineWrapper.cpp\<close> that treats the issuer of an asset as having an
  unlimited line. A function that changes an entry returns it; on the early returns the entry is unchanged.
\<close>

definition getMinBalance :: "LedgerHeader \<Rightarrow> uint32 \<Rightarrow> int64" where
  "getMinBalance h ownerCount =
     (if ledgerVersion h \<le> 8 then ucast ((2 + ownerCount) * baseReserve h)
      else ucast (2 + ownerCount) * ucast (baseReserve h))"

definition extBuying :: "Liabilities option \<Rightarrow> int64" where
  "extBuying ext = (case ext of None \<Rightarrow> 0 | Some l \<Rightarrow> buyingLiab l)"

definition extSelling :: "Liabilities option \<Rightarrow> int64" where
  "extSelling ext = (case ext of None \<Rightarrow> 0 | Some l \<Rightarrow> sellingLiab l)"

definition getBuyingLiabilities :: "LedgerHeader \<Rightarrow> LedgerEntry \<Rightarrow> ledger_error + int64" where
  "getBuyingLiabilities h le =
     bindE (throwIf (ledgerVersion h < 10) ''Liabilities accessed before version 10'') (\<lambda>_.
     (case entryData le of
        ACCOUNT acc \<Rightarrow> Inr (extBuying (accExt acc))
      | TRUSTLINE line \<Rightarrow> Inr (extBuying (tlExt line))
      | _ \<Rightarrow> Inl (RuntimeError ''Unknown LedgerEntry type'')))"

definition getSellingLiabilities :: "LedgerHeader \<Rightarrow> LedgerEntry \<Rightarrow> ledger_error + int64" where
  "getSellingLiabilities h le =
     bindE (throwIf (ledgerVersion h < 10) ''Liabilities accessed before version 10'') (\<lambda>_.
     (case entryData le of
        ACCOUNT acc \<Rightarrow> Inr (extSelling (accExt acc))
      | TRUSTLINE line \<Rightarrow> Inr (extSelling (tlExt line))
      | _ \<Rightarrow> Inl (RuntimeError ''Unknown LedgerEntry type'')))"

definition isAuthorized :: "LedgerEntry \<Rightarrow> ledger_error + bool" where
  "isAuthorized le =
     (case entryData le of TRUSTLINE line \<Rightarrow> Inr (and (tlFlags line) 1 \<noteq> 0) | _ \<Rightarrow> Inl WrongUnion)"

definition isAuthRequired :: "LedgerEntry \<Rightarrow> ledger_error + bool" where
  "isAuthRequired le =
     (case entryData le of ACCOUNT acc \<Rightarrow> Inr (and (accFlags acc) 1 \<noteq> 0) | _ \<Rightarrow> Inl WrongUnion)"

definition isImmutableAuth :: "LedgerEntry \<Rightarrow> ledger_error + bool" where
  "isImmutableAuth le =
     (case entryData le of ACCOUNT acc \<Rightarrow> Inr (and (accFlags acc) 4 \<noteq> 0) | _ \<Rightarrow> Inl WrongUnion)"

definition setAuthorized :: "LedgerEntry \<Rightarrow> bool \<Rightarrow> ledger_error + LedgerEntry" where
  "setAuthorized le authorized =
     (case entryData le of
        TRUSTLINE line \<Rightarrow>
          Inr (le\<lparr>entryData := TRUSTLINE (line\<lparr>tlFlags :=
             (if authorized then or (tlFlags line) 1 else and (tlFlags line) (not 1))\<rparr>)\<rparr>)
      | _ \<Rightarrow> Inl WrongUnion)"

definition setAccBalance :: "int64 \<Rightarrow> AccountEntry \<Rightarrow> LedgerEntry \<Rightarrow> LedgerEntry" where
  "setAccBalance b acc le = le\<lparr>entryData := ACCOUNT (acc\<lparr>accBalance := b\<rparr>)\<rparr>"

definition setTlBalance :: "int64 \<Rightarrow> TrustLineEntry \<Rightarrow> LedgerEntry \<Rightarrow> LedgerEntry" where
  "setTlBalance b line le = le\<lparr>entryData := TRUSTLINE (line\<lparr>tlBalance := b\<rparr>)\<rparr>"

text \<open>The extension is created with zero liabilities when it is first needed.\<close>

definition extOrNew :: "Liabilities option \<Rightarrow> Liabilities" where
  "extOrNew ext = (case ext of None \<Rightarrow> \<lparr>buyingLiab = 0, sellingLiab = 0\<rparr> | Some l \<Rightarrow> l)"

definition addBalance :: "LedgerHeader \<Rightarrow> LedgerEntry \<Rightarrow> int64 \<Rightarrow> ledger_error + bool \<times> LedgerEntry" where
  "addBalance h le delta =
     (case entryData le of
        ACCOUNT acc \<Rightarrow>
          if delta = 0 then Inr (True, le)
          else
            bindE (addBalance64 (accBalance acc) delta INT64_MAX) (\<lambda>(added, newBalance).
            if \<not> added then Inr (False, le)
            else if 10 \<le> ledgerVersion h
            then
              bindE (getSellingLiabilities h le) (\<lambda>sell.
              if sint delta < 0 \<and> sint (newBalance - getMinBalance h (numSubEntries acc)) < sint sell
              then Inr (False, le)
              else
                bindE (getBuyingLiabilities h le) (\<lambda>buy.
                if sint (INT64_MAX - buy) < sint newBalance then Inr (False, le)
                else Inr (True, setAccBalance newBalance acc le)))
            else Inr (True, setAccBalance newBalance acc le))
      | TRUSTLINE line \<Rightarrow>
          if delta = 0 then Inr (True, le)
          else
            bindE (isAuthorized le) (\<lambda>authorized.
            if \<not> authorized then Inr (False, le)
            else
              bindE (addBalance64 (tlBalance line) delta (tlLimit line)) (\<lambda>(added, newBalance).
              if \<not> added then Inr (False, le)
              else if 10 \<le> ledgerVersion h
              then
                bindE (getSellingLiabilities h le) (\<lambda>sell.
                if sint newBalance < sint sell then Inr (False, le)
                else
                  bindE (getBuyingLiabilities h le) (\<lambda>buy.
                  if sint (tlLimit line - buy) < sint newBalance then Inr (False, le)
                  else Inr (True, setTlBalance newBalance line le)))
              else Inr (True, setTlBalance newBalance line le)))
      | _ \<Rightarrow> Inl (RuntimeError ''Unknown LedgerEntry type''))"

definition addBuyingLiabilities ::
  "LedgerHeader \<Rightarrow> LedgerEntry \<Rightarrow> int64 \<Rightarrow> ledger_error + bool \<times> LedgerEntry" where
  "addBuyingLiabilities h le delta =
     bindE (getBuyingLiabilities h le) (\<lambda>liab.
     if delta = 0 then Inr (True, le)
     else
       (case entryData le of
          ACCOUNT acc \<Rightarrow>
            bindE (addBalance64 liab delta (INT64_MAX - accBalance acc)) (\<lambda>(res, liab').
            Inr (res, if res
                      then le\<lparr>entryData := ACCOUNT (acc\<lparr>accExt := Some ((extOrNew (accExt acc))\<lparr>buyingLiab := liab'\<rparr>)\<rparr>)\<rparr>
                      else le))
        | TRUSTLINE line \<Rightarrow>
            bindE (isAuthorized le) (\<lambda>authorized.
            if \<not> authorized then Inr (False, le)
            else
              bindE (addBalance64 liab delta (tlLimit line - tlBalance line)) (\<lambda>(res, liab').
              Inr (res, if res
                        then le\<lparr>entryData := TRUSTLINE (line\<lparr>tlExt := Some ((extOrNew (tlExt line))\<lparr>buyingLiab := liab'\<rparr>)\<rparr>)\<rparr>
                        else le)))
        | _ \<Rightarrow> Inl (RuntimeError ''Unknown LedgerEntry type'')))"

definition addSellingLiabilities ::
  "LedgerHeader \<Rightarrow> LedgerEntry \<Rightarrow> int64 \<Rightarrow> ledger_error + bool \<times> LedgerEntry" where
  "addSellingLiabilities h le delta =
     bindE (getSellingLiabilities h le) (\<lambda>liab.
     if delta = 0 then Inr (True, le)
     else
       (case entryData le of
          ACCOUNT acc \<Rightarrow>
            (let maxLiabilities = accBalance acc - getMinBalance h (numSubEntries acc)
             in if sint maxLiabilities < 0 then Inr (False, le)
                else
                  bindE (addBalance64 liab delta maxLiabilities) (\<lambda>(res, liab').
                  Inr (res, if res
                            then le\<lparr>entryData := ACCOUNT (acc\<lparr>accExt := Some ((extOrNew (accExt acc))\<lparr>sellingLiab := liab'\<rparr>)\<rparr>)\<rparr>
                            else le)))
        | TRUSTLINE line \<Rightarrow>
            bindE (isAuthorized le) (\<lambda>authorized.
            if \<not> authorized then Inr (False, le)
            else
              bindE (addBalance64 liab delta (tlBalance line)) (\<lambda>(res, liab').
              Inr (res, if res
                        then le\<lparr>entryData := TRUSTLINE (line\<lparr>tlExt := Some ((extOrNew (tlExt line))\<lparr>sellingLiab := liab'\<rparr>)\<rparr>)\<rparr>
                        else le)))
        | _ \<Rightarrow> Inl (RuntimeError ''Unknown LedgerEntry type'')))"

datatype AddSubentryResult = SUBENTRY_SUCCESS | LOW_RESERVE | TOO_MANY_SUBENTRIES

definition addNumEntries ::
  "LedgerHeader \<Rightarrow> LedgerEntry \<Rightarrow> int \<Rightarrow> ledger_error + AddSubentryResult \<times> LedgerEntry" where
  "addNumEntries h le cnt =
     (case entryData le of
        ACCOUNT acc \<Rightarrow>
          bindE (unsignedToSigned32 (numSubEntries acc)) (\<lambda>old.
          (let newEntriesCount = old + cnt
           in bindE (throwIf (newEntriesCount < 0) ''invalid account state'') (\<lambda>_.
              if 11 \<le> ledgerVersion h \<and> cnt > 0 \<and> newEntriesCount > 1000
              then Inr (TOO_MANY_SUBENTRIES, le)
              else
                (let minBalance = getMinBalance h (word_of_int newEntriesCount)
                 in bindE (if 10 \<le> ledgerVersion h
                           then bindE (getSellingLiabilities h le) (\<lambda>sell. Inr (minBalance + sell))
                           else Inr minBalance) (\<lambda>effMinBalance.
                    if cnt > 0 \<and> sint (accBalance acc) < sint effMinBalance then Inr (LOW_RESERVE, le)
                    else Inr (SUBENTRY_SUCCESS,
                      le\<lparr>entryData := ACCOUNT (acc\<lparr>numSubEntries := word_of_int newEntriesCount\<rparr>)\<rparr>))))))
      | _ \<Rightarrow> Inl WrongUnion)"

definition getAvailableBalance :: "LedgerHeader \<Rightarrow> LedgerEntry \<Rightarrow> ledger_error + int64" where
  "getAvailableBalance h le =
     bindE
       (case entryData le of
          ACCOUNT acc \<Rightarrow> Inr (accBalance acc - getMinBalance h (numSubEntries acc))
        | TRUSTLINE line \<Rightarrow> Inr (tlBalance line)
        | _ \<Rightarrow> Inl (RuntimeError ''Unknown LedgerEntry type'')) (\<lambda>avail.
     if 10 \<le> ledgerVersion h
     then bindE (getSellingLiabilities h le) (\<lambda>sell. Inr (avail - sell))
     else Inr avail)"

definition getMaxAmountReceive :: "LedgerHeader \<Rightarrow> LedgerEntry \<Rightarrow> ledger_error + int64" where
  "getMaxAmountReceive h le =
     (case entryData le of
        ACCOUNT acc \<Rightarrow>
          if 10 \<le> ledgerVersion h
          then bindE (getBuyingLiabilities h le) (\<lambda>buy. Inr (INT64_MAX - (accBalance acc + buy)))
          else Inr INT64_MAX
      | TRUSTLINE line \<Rightarrow>
          bindE (isAuthorized le) (\<lambda>authorized.
          if authorized
          then
            (let amt = tlLimit line - tlBalance line
             in if 10 \<le> ledgerVersion h
                then bindE (getBuyingLiabilities h le) (\<lambda>buy. Inr (amt - buy))
                else Inr amt)
          else Inr 0)
      | _ \<Rightarrow> Inl (RuntimeError ''Unknown LedgerEntry type''))"

definition getMinimumLimit :: "LedgerHeader \<Rightarrow> LedgerEntry \<Rightarrow> ledger_error + int64" where
  "getMinimumLimit h le =
     (case entryData le of
        TRUSTLINE line \<Rightarrow>
          if 10 \<le> ledgerVersion h
          then bindE (getBuyingLiabilities h le) (\<lambda>buy. Inr (tlBalance line + buy))
          else Inr (tlBalance line)
      | _ \<Rightarrow> Inl WrongUnion)"

definition getOfferBuyingLiabilities :: "LedgerHeader \<Rightarrow> LedgerEntry \<Rightarrow> ledger_error + int64" where
  "getOfferBuyingLiabilities h le =
     bindE (throwIf (ledgerVersion h < 10) ''Offer liabilities calculated before version 10'') (\<lambda>_.
     (case entryData le of
        OFFER oe \<Rightarrow>
          bindE (exchangeV10WithoutPriceErrorThresholds (price oe) (amount oe) INT64_MAX INT64_MAX INT64_MAX False)
            (\<lambda>res. Inr (sheepSend10 res))
      | _ \<Rightarrow> Inl WrongUnion))"

definition getOfferSellingLiabilities :: "LedgerHeader \<Rightarrow> LedgerEntry \<Rightarrow> ledger_error + int64" where
  "getOfferSellingLiabilities h le =
     bindE (throwIf (ledgerVersion h < 10) ''Offer liabilities calculated before version 10'') (\<lambda>_.
     (case entryData le of
        OFFER oe \<Rightarrow>
          bindE (exchangeV10WithoutPriceErrorThresholds (price oe) (amount oe) INT64_MAX INT64_MAX INT64_MAX False)
            (\<lambda>res. Inr (wheatReceived10 res))
      | _ \<Rightarrow> Inl WrongUnion))"

definition generateID :: "LedgerHeader \<Rightarrow> uint64 \<times> LedgerHeader" where
  "generateID h = (idPool h + 1, h\<lparr>idPool := idPool h + 1\<rparr>)"

definition getStartingSequenceNumber :: "LedgerHeader \<Rightarrow> uint64" where
  "getStartingSequenceNumber h = push_bit 32 (ucast (ledgerSeq h))"

end
