(* ===== verification/Offer_Crossing.thy ===== *)
theory Offer_Crossing
  imports Ledger_Balance "HOL-Library.AList"
begin

text \<open>
  Crossing the offers of the book, the second half of \<open>src/src/transactions/OfferExchange.cpp\<close>, with the
  liabilities of \<open>TransactionUtils.cpp\<close>, the trust line wrapper and the choice of the best offer. The ledger
  is an explicit store of entries by key; a \<open>LedgerTxnEntry\<close> is the key of an entry of the store, read and
  written at every use. A nested \<open>LedgerTxn\<close> is a copy of the store that the caller keeps on commit and
  drops otherwise.
\<close>

record LedgerTxn =
  ltxHeader :: LedgerHeader
  ltxEntries :: "(LedgerKey \<times> LedgerEntry) list"

definition loadEntry :: "LedgerTxn \<Rightarrow> LedgerKey \<Rightarrow> LedgerEntry option" where
  "loadEntry ltx k = map_of (ltxEntries ltx) k"

definition storeEntry :: "LedgerTxn \<Rightarrow> LedgerKey \<Rightarrow> LedgerEntry \<Rightarrow> LedgerTxn" where
  "storeEntry ltx k e = ltx\<lparr>ltxEntries := AList.update k e (ltxEntries ltx)\<rparr>"

definition eraseEntry :: "LedgerTxn \<Rightarrow> LedgerKey \<Rightarrow> LedgerTxn" where
  "eraseEntry ltx k = ltx\<lparr>ltxEntries := AList.delete k (ltxEntries ltx)\<rparr>"

definition currentEntry :: "LedgerTxn \<Rightarrow> LedgerKey option \<Rightarrow> ledger_error + LedgerEntry" where
  "currentEntry ltx handle =
     (case Option.bind handle (loadEntry ltx) of
        None \<Rightarrow> Inl (RuntimeError ''LedgerTxnEntry not active'')
      | Some e \<Rightarrow> Inr e)"

definition onEntry ::
  "LedgerTxn \<Rightarrow> LedgerKey \<Rightarrow> (LedgerEntry \<Rightarrow> ledger_error + 'a \<times> LedgerEntry) \<Rightarrow> ledger_error + 'a \<times> LedgerTxn" where
  "onEntry ltx k f =
     bindE (currentEntry ltx (Some k)) (\<lambda>e.
     bindE (f e) (\<lambda>(r, e'). Inr (r, storeEntry ltx k e')))"

subsection \<open>Trust lines\<close>

datatype TrustLineWrapper = InactiveLine | NonIssuerLine LedgerKey | IssuerLine

definition loadTrustLine :: "LedgerTxn \<Rightarrow> AccountID \<Rightarrow> Asset \<Rightarrow> ledger_error + TrustLineWrapper" where
  "loadTrustLine ltx acct asset =
     bindE (throwIf (asset = ASSET_TYPE_NATIVE) ''trustline for native asset'') (\<lambda>_.
     bindE (getIssuer asset) (\<lambda>issuer.
     Inr (if issuer \<noteq> acct
          then (if loadEntry ltx (TrustLineKey acct asset) \<noteq> None then NonIssuerLine (TrustLineKey acct asset)
                else InactiveLine)
          else IssuerLine)))"

definition loadTrustLineIfNotNative :: "LedgerTxn \<Rightarrow> AccountID \<Rightarrow> Asset \<Rightarrow> ledger_error + TrustLineWrapper" where
  "loadTrustLineIfNotNative ltx acct asset =
     (if asset = ASSET_TYPE_NATIVE then Inr InactiveLine else loadTrustLine ltx acct asset)"

definition lineNotActive :: "ledger_error" where
  "lineNotActive = RuntimeError ''TrustLineWrapper not active''"

definition lineAddBalance :: "LedgerTxn \<Rightarrow> TrustLineWrapper \<Rightarrow> int64 \<Rightarrow> ledger_error + bool \<times> LedgerTxn" where
  "lineAddBalance ltx w delta =
     (case w of
        InactiveLine \<Rightarrow> Inl lineNotActive
      | NonIssuerLine k \<Rightarrow> onEntry ltx k (\<lambda>e. addBalance (ltxHeader ltx) e delta)
      | IssuerLine \<Rightarrow> Inr (True, ltx))"

definition lineAddBuyingLiabilities :: "LedgerTxn \<Rightarrow> TrustLineWrapper \<Rightarrow> int64 \<Rightarrow> ledger_error + bool \<times> LedgerTxn" where
  "lineAddBuyingLiabilities ltx w delta =
     (case w of
        InactiveLine \<Rightarrow> Inl lineNotActive
      | NonIssuerLine k \<Rightarrow> onEntry ltx k (\<lambda>e. addBuyingLiabilities (ltxHeader ltx) e delta)
      | IssuerLine \<Rightarrow> Inr (True, ltx))"

definition lineAddSellingLiabilities :: "LedgerTxn \<Rightarrow> TrustLineWrapper \<Rightarrow> int64 \<Rightarrow> ledger_error + bool \<times> LedgerTxn" where
  "lineAddSellingLiabilities ltx w delta =
     (case w of
        InactiveLine \<Rightarrow> Inl lineNotActive
      | NonIssuerLine k \<Rightarrow> onEntry ltx k (\<lambda>e. addSellingLiabilities (ltxHeader ltx) e delta)
      | IssuerLine \<Rightarrow> Inr (True, ltx))"

definition lineIsAuthorized :: "LedgerTxn \<Rightarrow> TrustLineWrapper \<Rightarrow> ledger_error + bool" where
  "lineIsAuthorized ltx w =
     (case w of
        InactiveLine \<Rightarrow> Inl lineNotActive
      | NonIssuerLine k \<Rightarrow> bindE (currentEntry ltx (Some k)) isAuthorized
      | IssuerLine \<Rightarrow> Inr True)"

definition lineAvailableBalance :: "LedgerTxn \<Rightarrow> TrustLineWrapper \<Rightarrow> ledger_error + int64" where
  "lineAvailableBalance ltx w =
     (case w of
        InactiveLine \<Rightarrow> Inl lineNotActive
      | NonIssuerLine k \<Rightarrow> bindE (currentEntry ltx (Some k)) (getAvailableBalance (ltxHeader ltx))
      | IssuerLine \<Rightarrow> Inr INT64_MAX)"

definition lineMaxAmountReceive :: "LedgerTxn \<Rightarrow> TrustLineWrapper \<Rightarrow> ledger_error + int64" where
  "lineMaxAmountReceive ltx w =
     (case w of
        InactiveLine \<Rightarrow> Inl lineNotActive
      | NonIssuerLine k \<Rightarrow> bindE (currentEntry ltx (Some k)) (getMaxAmountReceive (ltxHeader ltx))
      | IssuerLine \<Rightarrow> Inr INT64_MAX)"

subsection \<open>Liabilities of an offer\<close>

definition theOffer :: "LedgerEntry \<Rightarrow> ledger_error + OfferEntry" where
  "theOffer le = (case entryData le of OFFER oe \<Rightarrow> Inr oe | _ \<Rightarrow> Inl WrongUnion)"

definition loadAccountAndValidate :: "LedgerTxn \<Rightarrow> AccountID \<Rightarrow> ledger_error + unit" where
  "loadAccountAndValidate ltx seller =
     throwIf (loadEntry ltx (AccountKey seller) = None) ''account does not exist''"

definition loadTrustAndValidate :: "LedgerTxn \<Rightarrow> AccountID \<Rightarrow> Asset \<Rightarrow> ledger_error + TrustLineWrapper" where
  "loadTrustAndValidate ltx seller asset =
     bindE (loadTrustLine ltx seller asset) (\<lambda>w.
     bindE (throwIf (w = InactiveLine) ''trustline does not exist'') (\<lambda>_. Inr w))"

definition offerBuyingBranch :: "LedgerTxn \<Rightarrow> AccountID \<Rightarrow> Asset \<Rightarrow> int64 \<Rightarrow> ledger_error + bool \<times> LedgerTxn" where
  "offerBuyingBranch ltx seller asset delta =
     (if asset = ASSET_TYPE_NATIVE
      then bindE (loadAccountAndValidate ltx seller) (\<lambda>_.
           onEntry ltx (AccountKey seller) (\<lambda>e. addBuyingLiabilities (ltxHeader ltx) e delta))
      else bindE (loadTrustAndValidate ltx seller asset) (\<lambda>w. lineAddBuyingLiabilities ltx w delta))"

definition offerSellingBranch :: "LedgerTxn \<Rightarrow> AccountID \<Rightarrow> Asset \<Rightarrow> int64 \<Rightarrow> ledger_error + bool \<times> LedgerTxn" where
  "offerSellingBranch ltx seller asset delta =
     (if asset = ASSET_TYPE_NATIVE
      then bindE (loadAccountAndValidate ltx seller) (\<lambda>_.
           onEntry ltx (AccountKey seller) (\<lambda>e. addSellingLiabilities (ltxHeader ltx) e delta))
      else bindE (loadTrustAndValidate ltx seller asset) (\<lambda>w. lineAddSellingLiabilities ltx w delta))"

definition acquireOrReleaseLiabilities :: "LedgerTxn \<Rightarrow> LedgerEntry \<Rightarrow> bool \<Rightarrow> ledger_error + LedgerTxn" where
  "acquireOrReleaseLiabilities ltx offerEntry isAcquire =
     bindE (theOffer offerEntry) (\<lambda>oe.
     bindE (throwIf (buying oe = selling oe) ''buying and selling same asset'') (\<lambda>_.
     bindE (getOfferBuyingLiabilities (ltxHeader ltx) offerEntry) (\<lambda>b.
     bindE (offerBuyingBranch ltx (sellerID oe) (buying oe) (if isAcquire then b else - b)) (\<lambda>(ok, ltx1).
     bindE (throwIf (\<not> ok) ''could not add buying liabilities'') (\<lambda>_.
     bindE (getOfferSellingLiabilities (ltxHeader ltx) offerEntry) (\<lambda>s.
     bindE (offerSellingBranch ltx1 (sellerID oe) (selling oe) (if isAcquire then s else - s)) (\<lambda>(ok', ltx2).
     bindE (throwIf (\<not> ok') ''could not add selling liabilities'') (\<lambda>_. Inr ltx2))))))))"

definition acquireLiabilities :: "LedgerTxn \<Rightarrow> LedgerEntry \<Rightarrow> ledger_error + LedgerTxn" where
  "acquireLiabilities ltx offerEntry = acquireOrReleaseLiabilities ltx offerEntry True"

definition releaseLiabilities :: "LedgerTxn \<Rightarrow> LedgerEntry \<Rightarrow> ledger_error + LedgerTxn" where
  "releaseLiabilities ltx offerEntry = acquireOrReleaseLiabilities ltx offerEntry False"

subsection \<open>What the owner of an offer can sell and buy\<close>

definition max64 :: "int64 \<Rightarrow> int64 \<Rightarrow> int64" where
  "max64 a b = (if sint a < sint b then b else a)"

definition canSellAtMostBasedOnSheep ::
  "LedgerTxn \<Rightarrow> Asset \<Rightarrow> TrustLineWrapper \<Rightarrow> Price \<Rightarrow> ledger_error + int64" where
  "canSellAtMostBasedOnSheep ltx sheep sheepLine wheatPrice =
     (if sheep = ASSET_TYPE_NATIVE then Inr INT64_MAX
      else
        bindE (if sheepLine \<noteq> InactiveLine then lineMaxAmountReceive ltx sheepLine else Inr 0) (\<lambda>sellerMaxSheep.
        bindE (numericE (bigDivide_s64 0 sellerMaxSheep (pD wheatPrice) (pN wheatPrice) ROUND_DOWN)) (\<lambda>(ok, wheatAmount).
        Inr (if ok then wheatAmount else INT64_MAX))))"

definition canSellAtMost ::
  "LedgerTxn \<Rightarrow> LedgerKey option \<Rightarrow> Asset \<Rightarrow> TrustLineWrapper \<Rightarrow> ledger_error + int64" where
  "canSellAtMost ltx account asset trustLine =
     (if asset = ASSET_TYPE_NATIVE
      then bindE (currentEntry ltx account) (\<lambda>e.
           bindE (getAvailableBalance (ltxHeader ltx) e) (\<lambda>a. Inr (max64 a 0)))
      else if trustLine = InactiveLine then Inr 0
      else bindE (lineIsAuthorized ltx trustLine) (\<lambda>authorized.
           if authorized then bindE (lineAvailableBalance ltx trustLine) (\<lambda>a. Inr (max64 a 0))
           else Inr 0))"

definition canBuyAtMost ::
  "LedgerTxn \<Rightarrow> LedgerKey option \<Rightarrow> Asset \<Rightarrow> TrustLineWrapper \<Rightarrow> ledger_error + int64" where
  "canBuyAtMost ltx account asset trustLine =
     (if asset = ASSET_TYPE_NATIVE
      then bindE (currentEntry ltx account) (\<lambda>e.
           bindE (getMaxAmountReceive (ltxHeader ltx) e) (\<lambda>a. Inr (max64 a 0)))
      else if trustLine = InactiveLine then Inr 0
      else bindE (lineMaxAmountReceive ltx trustLine) (\<lambda>a. Inr (max64 a 0)))"

subsection \<open>Crossing one offer\<close>

record ClaimOfferAtom =
  claimSeller :: AccountID
  claimOfferID :: int64
  assetSold :: Asset
  amountSold :: int64
  assetBought :: Asset
  amountBought :: int64

datatype CrossOfferResult = eOfferPartial | eOfferTaken | eOfferCantConvert

record Crossing =
  crossResult :: CrossOfferResult
  crossWheat :: int64
  crossSheep :: int64
  crossStays :: bool
  crossTrail :: "ClaimOfferAtom list"

definition setAmount :: "LedgerTxn \<Rightarrow> LedgerKey \<Rightarrow> int64 \<Rightarrow> ledger_error + LedgerTxn" where
  "setAmount ltx k a =
     bindE (currentEntry ltx (Some k)) (\<lambda>e.
     bindE (theOffer e) (\<lambda>oe.
     Inr (storeEntry ltx k (e\<lparr>entryData := OFFER (oe\<lparr>amount := a\<rparr>)\<rparr>))))"

definition adjustOfferEntry ::
  "LedgerTxn \<Rightarrow> LedgerKey \<Rightarrow> LedgerKey option \<Rightarrow> Asset \<Rightarrow> TrustLineWrapper \<Rightarrow> Asset \<Rightarrow> TrustLineWrapper \<Rightarrow>
   ledger_error + LedgerTxn" where
  "adjustOfferEntry ltx offKey account wheat wheatLine sheep sheepLine =
     bindE (currentEntry ltx (Some offKey)) (\<lambda>e.
     bindE (theOffer e) (\<lambda>oe.
     bindE (canSellAtMost ltx account wheat wheatLine) (\<lambda>canSell.
     bindE (canBuyAtMost ltx account sheep sheepLine) (\<lambda>maxSheepReceive.
     bindE (adjustOffer (price oe) (min64 (amount oe) canSell) maxSheepReceive) (\<lambda>a.
     setAmount ltx offKey a)))))"

text \<open>Adding to the balance of the owner in one of the two assets.\<close>

definition addAssetBalance ::
  "LedgerTxn \<Rightarrow> AccountID \<Rightarrow> Asset \<Rightarrow> TrustLineWrapper \<Rightarrow> int64 \<Rightarrow> ledger_error + bool \<times> LedgerTxn" where
  "addAssetBalance ltx acct asset trustLine delta =
     (if asset = ASSET_TYPE_NATIVE
      then onEntry ltx (AccountKey acct) (\<lambda>e. addBalance (ltxHeader ltx) e delta)
      else lineAddBalance ltx trustLine delta)"

definition removeOffer :: "LedgerTxn \<Rightarrow> LedgerKey \<Rightarrow> AccountID \<Rightarrow> ledger_error + LedgerTxn" where
  "removeOffer ltx offKey acct =
     bindE (onEntry (eraseEntry ltx offKey) (AccountKey acct) (\<lambda>e. addNumEntries (ltxHeader ltx) e (- 1)))
       (\<lambda>(r, ltx'). Inr ltx')"

definition settleV10 ::
  "LedgerTxn \<Rightarrow> AccountID \<Rightarrow> Asset \<Rightarrow> TrustLineWrapper \<Rightarrow> int64 \<Rightarrow> string \<Rightarrow> ledger_error + LedgerTxn" where
  "settleV10 ltx acct asset trustLine delta msg =
     (if delta \<noteq> 0
      then bindE (addAssetBalance ltx acct asset trustLine delta) (\<lambda>(ok, ltx').
           bindE (throwIf (\<not> ok) msg) (\<lambda>_. Inr ltx'))
      else Inr ltx)"

text \<open>The seller's account is only loaded when one of the assets is native.\<close>

definition accountIfNative :: "Asset \<Rightarrow> Asset \<Rightarrow> AccountID \<Rightarrow> LedgerKey option" where
  "accountIfNative wheat sheep acct =
     (if wheat = ASSET_TYPE_NATIVE \<or> sheep = ASSET_TYPE_NATIVE then Some (AccountKey acct) else None)"

definition crossOfferV10 ::
  "LedgerTxn \<Rightarrow> LedgerKey \<Rightarrow> int64 \<Rightarrow> int64 \<Rightarrow> bool \<Rightarrow> ClaimOfferAtom list \<Rightarrow> ledger_error + Crossing \<times> LedgerTxn" where
  "crossOfferV10 ltx offKey maxWheatReceived maxSheepSend isPathPayment trail =
     bindE (assertE AssertFailure (sint maxWheatReceived > 0)) (\<lambda>_.
     bindE (assertE AssertFailure (sint maxSheepSend > 0)) (\<lambda>_.
     bindE (currentEntry ltx (Some offKey)) (\<lambda>offEntry.
     bindE (theOffer offEntry) (\<lambda>oe.
     (let sheep = buying oe; wheat = selling oe; acct = sellerID oe
      in bindE (throwIf (loadEntry ltx (AccountKey acct) = None)
                  ''invalid database state: offer must have matching account'') (\<lambda>_.
         bindE (releaseLiabilities ltx offEntry) (\<lambda>ltx1.
         (let account = accountIfNative wheat sheep acct
          in bindE (loadTrustLineIfNotNative ltx1 acct sheep) (\<lambda>sheepLine.
             bindE (loadTrustLineIfNotNative ltx1 acct wheat) (\<lambda>wheatLine.
             bindE (adjustOfferEntry ltx1 offKey account wheat wheatLine sheep sheepLine) (\<lambda>ltx2.
             bindE (canSellAtMost ltx2 account wheat wheatLine) (\<lambda>canSell.
             bindE (currentEntry ltx2 (Some offKey)) (\<lambda>offEntry2.
             bindE (theOffer offEntry2) (\<lambda>oe2.
             bindE (canBuyAtMost ltx2 account sheep sheepLine) (\<lambda>maxSheepReceive.
             bindE (exchangeV10 (price oe2) (min64 (amount oe2) canSell) maxWheatReceived maxSheepSend
                      maxSheepReceive isPathPayment) (\<lambda>res.
             (let numWheatReceived = wheatReceived10 res; numSheepSend = sheepSend10 res
              in bindE (settleV10 ltx2 acct sheep sheepLine numSheepSend ''overflowed sheep balance'') (\<lambda>ltx3.
                 bindE (settleV10 ltx3 acct wheat wheatLine (- numWheatReceived) ''overflowed wheat balance'') (\<lambda>ltx4.
                 bindE
                   (if wheatStays res
                    then bindE (setAmount ltx4 offKey (amount oe2 - numWheatReceived)) (\<lambda>ltx5.
                         adjustOfferEntry ltx5 offKey account wheat wheatLine sheep sheepLine)
                    else setAmount ltx4 offKey 0) (\<lambda>ltx6.
                 bindE (currentEntry ltx6 (Some offKey)) (\<lambda>offEntry6.
                 bindE (theOffer offEntry6) (\<lambda>oe6.
                 (let taken = (amount oe6 = 0)
                  in bindE (if taken then removeOffer ltx6 offKey acct else acquireLiabilities ltx6 offEntry6) (\<lambda>ltx7.
                     Inr (\<lparr>crossResult = (if taken then eOfferTaken else eOfferPartial),
                           crossWheat = numWheatReceived, crossSheep = numSheepSend, crossStays = wheatStays res,
                           crossTrail = trail @ [\<lparr>claimSeller = acct, claimOfferID = offerID oe, assetSold = wheat,
                             amountSold = numWheatReceived, assetBought = sheep, amountBought = numSheepSend\<rparr>]\<rparr>,
                          ltx7)))))))))))))))))))))))))"

subsection \<open>Crossing one offer before protocol version 10\<close>

record Exchanged =
  exType :: ExchangeResultType
  exWheat :: int64
  exSheep :: int64
  exAmount :: int64

definition performExchange ::
  "LedgerTxn \<Rightarrow> OfferEntry \<Rightarrow> TrustLineWrapper \<Rightarrow> TrustLineWrapper \<Rightarrow> int64 \<Rightarrow> int64 \<Rightarrow> ledger_error + Exchanged" where
  "performExchange ltx oe wheatLine sheepLine maxWheatReceived maxSheepSend =
     bindE (canSellAtMostBasedOnSheep ltx (buying oe) sheepLine (price oe)) (\<lambda>bySheep.
     bindE (canSellAtMost ltx (Some (AccountKey (sellerID oe))) (selling oe) wheatLine) (\<lambda>byWheat.
     (let numWheat = min64 (min64 bySheep byWheat) (amount oe)
      in bindE (assertE AssertFailure (sint numWheat \<ge> 0)) (\<lambda>_.
         bindE (if ledgerVersion (ltxHeader ltx) < 3
                then exchangeV2 numWheat (price oe) maxWheatReceived maxSheepSend
                else exchangeV3 numWheat (price oe) maxWheatReceived maxSheepSend) (\<lambda>res.
         (case exchangeResultType res of
            REDUCED_TO_ZERO \<Rightarrow>
              Inr \<lparr>exType = REDUCED_TO_ZERO, exWheat = numWheatReceived res, exSheep = numSheepSend res,
                   exAmount = numWheat\<rparr>
          | BOGUS \<Rightarrow> Inr \<lparr>exType = NORMAL, exWheat = 0, exSheep = 0, exAmount = 0\<rparr>
          | NORMAL \<Rightarrow>
              Inr \<lparr>exType = NORMAL, exWheat = numWheatReceived res, exSheep = numSheepSend res,
                   exAmount = (if sint (amount oe) \<le> sint (numWheatReceived res) then 0
                               else numWheat - numWheatReceived res)\<rparr>))))))"

definition crossOffer ::
  "LedgerTxn \<Rightarrow> LedgerKey \<Rightarrow> int64 \<Rightarrow> int64 \<Rightarrow> ClaimOfferAtom list \<Rightarrow> ledger_error + Crossing \<times> LedgerTxn" where
  "crossOffer ltx offKey maxWheatReceived maxSheepSend trail =
     bindE (assertE AssertFailure (sint maxWheatReceived > 0)) (\<lambda>_.
     bindE (assertE AssertFailure (sint maxSheepSend > 0)) (\<lambda>_.
     bindE (currentEntry ltx (Some offKey)) (\<lambda>offEntry.
     bindE (theOffer offEntry) (\<lambda>oe.
     (let sheep = buying oe; wheat = selling oe; acct = sellerID oe
      in bindE (throwIf (loadEntry ltx (AccountKey acct) = None)
                  ''invalid database state: offer must have matching account'') (\<lambda>_.
         bindE (loadTrustLineIfNotNative ltx acct sheep) (\<lambda>sheepLine.
         bindE (loadTrustLineIfNotNative ltx acct wheat) (\<lambda>wheatLine.
         bindE (performExchange ltx oe wheatLine sheepLine maxWheatReceived maxSheepSend) (\<lambda>ex.
         (let cannot = Inr (\<lparr>crossResult = eOfferCantConvert, crossWheat = exWheat ex, crossSheep = exSheep ex,
                crossStays = False, crossTrail = trail\<rparr>, ltx)
          in if exType ex = REDUCED_TO_ZERO then cannot
             else
               bindE (if exAmount ex = 0 then removeOffer ltx offKey acct else setAmount ltx offKey (exAmount ex)) (\<lambda>ltx1.
               bindE (if exSheep ex \<noteq> 0 then addAssetBalance ltx1 acct sheep sheepLine (exSheep ex)
                      else Inr (True, ltx1)) (\<lambda>(sent, ltx2).
               if \<not> sent then cannot
               else
                 bindE (if exWheat ex \<noteq> 0 then addAssetBalance ltx2 acct wheat wheatLine (- exWheat ex)
                        else Inr (True, ltx2)) (\<lambda>(received, ltx3).
                 if \<not> received then cannot
                 else Inr (\<lparr>crossResult = (if exAmount ex = 0 then eOfferTaken else eOfferPartial),
                        crossWheat = exWheat ex, crossSheep = exSheep ex, crossStays = False,
                        crossTrail = trail @ [\<lparr>claimSeller = acct, claimOfferID = offerID oe, assetSold = wheat,
                          amountSold = exWheat ex, assetBought = sheep, amountBought = exSheep ex\<rparr>]\<rparr>, ltx3))))))))))))))"

subsection \<open>The best offer\<close>

text \<open>The quotient of two positive 32-bit integers as a double: a significand of 53 bits, rounded to nearest and
  ties to even, and the number of binary places.\<close>

definition doubleQuotient :: "nat \<Rightarrow> nat \<Rightarrow> nat \<times> nat" where
  "doubleQuotient n d =
     (case find (\<lambda>k. 2 ^ 52 \<le> n * 2 ^ k div d) [0..<85] of
        None \<Rightarrow> (0, 0)
      | Some k \<Rightarrow>
          (let q = n * 2 ^ k div d; r = n * 2 ^ k mod d
           in (if d < 2 * r \<or> d = 2 * r \<and> odd q then q + 1 else q, k)))"

definition doublePrice :: "Price \<Rightarrow> nat \<times> nat" where
  "doublePrice p = doubleQuotient (nat (sint (priceN p))) (nat (sint (priceD p)))"

definition doubleLess :: "nat \<times> nat \<Rightarrow> nat \<times> nat \<Rightarrow> bool" where
  "doubleLess x y \<longleftrightarrow> fst x * 2 ^ snd y < fst y * 2 ^ snd x"

definition isBetterOffer :: "OfferEntry \<Rightarrow> OfferEntry \<Rightarrow> ledger_error + bool" where
  "isBetterOffer lhs rhs =
     bindE (assertE AssertFailure (buying lhs = buying rhs)) (\<lambda>_.
     bindE (assertE AssertFailure (selling lhs = selling rhs)) (\<lambda>_.
     (let lhsPrice = doublePrice (price lhs); rhsPrice = doublePrice (price rhs)
      in Inr (if doubleLess lhsPrice rhsPrice then True
              else if doubleLess rhsPrice lhsPrice then False
              else sint (offerID lhs) < sint (offerID rhs)))))"

fun bestOfferLoop ::
  "Asset \<Rightarrow> Asset \<Rightarrow> (LedgerKey \<times> LedgerEntry) list \<Rightarrow> (LedgerKey \<times> OfferEntry) option \<Rightarrow>
   ledger_error + (LedgerKey \<times> OfferEntry) option" where
  "bestOfferLoop buy sell [] best = Inr best"
| "bestOfferLoop buy sell ((k, e) # es) best =
     (case entryData e of
        OFFER oe \<Rightarrow>
          if \<not> (buying oe = buy \<and> selling oe = sell) then bestOfferLoop buy sell es best
          else
            (case best of
               None \<Rightarrow> bestOfferLoop buy sell es (Some (k, oe))
             | Some (k', oe') \<Rightarrow>
                 bindE (isBetterOffer oe oe') (\<lambda>better.
                 bestOfferLoop buy sell es (if better then Some (k, oe) else best)))
      | _ \<Rightarrow> bestOfferLoop buy sell es best)"

definition loadBestOffer :: "LedgerTxn \<Rightarrow> Asset \<Rightarrow> Asset \<Rightarrow> ledger_error + (LedgerKey \<times> OfferEntry) option" where
  "loadBestOffer ltx buy sell = bestOfferLoop buy sell (ltxEntries ltx) None"

subsection \<open>Converting through the order book\<close>

datatype OfferFilterResult = eKeep | eStop

datatype ConvertResult = eOK | ePartial | eFilterStop | eCrossedTooMany

text \<open>The filter is a closure of the operation that converts: beside its answer it may set the operation's result
  to crossing an offer of its own, which is the flag it returns and \<open>convCrossSelf\<close> records.\<close>

type_synonym offer_filter = "OfferEntry \<Rightarrow> ledger_error + OfferFilterResult \<times> bool"

record Conversion =
  convResult :: ConvertResult
  convCrossSelf :: bool
  sheepSent :: int64
  wheatGot :: int64
  convTrail :: "ClaimOfferAtom list"

definition crossBest ::
  "LedgerTxn \<Rightarrow> LedgerKey \<Rightarrow> int64 \<Rightarrow> int64 \<Rightarrow> bool \<Rightarrow> ClaimOfferAtom list \<Rightarrow> ledger_error + Crossing \<times> LedgerTxn" where
  "crossBest ltx offKey maxWheatReceive maxSheepSend isPathPayment trail =
     bindE (if 10 \<le> ledgerVersion (ltxHeader ltx)
            then crossOfferV10 ltx offKey maxWheatReceive maxSheepSend isPathPayment trail
            else crossOffer ltx offKey maxWheatReceive maxSheepSend trail) (\<lambda>(c, ltx').
     bindE (assertE AssertFailure (sint (crossSheep c) \<ge> 0)) (\<lambda>_.
     bindE (assertE AssertFailure (sint (crossSheep c) \<le> sint maxSheepSend)) (\<lambda>_.
     bindE (assertE AssertFailure (sint (crossWheat c) \<ge> 0)) (\<lambda>_.
     bindE (assertE AssertFailure (sint (crossWheat c) \<le> sint maxWheatReceive)) (\<lambda>_.
     Inr (c, ltx'))))))"

function convertLoop ::
  "offer_filter option \<Rightarrow> Asset \<Rightarrow> Asset \<Rightarrow> bool \<Rightarrow> uint64 \<Rightarrow> LedgerTxn \<Rightarrow> int64 \<Rightarrow> int64 \<Rightarrow> Conversion \<Rightarrow>
   ledger_error + Conversion \<times> LedgerTxn" where
  "convertLoop offerFilter sheep wheat isPathPayment maxOffersToCross ltx maxSheepSend maxWheatReceive cv =
     bindE (loadBestOffer ltx sheep wheat) (\<lambda>best.
     (case best of
        None \<Rightarrow> Inr (cv\<lparr>convResult := (if ledgerVersion (ltxHeader ltx) < 10 then eOK else ePartial)\<rparr>, ltx)
      | Some (offKey, oe) \<Rightarrow>
          bindE (case offerFilter of None \<Rightarrow> Inr (eKeep, False) | Some f \<Rightarrow> f oe) (\<lambda>(answer, crossSelf).
          if answer = eStop then Inr (cv\<lparr>convResult := eFilterStop, convCrossSelf := crossSelf\<rparr>, ltx)
          else if unat maxOffersToCross \<le> length (convTrail cv) then Inr (cv\<lparr>convResult := eCrossedTooMany\<rparr>, ltx)
          else
            bindE (crossBest ltx offKey maxWheatReceive maxSheepSend isPathPayment (convTrail cv)) (\<lambda>(c, ltx').
            if crossResult c = eOfferCantConvert then Inr (cv\<lparr>convResult := ePartial\<rparr>, ltx)
            else
              (let maxSheepSend' = maxSheepSend - crossSheep c;
                   maxWheatReceive' = maxWheatReceive - crossWheat c;
                   cv' = cv\<lparr>sheepSent := sheepSent cv + crossSheep c, wheatGot := wheatGot cv + crossWheat c,
                            convTrail := crossTrail c\<rparr>;
                   needMore = (\<not> crossStays c \<and> 0 < sint maxWheatReceive' \<and> 0 < sint maxSheepSend')
               in if \<not> needMore then Inr (cv'\<lparr>convResult := eOK\<rparr>, ltx')
                  else if crossResult c = eOfferPartial then Inr (cv'\<lparr>convResult := ePartial\<rparr>, ltx')
                  else convertLoop offerFilter sheep wheat isPathPayment maxOffersToCross ltx' maxSheepSend'
                         maxWheatReceive' cv')))))"
  by pat_completeness auto

text \<open>A crossing that converts adds one claim to the trail, with the amounts it reports.\<close>

definition extendsTrail :: "ClaimOfferAtom list \<Rightarrow> Crossing \<Rightarrow> bool" where
  "extendsTrail trail c \<longleftrightarrow>
     (\<exists>x. crossTrail c = trail @ [x] \<and> amountSold x = crossWheat c \<and> amountBought x = crossSheep c)"

lemma crossOfferV10_trail:
  assumes "crossOfferV10 ltx k w s p trail = Inr (c, ltx')"
  shows "extendsTrail trail c"
  using assms unfolding crossOfferV10_def Let_def bindE_Inr extendsTrail_def
  by (elim exE conjE) (simp add: bindE_Inr; auto)

lemma crossOffer_trail:
  assumes "crossOffer ltx k w s trail = Inr (c, ltx')" "crossResult c \<noteq> eOfferCantConvert"
  shows "extendsTrail trail c"
  using assms unfolding crossOffer_def Let_def bindE_Inr extendsTrail_def by (auto split: if_splits simp: bindE_Inr)

lemma crossBest_trail:
  assumes "crossBest ltx k w s p trail = Inr (c, ltx')" "crossResult c \<noteq> eOfferCantConvert"
  shows "extendsTrail trail c"
  using assms by (auto simp: crossBest_def bindE_Inr split: if_splits dest: crossOfferV10_trail crossOffer_trail)

lemma extendsTrail_length: "extendsTrail trail c \<Longrightarrow> length (crossTrail c) = Suc (length trail)"
  by (auto simp: extendsTrail_def)

termination convertLoop
proof (relation "measure (\<lambda>(f, sheep, wheat, p, m, ltx, s, w, cv). unat m - length (convTrail cv))")
qed (auto dest!: crossBest_trail extendsTrail_length)

definition convertWithOffers ::
  "LedgerTxn \<Rightarrow> Asset \<Rightarrow> int64 \<Rightarrow> Asset \<Rightarrow> int64 \<Rightarrow> bool \<Rightarrow> offer_filter option \<Rightarrow> int64 \<Rightarrow>
   ledger_error + Conversion \<times> LedgerTxn" where
  "convertWithOffers ltxOuter sheep maxSheepSend wheat maxWheatReceive isPathPayment offerFilter maxOffersToCross =
     (let cv = \<lparr>convResult = eOK, convCrossSelf = False, sheepSent = 0, wheatGot = 0, convTrail = []\<rparr>
      in if 0 < sint maxWheatReceive \<and> 0 < sint maxSheepSend
         then convertLoop offerFilter sheep wheat isPathPayment maxOffersToCross ltxOuter maxSheepSend maxWheatReceive cv
         else Inr (cv, ltxOuter))"

subsection \<open>A rule for the conversion loop\<close>

definition convExtended :: "Conversion \<Rightarrow> Crossing \<Rightarrow> Conversion" where
  "convExtended cv c = cv\<lparr>sheepSent := sheepSent cv + crossSheep c, wheatGot := wheatGot cv + crossWheat c,
     convTrail := crossTrail c\<rparr>"

lemma convertLoop_rule:
  assumes "convertLoop f sheep wheat p m ltx s w cv = Inr (cv', ltx')" "I ltx s w cv"
    and step: "\<And>ltx k oe s w cv c l.
      loadBestOffer ltx sheep wheat = Inr (Some (k, oe)) \<Longrightarrow> length (convTrail cv) < unat m \<Longrightarrow>
      crossBest ltx k w s p (convTrail cv) = Inr (c, l) \<Longrightarrow> crossResult c \<noteq> eOfferCantConvert \<Longrightarrow> I ltx s w cv \<Longrightarrow>
      I l (s - crossSheep c) (w - crossWheat c) (convExtended cv c)"
    and result: "\<And>ltx s w cv r x. I ltx s w cv \<Longrightarrow> I ltx s w (cv\<lparr>convResult := r, convCrossSelf := x\<rparr>)"
  shows "\<exists>s' w'. I ltx' s' w' cv'"
  using assms(1-3)
proof (induction f sheep wheat p m ltx s w cv arbitrary: cv' ltx' rule: convertLoop.induct)
  case (1 f sheep wheat p m ltx s w cv)
  note run = "1.prems"(1) [unfolded convertLoop.simps [of f sheep wheat p m ltx s w cv]]
  have finish: "I l s w c \<Longrightarrow> I l s w (c\<lparr>convResult := r\<rparr>)" for l s w c r
    using result [of l s w c "convCrossSelf c" r] by simp
  obtain best where best: "loadBestOffer ltx sheep wheat = Inr best" using run by (auto simp: bindE_Inr)
  show ?case
  proof (cases best)
    case None
    then have "ltx' = ltx \<and> (\<exists>r. cv' = cv\<lparr>convResult := r\<rparr>)" using run best by (auto split: if_splits)
    then show ?thesis using finish [OF "1.prems"(2)] by blast
  next
    case (Some ko)
    then obtain k oe where b: "best = Some (k, oe)" by (cases ko) auto
    obtain ans self where a: "(case f of None \<Rightarrow> Inr (eKeep, False) | Some g \<Rightarrow> g oe) = Inr (ans, self)"
      using run best b by (auto simp: bindE_Inr)
    show ?thesis
    proof (cases "ans = eStop \<or> unat m \<le> length (convTrail cv)")
      case True
      then have "ltx' = ltx \<and> (\<exists>r x. cv' = cv\<lparr>convResult := r, convCrossSelf := x\<rparr> \<or> cv' = cv\<lparr>convResult := r\<rparr>)"
        using run best b a by (auto split: if_splits)
      then show ?thesis using result [OF "1.prems"(2)] finish [OF "1.prems"(2)] by metis
    next
      case go: False
      obtain c l where c: "crossBest ltx k w s p (convTrail cv) = Inr (c, l)"
        using run best b a go by (auto simp: bindE_Inr)
      show ?thesis
      proof (cases "crossResult c = eOfferCantConvert")
        case True
        then have "cv' = cv\<lparr>convResult := ePartial\<rparr> \<and> ltx' = ltx" using run best b a go c by simp
        then show ?thesis using finish [OF "1.prems"(2)] by blast
      next
        case conv: False
        have len: "length (convTrail cv) < unat m" using go by simp
        note next_state = "1.prems"(3) [OF best [unfolded b] len c conv "1.prems"(2)]
        show ?thesis
        proof (cases "\<not> (\<not> crossStays c \<and> 0 < sint (w - crossWheat c) \<and> 0 < sint (s - crossSheep c)) \<or>
            crossResult c = eOfferPartial")
          case True
          then have "ltx' = l \<and> (\<exists>r. cv' = (convExtended cv c)\<lparr>convResult := r\<rparr>)"
            using run best b a go c conv by (auto simp: Let_def convExtended_def split: if_splits)
          then show ?thesis using finish [OF next_state] by blast
        next
          case False
          then have "convertLoop f sheep wheat p m l (s - crossSheep c) (w - crossWheat c) (convExtended cv c) =
            Inr (cv', ltx')"
            using run best b a go c conv by (simp add: Let_def convExtended_def)
          note rec = this
          show ?thesis
          proof (rule "1.IH" [OF best b refl a refl _ _ c refl conv refl refl convExtended_def refl _ _ rec next_state], goal_cases)
            case (5 ltx k oe s w cv c l)
            from "1.prems"(3) [OF 5] show ?case .
          qed (use go False in simp_all)
        qed
      qed
    qed
  qed
qed

end
