(* ===== verification/Exchange_Properties.thy ===== *)
theory Exchange_Properties
  imports Offer_Exchange
begin

text \<open>
  Correctness of the exchange. For a positive price and amounts that are not negative the 128-bit
  computation is that of the natural numbers (\<open>offerValue\<close>, \<open>exactAmounts\<close>), so the results stay
  within all four limits, favour the offer that stays in the book, and no exception is thrown. An
  adjusted offer can be crossed without exceeding the bound on the price error, and adjusting it
  again changes nothing.
\<close>

subsection \<open>The 128-bit computation is exact\<close>

definition validPrice :: "Price \<Rightarrow> bool" where
  "validPrice p \<longleftrightarrow> 0 < sint (priceN p) \<and> 0 < sint (priceD p)"

abbreviation natN :: "Price \<Rightarrow> nat" where "natN p \<equiv> unat (pN p)"
abbreviation natD :: "Price \<Rightarrow> nat" where "natD p \<equiv> unat (pD p)"

lemma numericE_simps [simp]:
  "numericE (Inr a) = Inr a" "numericE (Inl e) = Inl (NumericFailure e)"
  by (simp_all add: numericE_def)

lemma throwIf_simps [simp]: "throwIf False msg = Inr ()" "throwIf True msg = Inl (RuntimeError msg)"
  by (simp_all add: throwIf_def)

lemma widen_pos:
  assumes "0 < sint (w :: int32)"
  shows "0 < sint (scast w :: int64)" "unat (scast w :: int64) < 2 ^ 31" "0 < unat (scast w :: int64)"
proof -
  have lim: "sint w < 2 ^ 31" using sint_lt [of w] by simp
  then have "signed_take_bit 63 (sint w) = sint w"
    using assms by (simp add: signed_take_bit_int_eq_self_iff)
  then have eq: "sint (scast w :: int64) = sint w" by (simp add: signed_scast_eq)
  with assms show p: "0 < sint (scast w :: int64)" by simp
  with sint_nonneg(1) [of "scast w"] have "int (unat (scast w :: int64)) = sint w"
    using eq by linarith
  with lim assms show "unat (scast w :: int64) < 2 ^ 31" "0 < unat (scast w :: int64)" by (simp_all flip: of_nat_less_iff [where 'a = int])
qed

lemma price_pos:
  assumes "validPrice p"
  shows "0 < sint (pN p)" "0 < sint (pD p)" "0 < natN p" "0 < natD p" "natN p < 2 ^ 31" "natD p < 2 ^ 31"
  using assms widen_pos [of "priceN p"] widen_pos [of "priceD p"]
  by (simp_all add: validPrice_def pN_def pD_def)

lemma sint_of_nat64: "x < 2 ^ 63 \<Longrightarrow> sint (of_nat x :: int64) = int x"
  using sint_small [of "of_nat x"] by (simp add: unsigned_of_nat take_bit_nat_eq_self)

lemma unat_of_nat64: "x < 2 ^ 63 \<Longrightarrow> unat (of_nat x :: int64) = x"
  by (simp add: unsigned_of_nat take_bit_nat_eq_self)

lemma of_nat_of_sint: "sint (r :: int64) = int x \<Longrightarrow> r = of_nat x"
  by (metis of_int_of_nat_eq of_int_sint scast_id)

lemma int_le_sint: "0 \<le> sint (w :: int64) \<Longrightarrow> x \<le> unat w \<Longrightarrow> int x \<le> sint w"
  by (metis of_nat_le_iff sint_nonneg(1))

lemma sint_less_unat:
  "0 \<le> sint (a :: int64) \<Longrightarrow> 0 \<le> sint (b :: int64) \<Longrightarrow> sint a < sint b \<longleftrightarrow> unat a < unat b"
  using sint_nonneg(1) [of a] sint_nonneg(1) [of b] by (simp only: of_nat_less_iff)

lemma bigMultiply_exact:
  assumes "0 \<le> sint a" "0 \<le> sint b"
  obtains v where "bigMultiply a b = Inr v" "val128 v = unat a * unat b"
proof -
  have "unat a * unat b < 2 ^ 63 * 2 ^ 63"
    using sint_nonneg(2) [OF assms(1)] sint_nonneg(2) [OF assms(2)] by (intro mult_strict_mono') simp_all
  then have "val128 (bigMultiply_u64 a b) = unat a * unat b" by (simp add: bigMultiply_u64_def val128_mul)
  with assms that show ?thesis by (simp add: bigMultiply_def assertE_def)
qed

lemma bigDivide_floor:
  assumes "0 \<le> sint A" "0 \<le> sint B" "0 < sint C" "unat A * unat B div unat C < 2 ^ 63"
  shows "bigDivide A B C ROUND_DOWN = Inr (of_nat (unat A * unat B div unat C))"
  using bigDivide_s64_correct [OF assms(1-3), of 0 ROUND_DOWN] assms(4)
  by (auto simp: bigDivide_def roundedDiv_def of_nat_of_sint)

definition ceilDiv :: "nat \<Rightarrow> nat \<Rightarrow> nat" where
  "ceilDiv a b = (a + b - 1) div b"

lemma bigDivide_ceil:
  assumes "0 \<le> sint A" "0 \<le> sint B" "0 < sint C" "ceilDiv (unat A * unat B) (unat C) < 2 ^ 63"
  shows "bigDivide A B C ROUND_UP = Inr (of_nat (ceilDiv (unat A * unat B) (unat C)))"
  using bigDivide_s64_correct [OF assms(1-3), of 0 ROUND_UP] assms(4)
  by (auto simp: bigDivide_def roundedDiv_def ceilDiv_def of_nat_of_sint)

lemma bigDivide128_floor:
  assumes "0 < sint B" "val128 a div unat B < 2 ^ 63"
  shows "bigDivide128 a B ROUND_DOWN = Inr (of_nat (val128 a div unat B))"
  using bigDivide128_correct [OF assms(1) refl, of ROUND_DOWN a] assms(2)
  by (auto simp: roundedDiv_def of_nat_of_sint)

lemma ceilDiv_le: "0 < b \<Longrightarrow> a \<le> c * b \<Longrightarrow> ceilDiv a b \<le> c"
proof -
  assume "0 < b" "a \<le> c * b"
  then have "a + b - 1 < Suc c * b" by simp
  then show ?thesis unfolding ceilDiv_def by (metis less_Suc_eq_le less_mult_imp_div_less)
qed

lemma ceilDiv_bounds:
  assumes "0 < b"
  shows "a \<le> ceilDiv a b * b" "ceilDiv a b * b < a + b"
proof -
  have "ceilDiv a b * b = (a + b - 1) - (a + b - 1) mod b"
    by (simp add: ceilDiv_def minus_mod_eq_div_mult)
  moreover have "(a + b - 1) mod b < b" using assms by simp
  ultimately show "a \<le> ceilDiv a b * b" "ceilDiv a b * b < a + b" using assms by linarith+
qed

subsection \<open>The amounts of an exchange\<close>

text \<open>What an offer is worth, in units of one price component, and the amounts exchanged: the offer that
  does not stay is consumed in the more valuable asset, the other amount is rounded in favour of the
  offer that stays.\<close>

definition exactAmounts :: "nat \<Rightarrow> nat \<Rightarrow> bool \<Rightarrow> bool \<Rightarrow> nat \<Rightarrow> nat \<Rightarrow> nat \<times> nat" where
  "exactAmounts n d stays path wheatValue sheepValue =
     (if stays
      then if d < n \<or> path then (sheepValue div n, ceilDiv (sheepValue div n * n) d)
           else (sheepValue div d * d div n, sheepValue div d)
      else if d < n then (wheatValue div n, wheatValue div n * n div d)
           else (ceilDiv (wheatValue div d * d) n, wheatValue div d))"

lemma exactAmounts_bounds:
  assumes "0 < n" "0 < d" and wv: "wv = min (W * n) (s * d)" and sv: "sv = min (S * d) (w * n)"
    and amounts: "exactAmounts n d (sv < wv) path wv sv = (wr, ss)"
  shows "wr \<le> w" "wr \<le> W" "ss \<le> S" "ss \<le> s"
    and "sv < wv \<Longrightarrow> wr * n \<le> ss * d" "\<not> sv < wv \<Longrightarrow> ss * d \<le> wr * n"
proof -
  define v where "v = (if sv < wv then sv else wv)"
  have v: "v \<le> W * n" "v \<le> s * d" "v \<le> S * d" "v \<le> w * n" by (auto simp: v_def wv sv)
  have down: "a div b \<le> c" if "a \<le> c * b" "0 < b" for a b c :: nat
    using div_le_mono [OF that(1), of b] that(2) by simp
  have part: "a div b * b \<le> c" if "a \<le> c" for a b c :: nat
    using that le_trans [OF div_times_less_eq_dividend] by blast
  consider "sv < wv" "wr = v div n" "ss = ceilDiv (wr * n) d"
    | "sv < wv" "ss = v div d" "wr = ss * d div n"
    | "\<not> sv < wv" "wr = v div n" "ss = wr * n div d"
    | "\<not> sv < wv" "ss = v div d" "wr = ceilDiv (ss * d) n"
    using amounts by (auto simp: exactAmounts_def v_def split: if_splits)
  then have "wr \<le> w \<and> wr \<le> W \<and> ss \<le> S \<and> ss \<le> s \<and> (sv < wv \<longrightarrow> wr * n \<le> ss * d) \<and>
    (\<not> sv < wv \<longrightarrow> ss * d \<le> wr * n)"
    using v assms(1,2) ceilDiv_bounds(1) by cases (auto intro!: down ceilDiv_le part)
  then show "wr \<le> w" "wr \<le> W" "ss \<le> S" "ss \<le> s"
    and "sv < wv \<Longrightarrow> wr * n \<le> ss * d" "\<not> sv < wv \<Longrightarrow> ss * d \<le> wr * n" by blast+
qed

lemma calculateOfferValue_exact:
  assumes "0 < sint num" "0 < sint den" "0 \<le> sint a" "0 \<le> sint b"
  obtains v where "calculateOfferValue num den a b = Inr v"
    "val128 v = min (unat a * unat (scast num :: int64)) (unat b * unat (scast den :: int64))"
proof -
  have "0 \<le> sint (scast num :: int64)" "0 \<le> sint (scast den :: int64)"
    using widen_pos(1) assms(1,2) by (simp_all add: less_imp_le)
  with bigMultiply_exact [OF assms(3)] bigMultiply_exact [OF assms(4)] obtain x y
    where "bigMultiply a (scast num) = Inr x" "val128 x = unat a * unat (scast num :: int64)"
      "bigMultiply b (scast den) = Inr y" "val128 y = unat b * unat (scast den :: int64)" by metis
  then show ?thesis using that by (simp add: calculateOfferValue_def val128_lt min_def not_le split: if_splits)
qed

lemma exchangeAmounts_exact:
  assumes p: "validPrice p" and
    amounts: "exactAmounts (natN p) (natD p) stays path (val128 wv) (val128 sv) = (wr, ss)"
    and "wr < 2 ^ 63" "ss < 2 ^ 63"
  shows "exchangeAmounts p stays path wv sv = Inr (of_nat wr, of_nat ss)"
proof -
  have "sint (pD p) < sint (pN p) \<longleftrightarrow> natD p < natN p"
    using price_pos(1,2) [OF p] by (simp add: sint_less_unat)
  then show ?thesis
    using amounts assms(3,4) price_pos [OF p]
    by (auto simp: exactAmounts_def exchangeAmounts_def bigDivide128_floor bigDivide_floor bigDivide_ceil
        sint_of_nat64 unat_of_nat64 split: if_splits)
qed

lemma exchangeV10_unchecked:
  assumes p: "validPrice p" and nonneg: "0 \<le> sint W" "0 \<le> sint w" "0 \<le> sint S" "0 \<le> sint s"
    and wv: "wv = min (unat W * natN p) (unat s * natD p)"
    and sv: "sv = min (unat S * natD p) (unat w * natN p)"
    and amounts: "exactAmounts (natN p) (natD p) (sv < wv) path wv sv = (wr, ss)"
  shows "exchangeV10WithoutPriceErrorThresholds p W w S s path =
    Inr \<lparr>wheatReceived10 = of_nat wr, sheepSend10 = of_nat ss, wheatStays = sv < wv\<rparr>"
proof -
  note pos = price_pos [OF p]
  obtain x where x: "calculateOfferValue (priceN p) (priceD p) W s = Inr x" "val128 x = wv"
    using calculateOfferValue_exact [of "priceN p" "priceD p" W s] p nonneg
    by (auto simp: validPrice_def wv pN_def pD_def)
  obtain y where y: "calculateOfferValue (priceD p) (priceN p) S w = Inr y" "val128 y = sv"
    using calculateOfferValue_exact [of "priceD p" "priceN p" S w] p nonneg
    by (auto simp: validPrice_def sv pN_def pD_def)
  note b = exactAmounts_bounds(1-4) [OF pos(3,4) wv sv amounts]
  have lim: "wr < 2 ^ 63" "ss < 2 ^ 63" using b nonneg sint_nonneg(2) le_less_trans by blast+
  have "exchangeAmounts p (sv < wv) path x y = Inr (of_nat wr, of_nat ss)"
    using exchangeAmounts_exact [OF p _ lim] amounts x(2) y(2) by simp
  moreover have "int wr \<le> sint w" "int wr \<le> sint W" "int ss \<le> sint S" "int ss \<le> sint s"
    using b nonneg by (simp_all add: int_le_sint)
  ultimately show ?thesis
    using x y lim
    by (simp add: exchangeV10WithoutPriceErrorThresholds_def val128_gt min64_def sint_of_nat64)
qed

subsection \<open>The bound on the price error\<close>

definition within1Percent :: "nat \<Rightarrow> nat \<Rightarrow> nat \<Rightarrow> nat \<Rightarrow> bool" where
  "within1Percent n d wr ss \<longleftrightarrow> 100 * (wr * n) \<le> 100 * (ss * d) + wr * n \<and> 100 * (ss * d) \<le> 101 * (wr * n)"

lemma hundred_times:
  assumes "0 < sint a" "unat a < 2 ^ 31"
  shows "unat (100 * a :: int64) = 100 * unat a" "0 \<le> sint (100 * a :: int64)"
proof -
  show *: "unat (100 * a) = 100 * unat a"
    using assms(2) by (simp add: unat_word_ariths)
  show "0 \<le> sint (100 * a)" using assms(2) sint_small [of "100 * a"] by (simp add: *)
qed

lemma val128_sub_le: "val128 b \<le> val128 a \<Longrightarrow> val128 (u128_sub a b) = val128 a - val128 b"
  by (rule val128_sub)

lemma checkPriceErrorBound_exact:
  assumes p: "validPrice p" and "0 \<le> sint wr" "0 \<le> sint ss"
  shows "checkPriceErrorBound p wr ss favor =
    Inr (favor \<and> unat wr * natN p < unat ss * natD p \<or> within1Percent (natN p) (natD p) (unat wr) (unat ss))"
proof -
  note pos = price_pos [OF p]
  obtain l where l: "bigMultiply (100 * pN p) wr = Inr l" "val128 l = 100 * natN p * unat wr"
    using bigMultiply_exact [OF hundred_times(2) [OF pos(1,5)] assms(2)] hundred_times(1) [OF pos(1,5)] by metis
  obtain r where r: "bigMultiply (100 * pD p) ss = Inr r" "val128 r = 100 * natD p * unat ss"
    using bigMultiply_exact [OF hundred_times(2) [OF pos(2,6)] assms(3)] hundred_times(1) [OF pos(2,6)] by metis
  obtain c where c: "bigMultiply (pN p) wr = Inr c" "val128 c = natN p * unat wr"
    using bigMultiply_exact [of "pN p" wr] pos(1) assms(2) by auto
  show ?thesis
  proof (cases "val128 r < val128 l")
    case True
    then have "val128 (u128_sub l r) = 100 * natN p * unat wr - 100 * natD p * unat ss"
      using l r by (simp add: val128_sub_le)
    then show ?thesis using True l r c
      by (auto simp: checkPriceErrorBound_def val128_gt val128_le within1Percent_def algebra_simps)
  next
    case False
    then have "val128 (u128_sub r l) = 100 * natD p * unat ss - 100 * natN p * unat wr"
      using l r by (simp add: val128_sub_le)
    then show ?thesis using False l r c
      by (auto simp: checkPriceErrorBound_def val128_gt val128_le within1Percent_def algebra_simps)
  qed
qed

lemma applyPriceErrorThresholds_exact:
  assumes p: "validPrice p" and lim: "wr < 2 ^ 63" "ss < 2 ^ 63"
    and fair: "stays \<Longrightarrow> wr * natN p \<le> ss * natD p" "\<not> stays \<Longrightarrow> ss * natD p \<le> wr * natN p"
  shows "applyPriceErrorThresholds p (of_nat wr) (of_nat ss) stays path =
    (let good = path \<and> wr * natN p < ss * natD p \<or> within1Percent (natN p) (natD p) wr ss;
         res = (\<lambda>a b. \<lparr>wheatReceived10 = of_nat a, sheepSend10 = of_nat b, wheatStays = stays\<rparr>)
     in if wr = 0 \<or> ss = 0 then Inr (res 0 0)
        else if good then Inr (res wr ss)
        else if path then Inl (RuntimeError ''exceeded price error bound'') else Inr (res 0 0))"
proof -
  have nn: "0 \<le> sint (of_nat wr :: int64)" "0 \<le> sint (of_nat ss :: int64)"
    using lim by (simp_all add: sint_of_nat64)
  have pn: "0 \<le> sint (pN p)" "0 \<le> sint (pD p)" using price_pos(1,2) [OF p] by simp_all
  obtain a where a: "bigMultiply (of_nat wr) (pN p) = Inr a" "val128 a = wr * natN p"
    using bigMultiply_exact [OF nn(1) pn(1)] lim by (auto simp: unat_of_nat64)
  obtain b where b: "bigMultiply (of_nat ss) (pD p) = Inr b" "val128 b = ss * natD p"
    using bigMultiply_exact [OF nn(2) pn(2)] lim by (auto simp: unat_of_nat64)
  have "throwIf (stays \<and> u128_lt b a) m = Inr ()" "throwIf (\<not> stays \<and> u128_gt b a) m = Inr ()" for m
    using fair a(2) b(2) by (auto simp: throwIf_def val128_lt val128_gt)
  then show ?thesis
    using a(1) b(1) lim checkPriceErrorBound_exact [OF p nn, of path]
    by (simp add: applyPriceErrorThresholds_def sint_of_nat64 unat_of_nat64)
qed

subsection \<open>Adjusted offers\<close>

text \<open>The amount that remains of an offer that can send at most \<open>W\<close> and receive at most \<open>s\<close>.\<close>

definition adjusted :: "nat \<Rightarrow> nat \<Rightarrow> nat \<Rightarrow> nat \<Rightarrow> nat" where
  "adjusted n d W s =
     (let (wr, ss) = exactAmounts n d False False (min (W * n) (s * d)) 0
      in if wr = 0 \<or> ss = 0 \<or> \<not> within1Percent n d wr ss then 0 else wr)"

text \<open>Taking exactly the amount of a previous exchange gives the same amounts again.\<close>

lemma exactAmounts_again:
  assumes "0 < n" "0 < d" "exactAmounts n d False path (min (W * n) (s * d)) x = (wr, ss)" "s \<le> s'"
  shows "exactAmounts n d False path' (min (wr * n) (s' * d)) y = (wr, ss)"
proof -
  let ?v = "min (W * n) (s * d)"
  have "s * d \<le> s' * d" using assms(4) by simp
  then have le: "?v \<le> s' * d" by linarith
  show ?thesis
  proof (cases "d < n")
    case True
    with assms(3) have wr: "wr = ?v div n" "ss = wr * n div d" by (auto simp: exactAmounts_def)
    have "wr * n \<le> s' * d" unfolding wr(1) using le le_trans [OF div_times_less_eq_dividend] by blast
    with True wr(2) assms(1) show ?thesis by (simp add: exactAmounts_def min_absorb1)
  next
    case False
    with assms(3) have ss: "ss = ?v div d" "wr = ceilDiv (ss * d) n" by (auto simp: exactAmounts_def)
    have "ss * d \<le> s' * d" unfolding ss(1) using le le_trans [OF div_times_less_eq_dividend] by blast
    moreover have "ss * d \<le> wr * n" "wr * n < ss * d + n" using ceilDiv_bounds [OF assms(1)] ss(2) by simp_all
    ultimately have "min (wr * n) (s' * d) div d = ss"
      using False by (intro div_nat_eqI) (auto simp: mult.commute [of d])
    with False ss(2) show ?thesis by (simp add: exactAmounts_def)
  qed
qed

lemma exactAmounts_zero: "exactAmounts n d False path 0 x = (0, 0)" if "0 < n" "0 < d"
  using that by (simp add: exactAmounts_def ceilDiv_def)

lemma exactAmounts_irrelevant: "exactAmounts n d False path v x = exactAmounts n d False False v 0"
  by (simp add: exactAmounts_def)

lemma adjusted_bounds:
  assumes "0 < n" "0 < d" "adjusted n d W s \<noteq> 0"
  obtains ss where "exactAmounts n d False False (min (W * n) (s * d)) 0 = (adjusted n d W s, ss)"
    "ss \<noteq> 0" "within1Percent n d (adjusted n d W s) ss"
  using assms(3) by (auto simp: adjusted_def split: prod.splits if_splits)

lemma adjusted_le:
  assumes "0 < n" "0 < d"
  shows "adjusted n d W s \<le> W"
proof (cases "adjusted n d W s = 0")
  case False
  then obtain ss where "exactAmounts n d False False (min (W * n) (s * d)) 0 = (adjusted n d W s, ss)"
    by (rule adjusted_bounds [OF assms])
  then have "exactAmounts n d False False (min (W * n) (s * d)) (min (s * d) (W * n)) = (adjusted n d W s, ss)"
    by (simp only: exactAmounts_irrelevant [of n d False _ "min (s * d) (W * n)"])
  then show ?thesis
    using exactAmounts_bounds(2) [OF assms, of "min (W * n) (s * d)" W s "min (s * d) (W * n)" s W False]
    by (simp add: min.commute)
qed simp

lemma adjusted_idem:
  assumes "0 < n" "0 < d"
  shows "adjusted n d (adjusted n d W s) s = adjusted n d W s"
proof (cases "adjusted n d W s = 0")
  case True
  then show ?thesis using exactAmounts_zero [OF assms] by (simp add: adjusted_def)
next
  case False
  then obtain ss where ss: "exactAmounts n d False False (min (W * n) (s * d)) 0 = (adjusted n d W s, ss)"
    "ss \<noteq> 0" "within1Percent n d (adjusted n d W s) ss"
    by (rule adjusted_bounds [OF assms])
  from exactAmounts_again [OF assms ss(1) order.refl, of False 0] False ss(2,3) show ?thesis
    by (simp add: adjusted_def [of n d "adjusted n d W s"])
qed

lemma exchangeV10_exact:
  assumes p: "validPrice p" and nonneg: "0 \<le> sint W" "0 \<le> sint w" "0 \<le> sint S" "0 \<le> sint s"
    and wv: "wv = min (unat W * natN p) (unat s * natD p)"
    and sv: "sv = min (unat S * natD p) (unat w * natN p)"
    and amounts: "exactAmounts (natN p) (natD p) (sv < wv) path wv sv = (wr, ss)"
  shows "exchangeV10 p W w S s path =
    (let good = path \<and> wr * natN p < ss * natD p \<or> within1Percent (natN p) (natD p) wr ss;
         res = (\<lambda>a b. \<lparr>wheatReceived10 = of_nat a, sheepSend10 = of_nat b, wheatStays = sv < wv\<rparr>)
     in if wr = 0 \<or> ss = 0 then Inr (res 0 0)
        else if good then Inr (res wr ss)
        else if path then Inl (RuntimeError ''exceeded price error bound'') else Inr (res 0 0))"
proof -
  note b = exactAmounts_bounds [OF price_pos(3,4) [OF p] wv sv amounts]
  have lim: "wr < 2 ^ 63" "ss < 2 ^ 63"
    using b(1,3) nonneg sint_nonneg(2) le_less_trans by blast+
  show ?thesis
    unfolding exchangeV10_def exchangeV10_unchecked [OF p nonneg wv sv amounts] bindE_simps
      ExchangeResultV10.simps
    by (rule applyPriceErrorThresholds_exact [OF p lim b(5,6)])
qed

lemma adjustOffer_exact:
  assumes p: "validPrice p" and nonneg: "0 \<le> sint W" "0 \<le> sint s"
  shows "adjustOffer p W s = Inr (of_nat (adjusted (natN p) (natD p) (unat W) (unat s)))"
proof -
  let ?n = "natN p" and ?d = "natD p"
  define wv where "wv = min (unat W * ?n) (unat s * ?d)"
  define sv where "sv = min (unat INT64_MAX * ?d) (unat INT64_MAX * ?n)"
  have "unat W \<le> unat INT64_MAX" "unat s \<le> unat INT64_MAX"
    using sint_nonneg(2) [OF nonneg(1)] sint_nonneg(2) [OF nonneg(2)] by simp_all
  then have "unat W * ?n \<le> unat INT64_MAX * ?n" "unat s * ?d \<le> unat INT64_MAX * ?d"
    by (simp_all only: mult_le_mono1)
  then have stays: "\<not> sv < wv" unfolding sv_def wv_def by linarith
  obtain wr ss where a: "exactAmounts ?n ?d False False wv 0 = (wr, ss)" by force
  then have "exactAmounts ?n ?d (sv < wv) False wv sv = (wr, ss)"
    using stays by (simp only: exactAmounts_irrelevant [of _ _ False _ sv])
  note e = exchangeV10_exact [OF p nonneg(1) _ _ nonneg(2) wv_def sv_def this]
  show ?thesis
    unfolding adjustOffer_def adjusted_def wv_def [symmetric] a
    by (subst e) (simp_all add: Let_def)
qed

text \<open>The liabilities of an adjusted offer are within what its owner can send and receive.\<close>

lemma adjusted_liabilities:
  assumes p: "validPrice p" and nonneg: "0 \<le> sint W" "0 \<le> sint s" and A: "adjustOffer p W s = Inr A"
  obtains r where "exchangeV10WithoutPriceErrorThresholds p A INT64_MAX INT64_MAX INT64_MAX False = Inr r"
    "0 \<le> sint (wheatReceived10 r)" "sint (wheatReceived10 r) \<le> sint W"
    "0 \<le> sint (sheepSend10 r)" "sint (sheepSend10 r) \<le> sint s" "0 \<le> sint A"
proof -
  let ?n = "natN p" and ?d = "natD p"
  define a where "a = adjusted ?n ?d (unat W) (unat s)"
  define wv where "wv = min (a * ?n) (unat INT64_MAX * ?d)"
  define sv where "sv = min (unat INT64_MAX * ?d) (unat INT64_MAX * ?n)"
  note pos = price_pos(3,4) [OF p]
  have aW: "a \<le> unat W" unfolding a_def by (rule adjusted_le [OF pos])
  have max: "unat W \<le> unat INT64_MAX" "unat s \<le> unat INT64_MAX"
    using sint_nonneg(2) [OF nonneg(1)] sint_nonneg(2) [OF nonneg(2)] by simp_all
  have "a * ?n \<le> unat INT64_MAX * ?n" using aW max(1) by (intro mult_le_mono1) linarith
  then have stays: "\<not> sv < wv" unfolding sv_def wv_def by linarith
  have Aa: "0 \<le> sint A" "unat A = a"
    using adjustOffer_exact [OF p nonneg] A aW sint_nonneg(2) [OF nonneg(1)]
    by (simp_all add: a_def sint_of_nat64 unat_of_nat64)
  have "\<exists>ss. exactAmounts ?n ?d (sv < wv) False wv sv = (a, ss) \<and> ss \<le> unat s"
  proof (cases "a = 0")
    case True
    with stays show ?thesis using exactAmounts_zero [OF pos, of False sv] by (simp add: wv_def)
  next
    case False
    then obtain ss where ss: "exactAmounts ?n ?d False False (min (unat W * ?n) (unat s * ?d)) 0 = (a, ss)"
      unfolding a_def by (rule adjusted_bounds [OF pos])
    have "ss \<le> unat s"
      using exactAmounts_bounds(4) [OF pos refl refl, of "unat s" "unat W" "unat W" "unat s" False a ss]
        ss exactAmounts_irrelevant [of ?n ?d False _ "min (unat s * ?d) (unat W * ?n)"] by (simp add: min.commute)
    moreover have "exactAmounts ?n ?d (sv < wv) False wv sv = (a, ss)"
      using exactAmounts_again [OF pos ss max(2), of False sv] stays by (simp only: wv_def [symmetric])
    ultimately show ?thesis by blast
  qed
  then obtain ss where ss: "exactAmounts ?n ?d (sv < wv) False wv sv = (a, ss)" "ss \<le> unat s" by blast
  have lim: "a < 2 ^ 63" "ss < 2 ^ 63"
    using aW ss(2) sint_nonneg(2) [OF nonneg(1)] sint_nonneg(2) [OF nonneg(2)] by linarith+
  have "exchangeV10WithoutPriceErrorThresholds p A INT64_MAX INT64_MAX INT64_MAX False =
      Inr \<lparr>wheatReceived10 = of_nat a, sheepSend10 = of_nat ss, wheatStays = sv < wv\<rparr>"
    by (rule exchangeV10_unchecked [OF p Aa(1) _ _ _ _ sv_def ss(1)]) (simp_all add: wv_def Aa(2))
  then show ?thesis
    by (rule that)
      (use int_le_sint [OF nonneg(1) aW] int_le_sint [OF nonneg(2) ss(2)] lim Aa(1) in \<open>simp_all add: sint_of_nat64\<close>)
qed

subsection \<open>Properties\<close>

declare of_nat_unat [simp del]

lemma sint_price:
  assumes "validPrice p"
  shows "sint (priceN p) = int (natN p)" "sint (priceD p) = int (natD p)"
proof -
  have "sint (scast w :: int64) = sint w" if "0 < sint (w :: int32)" for w
  proof -
    have "signed_take_bit 63 (sint w) = sint w"
      using that sint_lt [of w] by (simp add: signed_take_bit_int_eq_self_iff)
    then show ?thesis by (simp add: signed_scast_eq)
  qed
  then have "sint (pN p) = sint (priceN p)" "sint (pD p) = sint (priceD p)"
    using assms by (simp_all add: validPrice_def pN_def pD_def)
  then show "sint (priceN p) = int (natN p)" "sint (priceD p) = int (natD p)"
    using price_pos(1,2) [OF assms] sint_nonneg(1) by (metis less_imp_le)+
qed

text \<open>The limits of an exchange, and that it favours the offer that stays.\<close>

definition withinLimits :: "int64 \<Rightarrow> int64 \<Rightarrow> int64 \<Rightarrow> int64 \<Rightarrow> ExchangeResultV10 \<Rightarrow> bool" where
  "withinLimits W w S s r \<longleftrightarrow>
     0 \<le> sint (wheatReceived10 r) \<and> sint (wheatReceived10 r) \<le> min (sint W) (sint w) \<and>
     0 \<le> sint (sheepSend10 r) \<and> sint (sheepSend10 r) \<le> min (sint S) (sint s)"

definition favoursStaying :: "Price \<Rightarrow> ExchangeResultV10 \<Rightarrow> bool" where
  "favoursStaying p r \<longleftrightarrow>
     (if wheatStays r
      then sint (wheatReceived10 r) * sint (priceN p) \<le> sint (sheepSend10 r) * sint (priceD p)
      else sint (sheepSend10 r) * sint (priceD p) \<le> sint (wheatReceived10 r) * sint (priceN p))"

lemma amounts_fair:
  assumes p: "validPrice p" and nonneg: "0 \<le> sint W" "0 \<le> sint w" "0 \<le> sint S" "0 \<le> sint s"
    and wv: "wv = min (unat W * natN p) (unat s * natD p)"
    and sv: "sv = min (unat S * natD p) (unat w * natN p)"
    and amounts: "exactAmounts (natN p) (natD p) (sv < wv) path wv sv = (wr, ss)"
    and r: "r = \<lparr>wheatReceived10 = of_nat wr, sheepSend10 = of_nat ss, wheatStays = sv < wv\<rparr>"
  shows "withinLimits W w S s r \<and> favoursStaying p r \<and>
    sint (wheatReceived10 r) = int wr \<and> sint (sheepSend10 r) = int ss"
proof -
  note b = exactAmounts_bounds [OF price_pos(3,4) [OF p] wv sv amounts]
  have lim: "wr < 2 ^ 63" "ss < 2 ^ 63"
    using b(1,3) nonneg sint_nonneg(2) le_less_trans by blast+
  have "sint (of_nat wr :: int64) = int wr" "sint (of_nat ss :: int64) = int ss"
    using lim by (simp_all add: sint_of_nat64)
  moreover have "int wr \<le> sint w" "int wr \<le> sint W" "int ss \<le> sint S" "int ss \<le> sint s"
    using b(1-4) nonneg by (simp_all add: int_le_sint)
  moreover have "if sv < wv then int wr * int (natN p) \<le> int ss * int (natD p)
      else int ss * int (natD p) \<le> int wr * int (natN p)"
    using b(5,6) by (simp only: of_nat_mult [symmetric] of_nat_le_iff split: if_splits) simp
  ultimately show ?thesis
    by (simp add: r withinLimits_def favoursStaying_def sint_price [OF p])
qed

text \<open>C25. The exchange of protocol 10 never throws for a positive price and amounts that are not negative: the
  amounts stay within the limits of both sides, the rounding favours the offer that stays in the book,
  which is the one worth more, and an offer that does not stay has less left than one unit of the more
  valuable asset.\<close>

theorem exchangeV10_limits:
  assumes "validPrice p" "0 \<le> sint W" "0 \<le> sint w" "0 \<le> sint S" "0 \<le> sint s"
    and "wheatValue = min (sint W * sint (priceN p)) (sint s * sint (priceD p))"
    and "sheepValue = min (sint S * sint (priceD p)) (sint w * sint (priceN p))"
  shows "\<exists>r. exchangeV10WithoutPriceErrorThresholds p W w S s path = Inr r \<and>
    withinLimits W w S s r \<and> favoursStaying p r \<and> (wheatStays r \<longleftrightarrow> sheepValue < wheatValue) \<and>
    (\<not> wheatStays r \<longrightarrow>
       (if sint (priceD p) < sint (priceN p)
        then wheatValue < (sint (wheatReceived10 r) + 1) * sint (priceN p)
        else wheatValue < (sint (sheepSend10 r) + 1) * sint (priceD p)))"
proof -
  let ?n = "natN p" and ?d = "natD p"
  note pos = price_pos(3,4) [OF assms(1)]
  define wv where "wv = min (unat W * ?n) (unat s * ?d)"
  define sv where "sv = min (unat S * ?d) (unat w * ?n)"
  have "wheatValue = int wv" "sheepValue = int sv"
    using assms(2-) by (simp_all add: wv_def sv_def sint_price [OF assms(1)] sint_nonneg(1) of_nat_min
        del: uint_nat)
  moreover obtain wr ss where a: "exactAmounts ?n ?d (sv < wv) path wv sv = (wr, ss)" by force
  note e = exchangeV10_unchecked [OF assms(1-5) wv_def sv_def a]
  note f = amounts_fair [OF assms(1-5) wv_def sv_def a refl]
  have left: "v < (v div k + 1) * k" if "0 < k" for v k :: nat
    using dividend_less_div_times [OF that, of v] by simp
  have "if ?d < ?n then wv < (wr + 1) * ?n else wv < (ss + 1) * ?d" if "\<not> sv < wv"
    using a that left [OF pos(1)] left [OF pos(2)] by (auto simp: exactAmounts_def split: if_splits)
  then have "if ?d < ?n then int wv < (int wr + 1) * int ?n else int wv < (int ss + 1) * int ?d" if "\<not> sv < wv"
    using that by (auto simp flip: of_nat_mult of_nat_Suc simp: add.commute split: if_splits)
  ultimately show ?thesis using e f by (simp add: sint_price [OF assms(1)])
qed

theorem exchangeV10_limits_witness:
  "\<exists>r. exchangeV10WithoutPriceErrorThresholds \<lparr>priceN = 3, priceD = 2\<rparr> 100 5 60 1000 False = Inr r \<and>
     withinLimits 100 5 60 1000 r \<and> wheatStays r"
proof -
  let ?p = "\<lparr>priceN = 3, priceD = 2\<rparr>"
  have "validPrice ?p" by (simp add: validPrice_def)
  moreover have "0 \<le> sint (100 :: int64)" "0 \<le> sint (5 :: int64)" "0 \<le> sint (60 :: int64)" "0 \<le> sint (1000 :: int64)"
    "300 = min (sint (100 :: int64) * sint (priceN ?p)) (sint (1000 :: int64) * sint (priceD ?p))"
    "15 = min (sint (60 :: int64) * sint (priceD ?p)) (sint (5 :: int64) * sint (priceN ?p))"
    by simp_all
  ultimately have "\<exists>r. exchangeV10WithoutPriceErrorThresholds ?p 100 5 60 1000 False = Inr r \<and>
      withinLimits 100 5 60 1000 r \<and> (wheatStays r \<longleftrightarrow> (15::int) < 300)"
    using exchangeV10_limits [of ?p 100 5 60 1000 300 15 False] by blast
  then show ?thesis by simp
qed

text \<open>Adjusting an offer to what its owner can send and receive never throws, never raises the amount and is
  idempotent: an adjusted offer is its own adjustment.\<close>

theorem adjustOffer_idempotent:
  assumes "validPrice p" "0 \<le> sint W" "0 \<le> sint s"
  shows "\<exists>a. adjustOffer p W s = Inr a \<and> 0 \<le> sint a \<and> sint a \<le> sint W \<and> adjustOffer p a s = Inr a"
proof -
  let ?a = "adjusted (natN p) (natD p) (unat W) (unat s)"
  note pos = price_pos(3,4) [OF assms(1)]
  have le: "?a \<le> unat W" using adjusted_le [OF pos] .
  then have lim: "?a < 2 ^ 63" using sint_nonneg(2) [OF assms(2)] by linarith
  have "adjustOffer p (of_nat ?a) s = Inr (of_nat ?a)"
    using adjustOffer_exact [OF assms(1) _ assms(3), of "of_nat ?a"] lim
    by (simp add: sint_of_nat64 unat_of_nat64 adjusted_idem [OF pos])
  then show ?thesis
    using adjustOffer_exact [OF assms] lim int_le_sint [OF assms(2) le] by (simp add: sint_of_nat64)
qed

theorem adjustOffer_idempotent_witness:
  "\<exists>a. adjustOffer \<lparr>priceN = 3, priceD = 2\<rparr> 101 200 = Inr a \<and> adjustOffer \<lparr>priceN = 3, priceD = 2\<rparr> a 200 = Inr a"
  using adjustOffer_idempotent [of "\<lparr>priceN = 3, priceD = 2\<rparr>" 101 200] by (auto simp: validPrice_def)

text \<open>An exchange with the full amount of an adjusted offer repeats the amounts of the adjustment.\<close>

lemma exactAmounts_adjusted:
  assumes pos: "0 < n" "0 < d" and A: "A = adjusted n d W s"
    and amounts: "exactAmounts n d False path (min (A * n) (s * d)) x = (wr, ss)" and "wr \<noteq> 0" "ss \<noteq> 0"
  shows "within1Percent n d wr ss"
proof (cases "A = 0")
  case True
  then show ?thesis using exactAmounts_zero [OF pos] amounts assms(5) by simp
next
  case False
  then obtain ss' where "exactAmounts n d False False (min (W * n) (s * d)) 0 = (A, ss')" "within1Percent n d A ss'"
    unfolding A by (rule adjusted_bounds [OF pos])
  with exactAmounts_again [OF pos this(1) order.refl, of path x] amounts show ?thesis by simp
qed

lemma exchangeV10_after_adjust:
  assumes "validPrice p" "0 \<le> sint W" "0 \<le> sint w" "0 \<le> sint S" "0 \<le> sint s" "adjustOffer p W s = Inr a"
  shows "\<exists>r. exchangeV10 p a w S s path = Inr r \<and> withinLimits a w S s r \<and> favoursStaying p r \<and>
    (wheatReceived10 r = 0 \<longleftrightarrow> sheepSend10 r = 0) \<and>
    100 * (sint (wheatReceived10 r) * sint (priceN p)) \<le>
      100 * (sint (sheepSend10 r) * sint (priceD p)) + sint (wheatReceived10 r) * sint (priceN p) \<and>
    (\<not> path \<longrightarrow> 100 * (sint (sheepSend10 r) * sint (priceD p)) \<le> 101 * (sint (wheatReceived10 r) * sint (priceN p)))"
proof -
  let ?n = "natN p" and ?d = "natD p"
  define A where "A = adjusted ?n ?d (unat W) (unat s)"
  note pos = price_pos(3,4) [OF assms(1)]
  have "A < 2 ^ 63" using adjusted_le [OF pos] sint_nonneg(2) [OF assms(2)] unfolding A_def by (meson le_less_trans)
  then have a: "0 \<le> sint a" "unat a = A"
    using adjustOffer_exact [OF assms(1,2,5)] assms(6) by (simp_all add: sint_of_nat64 unat_of_nat64 A_def)
  define wv where "wv = min (unat a * ?n) (unat s * ?d)"
  define sv where "sv = min (unat S * ?d) (unat w * ?n)"
  obtain wr ss where am: "exactAmounts ?n ?d (sv < wv) path wv sv = (wr, ss)" by force
  note e = exchangeV10_exact [OF assms(1) a(1) assms(3-5) wv_def sv_def am]
  note f = amounts_fair [OF assms(1) a(1) assms(3-5) wv_def sv_def am refl]
  note b = exactAmounts_bounds(5,6) [OF pos wv_def sv_def am]
  show ?thesis
  proof (cases "wr = 0 \<or> ss = 0 \<or> \<not> path \<and> \<not> within1Percent ?n ?d wr ss")
    case True
    then show ?thesis using e a(1) assms(3-5)
      by (auto simp: withinLimits_def favoursStaying_def)
  next
    case False
    have good: "path \<and> wr * ?n < ss * ?d \<or> within1Percent ?n ?d wr ss"
    proof (cases "sv < wv")
      case True
      with b(1) show ?thesis using False by (auto simp: within1Percent_def)
    next
      case stays: False
      with am have "exactAmounts ?n ?d False path wv sv = (wr, ss)" by simp
      from exactAmounts_adjusted [OF pos A_def this [unfolded wv_def a(2)]] False show ?thesis by auto
    qed
    then have "100 * (wr * ?n) \<le> 100 * (ss * ?d) + wr * ?n" "\<not> path \<Longrightarrow> 100 * (ss * ?d) \<le> 101 * (wr * ?n)"
      by (auto simp: within1Percent_def)
    then have "100 * (int wr * int ?n) \<le> 100 * (int ss * int ?d) + int wr * int ?n"
      "\<not> path \<Longrightarrow> 100 * (int ss * int ?d) \<le> 101 * (int wr * int ?n)"
      by (simp_all flip: of_nat_mult)
    then show ?thesis using e f good False by (auto simp: sint_price [OF assms(1)])
  qed
qed

text \<open>C23. Crossing an adjusted offer never throws, in a path payment or not: amounts are within all limits, both
  are zero or none, the offer that stays is favoured, the seller never receives more than one percent too
  little, and outside path payments never more than one percent too much.\<close>

theorem exchangeV10_adjusted:
  assumes "validPrice p" "0 \<le> sint W" "0 \<le> sint w" "0 \<le> sint S" "0 \<le> sint s" "adjustOffer p W s = Inr a"
  shows "\<exists>r. exchangeV10 p a w S s path = Inr r \<and> withinLimits a w S s r \<and> favoursStaying p r \<and>
    (wheatReceived10 r = 0 \<longleftrightarrow> sheepSend10 r = 0) \<and>
    100 * (sint (wheatReceived10 r) * sint (priceN p)) \<le>
      100 * (sint (sheepSend10 r) * sint (priceD p)) + sint (wheatReceived10 r) * sint (priceN p) \<and>
    (\<not> path \<longrightarrow> 100 * (sint (sheepSend10 r) * sint (priceD p)) \<le> 101 * (sint (wheatReceived10 r) * sint (priceN p)))"
  using assms by (rule exchangeV10_after_adjust)

theorem exchangeV10_adjusted_witness:
  "\<exists>a r. adjustOffer \<lparr>priceN = 3, priceD = 2\<rparr> 101 200 = Inr a \<and>
     exchangeV10 \<lparr>priceN = 3, priceD = 2\<rparr> a 7 1000 200 True = Inr r \<and> withinLimits a 7 1000 200 r"
proof -
  let ?p = "\<lparr>priceN = 3, priceD = 2\<rparr>"
  have p: "validPrice ?p" by (simp add: validPrice_def)
  have nn: "0 \<le> sint (101 :: int64)" "0 \<le> sint (7 :: int64)" "0 \<le> sint (1000 :: int64)" "0 \<le> sint (200 :: int64)"
    by simp_all
  have "adjustOffer ?p 101 200 = Inr (of_nat (adjusted (natN ?p) (natD ?p) (unat (101 :: int64)) (unat (200 :: int64))))"
    using adjustOffer_exact [OF p nn(1,4)] .
  with exchangeV10_adjusted [OF p nn this, of True] show ?thesis by blast
qed

subsection \<open>Earlier protocols\<close>

lemma sint_min64: "sint (min64 a b) = min (sint a) (sint b)"
  by (simp add: min64_def min_def)

text \<open>A quotient that does not fit is replaced by the greatest amount.\<close>

lemma saturated_division:
  assumes "0 \<le> sint A" "0 \<le> sint B" "0 < sint C" and x: "x = roundedDiv rounding (unat A * unat B) (unat C)"
  obtains ok q where "bigDivide_s64 0 A B C rounding = Inr (ok, q)" "ok \<longleftrightarrow> x < 2 ^ 63"
    "sint (if ok then q else INT64_MAX) = min (int x) (2 ^ 63 - 1)"
proof -
  obtain q where q: "bigDivide_s64 0 A B C rounding = Inr (x < 2 ^ 63, q)" "x < 2 ^ 63 \<longrightarrow> sint q = int x"
    using bigDivide_s64_correct [OF assms(1-3), of 0 rounding] x by blast
  have "sint (if x < 2 ^ 63 then q else INT64_MAX) = min (int x) (2 ^ 63 - 1)" using q(2) by auto
  with q(1) that show ?thesis by blast
qed

definition oldLimits :: "Price \<Rightarrow> int64 \<Rightarrow> int64 \<Rightarrow> int64 \<Rightarrow> ExchangeResult \<Rightarrow> bool" where
  "oldLimits p W w S r \<longleftrightarrow>
     0 \<le> sint (numWheatReceived r) \<and> sint (numWheatReceived r) \<le> min (sint W) (sint w) \<and>
     0 \<le> sint (numSheepSend r) \<and> sint (numSheepSend r) \<le> sint S \<and>
     sint (numWheatReceived r) * sint (priceN p) \<le> sint (numSheepSend r) * sint (priceD p)"

lemma floor_price: "int (a * b div c) * int c \<le> int a * int b"
  by (metis div_times_less_eq_dividend of_nat_le_iff of_nat_mult)

lemma exchangeV2_correct:
  assumes p: "validPrice p" and nonneg: "0 \<le> sint W" "0 \<le> sint w" "0 \<le> sint S"
  shows "\<exists>r. exchangeV2 W p w S = Inr r \<and> oldLimits p W w S r"
proof -
  note pos = price_pos [OF p]
  let ?a = "min64 W w"
  let ?x = "roundedDiv ROUND_DOWN (unat ?a * natN p) (natD p)"
  have a: "0 \<le> sint ?a" using nonneg by (simp add: sint_min64)
  obtain ok q where q: "bigDivide_s64 0 ?a (pN p) (pD p) ROUND_DOWN = Inr (ok, q)"
    "sint (if ok then q else INT64_MAX) = min (int ?x) (2 ^ 63 - 1)"
    by (rule saturated_division [OF a less_imp_le [OF pos(1)] pos(2) refl])
  define sh where "sh = min64 (if ok then q else INT64_MAX) S"
  have sh: "sint sh = min (min (int ?x) (2 ^ 63 - 1)) (sint S)" by (simp add: sh_def sint_min64 q(2))
  then have sh0: "0 \<le> sint sh" "sint sh \<le> sint S" "sint sh \<le> int ?x" using nonneg by simp_all
  then have "int (unat sh) \<le> int ?x" using sint_nonneg(1) by metis
  then have "unat sh * natD p \<le> unat ?a * natN p"
    using div_times_less_eq_dividend [of "unat ?a * natN p" "natD p"]
    by (auto simp: roundedDiv_def elim!: order_trans [OF mult_le_mono1])
  then have y: "unat sh * natD p div natN p \<le> unat ?a"
    using div_le_mono [of "unat sh * natD p" "unat ?a * natN p" "natN p"] pos(3) by simp
  then have y63: "unat sh * natD p div natN p < 2 ^ 63" using sint_nonneg(2) [OF a] by linarith
  have "bigDivide sh (pD p) (pN p) ROUND_DOWN = Inr (of_nat (unat sh * natD p div natN p))"
    by (rule bigDivide_floor [OF sh0(1) less_imp_le [OF pos(2)] pos(1) y63])
  moreover have "int (unat sh * natD p div natN p) * int (natN p) \<le> sint sh * int (natD p)"
    using floor_price [of "unat sh" "natD p" "natN p"] sint_nonneg(1) [OF sh0(1)] by simp
  ultimately show ?thesis
    using q(1) int_le_sint [OF a y] sint_of_nat64 [OF y63] sh0(1,2)
    by (simp add: exchangeV2_def sh_def [symmetric] oldLimits_def sint_price [OF p] sint_min64)
qed

lemma exchangeV3_correct:
  assumes p: "validPrice p" and nonneg: "0 \<le> sint W" "0 \<le> sint w" "0 \<le> sint S"
  shows "\<exists>r. exchangeV3 W p w S = Inr r \<and> oldLimits p W w S r"
proof -
  note pos = price_pos [OF p]
  let ?a = "min64 W w"
  let ?x = "roundedDiv ROUND_UP (unat ?a * natN p) (natD p)"
  have a: "0 \<le> sint ?a" using nonneg by (simp add: sint_min64)
  obtain ok q where q: "bigDivide_s64 0 ?a (pN p) (pD p) ROUND_UP = Inr (ok, q)"
    "sint (if ok then q else INT64_MAX) = min (int ?x) (2 ^ 63 - 1)"
    by (rule saturated_division [OF a less_imp_le [OF pos(1)] pos(2) refl])
  define sh where "sh = min64 (if ok then q else INT64_MAX) S"
  have "sint sh = min (min (int ?x) (2 ^ 63 - 1)) (sint S)" by (simp add: sh_def sint_min64 q(2))
  then have sh: "0 \<le> sint sh" "sint sh \<le> sint S" using nonneg by simp_all
  let ?y = "unat sh * natD p div natN p"
  obtain ok' q' where q': "bigDivide_s64 0 sh (pD p) (pN p) ROUND_DOWN = Inr (ok', q')"
    "sint (if ok' then q' else INT64_MAX) = min (int ?y) (2 ^ 63 - 1)"
    by (rule saturated_division [OF sh(1) less_imp_le [OF pos(2)] pos(1), of ?y ROUND_DOWN])
      (simp add: roundedDiv_def)
  define wr where "wr = min64 ?a (if ok' then q' else INT64_MAX)"
  have wr: "0 \<le> sint wr" "sint wr \<le> sint ?a" "sint wr \<le> int ?y"
    using a unfolding wr_def sint_min64 q'(2) by simp_all linarith+
  have "sint wr * int (natN p) \<le> int ?y * int (natN p)" using wr(3) by (rule mult_right_mono) simp
  then have "sint wr * int (natN p) \<le> sint sh * int (natD p)"
    using floor_price [of "unat sh" "natD p" "natN p"] sint_nonneg(1) [OF sh(1)] by (simp only: le_trans)
  then show ?thesis
    using q(1) q'(1) wr(1,2) sh
    by (simp add: exchangeV3_def sh_def [symmetric] wr_def [symmetric] oldLimits_def sint_price [OF p] sint_min64)
qed

text \<open>The exchanges of earlier protocols never throw for a positive price and amounts that are not negative:
  the buyer receives at most what is offered and asked for, sends at most its limit, and never pays less than
  the price.\<close>

theorem exchange_before_v10:
  assumes "validPrice p" "0 \<le> sint W" "0 \<le> sint w" "0 \<le> sint S" "exchange = exchangeV2 \<or> exchange = exchangeV3"
  shows "\<exists>r. exchange W p w S = Inr r \<and> oldLimits p W w S r"
  using assms exchangeV2_correct exchangeV3_correct by blast

theorem exchange_before_v10_witness:
  "\<exists>r. exchangeV3 100 \<lparr>priceN = 3, priceD = 2\<rparr> 7 1000 = Inr r \<and> oldLimits \<lparr>priceN = 3, priceD = 2\<rparr> 100 7 1000 r"
  by (rule exchange_before_v10) (simp_all add: validPrice_def)

declare of_nat_unat [simp]

end
