(* ===== verification/Balance_Properties.thy ===== *)
theory Balance_Properties
  imports Ledger_Balance Exchange_Properties
begin

text \<open>
  Correctness of the balance operations from protocol version 10: on a well-formed entry they keep it
  well formed, and the amounts that \<open>getAvailableBalance\<close> and \<open>getMaxAmountReceive\<close> report are
  exactly the largest ones that \<open>addBalance\<close> accepts. The locale \<open>balance_contract\<close> states the contract
  of a quantity that can be lowered and raised within limits; the balance and both kinds of liabilities of an
  entry interpret it, and the exchange of offers relies on nothing else.
\<close>

subsection \<open>Signed arithmetic in range\<close>

lemma sint_range: "- (2 ^ 63) \<le> sint (a :: int64)" "sint (a :: int64) < 2 ^ 63"
  using sint_ge [of a] sint_lt [of a] by simp_all

lemma sint_add64:
  assumes "- (2 ^ 63) \<le> sint a + sint b" "sint a + sint b < 2 ^ 63"
  shows "sint (a + b :: int64) = sint a + sint b"
  using assms by (simp add: sint_word_ariths signed_take_bit_int_eq_self_iff)

lemma sint_sub64:
  assumes "- (2 ^ 63) \<le> sint a - sint b" "sint a - sint b < 2 ^ 63"
  shows "sint (a - b :: int64) = sint a - sint b"
  using assms by (simp add: sint_word_ariths signed_take_bit_int_eq_self_iff)

lemma sint_neg64: "0 \<le> sint (a :: int64) \<Longrightarrow> sint (- a) = - sint a"
  using sint_range [of a] by (simp add: sint_word_ariths signed_take_bit_int_eq_self_iff)

lemma sint_sub_nonneg: "0 \<le> sint (a :: int64) \<Longrightarrow> 0 \<le> sint b \<Longrightarrow> sint (a - b) = sint a - sint b"
  using sint_range [of a] sint_range [of b] by (intro sint_sub64) linarith+

lemma sint_INT64_MAX [simp]: "sint INT64_MAX = 2 ^ 63 - 1"
  by simp

lemma sint_eq_0 [simp]: "sint (a :: int64) = 0 \<longleftrightarrow> a = 0"
  by (metis of_int_0 of_int_sint scast_id sint_0)

lemma addBalance64_exact:
  assumes "0 \<le> sint b" "0 \<le> sint m" "d \<noteq> 0"
  shows "addBalance64 b d m =
    Inr (if 0 \<le> sint b + sint d \<and> sint b + sint d \<le> sint m then (True, b + d) else (False, b))"
  using assms by (auto simp: addBalance64_def assertE_def sint_neg64 sint_sub_nonneg)

lemma addBalance64_sum:
  assumes "0 \<le> sint b + sint d" "sint b + sint d \<le> sint (m :: int64)"
  shows "sint (b + d :: int64) = sint b + sint d"
  using assms sint_range [of m] by (intro sint_add64) linarith+

subsection \<open>Well-formed entries\<close>

definition accountOk :: "LedgerHeader \<Rightarrow> AccountEntry \<Rightarrow> bool" where
  "accountOk h acc \<longleftrightarrow>
     0 \<le> sint (accBalance acc) \<and> 0 \<le> sint (extBuying (accExt acc)) \<and> 0 \<le> sint (extSelling (accExt acc)) \<and>
     (extSelling (accExt acc) = 0 \<or>
      sint (getMinBalance h (numSubEntries acc)) + sint (extSelling (accExt acc)) \<le> sint (accBalance acc)) \<and>
     sint (accBalance acc) + sint (extBuying (accExt acc)) \<le> 2 ^ 63 - 1 \<and> numSubEntries acc \<le> 0x7FFFFFFD"

definition lineOk :: "TrustLineEntry \<Rightarrow> bool" where
  "lineOk line \<longleftrightarrow>
     0 \<le> sint (extBuying (tlExt line)) \<and> 0 \<le> sint (extSelling (tlExt line)) \<and>
     sint (extSelling (tlExt line)) \<le> sint (tlBalance line) \<and>
     sint (tlBalance line) + sint (extBuying (tlExt line)) \<le> sint (tlLimit line)"

definition entryOk :: "LedgerHeader \<Rightarrow> LedgerEntry \<Rightarrow> bool" where
  "entryOk h le = (case entryData le of ACCOUNT acc \<Rightarrow> accountOk h acc | TRUSTLINE line \<Rightarrow> lineOk line | _ \<Rightarrow> True)"

text \<open>An account, or a trust line whose issuer has authorized it.\<close>

definition holder :: "LedgerEntry \<Rightarrow> bool" where
  "holder le = (case entryData le of ACCOUNT acc \<Rightarrow> True | TRUSTLINE line \<Rightarrow> and (tlFlags line) 1 \<noteq> 0 | _ \<Rightarrow> False)"

definition balanceOf :: "LedgerEntry \<Rightarrow> int64" where
  "balanceOf le = (case entryData le of ACCOUNT acc \<Rightarrow> accBalance acc | TRUSTLINE line \<Rightarrow> tlBalance line | _ \<Rightarrow> 0)"

definition setBalance :: "int64 \<Rightarrow> LedgerEntry \<Rightarrow> LedgerEntry" where
  "setBalance b le =
     (case entryData le of
        ACCOUNT acc \<Rightarrow> setAccBalance b acc le
      | TRUSTLINE line \<Rightarrow> setTlBalance b line le
      | _ \<Rightarrow> le)"

lemma minBalance_nonneg:
  assumes "10 \<le> ledgerVersion h" "n \<le> 0x7FFFFFFD"
  shows "0 \<le> sint (getMinBalance h n)"
proof -
  have n: "unat n \<le> 0x7FFFFFFD" using assms(2) by (simp add: word_le_nat_alt)
  then have "unat (2 + n) = 2 + unat n" by (simp add: unat_word_ariths)
  then have "unat (ucast (2 + n) :: int64) < 2 ^ 31" using n
    by (simp add: unsigned_ucast_eq take_bit_nat_eq_self)
  moreover have "unat (ucast (baseReserve h) :: int64) < 2 ^ 32"
    using unsigned_less [of "baseReserve h", where 'a = nat] by (simp add: unsigned_ucast_eq take_bit_nat_eq_self)
  ultimately have p: "unat (ucast (2 + n) :: int64) * unat (ucast (baseReserve h) :: int64) < 2 ^ 31 * 2 ^ 32"
    by (intro mult_strict_mono') simp_all
  then have "unat (ucast (2 + n) * ucast (baseReserve h) :: int64) < 2 ^ 63"
    by (simp add: unat_word_ariths)
  moreover have "\<not> ledgerVersion h \<le> 8" using assms(1) by (auto simp: word_le_nat_alt)
  ultimately show ?thesis using sint_small [of "getMinBalance h n"] by (simp add: getMinBalance_def)
qed

lemma liabilities_simps:
  assumes "10 \<le> ledgerVersion h"
  shows "getSellingLiabilities h le =
      (case entryData le of ACCOUNT acc \<Rightarrow> Inr (extSelling (accExt acc))
       | TRUSTLINE line \<Rightarrow> Inr (extSelling (tlExt line)) | _ \<Rightarrow> Inl (RuntimeError ''Unknown LedgerEntry type''))"
    "getBuyingLiabilities h le =
      (case entryData le of ACCOUNT acc \<Rightarrow> Inr (extBuying (accExt acc))
       | TRUSTLINE line \<Rightarrow> Inr (extBuying (tlExt line)) | _ \<Rightarrow> Inl (RuntimeError ''Unknown LedgerEntry type''))"
  using leD [OF assms] by (simp_all add: getSellingLiabilities_def getBuyingLiabilities_def)

subsection \<open>What can be sent and received\<close>

definition spendable :: "LedgerHeader \<Rightarrow> LedgerEntry \<Rightarrow> int" where
  "spendable h le =
     (case entryData le of
        ACCOUNT acc \<Rightarrow> sint (accBalance acc) - sint (getMinBalance h (numSubEntries acc)) - sint (extSelling (accExt acc))
      | TRUSTLINE line \<Rightarrow> sint (tlBalance line) - sint (extSelling (tlExt line))
      | _ \<Rightarrow> 0)"

definition receivable :: "LedgerEntry \<Rightarrow> int" where
  "receivable le =
     (case entryData le of
        ACCOUNT acc \<Rightarrow> 2 ^ 63 - 1 - sint (accBalance acc) - sint (extBuying (accExt acc))
      | TRUSTLINE line \<Rightarrow> sint (tlLimit line) - sint (tlBalance line) - sint (extBuying (tlExt line))
      | _ \<Rightarrow> 0)"

lemma getAvailableBalance_exact:
  assumes "10 \<le> ledgerVersion h" "entryOk h le" "holder le"
  obtains a where "getAvailableBalance h le = Inr a" "sint a = spendable h le"
proof (cases "entryData le")
  case (ACCOUNT acc)
  let ?m = "getMinBalance h (numSubEntries acc)"
  have ok: "accountOk h acc" using assms(2) ACCOUNT by (simp add: entryOk_def)
  have m: "0 \<le> sint ?m"
    using assms(1) ok by (intro minBalance_nonneg) (auto simp: accountOk_def)
  then have "sint (accBalance acc - ?m - extSelling (accExt acc)) = spendable h le"
    using ok ACCOUNT sint_range [of ?m] sint_range [of "accBalance acc"]
    by (subst sint_sub64) (auto simp: sint_sub_nonneg accountOk_def spendable_def)
  then show ?thesis using assms(1) ACCOUNT
    by (intro that [of "accBalance acc - ?m - extSelling (accExt acc)"])
      (simp_all add: getAvailableBalance_def liabilities_simps)
next
  case (TRUSTLINE line)
  then show ?thesis using assms
    by (intro that [of "tlBalance line - extSelling (tlExt line)"])
      (auto simp: getAvailableBalance_def liabilities_simps spendable_def entryOk_def lineOk_def intro: sint_sub_nonneg)
qed (use assms(3) in \<open>simp_all add: holder_def\<close>)

lemma getMaxAmountReceive_exact:
  assumes "10 \<le> ledgerVersion h" "entryOk h le" "holder le"
  obtains m where "getMaxAmountReceive h le = Inr m" "sint m = receivable le"
proof (cases "entryData le")
  case (ACCOUNT acc)
  have ok: "accountOk h acc" using assms(2) ACCOUNT by (simp add: entryOk_def)
  have s: "sint (accBalance acc + extBuying (accExt acc)) = sint (accBalance acc) + sint (extBuying (accExt acc))"
    using ok by (intro sint_add64) (auto simp: accountOk_def)
  then have "sint (INT64_MAX - (accBalance acc + extBuying (accExt acc))) = receivable le"
    using ok ACCOUNT by (subst sint_sub_nonneg) (simp_all add: accountOk_def receivable_def)
  then show ?thesis using assms(1) ACCOUNT
    by (intro that [of "INT64_MAX - (accBalance acc + extBuying (accExt acc))"])
      (simp_all add: getMaxAmountReceive_def liabilities_simps)
next
  case (TRUSTLINE line)
  have ok: "lineOk line" using assms(2) TRUSTLINE by (simp add: entryOk_def)
  then have "sint (tlLimit line - tlBalance line - extBuying (tlExt line)) = receivable le"
    using TRUSTLINE by (auto simp: sint_sub_nonneg lineOk_def receivable_def)
  then show ?thesis using assms TRUSTLINE
    by (intro that [of "tlLimit line - tlBalance line - extBuying (tlExt line)"])
      (simp_all add: getMaxAmountReceive_def liabilities_simps isAuthorized_def holder_def)
qed (use assms(3) in \<open>simp_all add: holder_def\<close>)

lemma addBalance_exact:
  assumes "10 \<le> ledgerVersion h" "entryOk h le" "holder le" "d \<noteq> 0"
  shows "addBalance h le d =
    Inr (if (if sint d < 0 then - sint d \<le> spendable h le else sint d \<le> receivable le)
         then (True, setBalance (balanceOf le + d) le) else (False, le))"
proof (cases "entryData le")
  case (ACCOUNT acc)
  let ?m = "getMinBalance h (numSubEntries acc)" and ?b = "accBalance acc"
  have ok: "accountOk h acc" using assms(2) ACCOUNT by (simp add: entryOk_def)
  have m: "0 \<le> sint ?m"
    using assms(1) ok by (intro minBalance_nonneg) (auto simp: accountOk_def)
  have "sint (?b + d - ?m) = sint ?b + sint d - sint ?m" "sint (?b + d) = sint ?b + sint d"
    if "0 \<le> sint ?b + sint d" "sint ?b + sint d \<le> 2 ^ 63 - 1"
    using addBalance64_sum [of ?b d INT64_MAX] that m by (simp_all add: sint_sub_nonneg)
  moreover have "sint (INT64_MAX - extBuying (accExt acc)) = 2 ^ 63 - 1 - sint (extBuying (accExt acc))"
    using ok by (simp add: sint_sub_nonneg accountOk_def)
  ultimately show ?thesis
    using ok m assms(1,4) ACCOUNT
    by (auto simp: addBalance_def addBalance64_exact liabilities_simps accountOk_def spendable_def receivable_def
        setBalance_def balanceOf_def)
next
  case (TRUSTLINE line)
  let ?b = "tlBalance line"
  have ok: "lineOk line" using assms(2) TRUSTLINE by (simp add: entryOk_def)
  have "sint (?b + d) = sint ?b + sint d"
    if "0 \<le> sint ?b + sint d" "sint ?b + sint d \<le> sint (tlLimit line)"
    using addBalance64_sum that by blast
  moreover have "sint (tlLimit line - extBuying (tlExt line)) = sint (tlLimit line) - sint (extBuying (tlExt line))"
    using ok by (simp add: sint_sub_nonneg lineOk_def)
  ultimately show ?thesis
    using ok assms(1,3,4) TRUSTLINE
    by (auto simp: addBalance_def addBalance64_exact liabilities_simps lineOk_def spendable_def receivable_def
        setBalance_def balanceOf_def isAuthorized_def holder_def)
qed (use assms(3) in \<open>simp_all add: holder_def\<close>)

lemma setBalance_simps [simp]:
  "holder le \<Longrightarrow> balanceOf (setBalance b le) = b"
  "holder (setBalance b le) = holder le"
  "setBalance b (setBalance c le) = setBalance b le"
  by (auto simp: balanceOf_def holder_def setBalance_def setAccBalance_def setTlBalance_def split: EntryData.splits)

subsection \<open>The contract of a balance\<close>

definition accepts :: "LedgerHeader \<Rightarrow> LedgerEntry \<Rightarrow> int64 \<Rightarrow> bool" where
  "accepts h le d \<longleftrightarrow> (if sint d < 0 then - sint d \<le> spendable h le else sint d \<le> receivable le)"

definition moved :: "LedgerEntry \<Rightarrow> int64 \<Rightarrow> LedgerEntry" where
  "moved le d = setBalance (balanceOf le + d) le"

lemma spendable_le_balance:
  assumes "10 \<le> ledgerVersion h" "entryOk h le" "holder le"
  shows "spendable h le \<le> sint (balanceOf le)" "0 \<le> receivable le" "0 \<le> sint (balanceOf le)"
    "sint (balanceOf le) + receivable le \<le> 2 ^ 63 - 1"
proof -
  have "spendable h le \<le> sint (balanceOf le) \<and> 0 \<le> receivable le \<and> 0 \<le> sint (balanceOf le) \<and>
    sint (balanceOf le) + receivable le \<le> 2 ^ 63 - 1"
  proof (cases "entryData le")
    case (ACCOUNT acc)
    then have ok: "accountOk h acc" using assms(2) by (simp add: entryOk_def)
    then have "0 \<le> sint (getMinBalance h (numSubEntries acc))"
      using minBalance_nonneg [OF assms(1)] by (simp add: accountOk_def)
    with ok show ?thesis using ACCOUNT by (auto simp: accountOk_def spendable_def balanceOf_def receivable_def)
  next
    case (TRUSTLINE line)
    then have "lineOk line" using assms(2) by (simp add: entryOk_def)
    then show ?thesis using TRUSTLINE sint_range(2) [of "tlLimit line"]
      by (auto simp: lineOk_def spendable_def balanceOf_def receivable_def)
  qed (use assms(3) in \<open>simp_all add: holder_def\<close>)
  then show "spendable h le \<le> sint (balanceOf le)" "0 \<le> receivable le" "0 \<le> sint (balanceOf le)"
    "sint (balanceOf le) + receivable le \<le> 2 ^ 63 - 1" by blast+
qed

lemma accepts_sum:
  assumes "10 \<le> ledgerVersion h" "entryOk h le" "holder le" "accepts h le d"
  shows "sint (balanceOf le + d) = sint (balanceOf le) + sint d"
  using spendable_le_balance [OF assms(1-3)] assms(4)
  by (intro sint_add64) (auto simp: accepts_def split: if_splits)

lemma moved_effect:
  assumes "10 \<le> ledgerVersion h" "entryOk h le" "holder le" "accepts h le d"
  shows "entryOk h (moved le d)" "holder (moved le d)" "spendable h (moved le d) = spendable h le + sint d"
    "receivable (moved le d) = receivable le - sint d" "sint (balanceOf (moved le d)) = sint (balanceOf le) + sint d"
proof -
  note sum = accepts_sum [OF assms]
  have "entryOk h (moved le d) \<and> spendable h (moved le d) = spendable h le + sint d \<and>
    receivable (moved le d) = receivable le - sint d"
  proof (cases "entryData le")
    case (ACCOUNT acc)
    then have ok: "accountOk h acc" using assms(2) by (simp add: entryOk_def)
    then have "0 \<le> sint (getMinBalance h (numSubEntries acc))"
      using minBalance_nonneg [OF assms(1)] by (simp add: accountOk_def)
    with ok ACCOUNT sum assms(4) show ?thesis
      by (auto simp: moved_def setBalance_def setAccBalance_def entryOk_def accountOk_def accepts_def spendable_def
          receivable_def balanceOf_def split: if_splits)
  next
    case (TRUSTLINE line)
    then have "lineOk line" using assms(2) by (simp add: entryOk_def)
    with TRUSTLINE sum assms(4) show ?thesis
      by (auto simp: moved_def setBalance_def setTlBalance_def entryOk_def lineOk_def accepts_def spendable_def
          receivable_def balanceOf_def split: if_splits)
  qed (use assms(3) in \<open>simp_all add: holder_def\<close>)
  then show "entryOk h (moved le d)" "spendable h (moved le d) = spendable h le + sint d"
    "receivable (moved le d) = receivable le - sint d" by blast+
  show "holder (moved le d)" "sint (balanceOf (moved le d)) = sint (balanceOf le) + sint d"
    using assms(3) sum by (simp_all add: moved_def)
qed

text \<open>A state with a balance: what it can send and receive, and what moving an amount does to both.\<close>

locale balance_contract =
  fixes ok :: "'s \<Rightarrow> bool" and send recv :: "'s \<Rightarrow> int" and move :: "'s \<Rightarrow> int64 \<Rightarrow> 's"
    and add :: "'s \<Rightarrow> int64 \<Rightarrow> ledger_error + bool \<times> 's"
  assumes add_law: "ok s \<Longrightarrow> d \<noteq> 0 \<Longrightarrow>
      add s d = (if if sint d < 0 then - sint d \<le> send s else sint d \<le> recv s
                 then Inr (True, move s d) else Inr (False, s))"
    and move_law: "ok s \<Longrightarrow> if sint d < 0 then - sint d \<le> send s else sint d \<le> recv s \<Longrightarrow>
      ok (move s d) \<and> send (move s d) = send s + sint d \<and> recv (move s d) = recv s - sint d"
begin

lemma send_exact:
  assumes "ok s" "0 < sint x"
  shows "add s (- x) = (if sint x \<le> send s then Inr (True, move s (- x)) else Inr (False, s))"
  using assms add_law [of s "- x"] by (cases "x = 0") (auto simp: sint_neg64)

lemma receive_exact:
  assumes "ok s" "0 < sint x"
  shows "add s x = (if sint x \<le> recv s then Inr (True, move s x) else Inr (False, s))"
  using assms add_law [of s x] by (cases "x = 0") auto

lemma send_moves:
  assumes "ok s" "0 < sint x" "sint x \<le> send s"
  shows "ok (move s (- x))" "send (move s (- x)) = send s - sint x" "recv (move s (- x)) = recv s + sint x"
  using move_law [of s "- x"] assms by (simp_all add: sint_neg64)

lemma receive_moves:
  assumes "ok s" "0 < sint x" "sint x \<le> recv s"
  shows "ok (move s x)" "send (move s x) = send s + sint x" "recv (move s x) = recv s - sint x"
  using move_law [of s x] assms by simp_all

end

text \<open>What was received can be sent back, and gives the old state again.\<close>

locale reversible_balance = balance_contract +
  assumes move_back: "ok s \<Longrightarrow> move (move s d) (- d) = s"
begin

lemma receive_then_send:
  assumes "ok s" "0 < sint x" "sint x \<le> recv s" "0 \<le> send s"
  shows "bindE (add s x) (\<lambda>(_, s'). add s' (- x)) = Inr (True, s)"
  using receive_exact [OF assms(1,2)] receive_moves [OF assms(1-3)] send_exact [of "move s x" x]
    move_back [OF assms(1), of x] assms by simp

end

definition balanceOk :: "LedgerHeader \<Rightarrow> LedgerEntry \<Rightarrow> bool" where
  "balanceOk h le \<longleftrightarrow> 10 \<le> ledgerVersion h \<and> entryOk h le \<and> holder le"

interpretation entry_balance: reversible_balance "balanceOk h" "spendable h" receivable moved "addBalance h" for h
proof
  fix le d
  assume ok: "balanceOk h le"
  show "addBalance h le d = (if if sint d < 0 then - sint d \<le> spendable h le else sint d \<le> receivable le
                 then Inr (True, moved le d) else Inr (False, le))" if "d \<noteq> 0"
    using addBalance_exact [OF _ _ _ that, of h le] ok by (auto simp: balanceOk_def moved_def)
  show "balanceOk h (moved le d) \<and> spendable h (moved le d) = spendable h le + sint d \<and>
      receivable (moved le d) = receivable le - sint d"
    if "if sint d < 0 then - sint d \<le> spendable h le else sint d \<le> receivable le"
    using moved_effect [of h le d] ok that by (auto simp: balanceOk_def accepts_def)
  show "moved (moved le d) (- d) = le"
    using ok by (auto simp: balanceOk_def moved_def)
      (auto simp: holder_def balanceOf_def setBalance_def setAccBalance_def setTlBalance_def split: EntryData.splits)
qed

subsection \<open>Liabilities\<close>

definition buyingOf :: "LedgerEntry \<Rightarrow> int64" where
  "buyingOf le =
     (case entryData le of ACCOUNT acc \<Rightarrow> extBuying (accExt acc) | TRUSTLINE line \<Rightarrow> extBuying (tlExt line) | _ \<Rightarrow> 0)"

definition sellingOf :: "LedgerEntry \<Rightarrow> int64" where
  "sellingOf le =
     (case entryData le of ACCOUNT acc \<Rightarrow> extSelling (accExt acc) | TRUSTLINE line \<Rightarrow> extSelling (tlExt line) | _ \<Rightarrow> 0)"

definition updateExt :: "(Liabilities \<Rightarrow> Liabilities) \<Rightarrow> LedgerEntry \<Rightarrow> LedgerEntry" where
  "updateExt f le =
     (case entryData le of
        ACCOUNT acc \<Rightarrow> le\<lparr>entryData := ACCOUNT (acc\<lparr>accExt := Some (f (extOrNew (accExt acc)))\<rparr>)\<rparr>
      | TRUSTLINE line \<Rightarrow> le\<lparr>entryData := TRUSTLINE (line\<lparr>tlExt := Some (f (extOrNew (tlExt line)))\<rparr>)\<rparr>
      | _ \<Rightarrow> le)"

definition raiseBuying :: "LedgerEntry \<Rightarrow> int64 \<Rightarrow> LedgerEntry" where
  "raiseBuying le d = updateExt (\<lambda>l. l\<lparr>buyingLiab := buyingOf le + d\<rparr>) le"

definition raiseSelling :: "LedgerEntry \<Rightarrow> int64 \<Rightarrow> LedgerEntry" where
  "raiseSelling le d = updateExt (\<lambda>l. l\<lparr>sellingLiab := sellingOf le + d\<rparr>) le"

lemma ext_simps [simp]:
  "extBuying (Some (f (extOrNew ext))) = buyingLiab (f (extOrNew ext))"
  "extSelling (Some (f (extOrNew ext))) = sellingLiab (f (extOrNew ext))"
  "buyingLiab (extOrNew ext) = extBuying ext" "sellingLiab (extOrNew ext) = extSelling ext"
  by (simp_all add: extBuying_def extSelling_def extOrNew_def split: option.splits)

lemma buying_contract:
  assumes ok: "balanceOk h le" and "d \<noteq> 0"
  shows "addBuyingLiabilities h le d =
    (if if sint d < 0 then - sint d \<le> sint (buyingOf le) else sint d \<le> receivable le
     then Inr (True, raiseBuying le d) else Inr (False, le))"
proof (cases "entryData le")
  case (ACCOUNT acc)
  then have "accountOk h acc" using ok by (simp add: balanceOk_def entryOk_def)
  then show ?thesis using ACCOUNT ok assms(2)
    by (auto simp: addBuyingLiabilities_def addBalance64_exact liabilities_simps accountOk_def receivable_def
        sint_sub_nonneg raiseBuying_def updateExt_def buyingOf_def balanceOk_def)
next
  case (TRUSTLINE line)
  then have "lineOk line" using ok by (simp add: balanceOk_def entryOk_def)
  then show ?thesis using TRUSTLINE ok assms(2)
    by (auto simp: addBuyingLiabilities_def addBalance64_exact liabilities_simps lineOk_def receivable_def isAuthorized_def
        holder_def sint_sub_nonneg raiseBuying_def updateExt_def buyingOf_def balanceOk_def)
qed (use ok in \<open>simp_all add: balanceOk_def holder_def\<close>)

lemma selling_contract:
  assumes ok: "balanceOk h le" and "d \<noteq> 0"
  shows "addSellingLiabilities h le d =
    (if if sint d < 0 then - sint d \<le> sint (sellingOf le) else sint d \<le> spendable h le
     then Inr (True, raiseSelling le d) else Inr (False, le))"
proof (cases "entryData le")
  case (ACCOUNT acc)
  let ?m = "getMinBalance h (numSubEntries acc)"
  have a: "accountOk h acc" "10 \<le> ledgerVersion h" using ok ACCOUNT by (simp_all add: balanceOk_def entryOk_def)
  then have m: "0 \<le> sint ?m" using minBalance_nonneg by (simp add: accountOk_def)
  then have "sint (accBalance acc - ?m) = sint (accBalance acc) - sint ?m"
    using a(1) by (simp add: sint_sub_nonneg accountOk_def)
  then show ?thesis using ACCOUNT a assms(2) m
    by (auto simp: addSellingLiabilities_def addBalance64_exact liabilities_simps accountOk_def spendable_def
        raiseSelling_def updateExt_def sellingOf_def Let_def)
next
  case (TRUSTLINE line)
  then have "lineOk line" using ok by (simp add: balanceOk_def entryOk_def)
  then show ?thesis using TRUSTLINE ok assms(2)
    by (auto simp: addSellingLiabilities_def addBalance64_exact liabilities_simps lineOk_def spendable_def isAuthorized_def
        holder_def raiseSelling_def updateExt_def sellingOf_def balanceOk_def)
qed (use ok in \<open>simp_all add: balanceOk_def holder_def\<close>)

text \<open>Raising one kind of liabilities leaves the rest of the entry alone.\<close>

lemma raiseBuying_frame [simp]:
  "spendable h (raiseBuying le d) = spendable h le" "sellingOf (raiseBuying le d) = sellingOf le"
  "balanceOf (raiseBuying le d) = balanceOf le" "holder (raiseBuying le d) = holder le"
  by (auto simp: raiseBuying_def updateExt_def spendable_def sellingOf_def balanceOf_def holder_def
      split: EntryData.splits)

lemma raiseSelling_frame [simp]:
  "receivable (raiseSelling le d) = receivable le" "buyingOf (raiseSelling le d) = buyingOf le"
  "balanceOf (raiseSelling le d) = balanceOf le" "holder (raiseSelling le d) = holder le"
  by (auto simp: raiseSelling_def updateExt_def receivable_def buyingOf_def balanceOf_def holder_def
      split: EntryData.splits)

lemma moved_frame [simp]:
  "buyingOf (moved le d) = buyingOf le" "sellingOf (moved le d) = sellingOf le"
  by (auto simp: moved_def setBalance_def setAccBalance_def setTlBalance_def buyingOf_def sellingOf_def
      split: EntryData.splits)

lemma liabilities_nonneg:
  "entryOk h le \<Longrightarrow> 0 \<le> sint (buyingOf le) \<and> 0 \<le> sint (sellingOf le)"
  by (auto simp: entryOk_def buyingOf_def sellingOf_def accountOk_def lineOk_def split: EntryData.splits)

lemma raiseBuying_effect:
  assumes ok: "balanceOk h le" and acc: "if sint d < 0 then - sint d \<le> sint (buyingOf le) else sint d \<le> receivable le"
  shows "balanceOk h (raiseBuying le d)" "sint (buyingOf (raiseBuying le d)) = sint (buyingOf le) + sint d"
    "receivable (raiseBuying le d) = receivable le - sint d"
proof -
  have e: "10 \<le> ledgerVersion h" "entryOk h le" "holder le" using ok by (simp_all add: balanceOk_def)
  have "receivable le + sint (buyingOf le) < 2 ^ 63"
  proof (cases "entryData le")
    case (TRUSTLINE line)
    then show ?thesis using spendable_le_balance(3) [OF e] sint_range(2) [of "tlLimit line"]
      by (simp add: receivable_def buyingOf_def balanceOf_def)
  qed (use e(3) spendable_le_balance(3) [OF e] in \<open>simp_all add: receivable_def buyingOf_def balanceOf_def holder_def\<close>)
  then have sum: "sint (buyingOf le + d) = sint (buyingOf le) + sint d"
    using liabilities_nonneg [OF e(2)] acc sint_range [of d] sint_range [of "buyingOf le"]
    by (intro sint_add64) (auto split: if_splits)
  have "entryOk h (raiseBuying le d) \<and> sint (buyingOf (raiseBuying le d)) = sint (buyingOf le) + sint d \<and>
    receivable (raiseBuying le d) = receivable le - sint d"
  proof (cases "entryData le")
    case (ACCOUNT a)
    with e(2) sum acc show ?thesis
      by (auto simp: entryOk_def accountOk_def raiseBuying_def updateExt_def buyingOf_def receivable_def split: if_splits)
  next
    case (TRUSTLINE line)
    with e(2) sum acc show ?thesis
      by (auto simp: entryOk_def lineOk_def raiseBuying_def updateExt_def buyingOf_def receivable_def split: if_splits)
  qed (use e(3) in \<open>simp_all add: holder_def\<close>)
  then show "balanceOk h (raiseBuying le d)" "sint (buyingOf (raiseBuying le d)) = sint (buyingOf le) + sint d"
    "receivable (raiseBuying le d) = receivable le - sint d" using e by (simp_all add: balanceOk_def)
qed

lemma raiseSelling_effect:
  assumes ok: "balanceOk h le" and acc: "if sint d < 0 then - sint d \<le> sint (sellingOf le) else sint d \<le> spendable h le"
  shows "balanceOk h (raiseSelling le d)" "sint (sellingOf (raiseSelling le d)) = sint (sellingOf le) + sint d"
    "spendable h (raiseSelling le d) = spendable h le - sint d"
proof -
  have e: "10 \<le> ledgerVersion h" "entryOk h le" "holder le" using ok by (simp_all add: balanceOk_def)
  have min: "0 \<le> sint (getMinBalance h (numSubEntries a))" if "entryData le = ACCOUNT a" for a
    using minBalance_nonneg [OF e(1)] e(2) that by (simp add: entryOk_def accountOk_def)
  have le: "spendable h le + sint (sellingOf le) \<le> sint (balanceOf le)"
    using e(3) min by (auto simp: spendable_def sellingOf_def balanceOf_def holder_def split: EntryData.splits)
  have sum: "sint (sellingOf le + d) = sint (sellingOf le) + sint d"
    using le liabilities_nonneg [OF e(2)] acc sint_range [of d] sint_range [of "balanceOf le"]
      sint_range [of "sellingOf le"] by (intro sint_add64) (auto split: if_splits)
  have "entryOk h (raiseSelling le d) \<and> sint (sellingOf (raiseSelling le d)) = sint (sellingOf le) + sint d \<and>
    spendable h (raiseSelling le d) = spendable h le - sint d"
  proof (cases "entryData le")
    case (ACCOUNT a)
    with e(2) sum acc min [OF ACCOUNT] show ?thesis
      by (auto simp: entryOk_def accountOk_def raiseSelling_def updateExt_def sellingOf_def spendable_def split: if_splits)
  next
    case (TRUSTLINE line)
    with e(2) sum acc show ?thesis
      by (auto simp: entryOk_def lineOk_def raiseSelling_def updateExt_def sellingOf_def spendable_def split: if_splits)
  qed (use e(3) in \<open>simp_all add: holder_def\<close>)
  then show "balanceOk h (raiseSelling le d)" "sint (sellingOf (raiseSelling le d)) = sint (sellingOf le) + sint d"
    "spendable h (raiseSelling le d) = spendable h le - sint d" using e by (simp_all add: balanceOk_def)
qed

interpretation buying_liab:
  balance_contract "balanceOk h" "\<lambda>le. sint (buyingOf le)" receivable raiseBuying "addBuyingLiabilities h" for h
  by unfold_locales (rule buying_contract, assumption+, intro conjI raiseBuying_effect, assumption+)

interpretation selling_liab:
  balance_contract "balanceOk h" "\<lambda>le. sint (sellingOf le)" "spendable h" raiseSelling "addSellingLiabilities h" for h
  by unfold_locales (rule selling_contract, assumption+, intro conjI raiseSelling_effect, assumption+)

subsection \<open>Properties\<close>

text \<open>C24. From protocol version 10, on a well-formed account or authorized trust line, the available balance is
  exactly the largest amount that can be taken out, and the maximum to receive the largest that can be added:
  the operation succeeds up to it, keeps the entry well formed and moves the amount, and beyond it fails and
  leaves the entry as it was.\<close>

theorem available_balance_exact:
  assumes "10 \<le> ledgerVersion h" "entryOk h le" "holder le" "0 < sint x"
  shows "\<exists>a m. getAvailableBalance h le = Inr a \<and> getMaxAmountReceive h le = Inr m \<and>
    addBalance h le (- x) = (if sint x \<le> sint a then Inr (True, moved le (- x)) else Inr (False, le)) \<and>
    addBalance h le x = (if sint x \<le> sint m then Inr (True, moved le x) else Inr (False, le)) \<and>
    (sint x \<le> sint a \<longrightarrow> entryOk h (moved le (- x)) \<and> sint (balanceOf (moved le (- x))) = sint (balanceOf le) - sint x) \<and>
    (sint x \<le> sint m \<longrightarrow> entryOk h (moved le x) \<and> sint (balanceOf (moved le x)) = sint (balanceOf le) + sint x)"
proof -
  have ok: "balanceOk h le" using assms by (simp add: balanceOk_def)
  obtain a m where "getAvailableBalance h le = Inr a" "sint a = spendable h le"
    "getMaxAmountReceive h le = Inr m" "sint m = receivable le"
    using getAvailableBalance_exact [OF assms(1-3)] getMaxAmountReceive_exact [OF assms(1-3)] by metis
  then show ?thesis
    using entry_balance.send_exact [OF ok assms(4)] entry_balance.receive_exact [OF ok assms(4)]
      moved_effect(1,5) [OF assms(1-3), of "- x"] moved_effect(1,5) [OF assms(1-3), of x] assms(4)
    by (auto simp: accepts_def sint_neg64)
qed

definition exampleHeader :: LedgerHeader where
  "exampleHeader = \<lparr>ledgerVersion = 11, closeTime = 7, ledgerSeq = 5, totalCoins = 100000, feePool = 0, idPool = 3,
     baseFee = 100, baseReserve = 10, maxTxSetSize = 100\<rparr>"

definition exampleAccount :: LedgerEntry where
  "exampleAccount = \<lparr>lastModifiedLedgerSeq = 1, entryData = ACCOUNT
     \<lparr>accountID = 7, accBalance = 1000, seqNum = 0, numSubEntries = 1, inflationDest = None, accFlags = 0,
      homeDomain = [], thresholds = [1, 0, 0, 0], signers = [],
      accExt = Some \<lparr>buyingLiab = 20, sellingLiab = 100\<rparr>\<rparr>\<rparr>"

lemma exampleAccount_ok: "entryOk exampleHeader exampleAccount" "holder exampleAccount"
  by (simp_all add: entryOk_def exampleAccount_def exampleHeader_def accountOk_def extBuying_def extSelling_def
      getMinBalance_def holder_def)

theorem available_balance_exact_witness:
  "\<exists>a. getAvailableBalance exampleHeader exampleAccount = Inr a \<and>
     addBalance exampleHeader exampleAccount (- 5) =
       (if sint (5 :: int64) \<le> sint a then Inr (True, moved exampleAccount (- 5)) else Inr (False, exampleAccount))"
proof -
  have "10 \<le> ledgerVersion exampleHeader" "0 < sint (5 :: int64)" by (simp_all add: exampleHeader_def)
  from available_balance_exact [OF this(1) exampleAccount_ok this(2)] show ?thesis
    by (elim exE conjE) (rule exI, rule conjI)
qed

end
