(* ===== verification/Crossing_Properties.thy ===== *)
theory Crossing_Properties
  imports Offer_Crossing Balance_Properties
begin

text \<open>
  Crossing an offer from protocol version 10 never fails on a well-formed ledger: releasing the liabilities of
  the offer, adjusting it, exchanging, moving both balances of the seller and acquiring the liabilities of what
  remains all succeed, whatever the amounts. The proof composes the contract of balances and liabilities with
  the limits of the exchange.
\<close>

subsection \<open>The store\<close>

lemma loadEntry_store [simp]:
  "loadEntry (storeEntry ltx k e) k' = (if k' = k then Some e else loadEntry ltx k')"
  "ltxHeader (storeEntry ltx k e) = ltxHeader ltx"
  by (simp_all add: loadEntry_def storeEntry_def update_conv')

lemma loadEntry_erase [simp]:
  "loadEntry (eraseEntry ltx k) k' = (if k' = k then None else loadEntry ltx k')"
  "ltxHeader (eraseEntry ltx k) = ltxHeader ltx"
  by (simp_all add: loadEntry_def eraseEntry_def delete_conv')

lemma currentEntry_Some [simp]: "loadEntry ltx k = Some e \<Longrightarrow> currentEntry ltx (Some k) = Inr e"
  by (simp add: currentEntry_def)

text \<open>The entry that holds an asset of an account: none for the issuer.\<close>

definition holderKey :: "AccountID \<Rightarrow> Asset \<Rightarrow> LedgerKey option" where
  "holderKey a x =
     (case x of
        ASSET_TYPE_NATIVE \<Rightarrow> Some (AccountKey a)
      | ASSET_TYPE_CREDIT_ALPHANUM4 code i \<Rightarrow> if i \<noteq> a then Some (TrustLineKey a x) else None
      | ASSET_TYPE_CREDIT_ALPHANUM12 code i \<Rightarrow> if i \<noteq> a then Some (TrustLineKey a x) else None)"

definition wrapperOf :: "AccountID \<Rightarrow> Asset \<Rightarrow> TrustLineWrapper" where
  "wrapperOf a x =
     (case holderKey a x of
        None \<Rightarrow> IssuerLine
      | Some k \<Rightarrow> if x = ASSET_TYPE_NATIVE then InactiveLine else NonIssuerLine k)"

lemma holderKey_cases:
  obtains "x = ASSET_TYPE_NATIVE" "holderKey a x = Some (AccountKey a)" "wrapperOf a x = InactiveLine"
  | "x \<noteq> ASSET_TYPE_NATIVE" "getIssuer x = Inr a" "holderKey a x = None" "wrapperOf a x = IssuerLine"
  | i where "x \<noteq> ASSET_TYPE_NATIVE" "getIssuer x = Inr i" "i \<noteq> a" "holderKey a x = Some (TrustLineKey a x)"
      "wrapperOf a x = NonIssuerLine (TrustLineKey a x)"
  by (cases x) (auto simp: holderKey_def wrapperOf_def getIssuer_def split: if_splits)

lemma holderKey_inj: "holderKey a x = Some k \<Longrightarrow> holderKey a y = Some k \<Longrightarrow> x = y"
  by (auto simp: holderKey_def split: Asset.splits if_splits)

lemma holderKey_not_offer: "holderKey a x \<noteq> Some (OfferKey s n)"
  by (auto simp: holderKey_def split: Asset.splits if_splits)

definition holdOk :: "LedgerTxn \<Rightarrow> AccountID \<Rightarrow> Asset \<Rightarrow> bool" where
  "holdOk ltx a x \<longleftrightarrow>
     (\<forall>k. holderKey a x = Some k \<longrightarrow>
        (\<exists>e. loadEntry ltx k = Some e \<and> LedgerEntryKey e = k \<and> balanceOk (ltxHeader ltx) e))"

definition holding :: "LedgerTxn \<Rightarrow> AccountID \<Rightarrow> Asset \<Rightarrow> LedgerEntry option" where
  "holding ltx a x = Option.bind (holderKey a x) (loadEntry ltx)"

definition updHold :: "LedgerTxn \<Rightarrow> AccountID \<Rightarrow> Asset \<Rightarrow> (LedgerEntry \<Rightarrow> LedgerEntry) \<Rightarrow> LedgerTxn" where
  "updHold ltx a x f =
     (case holderKey a x of
        None \<Rightarrow> ltx
      | Some k \<Rightarrow> (case loadEntry ltx k of None \<Rightarrow> ltx | Some e \<Rightarrow> storeEntry ltx k (f e)))"

lemma updHold_simps [simp]:
  "ltxHeader (updHold ltx a x f) = ltxHeader ltx"
  "loadEntry (updHold ltx a x f) k =
     (if holderKey a x = Some k then map_option f (loadEntry ltx k) else loadEntry ltx k)"
  by (auto simp: updHold_def split: option.splits)

lemma holding_updHold:
  "holding (updHold ltx a x f) a y = (if y = x then map_option f (holding ltx a x) else holding ltx a y)"
  by (cases "holderKey a x"; cases "holderKey a y") (auto simp: holding_def dest: holderKey_inj)

lemma holdOk_holding: "holdOk ltx a x \<longleftrightarrow>
    (holderKey a x = None \<or>
     (\<exists>e. holding ltx a x = Some e \<and> holderKey a x = Some (LedgerEntryKey e) \<and> balanceOk (ltxHeader ltx) e))"
  by (cases "holderKey a x") (auto simp: holdOk_def holding_def)

lemma holdOk_updHold:
  assumes "holdOk ltx a y" "\<And>e. holding ltx a x = Some e \<Longrightarrow> balanceOk (ltxHeader ltx) (f e) \<and> LedgerEntryKey (f e) = LedgerEntryKey e"
  shows "holdOk (updHold ltx a x f) a y"
  using assms by (auto simp: holdOk_holding holding_updHold)

definition sendLimit :: "LedgerTxn \<Rightarrow> AccountID \<Rightarrow> Asset \<Rightarrow> int" where
  "sendLimit ltx a x =
     (case holding ltx a x of None \<Rightarrow> 2 ^ 63 - 1 | Some e \<Rightarrow> max (spendable (ltxHeader ltx) e) 0)"

definition recvLimit :: "LedgerTxn \<Rightarrow> AccountID \<Rightarrow> Asset \<Rightarrow> int" where
  "recvLimit ltx a x = (case holding ltx a x of None \<Rightarrow> 2 ^ 63 - 1 | Some e \<Rightarrow> receivable e)"

lemma limits_nonneg:
  assumes "holdOk ltx a x"
  shows "0 \<le> sendLimit ltx a x" "0 \<le> recvLimit ltx a x"
  using assms spendable_le_balance(2)
  by (auto simp: sendLimit_def recvLimit_def holdOk_holding holding_def balanceOk_def split: option.splits)

subsection \<open>Reading the limits\<close>

lemma load_wrapper:
  assumes "holdOk ltx a x"
  shows "loadTrustLineIfNotNative ltx a x = Inr (wrapperOf a x)"
    "x \<noteq> ASSET_TYPE_NATIVE \<Longrightarrow> loadTrustAndValidate ltx a x = Inr (wrapperOf a x)"
  using assms
  by (cases rule: holderKey_cases [of x a];
      auto simp: loadTrustLineIfNotNative_def loadTrustAndValidate_def loadTrustLine_def holdOk_def)+

lemma sint_max64: "sint (max64 a b) = max (sint a) (sint b)"
  by (simp add: max64_def max_def)

lemma canSellAtMost_exact:
  assumes "holdOk ltx a x" "x = ASSET_TYPE_NATIVE \<Longrightarrow> account = Some (AccountKey a)"
  obtains w where "canSellAtMost ltx account x (wrapperOf a x) = Inr w" "sint w = sendLimit ltx a x"
proof (cases rule: holderKey_cases [of x a])
  case 1
  then obtain e where e: "loadEntry ltx (AccountKey a) = Some e" "balanceOk (ltxHeader ltx) e"
    using assms(1) by (auto simp: holdOk_def)
  obtain b where b: "getAvailableBalance (ltxHeader ltx) e = Inr b" "sint b = spendable (ltxHeader ltx) e"
    using getAvailableBalance_exact e(2) by (auto simp: balanceOk_def)
  show ?thesis
    by (rule that [of "max64 b 0"])
      (use 1 assms(2) e b in \<open>simp_all add: canSellAtMost_def sendLimit_def holding_def sint_max64\<close>)
next
  case 2
  show ?thesis
    by (rule that [of "max64 INT64_MAX 0"])
      (use 2 in \<open>simp_all add: canSellAtMost_def lineIsAuthorized_def lineAvailableBalance_def sendLimit_def holding_def sint_max64\<close>)
next
  case (3 i)
  then obtain e where e: "loadEntry ltx (TrustLineKey a x) = Some e" "balanceOk (ltxHeader ltx) e"
    "LedgerEntryKey e = TrustLineKey a x"
    using assms(1) by (auto simp: holdOk_def)
  obtain b where b: "getAvailableBalance (ltxHeader ltx) e = Inr b" "sint b = spendable (ltxHeader ltx) e"
    using getAvailableBalance_exact e(2) by (auto simp: balanceOk_def)
  have "isAuthorized e = Inr True" using e(2,3)
    by (auto simp: isAuthorized_def LedgerEntryKey_def balanceOk_def holder_def split: EntryData.splits)
  show ?thesis
    by (rule that [of "max64 b 0"])
      (use 3 e(1) b \<open>isAuthorized e = Inr True\<close> in \<open>simp_all add: canSellAtMost_def lineIsAuthorized_def lineAvailableBalance_def sendLimit_def holding_def sint_max64\<close>)
qed

lemma canBuyAtMost_exact:
  assumes "holdOk ltx a x" "x = ASSET_TYPE_NATIVE \<Longrightarrow> account = Some (AccountKey a)"
  obtains w where "canBuyAtMost ltx account x (wrapperOf a x) = Inr w" "sint w = recvLimit ltx a x"
proof -
  have entry: "\<exists>b. getMaxAmountReceive (ltxHeader ltx) e = Inr b \<and> sint (max64 b 0) = receivable e"
    if "balanceOk (ltxHeader ltx) e" for e
    using getMaxAmountReceive_exact [of "ltxHeader ltx" e] spendable_le_balance(2) [of "ltxHeader ltx" e] that
    by (fastforce simp: balanceOk_def sint_max64)
  show ?thesis
  proof (cases rule: holderKey_cases [of x a])
    case 1
    then obtain e where e: "loadEntry ltx (AccountKey a) = Some e" "balanceOk (ltxHeader ltx) e"
      using assms(1) by (auto simp: holdOk_def)
    with entry obtain b where "getMaxAmountReceive (ltxHeader ltx) e = Inr b" "sint (max64 b 0) = receivable e" by blast
    then show ?thesis using 1 assms(2) e(1)
      by (intro that [of "max64 b 0"]) (simp_all add: canBuyAtMost_def recvLimit_def holding_def)
  next
    case 2
    then show ?thesis
      by (intro that [of "max64 INT64_MAX 0"])
        (simp_all add: canBuyAtMost_def lineMaxAmountReceive_def recvLimit_def holding_def sint_max64)
  next
    case (3 i)
    then obtain e where e: "loadEntry ltx (TrustLineKey a x) = Some e" "balanceOk (ltxHeader ltx) e"
      using assms(1) by (auto simp: holdOk_def)
    with entry obtain b where "getMaxAmountReceive (ltxHeader ltx) e = Inr b" "sint (max64 b 0) = receivable e" by blast
    then show ?thesis using 3 e(1)
      by (intro that [of "max64 b 0"]) (simp_all add: canBuyAtMost_def lineMaxAmountReceive_def recvLimit_def holding_def)
  qed
qed

subsection \<open>Changing an entry through its holder\<close>

lemma LedgerEntryKey_frame [simp]:
  "LedgerEntryKey (moved e d) = LedgerEntryKey e" "LedgerEntryKey (raiseBuying e d) = LedgerEntryKey e"
  "LedgerEntryKey (raiseSelling e d) = LedgerEntryKey e"
  by (auto simp: LedgerEntryKey_def moved_def setBalance_def setAccBalance_def setTlBalance_def raiseBuying_def
      raiseSelling_def updateExt_def split: EntryData.splits)

lemma onEntry_Some:
  "loadEntry ltx k = Some e \<Longrightarrow> f e = Inr (True, g e) \<Longrightarrow> onEntry ltx k f = Inr (True, storeEntry ltx k (g e))"
  by (simp add: onEntry_def)

lemma addAssetBalance_upd:
  assumes "holdOk ltx a x" "\<And>e. holding ltx a x = Some e \<Longrightarrow> addBalance (ltxHeader ltx) e d = Inr (True, g e)"
  shows "addAssetBalance ltx a x (wrapperOf a x) d = Inr (True, updHold ltx a x g)"
  using assms by (cases rule: holderKey_cases [of x a])
    (auto simp: addAssetBalance_def lineAddBalance_def holdOk_def holding_def updHold_def onEntry_def)

lemma buyingBranch_upd:
  assumes "holdOk ltx a x" "\<And>e. holding ltx a x = Some e \<Longrightarrow> addBuyingLiabilities (ltxHeader ltx) e d = Inr (True, g e)"
  shows "offerBuyingBranch ltx a x d = Inr (True, updHold ltx a x g)"
  using assms load_wrapper(2) [OF assms(1)] by (cases rule: holderKey_cases [of x a])
    (auto simp: offerBuyingBranch_def loadAccountAndValidate_def lineAddBuyingLiabilities_def holdOk_def holding_def
      updHold_def onEntry_def)

lemma sellingBranch_upd:
  assumes "holdOk ltx a x" "\<And>e. holding ltx a x = Some e \<Longrightarrow> addSellingLiabilities (ltxHeader ltx) e d = Inr (True, g e)"
  shows "offerSellingBranch ltx a x d = Inr (True, updHold ltx a x g)"
  using assms load_wrapper(2) [OF assms(1)] by (cases rule: holderKey_cases [of x a])
    (auto simp: offerSellingBranch_def loadAccountAndValidate_def lineAddSellingLiabilities_def holdOk_def holding_def
      updHold_def onEntry_def)

lemma moved_0 [simp]: "moved e 0 = e"
  by (cases e)
    (auto simp: moved_def setBalance_def setAccBalance_def setTlBalance_def balanceOf_def split: EntryData.splits)

lemma updHold_id [simp]: "updHold ltx a x (\<lambda>e. e) = ltx"
  by (auto simp: updHold_def storeEntry_def loadEntry_def update_triv split: option.splits)

text \<open>The two movements of a settlement, and a change of liabilities that may be zero.\<close>

lemma settle_recv:
  assumes ok: "holdOk ltx a x" and "0 \<le> sint w" "sint w \<le> recvLimit ltx a x"
  shows "settleV10 ltx a x (wrapperOf a x) w msg = Inr (updHold ltx a x (\<lambda>e. moved e w))"
    "holdOk ltx a y \<Longrightarrow> holdOk (updHold ltx a x (\<lambda>e. moved e w)) a y"
proof -
  have pos: "0 < sint w" if "w \<noteq> 0" using assms(2) sint_eq_0 [of w] that by linarith
  have e: "addBalance (ltxHeader ltx) e w = Inr (True, moved e w) \<and> balanceOk (ltxHeader ltx) (moved e w)"
    if "holding ltx a x = Some e" "w \<noteq> 0" for e
    using that ok assms(3) pos entry_balance.receive_exact [of "ltxHeader ltx" e w]
      entry_balance.receive_moves(1) [of "ltxHeader ltx" e w]
    by (auto simp: holdOk_holding recvLimit_def holding_def)
  then show "settleV10 ltx a x (wrapperOf a x) w msg = Inr (updHold ltx a x (\<lambda>e. moved e w))"
    using addAssetBalance_upd [OF ok, of w "\<lambda>e. moved e w"] by (auto simp: settleV10_def)
  show "holdOk (updHold ltx a x (\<lambda>e. moved e w)) a y" if "holdOk ltx a y"
    using that e by (cases "w = 0") (auto intro!: holdOk_updHold)
qed

lemma settle_send:
  assumes ok: "holdOk ltx a x" and "0 \<le> sint w" "sint w \<le> sendLimit ltx a x"
  shows "settleV10 ltx a x (wrapperOf a x) (- w) msg = Inr (updHold ltx a x (\<lambda>e. moved e (- w)))"
    "holdOk ltx a y \<Longrightarrow> holdOk (updHold ltx a x (\<lambda>e. moved e (- w))) a y"
proof -
  have pos: "0 < sint w" if "w \<noteq> 0" using assms(2) sint_eq_0 [of w] that by linarith
  have e: "addBalance (ltxHeader ltx) e (- w) = Inr (True, moved e (- w)) \<and> balanceOk (ltxHeader ltx) (moved e (- w))"
    if "holding ltx a x = Some e" "w \<noteq> 0" for e
    using that ok assms(3) pos entry_balance.send_exact [of "ltxHeader ltx" e w]
      entry_balance.send_moves(1) [of "ltxHeader ltx" e w]
    by (auto simp: holdOk_holding sendLimit_def holding_def max_def split: if_splits)
  then show "settleV10 ltx a x (wrapperOf a x) (- w) msg = Inr (updHold ltx a x (\<lambda>e. moved e (- w)))"
    using addAssetBalance_upd [OF ok, of "- w" "\<lambda>e. moved e (- w)"] by (auto simp: settleV10_def)
  show "holdOk (updHold ltx a x (\<lambda>e. moved e (- w))) a y" if "holdOk ltx a y"
    using that e by (cases "w = 0") (auto intro!: holdOk_updHold)
qed

definition raiseBuying0 :: "int64 \<Rightarrow> LedgerEntry \<Rightarrow> LedgerEntry" where
  "raiseBuying0 d e = (if d = 0 then e else raiseBuying e d)"

definition raiseSelling0 :: "int64 \<Rightarrow> LedgerEntry \<Rightarrow> LedgerEntry" where
  "raiseSelling0 d e = (if d = 0 then e else raiseSelling e d)"

lemma raise0_frame [simp]:
  "balanceOf (raiseBuying0 d e) = balanceOf e" "balanceOf (raiseSelling0 d e) = balanceOf e"
  "LedgerEntryKey (raiseBuying0 d e) = LedgerEntryKey e" "LedgerEntryKey (raiseSelling0 d e) = LedgerEntryKey e"
  by (simp_all add: raiseBuying0_def raiseSelling0_def)

lemma no_liabilities:
  assumes "balanceOk h e"
  shows "addBuyingLiabilities h e 0 = Inr (True, e)" "addSellingLiabilities h e 0 = Inr (True, e)"
  using assms
  by (auto simp: addBuyingLiabilities_def addSellingLiabilities_def liabilities_simps balanceOk_def holder_def
      split: EntryData.splits)

lemma buyingBranch_accepts:
  assumes ok: "holdOk ltx a x" and d: "\<And>e. holding ltx a x = Some e \<Longrightarrow>
      if sint d < 0 then - sint d \<le> sint (buyingOf e) else sint d \<le> receivable e"
  shows "offerBuyingBranch ltx a x d = Inr (True, updHold ltx a x (raiseBuying0 d))"
    "holdOk ltx a y \<Longrightarrow> holdOk (updHold ltx a x (raiseBuying0 d)) a y"
proof -
  have e: "balanceOk (ltxHeader ltx) e" if "holding ltx a x = Some e" for e
    using ok that by (auto simp: holdOk_holding holding_def)
  have "addBuyingLiabilities (ltxHeader ltx) e d = Inr (True, raiseBuying0 d e)" if "holding ltx a x = Some e" for e
    using no_liabilities(1) buying_contract [OF e [OF that]] d [OF that] e [OF that]
    by (auto simp: raiseBuying0_def)
  then show "offerBuyingBranch ltx a x d = Inr (True, updHold ltx a x (raiseBuying0 d))"
    by (rule buyingBranch_upd [OF ok])
  show "holdOk (updHold ltx a x (raiseBuying0 d)) a y" if "holdOk ltx a y"
    using that e d raiseBuying_effect(1) by (intro holdOk_updHold) (auto simp: raiseBuying0_def)
qed

lemma sellingBranch_accepts:
  assumes ok: "holdOk ltx a x" and d: "\<And>e. holding ltx a x = Some e \<Longrightarrow>
      if sint d < 0 then - sint d \<le> sint (sellingOf e) else d = 0 \<or> sint d \<le> spendable (ltxHeader ltx) e"
  shows "offerSellingBranch ltx a x d = Inr (True, updHold ltx a x (raiseSelling0 d))"
    "holdOk ltx a y \<Longrightarrow> holdOk (updHold ltx a x (raiseSelling0 d)) a y"
proof -
  have e: "balanceOk (ltxHeader ltx) e" if "holding ltx a x = Some e" for e
    using ok that by (auto simp: holdOk_holding holding_def)
  have "addSellingLiabilities (ltxHeader ltx) e d = Inr (True, raiseSelling0 d e)" if "holding ltx a x = Some e" for e
    using no_liabilities(2) selling_contract [OF e [OF that]] d [OF that] e [OF that]
    by (auto simp: raiseSelling0_def)
  then show "offerSellingBranch ltx a x d = Inr (True, updHold ltx a x (raiseSelling0 d))"
    by (rule sellingBranch_upd [OF ok])
  show "holdOk (updHold ltx a x (raiseSelling0 d)) a y" if "holdOk ltx a y"
  proof (intro holdOk_updHold [OF that] conjI)
    fix e' assume e': "holding ltx a x = Some e'"
    show "balanceOk (ltxHeader ltx) (raiseSelling0 d e')"
      using raiseSelling_effect(1) [OF e [OF e'], of d] d [OF e'] e [OF e']
      by (auto simp: raiseSelling0_def split: if_splits)
  qed simp
qed

subsection \<open>The offer\<close>

definition offerAt :: "LedgerTxn \<Rightarrow> LedgerKey \<Rightarrow> OfferEntry \<Rightarrow> bool" where
  "offerAt ltx k oe \<longleftrightarrow> (\<exists>e. loadEntry ltx k = Some e \<and> entryData e = OFFER oe)"

definition agreeBut :: "LedgerKey \<Rightarrow> LedgerTxn \<Rightarrow> LedgerTxn \<Rightarrow> bool" where
  "agreeBut k ltx ltx' \<longleftrightarrow> ltxHeader ltx' = ltxHeader ltx \<and> (\<forall>j. j \<noteq> k \<longrightarrow> loadEntry ltx' j = loadEntry ltx j)"

lemma agreeBut_holding:
  assumes "agreeBut (OfferKey b n) ltx ltx'"
  shows "holding ltx' a x = holding ltx a x" "holdOk ltx' a x \<longleftrightarrow> holdOk ltx a x"
    "sendLimit ltx' a x = sendLimit ltx a x" "recvLimit ltx' a x = recvLimit ltx a x"
proof -
  show h: "holding ltx' a x = holding ltx a x"
    using assms holderKey_not_offer [of a x b n] by (cases "holderKey a x") (auto simp: holding_def agreeBut_def)
  then show "holdOk ltx' a x \<longleftrightarrow> holdOk ltx a x" "sendLimit ltx' a x = sendLimit ltx a x"
    "recvLimit ltx' a x = recvLimit ltx a x"
    using assms by (simp_all add: holdOk_holding sendLimit_def recvLimit_def agreeBut_def split: option.splits)
qed

lemma agreeBut_trans: "agreeBut k l1 l2 \<Longrightarrow> agreeBut k l2 l3 \<Longrightarrow> agreeBut k l1 l3"
  by (simp add: agreeBut_def)

lemma setAmount_offer:
  assumes "offerAt ltx k oe"
  obtains ltx' where "setAmount ltx k A = Inr ltx'" "offerAt ltx' k (oe\<lparr>amount := A\<rparr>)" "agreeBut k ltx ltx'"
proof -
  obtain e where e: "loadEntry ltx k = Some e" "entryData e = OFFER oe" using assms by (auto simp: offerAt_def)
  show ?thesis
    by (rule that [of "storeEntry ltx k (e\<lparr>entryData := OFFER (oe\<lparr>amount := A\<rparr>)\<rparr>)"])
      (use e in \<open>simp_all add: setAmount_def theOffer_def offerAt_def agreeBut_def\<close>)
qed

lemma adjustOfferEntry_exact:
  assumes off: "offerAt ltx k oe" "k = OfferKey b n" and p: "validPrice (price oe)" "0 \<le> sint (amount oe)"
    and ok: "holdOk ltx a wheat" "holdOk ltx a sheep"
    and acct: "wheat = ASSET_TYPE_NATIVE \<Longrightarrow> account = Some (AccountKey a)"
      "sheep = ASSET_TYPE_NATIVE \<Longrightarrow> account = Some (AccountKey a)"
  obtains ltx' A W S where
    "adjustOfferEntry ltx k account wheat (wrapperOf a wheat) sheep (wrapperOf a sheep) = Inr ltx'"
    "offerAt ltx' k (oe\<lparr>amount := A\<rparr>)" "agreeBut k ltx ltx'" "adjustOffer (price oe) W S = Inr A"
    "sint W = min (sint (amount oe)) (sendLimit ltx a wheat)" "sint S = recvLimit ltx a sheep"
    "0 \<le> sint A" "sint A \<le> sint W"
proof -
  obtain e where e: "loadEntry ltx k = Some e" "entryData e = OFFER oe" using off by (auto simp: offerAt_def)
  obtain w where w: "canSellAtMost ltx account wheat (wrapperOf a wheat) = Inr w" "sint w = sendLimit ltx a wheat"
    using canSellAtMost_exact [OF ok(1)] acct(1) by metis
  obtain S where S: "canBuyAtMost ltx account sheep (wrapperOf a sheep) = Inr S" "sint S = recvLimit ltx a sheep"
    using canBuyAtMost_exact [OF ok(2)] acct(2) by metis
  let ?W = "min64 (amount oe) w"
  have W: "sint ?W = min (sint (amount oe)) (sendLimit ltx a wheat)" by (simp add: sint_min64 w(2))
  then have nn: "0 \<le> sint ?W" "0 \<le> sint S" using p(2) limits_nonneg [OF ok(1)] limits_nonneg [OF ok(2)] S(2) by simp_all
  obtain A where A: "adjustOffer (price oe) ?W S = Inr A" using adjustOffer_exact [OF p(1) nn] by blast
  have "adjusted (natN (price oe)) (natD (price oe)) (unat ?W) (unat S) \<le> unat ?W"
    using adjusted_le price_pos(3,4) [OF p(1)] by blast
  then have "0 \<le> sint A" "sint A \<le> sint ?W"
    using A adjustOffer_exact [OF p(1) nn] sint_nonneg(2) [OF nn(1)] int_le_sint [OF nn(1)]
    by (auto simp: sint_of_nat64)
  moreover obtain ltx' where "setAmount ltx k A = Inr ltx'" "offerAt ltx' k (oe\<lparr>amount := A\<rparr>)" "agreeBut k ltx ltx'"
    by (rule setAmount_offer [OF off(1)])
  ultimately show ?thesis
    using that W S(2) A by (simp add: adjustOfferEntry_def e w(1) S(1) theOffer_def)
qed

subsection \<open>Liabilities of the offer\<close>

lemma changeLiabilities:
  assumes off: "entryData offE = OFFER oe" "a = sellerID oe" "buying oe \<noteq> selling oe" and v: "10 \<le> ledgerVersion (ltxHeader ltx)"
    and r: "exchangeV10WithoutPriceErrorThresholds (price oe) (amount oe) INT64_MAX INT64_MAX INT64_MAX False = Inr r"
    and ok: "holdOk ltx a (buying oe)" "holdOk ltx a (selling oe)"
    and db: "db = (if acq then sheepSend10 r else - sheepSend10 r)"
      "\<And>e. holding ltx a (buying oe) = Some e \<Longrightarrow>
         if sint db < 0 then - sint db \<le> sint (buyingOf e) else sint db \<le> receivable e"
    and ds: "ds = (if acq then wheatReceived10 r else - wheatReceived10 r)"
      "\<And>e. holding ltx a (selling oe) = Some e \<Longrightarrow>
         if sint ds < 0 then - sint ds \<le> sint (sellingOf e) else ds = 0 \<or> sint ds \<le> spendable (ltxHeader ltx) e"
    and res: "ltx' = updHold (updHold ltx a (buying oe) (raiseBuying0 db)) a (selling oe) (raiseSelling0 ds)"
  shows "acquireOrReleaseLiabilities ltx offE acq = Inr ltx'" "holdOk ltx a y \<Longrightarrow> holdOk ltx' a y"
proof -
  let ?l1 = "updHold ltx a (buying oe) (raiseBuying0 db)"
  have b: "offerBuyingBranch ltx a (buying oe) db = Inr (True, ?l1)" "holdOk ltx a y \<Longrightarrow> holdOk ?l1 a y" for y
    using buyingBranch_accepts [OF ok(1), of db] db(2) by blast+
  have "holding ?l1 a (selling oe) = holding ltx a (selling oe)" using off(3) by (simp add: holding_updHold)
  then have s2: "if sint ds < 0 then - sint ds \<le> sint (sellingOf e)
      else ds = 0 \<or> sint ds \<le> spendable (ltxHeader ?l1) e" if "holding ?l1 a (selling oe) = Some e" for e
    using ds(2) that by simp
  have s: "offerSellingBranch ?l1 a (selling oe) ds = Inr (True, ltx')" "holdOk ?l1 a y \<Longrightarrow> holdOk ltx' a y" for y
    unfolding res using sellingBranch_accepts [OF b(2) [OF ok(2)], of ds] s2 by blast+
  have "getOfferBuyingLiabilities (ltxHeader ltx) offE = Inr (sheepSend10 r)"
    "getOfferSellingLiabilities (ltxHeader ltx) offE = Inr (wheatReceived10 r)"
    using leD [OF v] off(1) r by (simp_all add: getOfferBuyingLiabilities_def getOfferSellingLiabilities_def)
  then show "acquireOrReleaseLiabilities ltx offE acq = Inr ltx'"
    using b(1) s(1) off db(1) ds(1) by (simp add: acquireOrReleaseLiabilities_def theOffer_def)
  show "holdOk ltx a y \<Longrightarrow> holdOk ltx' a y" using s(2) b(2) by blast
qed

subsection \<open>Removing the offer\<close>

lemma minBalance_value:
  assumes "10 \<le> ledgerVersion h" "n \<le> 0x7FFFFFFD"
  shows "sint (getMinBalance h n) = (2 + int (unat n)) * int (unat (baseReserve h))"
proof -
  have n: "unat n \<le> 0x7FFFFFFD" using assms(2) by (simp add: word_le_nat_alt)
  then have "unat (2 + n) = 2 + unat n" by (simp add: unat_word_ariths)
  then have a: "unat (ucast (2 + n) :: int64) = 2 + unat n" using n
    by (simp add: unsigned_ucast_eq take_bit_nat_eq_self)
  have b: "unat (ucast (baseReserve h) :: int64) = unat (baseReserve h)" "unat (baseReserve h) < 2 ^ 32"
    using unsigned_less [of "baseReserve h", where 'a = nat] by (simp_all add: unsigned_ucast_eq take_bit_nat_eq_self)
  have "(2 + unat n) * unat (baseReserve h) < 2 ^ 31 * 2 ^ 32"
    using n b(2) by (intro mult_strict_mono') simp_all
  then have "unat (ucast (2 + n) * ucast (baseReserve h) :: int64) = (2 + unat n) * unat (baseReserve h)"
    by (simp add: unat_word_ariths a b(1))
  moreover have "\<not> ledgerVersion h \<le> 8" using assms(1) by (auto simp: word_le_nat_alt)
  ultimately have "unat (getMinBalance h n) = (2 + unat n) * unat (baseReserve h)" by (simp add: getMinBalance_def)
  moreover have "sint (getMinBalance h n) = int (unat (getMinBalance h n))"
    by (rule sint_nonneg(1) [OF minBalance_nonneg [OF assms]])
  ultimately show ?thesis by (simp only: of_nat_mult of_nat_add of_nat_numeral)
qed

definition subEntriesOf :: "LedgerEntry \<Rightarrow> uint32" where
  "subEntriesOf e = (case entryData e of ACCOUNT acc \<Rightarrow> numSubEntries acc | _ \<Rightarrow> 0)"

lemma subEntriesOf_frame [simp]:
  "subEntriesOf (moved e d) = subEntriesOf e" "subEntriesOf (raiseBuying0 d e) = subEntriesOf e"
  "subEntriesOf (raiseSelling0 d e) = subEntriesOf e"
  by (auto simp: subEntriesOf_def moved_def setBalance_def setAccBalance_def setTlBalance_def raiseBuying0_def
      raiseSelling0_def raiseBuying_def raiseSelling_def updateExt_def split: EntryData.splits)

definition oneFewer :: "LedgerEntry \<Rightarrow> LedgerEntry" where
  "oneFewer e =
     (case entryData e of
        ACCOUNT acc \<Rightarrow> e\<lparr>entryData := ACCOUNT (acc\<lparr>numSubEntries := numSubEntries acc - 1\<rparr>)\<rparr>
      | _ \<Rightarrow> e)"

lemma oneFewer_frame [simp]:
  "balanceOf (oneFewer e) = balanceOf e" "LedgerEntryKey (oneFewer e) = LedgerEntryKey e" "holder (oneFewer e) = holder e"
  by (auto simp: oneFewer_def balanceOf_def LedgerEntryKey_def holder_def split: EntryData.splits)

lemma addNumEntries_remove:
  assumes ok: "balanceOk h e" "LedgerEntryKey e = AccountKey a" and n: "subEntriesOf e \<noteq> 0"
  shows "addNumEntries h e (- 1) = Inr (SUBENTRY_SUCCESS, oneFewer e)" "balanceOk h (oneFewer e)"
proof -
  obtain acc where acc: "entryData e = ACCOUNT acc" using ok(2) by (auto simp: LedgerEntryKey_def split: EntryData.splits)
  let ?n = "numSubEntries acc"
  have v: "10 \<le> ledgerVersion h" and a: "accountOk h acc" using ok(1) acc by (simp_all add: balanceOk_def entryOk_def)
  have n: "?n \<noteq> 0" "?n \<le> 0x7FFFFFFD" using n a acc by (simp_all add: subEntriesOf_def accountOk_def)
  then have un: "0 < unat ?n" "unat ?n \<le> 0x7FFFFFFD" by (simp_all add: word_le_nat_alt unat_gt_0)
  have "unat (?n - 1) = unat ?n - 1" using un by (simp add: unat_sub_if_size word_le_nat_alt)
  then have un1: "unat (?n - 1) = unat ?n - 1" "?n - 1 \<le> 0x7FFFFFFD" using un by (simp_all add: word_le_nat_alt)
  have "- 2147483648 \<le> uint ?n" by (rule order_trans [OF _ uint_ge_0]) simp
  moreover have "uint ?n \<le> 0x7FFFFFFD" using n(2) by (simp add: word_le_def)
  ultimately have s: "sint ?n = int (unat ?n)" by (simp add: sint_uint signed_take_bit_int_eq_self_iff)
  have w: "word_of_int (sint ?n - 1) = ?n - 1" by simp
  have "unsignedToSigned32 ?n = Inr (sint ?n)"
    using n(2) by (auto simp: unsignedToSigned32_def word_less_nat_alt word_le_nat_alt)
  moreover have "0 \<le> sint ?n - 1" using s un(1) by linarith
  ultimately show "addNumEntries h e (- 1) = Inr (SUBENTRY_SUCCESS, oneFewer e)"
    using v acc by (simp add: addNumEntries_def Let_def throwIf_def liabilities_simps oneFewer_def w)
  have "sint (getMinBalance h (?n - 1)) \<le> sint (getMinBalance h ?n)"
    using minBalance_value [OF v n(2)] minBalance_value [OF v un1(2)] un1(1) un(1)
    by (simp add: mult_right_mono of_nat_diff)
  then show "balanceOk h (oneFewer e)"
    using ok(1) a acc un1(2) by (auto simp: balanceOk_def entryOk_def accountOk_def oneFewer_def holder_def)
qed

lemma removeOffer_exact:
  assumes ok: "holdOk ltx a ASSET_TYPE_NATIVE" and e: "loadEntry ltx (AccountKey a) = Some e" "subEntriesOf e \<noteq> 0"
  shows "removeOffer ltx (OfferKey b n) a = Inr (storeEntry (eraseEntry ltx (OfferKey b n)) (AccountKey a) (oneFewer e))"
    "balanceOk (ltxHeader ltx) (oneFewer e)"
proof -
  have "LedgerEntryKey e = AccountKey a" "balanceOk (ltxHeader ltx) e"
    using ok e(1) by (auto simp: holdOk_def holderKey_def)
  from addNumEntries_remove [OF this(2,1) e(2)] e(1)
  show "removeOffer ltx (OfferKey b n) a = Inr (storeEntry (eraseEntry ltx (OfferKey b n)) (AccountKey a) (oneFewer e))"
    "balanceOk (ltxHeader ltx) (oneFewer e)"
    by (simp_all add: removeOffer_def onEntry_def)
qed

subsection \<open>Crossing\<close>

definition heldBalance :: "LedgerTxn \<Rightarrow> AccountID \<Rightarrow> Asset \<Rightarrow> int option" where
  "heldBalance ltx a x = map_option (\<lambda>e. sint (balanceOf e)) (holding ltx a x)"

definition subEntries :: "LedgerTxn \<Rightarrow> AccountID \<Rightarrow> uint32 option" where
  "subEntries ltx a = map_option subEntriesOf (loadEntry ltx (AccountKey a))"

text \<open>A ledger in which an offer can be crossed: a positive price, an amount that is not negative, a seller whose
  account and authorized trust lines are well formed.\<close>

definition ready :: "LedgerTxn \<Rightarrow> LedgerKey \<Rightarrow> OfferEntry \<Rightarrow> bool" where
  "ready ltx k oe \<longleftrightarrow>
     10 \<le> ledgerVersion (ltxHeader ltx) \<and> k = OfferKey (sellerID oe) (offerID oe) \<and> offerAt ltx k oe \<and>
     validPrice (price oe) \<and> 0 \<le> sint (amount oe) \<and> buying oe \<noteq> selling oe \<and>
     holdOk ltx (sellerID oe) (buying oe) \<and> holdOk ltx (sellerID oe) (selling oe) \<and>
     holdOk ltx (sellerID oe) ASSET_TYPE_NATIVE \<and> subEntries ltx (sellerID oe) \<noteq> Some 0"

definition onlySeller :: "LedgerKey \<Rightarrow> OfferEntry \<Rightarrow> LedgerTxn \<Rightarrow> LedgerTxn \<Rightarrow> bool" where
  "onlySeller k oe ltx ltx' \<longleftrightarrow>
     ltxHeader ltx' = ltxHeader ltx \<and>
     (\<forall>j. j \<noteq> k \<and> j \<noteq> AccountKey (sellerID oe) \<and> holderKey (sellerID oe) (buying oe) \<noteq> Some j \<and>
        holderKey (sellerID oe) (selling oe) \<noteq> Some j \<longrightarrow> loadEntry ltx' j = loadEntry ltx j)"

lemma onlySeller_trans:
  "onlySeller k oe l1 l2 \<Longrightarrow> onlySeller k oe l2 l3 \<Longrightarrow> onlySeller k oe l1 l3"
  by (simp add: onlySeller_def)

lemma ready_updHold:
  assumes r: "ready ltx k oe" and x: "x = buying oe \<or> x = selling oe" and a: "a = sellerID oe"
    and hold: "\<And>y. holdOk ltx a y \<Longrightarrow> holdOk (updHold ltx a x f) a y"
    and sub: "\<And>e. subEntriesOf (f e) = subEntriesOf e"
  shows "ready (updHold ltx a x f) k oe" "onlySeller k oe ltx (updHold ltx a x f)"
proof -
  have "offerAt (updHold ltx a x f) k oe"
    using r holderKey_not_offer by (auto simp: ready_def offerAt_def)
  moreover have "subEntries (updHold ltx a x f) a = subEntries ltx a"
    using sub by (auto simp: subEntries_def option.map_comp o_def)
  ultimately show "ready (updHold ltx a x f) k oe"
    using r hold unfolding a by (simp add: ready_def)
  show "onlySeller k oe ltx (updHold ltx a x f)" using x unfolding a by (auto simp: onlySeller_def)
qed

lemma heldBalance_updHold:
  assumes "\<And>e. holding ltx a x = Some e \<Longrightarrow> sint (balanceOf (f e)) = sint (balanceOf e) + d"
  shows "heldBalance (updHold ltx a x f) a y =
    (if y = x then map_option (\<lambda>b. b + d) (heldBalance ltx a x) else heldBalance ltx a y)"
  using assms by (cases "holding ltx a x") (auto simp: heldBalance_def holding_updHold)

lemma agreeBut_ready:
  assumes r: "ready ltx k oe" and "agreeBut k ltx ltx'" "offerAt ltx' k (oe\<lparr>amount := A\<rparr>)" "0 \<le> sint A"
  shows "ready ltx' k (oe\<lparr>amount := A\<rparr>)" "onlySeller k oe ltx ltx'" "heldBalance ltx' a x = heldBalance ltx a x"
proof -
  have k: "k = OfferKey (sellerID oe) (offerID oe)" using r by (simp add: ready_def)
  note h = agreeBut_holding [OF assms(2) [unfolded k]]
  have "subEntries ltx' (sellerID oe) = subEntries ltx (sellerID oe)" "ltxHeader ltx' = ltxHeader ltx"
    using assms(2) by (simp_all add: subEntries_def agreeBut_def k)
  then show "ready ltx' k (oe\<lparr>amount := A\<rparr>)" using r assms(3,4) h by (simp add: ready_def)
  show "onlySeller k oe ltx ltx'" using assms(2) by (simp add: onlySeller_def agreeBut_def)
  show "heldBalance ltx' a x = heldBalance ltx a x" using h by (simp add: heldBalance_def)
qed

lemma changeLiabilities_ready:
  assumes r: "ready ltx k oe" "a = sellerID oe" "entryData offE = OFFER oe"
    and e: "exchangeV10WithoutPriceErrorThresholds (price oe) (amount oe) INT64_MAX INT64_MAX INT64_MAX False = Inr res"
    and db: "db = (if acq then sheepSend10 res else - sheepSend10 res)"
      "\<And>e. holding ltx a (buying oe) = Some e \<Longrightarrow>
         if sint db < 0 then - sint db \<le> sint (buyingOf e) else sint db \<le> receivable e"
    and ds: "ds = (if acq then wheatReceived10 res else - wheatReceived10 res)"
      "\<And>e. holding ltx a (selling oe) = Some e \<Longrightarrow>
         if sint ds < 0 then - sint ds \<le> sint (sellingOf e) else ds = 0 \<or> sint ds \<le> spendable (ltxHeader ltx) e"
  obtains ltx' where "acquireOrReleaseLiabilities ltx offE acq = Inr ltx'" "ready ltx' k oe" "onlySeller k oe ltx ltx'"
    "\<And>x. heldBalance ltx' a x = heldBalance ltx a x"
proof -
  let ?l1 = "updHold ltx a (buying oe) (raiseBuying0 db)"
  let ?l2 = "updHold ?l1 a (selling oe) (raiseSelling0 ds)"
  have rd: "10 \<le> ledgerVersion (ltxHeader ltx)" "buying oe \<noteq> selling oe" "holdOk ltx a (buying oe)" "holdOk ltx a (selling oe)"
    using r by (simp_all add: ready_def)
  have b: "holdOk ltx a y \<Longrightarrow> holdOk ?l1 a y" for y
    using buyingBranch_accepts(2) [OF rd(3), of db] db(2) by blast
  have s: "holdOk ?l1 a y \<Longrightarrow> holdOk ?l2 a y" for y
    using sellingBranch_accepts(2) [OF b [OF rd(4)], of ds] ds(2) rd(2) by (simp add: holding_updHold)
  note r1 = ready_updHold [OF r(1) disjI1 [OF refl] r(2) b]
  note r2 = ready_updHold [OF r1(1) disjI2 [OF refl] r(2) s]
  show ?thesis
  proof (rule that)
    show "acquireOrReleaseLiabilities ltx offE acq = Inr ?l2"
      using r(3,2) rd(2,1) e rd(3,4) db ds refl by (rule changeLiabilities(1))
    show "ready ?l2 k oe" "onlySeller k oe ltx ?l2" using r1 r2 onlySeller_trans by simp_all
    show "heldBalance ?l2 a x = heldBalance ltx a x" for x
      using heldBalance_updHold [of ?l1 a "selling oe" "raiseSelling0 ds" 0 x]
        heldBalance_updHold [of ltx a "buying oe" "raiseBuying0 db" 0 x] by (auto simp: option.map_ident)
  qed
qed

lemma offer_liabilities:
  assumes "validPrice p" "0 \<le> sint A"
  obtains res where "exchangeV10WithoutPriceErrorThresholds p A INT64_MAX INT64_MAX INT64_MAX False = Inr res"
    "0 \<le> sint (wheatReceived10 res)" "0 \<le> sint (sheepSend10 res)"
proof -
  obtain wr ss where a: "exactAmounts (natN p) (natD p)
      (min (unat INT64_MAX * natD p) (unat INT64_MAX * natN p) < min (unat A * natN p) (unat INT64_MAX * natD p)) False
      (min (unat A * natN p) (unat INT64_MAX * natD p)) (min (unat INT64_MAX * natD p) (unat INT64_MAX * natN p)) = (wr, ss)"
    by force
  have m: "0 \<le> sint INT64_MAX" by simp
  note u = exchangeV10_unchecked [OF assms m m m refl refl a]
  show ?thesis
    by (rule that [OF u]) (use amounts_fair [OF assms m m m refl refl a refl] in \<open>simp_all add: withinLimits_def\<close>)
qed

text \<open>The liabilities of the seller include those of the offer.\<close>

definition covered :: "LedgerTxn \<Rightarrow> OfferEntry \<Rightarrow> bool" where
  "covered ltx oe \<longleftrightarrow>
     (\<forall>res. exchangeV10WithoutPriceErrorThresholds (price oe) (amount oe) INT64_MAX INT64_MAX INT64_MAX False = Inr res \<longrightarrow>
        (\<forall>e. holding ltx (sellerID oe) (buying oe) = Some e \<longrightarrow> sint (sheepSend10 res) \<le> sint (buyingOf e)) \<and>
        (\<forall>e. holding ltx (sellerID oe) (selling oe) = Some e \<longrightarrow> sint (wheatReceived10 res) \<le> sint (sellingOf e)))"

lemma release_ready:
  assumes r: "ready ltx k oe" "a = sellerID oe" "covered ltx oe" and off: "entryData offE = OFFER oe"
  obtains ltx' where "releaseLiabilities ltx offE = Inr ltx'" "ready ltx' k oe" "onlySeller k oe ltx ltx'"
    "\<And>x. heldBalance ltx' a x = heldBalance ltx a x"
proof -
  obtain res where res: "exchangeV10WithoutPriceErrorThresholds (price oe) (amount oe) INT64_MAX INT64_MAX INT64_MAX False = Inr res"
    "0 \<le> sint (wheatReceived10 res)" "0 \<le> sint (sheepSend10 res)"
    using offer_liabilities [of "price oe" "amount oe"] r(1) by (auto simp: ready_def)
  have b: "if sint (- sheepSend10 res) < 0 then - sint (- sheepSend10 res) \<le> sint (buyingOf e)
      else sint (- sheepSend10 res) \<le> receivable e" if "holding ltx a (buying oe) = Some e" for e
  proof -
    have "0 \<le> receivable e"
      using that r(1,2) spendable_le_balance(2) by (auto simp: ready_def holdOk_holding holding_def balanceOk_def)
    then show ?thesis using r(2,3) res that by (auto simp: covered_def sint_neg64)
  qed
  have s: "if sint (- wheatReceived10 res) < 0 then - sint (- wheatReceived10 res) \<le> sint (sellingOf e)
      else - wheatReceived10 res = 0 \<or> sint (- wheatReceived10 res) \<le> spendable (ltxHeader ltx) e"
    if "holding ltx a (selling oe) = Some e" for e
    using r(2,3) res that sint_eq_0 [of "wheatReceived10 res"] by (auto simp: covered_def sint_neg64)
  show ?thesis
    by (rule changeLiabilities_ready [OF r(1,2) off res(1), where acq = False])
      (use b s that in \<open>simp_all add: releaseLiabilities_def\<close>)
qed

lemma acquire_ready:
  assumes r: "ready ltx k oe" "a = sellerID oe" and off: "entryData offE = OFFER oe"
    and adj: "adjustOffer (price oe) W S = Inr (amount oe)" "0 \<le> sint W" "sint W \<le> sendLimit ltx a (selling oe)"
      "sint S = recvLimit ltx a (buying oe)"
  obtains ltx' where "acquireLiabilities ltx offE = Inr ltx'" "ready ltx' k oe" "onlySeller k oe ltx ltx'"
    "\<And>x. heldBalance ltx' a x = heldBalance ltx a x"
proof -
  have S: "0 \<le> sint S" using adj(4) r limits_nonneg(2) by (simp add: ready_def)
  obtain res where res: "exchangeV10WithoutPriceErrorThresholds (price oe) (amount oe) INT64_MAX INT64_MAX INT64_MAX False = Inr res"
    "0 \<le> sint (wheatReceived10 res)" "sint (wheatReceived10 res) \<le> sint W"
    "0 \<le> sint (sheepSend10 res)" "sint (sheepSend10 res) \<le> sint S"
    using adjusted_liabilities [of "price oe" W S "amount oe"] r(1) adj(1,2) S by (auto simp: ready_def)
  have b: "if sint (sheepSend10 res) < 0 then - sint (sheepSend10 res) \<le> sint (buyingOf e)
      else sint (sheepSend10 res) \<le> receivable e" if "holding ltx a (buying oe) = Some e" for e
    using that res(4,5) adj(4) by (simp add: recvLimit_def)
  have s: "if sint (wheatReceived10 res) < 0 then - sint (wheatReceived10 res) \<le> sint (sellingOf e)
      else wheatReceived10 res = 0 \<or> sint (wheatReceived10 res) \<le> spendable (ltxHeader ltx) e"
    if "holding ltx a (selling oe) = Some e" for e
  proof -
    have "sint W \<le> max (spendable (ltxHeader ltx) e) 0" using that adj(3) by (simp add: sendLimit_def)
    then have "sint (wheatReceived10 res) = 0 \<or> sint (wheatReceived10 res) \<le> spendable (ltxHeader ltx) e"
      using res(2,3) by linarith
    then show ?thesis using res(2) by simp
  qed
  show ?thesis
    by (rule changeLiabilities_ready [OF r off res(1), where acq = True])
      (use b s that in \<open>simp_all add: acquireLiabilities_def\<close>)
qed

text \<open>Settling: the sheep that the seller receives and the wheat that it sends.\<close>

lemma settle_ready:
  assumes r: "ready ltx k oe" "a = sellerID oe" and w: "0 \<le> sint w" "sint w \<le> sendLimit ltx a (selling oe)"
    and s: "0 \<le> sint s" "sint s \<le> recvLimit ltx a (buying oe)"
  obtains ltx1 ltx2 where
    "settleV10 ltx a (buying oe) (wrapperOf a (buying oe)) s msg = Inr ltx1"
    "settleV10 ltx1 a (selling oe) (wrapperOf a (selling oe)) (- w) msg' = Inr ltx2"
    "ready ltx2 k oe" "onlySeller k oe ltx ltx2"
    "heldBalance ltx2 a (buying oe) = map_option (\<lambda>b. b + sint s) (heldBalance ltx a (buying oe))"
    "heldBalance ltx2 a (selling oe) = map_option (\<lambda>b. b - sint w) (heldBalance ltx a (selling oe))"
proof -
  let ?b = "buying oe" and ?s = "selling oe"
  let ?l1 = "updHold ltx a ?b (\<lambda>e. moved e s)"
  let ?l2 = "updHold ?l1 a ?s (\<lambda>e. moved e (- w))"
  have ne: "?b \<noteq> ?s" and hb: "holdOk ltx a ?b" and hs: "holdOk ltx a ?s" using r by (simp_all add: ready_def)
  note b = settle_recv [OF hb s]
  have lim: "sint w \<le> sendLimit ?l1 a ?s" using w(2) ne by (simp add: sendLimit_def holding_updHold split: option.splits)
  note c = settle_send [OF b(2) [OF hs] w(1) lim]
  have mb: "sint (balanceOf (moved e s)) = sint (balanceOf e) + sint s" if "holding ltx a ?b = Some e" for e
    using that hb s moved_effect(5) [of "ltxHeader ltx" e s]
    by (auto simp: holdOk_holding holding_def balanceOk_def accepts_def recvLimit_def)
  have ms: "sint (balanceOf (moved e (- w))) = sint (balanceOf e) + - sint w" if "holding ?l1 a ?s = Some e" for e
  proof (cases "w = 0")
    case False
    then have "0 < sint w" using w(1) sint_eq_0 [of w] by linarith
    moreover have h: "holding ltx a ?s = Some e" using that ne by (simp add: holding_updHold)
    moreover have "balanceOk (ltxHeader ltx) e" using h hs by (auto simp: holdOk_holding holding_def)
    moreover from h w(2) \<open>0 < sint w\<close> have "sint w \<le> spendable (ltxHeader ltx) e" by (simp add: sendLimit_def max_def split: if_splits)
    ultimately show ?thesis
      using moved_effect(5) [of "ltxHeader ltx" e "- w"] by (simp add: balanceOk_def accepts_def sint_neg64)
  qed simp
  note r1 = ready_updHold [OF r(1) disjI1 [OF refl] r(2) b(2) subEntriesOf_frame(1)]
  note r2 = ready_updHold [OF r1(1) disjI2 [OF refl] r(2) c(2) subEntriesOf_frame(1)]
  show ?thesis
  proof (rule that [OF b(1) c(1) r2(1) onlySeller_trans [OF r1(2) r2(2)]])
    have h1: "heldBalance ?l1 a y = (if y = ?b then map_option (\<lambda>v. v + sint s) (heldBalance ltx a ?b) else heldBalance ltx a y)" for y
      using mb by (rule heldBalance_updHold)
    have h2: "heldBalance ?l2 a y = (if y = ?s then map_option (\<lambda>v. v + - sint w) (heldBalance ?l1 a ?s) else heldBalance ?l1 a y)" for y
      using ms by (rule heldBalance_updHold)
    show "heldBalance ?l2 a ?b = map_option (\<lambda>b. b + sint s) (heldBalance ltx a ?b)"
      "heldBalance ?l2 a ?s = map_option (\<lambda>b. b - sint w) (heldBalance ltx a ?s)"
      using ne by (simp_all add: h1 h2)
  qed
qed

text \<open>The end of a crossing: the offer is removed, or the liabilities of what remains are acquired.\<close>

lemma remove_ready:
  assumes r: "ready ltx k oe" "a = sellerID oe"
  obtains ltx' where "removeOffer ltx k a = Inr ltx'" "loadEntry ltx' k = None" "onlySeller k oe ltx ltx'"
    "holdOk ltx' a (buying oe)" "holdOk ltx' a (selling oe)" "\<And>x. heldBalance ltx' a x = heldBalance ltx a x"
proof -
  have k: "k = OfferKey a (offerID oe)" and n: "holdOk ltx a ASSET_TYPE_NATIVE" "subEntries ltx a \<noteq> Some 0"
    and h: "holdOk ltx a (buying oe)" "holdOk ltx a (selling oe)" using r by (simp_all add: ready_def)
  obtain e where e: "loadEntry ltx (AccountKey a) = Some e" "subEntriesOf e \<noteq> 0" "LedgerEntryKey e = AccountKey a"
    using n by (auto simp: holdOk_def holderKey_def subEntries_def)
  note rm = removeOffer_exact [OF n(1) e(1,2)]
  let ?l = "storeEntry (eraseEntry ltx k) (AccountKey a) (oneFewer e)"
  have hold: "holding ?l a x = (if holderKey a x = Some (AccountKey a) then Some (oneFewer e) else holding ltx a x)" for x
    using holderKey_not_offer [of a x a "offerID oe"] by (cases "holderKey a x") (auto simp: holding_def k)
  show ?thesis
  proof (rule that)
    show "removeOffer ltx k a = Inr ?l" "loadEntry ?l k = None" using rm(1) by (simp_all add: k)
    show "onlySeller k oe ltx ?l" using r(2) by (simp add: onlySeller_def)
    show "holdOk ?l a (buying oe)" "holdOk ?l a (selling oe)"
      using h rm(2) e(3) by (auto simp: holdOk_holding hold)
    show "heldBalance ?l a x = heldBalance ltx a x" for x using e(1) by (simp add: heldBalance_def hold) (simp add: holding_def)
  qed
qed

text \<open>The middle of a crossing: from the released ledger to the amounts and the settled ledger.\<close>

lemma exchange_ready:
  assumes r: "ready ltx k oe" "a = sellerID oe" and lim: "0 < sint maxW" "0 < sint maxS"
    and acct: "account = (if selling oe = ASSET_TYPE_NATIVE \<or> buying oe = ASSET_TYPE_NATIVE then Some (AccountKey a) else None)"
  obtains ltx2 A canSell maxSheep res where
    "adjustOfferEntry ltx k account (selling oe) (wrapperOf a (selling oe)) (buying oe) (wrapperOf a (buying oe)) = Inr ltx2"
    "ready ltx2 k (oe\<lparr>amount := A\<rparr>)" "onlySeller k oe ltx ltx2" "\<And>x. heldBalance ltx2 a x = heldBalance ltx a x"
    "canSellAtMost ltx2 account (selling oe) (wrapperOf a (selling oe)) = Inr canSell"
    "canBuyAtMost ltx2 account (buying oe) (wrapperOf a (buying oe)) = Inr maxSheep"
    "exchangeV10 (price oe) (min64 A canSell) maxW maxS maxSheep path = Inr res"
    "0 \<le> sint (wheatReceived10 res)" "sint (wheatReceived10 res) \<le> min (sint maxW) (sint A)" "sint A \<le> sint (amount oe)"
    "sint (wheatReceived10 res) \<le> sendLimit ltx2 a (selling oe)"
    "0 \<le> sint (sheepSend10 res)" "sint (sheepSend10 res) \<le> sint maxS" "sint (sheepSend10 res) \<le> recvLimit ltx2 a (buying oe)"
    "wheatReceived10 res = 0 \<longleftrightarrow> sheepSend10 res = 0"
proof -
  have rd: "offerAt ltx k oe" "k = OfferKey (sellerID oe) (offerID oe)" "validPrice (price oe)" "0 \<le> sint (amount oe)"
    "holdOk ltx a (selling oe)" "holdOk ltx a (buying oe)" using r(1) unfolding ready_def r(2) by blast+
  have acct': "selling oe = ASSET_TYPE_NATIVE \<Longrightarrow> account = Some (AccountKey a)"
    "buying oe = ASSET_TYPE_NATIVE \<Longrightarrow> account = Some (AccountKey a)" using acct by simp_all
  obtain ltx2 A W S where adj:
    "adjustOfferEntry ltx k account (selling oe) (wrapperOf a (selling oe)) (buying oe) (wrapperOf a (buying oe)) = Inr ltx2"
    "offerAt ltx2 k (oe\<lparr>amount := A\<rparr>)" "agreeBut k ltx ltx2" "adjustOffer (price oe) W S = Inr A"
    "sint W = min (sint (amount oe)) (sendLimit ltx a (selling oe))" "sint S = recvLimit ltx a (buying oe)"
    "0 \<le> sint A" "sint A \<le> sint W"
    by (rule adjustOfferEntry_exact [OF rd acct'])
  note h = agreeBut_holding [OF adj(3) [unfolded rd(2)]]
  have nn: "0 \<le> sint W" "0 \<le> sint S"
    using adj(5,6) rd(4) limits_nonneg [OF rd(5)] limits_nonneg [OF rd(6)] by simp_all
  obtain w where w: "canSellAtMost ltx2 account (selling oe) (wrapperOf a (selling oe)) = Inr w"
    "sint w = sendLimit ltx a (selling oe)"
    using canSellAtMost_exact [OF _ acct'(1), of ltx2] rd(5) h by metis
  obtain S' where S': "canBuyAtMost ltx2 account (buying oe) (wrapperOf a (buying oe)) = Inr S'"
    "sint S' = recvLimit ltx a (buying oe)"
    using canBuyAtMost_exact [OF _ acct'(2), of ltx2] rd(6) h by metis
  have "S' = S" using S'(2) adj(6) by (metis of_int_sint scast_id)
  have "min64 A w = A" using adj(5,8) w(2) by (simp add: min64_def)
  obtain res where res: "exchangeV10 (price oe) A maxW maxS S path = Inr res" "withinLimits A maxW maxS S res"
    "wheatReceived10 res = 0 \<longleftrightarrow> sheepSend10 res = 0"
    using exchangeV10_after_adjust [OF rd(3) nn(1) _ _ nn(2) adj(4), of maxW maxS path] lim by auto
  show ?thesis
    by (rule that [OF adj(1) agreeBut_ready(1) [OF r(1) adj(3,2,7)] agreeBut_ready(2) [OF r(1) adj(3,2,7)]
          agreeBut_ready(3) [OF r(1) adj(3,2,7)] w(1) S'(1)])
      (use res \<open>S' = S\<close> \<open>min64 A w = A\<close> adj(5,6,8) in \<open>auto simp: withinLimits_def h\<close>)
qed

text \<open>What remains of the offer.\<close>

definition remaining ::
  "LedgerTxn \<Rightarrow> LedgerKey \<Rightarrow> LedgerKey option \<Rightarrow> OfferEntry \<Rightarrow> bool \<Rightarrow> int64 \<Rightarrow> ledger_error + LedgerTxn" where
  "remaining ltx k account oe stays left =
     (if stays
      then bindE (setAmount ltx k left) (\<lambda>ltx5.
           adjustOfferEntry ltx5 k account (selling oe) (wrapperOf (sellerID oe) (selling oe)) (buying oe)
             (wrapperOf (sellerID oe) (buying oe)))
      else setAmount ltx k 0)"

lemma finish_ready:
  assumes r: "ready ltx k oe" "a = sellerID oe" and left: "0 \<le> sint left"
    and acct: "account = (if selling oe = ASSET_TYPE_NATIVE \<or> buying oe = ASSET_TYPE_NATIVE then Some (AccountKey a) else None)"
  obtains ltx6 offE A ltx7 where "remaining ltx k account oe stays left = Inr ltx6"
    "loadEntry ltx6 k = Some offE" "entryData offE = OFFER (oe\<lparr>amount := A\<rparr>)"
    "(if A = 0 then removeOffer ltx6 k a else acquireLiabilities ltx6 offE) = Inr ltx7"
    "if A = 0 then loadEntry ltx7 k = None else ready ltx7 k (oe\<lparr>amount := A\<rparr>)" "0 \<le> sint A" "sint A \<le> sint left"
    "onlySeller k oe ltx ltx7" "holdOk ltx7 a (buying oe)" "holdOk ltx7 a (selling oe)"
    "\<And>x. heldBalance ltx7 a x = heldBalance ltx a x"
proof -
  have "\<exists>ltx6 A W S. remaining ltx k account oe stays left = Inr ltx6 \<and> agreeBut k ltx ltx6 \<and>
    offerAt ltx6 k (oe\<lparr>amount := A\<rparr>) \<and> 0 \<le> sint A \<and> sint A \<le> sint left \<and>
    (A \<noteq> 0 \<longrightarrow> adjustOffer (price oe) W S = Inr A \<and> 0 \<le> sint W \<and> sint W \<le> sendLimit ltx6 a (selling oe) \<and>
       sint S = recvLimit ltx6 a (buying oe))"
  proof (cases stays)
    case True
    have acct': "selling oe = ASSET_TYPE_NATIVE \<Longrightarrow> account = Some (AccountKey a)"
      "buying oe = ASSET_TYPE_NATIVE \<Longrightarrow> account = Some (AccountKey a)" using acct by simp_all
    obtain ltx5 where l5: "setAmount ltx k left = Inr ltx5" "offerAt ltx5 k (oe\<lparr>amount := left\<rparr>)" "agreeBut k ltx ltx5"
      using setAmount_offer [of ltx k oe left] r(1) unfolding ready_def by blast
    note r5 = agreeBut_ready(1) [OF r(1) l5(3,2) left]
    then have rd: "k = OfferKey (sellerID oe) (offerID oe)" "validPrice (price (oe\<lparr>amount := left\<rparr>))"
      "0 \<le> sint (amount (oe\<lparr>amount := left\<rparr>))" "holdOk ltx5 a (selling oe)" "holdOk ltx5 a (buying oe)"
      using left unfolding ready_def r(2) by simp_all
    obtain ltx6 A W S where adj:
      "adjustOfferEntry ltx5 k account (selling oe) (wrapperOf a (selling oe)) (buying oe) (wrapperOf a (buying oe)) = Inr ltx6"
      "offerAt ltx6 k (oe\<lparr>amount := left, amount := A\<rparr>)" "agreeBut k ltx5 ltx6"
      "adjustOffer (price (oe\<lparr>amount := left\<rparr>)) W S = Inr A"
      "sint W = min (sint (amount (oe\<lparr>amount := left\<rparr>))) (sendLimit ltx5 a (selling oe))" "sint S = recvLimit ltx5 a (buying oe)"
      "0 \<le> sint A" "sint A \<le> sint W"
      by (rule adjustOfferEntry_exact [OF l5(2) rd acct'])
    note h = agreeBut_holding [OF adj(3) [unfolded rd(1)]]
    have "remaining ltx k account oe stays left = Inr ltx6" using True l5(1) adj(1) r(2) by (simp add: remaining_def)
    with adj limits_nonneg(1) [OF rd(4)] left agreeBut_trans [OF l5(3) adj(3)] show ?thesis
      by (intro exI [of _ ltx6] exI [of _ A] exI [of _ W] exI [of _ S]) (auto simp: h)
  next
    case False
    obtain ltx6 where "setAmount ltx k 0 = Inr ltx6" "offerAt ltx6 k (oe\<lparr>amount := 0\<rparr>)" "agreeBut k ltx ltx6"
      using setAmount_offer [of ltx k oe 0] r(1) unfolding ready_def by blast
    with False left show ?thesis by (auto simp: remaining_def)
  qed
  then obtain ltx6 A W S where l6: "remaining ltx k account oe stays left = Inr ltx6" "agreeBut k ltx ltx6"
    "offerAt ltx6 k (oe\<lparr>amount := A\<rparr>)" "0 \<le> sint A" "sint A \<le> sint left"
    and adj: "A \<noteq> 0 \<Longrightarrow> adjustOffer (price oe) W S = Inr A \<and> 0 \<le> sint W \<and> sint W \<le> sendLimit ltx6 a (selling oe) \<and>
       sint S = recvLimit ltx6 a (buying oe)" by blast
  note r6 = agreeBut_ready [OF r(1) l6(2,3,4)]
  obtain offE where offE: "loadEntry ltx6 k = Some offE" "entryData offE = OFFER (oe\<lparr>amount := A\<rparr>)"
    using l6(3) by (auto simp: offerAt_def)
  have seller: "a = sellerID (oe\<lparr>amount := A\<rparr>)" using r(2) by simp
  have only: "onlySeller k (oe\<lparr>amount := A\<rparr>) ltx6 l \<Longrightarrow> onlySeller k oe ltx l" for l
    using r6(2) by (simp add: onlySeller_def)
  show ?thesis
  proof (cases "A = 0")
    case True
    obtain l7 where l7: "removeOffer ltx6 k a = Inr l7" "loadEntry l7 k = None" "onlySeller k (oe\<lparr>amount := A\<rparr>) ltx6 l7"
      "holdOk l7 a (buying (oe\<lparr>amount := A\<rparr>))" "holdOk l7 a (selling (oe\<lparr>amount := A\<rparr>))"
      "\<And>x. heldBalance l7 a x = heldBalance ltx6 a x"
      by (rule remove_ready [OF r6(1) seller]) blast
    show ?thesis by (rule that [OF l6(1) offE, of l7]) (use True l7 l6(4,5) only r6(3) in simp_all)
  next
    case False
    obtain l7 where l7: "acquireLiabilities ltx6 offE = Inr l7" "ready l7 k (oe\<lparr>amount := A\<rparr>)"
      "onlySeller k (oe\<lparr>amount := A\<rparr>) ltx6 l7" "\<And>x. heldBalance l7 a x = heldBalance ltx6 a x"
      by (rule acquire_ready [OF r6(1) seller offE(2), of W S]) (use adj [OF False] in simp_all)
    have "holdOk l7 a (buying oe)" "holdOk l7 a (selling oe)" using l7(2) r(2) by (simp_all add: ready_def)
    then show ?thesis
      by (intro that [OF l6(1) offE, of l7]) (use False l7 l6(4,5) only r6(3) in simp_all)
  qed
qed

text \<open>A crossing is the composition of its stages: release, adjust, exchange, settle, keep or remove what remains.\<close>

lemma crossOfferV10_stages:
  fixes oe :: OfferEntry and a :: AccountID
  defines "acct \<equiv> accountIfNative (selling oe) (buying oe) a"
  assumes r: "0 < sint maxW" "0 < sint maxS" "a = sellerID oe" "loadEntry ltx (AccountKey a) \<noteq> None"
    and off: "loadEntry ltx k = Some offE" "entryData offE = OFFER oe" "releaseLiabilities ltx offE = Inr ltx1"
    and wrap: "loadTrustLineIfNotNative ltx1 a (buying oe) = Inr (wrapperOf a (buying oe))"
      "loadTrustLineIfNotNative ltx1 a (selling oe) = Inr (wrapperOf a (selling oe))"
    and exch: "adjustOfferEntry ltx1 k acct (selling oe) (wrapperOf a (selling oe)) (buying oe) (wrapperOf a (buying oe)) = Inr ltx2"
      "canSellAtMost ltx2 acct (selling oe) (wrapperOf a (selling oe)) = Inr canSell"
      "canBuyAtMost ltx2 acct (buying oe) (wrapperOf a (buying oe)) = Inr maxSheep"
      "exchangeV10 (price oe) (min64 A canSell) maxW maxS maxSheep path = Inr res"
    and off2: "loadEntry ltx2 k = Some offE2" "entryData offE2 = OFFER (oe\<lparr>amount := A\<rparr>)"
    and settle: "settleV10 ltx2 a (buying oe) (wrapperOf a (buying oe)) (sheepSend10 res) ''overflowed sheep balance'' = Inr ltx3"
      "settleV10 ltx3 a (selling oe) (wrapperOf a (selling oe)) (- wheatReceived10 res) ''overflowed wheat balance'' = Inr ltx4"
    and left: "remaining ltx4 k acct (oe\<lparr>amount := A\<rparr>) (wheatStays res) (A - wheatReceived10 res) = Inr ltx6"
      "loadEntry ltx6 k = Some offE6" "entryData offE6 = OFFER (oe\<lparr>amount := A6\<rparr>)"
      "(if A6 = 0 then removeOffer ltx6 k a else acquireLiabilities ltx6 offE6) = Inr ltx7"
  shows "crossOfferV10 ltx k maxW maxS path trail = Inr
     (\<lparr>crossResult = (if A6 = 0 then eOfferTaken else eOfferPartial), crossWheat = wheatReceived10 res,
       crossSheep = sheepSend10 res, crossStays = wheatStays res,
       crossTrail = trail @ [\<lparr>claimSeller = a, claimOfferID = offerID oe, assetSold = selling oe,
         amountSold = wheatReceived10 res, assetBought = buying oe, amountBought = sheepSend10 res\<rparr>]\<rparr>, ltx7)"
proof -
  have exists: "throwIf (loadEntry ltx (AccountKey a) = None) msg = Inr ()" for msg using r(4) by auto
  have rest: "(if wheatStays res
      then bindE (setAmount ltx4 k (A - wheatReceived10 res)) (\<lambda>ltx5.
        adjustOfferEntry ltx5 k acct (selling oe) (wrapperOf a (selling oe)) (buying oe) (wrapperOf a (buying oe)))
      else setAmount ltx4 k 0) = Inr ltx6"
    using left(1) by (cases "wheatStays res") (simp_all add: remaining_def r(3) [symmetric])
  show ?thesis
    using r(1,2) off exists wrap exch off2 settle rest left(2-4) unfolding acct_def
    by (cases "wheatStays res"; cases "A6 = 0")
      (simp_all add: crossOfferV10_def assertE_def theOffer_def Let_def r(3) [symmetric])
qed

text \<open>C22. From protocol version 10, crossing an offer of a well-formed ledger never fails, whatever the taker asks:
  the wheat and the sheep exchanged are within the limits of the taker and the amount of the offer, the balances of
  the seller move by exactly these amounts and stay well formed, no other entry changes, and the offer is removed
  or remains with its liabilities acquired.\<close>

theorem crossOfferV10_succeeds:
  assumes r: "ready ltx k oe" "covered ltx oe" "0 < sint maxW" "0 < sint maxS" "a = sellerID oe"
  shows "\<exists>c ltx'. crossOfferV10 ltx k maxW maxS path trail = Inr (c, ltx') \<and>
    0 \<le> sint (crossWheat c) \<and> sint (crossWheat c) \<le> min (sint maxW) (sint (amount oe)) \<and>
    0 \<le> sint (crossSheep c) \<and> sint (crossSheep c) \<le> sint maxS \<and> (crossWheat c = 0 \<longleftrightarrow> crossSheep c = 0) \<and>
    heldBalance ltx' a (selling oe) = map_option (\<lambda>b. b - sint (crossWheat c)) (heldBalance ltx a (selling oe)) \<and>
    heldBalance ltx' a (buying oe) = map_option (\<lambda>b. b + sint (crossSheep c)) (heldBalance ltx a (buying oe)) \<and>
    holdOk ltx' a (selling oe) \<and> holdOk ltx' a (buying oe) \<and> onlySeller k oe ltx ltx' \<and>
    (if crossResult c = eOfferTaken then loadEntry ltx' k = None
     else \<exists>A. ready ltx' k (oe\<lparr>amount := A\<rparr>) \<and> sint A \<le> sint (amount oe) - sint (crossWheat c))"
proof -
  let ?acct = "accountIfNative (selling oe) (buying oe) a"
  obtain offE where off: "loadEntry ltx k = Some offE" "entryData offE = OFFER oe"
    using r(1) by (auto simp: ready_def offerAt_def)
  have exists: "loadEntry ltx (AccountKey a) \<noteq> None" using r(1,5) by (auto simp: ready_def holdOk_def holderKey_def)
  obtain ltx1 where l1: "releaseLiabilities ltx offE = Inr ltx1" "ready ltx1 k oe" "onlySeller k oe ltx ltx1"
    "\<And>x. heldBalance ltx1 a x = heldBalance ltx a x"
    using release_ready [OF r(1,5,2) off(2)] by blast
  have wrap: "loadTrustLineIfNotNative ltx1 a (buying oe) = Inr (wrapperOf a (buying oe))"
    "loadTrustLineIfNotNative ltx1 a (selling oe) = Inr (wrapperOf a (selling oe))"
    using l1(2) r(5) load_wrapper(1) by (simp_all add: ready_def)
  obtain ltx2 A canSell maxSheep res where l2:
    "adjustOfferEntry ltx1 k ?acct (selling oe) (wrapperOf a (selling oe)) (buying oe) (wrapperOf a (buying oe)) = Inr ltx2"
    "ready ltx2 k (oe\<lparr>amount := A\<rparr>)" "onlySeller k oe ltx1 ltx2" "\<And>x. heldBalance ltx2 a x = heldBalance ltx1 a x"
    "canSellAtMost ltx2 ?acct (selling oe) (wrapperOf a (selling oe)) = Inr canSell"
    "canBuyAtMost ltx2 ?acct (buying oe) (wrapperOf a (buying oe)) = Inr maxSheep"
    "exchangeV10 (price oe) (min64 A canSell) maxW maxS maxSheep path = Inr res"
    and w: "0 \<le> sint (wheatReceived10 res)" "sint (wheatReceived10 res) \<le> min (sint maxW) (sint A)" "sint A \<le> sint (amount oe)"
      "sint (wheatReceived10 res) \<le> sendLimit ltx2 a (selling oe)"
    and s: "0 \<le> sint (sheepSend10 res)" "sint (sheepSend10 res) \<le> sint maxS" "sint (sheepSend10 res) \<le> recvLimit ltx2 a (buying oe)"
    and z: "wheatReceived10 res = 0 \<longleftrightarrow> sheepSend10 res = 0"
    using exchange_ready [OF l1(2) r(5,3,4) accountIfNative_def, of path] by blast
  let ?oe = "oe\<lparr>amount := A\<rparr>"
  have seller: "a = sellerID ?oe" using r(5) by simp
  obtain offE2 where off2: "loadEntry ltx2 k = Some offE2" "entryData offE2 = OFFER ?oe"
    using l2(2) by (auto simp: ready_def offerAt_def)
  obtain ltx3 ltx4 where l4:
    "settleV10 ltx2 a (buying oe) (wrapperOf a (buying oe)) (sheepSend10 res) ''overflowed sheep balance'' = Inr ltx3"
    "settleV10 ltx3 a (selling oe) (wrapperOf a (selling oe)) (- wheatReceived10 res) ''overflowed wheat balance'' = Inr ltx4"
    "ready ltx4 k ?oe" "onlySeller k ?oe ltx2 ltx4"
    "heldBalance ltx4 a (buying oe) = map_option (\<lambda>b. b + sint (sheepSend10 res)) (heldBalance ltx2 a (buying oe))"
    "heldBalance ltx4 a (selling oe) = map_option (\<lambda>b. b - sint (wheatReceived10 res)) (heldBalance ltx2 a (selling oe))"
    using settle_ready [OF l2(2) seller w(1) _ s(1), of "''overflowed sheep balance''" "''overflowed wheat balance''"] w(4) s(3)
    by auto
  have left: "sint (A - wheatReceived10 res) = sint A - sint (wheatReceived10 res)"
    using w(1,2) by (intro sint_sub_nonneg) simp_all
  then have left0: "0 \<le> sint (A - wheatReceived10 res)" using w(2) by simp
  have acct6: "?acct = (if selling ?oe = ASSET_TYPE_NATIVE \<or> buying ?oe = ASSET_TYPE_NATIVE then Some (AccountKey a) else None)"
    by (simp add: accountIfNative_def)
  obtain ltx6 offE6 A6 ltx7 where l7: "remaining ltx4 k ?acct ?oe (wheatStays res) (A - wheatReceived10 res) = Inr ltx6"
    "loadEntry ltx6 k = Some offE6" "entryData offE6 = OFFER (?oe\<lparr>amount := A6\<rparr>)"
    "(if A6 = 0 then removeOffer ltx6 k a else acquireLiabilities ltx6 offE6) = Inr ltx7"
    "if A6 = 0 then loadEntry ltx7 k = None else ready ltx7 k (?oe\<lparr>amount := A6\<rparr>)" "0 \<le> sint A6"
    "sint A6 \<le> sint (A - wheatReceived10 res)" "onlySeller k ?oe ltx4 ltx7" "holdOk ltx7 a (buying ?oe)" "holdOk ltx7 a (selling ?oe)"
    "\<And>x. heldBalance ltx7 a x = heldBalance ltx4 a x"
    by (rule finish_ready [OF l4(3) seller left0 acct6, of "wheatStays res"]) blast
  have l7': "entryData offE6 = OFFER (oe\<lparr>amount := A6\<rparr>)" using l7(3) by simp
  note run = crossOfferV10_stages [OF r(3,4,5) exists off l1(1) wrap l2(1,5-7) off2 l4(1,2) l7(1,2) l7' l7(4)]
  have only: "onlySeller k oe ltx ltx7"
    using l1(3) l2(3) l4(4) l7(8) by (simp add: onlySeller_def)
  show ?thesis
    unfolding run using w s z l7 only left l4(5,6) l2(4) l1(4) by auto
qed

definition exampleUSD :: Asset where
  "exampleUSD = ASSET_TYPE_CREDIT_ALPHANUM4 [85, 83, 68, 0] 9"

definition exampleLine :: LedgerEntry where
  "exampleLine = \<lparr>lastModifiedLedgerSeq = 1, entryData = TRUSTLINE
     \<lparr>tlAccountID = 7, tlAsset = exampleUSD, tlBalance = 50, tlLimit = 1000, tlFlags = 1,
      tlExt = Some \<lparr>buyingLiab = 100, sellingLiab = 0\<rparr>\<rparr>\<rparr>"

definition exampleOffer :: OfferEntry where
  "exampleOffer = \<lparr>sellerID = 7, offerID = 1, selling = ASSET_TYPE_NATIVE, buying = exampleUSD, amount = 100,
     price = \<lparr>priceN = 1, priceD = 1\<rparr>, offerFlags = 0\<rparr>"

definition exampleLedger :: LedgerTxn where
  "exampleLedger = \<lparr>ltxHeader = exampleHeader, ltxEntries =
     [(AccountKey 7, exampleAccount), (TrustLineKey 7 exampleUSD, exampleLine),
      (OfferKey 7 1, \<lparr>lastModifiedLedgerSeq = 1, entryData = OFFER exampleOffer\<rparr>)]\<rparr>"

lemma exampleLedger_load:
  "loadEntry exampleLedger (AccountKey 7) = Some exampleAccount"
  "loadEntry exampleLedger (TrustLineKey 7 exampleUSD) = Some exampleLine"
  "loadEntry exampleLedger (OfferKey 7 1) = Some \<lparr>lastModifiedLedgerSeq = 1, entryData = OFFER exampleOffer\<rparr>"
  "ltxHeader exampleLedger = exampleHeader" "holderKey 7 ASSET_TYPE_NATIVE = Some (AccountKey 7)"
  "holderKey 7 exampleUSD = Some (TrustLineKey 7 exampleUSD)"
  by (simp_all add: loadEntry_def exampleLedger_def holderKey_def exampleUSD_def)

lemma exampleLine_ok: "balanceOk exampleHeader exampleLine" "balanceOk exampleHeader exampleAccount"
  using exampleAccount_ok
  by (simp_all add: balanceOk_def exampleHeader_def entryOk_def exampleLine_def lineOk_def extBuying_def extSelling_def holder_def)

lemma exampleLedger_ready: "ready exampleLedger (OfferKey 7 1) exampleOffer"
proof -
  have "holdOk exampleLedger 7 exampleUSD" "holdOk exampleLedger 7 ASSET_TYPE_NATIVE"
    using exampleLine_ok
    by (simp_all add: holdOk_def exampleLedger_load LedgerEntryKey_def exampleLine_def exampleAccount_def)
  moreover have "subEntries exampleLedger 7 \<noteq> Some 0"
    by (simp add: subEntries_def exampleLedger_load subEntriesOf_def exampleAccount_def)
  moreover have "offerAt exampleLedger (OfferKey 7 1) exampleOffer" by (simp add: offerAt_def exampleLedger_load)
  moreover have "10 \<le> ledgerVersion exampleHeader" "exampleUSD \<noteq> ASSET_TYPE_NATIVE"
    by (simp_all add: exampleHeader_def exampleUSD_def)
  ultimately show ?thesis
    by (simp add: ready_def exampleOffer_def validPrice_def exampleLedger_load)
qed

lemma exampleLedger_covered: "covered exampleLedger exampleOffer"
proof -
  have "case exchangeV10WithoutPriceErrorThresholds (price exampleOffer) (amount exampleOffer) INT64_MAX INT64_MAX INT64_MAX False of
      Inl e \<Rightarrow> False | Inr r \<Rightarrow> sheepSend10 r = 100 \<and> wheatReceived10 r = 100"
    by code_simp
  then show ?thesis
    by (auto simp: covered_def holding_def exampleOffer_def exampleLedger_load buyingOf_def sellingOf_def exampleLine_def
        exampleAccount_def extBuying_def extSelling_def split: sum.splits)
qed

theorem crossOfferV10_succeeds_witness:
  "\<exists>c ltx'. crossOfferV10 exampleLedger (OfferKey 7 1) 30 500 True [] = Inr (c, ltx') \<and>
     heldBalance ltx' 7 exampleUSD = map_option (\<lambda>b. b + sint (crossSheep c)) (heldBalance exampleLedger 7 exampleUSD)"
proof -
  have "7 = sellerID exampleOffer" "exampleUSD = buying exampleOffer" by (simp_all add: exampleOffer_def)
  with crossOfferV10_succeeds [OF exampleLedger_ready exampleLedger_covered _ _ this(1), of 30 500 True "[]"]
  show ?thesis by auto
qed

subsection \<open>Converting\<close>

text \<open>The totals of a conversion are the sums of the claims of its trail, and with what is left to send and to
  receive they make up the limits.\<close>

definition accounts :: "int64 \<Rightarrow> int64 \<Rightarrow> int \<Rightarrow> int \<Rightarrow> Conversion \<Rightarrow> bool" where
  "accounts s w S W cv \<longleftrightarrow>
     0 \<le> sint s \<and> 0 \<le> sint w \<and> 0 \<le> sint (sheepSent cv) \<and> 0 \<le> sint (wheatGot cv) \<and>
     sint (sheepSent cv) + sint s = S \<and> sint (wheatGot cv) + sint w = W \<and>
     sint (sheepSent cv) = (\<Sum>x\<leftarrow>convTrail cv. sint (amountBought x)) \<and>
     sint (wheatGot cv) = (\<Sum>x\<leftarrow>convTrail cv. sint (amountSold x))"

lemma accounts_cross:
  assumes acc: "accounts s w S W cv" "S < 2 ^ 63" "W < 2 ^ 63"
    and run: "crossBest ltx k w s p (convTrail cv) = Inr (c, ltx')" "crossResult c \<noteq> eOfferCantConvert"
  shows "accounts (s - crossSheep c) (w - crossWheat c) S W
    (cv\<lparr>sheepSent := sheepSent cv + crossSheep c, wheatGot := wheatGot cv + crossWheat c, convTrail := crossTrail c\<rparr>)"
proof -
  have b: "0 \<le> sint (crossSheep c)" "sint (crossSheep c) \<le> sint s" "0 \<le> sint (crossWheat c)" "sint (crossWheat c) \<le> sint w"
    using run(1) by (auto simp: crossBest_def err_simps)
  obtain x where x: "crossTrail c = convTrail cv @ [x]" "amountSold x = crossWheat c" "amountBought x = crossSheep c"
    using crossBest_trail [OF run] by (auto simp: extendsTrail_def)
  have "sint (sheepSent cv + crossSheep c) = sint (sheepSent cv) + sint (crossSheep c)"
    "sint (wheatGot cv + crossWheat c) = sint (wheatGot cv) + sint (crossWheat c)"
    using acc b by (intro sint_add64; simp add: accounts_def)+
  moreover have "sint (s - crossSheep c) = sint s - sint (crossSheep c)" "sint (w - crossWheat c) = sint w - sint (crossWheat c)"
    using acc(1) b by (simp_all add: sint_sub_nonneg accounts_def)
  ultimately show ?thesis using acc(1) b x by (simp add: accounts_def)
qed

lemma convertLoop_accounts:
  assumes "convertLoop f sheep wheat p m ltx s w cv = Inr (cv', ltx')" "accounts s w S W cv" "S < 2 ^ 63" "W < 2 ^ 63"
    "length (convTrail cv) \<le> unat m"
  shows "\<exists>s' w'. accounts s' w' S W cv' \<and> length (convTrail cv') \<le> unat m"
  using assms(1)
proof (rule convertLoop_rule [where I = "\<lambda>ltx s w cv. accounts s w S W cv \<and> length (convTrail cv) \<le> unat m"])
  show "accounts s w S W cv \<and> length (convTrail cv) \<le> unat m" using assms by simp
next
  fix ltx k oe s w cv c l
  assume "crossBest ltx k w s p (convTrail cv) = Inr (c, l)" "crossResult c \<noteq> eOfferCantConvert"
    "length (convTrail cv) < unat m" "accounts s w S W cv \<and> length (convTrail cv) \<le> unat m"
  with accounts_cross [of s w S W cv ltx k p c l] assms(3,4) crossBest_trail extendsTrail_length
  show "accounts (s - crossSheep c) (w - crossWheat c) S W (convExtended cv c) \<and>
    length (convTrail (convExtended cv c)) \<le> unat m"
    by (fastforce simp: convExtended_def)
qed (simp add: accounts_def)

text \<open>C26. Whenever a conversion through the order book returns, what it reports adds up: the sheep sent and the wheat received
  are the sums over the claims of the trail, neither exceeds its limit, and no more offers are crossed than
  allowed.\<close>

theorem convertWithOffers_accounts:
  assumes "convertWithOffers ltx sheep maxS wheat maxW path f maxOffers = Inr (cv, ltx')" "0 \<le> sint maxS" "0 \<le> sint maxW"
  shows "0 \<le> sint (sheepSent cv) \<and> sint (sheepSent cv) \<le> sint maxS \<and> 0 \<le> sint (wheatGot cv) \<and>
    sint (wheatGot cv) \<le> sint maxW \<and> length (convTrail cv) \<le> unat maxOffers \<and>
    sint (sheepSent cv) = (\<Sum>x\<leftarrow>convTrail cv. sint (amountBought x)) \<and>
    sint (wheatGot cv) = (\<Sum>x\<leftarrow>convTrail cv. sint (amountSold x))"
proof -
  let ?cv = "\<lparr>convResult = eOK, convCrossSelf = False, sheepSent = 0, wheatGot = 0, convTrail = []\<rparr>"
  have start: "accounts maxS maxW (sint maxS) (sint maxW) ?cv" using assms(2,3) by (simp add: accounts_def)
  have "\<exists>s w. accounts s w (sint maxS) (sint maxW) cv \<and> length (convTrail cv) \<le> unat maxOffers"
  proof (cases "0 < sint maxW \<and> 0 < sint maxS")
    case True
    with assms(1) have "convertLoop f sheep wheat path maxOffers ltx maxS maxW ?cv = Inr (cv, ltx')"
      by (simp add: convertWithOffers_def del: convertLoop.simps)
    from convertLoop_accounts [OF this start sint_range(2) sint_range(2)] show ?thesis by simp
  next
    case False
    with assms(1) have "cv = ?cv" by (auto simp: convertWithOffers_def simp del: convertLoop.simps split: if_splits)
    with start show ?thesis by auto
  qed
  then show ?thesis by (auto simp: accounts_def)
qed

definition earlierLedger :: LedgerTxn where
  "earlierLedger = exampleLedger\<lparr>ltxHeader := exampleHeader\<lparr>ledgerVersion := 9\<rparr>\<rparr>"

lemma exampleConversion:
  "\<exists>cv ltx'. convertWithOffers earlierLedger exampleUSD 500 ASSET_TYPE_NATIVE 30 True None 10 = Inr (cv, ltx') \<and>
     wheatGot cv = 30"
proof -
  have "case convertWithOffers earlierLedger exampleUSD 500 ASSET_TYPE_NATIVE 30 True None 10 of
      Inl e \<Rightarrow> False | Inr (cv, ltx') \<Rightarrow> wheatGot cv = 30"
    by code_simp
  then show ?thesis by (auto split: sum.splits)
qed

theorem convertWithOffers_accounts_witness:
  "\<exists>cv ltx'. convertWithOffers earlierLedger exampleUSD 500 ASSET_TYPE_NATIVE 30 True None 10 = Inr (cv, ltx') \<and>
     wheatGot cv = 30 \<and> sint (sheepSent cv) \<le> 500"
proof -
  obtain cv ltx' where c: "convertWithOffers earlierLedger exampleUSD 500 ASSET_TYPE_NATIVE 30 True None 10 = Inr (cv, ltx')"
    "wheatGot cv = 30" using exampleConversion by blast
  from convertWithOffers_accounts [OF c(1)] have "sint (sheepSent cv) \<le> 500" by simp
  with c show ?thesis by blast
qed

end
