(* ===== verification/Operation_Types.thy ===== *)
theory Operation_Types
  imports Offer_Crossing
begin

text \<open>
  The operations of a transaction and their results, \<open>src/src/xdr/vii-transaction.x\<close>, and what the operation
  frames of \<open>src/src/transactions\<close> share: loading the source account, creating an entry, adding sub-entries.
  A frame's \<open>doApply\<close> returns whether the operation succeeded, its result and the ledger; the
  ledger it leaves after a failure is the one the code leaves, with the changes made so far.
  Before protocol version 8 the source account is read through a pointer that the transaction caches and shares
  with the ledger; these versions are the error \<open>EarlierProtocol\<close>.
\<close>

subsection \<open>Order of signer keys\<close>

primrec signerKeyRank :: "SignerKey \<Rightarrow> nat" where
  "signerKeyRank (SIGNER_KEY_TYPE_ED25519 k) = 0"
| "signerKeyRank (SIGNER_KEY_TYPE_PRE_AUTH_TX k) = 1"
| "signerKeyRank (SIGNER_KEY_TYPE_HASH_X k) = 2"

primrec signerKeyBytes :: "SignerKey \<Rightarrow> 256 word" where
  "signerKeyBytes (SIGNER_KEY_TYPE_ED25519 k) = k"
| "signerKeyBytes (SIGNER_KEY_TYPE_PRE_AUTH_TX k) = k"
| "signerKeyBytes (SIGNER_KEY_TYPE_HASH_X k) = k"

lemma signerKey_eqI: "signerKeyRank a = signerKeyRank b \<Longrightarrow> signerKeyBytes a = signerKeyBytes b \<Longrightarrow> a = b"
  by (cases a; cases b) auto

instantiation SignerKey :: linorder
begin

definition less_SignerKey :: "SignerKey \<Rightarrow> SignerKey \<Rightarrow> bool" where
  "less_SignerKey a b \<longleftrightarrow> signerKeyRank a < signerKeyRank b \<or>
     signerKeyRank a = signerKeyRank b \<and> signerKeyBytes a < signerKeyBytes b"

definition less_eq_SignerKey :: "SignerKey \<Rightarrow> SignerKey \<Rightarrow> bool" where
  "less_eq_SignerKey a b \<longleftrightarrow> a < b \<or> a = (b :: SignerKey)"

instance
proof
  fix x y z :: SignerKey
  show "x < y \<longleftrightarrow> x \<le> y \<and> \<not> y \<le> x" by (auto simp: less_eq_SignerKey_def less_SignerKey_def)
  show "x \<le> x" by (simp add: less_eq_SignerKey_def)
  show "x \<le> y \<Longrightarrow> y \<le> z \<Longrightarrow> x \<le> z" by (auto simp: less_eq_SignerKey_def less_SignerKey_def)
  show "x \<le> y \<Longrightarrow> y \<le> x \<Longrightarrow> x = y" by (auto simp: less_eq_SignerKey_def less_SignerKey_def)
  show "x \<le> y \<or> y \<le> x"
    using signerKey_eqI [of x y] less_linear [of "signerKeyBytes x" "signerKeyBytes y"]
    by (auto simp: less_eq_SignerKey_def less_SignerKey_def)
qed

end

definition normalizeSigners :: "AccountEntry \<Rightarrow> AccountEntry" where
  "normalizeSigners acc = acc\<lparr>signers := sort_key fst (signers acc)\<rparr>"

subsection \<open>Operations\<close>

record CreateAccountOp =
  caDestination :: AccountID
  startingBalance :: int64

record PaymentOp =
  payDestination :: AccountID
  payAsset :: Asset
  payAmount :: int64

record PathPaymentOp =
  sendAsset :: Asset
  sendMax :: int64
  ppDestination :: AccountID
  destAsset :: Asset
  destAmount :: int64
  ppPath :: "Asset list"

record ManageSellOfferOp =
  msSelling :: Asset
  msBuying :: Asset
  msAmount :: int64
  msPrice :: Price
  msOfferID :: int64

record ManageBuyOfferOp =
  mbSelling :: Asset
  mbBuying :: Asset
  buyAmount :: int64
  mbPrice :: Price
  mbOfferID :: int64

record CreatePassiveSellOfferOp =
  cpSelling :: Asset
  cpBuying :: Asset
  cpAmount :: int64
  cpPrice :: Price

record SetOptionsOp =
  soInflationDest :: "AccountID option"
  clearFlags :: "uint32 option"
  setFlags :: "uint32 option"
  masterWeight :: "uint32 option"
  lowThreshold :: "uint32 option"
  medThreshold :: "uint32 option"
  highThreshold :: "uint32 option"
  soHomeDomain :: "uint8 list option"
  soSigner :: "(SignerKey \<times> uint32) option"

record ChangeTrustOp =
  ctLine :: Asset
  ctLimit :: int64

text \<open>The code of the asset of an AllowTrust operation: the union has no native arm, but its type can be set to it.\<close>

datatype AllowTrustAsset = AllowNative | assetCode4 "uint8 list" | assetCode12 "uint8 list"

record AllowTrustOp =
  trustor :: AccountID
  atAsset :: AllowTrustAsset
  authorize :: bool

record ManageDataOp =
  mdName :: "uint8 list"
  mdValue :: "uint8 list option"

datatype OperationBody =
    CREATE_ACCOUNT CreateAccountOp
  | PAYMENT PaymentOp
  | PATH_PAYMENT PathPaymentOp
  | MANAGE_SELL_OFFER ManageSellOfferOp
  | CREATE_PASSIVE_SELL_OFFER CreatePassiveSellOfferOp
  | SET_OPTIONS SetOptionsOp
  | CHANGE_TRUST ChangeTrustOp
  | ALLOW_TRUST AllowTrustOp
  | ACCOUNT_MERGE AccountID
  | INFLATION
  | MANAGE_DATA ManageDataOp
  | BUMP_SEQUENCE int64
  | MANAGE_BUY_OFFER ManageBuyOfferOp

record Operation =
  opSourceAccount :: "AccountID option"
  opBody :: OperationBody

subsection \<open>Results\<close>

datatype CreateAccountResult =
    CREATE_ACCOUNT_SUCCESS | CREATE_ACCOUNT_MALFORMED | CREATE_ACCOUNT_UNDERFUNDED | CREATE_ACCOUNT_LOW_RESERVE
  | CREATE_ACCOUNT_ALREADY_EXIST

datatype PaymentResult =
    PAYMENT_SUCCESS | PAYMENT_MALFORMED | PAYMENT_UNDERFUNDED | PAYMENT_SRC_NO_TRUST | PAYMENT_SRC_NOT_AUTHORIZED
  | PAYMENT_NO_DESTINATION | PAYMENT_NO_TRUST | PAYMENT_NOT_AUTHORIZED | PAYMENT_LINE_FULL | PAYMENT_NO_ISSUER

datatype PathPaymentResult =
    PATH_PAYMENT_SUCCESS "ClaimOfferAtom list" "AccountID \<times> Asset \<times> int64"
  | PATH_PAYMENT_MALFORMED | PATH_PAYMENT_UNDERFUNDED | PATH_PAYMENT_SRC_NO_TRUST | PATH_PAYMENT_SRC_NOT_AUTHORIZED
  | PATH_PAYMENT_NO_DESTINATION | PATH_PAYMENT_NO_TRUST | PATH_PAYMENT_NOT_AUTHORIZED | PATH_PAYMENT_LINE_FULL
  | PATH_PAYMENT_NO_ISSUER Asset
  | PATH_PAYMENT_TOO_FEW_OFFERS | PATH_PAYMENT_OFFER_CROSS_SELF | PATH_PAYMENT_OVER_SENDMAX

datatype ManageOfferEffect =
    MANAGE_OFFER_CREATED OfferEntry | MANAGE_OFFER_UPDATED OfferEntry | MANAGE_OFFER_DELETED

datatype ManageOfferResult =
    MANAGE_OFFER_SUCCESS "ClaimOfferAtom list" ManageOfferEffect
  | MANAGE_OFFER_MALFORMED | MANAGE_OFFER_SELL_NO_TRUST | MANAGE_OFFER_BUY_NO_TRUST | MANAGE_OFFER_SELL_NOT_AUTHORIZED
  | MANAGE_OFFER_BUY_NOT_AUTHORIZED | MANAGE_OFFER_LINE_FULL | MANAGE_OFFER_UNDERFUNDED | MANAGE_OFFER_CROSS_SELF
  | MANAGE_OFFER_SELL_NO_ISSUER | MANAGE_OFFER_BUY_NO_ISSUER | MANAGE_OFFER_NOT_FOUND | MANAGE_OFFER_LOW_RESERVE

datatype SetOptionsResult =
    SET_OPTIONS_SUCCESS | SET_OPTIONS_LOW_RESERVE | SET_OPTIONS_TOO_MANY_SIGNERS | SET_OPTIONS_BAD_FLAGS
  | SET_OPTIONS_INVALID_INFLATION | SET_OPTIONS_CANT_CHANGE | SET_OPTIONS_UNKNOWN_FLAG
  | SET_OPTIONS_THRESHOLD_OUT_OF_RANGE | SET_OPTIONS_BAD_SIGNER | SET_OPTIONS_INVALID_HOME_DOMAIN

datatype ChangeTrustResult =
    CHANGE_TRUST_SUCCESS | CHANGE_TRUST_MALFORMED | CHANGE_TRUST_NO_ISSUER | CHANGE_TRUST_INVALID_LIMIT
  | CHANGE_TRUST_LOW_RESERVE | CHANGE_TRUST_SELF_NOT_ALLOWED

datatype AllowTrustResult =
    ALLOW_TRUST_SUCCESS | ALLOW_TRUST_MALFORMED | ALLOW_TRUST_NO_TRUST_LINE | ALLOW_TRUST_TRUST_NOT_REQUIRED
  | ALLOW_TRUST_CANT_REVOKE | ALLOW_TRUST_SELF_NOT_ALLOWED

datatype AccountMergeResult =
    ACCOUNT_MERGE_SUCCESS int64 | ACCOUNT_MERGE_MALFORMED | ACCOUNT_MERGE_NO_ACCOUNT | ACCOUNT_MERGE_IMMUTABLE_SET
  | ACCOUNT_MERGE_HAS_SUB_ENTRIES | ACCOUNT_MERGE_SEQNUM_TOO_FAR | ACCOUNT_MERGE_DEST_FULL

datatype ManageDataResult =
    MANAGE_DATA_SUCCESS | MANAGE_DATA_NOT_SUPPORTED_YET | MANAGE_DATA_NAME_NOT_FOUND | MANAGE_DATA_LOW_RESERVE
  | MANAGE_DATA_INVALID_NAME

datatype OperationResultTr =
    createAccountResult CreateAccountResult
  | paymentResult PaymentResult
  | pathPaymentResult PathPaymentResult
  | manageSellOfferResult ManageOfferResult
  | manageBuyOfferResult ManageOfferResult
  | setOptionsResult SetOptionsResult
  | changeTrustResult ChangeTrustResult
  | allowTrustResult AllowTrustResult
  | accountMergeResult AccountMergeResult
  | inflationSuccess "(AccountID \<times> int64) list"
  | manageDataResult ManageDataResult
  | bumpSequenceSuccess
  | bumpSequenceBadSeq

datatype OperationResult =
    opINNER OperationResultTr
  | opBAD_AUTH
  | opNO_ACCOUNT
  | opNOT_SUPPORTED
  | opTOO_MANY_SUBENTRIES
  | opEXCEEDED_WORK_LIMIT

type_synonym op_outcome = "bool \<times> OperationResult \<times> LedgerTxn"

subsection \<open>What the frames share\<close>

definition theAccount :: "LedgerEntry \<Rightarrow> ledger_error + AccountEntry" where
  "theAccount le = (case entryData le of ACCOUNT acc \<Rightarrow> Inr acc | _ \<Rightarrow> Inl WrongUnion)"

definition accountExists :: "LedgerTxn \<Rightarrow> AccountID \<Rightarrow> bool" where
  "accountExists ltx a \<longleftrightarrow> loadEntry ltx (AccountKey a) \<noteq> None"

definition loadSourceAccount :: "LedgerTxn \<Rightarrow> AccountID \<Rightarrow> ledger_error + LedgerKey option" where
  "loadSourceAccount ltx src =
     (if ledgerVersion (ltxHeader ltx) < 8 then Inl EarlierProtocol
      else Inr (if accountExists ltx src then Some (AccountKey src) else None))"

definition createEntry :: "LedgerTxn \<Rightarrow> LedgerEntry \<Rightarrow> ledger_error + LedgerTxn" where
  "createEntry ltx e =
     bindE (throwIf (loadEntry ltx (LedgerEntryKey e) \<noteq> None) ''Key already exists'') (\<lambda>_.
     Inr (storeEntry ltx (LedgerEntryKey e) e))"

text \<open>Reading and changing the source account through its handle.\<close>

definition sourceEntry :: "LedgerTxn \<Rightarrow> AccountID \<Rightarrow> ledger_error + LedgerEntry" where
  "sourceEntry ltx src = bindE (loadSourceAccount ltx src) (currentEntry ltx)"

definition sourceAddNumEntries :: "LedgerTxn \<Rightarrow> AccountID \<Rightarrow> int \<Rightarrow> ledger_error + AddSubentryResult \<times> LedgerTxn" where
  "sourceAddNumEntries ltx src cnt =
     bindE (loadSourceAccount ltx src) (\<lambda>_.
     onEntry ltx (AccountKey src) (\<lambda>e. addNumEntries (ltxHeader ltx) e cnt))"

definition isString32Valid :: "uint8 list \<Rightarrow> bool" where
  "isString32Valid s \<longleftrightarrow> list_all (\<lambda>c. c < 128 \<and> \<not> (c < 32 \<or> c = 127)) s"

definition compareAsset :: "Asset \<Rightarrow> Asset \<Rightarrow> bool" where
  "compareAsset first second =
     (case (first, second) of
        (ASSET_TYPE_NATIVE, ASSET_TYPE_NATIVE) \<Rightarrow> True
      | (ASSET_TYPE_CREDIT_ALPHANUM4 c i, ASSET_TYPE_CREDIT_ALPHANUM4 c' i') \<Rightarrow> i = i' \<and> c = c'
      | (ASSET_TYPE_CREDIT_ALPHANUM12 c i, ASSET_TYPE_CREDIT_ALPHANUM12 c' i') \<Rightarrow> i = i' \<and> c = c'
      | _ \<Rightarrow> False)"

end
