(* ===== verification/Signature_Checker.thy ===== *)
theory Signature_Checker
  imports Operation_Types
begin

text \<open>
  The check of the signatures of a transaction, \<open>src/src/transactions/SignatureChecker.cpp\<close> and
  \<open>SignatureUtils.cpp\<close>. The verification of an Ed25519 signature and the hash function come from libsodium and
  are parameters, the fields of the record \<open>Crypto\<close>. The weight is a signed 32-bit sum, as in the code.
\<close>

record Crypto =
  verifySig :: "256 word \<Rightarrow> uint8 list \<Rightarrow> 256 word \<Rightarrow> bool"
  sha256 :: "uint8 list \<Rightarrow> 256 word"

record DecoratedSignature =
  hint :: uint32
  signature :: "uint8 list"

record SignatureChecker =
  mProtocolVersion :: uint32
  mContentsHash :: "256 word"
  mSignatures :: "DecoratedSignature list"
  mUsedSignatures :: "bool list"
  mUsedOneTimeSignerKeys :: "(AccountID \<times> SignerKey list) list"

definition SignatureChecker_new :: "uint32 \<Rightarrow> 256 word \<Rightarrow> DecoratedSignature list \<Rightarrow> SignatureChecker" where
  "SignatureChecker_new version contentsHash sigs =
     \<lparr>mProtocolVersion = version, mContentsHash = contentsHash, mSignatures = sigs,
      mUsedSignatures = replicate (length sigs) False, mUsedOneTimeSignerKeys = []\<rparr>"

text \<open>The hint of a signature is the last four bytes of the key.\<close>

definition doesHintMatch :: "256 word \<Rightarrow> uint32 \<Rightarrow> bool" where
  "doesHintMatch key h \<longleftrightarrow> ucast key = h"

definition verifyEd25519 :: "Crypto \<Rightarrow> 256 word \<Rightarrow> DecoratedSignature \<Rightarrow> SignerKey \<Rightarrow> bool" where
  "verifyEd25519 C contentsHash sig k \<longleftrightarrow>
     doesHintMatch (signerKeyBytes k) (hint sig) \<and> verifySig C (signerKeyBytes k) (signature sig) contentsHash"

definition verifyHashX :: "Crypto \<Rightarrow> DecoratedSignature \<Rightarrow> SignerKey \<Rightarrow> bool" where
  "verifyHashX C sig k \<longleftrightarrow>
     doesHintMatch (signerKeyBytes k) (hint sig) \<and> signerKeyBytes k = sha256 C (signature sig)"

definition signerWeight :: "uint32 \<Rightarrow> uint32 \<Rightarrow> uint32" where
  "signerWeight version w = (if 9 < version \<and> w > 255 then 255 else w)"

definition signersOfType :: "nat \<Rightarrow> (SignerKey \<times> uint32) list \<Rightarrow> (SignerKey \<times> uint32) list" where
  "signersOfType t ss = filter (\<lambda>s. signerKeyRank (fst s) = t) ss"

definition markOneTimeKey :: "AccountID \<Rightarrow> SignerKey \<Rightarrow> SignatureChecker \<Rightarrow> SignatureChecker" where
  "markOneTimeKey a k sc =
     sc\<lparr>mUsedOneTimeSignerKeys :=
          map_insert a (set_insert k (case map_of (mUsedOneTimeSignerKeys sc) a of None \<Rightarrow> [] | Some ks \<Rightarrow> ks))
            (mUsedOneTimeSignerKeys sc)\<rparr>"

text \<open>The loop over the pre-authorized transactions: whether the weight is reached, the weight and the checker.\<close>

fun preAuthLoop ::
  "AccountID \<Rightarrow> int32 \<Rightarrow> (SignerKey \<times> uint32) list \<Rightarrow> int32 \<Rightarrow> SignatureChecker \<Rightarrow> bool \<times> int32 \<times> SignatureChecker" where
  "preAuthLoop a needed [] totalWeight sc = (False, totalWeight, sc)"
| "preAuthLoop a needed ((k, w) # ss) totalWeight sc =
     (if signerKeyBytes k = mContentsHash sc
      then
        (let sc' = markOneTimeKey a k sc; totalWeight' = totalWeight + signerWeight (mProtocolVersion sc) w
         in if sint needed \<le> sint totalWeight' then (True, totalWeight', sc') else preAuthLoop a needed ss totalWeight' sc')
      else preAuthLoop a needed ss totalWeight sc)"

text \<open>The loop over the signatures: each uses up the first signer that verifies it.\<close>

fun verifyAll ::
  "(DecoratedSignature \<Rightarrow> SignerKey \<Rightarrow> bool) \<Rightarrow> int32 \<Rightarrow> nat \<Rightarrow> DecoratedSignature list \<Rightarrow> (SignerKey \<times> uint32) list \<Rightarrow>
   int32 \<Rightarrow> SignatureChecker \<Rightarrow> bool \<times> int32 \<times> SignatureChecker" where
  "verifyAll verify needed i [] ss totalWeight sc = (False, totalWeight, sc)"
| "verifyAll verify needed i (sig # sigs) ss totalWeight sc =
     (case List.extract (\<lambda>s. verify sig (fst s)) ss of
        None \<Rightarrow> verifyAll verify needed (Suc i) sigs ss totalWeight sc
      | Some (before, s, after) \<Rightarrow>
          (let sc' = sc\<lparr>mUsedSignatures := (mUsedSignatures sc)[i := True]\<rparr>;
               totalWeight' = totalWeight + signerWeight (mProtocolVersion sc) (snd s)
           in if sint needed \<le> sint totalWeight' then (True, totalWeight', sc')
              else verifyAll verify needed (Suc i) sigs (before @ after) totalWeight' sc'))"

definition checkSignature ::
  "Crypto \<Rightarrow> AccountID \<Rightarrow> (SignerKey \<times> uint32) list \<Rightarrow> int32 \<Rightarrow> SignatureChecker \<Rightarrow> bool \<times> SignatureChecker" where
  "checkSignature C a ss needed sc =
     (if mProtocolVersion sc = 7 then (True, sc)
      else
        (let (ok1, total1, sc1) = preAuthLoop a needed (signersOfType 1 ss) 0 sc
         in if ok1 then (True, sc1)
            else
              (let (ok2, total2, sc2) = verifyAll (verifyHashX C) needed 0 (mSignatures sc1) (signersOfType 2 ss) total1 sc1
               in if ok2 then (True, sc2)
                  else
                    (let (ok3, total3, sc3) = verifyAll (verifyEd25519 C (mContentsHash sc)) needed 0 (mSignatures sc2)
                           (signersOfType 0 ss) total2 sc2
                     in (ok3, sc3)))))"

definition checkAllSignaturesUsed :: "SignatureChecker \<Rightarrow> bool" where
  "checkAllSignaturesUsed sc \<longleftrightarrow> mProtocolVersion sc = 7 \<or> list_all id (mUsedSignatures sc)"

end
