(* ===== verification/Account_Operations.thy ===== *)
theory Account_Operations
  imports Operation_Types
begin

text \<open>
  The operations on accounts, trust lines and data: the frames \<open>CreateAccountOpFrame\<close>, \<open>MergeOpFrame\<close>,
  \<open>BumpSequenceOpFrame\<close>, \<open>ManageDataOpFrame\<close>, \<open>SetOptionsOpFrame\<close>, \<open>ChangeTrustOpFrame\<close>,
  \<open>AllowTrustOpFrame\<close> and \<open>InflationOpFrame\<close> of \<open>src/src/transactions\<close>, each with its \<open>doApply\<close> and
  its \<open>doCheckValid\<close>. The validity check returns nothing, or the result it sets before it returns false.
\<close>

subsection \<open>Creating an account\<close>

definition newAccountEntry :: "LedgerHeader \<Rightarrow> CreateAccountOp \<Rightarrow> LedgerEntry" where
  "newAccountEntry h op =
     \<lparr>lastModifiedLedgerSeq = 0,
      entryData = ACCOUNT
        \<lparr>accountID = caDestination op, accBalance = startingBalance op, seqNum = getStartingSequenceNumber h,
         numSubEntries = 0, inflationDest = None, accFlags = 0, homeDomain = [], thresholds = [1, 0, 0, 0],
         signers = [], accExt = None\<rparr>\<rparr>"

definition CreateAccount_doApply :: "AccountID \<Rightarrow> CreateAccountOp \<Rightarrow> LedgerTxn \<Rightarrow> ledger_error + op_outcome" where
  "CreateAccount_doApply src op ltx =
     (let result = (\<lambda>ok r l. Inr (ok, opINNER (createAccountResult r), l)); h = ltxHeader ltx
      in if \<not> accountExists ltx (caDestination op)
         then
           if sint (startingBalance op) < sint (getMinBalance h 0) then result False CREATE_ACCOUNT_LOW_RESERVE ltx
           else
             (let doesAccountExist = (if ledgerVersion h < 8 then accountExists ltx src else True)
              in bindE (sourceEntry ltx src) (\<lambda>sourceAccount.
                 bindE (getAvailableBalance h sourceAccount) (\<lambda>available.
                 if sint available < sint (startingBalance op) then result False CREATE_ACCOUNT_UNDERFUNDED ltx
                 else
                   bindE (throwIf (\<not> doesAccountExist) ''modifying account that does not exist'') (\<lambda>_.
                   bindE (onEntry ltx (AccountKey src) (\<lambda>e. addBalance h e (- startingBalance op))) (\<lambda>(ok, ltx1).
                   bindE (assertE AssertFailure ok) (\<lambda>_.
                   bindE (createEntry ltx1 (newAccountEntry h op)) (\<lambda>ltx2.
                   result True CREATE_ACCOUNT_SUCCESS ltx2)))))))
         else result False CREATE_ACCOUNT_ALREADY_EXIST ltx)"

definition CreateAccount_doCheckValid :: "AccountID \<Rightarrow> CreateAccountOp \<Rightarrow> OperationResult option" where
  "CreateAccount_doCheckValid src op =
     (if sint (startingBalance op) \<le> 0 then Some (opINNER (createAccountResult CREATE_ACCOUNT_MALFORMED))
      else if caDestination op = src then Some (opINNER (createAccountResult CREATE_ACCOUNT_MALFORMED))
      else None)"

subsection \<open>Merging an account\<close>

definition mergeSourceBalance :: "LedgerTxn \<Rightarrow> AccountID \<Rightarrow> ledger_error + int64 option" where
  "mergeSourceBalance ltx src =
     (let v = ledgerVersion (ltxHeader ltx)
      in if 4 < v \<and> v < 8
         then
           (case loadEntry ltx (AccountKey src) of
              None \<Rightarrow> Inr None
            | Some thisAccount \<Rightarrow>
                if 5 < v then bindE (theAccount thisAccount) (\<lambda>acc. Inr (Some (accBalance acc))) else Inr (Some 0))
         else Inr (Some 0))"

definition Merge_doApply :: "AccountID \<Rightarrow> AccountID \<Rightarrow> LedgerTxn \<Rightarrow> ledger_error + op_outcome" where
  "Merge_doApply src dest ltx =
     (let result = (\<lambda>ok r l. Inr (ok, opINNER (accountMergeResult r), l)); h = ltxHeader ltx; v = ledgerVersion h
      in if \<not> accountExists ltx dest then result False ACCOUNT_MERGE_NO_ACCOUNT ltx
         else
           bindE (mergeSourceBalance ltx src) (\<lambda>early.
           (case early of
              None \<Rightarrow> result False ACCOUNT_MERGE_NO_ACCOUNT ltx
            | Some earlyBalance \<Rightarrow>
                bindE (sourceEntry ltx src) (\<lambda>sourceAccountEntry.
                bindE (theAccount sourceAccountEntry) (\<lambda>sourceAccount.
                (let sourceBalance = (if v \<le> 5 \<or> 8 \<le> v then accBalance sourceAccount else earlyBalance)
                 in bindE (isImmutableAuth sourceAccountEntry) (\<lambda>immutable.
                    if immutable then result False ACCOUNT_MERGE_IMMUTABLE_SET ltx
                    else if unat (numSubEntries sourceAccount) \<noteq> length (signers sourceAccount)
                    then result False ACCOUNT_MERGE_HAS_SUB_ENTRIES ltx
                    else if 10 \<le> v \<and> sint (getStartingSequenceNumber h) \<le> sint (seqNum sourceAccount)
                    then result False ACCOUNT_MERGE_SEQNUM_TOO_FAR ltx
                    else
                      bindE (onEntry ltx (AccountKey dest) (\<lambda>e. addBalance h e sourceBalance)) (\<lambda>(ok, ltx1).
                      if \<not> ok then result False ACCOUNT_MERGE_DEST_FULL ltx1
                      else result True (ACCOUNT_MERGE_SUCCESS sourceBalance)
                             (eraseEntry ltx1 (AccountKey src))))))))))"

definition Merge_doCheckValid :: "AccountID \<Rightarrow> AccountID \<Rightarrow> OperationResult option" where
  "Merge_doCheckValid src dest =
     (if src = dest then Some (opINNER (accountMergeResult ACCOUNT_MERGE_MALFORMED)) else None)"

subsection \<open>Bumping the sequence number\<close>

definition BumpSequence_doApply :: "AccountID \<Rightarrow> int64 \<Rightarrow> LedgerTxn \<Rightarrow> ledger_error + op_outcome" where
  "BumpSequence_doApply src bumpTo ltx =
     bindE (sourceEntry ltx src) (\<lambda>e.
     bindE (theAccount e) (\<lambda>acc.
     Inr (True, opINNER bumpSequenceSuccess,
          (if sint (seqNum acc) < sint bumpTo
           then storeEntry ltx (AccountKey src) (e\<lparr>entryData := ACCOUNT (acc\<lparr>seqNum := bumpTo\<rparr>)\<rparr>)
           else ltx))))"

definition BumpSequence_doCheckValid :: "int64 \<Rightarrow> OperationResult option" where
  "BumpSequence_doCheckValid bumpTo = (if sint bumpTo < 0 then Some (opINNER bumpSequenceBadSeq) else None)"

subsection \<open>Managing data\<close>

text \<open>Adding the sub-entry of a new entry: the failures of \<open>addNumEntries\<close> end the operation.\<close>

definition addSubentryOr ::
  "OperationResult \<Rightarrow> LedgerTxn \<Rightarrow> AccountID \<Rightarrow> (LedgerTxn \<Rightarrow> ledger_error + op_outcome) \<Rightarrow> ledger_error + op_outcome" where
  "addSubentryOr lowReserve ltx src cont =
     bindE (sourceAddNumEntries ltx src 1) (\<lambda>(r, ltx1).
     (case r of
        SUBENTRY_SUCCESS \<Rightarrow> cont ltx1
      | LOW_RESERVE \<Rightarrow> Inr (False, lowReserve, ltx1)
      | TOO_MANY_SUBENTRIES \<Rightarrow> Inr (False, opTOO_MANY_SUBENTRIES, ltx1)))"

definition ManageData_doApply :: "AccountID \<Rightarrow> ManageDataOp \<Rightarrow> LedgerTxn \<Rightarrow> ledger_error + op_outcome" where
  "ManageData_doApply src op ltx =
     (let result = (\<lambda>ok r l. Inr (ok, opINNER (manageDataResult r), l)); k = DataKey src (mdName op)
      in bindE (throwIf (ledgerVersion (ltxHeader ltx) = 3) ''MANAGE_DATA not supported on ledger version 3'') (\<lambda>_.
         (case mdValue op of
            Some v \<Rightarrow>
              (case loadEntry ltx k of
                 None \<Rightarrow>
                   addSubentryOr (opINNER (manageDataResult MANAGE_DATA_LOW_RESERVE)) ltx src (\<lambda>ltx1.
                   bindE (createEntry ltx1 \<lparr>lastModifiedLedgerSeq = 0,
                     entryData = DATA \<lparr>dataAccountID = src, dataName = mdName op, dataValue = v\<rparr>\<rparr>) (\<lambda>ltx2.
                   result True MANAGE_DATA_SUCCESS ltx2))
               | Some e \<Rightarrow>
                   (case entryData e of
                      DATA d \<Rightarrow> result True MANAGE_DATA_SUCCESS
                        (storeEntry ltx k (e\<lparr>entryData := DATA (d\<lparr>dataValue := v\<rparr>)\<rparr>))
                    | _ \<Rightarrow> Inl WrongUnion))
          | None \<Rightarrow>
              if loadEntry ltx k = None then result False MANAGE_DATA_NAME_NOT_FOUND ltx
              else
                bindE (sourceAddNumEntries (eraseEntry ltx k) src (- 1)) (\<lambda>(r, ltx1).
                result True MANAGE_DATA_SUCCESS ltx1))))"

definition ManageData_doCheckValid :: "ManageDataOp \<Rightarrow> uint32 \<Rightarrow> OperationResult option" where
  "ManageData_doCheckValid op version =
     (if version < 2 then Some (opINNER (manageDataResult MANAGE_DATA_NOT_SUPPORTED_YET))
      else if mdName op = [] \<or> \<not> isString32Valid (mdName op)
      then Some (opINNER (manageDataResult MANAGE_DATA_INVALID_NAME))
      else None)"

subsection \<open>Inflation\<close>

text \<open>The body of \<open>InflationOpFrame::doApply\<close> returns before its first statement; the result keeps the code
  and the payouts of a fresh result.\<close>

definition Inflation_doApply :: "LedgerTxn \<Rightarrow> ledger_error + op_outcome" where
  "Inflation_doApply ltx = Inr (True, opINNER (inflationSuccess []), ltx)"

end
