(* ===== verification/Trust_Operations.thy ===== *)
theory Trust_Operations
  imports Account_Operations
begin

text \<open>
  The operations that change options, signers and trust lines: \<open>SetOptionsOpFrame\<close>, \<open>ChangeTrustOpFrame\<close> and
  \<open>AllowTrustOpFrame\<close> of \<open>src/src/transactions\<close>.
\<close>

unbundle bit_operations_syntax

subsection \<open>Setting options\<close>

definition AUTH_REQUIRED_FLAG :: uint32 where "AUTH_REQUIRED_FLAG = 1"
definition AUTH_REVOCABLE_FLAG :: uint32 where "AUTH_REVOCABLE_FLAG = 2"
definition AUTH_IMMUTABLE_FLAG :: uint32 where "AUTH_IMMUTABLE_FLAG = 4"

definition allAccountFlags :: uint32 where
  "allAccountFlags = AUTH_REQUIRED_FLAG OR AUTH_REVOCABLE_FLAG OR AUTH_IMMUTABLE_FLAG"

definition allAccountAuthFlags :: uint32 where
  "allAccountAuthFlags = AUTH_REQUIRED_FLAG OR AUTH_REVOCABLE_FLAG OR AUTH_IMMUTABLE_FLAG"

definition UINT8_MAX :: uint32 where "UINT8_MAX = 255"

definition maxSigners :: nat where "maxSigners = 20"

text \<open>The changes of flags, in order: both are refused on an account with immutable authorization.\<close>

definition changeFlags :: "(uint32 \<Rightarrow> uint32 \<Rightarrow> uint32) \<Rightarrow> uint32 option \<Rightarrow> AccountEntry \<Rightarrow> AccountEntry option" where
  "changeFlags f flags acc =
     (case flags of
        None \<Rightarrow> Some acc
      | Some m \<Rightarrow>
          if m AND allAccountAuthFlags \<noteq> 0 \<and> accFlags acc AND AUTH_IMMUTABLE_FLAG \<noteq> 0 then None
          else Some (acc\<lparr>accFlags := f (accFlags acc) m\<rparr>))"

definition setThreshold :: "nat \<Rightarrow> uint32 option \<Rightarrow> AccountEntry \<Rightarrow> AccountEntry" where
  "setThreshold i value acc =
     (case value of None \<Rightarrow> acc | Some v \<Rightarrow> acc\<lparr>thresholds := (thresholds acc)[i := ucast (v AND UINT8_MAX)]\<rparr>)"

definition setDomainAndThresholds :: "SetOptionsOp \<Rightarrow> AccountEntry \<Rightarrow> AccountEntry" where
  "setDomainAndThresholds op acc =
     setThreshold 3 (highThreshold op)
      (setThreshold 2 (medThreshold op)
       (setThreshold 1 (lowThreshold op)
        (setThreshold 0 (masterWeight op)
         (case soHomeDomain op of None \<Rightarrow> acc | Some d \<Rightarrow> acc\<lparr>homeDomain := d\<rparr>))))"

text \<open>Deleting a signer erases every occurrence of its key and gives back a sub-entry for each.\<close>

fun deleteSigners :: "SignerKey \<Rightarrow> (SignerKey \<times> uint32) list \<Rightarrow> (SignerKey \<times> uint32) list \<times> nat" where
  "deleteSigners k [] = ([], 0)"
| "deleteSigners k (s # ss) =
     (let (rest, n) = deleteSigners k ss in if fst s = k then (rest, Suc n) else (s # rest, n))"

fun releaseSubentries :: "nat \<Rightarrow> LedgerHeader \<Rightarrow> LedgerEntry \<Rightarrow> ledger_error + LedgerEntry" where
  "releaseSubentries 0 h e = Inr e"
| "releaseSubentries (Suc n) h e = bindE (addNumEntries h e (- 1)) (\<lambda>(r, e'). releaseSubentries n h e')"

definition onAccountOf :: "LedgerEntry \<Rightarrow> (AccountEntry \<Rightarrow> AccountEntry) \<Rightarrow> ledger_error + LedgerEntry" where
  "onAccountOf e f = bindE (theAccount e) (\<lambda>acc. Inr (e\<lparr>entryData := ACCOUNT (f acc)\<rparr>))"

text \<open>The signer part on the entry of the source account: the result it fails with, and the entry.\<close>

definition changeSigner ::
  "LedgerHeader \<Rightarrow> SignerKey \<times> uint32 \<Rightarrow> LedgerEntry \<Rightarrow> ledger_error + OperationResult option \<times> LedgerEntry" where
  "changeSigner h signer e =
     bindE (theAccount e) (\<lambda>acc.
     (if snd signer \<noteq> 0
      then
        if fst signer \<in> fst ` set (signers acc)
        then bindE (onAccountOf e (\<lambda>a. normalizeSigners
               (a\<lparr>signers := map (\<lambda>s. if fst s = fst signer then (fst s, snd signer) else s) (signers a)\<rparr>)))
               (\<lambda>e'. Inr (None, e'))
        else if length (signers acc) = maxSigners
        then Inr (Some (opINNER (setOptionsResult SET_OPTIONS_TOO_MANY_SIGNERS)), e)
        else
          bindE (addNumEntries h e 1) (\<lambda>(r, e1).
          (case r of
             SUBENTRY_SUCCESS \<Rightarrow>
               bindE (onAccountOf e1 (\<lambda>a. normalizeSigners (a\<lparr>signers := signers a @ [signer]\<rparr>))) (\<lambda>e2. Inr (None, e2))
           | LOW_RESERVE \<Rightarrow> Inr (Some (opINNER (setOptionsResult SET_OPTIONS_LOW_RESERVE)), e1)
           | TOO_MANY_SUBENTRIES \<Rightarrow> Inr (Some opTOO_MANY_SUBENTRIES, e1)))
      else
        (let (rest, n) = deleteSigners (fst signer) (signers acc)
         in bindE (onAccountOf e (\<lambda>a. a\<lparr>signers := rest\<rparr>)) (\<lambda>e1.
            bindE (releaseSubentries n h e1) (\<lambda>e2.
            bindE (onAccountOf e2 normalizeSigners) (\<lambda>e3. Inr (None, e3)))))))"

definition SetOptions_doApply :: "AccountID \<Rightarrow> SetOptionsOp \<Rightarrow> LedgerTxn \<Rightarrow> ledger_error + op_outcome" where
  "SetOptions_doApply src op ltx =
     (let failure = (\<lambda>r l. Inr (False, opINNER (setOptionsResult r), l)); k = AccountKey src; h = ltxHeader ltx
      in bindE (sourceEntry ltx src) (\<lambda>e0.
         bindE (theAccount e0) (\<lambda>acc0.
         (let put = (\<lambda>a. storeEntry ltx k (e0\<lparr>entryData := ACCOUNT a\<rparr>))
          in
         if (case soInflationDest op of None \<Rightarrow> False | Some d \<Rightarrow> d \<noteq> src \<and> \<not> accountExists ltx d)
         then failure SET_OPTIONS_INVALID_INFLATION ltx
         else
           (let acc1 = (case soInflationDest op of None \<Rightarrow> acc0 | Some d \<Rightarrow> acc0\<lparr>inflationDest := Some d\<rparr>)
            in (case changeFlags (\<lambda>old m. old AND NOT m) (clearFlags op) acc1 of
                  None \<Rightarrow> failure SET_OPTIONS_CANT_CHANGE (put acc1)
                | Some acc2 \<Rightarrow>
                    (case changeFlags (\<lambda>old m. old OR m) (setFlags op) acc2 of
                       None \<Rightarrow> failure SET_OPTIONS_CANT_CHANGE (put acc2)
                     | Some acc3 \<Rightarrow>
                         (let ltx1 = put (setDomainAndThresholds op acc3)
                          in (case soSigner op of
                                None \<Rightarrow> Inr (True, opINNER (setOptionsResult SET_OPTIONS_SUCCESS), ltx1)
                              | Some s \<Rightarrow>
                                  bindE (onEntry ltx1 k (changeSigner h s)) (\<lambda>(r, ltx2).
                                  (case r of
                                     None \<Rightarrow> Inr (True, opINNER (setOptionsResult SET_OPTIONS_SUCCESS), ltx2)
                                   | Some failed \<Rightarrow> Inr (False, failed, ltx2)))))))))))) "

definition outOfRange :: "uint32 option \<Rightarrow> bool" where
  "outOfRange value \<longleftrightarrow> (case value of None \<Rightarrow> False | Some v \<Rightarrow> v > UINT8_MAX)"

definition unknownFlags :: "uint32 option \<Rightarrow> bool" where
  "unknownFlags flags \<longleftrightarrow> (case flags of None \<Rightarrow> False | Some m \<Rightarrow> m AND NOT allAccountFlags \<noteq> 0)"

definition SetOptions_doCheckValid :: "AccountID \<Rightarrow> SetOptionsOp \<Rightarrow> uint32 \<Rightarrow> OperationResult option" where
  "SetOptions_doCheckValid src op version =
     (let failure = (\<lambda>r. Some (opINNER (setOptionsResult r)))
      in if unknownFlags (setFlags op) then failure SET_OPTIONS_UNKNOWN_FLAG
         else if unknownFlags (clearFlags op) then failure SET_OPTIONS_UNKNOWN_FLAG
         else if (case (setFlags op, clearFlags op) of (Some s, Some c) \<Rightarrow> s AND c \<noteq> 0 | _ \<Rightarrow> False)
         then failure SET_OPTIONS_BAD_FLAGS
         else if outOfRange (masterWeight op) \<or> outOfRange (lowThreshold op) \<or> outOfRange (medThreshold op) \<or>
                 outOfRange (highThreshold op)
         then failure SET_OPTIONS_THRESHOLD_OUT_OF_RANGE
         else if (case soSigner op of
                    None \<Rightarrow> False
                  | Some (k, w) \<Rightarrow>
                      k = SIGNER_KEY_TYPE_ED25519 src \<or>
                      (\<not> (case k of SIGNER_KEY_TYPE_ED25519 _ \<Rightarrow> True | _ \<Rightarrow> False) \<and> version < 3) \<or>
                      (w > UINT8_MAX \<and> version > 9))
         then failure SET_OPTIONS_BAD_SIGNER
         else if (case soHomeDomain op of None \<Rightarrow> False | Some d \<Rightarrow> \<not> isString32Valid d)
         then failure SET_OPTIONS_INVALID_HOME_DOMAIN
         else None)"

subsection \<open>Changing a trust line\<close>

definition newTrustLine :: "AccountID \<Rightarrow> ChangeTrustOp \<Rightarrow> bool \<Rightarrow> LedgerEntry" where
  "newTrustLine src op authRequired =
     \<lparr>lastModifiedLedgerSeq = 0,
      entryData = TRUSTLINE
        \<lparr>tlAccountID = src, tlAsset = ctLine op, tlBalance = 0, tlLimit = ctLimit op,
         tlFlags = (if authRequired then 0 else 1), tlExt = None\<rparr>\<rparr>"

definition changeExistingTrust :: "AccountID \<Rightarrow> ChangeTrustOp \<Rightarrow> AccountID \<Rightarrow> LedgerTxn \<Rightarrow> ledger_error + op_outcome" where
  "changeExistingTrust src op issuerID ltx =
     (let result = (\<lambda>ok r l. Inr (ok, opINNER (changeTrustResult r), l)); k = TrustLineKey src (ctLine op)
      in bindE (currentEntry ltx (Some k)) (\<lambda>e.
         bindE (getMinimumLimit (ltxHeader ltx) e) (\<lambda>minimum.
         if sint (ctLimit op) < sint minimum then result False CHANGE_TRUST_INVALID_LIMIT ltx
         else if ctLimit op = 0
         then bindE (sourceAddNumEntries (eraseEntry ltx k) src (- 1)) (\<lambda>(r, ltx1).
              result True CHANGE_TRUST_SUCCESS ltx1)
         else if \<not> accountExists ltx issuerID then result False CHANGE_TRUST_NO_ISSUER ltx
         else
           (case entryData e of
              TRUSTLINE line \<Rightarrow>
                result True CHANGE_TRUST_SUCCESS
                  (storeEntry ltx k (e\<lparr>entryData := TRUSTLINE (line\<lparr>tlLimit := ctLimit op\<rparr>)\<rparr>))
            | _ \<Rightarrow> Inl WrongUnion))))"

definition createTrust :: "AccountID \<Rightarrow> ChangeTrustOp \<Rightarrow> AccountID \<Rightarrow> LedgerTxn \<Rightarrow> ledger_error + op_outcome" where
  "createTrust src op issuerID ltx =
     (let result = (\<lambda>ok r l. Inr (ok, opINNER (changeTrustResult r), l))
      in if ctLimit op = 0 then result False CHANGE_TRUST_INVALID_LIMIT ltx
         else
           (case loadEntry ltx (AccountKey issuerID) of
              None \<Rightarrow> result False CHANGE_TRUST_NO_ISSUER ltx
            | Some issuer \<Rightarrow>
                addSubentryOr (opINNER (changeTrustResult CHANGE_TRUST_LOW_RESERVE)) ltx src (\<lambda>ltx1.
                bindE (isAuthRequired issuer) (\<lambda>required.
                bindE (createEntry ltx1 (newTrustLine src op required)) (\<lambda>ltx2.
                result True CHANGE_TRUST_SUCCESS ltx2)))))"

definition ChangeTrust_doApply :: "AccountID \<Rightarrow> ChangeTrustOp \<Rightarrow> LedgerTxn \<Rightarrow> ledger_error + op_outcome" where
  "ChangeTrust_doApply src op ltx =
     (let result = (\<lambda>ok r l. Inr (ok, opINNER (changeTrustResult r), l))
      in bindE (getIssuer (ctLine op)) (\<lambda>issuerID.
         if 2 < ledgerVersion (ltxHeader ltx) \<and> issuerID = src then result False CHANGE_TRUST_SELF_NOT_ALLOWED ltx
         else if ledgerVersion (ltxHeader ltx) \<le> 2 \<and> issuerID = src
         then
           if sint (ctLimit op) < sint INT64_MAX then result False CHANGE_TRUST_INVALID_LIMIT ltx
           else if \<not> accountExists ltx issuerID then result False CHANGE_TRUST_NO_ISSUER ltx
           else result True CHANGE_TRUST_SUCCESS ltx
         else if loadEntry ltx (TrustLineKey src (ctLine op)) \<noteq> None then changeExistingTrust src op issuerID ltx
         else createTrust src op issuerID ltx))"

definition ChangeTrust_doCheckValid :: "ChangeTrustOp \<Rightarrow> uint32 \<Rightarrow> OperationResult option" where
  "ChangeTrust_doCheckValid op version =
     (if sint (ctLimit op) < 0 \<or> \<not> isAssetValid (ctLine op) \<or> version > 9 \<and> ctLine op = ASSET_TYPE_NATIVE
      then Some (opINNER (changeTrustResult CHANGE_TRUST_MALFORMED))
      else None)"

subsection \<open>Allowing trust\<close>

definition allowTrustAsset :: "AccountID \<Rightarrow> AllowTrustOp \<Rightarrow> Asset" where
  "allowTrustAsset src op =
     (case atAsset op of
        AllowNative \<Rightarrow> ASSET_TYPE_NATIVE
      | assetCode4 c \<Rightarrow> ASSET_TYPE_CREDIT_ALPHANUM4 c src
      | assetCode12 c \<Rightarrow> ASSET_TYPE_CREDIT_ALPHANUM12 c src)"

definition loadOffersByAccountAndAsset :: "LedgerTxn \<Rightarrow> AccountID \<Rightarrow> Asset \<Rightarrow> (LedgerKey \<times> LedgerEntry) list" where
  "loadOffersByAccountAndAsset ltx acct asset =
     filter (\<lambda>(k, e). case entryData e of
               OFFER oe \<Rightarrow> sellerID oe = acct \<and> (selling oe = asset \<or> buying oe = asset)
             | _ \<Rightarrow> False) (ltxEntries ltx)"

text \<open>Revoking deletes the offers of the trustor in the asset, each with its liabilities and sub-entry.\<close>

fun revokeOffers :: "AccountID \<Rightarrow> Asset \<Rightarrow> (LedgerKey \<times> LedgerEntry) list \<Rightarrow> LedgerTxn \<Rightarrow> ledger_error + LedgerTxn" where
  "revokeOffers acct asset [] ltx = Inr ltx"
| "revokeOffers acct asset ((k, e) # offers) ltx =
     bindE (theOffer e) (\<lambda>oe.
     bindE (throwIf (sellerID oe \<noteq> acct) ''Offer not owned by expected account'') (\<lambda>_.
     bindE (throwIf (\<not> (buying oe = asset \<or> selling oe = asset)) ''Offer not buying or selling expected asset'') (\<lambda>_.
     bindE (releaseLiabilities ltx e) (\<lambda>ltx1.
     bindE (onEntry ltx1 (AccountKey acct) (\<lambda>a. addNumEntries (ltxHeader ltx) a (- 1))) (\<lambda>(r, ltx2).
     revokeOffers acct asset offers (eraseEntry ltx2 k))))))"

definition AllowTrust_doApply :: "AccountID \<Rightarrow> AllowTrustOp \<Rightarrow> LedgerTxn \<Rightarrow> ledger_error + op_outcome" where
  "AllowTrust_doApply src op ltx =
     (let result = (\<lambda>ok r l. Inr (ok, opINNER (allowTrustResult r), l)); ci = allowTrustAsset src op;
          k = TrustLineKey (trustor op) ci; v = ledgerVersion (ltxHeader ltx)
      in if 2 < v \<and> trustor op = src then result False ALLOW_TRUST_SELF_NOT_ALLOWED ltx
         else
           bindE (sourceEntry ltx src) (\<lambda>e.
           bindE (theAccount e) (\<lambda>acc.
           if accFlags acc AND AUTH_REQUIRED_FLAG = 0 then result False ALLOW_TRUST_TRUST_NOT_REQUIRED ltx
           else if accFlags acc AND AUTH_REVOCABLE_FLAG = 0 \<and> \<not> authorize op
           then result False ALLOW_TRUST_CANT_REVOKE ltx
           else if trustor op = src then result True ALLOW_TRUST_SUCCESS ltx
           else
             (case loadEntry ltx k of
                None \<Rightarrow> result False ALLOW_TRUST_NO_TRUST_LINE ltx
              | Some trust \<Rightarrow>
                  bindE (isAuthorized trust) (\<lambda>authorized.
                  bindE (if 10 \<le> v \<and> authorized \<and> \<not> authorize op
                         then revokeOffers (trustor op) ci (loadOffersByAccountAndAsset ltx (trustor op) ci) ltx
                         else Inr ltx) (\<lambda>ltx1.
                  bindE (onEntry ltx1 k (\<lambda>t. bindE (setAuthorized t (authorize op)) (\<lambda>t'. Inr ((), t')))) (\<lambda>(_, ltx2).
                  result True ALLOW_TRUST_SUCCESS ltx2)))))))"

definition AllowTrust_doCheckValid :: "AccountID \<Rightarrow> AllowTrustOp \<Rightarrow> OperationResult option" where
  "AllowTrust_doCheckValid src op =
     (if atAsset op = AllowNative \<or> \<not> isAssetValid (allowTrustAsset src op)
      then Some (opINNER (allowTrustResult ALLOW_TRUST_MALFORMED))
      else None)"

end
