(* ===== verification/Payment_Operations.thy ===== *)
theory Payment_Operations
  imports Operation_Types
begin

text \<open>
  The operations that move assets: \<open>PathPaymentOpFrame\<close>, \<open>PaymentOpFrame\<close> and the frames of offers,
  \<open>ManageOfferOpFrameBase\<close> with its subclasses \<open>ManageSellOfferOpFrame\<close>, \<open>ManageBuyOfferOpFrame\<close> and
  \<open>CreatePassiveSellOfferOpFrame\<close> of \<open>src/src/transactions\<close>. The virtual functions of the base class are
  functions of the frame that decide by its kind.
\<close>

definition MAX_OFFERS_TO_CROSS :: int64 where "MAX_OFFERS_TO_CROSS = 1000"

definition FIRST_PROTOCOL_SUPPORTING_OPERATION_LIMITS :: uint32 where
  "FIRST_PROTOCOL_SUPPORTING_OPERATION_LIMITS = 11"

subsection \<open>Path payment\<close>

abbreviation ppFail :: "PathPaymentResult \<Rightarrow> LedgerTxn \<Rightarrow> ledger_error + op_outcome" where
  "ppFail r ltx \<equiv> Inr (False, opINNER (pathPaymentResult r), ltx)"

definition bypassIssuerCheck :: "PathPaymentOp \<Rightarrow> bool" where
  "bypassIssuerCheck op \<longleftrightarrow>
     destAsset op \<noteq> ASSET_TYPE_NATIVE \<and> ppPath op = [] \<and> sendAsset op = destAsset op \<and>
     getIssuer (destAsset op) = Inr (ppDestination op)"

text \<open>Crediting the destination with the amount it is to receive.\<close>

definition payDestinationAsset :: "PathPaymentOp \<Rightarrow> LedgerTxn \<Rightarrow> ledger_error + PathPaymentResult option \<times> LedgerTxn" where
  "payDestinationAsset op ltx =
     (let curB = destAsset op; amt = destAmount op; h = ltxHeader ltx
      in if curB = ASSET_TYPE_NATIVE
         then
           bindE (onEntry ltx (AccountKey (ppDestination op)) (\<lambda>e. addBalance h e amt)) (\<lambda>(ok, ltx1).
           Inr (if ok then None
                else Some (if 11 \<le> ledgerVersion h then PATH_PAYMENT_LINE_FULL else PATH_PAYMENT_MALFORMED), ltx1))
         else
           bindE (getIssuer curB) (\<lambda>issuer.
           if \<not> bypassIssuerCheck op \<and> \<not> accountExists ltx issuer then Inr (Some (PATH_PAYMENT_NO_ISSUER curB), ltx)
           else
             bindE (loadTrustLine ltx (ppDestination op) curB) (\<lambda>destLine.
             if destLine = InactiveLine then Inr (Some PATH_PAYMENT_NO_TRUST, ltx)
             else
               bindE (lineIsAuthorized ltx destLine) (\<lambda>authorized.
               if \<not> authorized then Inr (Some PATH_PAYMENT_NOT_AUTHORIZED, ltx)
               else
                 bindE (lineAddBalance ltx destLine amt) (\<lambda>(ok, ltx1).
                 Inr (if ok then None else Some PATH_PAYMENT_LINE_FULL, ltx1))))))"

definition pathFilter :: "AccountID \<Rightarrow> offer_filter" where
  "pathFilter src oe = Inr (if sellerID oe = src then (eStop, True) else (eKeep, False))"

text \<open>The conversions along the path, from the destination back to the asset sent: the failure, or the asset and
  amount the source has to send and the offers claimed.\<close>

fun pathLoop ::
  "AccountID \<Rightarrow> Asset list \<Rightarrow> Asset \<Rightarrow> int64 \<Rightarrow> ClaimOfferAtom list \<Rightarrow> LedgerTxn \<Rightarrow>
   ledger_error + (OperationResult + Asset \<times> int64 \<times> ClaimOfferAtom list) \<times> LedgerTxn" where
  "pathLoop src [] curB curBReceived offers ltx = Inr (Inr (curB, curBReceived, offers), ltx)"
| "pathLoop src (curA # path) curB curBReceived offers ltx =
     (if curA = curB then pathLoop src path curB curBReceived offers ltx
      else
        bindE (if curA = ASSET_TYPE_NATIVE then Inr True
               else bindE (getIssuer curA) (\<lambda>issuer. Inr (accountExists ltx issuer))) (\<lambda>issuerOk.
        if \<not> issuerOk then Inr (Inl (opINNER (pathPaymentResult (PATH_PAYMENT_NO_ISSUER curA))), ltx)
        else
          (let maxOffersToCross =
             (if FIRST_PROTOCOL_SUPPORTING_OPERATION_LIMITS \<le> ledgerVersion (ltxHeader ltx)
              then MAX_OFFERS_TO_CROSS - of_nat (length offers) else INT64_MAX)
           in bindE (convertWithOffers ltx curA INT64_MAX curB curBReceived True (Some (pathFilter src)) maxOffersToCross)
                (\<lambda>(cv, ltx1).
              bindE (assertE AssertFailure (0 \<le> sint (sheepSent cv))) (\<lambda>_.
              (case convResult cv of
                 eFilterStop \<Rightarrow> Inr (Inl (opINNER (pathPaymentResult PATH_PAYMENT_OFFER_CROSS_SELF)), ltx1)
               | ePartial \<Rightarrow> Inr (Inl (opINNER (pathPaymentResult PATH_PAYMENT_TOO_FEW_OFFERS)), ltx1)
               | eCrossedTooMany \<Rightarrow> Inr (Inl opEXCEEDED_WORK_LIMIT, ltx1)
               | eOK \<Rightarrow>
                   if curBReceived = wheatGot cv
                   then pathLoop src path curA (sheepSent cv) (convTrail cv @ offers) ltx1
                   else Inr (Inl (opINNER (pathPaymentResult PATH_PAYMENT_TOO_FEW_OFFERS)), ltx1)))))))"

text \<open>Debiting the source with what has to be sent.\<close>

definition paySourceAsset ::
  "AccountID \<Rightarrow> PathPaymentOp \<Rightarrow> Asset \<Rightarrow> int64 \<Rightarrow> LedgerTxn \<Rightarrow> ledger_error + PathPaymentResult option \<times> LedgerTxn" where
  "paySourceAsset src op curB curBSent ltx =
     (let h = ltxHeader ltx
      in if curB = ASSET_TYPE_NATIVE
         then
           if \<not> 7 < ledgerVersion h then Inl EarlierProtocol
           else if \<not> accountExists ltx src then Inr (Some PATH_PAYMENT_MALFORMED, ltx)
           else
             bindE (currentEntry ltx (Some (AccountKey src))) (\<lambda>e.
             bindE (getAvailableBalance h e) (\<lambda>available.
             if sint available < sint curBSent then Inr (Some PATH_PAYMENT_UNDERFUNDED, ltx)
             else
               bindE (onEntry ltx (AccountKey src) (\<lambda>e. addBalance h e (- curBSent))) (\<lambda>(ok, ltx1).
               bindE (assertE AssertFailure ok) (\<lambda>_. Inr (None, ltx1)))))
         else
           bindE (getIssuer curB) (\<lambda>issuer.
           if \<not> bypassIssuerCheck op \<and> \<not> accountExists ltx issuer then Inr (Some (PATH_PAYMENT_NO_ISSUER curB), ltx)
           else
             bindE (loadTrustLine ltx src curB) (\<lambda>sourceLine.
             if sourceLine = InactiveLine then Inr (Some PATH_PAYMENT_SRC_NO_TRUST, ltx)
             else
               bindE (lineIsAuthorized ltx sourceLine) (\<lambda>authorized.
               if \<not> authorized then Inr (Some PATH_PAYMENT_SRC_NOT_AUTHORIZED, ltx)
               else
                 bindE (lineAddBalance ltx sourceLine (- curBSent)) (\<lambda>(ok, ltx1).
                 Inr (if ok then None else Some PATH_PAYMENT_UNDERFUNDED, ltx1))))))"

definition PathPayment_doApply :: "AccountID \<Rightarrow> PathPaymentOp \<Rightarrow> LedgerTxn \<Rightarrow> ledger_error + op_outcome" where
  "PathPayment_doApply src op ltx =
     (if \<not> bypassIssuerCheck op \<and> \<not> accountExists ltx (ppDestination op) then ppFail PATH_PAYMENT_NO_DESTINATION ltx
      else
        bindE (payDestinationAsset op ltx) (\<lambda>(r, ltx1).
        (case r of
           Some failed \<Rightarrow> ppFail failed ltx1
         | None \<Rightarrow>
             bindE (pathLoop src (rev (sendAsset op # ppPath op)) (destAsset op) (destAmount op) [] ltx1) (\<lambda>(p, ltx2).
             (case p of
                Inl failed \<Rightarrow> Inr (False, failed, ltx2)
              | Inr (curB, curBSent, offers) \<Rightarrow>
                  if sint (sendMax op) < sint curBSent then ppFail PATH_PAYMENT_OVER_SENDMAX ltx2
                  else
                    bindE (paySourceAsset src op curB curBSent ltx2) (\<lambda>(r', ltx3).
                    (case r' of
                       Some failed \<Rightarrow> ppFail failed ltx3
                     | None \<Rightarrow>
                         Inr (True, opINNER (pathPaymentResult (PATH_PAYMENT_SUCCESS offers
                                (ppDestination op, destAsset op, destAmount op))), ltx3))))))))"

definition PathPayment_doCheckValid :: "PathPaymentOp \<Rightarrow> OperationResult option" where
  "PathPayment_doCheckValid op =
     (if sint (destAmount op) \<le> 0 \<or> sint (sendMax op) \<le> 0 \<or> \<not> isAssetValid (sendAsset op) \<or>
         \<not> isAssetValid (destAsset op) \<or> \<not> list_all isAssetValid (ppPath op)
      then Some (opINNER (pathPaymentResult PATH_PAYMENT_MALFORMED))
      else None)"

subsection \<open>Payment\<close>

definition paymentAsPath :: "PaymentOp \<Rightarrow> PathPaymentOp" where
  "paymentAsPath op =
     \<lparr>sendAsset = payAsset op, sendMax = payAmount op, ppDestination = payDestination op, destAsset = payAsset op,
      destAmount = payAmount op, ppPath = []\<rparr>"

definition paymentCode :: "OperationResult \<Rightarrow> ledger_error + PaymentResult" where
  "paymentCode r =
     (case r of
        opINNER (pathPaymentResult p) \<Rightarrow>
          (case p of
             PATH_PAYMENT_UNDERFUNDED \<Rightarrow> Inr PAYMENT_UNDERFUNDED
           | PATH_PAYMENT_SRC_NOT_AUTHORIZED \<Rightarrow> Inr PAYMENT_SRC_NOT_AUTHORIZED
           | PATH_PAYMENT_SRC_NO_TRUST \<Rightarrow> Inr PAYMENT_SRC_NO_TRUST
           | PATH_PAYMENT_NO_DESTINATION \<Rightarrow> Inr PAYMENT_NO_DESTINATION
           | PATH_PAYMENT_NO_TRUST \<Rightarrow> Inr PAYMENT_NO_TRUST
           | PATH_PAYMENT_NOT_AUTHORIZED \<Rightarrow> Inr PAYMENT_NOT_AUTHORIZED
           | PATH_PAYMENT_LINE_FULL \<Rightarrow> Inr PAYMENT_LINE_FULL
           | PATH_PAYMENT_NO_ISSUER a \<Rightarrow> Inr PAYMENT_NO_ISSUER
           | _ \<Rightarrow> Inl (RuntimeError ''Unexpected error code from pathPayment''))
      | _ \<Rightarrow> Inl (RuntimeError ''Unexpected error code from pathPayment''))"

definition Payment_doApply :: "AccountID \<Rightarrow> PaymentOp \<Rightarrow> LedgerTxn \<Rightarrow> ledger_error + op_outcome" where
  "Payment_doApply src op ltx =
     (let instantSuccess =
        (if 2 < ledgerVersion (ltxHeader ltx) then payDestination op = src \<and> payAsset op = ASSET_TYPE_NATIVE
         else payDestination op = src)
      in if instantSuccess then Inr (True, opINNER (paymentResult PAYMENT_SUCCESS), ltx)
         else
           bindE (case PathPayment_doCheckValid (paymentAsPath op) of
                    Some r \<Rightarrow> Inr (False, r, ltx)
                  | None \<Rightarrow> PathPayment_doApply src (paymentAsPath op) ltx) (\<lambda>(ok, r, ltx1).
           if ok then Inr (True, opINNER (paymentResult PAYMENT_SUCCESS), ltx1)
           else bindE (paymentCode r) (\<lambda>code. Inr (False, opINNER (paymentResult code), ltx1))))"

definition Payment_doCheckValid :: "PaymentOp \<Rightarrow> OperationResult option" where
  "Payment_doCheckValid op =
     (if sint (payAmount op) \<le> 0 \<or> \<not> isAssetValid (payAsset op)
      then Some (opINNER (paymentResult PAYMENT_MALFORMED))
      else None)"

end
