(* ===== verification/Offer_Operations.thy ===== *)
theory Offer_Operations
  imports Payment_Operations
begin

text \<open>
  The operations that manage offers: \<open>ManageOfferOpFrameBase\<close> with its subclasses \<open>ManageSellOfferOpFrame\<close>,
  \<open>ManageBuyOfferOpFrame\<close> and \<open>CreatePassiveSellOfferOpFrame\<close> of \<open>src/src/transactions\<close>. The virtual
  functions of the base class are functions of the frame that decide by its kind. The inner ledger transaction of
  \<open>doApply\<close> is committed on success only, so a failure returns the ledger it was given.
\<close>

datatype ManageKind = SellKind int64 Price | BuyKind int64 Price

record ManageOfferFrame =
  mSheep :: Asset
  mWheat :: Asset
  mOfferID :: int64
  mPrice :: Price
  mSetPassiveOnCreate :: bool
  mKind :: ManageKind

definition getInversePrice :: "Price \<Rightarrow> Price" where
  "getInversePrice p = \<lparr>priceN = priceD p, priceD = priceN p\<rparr>"

definition sellFrame :: "bool \<Rightarrow> ManageSellOfferOp \<Rightarrow> ManageOfferFrame" where
  "sellFrame passive op =
     \<lparr>mSheep = msSelling op, mWheat = msBuying op, mOfferID = msOfferID op, mPrice = msPrice op,
      mSetPassiveOnCreate = passive, mKind = SellKind (msAmount op) (msPrice op)\<rparr>"

definition buyFrame :: "ManageBuyOfferOp \<Rightarrow> ManageOfferFrame" where
  "buyFrame op =
     \<lparr>mSheep = mbSelling op, mWheat = mbBuying op, mOfferID = mbOfferID op, mPrice = getInversePrice (mbPrice op),
      mSetPassiveOnCreate = False, mKind = BuyKind (buyAmount op) (mbPrice op)\<rparr>"

definition passiveAsSell :: "CreatePassiveSellOfferOp \<Rightarrow> ManageSellOfferOp" where
  "passiveAsSell op =
     \<lparr>msSelling = cpSelling op, msBuying = cpBuying op, msAmount = cpAmount op, msPrice = cpPrice op, msOfferID = 0\<rparr>"

definition moResult :: "ManageOfferFrame \<Rightarrow> ManageOfferResult \<Rightarrow> OperationResult" where
  "moResult f r =
     opINNER (case mKind f of SellKind _ _ \<Rightarrow> manageSellOfferResult r | BuyKind _ _ \<Rightarrow> manageBuyOfferResult r)"

subsection \<open>The virtual functions\<close>

definition isAmountValid :: "ManageOfferFrame \<Rightarrow> bool" where
  "isAmountValid f = (case mKind f of SellKind a _ \<Rightarrow> 0 \<le> sint a | BuyKind a _ \<Rightarrow> 0 \<le> sint a)"

definition isDeleteOffer :: "ManageOfferFrame \<Rightarrow> bool" where
  "isDeleteOffer f = (case mKind f of SellKind a _ \<Rightarrow> a = 0 | BuyKind a _ \<Rightarrow> a = 0)"

definition frameLiabilities :: "ManageOfferFrame \<Rightarrow> ledger_error + ExchangeResultV10" where
  "frameLiabilities f =
     (case mKind f of
        SellKind a p \<Rightarrow> exchangeV10WithoutPriceErrorThresholds p a INT64_MAX INT64_MAX INT64_MAX False
      | BuyKind a p \<Rightarrow>
          exchangeV10WithoutPriceErrorThresholds (getInversePrice p) INT64_MAX INT64_MAX INT64_MAX a False)"

definition applyOperationSpecificLimits ::
  "ManageOfferFrame \<Rightarrow> int64 \<Rightarrow> int64 \<Rightarrow> int64 \<Rightarrow> int64 \<Rightarrow> int64 \<times> int64" where
  "applyOperationSpecificLimits f maxSheepSend sent maxWheatReceive received =
     (case mKind f of
        SellKind a _ \<Rightarrow> (min64 (a - sent) maxSheepSend, maxWheatReceive)
      | BuyKind a _ \<Rightarrow> (maxSheepSend, min64 (a - received) maxWheatReceive))"

definition getExchangeParametersBeforeV10 ::
  "ManageOfferFrame \<Rightarrow> int64 \<Rightarrow> int64 \<Rightarrow> ledger_error + int64 \<times> int64" where
  "getExchangeParametersBeforeV10 f maxSheepSend maxWheatReceive =
     (case mKind f of
        SellKind a p \<Rightarrow>
          bindE (numericE (bigDivide_s64 0 maxWheatReceive (pD p) (pN p) ROUND_DOWN)) (\<lambda>(ok, byWheat).
          Inr (min64 (min64 maxSheepSend (if ok then byWheat else INT64_MAX)) a, maxWheatReceive))
      | BuyKind a p \<Rightarrow> Inl (RuntimeError ''ManageBuyOffer used before protocol version 10''))"

subsection \<open>Checks before an offer crosses\<close>

definition lineBalance :: "LedgerTxn \<Rightarrow> TrustLineWrapper \<Rightarrow> ledger_error + int64" where
  "lineBalance ltx w =
     (case w of
        InactiveLine \<Rightarrow> Inl lineNotActive
      | NonIssuerLine k \<Rightarrow>
          bindE (currentEntry ltx (Some k)) (\<lambda>e. case entryData e of TRUSTLINE line \<Rightarrow> Inr (tlBalance line) | _ \<Rightarrow> Inl WrongUnion)
      | IssuerLine \<Rightarrow> Inr INT64_MAX)"

definition checkSheepValid :: "ManageOfferFrame \<Rightarrow> AccountID \<Rightarrow> LedgerTxn \<Rightarrow> ledger_error + ManageOfferResult option" where
  "checkSheepValid f src ltx =
     (if mSheep f = ASSET_TYPE_NATIVE then Inr None
      else
        bindE (loadTrustLine ltx src (mSheep f)) (\<lambda>sheepLineA.
        bindE (getIssuer (mSheep f)) (\<lambda>issuer.
        if \<not> accountExists ltx issuer then Inr (Some MANAGE_OFFER_SELL_NO_ISSUER)
        else if sheepLineA = InactiveLine then Inr (Some MANAGE_OFFER_SELL_NO_TRUST)
        else
          bindE (lineBalance ltx sheepLineA) (\<lambda>b.
          if b = 0 then Inr (Some MANAGE_OFFER_UNDERFUNDED)
          else
            bindE (lineIsAuthorized ltx sheepLineA) (\<lambda>authorized.
            Inr (if \<not> authorized then Some MANAGE_OFFER_SELL_NOT_AUTHORIZED else None))))))"

definition checkWheatValid :: "ManageOfferFrame \<Rightarrow> AccountID \<Rightarrow> LedgerTxn \<Rightarrow> ledger_error + ManageOfferResult option" where
  "checkWheatValid f src ltx =
     (if mWheat f = ASSET_TYPE_NATIVE then Inr None
      else
        bindE (loadTrustLine ltx src (mWheat f)) (\<lambda>wheatLineA.
        bindE (getIssuer (mWheat f)) (\<lambda>issuer.
        if \<not> accountExists ltx issuer then Inr (Some MANAGE_OFFER_BUY_NO_ISSUER)
        else if wheatLineA = InactiveLine then Inr (Some MANAGE_OFFER_BUY_NO_TRUST)
        else
          bindE (lineIsAuthorized ltx wheatLineA) (\<lambda>authorized.
          Inr (if \<not> authorized then Some MANAGE_OFFER_BUY_NOT_AUTHORIZED else None)))))"

definition checkOfferValid :: "ManageOfferFrame \<Rightarrow> AccountID \<Rightarrow> LedgerTxn \<Rightarrow> ledger_error + ManageOfferResult option" where
  "checkOfferValid f src ltx =
     (if isDeleteOffer f then Inr None
      else
        bindE (checkSheepValid f src ltx) (\<lambda>r.
        (case r of Some bad \<Rightarrow> Inr (Some bad) | None \<Rightarrow> checkWheatValid f src ltx)))"

text \<open>What is available for the whole offer, checked from version 10.\<close>

definition limitsV10 ::
  "ManageOfferFrame \<Rightarrow> LedgerTxn \<Rightarrow> LedgerEntry \<Rightarrow> TrustLineWrapper \<Rightarrow> TrustLineWrapper \<Rightarrow> int64 \<Rightarrow> int64 \<Rightarrow>
   ledger_error + OperationResult + int64 \<times> int64" where
  "limitsV10 f ltx sourceAccount sheepLineA wheatLineA maxSheepSend maxWheatReceive =
     (let h = ltxHeader ltx
      in bindE (if mWheat f = ASSET_TYPE_NATIVE then getMaxAmountReceive h sourceAccount
                else lineMaxAmountReceive ltx wheatLineA) (\<lambda>availableLimit.
         bindE (frameLiabilities f) (\<lambda>liab.
         if sint availableLimit < sint (sheepSend10 liab) then Inr (Inl (moResult f MANAGE_OFFER_LINE_FULL))
         else
           bindE (if mSheep f = ASSET_TYPE_NATIVE then getAvailableBalance h sourceAccount
                  else lineAvailableBalance ltx sheepLineA) (\<lambda>availableBalance.
           if sint availableBalance < sint (wheatReceived10 liab) then Inr (Inl (moResult f MANAGE_OFFER_UNDERFUNDED))
           else Inr (Inr (applyOperationSpecificLimits f maxSheepSend 0 maxWheatReceive 0))))))"

definition computeOfferExchangeParameters ::
  "ManageOfferFrame \<Rightarrow> AccountID \<Rightarrow> bool \<Rightarrow> LedgerTxn \<Rightarrow> ledger_error + OperationResult + int64 \<times> int64" where
  "computeOfferExchangeParameters f src creatingNewOffer ltxOuter =
     (let v = ledgerVersion (ltxHeader ltxOuter)
      in bindE (if creatingNewOffer \<and> (10 \<le> v \<or> mSheep f = ASSET_TYPE_NATIVE \<and> 8 < v)
                then sourceAddNumEntries ltxOuter src 1
                else bindE (loadSourceAccount ltxOuter src) (\<lambda>_. Inr (SUBENTRY_SUCCESS, ltxOuter))) (\<lambda>(r, ltx).
         (case r of
            LOW_RESERVE \<Rightarrow> Inr (Inl (moResult f MANAGE_OFFER_LOW_RESERVE))
          | TOO_MANY_SUBENTRIES \<Rightarrow> Inr (Inl opTOO_MANY_SUBENTRIES)
          | SUBENTRY_SUCCESS \<Rightarrow>
              bindE (loadSourceAccount ltx src) (\<lambda>source.
              bindE (loadTrustLineIfNotNative ltx src (mSheep f)) (\<lambda>sheepLineA.
              bindE (loadTrustLineIfNotNative ltx src (mWheat f)) (\<lambda>wheatLineA.
              bindE (canBuyAtMost ltx source (mWheat f) wheatLineA) (\<lambda>maxWheatReceive.
              bindE (canSellAtMost ltx source (mSheep f) sheepLineA) (\<lambda>maxSheepSend.
              if 10 \<le> v
              then bindE (currentEntry ltx source) (\<lambda>sourceAccount.
                   limitsV10 f ltx sourceAccount sheepLineA wheatLineA maxSheepSend maxWheatReceive)
              else bindE (getExchangeParametersBeforeV10 f maxSheepSend maxWheatReceive) (\<lambda>p. Inr (Inr p))))))))))"

subsection \<open>Crossing and settling\<close>

definition manageFilter :: "ManageOfferFrame \<Rightarrow> AccountID \<Rightarrow> bool \<Rightarrow> offer_filter" where
  "manageFilter f src passive oe =
     (let maxWheatPrice = getInversePrice (mPrice f)
      in bindE (assertE AssertFailure (offerID oe \<noteq> mOfferID f)) (\<lambda>_.
         Inr (if passive \<and> price_ge (price oe) maxWheatPrice \<or> price_gt (price oe) maxWheatPrice then (eStop, False)
              else if sellerID oe = src then (eStop, True)
              else (eKeep, False))))"

text \<open>Adding to the source's balance of an asset, with the message of the exception if that fails.\<close>

definition settleSource :: "AccountID \<Rightarrow> Asset \<Rightarrow> int64 \<Rightarrow> string \<Rightarrow> LedgerTxn \<Rightarrow> ledger_error + LedgerTxn" where
  "settleSource src asset delta msg ltx =
     bindE (if asset = ASSET_TYPE_NATIVE
            then bindE (loadSourceAccount ltx src) (\<lambda>_.
                 onEntry ltx (AccountKey src) (\<lambda>e. addBalance (ltxHeader ltx) e delta))
            else bindE (loadTrustLine ltx src asset) (\<lambda>w. lineAddBalance ltx w delta)) (\<lambda>(ok, ltx1).
     bindE (throwIf (\<not> ok) msg) (\<lambda>_. Inr ltx1))"

definition remainingAmount ::
  "ManageOfferFrame \<Rightarrow> AccountID \<Rightarrow> bool \<Rightarrow> int64 \<Rightarrow> Conversion \<Rightarrow> LedgerTxn \<Rightarrow> ledger_error + int64" where
  "remainingAmount f src sheepStays maxSheepSend cv ltx =
     (if 10 \<le> ledgerVersion (ltxHeader ltx)
      then
        if sheepStays
        then
          (let source = (if accountExists ltx src then Some (AccountKey src) else None)
           in bindE (loadTrustLineIfNotNative ltx src (mSheep f)) (\<lambda>sheepLineA.
              bindE (loadTrustLineIfNotNative ltx src (mWheat f)) (\<lambda>wheatLineA.
              bindE (canSellAtMost ltx source (mSheep f) sheepLineA) (\<lambda>sheepSendLimit.
              bindE (canBuyAtMost ltx source (mWheat f) wheatLineA) (\<lambda>wheatReceiveLimit.
              (let (s, w) = applyOperationSpecificLimits f sheepSendLimit (sheepSent cv) wheatReceiveLimit (wheatGot cv)
               in adjustOffer (mPrice f) s w))))))
        else Inr 0
      else Inr (maxSheepSend - sheepSent cv))"

text \<open>Crossing the book: the failure, or the amount that remains and the offers claimed.\<close>

definition manageCross ::
  "ManageOfferFrame \<Rightarrow> AccountID \<Rightarrow> bool \<Rightarrow> int64 \<Rightarrow> int64 \<Rightarrow> LedgerTxn \<Rightarrow>
   ledger_error + (OperationResult + int64 \<times> ClaimOfferAtom list) \<times> LedgerTxn" where
  "manageCross f src passive maxSheepSend maxWheatReceive ltx =
     (let maxOffersToCross =
        (if FIRST_PROTOCOL_SUPPORTING_OPERATION_LIMITS \<le> ledgerVersion (ltxHeader ltx) then MAX_OFFERS_TO_CROSS else INT64_MAX)
      in bindE (convertWithOffers ltx (mSheep f) maxSheepSend (mWheat f) maxWheatReceive False
                  (Some (manageFilter f src passive)) maxOffersToCross) (\<lambda>(cv, ltx1).
         bindE (assertE AssertFailure (0 \<le> sint (sheepSent cv))) (\<lambda>_.
         if convResult cv = eCrossedTooMany then Inr (Inl opEXCEEDED_WORK_LIMIT, ltx1)
         else if convResult cv = eFilterStop \<and> convCrossSelf cv then Inr (Inl (moResult f MANAGE_OFFER_CROSS_SELF), ltx1)
         else
           bindE (if 0 < sint (wheatGot cv)
                  then bindE (settleSource src (mWheat f) (wheatGot cv) ''offer claimed over limit'' ltx1)
                         (settleSource src (mSheep f) (- sheepSent cv) ''offer sold more than balance'')
                  else Inr ltx1) (\<lambda>ltx2.
           bindE (remainingAmount f src (convResult cv \<noteq> eOK) maxSheepSend cv ltx2) (\<lambda>a.
           Inr (Inr (a, convTrail cv), ltx2))))))"

definition buildOffer :: "ManageOfferFrame \<Rightarrow> AccountID \<Rightarrow> int64 \<Rightarrow> uint32 \<Rightarrow> OfferEntry" where
  "buildOffer f src a flags =
     \<lparr>sellerID = src, offerID = mOfferID f, selling = mSheep f, buying = mWheat f, amount = a, price = mPrice f,
      offerFlags = flags\<rparr>"

definition offerLedgerEntry :: "OfferEntry \<Rightarrow> LedgerEntry" where
  "offerLedgerEntry oe = \<lparr>lastModifiedLedgerSeq = 0, entryData = OFFER oe\<rparr>"

text \<open>Storing the offer, with a new identifier when it is created.\<close>

definition storeOffer ::
  "AccountID \<Rightarrow> bool \<Rightarrow> OfferEntry \<Rightarrow> ClaimOfferAtom list \<Rightarrow> LedgerTxn \<Rightarrow> ledger_error + ManageOfferResult \<times> LedgerTxn" where
  "storeOffer src creatingNewOffer oe claimed ltx =
     (let (i, h) = generateID (ltxHeader ltx);
          oe' = (if creatingNewOffer then oe\<lparr>offerID := i\<rparr> else oe);
          ltx1 = (if creatingNewOffer then ltx\<lparr>ltxHeader := h\<rparr> else ltx);
          e = offerLedgerEntry oe'
      in bindE (createEntry ltx1 e) (\<lambda>ltx2.
         bindE (if 10 \<le> ledgerVersion (ltxHeader ltx) then acquireLiabilities ltx2 e else Inr ltx2) (\<lambda>ltx3.
         Inr (MANAGE_OFFER_SUCCESS claimed
                (if creatingNewOffer then MANAGE_OFFER_CREATED oe' else MANAGE_OFFER_UPDATED oe'), ltx3))))"

definition finishOffer ::
  "ManageOfferFrame \<Rightarrow> AccountID \<Rightarrow> bool \<Rightarrow> uint32 \<Rightarrow> int64 \<Rightarrow> ClaimOfferAtom list \<Rightarrow> LedgerTxn \<Rightarrow> LedgerTxn \<Rightarrow>
   ledger_error + op_outcome" where
  "finishOffer f src creatingNewOffer flags a claimed ltxOuter ltx =
     (if 0 < sint a
      then
        bindE (if creatingNewOffer then sourceAddNumEntries ltx src 1 else Inr (SUBENTRY_SUCCESS, ltx)) (\<lambda>(r, ltx1).
        (case r of
           LOW_RESERVE \<Rightarrow> Inr (False, moResult f MANAGE_OFFER_LOW_RESERVE, ltxOuter)
         | TOO_MANY_SUBENTRIES \<Rightarrow> Inr (False, opTOO_MANY_SUBENTRIES, ltxOuter)
         | SUBENTRY_SUCCESS \<Rightarrow>
             bindE (storeOffer src creatingNewOffer (buildOffer f src a flags) claimed ltx1) (\<lambda>(res, ltx2).
             Inr (True, moResult f res, ltx2))))
      else
        bindE (if creatingNewOffer then Inr (SUBENTRY_SUCCESS, ltx) else sourceAddNumEntries ltx src (- 1)) (\<lambda>(r, ltx1).
        Inr (True, moResult f (MANAGE_OFFER_SUCCESS claimed MANAGE_OFFER_DELETED), ltx1)))"

text \<open>Taking the old offer out of the ledger: its flags.\<close>

definition takeOffer :: "ManageOfferFrame \<Rightarrow> AccountID \<Rightarrow> LedgerTxn \<Rightarrow> ledger_error + (uint32 \<times> LedgerTxn) option" where
  "takeOffer f src ltx =
     (let k = OfferKey src (mOfferID f)
      in case loadEntry ltx k of
           None \<Rightarrow> Inr None
         | Some e \<Rightarrow>
             bindE (if 10 \<le> ledgerVersion (ltxHeader ltx) then releaseLiabilities ltx e else Inr ltx) (\<lambda>ltx1.
             bindE (theOffer e) (\<lambda>oe. Inr (Some (offerFlags oe, eraseEntry ltx1 k)))))"

definition ManageOffer_doApply :: "AccountID \<Rightarrow> ManageOfferFrame \<Rightarrow> LedgerTxn \<Rightarrow> ledger_error + op_outcome" where
  "ManageOffer_doApply src f ltxOuter =
     bindE (checkOfferValid f src ltxOuter) (\<lambda>bad.
     (case bad of
        Some r \<Rightarrow> Inr (False, moResult f r, ltxOuter)
      | None \<Rightarrow>
          bindE (if mOfferID f \<noteq> 0 then takeOffer f src ltxOuter
                 else Inr (Some (if mSetPassiveOnCreate f then 1 else 0, ltxOuter))) (\<lambda>old.
          (case old of
             None \<Rightarrow> Inr (False, moResult f MANAGE_OFFER_NOT_FOUND, ltxOuter)
           | Some (flags, ltx) \<Rightarrow>
               (let creatingNewOffer = (mOfferID f = 0)
                in if isDeleteOffer f then finishOffer f src creatingNewOffer flags 0 [] ltxOuter ltx
                   else
                     bindE (computeOfferExchangeParameters f src creatingNewOffer ltx) (\<lambda>p.
                     (case p of
                        Inl r \<Rightarrow> Inr (False, r, ltxOuter)
                      | Inr (maxSheepSend, maxWheatReceive) \<Rightarrow>
                          if maxWheatReceive = 0 then Inr (False, moResult f MANAGE_OFFER_LINE_FULL, ltxOuter)
                          else
                            bindE (manageCross f src (and flags 1 \<noteq> 0) maxSheepSend maxWheatReceive ltx) (\<lambda>(c, ltx1).
                            (case c of
                               Inl r \<Rightarrow> Inr (False, r, ltxOuter)
                             | Inr (a, claimed) \<Rightarrow>
                                 finishOffer f src creatingNewOffer flags a claimed ltxOuter ltx1)))))))))"

definition ManageOffer_doCheckValid :: "ManageOfferFrame \<Rightarrow> uint32 \<Rightarrow> OperationResult option" where
  "ManageOffer_doCheckValid f version =
     (if \<not> isAssetValid (mSheep f) \<or> \<not> isAssetValid (mWheat f) \<or> compareAsset (mSheep f) (mWheat f) \<or>
         \<not> isAmountValid f \<or> sint (priceD (mPrice f)) \<le> 0 \<or> sint (priceN (mPrice f)) \<le> 0
      then Some (moResult f MANAGE_OFFER_MALFORMED)
      else if mOfferID f = 0 \<and> isDeleteOffer f \<and> 11 \<le> version then Some (moResult f MANAGE_OFFER_MALFORMED)
      else if mOfferID f = 0 \<and> isDeleteOffer f \<and> 3 \<le> version then Some (moResult f MANAGE_OFFER_NOT_FOUND)
      else None)"

end
