(* ===== verification/Transaction_Frame.thy ===== *)
theory Transaction_Frame
  imports Signature_Checker Trust_Operations Offer_Operations
begin

text \<open>
  Operations and transactions as a whole: \<open>src/src/transactions/OperationFrame.cpp\<close> and the validation, fee,
  sequence number and application of \<open>TransactionFrame.cpp\<close>. The hash of the contents is part of the
  envelope; the check of the configured invariants after an operation, which throws when one does not
  hold, is a parameter. A nested ledger transaction is committed by keeping the ledger it leaves.
\<close>

record Transaction =
  txSourceAccount :: AccountID
  txFee :: uint32
  txSeqNum :: int64
  timeBounds :: "(uint64 \<times> uint64) option"
  txOperations :: "Operation list"

record TransactionEnvelope =
  envTx :: Transaction
  envSignatures :: "DecoratedSignature list"
  envContentsHash :: "256 word"

datatype TransactionResultCode =
    txSUCCESS | txFAILED | txTOO_EARLY | txTOO_LATE | txMISSING_OPERATION | txBAD_SEQ | txBAD_AUTH
  | txINSUFFICIENT_BALANCE | txNO_ACCOUNT | txINSUFFICIENT_FEE | txBAD_AUTH_EXTRA | txINTERNAL_ERROR

subsection \<open>Operation frames\<close>

datatype ThresholdLevel = LOW | MEDIUM | HIGH

definition getSourceID :: "Transaction \<Rightarrow> Operation \<Rightarrow> AccountID" where
  "getSourceID tx op = (case opSourceAccount op of None \<Rightarrow> txSourceAccount tx | Some a \<Rightarrow> a)"

definition getNeededThreshold :: "AccountEntry \<Rightarrow> ThresholdLevel \<Rightarrow> int32" where
  "getNeededThreshold acc level =
     ucast (thresholds acc ! (case level of LOW \<Rightarrow> 1 | MEDIUM \<Rightarrow> 2 | HIGH \<Rightarrow> 3))"

definition getThresholdLevel :: "OperationBody \<Rightarrow> ThresholdLevel" where
  "getThresholdLevel b =
     (case b of
        ACCOUNT_MERGE _ \<Rightarrow> HIGH
      | ALLOW_TRUST _ \<Rightarrow> LOW
      | BUMP_SEQUENCE _ \<Rightarrow> LOW
      | INFLATION \<Rightarrow> LOW
      | SET_OPTIONS op \<Rightarrow>
          (if masterWeight op \<noteq> None \<or> lowThreshold op \<noteq> None \<or> medThreshold op \<noteq> None \<or> highThreshold op \<noteq> None \<or>
              soSigner op \<noteq> None then HIGH else MEDIUM)
      | _ \<Rightarrow> MEDIUM)"

definition isVersionSupported :: "OperationBody \<Rightarrow> uint32 \<Rightarrow> bool" where
  "isVersionSupported b version =
     (case b of BUMP_SEQUENCE _ \<Rightarrow> 10 \<le> version | MANAGE_BUY_OFFER _ \<Rightarrow> 11 \<le> version | _ \<Rightarrow> True)"

definition doCheckValid :: "AccountID \<Rightarrow> OperationBody \<Rightarrow> uint32 \<Rightarrow> OperationResult option" where
  "doCheckValid src b version =
     (case b of
        CREATE_ACCOUNT op \<Rightarrow> CreateAccount_doCheckValid src op
      | PAYMENT op \<Rightarrow> Payment_doCheckValid op
      | PATH_PAYMENT op \<Rightarrow> PathPayment_doCheckValid op
      | MANAGE_SELL_OFFER op \<Rightarrow> ManageOffer_doCheckValid (sellFrame False op) version
      | CREATE_PASSIVE_SELL_OFFER op \<Rightarrow> ManageOffer_doCheckValid (sellFrame True (passiveAsSell op)) version
      | SET_OPTIONS op \<Rightarrow> SetOptions_doCheckValid src op version
      | CHANGE_TRUST op \<Rightarrow> ChangeTrust_doCheckValid op version
      | ALLOW_TRUST op \<Rightarrow> AllowTrust_doCheckValid src op
      | ACCOUNT_MERGE dest \<Rightarrow> Merge_doCheckValid src dest
      | INFLATION \<Rightarrow> None
      | MANAGE_DATA op \<Rightarrow> ManageData_doCheckValid op version
      | BUMP_SEQUENCE bumpTo \<Rightarrow> BumpSequence_doCheckValid bumpTo
      | MANAGE_BUY_OFFER op \<Rightarrow> ManageOffer_doCheckValid (buyFrame op) version)"

definition doApply :: "AccountID \<Rightarrow> OperationBody \<Rightarrow> LedgerTxn \<Rightarrow> ledger_error + op_outcome" where
  "doApply src b ltx =
     (case b of
        CREATE_ACCOUNT op \<Rightarrow> CreateAccount_doApply src op ltx
      | PAYMENT op \<Rightarrow> Payment_doApply src op ltx
      | PATH_PAYMENT op \<Rightarrow> PathPayment_doApply src op ltx
      | MANAGE_SELL_OFFER op \<Rightarrow> ManageOffer_doApply src (sellFrame False op) ltx
      | CREATE_PASSIVE_SELL_OFFER op \<Rightarrow> ManageOffer_doApply src (sellFrame True (passiveAsSell op)) ltx
      | SET_OPTIONS op \<Rightarrow> SetOptions_doApply src op ltx
      | CHANGE_TRUST op \<Rightarrow> ChangeTrust_doApply src op ltx
      | ALLOW_TRUST op \<Rightarrow> AllowTrust_doApply src op ltx
      | ACCOUNT_MERGE dest \<Rightarrow> Merge_doApply src dest ltx
      | INFLATION \<Rightarrow> Inflation_doApply ltx
      | MANAGE_DATA op \<Rightarrow> ManageData_doApply src op ltx
      | BUMP_SEQUENCE bumpTo \<Rightarrow> BumpSequence_doApply src bumpTo ltx
      | MANAGE_BUY_OFFER op \<Rightarrow> ManageOffer_doApply src (buyFrame op) ltx)"

subsection \<open>Signatures of accounts\<close>

definition txCheckSignature :: "Crypto \<Rightarrow> AccountEntry \<Rightarrow> int32 \<Rightarrow> SignatureChecker \<Rightarrow> bool \<times> SignatureChecker" where
  "txCheckSignature C acc needed sc =
     (let master = thresholds acc ! 0;
          ss = (if master \<noteq> 0 then [(SIGNER_KEY_TYPE_ED25519 (accountID acc), ucast master)] else []) @ signers acc
      in checkSignature C (accountID acc) ss needed sc)"

definition checkSignatureNoAccount :: "Crypto \<Rightarrow> AccountID \<Rightarrow> SignatureChecker \<Rightarrow> bool \<times> SignatureChecker" where
  "checkSignatureNoAccount C a sc = checkSignature C a [(SIGNER_KEY_TYPE_ED25519 a, 1)] 0 sc"

definition opCheckSignature ::
  "Crypto \<Rightarrow> Transaction \<Rightarrow> Operation \<Rightarrow> LedgerTxn \<Rightarrow> bool \<Rightarrow> SignatureChecker \<Rightarrow>
   ledger_error + OperationResult option \<times> SignatureChecker" where
  "opCheckSignature C tx op ltx forApply sc =
     (let src = getSourceID tx op
      in bindE (loadSourceAccount ltx src) (\<lambda>handle.
         if handle \<noteq> None
         then
           bindE (currentEntry ltx handle) (\<lambda>e.
           bindE (theAccount e) (\<lambda>acc.
           (let (ok, sc') = txCheckSignature C acc (getNeededThreshold acc (getThresholdLevel (opBody op))) sc
            in Inr (if ok then None else Some opBAD_AUTH, sc'))))
         else if forApply \<or> opSourceAccount op = None then Inr (Some opNO_ACCOUNT, sc)
         else
           (let (ok, sc') = checkSignatureNoAccount C src sc
            in Inr (if ok then None else Some opBAD_AUTH, sc'))))"

definition opCheckValid ::
  "Crypto \<Rightarrow> Transaction \<Rightarrow> Operation \<Rightarrow> LedgerTxn \<Rightarrow> bool \<Rightarrow> SignatureChecker \<Rightarrow>
   ledger_error + OperationResult option \<times> SignatureChecker" where
  "opCheckValid C tx op ltx forApply sc =
     (let v = ledgerVersion (ltxHeader ltx); src = getSourceID tx op
      in if \<not> isVersionSupported (opBody op) v then Inr (Some opNOT_SUPPORTED, sc)
         else
           bindE (if \<not> forApply \<or> v < 10 then opCheckSignature C tx op ltx forApply sc
                  else bindE (loadSourceAccount ltx src) (\<lambda>handle.
                       Inr (if handle = None then Some opNO_ACCOUNT else None, sc))) (\<lambda>(r, sc').
           (case r of
              Some bad \<Rightarrow> Inr (Some bad, sc')
            | None \<Rightarrow> Inr (doCheckValid src (opBody op) v, sc'))))"

definition opApply ::
  "Crypto \<Rightarrow> Transaction \<Rightarrow> Operation \<Rightarrow> LedgerTxn \<Rightarrow> SignatureChecker \<Rightarrow> ledger_error + op_outcome \<times> SignatureChecker" where
  "opApply C tx op ltx sc =
     bindE (opCheckValid C tx op ltx True sc) (\<lambda>(r, sc').
     (case r of
        Some bad \<Rightarrow> Inr ((False, bad, ltx), sc')
      | None \<Rightarrow> bindE (doApply (getSourceID tx op) (opBody op) ltx) (\<lambda>out. Inr (out, sc'))))"

subsection \<open>Fees and sequence numbers\<close>

definition opCount :: "Transaction \<Rightarrow> int64" where
  "opCount tx = of_nat (max 1 (length (txOperations tx)))"

definition getMinFee :: "LedgerHeader \<Rightarrow> Transaction \<Rightarrow> int64" where
  "getMinFee h tx = ucast (baseFee h) * opCount tx"

definition getFee :: "LedgerHeader \<Rightarrow> int64 \<Rightarrow> Transaction \<Rightarrow> int64" where
  "getFee h baseFee' tx =
     (if ledgerVersion h < 11 then ucast (txFee tx) else min64 (ucast (txFee tx)) (baseFee' * opCount tx))"

definition processFeeSeqNum :: "int64 \<Rightarrow> Transaction \<Rightarrow> LedgerTxn \<Rightarrow> ledger_error + int64 \<times> LedgerTxn" where
  "processFeeSeqNum baseFee' tx ltx =
     (let h = ltxHeader ltx; k = AccountKey (txSourceAccount tx)
      in bindE (loadSourceAccount ltx (txSourceAccount tx)) (\<lambda>handle.
         bindE (throwIf (handle = None) ''Unexpected database state'') (\<lambda>_.
         bindE (currentEntry ltx handle) (\<lambda>e.
         bindE (theAccount e) (\<lambda>acc.
         (let fee0 = getFee h baseFee' tx
          in bindE
               (if 0 < sint fee0
                then
                  (let fee = min64 (accBalance acc) fee0
                   in bindE (addBalance64 (accBalance acc) (- fee) INT64_MAX) (\<lambda>(added, b).
                      Inr (fee, acc\<lparr>accBalance := b\<rparr>, h\<lparr>feePool := feePool h + fee\<rparr>)))
                else Inr (fee0, acc, h)) (\<lambda>(fee, acc1, h1).
             bindE
               (if ledgerVersion h \<le> 9
                then bindE (throwIf (seqNum acc1 + 1 \<noteq> txSeqNum tx) ''Unexpected account state'') (\<lambda>_.
                     Inr (acc1\<lparr>seqNum := txSeqNum tx\<rparr>))
                else Inr acc1) (\<lambda>acc2.
             Inr (fee, storeEntry (ltx\<lparr>ltxHeader := h1\<rparr>) k (e\<lparr>entryData := ACCOUNT acc2\<rparr>))))))))))"

definition processSeqNum :: "Transaction \<Rightarrow> LedgerTxn \<Rightarrow> ledger_error + LedgerTxn" where
  "processSeqNum tx ltx =
     (if 10 \<le> ledgerVersion (ltxHeader ltx)
      then
        bindE (sourceEntry ltx (txSourceAccount tx)) (\<lambda>e.
        bindE (theAccount e) (\<lambda>acc.
        bindE (throwIf (sint (txSeqNum tx) < sint (seqNum acc)) ''unexpected sequence number'') (\<lambda>_.
        Inr (storeEntry ltx (AccountKey (txSourceAccount tx))
               (e\<lparr>entryData := ACCOUNT (acc\<lparr>seqNum := txSeqNum tx\<rparr>)\<rparr>)))))
      else Inr ltx)"

subsection \<open>Validation\<close>

datatype ValidationType = kInvalid | kInvalidUpdateSeqNum | kInvalidPostAuth | kFullyValid

primrec validationRank :: "ValidationType \<Rightarrow> nat" where
  "validationRank kInvalid = 0"
| "validationRank kInvalidUpdateSeqNum = 1"
| "validationRank kInvalidPostAuth = 2"
| "validationRank kFullyValid = 3"

definition commonValidPreSeqNum :: "Transaction \<Rightarrow> LedgerTxn \<Rightarrow> ledger_error + TransactionResultCode option" where
  "commonValidPreSeqNum tx ltx =
     (let h = ltxHeader ltx
      in if txOperations tx = [] then Inr (Some txMISSING_OPERATION)
         else if (case timeBounds tx of None \<Rightarrow> False | Some (minTime, maxTime) \<Rightarrow> minTime > closeTime h)
         then Inr (Some txTOO_EARLY)
         else if (case timeBounds tx of None \<Rightarrow> False | Some (minTime, maxTime) \<Rightarrow> maxTime \<noteq> 0 \<and> maxTime < closeTime h)
         then Inr (Some txTOO_LATE)
         else if sint (ucast (txFee tx) :: int64) < sint (getMinFee h tx) then Inr (Some txINSUFFICIENT_FEE)
         else
           bindE (loadSourceAccount ltx (txSourceAccount tx)) (\<lambda>handle.
           Inr (if handle = None then Some txNO_ACCOUNT else None)))"

definition badSeq :: "LedgerHeader \<Rightarrow> Transaction \<Rightarrow> AccountEntry \<Rightarrow> int64 \<Rightarrow> bool \<Rightarrow> bool" where
  "badSeq h tx acc current applying \<longleftrightarrow>
     (10 \<le> ledgerVersion h \<or> \<not> applying) \<and>
     (let c = (if current = 0 then seqNum acc else current) in c = INT64_MAX \<or> c + 1 \<noteq> txSeqNum tx)"

definition commonValid ::
  "Crypto \<Rightarrow> Transaction \<Rightarrow> LedgerTxn \<Rightarrow> int64 \<Rightarrow> bool \<Rightarrow> SignatureChecker \<Rightarrow>
   ledger_error + ValidationType \<times> TransactionResultCode \<times> SignatureChecker" where
  "commonValid C tx ltx current applying sc =
     bindE (commonValidPreSeqNum tx ltx) (\<lambda>pre.
     (case pre of
        Some code \<Rightarrow> Inr (kInvalid, code, sc)
      | None \<Rightarrow>
          (let h = ltxHeader ltx
           in bindE (sourceEntry ltx (txSourceAccount tx)) (\<lambda>e.
              bindE (theAccount e) (\<lambda>acc.
              if badSeq h tx acc current applying then Inr (kInvalid, txBAD_SEQ, sc)
              else
                (let (ok, sc') = txCheckSignature C acc (ucast (thresholds acc ! 1)) sc
                 in if \<not> ok then Inr (kInvalidUpdateSeqNum, txBAD_AUTH, sc')
                    else
                      bindE (getAvailableBalance h e) (\<lambda>available.
                      (let feeToPay = (if applying \<and> 8 < ledgerVersion h then 0 else txFee tx)
                       in if sint available < sint (ucast feeToPay :: int64)
                          then Inr (kInvalidPostAuth, txINSUFFICIENT_BALANCE, sc')
                          else Inr (kFullyValid, txSUCCESS, sc')))))))))"

subsection \<open>One-time signers\<close>

text \<open>Removing a signer stops after the first key that is found, as the lazy disjunction of the code does.\<close>

definition removeAccountSigner ::
  "LedgerHeader \<Rightarrow> SignerKey \<Rightarrow> LedgerEntry \<Rightarrow> ledger_error + bool \<times> LedgerEntry" where
  "removeAccountSigner h k e =
     bindE (theAccount e) (\<lambda>acc.
     (case List.extract (\<lambda>s. fst s = k) (signers acc) of
        None \<Rightarrow> Inr (False, e)
      | Some (before, s, after) \<Rightarrow>
          bindE (addNumEntries h e (- 1)) (\<lambda>(r, e1).
          bindE (assertE AssertFailure (r = SUBENTRY_SUCCESS)) (\<lambda>_.
          bindE (onAccountOf e1 (\<lambda>a. a\<lparr>signers := before @ after\<rparr>)) (\<lambda>e2. Inr (True, e2))))))"

fun removeSigners :: "LedgerHeader \<Rightarrow> SignerKey list \<Rightarrow> LedgerEntry \<Rightarrow> ledger_error + bool \<times> LedgerEntry" where
  "removeSigners h [] e = Inr (False, e)"
| "removeSigners h (k # ks) e =
     bindE (removeAccountSigner h k e) (\<lambda>(changed, e'). if changed then Inr (True, e') else removeSigners h ks e')"

definition removeUsedKeysOf :: "AccountID \<Rightarrow> SignerKey list \<Rightarrow> LedgerTxn \<Rightarrow> ledger_error + LedgerTxn" where
  "removeUsedKeysOf a ks ltx =
     (if \<not> accountExists ltx a then Inr ltx
      else
        bindE (onEntry ltx (AccountKey a) (\<lambda>e.
          bindE (removeSigners (ltxHeader ltx) ks e) (\<lambda>(changed, e1).
          if changed then bindE (onAccountOf e1 normalizeSigners) (\<lambda>e2. Inr ((), e2)) else Inr ((), e1))))
          (\<lambda>(_, ltx'). Inr ltx'))"

fun removeUsedOneTimeSignerKeys :: "(AccountID \<times> SignerKey list) list \<Rightarrow> LedgerTxn \<Rightarrow> ledger_error + LedgerTxn" where
  "removeUsedOneTimeSignerKeys [] ltx = Inr ltx"
| "removeUsedOneTimeSignerKeys ((a, ks) # rest) ltx =
     bindE (removeUsedKeysOf a ks ltx) (\<lambda>ltx'. removeUsedOneTimeSignerKeys rest ltx')"

subsection \<open>Applying a transaction\<close>

fun signaturesLoop ::
  "Crypto \<Rightarrow> Transaction \<Rightarrow> LedgerTxn \<Rightarrow> Operation list \<Rightarrow> SignatureChecker \<Rightarrow> ledger_error + bool \<times> SignatureChecker" where
  "signaturesLoop C tx ltx [] sc = Inr (True, sc)"
| "signaturesLoop C tx ltx (op # ops) sc =
     bindE (opCheckSignature C tx op ltx False sc) (\<lambda>(r, sc1).
     bindE (signaturesLoop C tx ltx ops sc1) (\<lambda>(ok, sc2). Inr (r = None \<and> ok, sc2)))"

text \<open>Marking a result as failed keeps the results of the operations: the accessor of the union throws when the code
  set before is neither success nor failure. Operation results are kept for operations that are applied.\<close>

definition markResultFailed :: "TransactionResultCode \<Rightarrow> ledger_error + TransactionResultCode" where
  "markResultFailed code = (if code = txSUCCESS \<or> code = txFAILED then Inr txFAILED else Inl WrongUnion)"

definition processSignatures ::
  "Crypto \<Rightarrow> Transaction \<Rightarrow> LedgerTxn \<Rightarrow> TransactionResultCode \<Rightarrow> SignatureChecker \<Rightarrow>
   ledger_error + TransactionResultCode option \<times> LedgerTxn \<times> SignatureChecker" where
  "processSignatures C tx ltx code sc =
     (if ledgerVersion (ltxHeader ltx) < 10 then Inr (None, ltx, sc)
      else
        bindE (signaturesLoop C tx ltx (txOperations tx) sc) (\<lambda>(allOpsValid, sc1).
        bindE (removeUsedOneTimeSignerKeys (mUsedOneTimeSignerKeys sc1) ltx) (\<lambda>ltx1.
        if \<not> allOpsValid then bindE (markResultFailed code) (\<lambda>failed. Inr (Some failed, ltx1, sc1))
        else if \<not> checkAllSignaturesUsed sc1 then Inr (Some txBAD_AUTH_EXTRA, ltx1, sc1)
        else Inr (None, ltx1, sc1))))"

type_synonym invariant_check = "Operation \<Rightarrow> OperationResult \<Rightarrow> LedgerTxn \<Rightarrow> LedgerTxn \<Rightarrow> ledger_error + unit"

text \<open>Every operation is applied, even after a failure; the invariants are checked as long as none has failed.\<close>

fun operationsLoop ::
  "invariant_check \<Rightarrow> Crypto \<Rightarrow> Transaction \<Rightarrow> Operation list \<Rightarrow> bool \<Rightarrow> LedgerTxn \<Rightarrow> SignatureChecker \<Rightarrow>
   ledger_error + bool \<times> OperationResult list \<times> LedgerTxn \<times> SignatureChecker" where
  "operationsLoop invCheck C tx [] failed ltx sc = Inr (failed, [], ltx, sc)"
| "operationsLoop invCheck C tx (op # ops) failed ltx sc =
     bindE (opApply C tx op ltx sc) (\<lambda>((ok, r, ltx1), sc1).
     bindE (if failed \<or> \<not> ok then Inr () else invCheck op r ltx ltx1) (\<lambda>_.
     bindE (operationsLoop invCheck C tx ops (failed \<or> \<not> ok) ltx1 sc1) (\<lambda>(f, rs, ltx2, sc2).
     Inr (f, r # rs, ltx2, sc2))))"

definition applyOperations ::
  "invariant_check \<Rightarrow> Crypto \<Rightarrow> Transaction \<Rightarrow> LedgerTxn \<Rightarrow> SignatureChecker \<Rightarrow>
   ledger_error + (TransactionResultCode \<times> OperationResult list) \<times> LedgerTxn" where
  "applyOperations invCheck C tx ltx sc =
     bindE (operationsLoop invCheck C tx (txOperations tx) False ltx sc) (\<lambda>(failed, rs, ltx1, sc1).
     if failed then Inr ((txFAILED, rs), ltx)
     else if ledgerVersion (ltxHeader ltx1) < 10
     then
       if \<not> checkAllSignaturesUsed sc1 then Inr ((txBAD_AUTH_EXTRA, []), ltx)
       else bindE (removeUsedOneTimeSignerKeys (mUsedOneTimeSignerKeys sc1) ltx1) (\<lambda>ltx2. Inr ((txSUCCESS, rs), ltx2))
     else Inr ((txSUCCESS, rs), ltx1))"

definition applyTransaction ::
  "invariant_check \<Rightarrow> Crypto \<Rightarrow> TransactionEnvelope \<Rightarrow> LedgerTxn \<Rightarrow>
   ledger_error + (TransactionResultCode \<times> OperationResult list) \<times> LedgerTxn" where
  "applyTransaction invCheck C env ltx =
     (let tx = envTx env;
          sc = SignatureChecker_new (ledgerVersion (ltxHeader ltx)) (envContentsHash env) (envSignatures env)
      in bindE (commonValid C tx ltx 0 True sc) (\<lambda>(cv, code, sc1).
         bindE (if validationRank kInvalidUpdateSeqNum \<le> validationRank cv then processSeqNum tx ltx else Inr ltx) (\<lambda>ltx1.
         bindE (if validationRank kInvalidPostAuth \<le> validationRank cv then processSignatures C tx ltx1 code sc1
                else Inr (Some code, ltx1, sc1)) (\<lambda>(bad, ltx2, sc2).
         if bad \<noteq> None then Inr ((the bad, []), ltx2)
         else if cv \<noteq> kFullyValid then Inr ((code, []), ltx2)
         else applyOperations invCheck C tx ltx2 sc2))))"

definition checkValid :: "Crypto \<Rightarrow> TransactionEnvelope \<Rightarrow> LedgerTxn \<Rightarrow> int64 \<Rightarrow> ledger_error + bool" where
  "checkValid C env ltx current =
     (let tx = envTx env;
          sc = SignatureChecker_new (ledgerVersion (ltxHeader ltx)) (envContentsHash env) (envSignatures env)
      in bindE (commonValid C tx ltx current False sc) (\<lambda>(cv, code, sc1).
         if cv \<noteq> kFullyValid then Inr False
         else
           bindE (foldl (\<lambda>acc op. bindE acc (\<lambda>(ok, sc2). if \<not> ok then Inr (False, sc2)
                      else bindE (opCheckValid C tx op ltx False sc2) (\<lambda>(r, sc3). Inr (r = None, sc3))))
                    (Inr (True, sc1)) (txOperations tx)) (\<lambda>(ok, sc2).
           Inr (ok \<and> checkAllSignaturesUsed sc2))))"

end
