(* ===== verification/Ledger_Effects.thy ===== *)
theory Ledger_Effects
  imports Transaction_Frame Crossing_Properties
begin

text \<open>
  What an operation does to the ledger as a whole. A ledger is well formed when its keys are distinct, every
  entry is filed under its own key and no native balance is negative. The relation \<open>moves d\<close> says that a ledger stays well formed, that the sum of
  the native balances changes by \<open>d\<close>, that of the header only the pool of identifiers changes, and that from
  protocol version 10 no account falls below a sequence number it had, not even by being merged and created
  again. The changes of single entries are collected in a locale of operations that keep key, balance and
  sequence number, interpreted for the liabilities and the sub-entries.
\<close>

named_theorems effect_intros

definition entryLumens :: "LedgerEntry \<Rightarrow> int" where
  "entryLumens e = (case entryData e of ACCOUNT acc \<Rightarrow> sint (accBalance acc) | _ \<Rightarrow> 0)"

definition entrySeq :: "LedgerEntry \<Rightarrow> int" where
  "entrySeq e = (case entryData e of ACCOUNT acc \<Rightarrow> sint (seqNum acc) | _ \<Rightarrow> 0)"

definition lumens :: "LedgerTxn \<Rightarrow> int" where
  "lumens ltx = (\<Sum>(k, e) \<leftarrow> ltxEntries ltx. entryLumens e)"

definition ledgerWf :: "LedgerTxn \<Rightarrow> bool" where
  "ledgerWf ltx \<longleftrightarrow> distinct (map fst (ltxEntries ltx)) \<and>
     list_all (\<lambda>(k, e). LedgerEntryKey e = k \<and> 0 \<le> entryLumens e) (ltxEntries ltx)"

definition startSeq :: "LedgerTxn \<Rightarrow> int" where
  "startSeq ltx = sint (getStartingSequenceNumber (ltxHeader ltx))"

definition seqFloor :: "AccountID \<Rightarrow> int \<Rightarrow> LedgerTxn \<Rightarrow> bool" where
  "seqFloor a n ltx =
     (case loadEntry ltx (AccountKey a) of None \<Rightarrow> n \<le> startSeq ltx | Some e \<Rightarrow> n \<le> entrySeq e)"

definition sameHeader :: "LedgerHeader \<Rightarrow> LedgerHeader \<Rightarrow> bool" where
  "sameHeader h h' \<longleftrightarrow> h' = h\<lparr>idPool := idPool h'\<rparr>"

definition moves :: "int \<Rightarrow> LedgerTxn \<Rightarrow> LedgerTxn \<Rightarrow> bool" where
  "moves d ltx ltx' \<longleftrightarrow>
     (ledgerWf ltx \<longrightarrow>
        ledgerWf ltx' \<and> lumens ltx' = lumens ltx + d \<and> sameHeader (ltxHeader ltx) (ltxHeader ltx') \<and>
        (10 \<le> ledgerVersion (ltxHeader ltx) \<longrightarrow> (\<forall>a n. seqFloor a n ltx \<longrightarrow> seqFloor a n ltx')))"

subsection \<open>The relation\<close>

lemma sameHeader_fields:
  assumes "sameHeader h h'"
  shows "ledgerVersion h' = ledgerVersion h" "ledgerSeq h' = ledgerSeq h" "totalCoins h' = totalCoins h"
    "feePool h' = feePool h" "baseFee h' = baseFee h" "baseReserve h' = baseReserve h" "closeTime h' = closeTime h"
  using assms by (cases h; cases h'; simp add: sameHeader_def)+

lemma sameHeader_refl [simp]: "sameHeader h h"
  by (simp add: sameHeader_def)

lemma sameHeader_idPool [simp]: "sameHeader h (h\<lparr>idPool := i\<rparr>)"
  by (simp add: sameHeader_def)

lemma sameHeader_trans: "sameHeader h h' \<Longrightarrow> sameHeader h' h'' \<Longrightarrow> sameHeader h h''"
  by (cases h; cases h'; cases h'') (simp add: sameHeader_def)

lemma sameHeader_start: "sameHeader (ltxHeader l) (ltxHeader l') \<Longrightarrow> startSeq l' = startSeq l"
  by (simp add: startSeq_def getStartingSequenceNumber_def sameHeader_fields(2))

lemma moves_refl [simp]: "moves 0 ltx ltx"
  by (simp add: moves_def)

lemma moves_trans:
  assumes "moves d l1 l2" "moves e l2 l3" "d + e = f"
  shows "moves f l1 l3"
proof -
  have "sameHeader (ltxHeader l1) (ltxHeader l2) \<Longrightarrow> ledgerVersion (ltxHeader l2) = ledgerVersion (ltxHeader l1)"
    by (rule sameHeader_fields(1))
  then show ?thesis
    using assms unfolding moves_def by (auto intro: sameHeader_trans)
qed

lemma moves0_trans: "moves 0 l1 l2 \<Longrightarrow> moves d l2 l3 \<Longrightarrow> moves d l1 l3"
  by (erule moves_trans) simp_all

lemma movesD:
  assumes "moves d ltx ltx'" "ledgerWf ltx"
  shows "ledgerWf ltx'" "lumens ltx' = lumens ltx + d" "sameHeader (ltxHeader ltx) (ltxHeader ltx')"
    "10 \<le> ledgerVersion (ltxHeader ltx) \<Longrightarrow> seqFloor a n ltx \<Longrightarrow> seqFloor a n ltx'"
  using assms by (auto simp: moves_def)

text \<open>Well-formedness may be assumed of the first ledger.\<close>

lemma movesI: "(ledgerWf ltx \<Longrightarrow> moves d ltx ltx') \<Longrightarrow> moves d ltx ltx'"
  by (auto simp: moves_def)

subsection \<open>Single entries\<close>

lemma loadEntry_key: "ledgerWf ltx \<Longrightarrow> loadEntry ltx k = Some e \<Longrightarrow> LedgerEntryKey e = k"
  by (auto simp: ledgerWf_def loadEntry_def list_all_iff dest!: map_of_SomeD)

lemma loadEntry_nonneg: "ledgerWf ltx \<Longrightarrow> loadEntry ltx k = Some e \<Longrightarrow> 0 \<le> entryLumens e"
  by (auto simp: ledgerWf_def loadEntry_def list_all_iff dest!: map_of_SomeD)

definition optLumens :: "LedgerEntry option \<Rightarrow> int" where
  "optLumens x = (case x of None \<Rightarrow> 0 | Some e \<Rightarrow> entryLumens e)"

lemma sum_update:
  "distinct (map fst xs) \<Longrightarrow>
   (\<Sum>(k, e) \<leftarrow> AList.update k' e' xs. entryLumens e) =
     (\<Sum>(k, e) \<leftarrow> xs. entryLumens e) - optLumens (map_of xs k') + entryLumens e'"
  by (induction xs) (auto simp: optLumens_def split: option.splits dest: map_of_SomeD)

lemma sum_delete:
  "distinct (map fst xs) \<Longrightarrow>
   (\<Sum>(k, e) \<leftarrow> AList.delete k' xs. entryLumens e) = (\<Sum>(k, e) \<leftarrow> xs. entryLumens e) - optLumens (map_of xs k')"
proof (induction xs)
  case (Cons x xs)
  moreover have "AList.delete k' xs = xs" "map_of xs k' = None" if "fst x = k'"
    using that Cons.prems by (auto simp: delete_idem map_of_eq_None_iff)
  ultimately show ?case by (cases x) (auto simp: optLumens_def AList.delete_simps)
qed (simp add: optLumens_def)

lemma set_update_cases: "x \<in> set (AList.update k v xs) \<Longrightarrow> x = (k, v) \<or> x \<in> set xs"
  by (induction xs) (auto split: if_splits)

lemma wf_store: "ledgerWf ltx \<Longrightarrow> LedgerEntryKey e = k \<Longrightarrow> 0 \<le> entryLumens e \<Longrightarrow> ledgerWf (storeEntry ltx k e)"
  by (auto simp: ledgerWf_def storeEntry_def distinct_update list_all_iff dest!: set_update_cases)

lemma wf_erase: "ledgerWf ltx \<Longrightarrow> ledgerWf (eraseEntry ltx k)"
  by (auto simp: ledgerWf_def eraseEntry_def distinct_delete list_all_iff AList.delete_eq distinct_map_filter)

lemma store_moves:
  assumes "loadEntry ltx k = Some e" "LedgerEntryKey e' = LedgerEntryKey e" "entrySeq e \<le> entrySeq e'"
    and "entryLumens e' = entryLumens e + d" "0 \<le> entryLumens e \<Longrightarrow> 0 \<le> entryLumens e'"
  shows "moves d ltx (storeEntry ltx k e')"
proof (rule movesI)
  assume wf: "ledgerWf ltx"
  have "LedgerEntryKey e' = k" using loadEntry_key [OF wf assms(1)] assms(2) by simp
  moreover have "lumens (storeEntry ltx k e') = lumens ltx + d"
    using wf assms(1,4) by (simp add: lumens_def storeEntry_def sum_update ledgerWf_def optLumens_def loadEntry_def)
  moreover have "seqFloor a n (storeEntry ltx k e')" if "seqFloor a n ltx" for a n
    using that assms(1,3) by (auto simp: seqFloor_def loadEntry_store startSeq_def split: option.splits)
  moreover have "0 \<le> entryLumens e'" using loadEntry_nonneg [OF wf assms(1)] assms(5) by simp
  ultimately show ?thesis using wf by (simp add: moves_def wf_store)
qed

lemma create_moves:
  assumes "createEntry ltx e = Inr ltx'" "\<And>acc. entryData e = ACCOUNT acc \<Longrightarrow> startSeq ltx \<le> sint (seqNum acc)"
    and "entryLumens e = d" "0 \<le> d"
  shows "moves d ltx ltx'"
proof (rule movesI)
  assume wf: "ledgerWf ltx"
  have new: "loadEntry ltx (LedgerEntryKey e) = None" and l: "ltx' = storeEntry ltx (LedgerEntryKey e) e"
    using assms(1) by (auto simp: createEntry_def throwIf_def err_simps split: if_splits)
  have "lumens ltx' = lumens ltx + d"
    using wf new assms(3) by (simp add: l lumens_def storeEntry_def sum_update ledgerWf_def optLumens_def loadEntry_def)
  moreover have "seqFloor a n ltx'" if "seqFloor a n ltx" for a n
  proof (cases "AccountKey a = LedgerEntryKey e")
    case True
    then obtain acc where "entryData e = ACCOUNT acc" by (auto simp: LedgerEntryKey_def split: EntryData.splits)
    then show ?thesis using that new True assms(2) by (auto simp: seqFloor_def l loadEntry_store entrySeq_def)
  next
    case False
    then show ?thesis using that by (simp add: seqFloor_def l loadEntry_store startSeq_def split: option.splits)
  qed
  ultimately show ?thesis using wf assms(3,4) by (simp add: moves_def wf_store l)
qed

lemma erase_moves:
  assumes "\<And>e. loadEntry ltx k = Some e \<Longrightarrow> entryLumens e = - d"
    and "loadEntry ltx k = None \<Longrightarrow> d = 0"
    and "\<And>e acc. loadEntry ltx k = Some e \<Longrightarrow> entryData e = ACCOUNT acc \<Longrightarrow> 10 \<le> ledgerVersion (ltxHeader ltx) \<Longrightarrow>
           sint (seqNum acc) \<le> startSeq ltx"
  shows "moves d ltx (eraseEntry ltx k)"
proof (rule movesI)
  assume wf: "ledgerWf ltx"
  have "lumens (eraseEntry ltx k) = lumens ltx + d"
    using wf assms(1,2)
    by (auto simp: lumens_def eraseEntry_def sum_delete ledgerWf_def optLumens_def loadEntry_def split: option.splits)
  moreover have "seqFloor a n (eraseEntry ltx k)" if "seqFloor a n ltx" "10 \<le> ledgerVersion (ltxHeader ltx)" for a n
  proof (cases "k = AccountKey a")
    case True
    then show ?thesis
    proof (cases "loadEntry ltx k")
      case (Some e)
      then obtain acc where "entryData e = ACCOUNT acc"
        using loadEntry_key [OF wf Some] True by (auto simp: LedgerEntryKey_def split: EntryData.splits)
      with that assms(3) [OF Some] Some True show ?thesis
        by (force simp: seqFloor_def loadEntry_erase startSeq_def entrySeq_def)
    qed (use that in \<open>simp add: seqFloor_def loadEntry_erase startSeq_def\<close>)
  next
    case False
    then show ?thesis using that by (simp add: seqFloor_def loadEntry_erase startSeq_def split: option.splits)
  qed
  ultimately show ?thesis using wf by (simp add: moves_def wf_erase)
qed

subsection \<open>Operations on one entry\<close>

definition sameCore :: "LedgerEntry \<Rightarrow> LedgerEntry \<Rightarrow> bool" where
  "sameCore e e' \<longleftrightarrow> LedgerEntryKey e' = LedgerEntryKey e \<and> entryLumens e' = entryLumens e \<and> entrySeq e' = entrySeq e"

lemma sameCore_refl [simp]: "sameCore e e"
  by (simp add: sameCore_def)

lemma sameCore_trans: "sameCore e e' \<Longrightarrow> sameCore e' e'' \<Longrightarrow> sameCore e e''"
  by (simp add: sameCore_def)

lemmas core_defs = sameCore_def LedgerEntryKey_def entryLumens_def entrySeq_def

lemma currentEntry_Inr: "currentEntry ltx h = Inr e \<longleftrightarrow> (\<exists>k. h = Some k \<and> loadEntry ltx k = Some e)"
  by (cases h) (auto simp: currentEntry_def split: option.splits)

lemma onEntry_Inr:
  "onEntry ltx k f = Inr (r, ltx') \<longleftrightarrow>
     (\<exists>e e'. loadEntry ltx k = Some e \<and> f e = Inr (r, e') \<and> ltx' = storeEntry ltx k e')"
  by (auto simp: onEntry_def currentEntry_Inr err_simps)

lemma throwIf_Inr [err_simps]: "throwIf c msg = Inr u \<longleftrightarrow> \<not> c"
  by (simp add: throwIf_def)

lemma onEntry_core:
  assumes "onEntry ltx k f = Inr (r, ltx')" "\<And>e e'. f e = Inr (r, e') \<Longrightarrow> sameCore e e'"
  shows "moves 0 ltx ltx'"
  using assms by (auto simp: onEntry_Inr sameCore_def intro!: store_moves)

locale neutral_entry_op =
  fixes f :: "LedgerHeader \<Rightarrow> LedgerEntry \<Rightarrow> 'd \<Rightarrow> ledger_error + 'a \<times> LedgerEntry"
  assumes neutral: "f h e x = Inr (r, e') \<Longrightarrow> sameCore e e'"
begin

lemma onEntry_moves: "onEntry ltx k (\<lambda>e. f h e x) = Inr (r, ltx') \<Longrightarrow> moves 0 ltx ltx'"
  by (erule onEntry_core) (rule neutral)

end

lemma sameCore_account:
  "entryData e = ACCOUNT acc \<Longrightarrow> accountID acc' = accountID acc \<Longrightarrow> accBalance acc' = accBalance acc \<Longrightarrow>
   seqNum acc' = seqNum acc \<Longrightarrow> sameCore e (e\<lparr>entryData := ACCOUNT acc'\<rparr>)"
  by (simp add: core_defs)

lemma sameCore_trustline:
  "entryData e = TRUSTLINE line \<Longrightarrow> tlAccountID line' = tlAccountID line \<Longrightarrow> tlAsset line' = tlAsset line \<Longrightarrow>
   sameCore e (e\<lparr>entryData := TRUSTLINE line'\<rparr>)"
  by (simp add: core_defs)

lemma sameCore_offer:
  "entryData e = OFFER oe \<Longrightarrow> sellerID oe' = sellerID oe \<Longrightarrow> offerID oe' = offerID oe \<Longrightarrow>
   sameCore e (e\<lparr>entryData := OFFER oe'\<rparr>)"
  by (simp add: core_defs)

lemma bindE_InrE: "bindE m f = Inr b \<Longrightarrow> (\<And>a. m = Inr a \<Longrightarrow> f a = Inr b \<Longrightarrow> P) \<Longrightarrow> P"
  by (auto simp: bindE_Inr)

interpretation buying_op: neutral_entry_op addBuyingLiabilities
proof
  fix h e x r e' assume "addBuyingLiabilities h e x = Inr (r, e')"
  then show "sameCore e e'"
    unfolding addBuyingLiabilities_def
    by (auto simp: sameCore_account sameCore_trustline Let_def elim!: bindE_InrE split: if_splits EntryData.splits)
qed

interpretation selling_op: neutral_entry_op addSellingLiabilities
proof
  fix h e x r e' assume "addSellingLiabilities h e x = Inr (r, e')"
  then show "sameCore e e'"
    unfolding addSellingLiabilities_def
    by (auto simp: sameCore_account sameCore_trustline Let_def elim!: bindE_InrE split: if_splits EntryData.splits)
qed

interpretation subentry_op: neutral_entry_op addNumEntries
proof
  fix h e x r e' assume "addNumEntries h e x = Inr (r, e')"
  then show "sameCore e e'"
    unfolding addNumEntries_def
    by (auto simp: sameCore_account sameCore_trustline Let_def elim!: bindE_InrE split: if_splits EntryData.splits)
qed

definition nativePart :: "Asset \<Rightarrow> int \<Rightarrow> int" where
  "nativePart a x = (if a = ASSET_TYPE_NATIVE then x else 0)"

lemma addBalance64_result:
  assumes "addBalance64 b d m = Inr (ok, b')"
  shows "if ok then sint b' = sint b + sint d \<and> 0 \<le> sint b' else b' = b"
proof (cases ok)
  case True
  have r: "0 \<le> sint b" "0 \<le> sint m" "d = 0 \<or> \<not> sint d < sint (- b)" "d = 0 \<or> \<not> sint (m - b) < sint d" "b' = b + d"
    using assms True by (auto simp: addBalance64_def err_simps split: if_splits)
  then show ?thesis
  proof (cases "d = 0")
    case False
    have "sint (- b) = - sint b" using r(1) by (simp add: sint_neg64)
    moreover have "sint (m - b) = sint m - sint b" using r(1,2) by (simp add: sint_sub_nonneg)
    ultimately have "0 \<le> sint b + sint d" "sint b + sint d \<le> sint m" using r False by auto
    then have "sint (b + d) = sint b + sint d"
      using sint_range(2) [of m] by (intro sint_add64) auto
    then show ?thesis using r True \<open>0 \<le> sint b + sint d\<close> by simp
  qed (use True in auto)
next
  case False
  then show ?thesis using assms by (auto simp: addBalance64_def err_simps split: if_splits)
qed


lemma addBalance_result:
  assumes "addBalance h e d = Inr (ok, e')"
  shows "LedgerEntryKey e' = LedgerEntryKey e \<and> entrySeq e' = entrySeq e \<and>
    entryLumens e' = entryLumens e + (if ok \<and> (\<exists>acc. entryData e = ACCOUNT acc) then sint d else 0) \<and>
    (0 \<le> entryLumens e \<longrightarrow> 0 \<le> entryLumens e')"
  using assms unfolding addBalance_def
  by (auto simp: setAccBalance_def setTlBalance_def core_defs elim!: bindE_InrE split: if_splits EntryData.splits
      dest!: addBalance64_result)

lemma accountKey_entry:
  "ledgerWf ltx \<Longrightarrow> loadEntry ltx (AccountKey a) = Some e \<Longrightarrow> \<exists>acc. entryData e = ACCOUNT acc \<and> accountID acc = a"
  by (drule (1) loadEntry_key) (auto simp: LedgerEntryKey_def split: EntryData.splits)

lemma trustKey_entry:
  "ledgerWf ltx \<Longrightarrow> loadEntry ltx (TrustLineKey a x) = Some e \<Longrightarrow> \<exists>line. entryData e = TRUSTLINE line"
  by (drule (1) loadEntry_key) (auto simp: LedgerEntryKey_def split: EntryData.splits)

lemma account_moves:
  assumes "onEntry ltx (AccountKey a) (\<lambda>e. addBalance h e d) = Inr (ok, ltx')"
  shows "moves (if ok then sint d else 0) ltx ltx'"
proof (rule movesI)
  assume wf: "ledgerWf ltx"
  obtain e e' where e: "loadEntry ltx (AccountKey a) = Some e" "addBalance h e d = Inr (ok, e')"
    "ltx' = storeEntry ltx (AccountKey a) e'" using assms by (auto simp: onEntry_Inr)
  show ?thesis using addBalance_result [OF e(2)] accountKey_entry [OF wf e(1)] e(1,3) by (auto intro!: store_moves)
qed

definition lineKey :: "TrustLineWrapper \<Rightarrow> bool" where
  "lineKey w \<longleftrightarrow> (\<forall>k. w = NonIssuerLine k \<longrightarrow> (\<exists>a x. k = TrustLineKey a x))"

lemma line_moves:
  assumes "lineAddBalance ltx w d = Inr (ok, ltx')" "lineKey w"
  shows "moves 0 ltx ltx'"
proof (rule movesI)
  assume wf: "ledgerWf ltx"
  show ?thesis
  proof (cases w)
    case (NonIssuerLine k)
    then obtain a x where k: "k = TrustLineKey a x" using assms(2) by (auto simp: lineKey_def)
    obtain e e' where e: "loadEntry ltx k = Some e" "addBalance (ltxHeader ltx) e d = Inr (ok, e')"
      "ltx' = storeEntry ltx k e'" using assms(1) NonIssuerLine by (auto simp: lineAddBalance_def onEntry_Inr)
    show ?thesis
      using addBalance_result [OF e(2)] trustKey_entry [OF wf e(1) [unfolded k]] e(1,3) by (auto intro!: store_moves)
  qed (use assms(1) in \<open>auto simp: lineAddBalance_def\<close>)
qed

lemma loadTrustLine_key: "loadTrustLine ltx a x = Inr w \<Longrightarrow> lineKey w"
  by (auto simp: loadTrustLine_def lineKey_def elim!: bindE_InrE split: if_splits)

lemma loadTrustLineIfNotNative_key: "loadTrustLineIfNotNative ltx a x = Inr w \<Longrightarrow> lineKey w"
  by (auto simp: loadTrustLineIfNotNative_def lineKey_def dest: loadTrustLine_key split: if_splits)

lemma loadTrustAndValidate_key: "loadTrustAndValidate ltx a x = Inr w \<Longrightarrow> lineKey w"
  by (auto simp: loadTrustAndValidate_def dest: loadTrustLine_key elim!: bindE_InrE)

lemma addAssetBalance_moves:
  assumes "addAssetBalance ltx a x w d = Inr (ok, ltx')" "lineKey w"
  shows "moves (if ok then nativePart x (sint d) else 0) ltx ltx'"
  using assms account_moves line_moves
  by (auto simp: addAssetBalance_def nativePart_def split: if_splits) fastforce+

lemma line_buying_moves: "lineAddBuyingLiabilities ltx w d = Inr (ok, ltx') \<Longrightarrow> moves 0 ltx ltx'"
  by (auto simp: lineAddBuyingLiabilities_def dest: buying_op.onEntry_moves split: TrustLineWrapper.splits)

lemma line_selling_moves: "lineAddSellingLiabilities ltx w d = Inr (ok, ltx') \<Longrightarrow> moves 0 ltx ltx'"
  by (auto simp: lineAddSellingLiabilities_def dest: selling_op.onEntry_moves split: TrustLineWrapper.splits)

lemma offerBranch_moves:
  "offerBuyingBranch ltx s x d = Inr (ok, ltx') \<Longrightarrow> moves 0 ltx ltx'"
  "offerSellingBranch ltx s x d = Inr (ok, ltx') \<Longrightarrow> moves 0 ltx ltx'"
  by (auto simp: offerBuyingBranch_def offerSellingBranch_def elim!: bindE_InrE split: if_splits
      dest: buying_op.onEntry_moves selling_op.onEntry_moves line_buying_moves line_selling_moves)

lemma liabilities_moves: "acquireOrReleaseLiabilities ltx e b = Inr ltx' \<Longrightarrow> moves 0 ltx ltx'"
  unfolding acquireOrReleaseLiabilities_def
  by (auto elim!: bindE_InrE dest!: offerBranch_moves intro: moves0_trans)

lemma releaseLiabilities_moves: "releaseLiabilities ltx e = Inr ltx' \<Longrightarrow> moves 0 ltx ltx'"
  by (auto simp: releaseLiabilities_def dest: liabilities_moves)

lemma acquireLiabilities_moves: "acquireLiabilities ltx e = Inr ltx' \<Longrightarrow> moves 0 ltx ltx'"
  by (auto simp: acquireLiabilities_def dest: liabilities_moves)

subsection \<open>Crossing an offer\<close>

lemma theOffer_Inr: "theOffer e = Inr oe \<longleftrightarrow> entryData e = OFFER oe"
  by (auto simp: theOffer_def split: EntryData.splits)

lemma theAccount_Inr: "theAccount e = Inr acc \<longleftrightarrow> entryData e = ACCOUNT acc"
  by (auto simp: theAccount_def split: EntryData.splits)

lemma setAmount_moves: "setAmount ltx k a = Inr ltx' \<Longrightarrow> moves 0 ltx ltx'"
  by (auto simp: setAmount_def currentEntry_Inr theOffer_Inr core_defs elim!: bindE_InrE intro!: store_moves)

lemma adjustOfferEntry_moves: "adjustOfferEntry ltx k acct x w y z = Inr ltx' \<Longrightarrow> moves 0 ltx ltx'"
  by (auto simp: adjustOfferEntry_def elim!: bindE_InrE dest: setAmount_moves)

lemma eraseOffer_moves:
  assumes "loadEntry ltx k = Some e" "entryData e = OFFER oe"
  shows "moves 0 ltx (eraseEntry ltx k)"
  using assms by (intro erase_moves) (auto simp: entryLumens_def)

lemma removeOffer_moves:
  assumes "removeOffer ltx k a = Inr ltx'" "loadEntry ltx k = Some e" "entryData e = OFFER oe"
  shows "moves 0 ltx ltx'"
  using assms(1) eraseOffer_moves [OF assms(2,3)]
  by (auto simp: removeOffer_def elim!: bindE_InrE dest: subentry_op.onEntry_moves intro: moves0_trans)

lemma settleV10_moves:
  assumes "settleV10 ltx a x w d msg = Inr ltx'" "lineKey w"
  shows "moves (nativePart x (sint d)) ltx ltx'"
  using assms addAssetBalance_moves
  by (fastforce simp: settleV10_def nativePart_def throwIf_Inr elim!: bindE_InrE split: if_splits)

lemma amountUpdate_moves:
  assumes "(if stays then bindE (setAmount l k a) (\<lambda>l'. adjustOfferEntry l' k acct x w y z) else setAmount l k 0) = Inr ltx'"
  shows "moves 0 l ltx'"
  using assms by (auto elim!: bindE_InrE split: if_splits dest!: setAmount_moves adjustOfferEntry_moves intro: moves0_trans)

lemma crossOfferV10_moves:
  assumes "crossOfferV10 ltx k maxW maxS path trail = Inr (c, ltx')" "loadEntry ltx k = Some e" "entryData e = OFFER oe"
  shows "moves (nativePart (buying oe) (sint (crossSheep c)) + nativePart (selling oe) (sint (- crossWheat c))) ltx ltx'"
proof -
  let ?acct = "accountIfNative (selling oe) (buying oe) (sellerID oe)"
  have cur: "currentEntry ltx (Some k) = Inr e" "theOffer e = Inr oe"
    using assms(2,3) by (simp_all add: currentEntry_Inr theOffer_Inr)
  obtain ltx1 ltx2 ltx3 ltx4 ltx6 sheepLine wheatLine e6 oe6 a and res :: ExchangeResultV10 where
    r: "releaseLiabilities ltx e = Inr ltx1"
      "loadTrustLineIfNotNative ltx1 (sellerID oe) (buying oe) = Inr sheepLine"
      "loadTrustLineIfNotNative ltx1 (sellerID oe) (selling oe) = Inr wheatLine"
      "adjustOfferEntry ltx1 k ?acct (selling oe) wheatLine (buying oe) sheepLine = Inr ltx2"
      "settleV10 ltx2 (sellerID oe) (buying oe) sheepLine (sheepSend10 res) ''overflowed sheep balance'' = Inr ltx3"
      "settleV10 ltx3 (sellerID oe) (selling oe) wheatLine (- wheatReceived10 res) ''overflowed wheat balance'' = Inr ltx4"
      "(if wheatStays res then bindE (setAmount ltx4 k a) (\<lambda>l. adjustOfferEntry l k ?acct (selling oe) wheatLine
          (buying oe) sheepLine) else setAmount ltx4 k 0) = Inr ltx6"
      "currentEntry ltx6 (Some k) = Inr e6" "theOffer e6 = Inr oe6"
      "(if amount oe6 = 0 then removeOffer ltx6 k (sellerID oe) else acquireLiabilities ltx6 e6) = Inr ltx'"
      "crossSheep c = sheepSend10 res" "crossWheat c = wheatReceived10 res"
    using assms(1) unfolding crossOfferV10_def Let_def cur bindE_simps
    by (auto simp: currentEntry_Inr theOffer_Inr elim!: bindE_InrE split del: if_split)
  have last: "moves 0 ltx6 ltx'"
    using r(8-10)
    by (auto simp: currentEntry_Inr theOffer_Inr split: if_splits dest: removeOffer_moves acquireLiabilities_moves)
  have "moves 0 ltx ltx2" using releaseLiabilities_moves [OF r(1)] adjustOfferEntry_moves [OF r(4)] by (rule moves0_trans)
  from moves0_trans [OF this settleV10_moves [OF r(5) loadTrustLineIfNotNative_key [OF r(2)]]]
  have "moves (nativePart (buying oe) (sint (sheepSend10 res))) ltx ltx3" .
  from moves_trans [OF this settleV10_moves [OF r(6) loadTrustLineIfNotNative_key [OF r(3)]] refl]
  have "moves (nativePart (buying oe) (sint (crossSheep c)) + nativePart (selling oe) (sint (- crossWheat c))) ltx ltx4"
    using r(11,12) by simp
  from moves_trans [OF this moves0_trans [OF amountUpdate_moves [OF r(7)] last] add_0_right] show ?thesis .
qed


lemma addedBalance_moves:
  "addAssetBalance ltx a x w d = Inr (True, ltx') \<Longrightarrow> lineKey w \<Longrightarrow> moves (nativePart x (sint d)) ltx ltx'"
  using addAssetBalance_moves [of ltx a x w d True] by simp

lemma nativePart_0 [simp]: "nativePart x 0 = 0"
  by (simp add: nativePart_def)

lemma crossOffer_moves:
  assumes "crossOffer ltx k maxW maxS trail = Inr (c, ltx')" "loadEntry ltx k = Some e" "entryData e = OFFER oe"
    and conv: "crossResult c \<noteq> eOfferCantConvert"
  shows "moves (nativePart (buying oe) (sint (crossSheep c)) + nativePart (selling oe) (sint (- crossWheat c))) ltx ltx'"
proof -
  have cur: "currentEntry ltx (Some k) = Inr e" "theOffer e = Inr oe"
    using assms(2,3) by (simp_all add: currentEntry_Inr theOffer_Inr)
  note eff = setAmount_moves removeOffer_moves [OF _ assms(2,3)] addedBalance_moves loadTrustLineIfNotNative_key
  obtain ltx1 ltx2 where "moves 0 ltx ltx1" "moves (nativePart (buying oe) (sint (crossSheep c))) ltx1 ltx2"
      "moves (nativePart (selling oe) (sint (- crossWheat c))) ltx2 ltx'"
    using assms(1) conv unfolding crossOffer_def Let_def cur bindE_simps
    by (auto elim!: bindE_InrE split: if_splits dest!: eff) (use moves_refl nativePart_0 in metis)+
  then show ?thesis by (blast intro: moves0_trans moves_trans)
qed

lemma crossBest_moves:
  assumes "crossBest ltx k maxW maxS path trail = Inr (c, ltx')" "loadEntry ltx k = Some e" "entryData e = OFFER oe"
    and "crossResult c \<noteq> eOfferCantConvert"
  shows "moves (nativePart (buying oe) (sint (crossSheep c)) - nativePart (selling oe) (sint (crossWheat c))) ltx ltx'"
proof -
  have "0 \<le> sint (crossWheat c)" using assms(1) by (auto simp: crossBest_def err_simps)
  then have neg: "sint (- crossWheat c) = - sint (crossWheat c)" by (rule sint_neg64)
  have "moves (nativePart (buying oe) (sint (crossSheep c)) + nativePart (selling oe) (sint (- crossWheat c))) ltx ltx'"
    using assms(1) crossOfferV10_moves [OF _ assms(2,3)] crossOffer_moves [OF _ assms(2,3) assms(4)]
    by (auto simp: crossBest_def elim!: bindE_InrE split: if_splits)
  then show ?thesis by (simp add: neg nativePart_def split: if_splits)
qed

subsection \<open>Converting through the book\<close>

lemma bestOfferLoop_found:
  "bestOfferLoop buy sell es best = Inr (Some (k, oe)) \<Longrightarrow>
   best = Some (k, oe) \<or> (\<exists>e. (k, e) \<in> set es \<and> entryData e = OFFER oe \<and> buying oe = buy \<and> selling oe = sell)"
  by (induction buy sell es best rule: bestOfferLoop.induct)
    (fastforce elim!: bindE_InrE split: EntryData.splits if_splits option.splits)+

lemma loadBestOffer_found:
  assumes "loadBestOffer ltx buy sell = Inr (Some (k, oe))" "ledgerWf ltx"
  shows "\<exists>e. loadEntry ltx k = Some e \<and> entryData e = OFFER oe \<and> buying oe = buy \<and> selling oe = sell"
proof -
  obtain e where "(k, e) \<in> set (ltxEntries ltx)" "entryData e = OFFER oe" "buying oe = buy" "selling oe = sell"
    using bestOfferLoop_found [OF assms(1) [unfolded loadBestOffer_def]] by auto
  then show ?thesis using assms(2) by (auto simp: ledgerWf_def loadEntry_def)
qed


definition converted :: "Asset \<Rightarrow> Asset \<Rightarrow> Conversion \<Rightarrow> int" where
  "converted sheep wheat cv = nativePart sheep (sint (sheepSent cv)) - nativePart wheat (sint (wheatGot cv))"

definition paid :: "Conversion \<Rightarrow> bool" where
  "paid cv \<longleftrightarrow> (wheatGot cv = 0 \<longrightarrow> sheepSent cv = 0)"

lemma flags_unchanged [simp]:
  "converted sheep wheat (cv\<lparr>convResult := r, convCrossSelf := x\<rparr>) = converted sheep wheat cv"
  "accounts s w S W (cv\<lparr>convResult := r, convCrossSelf := x\<rparr>) = accounts s w S W cv"
  "paid (cv\<lparr>convResult := r, convCrossSelf := x\<rparr>) = paid cv"
  by (simp_all add: converted_def accounts_def paid_def)

lemma extended_sums:
  assumes "accounts s w S W cv" "accounts (s - crossSheep c) (w - crossWheat c) S W (convExtended cv c)"
    and "0 \<le> sint (crossSheep c)" "0 \<le> sint (crossWheat c)"
  shows "sint (sheepSent (convExtended cv c)) = sint (sheepSent cv) + sint (crossSheep c)"
    "sint (wheatGot (convExtended cv c)) = sint (wheatGot cv) + sint (crossWheat c)"
proof -
  have "sint (s - crossSheep c) = sint s - sint (crossSheep c)" "sint (w - crossWheat c) = sint w - sint (crossWheat c)"
    using assms(1,3,4) by (simp_all add: sint_sub_nonneg accounts_def)
  then show "sint (sheepSent (convExtended cv c)) = sint (sheepSent cv) + sint (crossSheep c)"
    "sint (wheatGot (convExtended cv c)) = sint (wheatGot cv) + sint (crossWheat c)"
    using assms(1,2) by (simp_all add: accounts_def)
qed

lemma converted_extended:
  assumes "accounts s w S W cv" "accounts (s - crossSheep c) (w - crossWheat c) S W (convExtended cv c)"
    and "0 \<le> sint (crossSheep c)" "0 \<le> sint (crossWheat c)"
  shows "converted sheep wheat cv + (nativePart sheep (sint (crossSheep c)) - nativePart wheat (sint (crossWheat c))) =
    converted sheep wheat (convExtended cv c)"
  using extended_sums [OF assms] by (simp add: converted_def nativePart_def)

lemma paid_extended:
  assumes "paid cv" "accounts s w S W cv" "accounts (s - crossSheep c) (w - crossWheat c) S W (convExtended cv c)"
    and "0 \<le> sint (crossSheep c)" "0 \<le> sint (crossWheat c)" "crossWheat c = 0 \<longleftrightarrow> crossSheep c = 0"
  shows "paid (convExtended cv c)"
  unfolding paid_def
proof
  assume "wheatGot (convExtended cv c) = 0"
  then have "sint (wheatGot cv) + sint (crossWheat c) = 0" using extended_sums(2) [OF assms(2-5)] by simp
  moreover have "0 \<le> sint (wheatGot cv)" using assms(2) by (simp add: accounts_def)
  ultimately have "sint (wheatGot cv) = 0" "sint (crossWheat c) = 0" using assms(5) by linarith+
  then have "wheatGot cv = 0" "crossWheat c = 0" by simp_all
  then show "sheepSent (convExtended cv c) = 0" using assms(1,6) by (simp add: paid_def convExtended_def)
qed

text \<open>An exchange has both amounts zero or none, so wheat is never free and sheep never lost.\<close>

lemma exchangeV10_zero: "exchangeV10 p W w S s path = Inr r \<Longrightarrow> wheatReceived10 r = 0 \<longleftrightarrow> sheepSend10 r = 0"
  by (auto simp: exchangeV10_def applyPriceErrorThresholds_def elim!: bindE_InrE split: if_splits)

lemma performExchange_zero:
  "performExchange ltx oe wl sl w s = Inr ex \<Longrightarrow> exType ex \<noteq> REDUCED_TO_ZERO \<Longrightarrow> exWheat ex = 0 \<longleftrightarrow> exSheep ex = 0"
  by (auto simp: performExchange_def Let_def exchangeResultType_def elim!: bindE_InrE
      split: if_splits ExchangeResultType.splits)

lemma crossBest_zero:
  assumes "crossBest ltx k w s p trail = Inr (c, ltx')" "crossResult c \<noteq> eOfferCantConvert"
  shows "crossWheat c = 0 \<longleftrightarrow> crossSheep c = 0"
proof -
  have "crossWheat c = 0 \<longleftrightarrow> crossSheep c = 0" if "crossOfferV10 ltx k w s p trail = Inr (c, l)" for l
    using that unfolding crossOfferV10_def Let_def
    by (auto dest!: exchangeV10_zero elim!: bindE_InrE split del: if_split)
  moreover have "crossWheat c = 0 \<longleftrightarrow> crossSheep c = 0" if "crossOffer ltx k w s trail = Inr (c, l)" for l
    using that assms(2) unfolding crossOffer_def Let_def
    by (auto dest!: performExchange_zero elim!: bindE_InrE split: if_splits)
  ultimately show ?thesis using assms(1) by (auto simp: crossBest_def elim!: bindE_InrE split: if_splits)
qed

lemma convertLoop_moves:
  assumes run: "convertLoop f sheep wheat p m ltx s w cv = Inr (cv', ltx')" and wf: "ledgerWf ltx"
    and acc: "accounts s w S W cv" "S < 2 ^ 63" "W < 2 ^ 63" and start: "converted sheep wheat cv = 0"
    "paid cv"
  shows "\<exists>s' w'. moves (converted sheep wheat cv') ltx ltx' \<and> accounts s' w' S W cv' \<and> paid cv'"
proof (rule convertLoop_rule [where I = "\<lambda>l s w cv. moves (converted sheep wheat cv) ltx l \<and> accounts s w S W cv \<and> paid cv",
      OF run])
  show "moves (converted sheep wheat cv) ltx ltx \<and> accounts s w S W cv \<and> paid cv" using acc start by simp
next
  fix l k oe s w cv c l'
  assume best: "loadBestOffer l sheep wheat = Inr (Some (k, oe))"
    and cross: "crossBest l k w s p (convTrail cv) = Inr (c, l')" "crossResult c \<noteq> eOfferCantConvert"
    and "moves (converted sheep wheat cv) ltx l \<and> accounts s w S W cv \<and> paid cv"
  then have inv: "moves (converted sheep wheat cv) ltx l" "accounts s w S W cv" "paid cv" by simp_all
  obtain e where e: "loadEntry l k = Some e" "entryData e = OFFER oe" "buying oe = sheep" "selling oe = wheat"
    using loadBestOffer_found [OF best] movesD(1) inv(1) wf by blast
  have acc': "accounts (s - crossSheep c) (w - crossWheat c) S W (convExtended cv c)"
    using accounts_cross [OF inv(2) acc(2,3) cross] by (simp add: convExtended_def)
  have nn: "0 \<le> sint (crossSheep c)" "0 \<le> sint (crossWheat c)" using cross(1) by (auto simp: crossBest_def err_simps)
  have "paid (convExtended cv c)" using paid_extended [OF inv(3,2) acc' nn crossBest_zero [OF cross]] .
  with converted_extended [OF inv(2) acc' nn]
  show "moves (converted sheep wheat (convExtended cv c)) ltx l' \<and>
      accounts (s - crossSheep c) (w - crossWheat c) S W (convExtended cv c) \<and> paid (convExtended cv c)"
    using moves_trans [OF inv(1) crossBest_moves [OF cross(1) e(1,2) cross(2)]] e(3,4) acc' by simp
qed simp

lemma convertWithOffers_moves:
  assumes run: "convertWithOffers ltx sheep maxS wheat maxW path f m = Inr (cv, ltx')"
    and wf: "ledgerWf ltx"
  shows "moves (converted sheep wheat cv) ltx ltx' \<and> 0 \<le> sint (sheepSent cv) \<and> 0 \<le> sint (wheatGot cv) \<and> paid cv"
proof -
  let ?cv = "\<lparr>convResult = eOK, convCrossSelf = False, sheepSent = 0, wheatGot = 0, convTrail = []\<rparr>"
  have zero: "converted sheep wheat ?cv = 0" "paid ?cv" by (simp_all add: converted_def paid_def)
  show ?thesis
  proof (cases "0 < sint maxW \<and> 0 < sint maxS")
    case True
    have start: "accounts maxS maxW (sint maxS) (sint maxW) ?cv" using True by (simp add: accounts_def)
    from True run have "convertLoop f sheep wheat path m ltx maxS maxW ?cv = Inr (cv, ltx')"
      by (simp add: convertWithOffers_def del: convertLoop.simps)
    from convertLoop_moves [OF this wf start sint_range(2) sint_range(2) zero] show ?thesis
      by (auto simp: accounts_def)
  next
    case False
    with run have "cv = ?cv" "ltx' = ltx"
      by (auto simp: convertWithOffers_def simp del: convertLoop.simps split: if_splits)
    with zero show ?thesis by auto
  qed
qed

end
