(* ===== verification/Operation_Effects.thy ===== *)
theory Operation_Effects
  imports Ledger_Effects
begin

text \<open>
  Every operation, when it succeeds after its validity check, keeps the ledger well formed, moves no lumens in or
  out of it and lowers no sequence number: the relation \<open>moves 0\<close> of the ledger before and after.
\<close>

subsection \<open>Erasing by kind of key\<close>

lemma offerKey_entry:
  "ledgerWf ltx \<Longrightarrow> loadEntry ltx (OfferKey a i) = Some e \<Longrightarrow> \<exists>oe. entryData e = OFFER oe"
  by (drule (1) loadEntry_key) (auto simp: LedgerEntryKey_def split: EntryData.splits)

lemma dataKey_entry:
  "ledgerWf ltx \<Longrightarrow> loadEntry ltx (DataKey a n) = Some e \<Longrightarrow> \<exists>d. entryData e = DATA d"
  by (drule (1) loadEntry_key) (auto simp: LedgerEntryKey_def split: EntryData.splits)

lemma eraseKey_moves:
  "moves 0 ltx (eraseEntry ltx (OfferKey a i))"
  "moves 0 ltx (eraseEntry ltx (DataKey a n))"
  "moves 0 ltx (eraseEntry ltx (TrustLineKey a x))"
  by (rule movesI; rule erase_moves;
      auto simp: entryLumens_def dest: offerKey_entry dataKey_entry trustKey_entry)+

lemma sourceEntry_Inr:
  "sourceEntry ltx src = Inr e \<longleftrightarrow> 8 \<le> ledgerVersion (ltxHeader ltx) \<and> loadEntry ltx (AccountKey src) = Some e"
  by (auto simp: sourceEntry_def loadSourceAccount_def accountExists_def currentEntry_Inr err_simps not_less
      split: if_splits)

lemma sourceAddNumEntries_moves: "sourceAddNumEntries ltx src n = Inr (r, ltx') \<Longrightarrow> moves 0 ltx ltx'"
  by (auto simp: sourceAddNumEntries_def elim!: bindE_InrE dest: subentry_op.onEntry_moves)

subsection \<open>Accounts and data\<close>

lemma CreateAccount_moves:
  assumes "CreateAccount_doApply src op ltx = Inr (True, r, ltx')" "CreateAccount_doCheckValid src op = None"
  shows "moves 0 ltx ltx'"
proof -
  let ?h = "ltxHeader ltx"
  have pos: "0 < sint (startingBalance op)"
    using assms(2) by (auto simp: CreateAccount_doCheckValid_def split: if_splits)
  from assms(1) obtain ltx1 where r:
    "onEntry ltx (AccountKey src) (\<lambda>e. addBalance ?h e (- startingBalance op)) = Inr (True, ltx1)"
    "createEntry ltx1 (newAccountEntry ?h op) = Inr ltx'"
    unfolding CreateAccount_doApply_def Let_def by (auto simp: err_simps split: if_splits)
  have "ltxHeader ltx1 = ?h" using r(1) by (auto simp: onEntry_Inr)
  then have "startSeq ltx1 = sint (getStartingSequenceNumber ?h)" by (simp add: startSeq_def)
  then have "moves (sint (startingBalance op)) ltx1 ltx'"
    using pos by (intro create_moves [OF r(2)]) (auto simp: newAccountEntry_def entryLumens_def)
  from moves_trans [OF account_moves [OF r(1)] this, of 0] show ?thesis using pos by (simp add: sint_neg64)
qed

lemma Merge_moves:
  assumes "Merge_doApply src dest ltx = Inr (True, r, ltx')" "Merge_doCheckValid src dest = None"
  shows "moves 0 ltx ltx'"
proof (rule movesI)
  assume wf: "ledgerWf ltx"
  let ?h = "ltxHeader ltx"
  have ne: "src \<noteq> dest" using assms(2) by (auto simp: Merge_doCheckValid_def split: if_splits)
  from assms(1) obtain e acc ltx1 where r: "sourceEntry ltx src = Inr e" "theAccount e = Inr acc"
    "\<not> (10 \<le> ledgerVersion ?h \<and> sint (getStartingSequenceNumber ?h) \<le> sint (seqNum acc))"
    "onEntry ltx (AccountKey dest) (\<lambda>e. addBalance ?h e (accBalance acc)) = Inr (True, ltx1)"
    "ltx' = eraseEntry ltx1 (AccountKey src)"
    unfolding Merge_doApply_def Let_def
    by (auto simp: sourceEntry_Inr elim!: bindE_InrE split: if_splits option.splits)
  have l: "loadEntry ltx1 (AccountKey src) = Some e" "ltxHeader ltx1 = ?h"
    using r(1,4) ne by (auto simp: sourceEntry_Inr onEntry_Inr loadEntry_store)
  have "moves (- sint (accBalance acc)) ltx1 ltx'"
    unfolding r(5) using l r(2,3)
    by (intro erase_moves) (auto simp: entryLumens_def theAccount_Inr startSeq_def)
  from moves_trans [OF account_moves [OF r(4)] this, of 0] show "moves 0 ltx ltx'" by simp
qed

lemma BumpSequence_moves:
  assumes "BumpSequence_doApply src n ltx = Inr (True, r, ltx')"
  shows "moves 0 ltx ltx'"
  using assms unfolding BumpSequence_doApply_def
  by (auto simp: sourceEntry_Inr theAccount_Inr core_defs elim!: bindE_InrE intro!: store_moves split: if_splits)

lemma addSubentryOr_moves:
  assumes "addSubentryOr low ltx src cont = Inr (True, r, ltx')" "\<And>l. cont l = Inr (True, r, ltx') \<Longrightarrow> moves 0 l ltx'"
  shows "moves 0 ltx ltx'"
  using assms unfolding addSubentryOr_def
  by (auto elim!: bindE_InrE split: AddSubentryResult.splits dest!: sourceAddNumEntries_moves intro: moves0_trans)

lemma createOther_moves:
  assumes "createEntry ltx e = Inr ltx'" "\<And>acc. entryData e \<noteq> ACCOUNT acc"
  shows "moves 0 ltx ltx'"
  using assms by (intro create_moves [OF assms(1)]) (auto simp: entryLumens_def split: EntryData.splits)

lemma ManageData_moves:
  assumes "ManageData_doApply src op ltx = Inr (True, r, ltx')"
  shows "moves 0 ltx ltx'"
proof (cases "mdValue op")
  case None
  then show ?thesis
    using assms eraseKey_moves(2) unfolding ManageData_doApply_def Let_def
    by (auto elim!: bindE_InrE split: if_splits dest!: sourceAddNumEntries_moves intro: moves0_trans)
next
  case (Some v)
  show ?thesis
  proof (cases "loadEntry ltx (DataKey src (mdName op))")
    case None
    then show ?thesis
      using assms Some unfolding ManageData_doApply_def Let_def
      by (auto elim!: bindE_InrE addSubentryOr_moves intro: createOther_moves)
  next
    case (Some e)
    then show ?thesis
      using assms \<open>mdValue op = Some v\<close> unfolding ManageData_doApply_def Let_def
      by (auto simp: core_defs elim!: bindE_InrE split: EntryData.splits intro!: store_moves)
  qed
qed


subsection \<open>Options and trust lines\<close>

lemma options_core:
  "changeFlags f m acc = Some acc' \<Longrightarrow>
     accountID acc' = accountID acc \<and> accBalance acc' = accBalance acc \<and> seqNum acc' = seqNum acc"
  "accountID (setThreshold i v acc) = accountID acc \<and> accBalance (setThreshold i v acc) = accBalance acc \<and>
     seqNum (setThreshold i v acc) = seqNum acc"
  "accountID (normalizeSigners acc) = accountID acc \<and> accBalance (normalizeSigners acc) = accBalance acc \<and>
     seqNum (normalizeSigners acc) = seqNum acc"
  by (auto simp: changeFlags_def setThreshold_def normalizeSigners_def split: option.splits if_splits)

lemma thresholds_core:
  "accountID (setDomainAndThresholds op acc) = accountID acc \<and>
   accBalance (setDomainAndThresholds op acc) = accBalance acc \<and> seqNum (setDomainAndThresholds op acc) = seqNum acc"
  by (simp add: setDomainAndThresholds_def options_core split: option.splits)

lemma onAccountOf_core:
  assumes "onAccountOf e f = Inr e'"
    and "\<And>a. accountID (f a) = accountID a \<and> accBalance (f a) = accBalance a \<and> seqNum (f a) = seqNum a"
  shows "sameCore e e'"
  using assms by (auto simp: onAccountOf_def theAccount_Inr elim!: bindE_InrE intro!: sameCore_account)

lemma releaseSubentries_core: "releaseSubentries n h e = Inr e' \<Longrightarrow> sameCore e e'"
  by (induction n h e rule: releaseSubentries.induct)
    (fastforce elim!: bindE_InrE dest: subentry_op.neutral intro: sameCore_trans)+

lemma changeSigner_core: "changeSigner h s e = Inr (r, e') \<Longrightarrow> sameCore e e'"
  unfolding changeSigner_def Let_def
  by (auto elim!: bindE_InrE split: if_splits prod.splits AddSubentryResult.splits
      dest!: onAccountOf_core releaseSubentries_core subentry_op.neutral simp: options_core) (blast intro: sameCore_trans)+


lemma storeAccount_moves:
  assumes "loadEntry ltx k = Some e" "entryData e = ACCOUNT acc"
    and "accountID acc' = accountID acc \<and> accBalance acc' = accBalance acc \<and> seqNum acc' = seqNum acc"
  shows "moves 0 ltx (storeEntry ltx k (e\<lparr>entryData := ACCOUNT acc'\<rparr>))"
  using assms by (intro store_moves [OF assms(1)]) (simp_all add: core_defs)

lemma SetOptions_moves:
  assumes "SetOptions_doApply src op ltx = Inr (True, r, ltx')"
  shows "moves 0 ltx ltx'"
proof -
  let ?k = "AccountKey src"
  from assms obtain e acc0 acc1 acc2 acc3 where r: "loadEntry ltx ?k = Some e" "entryData e = ACCOUNT acc0"
    "acc1 = (case soInflationDest op of None \<Rightarrow> acc0 | Some d \<Rightarrow> acc0\<lparr>inflationDest := Some d\<rparr>)"
    "changeFlags (\<lambda>old m. and old (not m)) (clearFlags op) acc1 = Some acc2"
    "changeFlags (\<lambda>old m. or old m) (setFlags op) acc2 = Some acc3"
    and last: "(let ltx1 = storeEntry ltx ?k (e\<lparr>entryData := ACCOUNT (setDomainAndThresholds op acc3)\<rparr>) in
       ltx' = ltx1 \<or> (\<exists>s x. onEntry ltx1 ?k (changeSigner (ltxHeader ltx) s) = Inr (x, ltx')))"
    unfolding SetOptions_doApply_def Let_def
    by (auto simp: sourceEntry_Inr theAccount_Inr elim!: bindE_InrE split: if_splits option.splits) blast+
  have "accountID acc1 = accountID acc0 \<and> accBalance acc1 = accBalance acc0 \<and> seqNum acc1 = seqNum acc0"
    using r(3) by (simp split: option.splits)
  then have "moves 0 ltx (storeEntry ltx ?k (e\<lparr>entryData := ACCOUNT (setDomainAndThresholds op acc3)\<rparr>))"
    using options_core(1) [OF r(4)] options_core(1) [OF r(5)] thresholds_core [of op acc3]
    by (intro storeAccount_moves [OF r(1,2)]) simp
  then show ?thesis
    using last by (auto simp: Let_def intro: moves0_trans dest: onEntry_core [OF _ changeSigner_core])
qed

lemma ChangeTrust_moves:
  assumes "ChangeTrust_doApply src op ltx = Inr (True, r, ltx')"
  shows "moves 0 ltx ltx'"
proof -
  have old: "moves 0 ltx ltx'" if "changeExistingTrust src op i ltx = Inr (True, r, ltx')" for i
    using that eraseKey_moves(3) [of ltx src "ctLine op"] unfolding changeExistingTrust_def Let_def
    by (auto simp: currentEntry_Inr core_defs elim!: bindE_InrE split: if_splits EntryData.splits
        dest!: sourceAddNumEntries_moves intro: moves0_trans intro!: store_moves)
  have new: "moves 0 ltx ltx'" if "createTrust src op i ltx = Inr (True, r, ltx')" for i
    using that unfolding createTrust_def Let_def
    by (auto simp: newTrustLine_def elim!: bindE_InrE addSubentryOr_moves split: if_splits option.splits
        intro: createOther_moves)
  show ?thesis
    using assms old new unfolding ChangeTrust_doApply_def Let_def by (auto elim!: bindE_InrE split: if_splits)
qed

lemma revokeOffers_moves:
  assumes "revokeOffers a x offers ltx = Inr ltx'" "\<forall>(k, e) \<in> set offers. \<exists>b i. k = OfferKey b i"
  shows "moves 0 ltx ltx'"
  using assms
proof (induction offers arbitrary: ltx)
  case (Cons ke offers)
  obtain k e where ke: "ke = (k, e)" by force
  from Cons.prems(2) ke obtain b i where k: "k = OfferKey b i" by auto
  from Cons.prems(1) ke obtain ltx1 ltx2 rr where r: "releaseLiabilities ltx e = Inr ltx1"
    "onEntry ltx1 (AccountKey a) (\<lambda>e. addNumEntries (ltxHeader ltx) e (- 1)) = Inr (rr, ltx2)"
    "revokeOffers a x offers (eraseEntry ltx2 k) = Inr ltx'"
    by (auto elim!: bindE_InrE)
  have "moves 0 (eraseEntry ltx2 k) ltx'" using Cons.IH [OF r(3)] Cons.prems(2) by simp
  then show ?case
    using releaseLiabilities_moves [OF r(1)] subentry_op.onEntry_moves [OF r(2)] eraseKey_moves(1) k
    by (blast intro: moves0_trans)
qed simp

lemma setAuthorized_moves:
  assumes "onEntry ltx k (\<lambda>t. bindE (setAuthorized t b) (\<lambda>t'. Inr ((), t'))) = Inr (u, ltx')"
  shows "moves 0 ltx ltx'"
  using assms
  by (rule onEntry_core)
    (auto simp: setAuthorized_def sameCore_trustline elim!: bindE_InrE split: EntryData.splits)

lemma AllowTrust_moves:
  assumes "AllowTrust_doApply src op ltx = Inr (True, r, ltx')"
  shows "moves 0 ltx ltx'"
proof (rule movesI)
  assume wf: "ledgerWf ltx"
  let ?ci = "allowTrustAsset src op"
  have keys: "\<forall>(k, e) \<in> set (loadOffersByAccountAndAsset ltx a x). \<exists>b i. k = OfferKey b i" for a x
    using wf by (fastforce simp: loadOffersByAccountAndAsset_def ledgerWf_def list_all_iff LedgerEntryKey_def
        split: EntryData.split_asm)
  show "moves 0 ltx ltx'"
    using assms unfolding AllowTrust_doApply_def Let_def
    by (auto elim!: bindE_InrE split: if_splits option.splits
        dest!: revokeOffers_moves [OF _ keys] setAuthorized_moves) (blast intro: moves0_trans)+
qed


subsection \<open>Payments\<close>

lemma payDestinationAsset_moves:
  assumes "payDestinationAsset op ltx = Inr (None, ltx')"
  shows "moves (nativePart (destAsset op) (sint (destAmount op))) ltx ltx'"
  using assms account_moves [of ltx "ppDestination op" "ltxHeader ltx" "destAmount op" True ltx'] line_moves
    loadTrustLine_key
  unfolding payDestinationAsset_def Let_def
  by (fastforce simp: nativePart_def elim!: bindE_InrE split: if_splits)

lemma paySourceAsset_moves:
  assumes "paySourceAsset src op x n ltx = Inr (None, ltx')" "0 \<le> sint n"
  shows "moves (- nativePart x (sint n)) ltx ltx'"
  using assms(1) sint_neg64 [OF assms(2)] account_moves [of ltx src "ltxHeader ltx" "- n" True ltx'] line_moves
    loadTrustLine_key
  unfolding paySourceAsset_def Let_def
  by (fastforce simp: nativePart_def assertE_Inr elim!: bindE_InrE split: if_splits)

lemma pathLoop_moves:
  assumes "pathLoop src path curB n offers ltx = Inr (Inr (x, m, offers'), ltx')" "ledgerWf ltx" "0 \<le> sint n"
  shows "moves (nativePart x (sint m) - nativePart curB (sint n)) ltx ltx' \<and> 0 \<le> sint m"
  using assms
proof (induction path arbitrary: curB n offers ltx)
  case (Cons curA path)
  show ?case
  proof (cases "curA = curB")
    case True
    then show ?thesis using Cons by simp
  next
    case False
    from Cons.prems(1) False obtain cap cv ltx1 where r:
      "convertWithOffers ltx curA INT64_MAX curB n True (Some (pathFilter src)) cap = Inr (cv, ltx1)"
      "n = wheatGot cv"
      "pathLoop src path curA (sheepSent cv) (convTrail cv @ offers) ltx1 = Inr (Inr (x, m, offers'), ltx')"
      by (auto simp: Let_def elim!: bindE_InrE split: if_splits ConvertResult.splits)
    have c: "moves (converted curA curB cv) ltx ltx1" "0 \<le> sint (sheepSent cv)"
      using convertWithOffers_moves [OF r(1) Cons.prems(2)] by simp_all
    have "moves (nativePart x (sint m) - nativePart curA (sint (sheepSent cv))) ltx1 ltx' \<and> 0 \<le> sint m"
      using Cons.IH [OF r(3) movesD(1) [OF c(1) Cons.prems(2)] c(2)] .
    with moves_trans [OF c(1), of "nativePart x (sint m) - nativePart curA (sint (sheepSent cv))" ltx'] r(2)
    show ?thesis by (simp add: converted_def)
  qed
qed simp

lemma PathPayment_moves:
  assumes "PathPayment_doApply src op ltx = Inr (True, r, ltx')" "PathPayment_doCheckValid op = None"
  shows "moves 0 ltx ltx'"
proof (rule movesI)
  assume wf: "ledgerWf ltx"
  have pos: "0 \<le> sint (destAmount op)"
    using assms(2) by (auto simp: PathPayment_doCheckValid_def split: if_splits)
  from assms(1) obtain ltx1 ltx2 x n offers where r: "payDestinationAsset op ltx = Inr (None, ltx1)"
    "pathLoop src (rev (sendAsset op # ppPath op)) (destAsset op) (destAmount op) [] ltx1 = Inr (Inr (x, n, offers), ltx2)"
    "paySourceAsset src op x n ltx2 = Inr (None, ltx')"
    unfolding PathPayment_doApply_def
    by (auto elim!: bindE_InrE split: if_splits option.splits sum.splits)
  note d = payDestinationAsset_moves [OF r(1)]
  have p: "moves (nativePart x (sint n) - nativePart (destAsset op) (sint (destAmount op))) ltx1 ltx2" "0 \<le> sint n"
    using pathLoop_moves [OF r(2) movesD(1) [OF d wf] pos] by simp_all
  from moves_trans [OF moves_trans [OF d p(1) refl] paySourceAsset_moves [OF r(3) p(2)], of 0]
  show "moves 0 ltx ltx'" by simp
qed

lemma Payment_moves:
  assumes "Payment_doApply src op ltx = Inr (True, r, ltx')"
  shows "moves 0 ltx ltx'"
  using assms PathPayment_moves unfolding Payment_doApply_def Let_def
  by (auto elim!: bindE_InrE split: if_splits option.splits)


subsection \<open>Offers\<close>

lemma settleSource_moves:
  assumes "settleSource src x d msg ltx = Inr ltx'"
  shows "moves (nativePart x (sint d)) ltx ltx'"
proof -
  from assms have "moves (nativePart x (if True then sint d else 0)) ltx ltx'"
    unfolding settleSource_def nativePart_def
    by (auto simp: throwIf_Inr elim!: bindE_InrE split: if_splits dest: account_moves line_moves [OF _ loadTrustLine_key])
  then show ?thesis by simp
qed

lemma idPool_moves: "moves 0 ltx (ltx\<lparr>ltxHeader := (ltxHeader ltx)\<lparr>idPool := i\<rparr>\<rparr>)"
proof -
  let ?l = "ltx\<lparr>ltxHeader := (ltxHeader ltx)\<lparr>idPool := i\<rparr>\<rparr>"
  have "startSeq ?l = startSeq ltx" by (simp add: startSeq_def getStartingSequenceNumber_def)
  then show ?thesis by (simp add: moves_def ledgerWf_def lumens_def seqFloor_def loadEntry_def split: option.splits)
qed

lemma storeOffer_moves:
  assumes "storeOffer src creating oe claimed ltx = Inr (r, ltx')"
  shows "moves 0 ltx ltx'"
proof -
  let ?i = "idPool (ltxHeader ltx) + 1"
  let ?e = "offerLedgerEntry (if creating then oe\<lparr>offerID := ?i\<rparr> else oe)"
  let ?ltx1 = "if creating then ltx\<lparr>ltxHeader := (ltxHeader ltx)\<lparr>idPool := ?i\<rparr>\<rparr> else ltx"
  obtain ltx2 where r: "createEntry ?ltx1 ?e = Inr ltx2" "ltx' = ltx2 \<or> acquireLiabilities ltx2 ?e = Inr ltx'"
    using assms unfolding storeOffer_def Let_def generateID_def split
    by (cases "10 \<le> ledgerVersion (ltxHeader ltx)") (auto elim!: bindE_InrE split del: if_split)
  have "moves 0 ltx ?ltx1" by (simp add: idPool_moves)
  moreover have "moves 0 ?ltx1 ltx2" by (rule createOther_moves [OF r(1)]) (simp add: offerLedgerEntry_def)
  moreover have "moves 0 ltx2 ltx'" using r(2) acquireLiabilities_moves by auto
  ultimately show ?thesis by (blast intro: moves0_trans)
qed

lemma finishOffer_moves:
  assumes "finishOffer f src creating flags a claimed ltxOuter ltx = Inr (True, r, ltx')"
  shows "moves 0 ltx ltx'"
  using assms unfolding finishOffer_def
  by (auto elim!: bindE_InrE split: if_splits AddSubentryResult.splits dest!: sourceAddNumEntries_moves storeOffer_moves
      intro: moves0_trans)

lemma takeOffer_moves:
  assumes "takeOffer f src ltx = Inr (Some (flags, ltx'))"
  shows "moves 0 ltx ltx'"
  using assms eraseKey_moves(1) unfolding takeOffer_def Let_def
  by (auto elim!: bindE_InrE split: option.splits if_splits dest!: releaseLiabilities_moves intro: moves0_trans)

lemma manageCross_moves:
  assumes "manageCross f src passive maxS maxW ltx = Inr (Inr (a, claimed), ltx')" "ledgerWf ltx"
  shows "moves 0 ltx ltx'"
proof -
  from assms(1) obtain cap cv ltx1 where r:
    "convertWithOffers ltx (mSheep f) maxS (mWheat f) maxW False (Some (manageFilter f src passive)) cap = Inr (cv, ltx1)"
    "(if 0 < sint (wheatGot cv)
      then bindE (settleSource src (mWheat f) (wheatGot cv) ''offer claimed over limit'' ltx1)
             (settleSource src (mSheep f) (- sheepSent cv) ''offer sold more than balance'')
      else Inr ltx1) = Inr ltx'"
    unfolding manageCross_def Let_def by (auto elim!: bindE_InrE split: if_splits)
  have c: "moves (converted (mSheep f) (mWheat f) cv) ltx ltx1" "0 \<le> sint (sheepSent cv)" "0 \<le> sint (wheatGot cv)" "paid cv"
    using convertWithOffers_moves [OF r(1) assms(2)] by simp_all
  show ?thesis
  proof (cases "0 < sint (wheatGot cv)")
    case True
    then obtain ltx2 where s: "moves (nativePart (mWheat f) (sint (wheatGot cv))) ltx1 ltx2"
      "moves (nativePart (mSheep f) (sint (- sheepSent cv))) ltx2 ltx'"
      using r(2) by (auto elim!: bindE_InrE dest!: settleSource_moves)
    from moves_trans [OF moves_trans [OF c(1) s(1) refl] s(2), of 0] show ?thesis
      using sint_neg64 [OF c(2)] by (simp add: converted_def nativePart_def split: if_splits)
  next
    case False
    then have "wheatGot cv = 0" "sheepSent cv = 0" using c(3,4) by (auto simp: paid_def)
    then show ?thesis using c(1) r(2) by (simp add: converted_def)
  qed
qed


lemma ManageOffer_moves:
  assumes "ManageOffer_doApply src f ltx = Inr (True, r, ltx')"
  shows "moves 0 ltx ltx'"
proof (rule movesI)
  assume wf: "ledgerWf ltx"
  from assms obtain flags ltx1 where
    t: "(if mOfferID f \<noteq> 0 then takeOffer f src ltx
         else Inr (Some (if mSetPassiveOnCreate f then 1 else 0, ltx))) = Inr (Some (flags, ltx1))"
    and fin: "(\<exists>c. finishOffer f src c flags 0 [] ltx ltx1 = Inr (True, r, ltx')) \<or>
      (\<exists>p s w a cl ltx2 c. manageCross f src p s w ltx1 = Inr (Inr (a, cl), ltx2) \<and>
         finishOffer f src c flags a cl ltx ltx2 = Inr (True, r, ltx'))"
    unfolding ManageOffer_doApply_def Let_def
    by (auto elim!: bindE_InrE split: option.splits sum.splits prod.splits if_split_asm simp del: bindE_simps) blast+
  have m: "moves 0 ltx ltx1" using t takeOffer_moves by (auto split: if_splits)
  have wf1: "ledgerWf ltx1" using movesD(1) [OF m wf] .
  from fin have "moves 0 ltx1 ltx'"
    using finishOffer_moves manageCross_moves wf1 by (blast intro: moves0_trans)
  with m show "moves 0 ltx ltx'" by (rule moves0_trans)
qed

text \<open>All operations.\<close>

lemma doApply_moves:
  assumes "doApply src b ltx = Inr (True, r, ltx')" "doCheckValid src b (ledgerVersion (ltxHeader ltx)) = None"
  shows "moves 0 ltx ltx'"
  using assms
  by (cases b)
    (auto simp: doApply_def doCheckValid_def Inflation_doApply_def
      intro: CreateAccount_moves Payment_moves PathPayment_moves ManageOffer_moves SetOptions_moves ChangeTrust_moves
        AllowTrust_moves Merge_moves ManageData_moves BumpSequence_moves)

lemma opApply_moves:
  assumes "opApply C tx op ltx sc = Inr ((True, r, ltx'), sc')"
  shows "moves 0 ltx ltx'"
  using assms unfolding opApply_def opCheckValid_def Let_def
  by (auto elim!: bindE_InrE split: option.splits if_splits intro: doApply_moves)

end
