(* ===== verification/Example_Ledger.thy ===== *)
theory Example_Ledger
  imports Transaction_Frame
begin

text \<open>
  A small ledger of version 11 with two accounts, and a signed transaction of the first that pays the second: the
  concrete inputs on which the theorems about transactions are exercised.
\<close>

definition plainAccount :: "AccountID \<Rightarrow> int64 \<Rightarrow> int64 \<Rightarrow> LedgerEntry" where
  "plainAccount a b n = \<lparr>lastModifiedLedgerSeq = 1, entryData = ACCOUNT
     \<lparr>accountID = a, accBalance = b, seqNum = n, numSubEntries = 0, inflationDest = None, accFlags = 0,
      homeDomain = [], thresholds = [1, 0, 0, 0], signers = [], accExt = None\<rparr>\<rparr>"

definition payHeader :: LedgerHeader where
  "payHeader = \<lparr>ledgerVersion = 11, closeTime = 7, ledgerSeq = 5, totalCoins = 100000, feePool = 0, idPool = 3,
     baseFee = 100, baseReserve = 10, maxTxSetSize = 100\<rparr>"

definition payLedger :: "int64 \<Rightarrow> int64 \<Rightarrow> int64 \<Rightarrow> LedgerTxn" where
  "payLedger b1 b2 n = \<lparr>ltxHeader = payHeader,
     ltxEntries = [(AccountKey 1, plainAccount 1 b1 n), (AccountKey 2, plainAccount 2 b2 0)]\<rparr>"

definition payOp :: Operation where
  "payOp = \<lparr>opSourceAccount = None,
     opBody = PAYMENT \<lparr>payDestination = 2, payAsset = ASSET_TYPE_NATIVE, payAmount = 500\<rparr>\<rparr>"

definition payTx :: Transaction where
  "payTx = \<lparr>txSourceAccount = 1, txFee = 100, txSeqNum = 9, timeBounds = None, txOperations = [payOp]\<rparr>"

definition payEnvelope :: TransactionEnvelope where
  "payEnvelope = \<lparr>envTx = payTx, envSignatures = [\<lparr>hint = 1, signature = [42]\<rparr>], envContentsHash = 77\<rparr>"

definition exampleCrypto :: Crypto where
  "exampleCrypto = \<lparr>verifySig = (\<lambda>k s h. s = [42] \<and> h = 77), sha256 = (\<lambda>bs. of_nat (length bs))\<rparr>"

definition payChecker :: SignatureChecker where
  "payChecker = SignatureChecker_new 11 77 (envSignatures payEnvelope)"

definition noCheck :: invariant_check where
  "noCheck op r before after = Inr ()"

lemma pay_applies:
  "opApply exampleCrypto payTx payOp (payLedger 60000 40000 8) payChecker =
     Inr ((True, opINNER (paymentResult PAYMENT_SUCCESS), payLedger 59500 40500 8), payChecker)"
  by code_simp

lemma pay_transaction:
  "applyTransaction noCheck exampleCrypto payEnvelope (payLedger 60000 40000 8) =
     Inr ((txSUCCESS, [opINNER (paymentResult PAYMENT_SUCCESS)]), payLedger 59500 40500 9)"
  by code_simp

lemma pay_again:
  "applyTransaction noCheck exampleCrypto payEnvelope (payLedger 59500 40500 9) =
     Inr ((txBAD_SEQ, []), payLedger 59500 40500 9)"
  by code_simp

end
