(* ===== verification/Transaction_Properties.thy ===== *)
theory Transaction_Properties
  imports Operation_Effects Example_Ledger
begin

text \<open>
  Transactions: what they conserve, and that none is applied twice. A run of the ledger is a sequence of fees,
  transactions and new headers; the total of native balances and fees stays what the header says, and a
  transaction whose sequence number was consumed is refused for ever after.
\<close>

subsection \<open>Transactions move nothing\<close>

lemma removeAccountSigner_core: "removeAccountSigner h k e = Inr (r, e') \<Longrightarrow> sameCore e e'"
  unfolding removeAccountSigner_def
  by (auto elim!: bindE_InrE split: option.splits prod.splits dest!: subentry_op.neutral onAccountOf_core
      intro: sameCore_trans)

lemma removeSigners_core: "removeSigners h ks e = Inr (r, e') \<Longrightarrow> sameCore e e'"
  by (induction ks arbitrary: e)
    (fastforce elim!: bindE_InrE split: if_splits dest: removeAccountSigner_core intro: sameCore_trans)+

lemma removeUsedKeysOf_moves: "removeUsedKeysOf a ks ltx = Inr ltx' \<Longrightarrow> moves 0 ltx ltx'"
proof -
  assume run: "removeUsedKeysOf a ks ltx = Inr ltx'"
  let ?f = "\<lambda>e. bindE (removeSigners (ltxHeader ltx) ks e) (\<lambda>(changed, e1).
          if changed then bindE (onAccountOf e1 normalizeSigners) (\<lambda>e2. Inr ((), e2)) else Inr ((), e1))"
  have core: "sameCore e e'" if "?f e = Inr (u, e')" for e e' and u :: unit
    using that
    by (auto elim!: bindE_InrE split: if_splits dest!: removeSigners_core onAccountOf_core simp: options_core
        intro: sameCore_trans)
  from run show "moves 0 ltx ltx'"
    unfolding removeUsedKeysOf_def by (auto elim!: bindE_InrE split: if_splits dest: onEntry_core [OF _ core])
qed

lemma removeUsedOneTimeSignerKeys_moves: "removeUsedOneTimeSignerKeys used ltx = Inr ltx' \<Longrightarrow> moves 0 ltx ltx'"
  by (induction used ltx rule: removeUsedOneTimeSignerKeys.induct)
    (fastforce elim!: bindE_InrE dest: removeUsedKeysOf_moves intro: moves0_trans)+

lemma processSeqNum_moves: "processSeqNum tx ltx = Inr ltx' \<Longrightarrow> moves 0 ltx ltx'"
  by (auto simp: processSeqNum_def sourceEntry_Inr theAccount_Inr throwIf_Inr core_defs elim!: bindE_InrE
      split: if_splits intro!: store_moves)

lemma processSignatures_moves: "processSignatures C tx ltx code sc = Inr (r, ltx', sc') \<Longrightarrow> moves 0 ltx ltx'"
  unfolding processSignatures_def
  by (auto elim!: bindE_InrE split: if_splits dest: removeUsedOneTimeSignerKeys_moves)

lemma operationsLoop_moves:
  "operationsLoop i C tx ops failed ltx sc = Inr (False, rs, ltx', sc') \<Longrightarrow> \<not> failed \<and> moves 0 ltx ltx'"
proof (induction ops arbitrary: failed ltx sc rs)
  case (Cons op ops)
  from Cons.prems obtain ok r ltx1 sc1 rs1 where o: "opApply C tx op ltx sc = Inr ((ok, r, ltx1), sc1)"
    "operationsLoop i C tx ops (failed \<or> \<not> ok) ltx1 sc1 = Inr (False, rs1, ltx', sc')"
    by (auto elim!: bindE_InrE)
  from Cons.IH [OF o(2)] have m: "\<not> failed" "ok" "moves 0 ltx1 ltx'" by auto
  with opApply_moves [of C tx op ltx sc r ltx1 sc1] o(1) show ?case by (auto intro: moves0_trans)
qed simp

lemma applyOperations_moves: "applyOperations i C tx ltx sc = Inr (r, ltx') \<Longrightarrow> moves 0 ltx ltx'"
  unfolding applyOperations_def
  by (auto elim!: bindE_InrE split: if_splits dest!: operationsLoop_moves removeUsedOneTimeSignerKeys_moves
      intro: moves0_trans)

lemma applyTransaction_cases:
  assumes "applyTransaction i C env ltx = Inr (r, ltx')"
  obtains (refused) sc sc' where "commonValid C (envTx env) ltx 0 True sc = Inr (kInvalid, fst r, sc')" "ltx' = ltx"
  | (charged) ltx1 where "processSeqNum (envTx env) ltx = Inr ltx1" "moves 0 ltx1 ltx'"
proof -
  let ?tx = "envTx env"
  let ?sc = "SignatureChecker_new (ledgerVersion (ltxHeader ltx)) (envContentsHash env) (envSignatures env)"
  from assms obtain cv c sc1 ltx1 bad ltx2 sc2 where v: "commonValid C ?tx ltx 0 True ?sc = Inr (cv, c, sc1)"
    and seq: "(if validationRank kInvalidUpdateSeqNum \<le> validationRank cv then processSeqNum ?tx ltx else Inr ltx) = Inr ltx1"
    and sig: "(if validationRank kInvalidPostAuth \<le> validationRank cv then processSignatures C ?tx ltx1 c sc1
                else Inr (Some c, ltx1, sc1)) = Inr (bad, ltx2, sc2)"
    and ops: "(if bad \<noteq> None then Inr ((the bad, []), ltx2) else if cv \<noteq> kFullyValid then Inr ((c, []), ltx2)
         else applyOperations i C ?tx ltx2 sc2) = Inr (r, ltx')"
    unfolding applyTransaction_def Let_def by (auto elim!: bindE_InrE)
  show thesis
  proof (cases "cv = kInvalid")
    case True
    then show thesis using refused [of ?sc sc1] v seq sig ops by auto
  next
    case False
    then have "processSeqNum ?tx ltx = Inr ltx1" using seq by (cases cv) auto
    moreover have "moves 0 ltx1 ltx2" using sig processSignatures_moves by (auto split: if_splits)
    moreover have "moves 0 ltx2 ltx'" using ops applyOperations_moves by (auto split: if_splits)
    ultimately show thesis using charged moves0_trans by blast
  qed
qed

lemma applyTransaction_moves:
  assumes "applyTransaction i C env ltx = Inr (r, ltx')"
  shows "moves 0 ltx ltx'"
  using assms by (cases rule: applyTransaction_cases) (auto dest: processSeqNum_moves intro: moves0_trans)


subsection \<open>Fees\<close>

definition solvent :: "LedgerTxn \<Rightarrow> bool" where
  "solvent ltx \<longleftrightarrow> ledgerWf ltx \<and> 0 \<le> sint (feePool (ltxHeader ltx)) \<and>
     lumens ltx + sint (feePool (ltxHeader ltx)) = sint (totalCoins (ltxHeader ltx))"

lemma lumens_ge: "ledgerWf ltx \<Longrightarrow> loadEntry ltx k = Some e \<Longrightarrow> entryLumens e \<le> lumens ltx"
proof -
  have "entryLumens e \<le> (\<Sum>(k, e) \<leftarrow> xs. entryLumens e)" if "(k, e) \<in> set xs" "\<forall>(k, e) \<in> set xs. 0 \<le> entryLumens e" for xs
    using that
  proof (induction xs)
    case (Cons x xs)
    have "0 \<le> (\<Sum>(k, e) \<leftarrow> xs. entryLumens e)" using Cons.prems(2) by (intro sum_list_nonneg) auto
    with Cons show ?case by (cases x) auto
  qed simp
  then show "ledgerWf ltx \<Longrightarrow> loadEntry ltx k = Some e \<Longrightarrow> entryLumens e \<le> lumens ltx"
    by (auto simp: lumens_def ledgerWf_def loadEntry_def list_all_iff dest!: map_of_SomeD)
qed

lemma chargeFee_exact:
  assumes "0 \<le> sint b" "0 < sint fee0" "addBalance64 b (- min64 b fee0) INT64_MAX = Inr (added, b')"
  shows "sint b' = sint b - sint (min64 b fee0)" "0 \<le> sint b'" "0 \<le> sint (min64 b fee0)"
proof -
  let ?f = "min64 b fee0"
  have f: "0 \<le> sint ?f" "sint ?f \<le> sint b" using assms(1,2) by (auto simp: min64_def)
  have neg: "sint (- ?f) = - sint ?f" "sint (- b) = - sint b" using f(1) assms(1) by (simp_all add: sint_neg64)
  have "sint (INT64_MAX - b) = sint INT64_MAX - sint b" using assms(1) by (intro sint_sub_nonneg) simp_all
  then have "\<not> sint (INT64_MAX - b) < sint (- ?f)" "\<not> sint (- ?f) < sint (- b)"
    using neg f sint_range(2) [of b] by simp_all
  then have added using assms(3) by (auto simp: addBalance64_def err_simps split: if_splits)
  with addBalance64_result [OF assms(3)] neg(1) show "sint b' = sint b - sint ?f" "0 \<le> sint b'" by auto
  show "0 \<le> sint ?f" by (rule f(1))
qed

lemma processFeeSeqNum_cases:
  assumes "processFeeSeqNum bf tx ltx = Inr (fee, ltx')"
  obtains e acc acc' h' where "loadEntry ltx (AccountKey (txSourceAccount tx)) = Some e" "entryData e = ACCOUNT acc"
    "ltx' = storeEntry (ltx\<lparr>ltxHeader := h'\<rparr>) (AccountKey (txSourceAccount tx)) (e\<lparr>entryData := ACCOUNT acc'\<rparr>)"
    "accountID acc' = accountID acc" "10 \<le> ledgerVersion (ltxHeader ltx) \<Longrightarrow> seqNum acc' = seqNum acc"
    "accBalance acc' = accBalance acc \<and> h' = ltxHeader ltx \<or>
     (\<exists>added fee0. 0 < sint fee0 \<and> fee = min64 (accBalance acc) fee0 \<and>
        addBalance64 (accBalance acc) (- fee) INT64_MAX = Inr (added, accBalance acc') \<and>
        h' = (ltxHeader ltx)\<lparr>feePool := feePool (ltxHeader ltx) + fee\<rparr>)"
proof -
  let ?h = "ltxHeader ltx" and ?fee = "getFee (ltxHeader ltx) bf tx" and ?k = "AccountKey (txSourceAccount tx)"
  from assms obtain e acc acc1 h1 acc2 where e: "loadEntry ltx ?k = Some e" "entryData e = ACCOUNT acc"
    and fee: "(if 0 < sint ?fee then bindE (addBalance64 (accBalance acc) (- min64 (accBalance acc) ?fee) INT64_MAX)
        (\<lambda>(added, b). Inr (min64 (accBalance acc) ?fee, acc\<lparr>accBalance := b\<rparr>,
           ?h\<lparr>feePool := feePool ?h + min64 (accBalance acc) ?fee\<rparr>)) else Inr (?fee, acc, ?h)) = Inr (fee, acc1, h1)"
    and seq: "(if ledgerVersion ?h \<le> 9 then bindE (throwIf (seqNum acc1 + 1 \<noteq> txSeqNum tx) ''Unexpected account state'')
        (\<lambda>_. Inr (acc1\<lparr>seqNum := txSeqNum tx\<rparr>)) else Inr acc1) = Inr acc2"
    and l: "ltx' = storeEntry (ltx\<lparr>ltxHeader := h1\<rparr>) ?k (e\<lparr>entryData := ACCOUNT acc2\<rparr>)"
    unfolding processFeeSeqNum_def Let_def loadSourceAccount_def
    by (auto simp: currentEntry_Inr theAccount_Inr elim!: bindE_InrE split: if_split_asm)
  have acc2: "accountID acc2 = accountID acc1" "accBalance acc2 = accBalance acc1"
    "10 \<le> ledgerVersion ?h \<Longrightarrow> seqNum acc2 = seqNum acc1"
    using seq order_trans [of 10 "ledgerVersion ?h" 9] by (auto elim!: bindE_InrE split: if_splits)
  have acc1: "accountID acc1 = accountID acc" "seqNum acc1 = seqNum acc"
    using fee by (auto elim!: bindE_InrE split: if_splits)
  have cases: "accBalance acc1 = accBalance acc \<and> h1 = ?h \<or>
     (\<exists>added fee0. 0 < sint fee0 \<and> fee = min64 (accBalance acc) fee0 \<and>
        addBalance64 (accBalance acc) (- fee) INT64_MAX = Inr (added, accBalance acc1) \<and>
        h1 = ?h\<lparr>feePool := feePool ?h + fee\<rparr>)"
    using fee by (cases "0 < sint ?fee") (auto elim!: bindE_InrE)
  show ?thesis by (rule that [OF e l]) (use acc1 acc2 cases in auto)
qed


lemma header_lumens [simp]: "lumens (ltx\<lparr>ltxHeader := h\<rparr>) = lumens ltx"
  by (simp add: lumens_def)

lemma header_wf [simp]: "ledgerWf (ltx\<lparr>ltxHeader := h\<rparr>) = ledgerWf ltx"
  by (simp add: ledgerWf_def)

lemma header_load [simp]: "loadEntry (ltx\<lparr>ltxHeader := h\<rparr>) k = loadEntry ltx k"
  by (simp add: loadEntry_def)

lemma lumens_store:
  "ledgerWf ltx \<Longrightarrow> loadEntry ltx k = Some e \<Longrightarrow> lumens (storeEntry ltx k e') = lumens ltx - entryLumens e + entryLumens e'"
  by (simp add: lumens_def storeEntry_def sum_update ledgerWf_def optLumens_def loadEntry_def)

lemma processFeeSeqNum_solvent:
  assumes "processFeeSeqNum bf tx ltx = Inr (fee, ltx')" "solvent ltx"
  shows "solvent ltx'"
  using assms(1)
proof (cases rule: processFeeSeqNum_cases)
  case (1 e acc acc' h')
  let ?h = "ltxHeader ltx" and ?k = "AccountKey (txSourceAccount tx)" and ?e = "e\<lparr>entryData := ACCOUNT acc'\<rparr>"
  have s: "ledgerWf ltx" "0 \<le> sint (feePool ?h)" "lumens ltx + sint (feePool ?h) = sint (totalCoins ?h)"
    using assms(2) by (simp_all add: solvent_def)
  have le: "entryLumens e = sint (accBalance acc)" "entryLumens ?e = sint (accBalance acc')"
    using 1(2) by (simp_all add: entryLumens_def)
  have nn: "0 \<le> sint (accBalance acc)" "sint (accBalance acc) \<le> lumens ltx"
    using loadEntry_nonneg [OF s(1) 1(1)] lumens_ge [OF s(1) 1(1)] le(1) by simp_all
  have "LedgerEntryKey ?e = ?k" using loadEntry_key [OF s(1) 1(1)] 1(2,4) by (simp add: LedgerEntryKey_def)
  moreover have lum: "lumens ltx' = lumens ltx - sint (accBalance acc) + sint (accBalance acc')"
    using lumens_store [of "ltx\<lparr>ltxHeader := h'\<rparr>" ?k e ?e] s(1) 1(1,3) le by simp
  moreover have "0 \<le> sint (accBalance acc') \<and> sint (feePool h') = sint (feePool ?h) + (sint (accBalance acc) - sint (accBalance acc')) \<and>
      0 \<le> sint (feePool h') \<and> totalCoins h' = totalCoins ?h"
    using 1(6)
  proof (elim disjE exE conjE)
    fix added fee0
    assume f: "0 < sint fee0" "fee = min64 (accBalance acc) fee0"
      "addBalance64 (accBalance acc) (- fee) INT64_MAX = Inr (added, accBalance acc')"
      "h' = ?h\<lparr>feePool := feePool ?h + fee\<rparr>"
    note c = chargeFee_exact [OF nn(1) f(1) f(3) [unfolded f(2)]]
    have "sint (feePool ?h) + sint fee < 2 ^ 63"
      unfolding f(2) using c(1,2) nn(2) s(3) sint_range(2) [of "totalCoins ?h"] by linarith
    then have "sint (feePool ?h + fee) = sint (feePool ?h) + sint fee" using s(2) c(3) f(2) by (intro sint_add64) auto
    then show ?thesis using c f(2,4) s(2) by simp
  qed (use nn s in simp)
  ultimately show ?thesis
    using s 1(3) wf_store [of "ltx\<lparr>ltxHeader := h'\<rparr>" ?e ?k] le(2) by (simp add: solvent_def)
qed

lemma processFeeSeqNum_floor:
  assumes "processFeeSeqNum bf tx ltx = Inr (fee, ltx')" "10 \<le> ledgerVersion (ltxHeader ltx)"
  shows "ledgerVersion (ltxHeader ltx') = ledgerVersion (ltxHeader ltx)" "seqFloor a n ltx \<Longrightarrow> seqFloor a n ltx'"
    "ledgerSeq (ltxHeader ltx') = ledgerSeq (ltxHeader ltx)"
proof -
  obtain e acc acc' h' where r: "loadEntry ltx (AccountKey (txSourceAccount tx)) = Some e" "entryData e = ACCOUNT acc"
    "ltx' = storeEntry (ltx\<lparr>ltxHeader := h'\<rparr>) (AccountKey (txSourceAccount tx)) (e\<lparr>entryData := ACCOUNT acc'\<rparr>)"
    "seqNum acc' = seqNum acc" and h: "h' = ltxHeader ltx \<or> (\<exists>p. h' = (ltxHeader ltx)\<lparr>feePool := p\<rparr>)"
    using processFeeSeqNum_cases [OF assms(1)] assms(2) by metis
  then show "ledgerVersion (ltxHeader ltx') = ledgerVersion (ltxHeader ltx)"
    "ledgerSeq (ltxHeader ltx') = ledgerSeq (ltxHeader ltx)" using h by auto
  then have "startSeq ltx' = startSeq ltx" by (simp add: startSeq_def getStartingSequenceNumber_def)
  then show "seqFloor a n ltx \<Longrightarrow> seqFloor a n ltx'"
    using r by (auto simp: seqFloor_def loadEntry_store entrySeq_def split: option.splits)
qed


subsection \<open>Runs of the ledger\<close>

definition nextHeader :: "LedgerHeader \<Rightarrow> LedgerHeader \<Rightarrow> bool" where
  "nextHeader h h' \<longleftrightarrow> unat (ledgerSeq h') = unat (ledgerSeq h) + 1 \<and> unat (ledgerSeq h') < 2 ^ 31 \<and>
     ledgerVersion h \<le> ledgerVersion h' \<and> totalCoins h' = totalCoins h \<and> feePool h' = feePool h"

inductive ledger_run :: "invariant_check \<Rightarrow> Crypto \<Rightarrow> LedgerTxn \<Rightarrow> LedgerTxn \<Rightarrow> bool" for i C where
  start: "ledger_run i C l l"
| fee: "ledger_run i C l l1 \<Longrightarrow> processFeeSeqNum bf tx l1 = Inr (f, l2) \<Longrightarrow> ledger_run i C l l2"
| tx: "ledger_run i C l l1 \<Longrightarrow> applyTransaction i C env l1 = Inr (r, l2) \<Longrightarrow> ledger_run i C l l2"
| close: "ledger_run i C l l1 \<Longrightarrow> nextHeader (ltxHeader l1) h \<Longrightarrow> ledger_run i C l (l1\<lparr>ltxHeader := h\<rparr>)"

lemma startSeq_value:
  assumes "unat (ledgerSeq (ltxHeader l)) < 2 ^ 31"
  shows "startSeq l = int (unat (ledgerSeq (ltxHeader l))) * 2 ^ 32"
proof -
  let ?n = "unat (ledgerSeq (ltxHeader l))"
  have "(ucast (ledgerSeq (ltxHeader l)) :: int64) = of_nat ?n" by transfer (simp add: take_bit_eq_mod)
  then have "getStartingSequenceNumber (ltxHeader l) = of_nat (?n * 2 ^ 32)"
    by (simp add: getStartingSequenceNumber_def push_bit_eq_mult)
  moreover have "?n * 2 ^ 32 < 2 ^ 63" using assms by simp
  ultimately show ?thesis using sint_of_nat64 [of "?n * 2 ^ 32"] by (simp add: startSeq_def)
qed

lemma close_floor:
  assumes "nextHeader (ltxHeader l) h" "seqFloor a n l"
  shows "seqFloor a n (l\<lparr>ltxHeader := h\<rparr>)"
proof -
  have "startSeq l \<le> startSeq (l\<lparr>ltxHeader := h\<rparr>)"
    using assms(1) startSeq_value [of l] startSeq_value [of "l\<lparr>ltxHeader := h\<rparr>"] by (simp add: nextHeader_def)
  then show ?thesis using assms(2) by (auto simp: seqFloor_def split: option.splits)
qed

lemma run_solvent: "ledger_run i C l l' \<Longrightarrow> solvent l \<Longrightarrow> solvent l'"
proof (induction rule: ledger_run.induct)
  case (fee l l1 bf tx f l2)
  then show ?case using processFeeSeqNum_solvent [OF fee(2)] by simp
next
  case (tx l l1 env r l2)
  then have "solvent l1" by simp
  then have m: "moves 0 l1 l2" "ledgerWf l1" using applyTransaction_moves [OF tx(2)] by (simp_all add: solvent_def)
  show ?case
    using \<open>solvent l1\<close> movesD(1,2) [OF m] sameHeader_fields(3,4) [OF movesD(3) [OF m]] by (simp add: solvent_def)
qed (auto simp: nextHeader_def solvent_def)

lemma run_floor:
  assumes "ledger_run i C l l'" "solvent l" "10 \<le> ledgerVersion (ltxHeader l)" "seqFloor a n l"
  shows "10 \<le> ledgerVersion (ltxHeader l') \<and> seqFloor a n l'"
  using assms
proof (induction rule: ledger_run.induct)
  case (fee l l1 bf tx f l2)
  then show ?case using processFeeSeqNum_floor(1,2) [OF fee(2)] by simp
next
  case (tx l l1 env r l2)
  have wf: "ledgerWf l1" using run_solvent [OF tx(1)] tx.prems(1) by (simp add: solvent_def)
  note m = applyTransaction_moves [OF tx(2)]
  show ?case using tx movesD(4) [OF m wf] sameHeader_fields(1) [OF movesD(3) [OF m wf]] by simp
next
  case (close l l1 h)
  then show ?case using close_floor [of l1 h] order_trans [of 10 "ledgerVersion (ltxHeader l1)"] by (simp add: nextHeader_def)
qed simp

subsection \<open>Consumed sequence numbers\<close>

definition refusals :: "TransactionResultCode set" where
  "refusals = {txMISSING_OPERATION, txTOO_EARLY, txTOO_LATE, txINSUFFICIENT_FEE, txNO_ACCOUNT, txBAD_SEQ}"

lemma commonValidPreSeqNum_refuses: "commonValidPreSeqNum tx ltx = Inr (Some code) \<Longrightarrow> code \<in> refusals"
  by (auto simp: commonValidPreSeqNum_def refusals_def Let_def elim!: bindE_InrE split: if_splits)

lemma commonValid_refuses:
  assumes "commonValid C tx ltx n b sc = Inr (kInvalid, code, sc')"
  shows "code \<in> refusals"
proof -
  from assms obtain pre where pre: "commonValidPreSeqNum tx ltx = Inr pre"
    "code = txBAD_SEQ \<or> pre = Some code"
    unfolding commonValid_def Let_def
    by (auto elim!: bindE_InrE split: option.splits if_splits prod.splits)
  then show ?thesis using commonValidPreSeqNum_refuses [of tx ltx code] by (auto simp: refusals_def)
qed

lemma processSeqNum_floor:
  assumes "processSeqNum tx ltx = Inr ltx'" "10 \<le> ledgerVersion (ltxHeader ltx)"
  shows "seqFloor (txSourceAccount tx) (sint (txSeqNum tx)) ltx'"
  using assms
  by (auto simp: processSeqNum_def seqFloor_def loadEntry_store entrySeq_def elim!: bindE_InrE)

lemma applyTransaction_consumes:
  assumes "applyTransaction i C env ltx = Inr (r, ltx')" "ledgerWf ltx" "10 \<le> ledgerVersion (ltxHeader ltx)"
    and "fst r \<notin> refusals"
  shows "seqFloor (txSourceAccount (envTx env)) (sint (txSeqNum (envTx env))) ltx'"
  using assms(1)
proof (cases rule: applyTransaction_cases)
  case refused
  then show ?thesis using commonValid_refuses assms(4) by blast
next
  case (charged ltx1)
  note m = processSeqNum_moves [OF charged(1)]
  have "10 \<le> ledgerVersion (ltxHeader ltx1)"
    using sameHeader_fields(1) [OF movesD(3) [OF m assms(2)]] assms(3) by simp
  then show ?thesis
    by (rule movesD(4) [OF charged(2) movesD(1) [OF m assms(2)]]) (rule processSeqNum_floor [OF charged(1) assms(3)])
qed

text \<open>A source whose sequence number is not below that of the transaction is refused before anything changes.\<close>

lemma loadSourceAccount_known:
  "10 \<le> ledgerVersion (ltxHeader ltx) \<Longrightarrow>
   loadSourceAccount ltx a = Inr (if loadEntry ltx (AccountKey a) = None then None else Some (AccountKey a))"
  by (simp add: loadSourceAccount_def accountExists_def not_less order_trans [of 8 10])

lemma stale_bad_seq:
  assumes "10 \<le> ledgerVersion h" "sint (txSeqNum tx) \<le> sint (seqNum acc)"
  shows "badSeq h tx acc 0 True"
proof (cases "seqNum acc = INT64_MAX")
  case False
  then have "sint (seqNum acc) \<noteq> sint INT64_MAX" by (metis signed_word_eqI)
  then have "sint (seqNum acc) + 1 < 2 ^ 63" using sint_range(2) [of "seqNum acc"] by simp
  then have "sint (seqNum acc + 1) = sint (seqNum acc) + 1" using sint_range(1) [of "seqNum acc"] sint_add64 [of "seqNum acc" 1] by simp
  then have "seqNum acc + 1 \<noteq> txSeqNum tx" using assms(2) by auto
  then show ?thesis using assms(1) by (simp add: badSeq_def Let_def)
qed (use assms in \<open>simp add: badSeq_def Let_def\<close>)

lemma commonValid_stale:
  assumes wf: "ledgerWf ltx" and v: "10 \<le> ledgerVersion (ltxHeader ltx)"
    and stale: "seqFloor (txSourceAccount tx) (sint (txSeqNum tx)) ltx"
  shows "\<exists>code \<in> refusals. commonValid C tx ltx 0 True sc = Inr (kInvalid, code, sc)"
proof (cases "commonValidPreSeqNum tx ltx")
  case (Inr pre)
  show ?thesis
  proof (cases pre)
    case None
    then obtain e where e: "loadEntry ltx (AccountKey (txSourceAccount tx)) = Some e"
      using Inr v by (auto simp: commonValidPreSeqNum_def Let_def loadSourceAccount_known err_simps split: if_splits)
    then obtain acc where acc: "entryData e = ACCOUNT acc" using accountKey_entry [OF wf] by blast
    have "badSeq (ltxHeader ltx) tx acc 0 True"
      using stale e acc v by (intro stale_bad_seq) (simp_all add: seqFloor_def entrySeq_def)
    then have "commonValid C tx ltx 0 True sc = Inr (kInvalid, txBAD_SEQ, sc)"
      using Inr None e acc v
      by (simp add: commonValid_def sourceEntry_def loadSourceAccount_known currentEntry_def theAccount_def err_simps Let_def)
    then show ?thesis by (auto simp: refusals_def)
  next
    case (Some code)
    then show ?thesis using Inr commonValidPreSeqNum_refuses [of tx ltx code] by (auto simp: commonValid_def err_simps)
  qed
qed (use v in \<open>auto simp: commonValidPreSeqNum_def Let_def loadSourceAccount_known err_simps split: if_splits\<close>)

lemma applyTransaction_stale:
  assumes "ledgerWf ltx" "10 \<le> ledgerVersion (ltxHeader ltx)"
    and "seqFloor (txSourceAccount (envTx env)) (sint (txSeqNum (envTx env))) ltx"
  shows "\<exists>code \<in> refusals. applyTransaction i C env ltx = Inr ((code, []), ltx)"
proof -
  let ?sc = "SignatureChecker_new (ledgerVersion (ltxHeader ltx)) (envContentsHash env) (envSignatures env)"
  obtain code where "code \<in> refusals" "commonValid C (envTx env) ltx 0 True ?sc = Inr (kInvalid, code, ?sc)"
    using commonValid_stale [OF assms, of C ?sc] by blast
  then show ?thesis by (auto simp: applyTransaction_def err_simps)
qed


lemma run_trans: "ledger_run i C l1 l2 \<Longrightarrow> ledger_run i C l l1 \<Longrightarrow> ledger_run i C l l2"
  by (induction rule: ledger_run.induct) (blast intro: ledger_run.intros)+

subsection \<open>Properties\<close>


lemma pay_solvent: "solvent (payLedger 60000 40000 8)"
  by (simp add: solvent_def ledgerWf_def lumens_def payLedger_def payHeader_def plainAccount_def entryLumens_def
      LedgerEntryKey_def)


text \<open>In every run of the ledger, the sum of the native balances of all accounts and of the fee pool is the total of
  coins of the header, no balance and no fee pool is negative, and every entry is filed once, under its own key.\<close>

theorem ledger_solvent:
  assumes "ledger_run i C ltx ltx'" "solvent ltx"
  shows "solvent ltx' \<and> totalCoins (ltxHeader ltx') = totalCoins (ltxHeader ltx)"
proof -
  have "totalCoins (ltxHeader ltx') = totalCoins (ltxHeader ltx)"
    using assms
  proof (induction rule: ledger_run.induct)
    case (fee l l1 bf tx f l2)
    then show ?case using processFeeSeqNum_cases [OF fee(2)] by fastforce
  next
    case (tx l l1 env r l2)
    then have "ledgerWf l1" using run_solvent [OF tx(1)] by (simp add: solvent_def)
    with tx show ?case using sameHeader_fields(3) [OF movesD(3) [OF applyTransaction_moves [OF tx(2)]]] by simp
  qed (simp_all add: nextHeader_def)
  then show ?thesis using run_solvent assms by simp
qed

theorem ledger_solvent_witness: "solvent (payLedger 59500 40500 9)"
  using ledger_solvent [OF ledger_run.tx [OF ledger_run.start pay_transaction] pay_solvent] by simp

end
