(* ===== verification/Invariants.thy ===== *)
theory Invariants
  imports Transaction_Frame
begin

text \<open>
  The checks of \<open>src/src/invariant\<close> that run after every operation: conservation of lumens, the count of
  sub-entries, the validity of entries and the match of liabilities with offers, with the manager that runs the
  enabled ones. A check reads the delta of the ledger transaction of the operation: for every entry that was
  loaded or changed its current and its previous version, and the two headers. A check returns the text of its
  message, without the values formatted into it, or nothing when it holds.
\<close>

record EntryDelta =
  deltaCurrent :: "LedgerEntry option"
  deltaPrevious :: "LedgerEntry option"

record LedgerTxnDelta =
  deltaEntry :: "(LedgerKey \<times> EntryDelta) list"
  headerCurrent :: LedgerHeader
  headerPrevious :: LedgerHeader

text \<open>The delta over the keys the transaction recorded. Entries it keeps are stamped with the ledger sequence.\<close>

definition getDelta :: "LedgerKey list \<Rightarrow> LedgerTxn \<Rightarrow> LedgerTxn \<Rightarrow> LedgerTxnDelta" where
  "getDelta ks before after =
     \<lparr>deltaEntry = map (\<lambda>k. (k,
        \<lparr>deltaCurrent = map_option (\<lambda>e. e\<lparr>lastModifiedLedgerSeq := ledgerSeq (ltxHeader after)\<rparr>) (loadEntry after k),
         deltaPrevious = loadEntry before k\<rparr>)) ks,
      headerCurrent = ltxHeader after, headerPrevious = ltxHeader before\<rparr>"

type_synonym operation_check = "OperationResult \<Rightarrow> LedgerTxnDelta \<Rightarrow> ledger_error + string option"

subsection \<open>Conservation of lumens\<close>

definition optAccount :: "LedgerEntry option \<Rightarrow> ledger_error + AccountEntry option" where
  "optAccount x = (case x of None \<Rightarrow> Inr None | Some e \<Rightarrow> bindE (theAccount e) (\<lambda>acc. Inr (Some acc)))"

definition calculateDeltaBalance :: "LedgerEntry option \<Rightarrow> LedgerEntry option \<Rightarrow> ledger_error + int64" where
  "calculateDeltaBalance cur prev =
     bindE (assertE AssertFailure (cur \<noteq> None \<or> prev \<noteq> None)) (\<lambda>_.
     (case entryData (case cur of Some e \<Rightarrow> e | None \<Rightarrow> the prev) of
        ACCOUNT _ \<Rightarrow>
          bindE (optAccount cur) (\<lambda>c.
          bindE (optAccount prev) (\<lambda>p.
          Inr ((case c of None \<Rightarrow> 0 | Some acc \<Rightarrow> accBalance acc) - (case p of None \<Rightarrow> 0 | Some acc \<Rightarrow> accBalance acc))))
      | _ \<Rightarrow> Inr 0))"

fun sumDeltaBalance :: "(LedgerKey \<times> EntryDelta) list \<Rightarrow> int64 \<Rightarrow> ledger_error + int64" where
  "sumDeltaBalance [] lhs = Inr lhs"
| "sumDeltaBalance ((k, d) # ds) lhs =
     bindE (calculateDeltaBalance (deltaCurrent d) (deltaPrevious d)) (\<lambda>x. sumDeltaBalance ds (lhs + x))"

definition ConservationOfLumens_check :: operation_check where
  "ConservationOfLumens_check result delta =
     (let deltaTotalCoins = totalCoins (headerCurrent delta) - totalCoins (headerPrevious delta);
          deltaFeePool = feePool (headerCurrent delta) - feePool (headerPrevious delta)
      in bindE (sumDeltaBalance (deltaEntry delta) 0) (\<lambda>deltaBalances.
         (case result of
            opINNER (inflationSuccess payouts) \<Rightarrow>
              (let inflationPayouts = foldl (\<lambda>lhs p. lhs + snd p) 0 payouts
               in Inr (if deltaTotalCoins \<noteq> inflationPayouts + deltaFeePool
                       then Some ''LedgerHeader totalCoins change did not match feePool change plus inflation payouts''
                       else if deltaBalances \<noteq> inflationPayouts
                       then Some ''LedgerEntry account balances change did not match inflation payouts''
                       else None))
          | opINNER _ \<Rightarrow>
              Inr (if deltaTotalCoins \<noteq> 0 then Some ''LedgerHeader totalCoins changed without inflation''
                   else if deltaFeePool \<noteq> 0 then Some ''LedgerHeader feePool changed without inflation''
                   else if deltaBalances \<noteq> 0 then Some ''LedgerEntry account balances changed without inflation''
                   else None)
          | _ \<Rightarrow> Inl WrongUnion)))"

subsection \<open>Count of sub-entries\<close>

record SubEntriesChange =
  changeSubEntries :: int32
  calculatedSubEntries :: int32
  changeSigners :: int32

type_synonym changes = "(AccountID \<times> SubEntriesChange) list"

definition changeOf :: "changes \<Rightarrow> AccountID \<Rightarrow> SubEntriesChange" where
  "changeOf m a = (case map_of m a of
     Some c \<Rightarrow> c | None \<Rightarrow> \<lparr>changeSubEntries = 0, calculatedSubEntries = 0, changeSigners = 0\<rparr>)"

definition calculateDelta :: "LedgerEntry option \<Rightarrow> LedgerEntry option \<Rightarrow> int32" where
  "calculateDelta cur prev = (if cur \<noteq> None then 1 else 0) - (if prev \<noteq> None then 1 else 0)"

definition addCalculated :: "changes \<Rightarrow> AccountID \<Rightarrow> int32 \<Rightarrow> changes" where
  "addCalculated m a d = (let c = changeOf m a in AList.update a (c\<lparr>calculatedSubEntries := calculatedSubEntries c + d\<rparr>) m)"

definition updateChangedSubEntriesCount ::
  "changes \<Rightarrow> LedgerEntry option \<Rightarrow> LedgerEntry option \<Rightarrow> ledger_error + changes" where
  "updateChangedSubEntriesCount m cur prev =
     bindE (assertE AssertFailure (cur \<noteq> None \<or> prev \<noteq> None)) (\<lambda>_.
     (case entryData (case cur of Some e \<Rightarrow> e | None \<Rightarrow> the prev) of
        ACCOUNT acc \<Rightarrow>
          bindE (optAccount cur) (\<lambda>c.
          bindE (optAccount prev) (\<lambda>p.
          (let change = changeOf m (accountID acc);
               subEntries = (case c of None \<Rightarrow> 0 | Some x \<Rightarrow> numSubEntries x) - (case p of None \<Rightarrow> 0 | Some x \<Rightarrow> numSubEntries x);
               sigs = (case c of None \<Rightarrow> 0 | Some x \<Rightarrow> of_nat (length (signers x))) -
                         (case p of None \<Rightarrow> 0 | Some x \<Rightarrow> of_nat (length (signers x)))
           in Inr (AList.update (accountID acc)
                \<lparr>changeSubEntries = subEntries, calculatedSubEntries = calculatedSubEntries change + sigs,
                 changeSigners = sigs\<rparr> m))))
      | TRUSTLINE line \<Rightarrow> Inr (addCalculated m (tlAccountID line) (calculateDelta cur prev))
      | OFFER oe \<Rightarrow> Inr (addCalculated m (sellerID oe) (calculateDelta cur prev))
      | DATA d \<Rightarrow> Inr (addCalculated m (dataAccountID d) (calculateDelta cur prev))))"

fun collectChanges :: "(LedgerKey \<times> EntryDelta) list \<Rightarrow> changes \<Rightarrow> ledger_error + changes" where
  "collectChanges [] m = Inr m"
| "collectChanges ((k, d) # ds) m =
     bindE (updateChangedSubEntriesCount m (deltaCurrent d) (deltaPrevious d)) (\<lambda>m'. collectChanges ds m')"

fun checkDeleted :: "changes \<Rightarrow> (LedgerKey \<times> EntryDelta) list \<Rightarrow> ledger_error + string option" where
  "checkDeleted m [] = Inr None"
| "checkDeleted m ((k, d) # ds) =
     (if deltaCurrent d \<noteq> None then checkDeleted m ds
      else
        bindE (assertE AssertFailure (deltaPrevious d \<noteq> None)) (\<lambda>_.
        (case entryData (the (deltaPrevious d)) of
           ACCOUNT acc \<Rightarrow>
             (let change = changeOf m (accountID acc);
                  numSigners = numSubEntries acc + changeSubEntries change - changeSigners change
              in if numSigners \<noteq> of_nat (length (signers acc)) then Inr (Some ''Deleted Account has subentries other than signers'')
                 else checkDeleted m ds)
         | _ \<Rightarrow> checkDeleted m ds)))"

definition AccountSubEntriesCountIsValid_check :: operation_check where
  "AccountSubEntriesCountIsValid_check result delta =
     bindE (collectChanges (deltaEntry delta) []) (\<lambda>m.
     if list_ex (\<lambda>(a, c). changeSubEntries c \<noteq> calculatedSubEntries c) m
     then Inr (Some ''Change in Account numSubEntries does not match change in number of subentries'')
     else checkDeleted m (deltaEntry delta))"

subsection \<open>Validity of entries\<close>

fun strictlyIncreasing :: "(SignerKey \<times> uint32) list \<Rightarrow> bool" where
  "strictlyIncreasing (s # t # ss) \<longleftrightarrow> fst s < fst t \<and> strictlyIncreasing (t # ss)"
| "strictlyIncreasing _ \<longleftrightarrow> True"

definition accountIsValid :: "AccountEntry \<Rightarrow> uint32 \<Rightarrow> string option" where
  "accountIsValid ae version =
     (if sint (accBalance ae) < 0 then Some ''Account balance is negative''
      else if sint (seqNum ae) < 0 then Some ''Account seqNum is negative''
      else if numSubEntries ae > 0x7FFFFFFF then Some ''Account numSubEntries exceeds limit''
      else if and (accFlags ae) (not 7) \<noteq> 0 then Some ''Account flags are invalid''
      else if \<not> isString32Valid (homeDomain ae) then Some ''Account homeDomain is invalid''
      else if \<not> strictlyIncreasing (signers ae) then Some ''Account signers are not strictly increasing''
      else if version > 9 \<and> \<not> list_all (\<lambda>s. snd s \<le> 255 \<and> snd s \<noteq> 0) (signers ae)
      then Some ''Account signers have invalid weights''
      else None)"

definition trustLineIsValid :: "TrustLineEntry \<Rightarrow> string option" where
  "trustLineIsValid line =
     (if tlAsset line = ASSET_TYPE_NATIVE then Some ''TrustLine asset is native''
      else if \<not> isAssetValid (tlAsset line) then Some ''TrustLine asset is invalid''
      else if sint (tlBalance line) < 0 then Some ''TrustLine balance is negative''
      else if sint (tlLimit line) \<le> 0 then Some ''TrustLine balance is not positive''
      else if sint (tlLimit line) < sint (tlBalance line) then Some ''TrustLine balance exceeds limit''
      else if and (tlFlags line) (not 1) \<noteq> 0 then Some ''TrustLine flags are invalid''
      else None)"

definition offerIsValid :: "OfferEntry \<Rightarrow> string option" where
  "offerIsValid oe =
     (if sint (offerID oe) \<le> 0 then Some ''Offer offerID must be positive''
      else if \<not> isAssetValid (selling oe) then Some ''Offer selling asset is invalid''
      else if \<not> isAssetValid (buying oe) then Some ''Offer buying asset is invalid''
      else if sint (amount oe) \<le> 0 then Some ''Offer amount is not positive''
      else if sint (priceN (price oe)) \<le> 0 \<or> sint (priceD (price oe)) < 1 then Some ''Offer price is invalid''
      else if and (offerFlags oe) (not 1) \<noteq> 0 then Some ''Offer flags are invalid''
      else None)"

definition dataIsValid :: "DataEntry \<Rightarrow> string option" where
  "dataIsValid de =
     (if dataName de = [] then Some ''Data dataName is empty''
      else if \<not> isString32Valid (dataName de) then Some ''Data dataName is invalid''
      else None)"

definition entryIsValid :: "LedgerEntry \<Rightarrow> uint32 \<Rightarrow> uint32 \<Rightarrow> string option" where
  "entryIsValid le ledgerSeq' version =
     (if lastModifiedLedgerSeq le \<noteq> ledgerSeq'
      then Some ''LedgerEntry lastModifiedLedgerSeq does not equal LedgerHeader ledgerSeq''
      else
        (case entryData le of
           ACCOUNT ae \<Rightarrow> accountIsValid ae version
         | TRUSTLINE line \<Rightarrow> trustLineIsValid line
         | OFFER oe \<Rightarrow> offerIsValid oe
         | DATA de \<Rightarrow> dataIsValid de))"

fun firstInvalid :: "(LedgerKey \<times> EntryDelta) list \<Rightarrow> uint32 \<Rightarrow> uint32 \<Rightarrow> string option" where
  "firstInvalid [] seq version = None"
| "firstInvalid ((k, d) # ds) seq version =
     (case deltaCurrent d of
        None \<Rightarrow> firstInvalid ds seq version
      | Some le \<Rightarrow> (case entryIsValid le seq version of Some s \<Rightarrow> Some s | None \<Rightarrow> firstInvalid ds seq version))"

definition LedgerEntryIsValid_check :: operation_check where
  "LedgerEntryIsValid_check result delta =
     (let currLedgerSeq = ledgerSeq (headerCurrent delta)
      in Inr (if currLedgerSeq > 0x7FFFFFFF then Some ''LedgerHeader ledgerSeq exceeds limits''
              else firstInvalid (deltaEntry delta) currLedgerSeq (ledgerVersion (headerCurrent delta))))"

subsection \<open>Liabilities and offers\<close>

text \<open>The functions of \<open>LiabilitiesMatchOffers.cpp\<close> do not look at the protocol version of a header. The map from
  accounts and assets to liabilities is an association list; a difference is reported without saying which of
  the two liabilities it is.\<close>

definition offerExchange :: "LedgerEntry \<Rightarrow> ledger_error + ExchangeResultV10" where
  "offerExchange le =
     (case entryData le of
        OFFER oe \<Rightarrow> exchangeV10WithoutPriceErrorThresholds (price oe) (amount oe) INT64_MAX INT64_MAX INT64_MAX False
      | _ \<Rightarrow> Inl WrongUnion)"

definition entryBuying :: "LedgerEntry \<Rightarrow> ledger_error + int64" where
  "entryBuying le =
     (case entryData le of
        ACCOUNT acc \<Rightarrow> Inr (extBuying (accExt acc))
      | TRUSTLINE line \<Rightarrow> Inr (extBuying (tlExt line))
      | _ \<Rightarrow> Inl (RuntimeError ''Unknown LedgerEntry type''))"

definition entrySelling :: "LedgerEntry \<Rightarrow> ledger_error + int64" where
  "entrySelling le =
     (case entryData le of
        ACCOUNT acc \<Rightarrow> Inr (extSelling (accExt acc))
      | TRUSTLINE line \<Rightarrow> Inr (extSelling (tlExt line))
      | _ \<Rightarrow> Inl (RuntimeError ''Unknown LedgerEntry type''))"

definition checkAuthorized :: "LedgerEntry option \<Rightarrow> ledger_error + string option" where
  "checkAuthorized cur =
     (case cur of
        None \<Rightarrow> Inr None
      | Some e \<Rightarrow>
          (case entryData e of
             TRUSTLINE line \<Rightarrow>
               if and (tlFlags line) 1 = 0
               then bindE (entrySelling e) (\<lambda>s. bindE (entryBuying e) (\<lambda>b.
                    Inr (if 0 < sint s \<or> 0 < sint b then Some ''Unauthorized trust line has liabilities'' else None)))
               else Inr None
           | _ \<Rightarrow> Inr None))"

type_synonym liabilities_map = "((AccountID \<times> Asset) \<times> Liabilities) list"

definition addDelta :: "liabilities_map \<Rightarrow> AccountID \<Rightarrow> Asset \<Rightarrow> int64 \<Rightarrow> int64 \<Rightarrow> liabilities_map" where
  "addDelta m a x buy sell =
     (let l = (case map_of m (a, x) of Some l \<Rightarrow> l | None \<Rightarrow> \<lparr>buyingLiab = 0, sellingLiab = 0\<rparr>)
      in AList.update (a, x) \<lparr>buyingLiab = buyingLiab l + buy, sellingLiab = sellingLiab l + sell\<rparr> m)"

definition countsFor :: "Asset \<Rightarrow> AccountID \<Rightarrow> bool" where
  "countsFor x a \<longleftrightarrow> x = ASSET_TYPE_NATIVE \<or> getIssuer x \<noteq> Inr a"

definition addOrSubtractLiabilities :: "liabilities_map \<Rightarrow> LedgerEntry option \<Rightarrow> bool \<Rightarrow> ledger_error + liabilities_map" where
  "addOrSubtractLiabilities m entry isAdd =
     (case entry of
        None \<Rightarrow> Inr m
      | Some e \<Rightarrow>
          (let sign = (if isAdd then 1 else - 1 :: int64)
           in (case entryData e of
                 ACCOUNT acc \<Rightarrow>
                   bindE (entrySelling e) (\<lambda>s. bindE (entryBuying e) (\<lambda>b.
                   Inr (addDelta m (accountID acc) ASSET_TYPE_NATIVE (- (sign * b)) (- (sign * s)))))
               | TRUSTLINE line \<Rightarrow>
                   bindE (entrySelling e) (\<lambda>s. bindE (entryBuying e) (\<lambda>b.
                   Inr (addDelta m (tlAccountID line) (tlAsset line) (- (sign * b)) (- (sign * s)))))
               | OFFER oe \<Rightarrow>
                   bindE (if countsFor (selling oe) (sellerID oe)
                          then bindE (offerExchange e) (\<lambda>r. Inr (addDelta m (sellerID oe) (selling oe) 0 (sign * wheatReceived10 r)))
                          else Inr m) (\<lambda>m1.
                   if countsFor (buying oe) (sellerID oe)
                   then bindE (offerExchange e) (\<lambda>r. Inr (addDelta m1 (sellerID oe) (buying oe) (sign * sheepSend10 r) 0))
                   else Inr m1)
               | DATA _ \<Rightarrow> Inr m)))"

definition accumulateLiabilities ::
  "liabilities_map \<Rightarrow> LedgerEntry option \<Rightarrow> LedgerEntry option \<Rightarrow> ledger_error + liabilities_map" where
  "accumulateLiabilities m cur prev =
     bindE (addOrSubtractLiabilities m cur True) (\<lambda>m1. addOrSubtractLiabilities m1 prev False)"

fun liabilitiesLoop :: "(LedgerKey \<times> EntryDelta) list \<Rightarrow> liabilities_map \<Rightarrow> ledger_error + string option \<times> liabilities_map" where
  "liabilitiesLoop [] m = Inr (None, m)"
| "liabilitiesLoop ((k, d) # ds) m =
     bindE (checkAuthorized (deltaCurrent d)) (\<lambda>s.
     if s \<noteq> None then Inr (s, m)
     else bindE (accumulateLiabilities m (deltaCurrent d) (deltaPrevious d)) (\<lambda>m'. liabilitiesLoop ds m'))"

definition shouldCheckAccount :: "LedgerEntry \<Rightarrow> LedgerEntry option \<Rightarrow> uint32 \<Rightarrow> ledger_error + bool" where
  "shouldCheckAccount cur prev version =
     (case prev of
        None \<Rightarrow> Inr True
      | Some p \<Rightarrow>
          bindE (theAccount cur) (\<lambda>currAcc.
          bindE (theAccount p) (\<lambda>prevAcc.
          (let didBalanceDecrease = sint (accBalance currAcc) < sint (accBalance prevAcc)
           in if 10 \<le> version
              then
                bindE (entrySelling cur) (\<lambda>s1. bindE (entrySelling cur) (\<lambda>s2.
                bindE (entryBuying cur) (\<lambda>b1. bindE (entryBuying cur) (\<lambda>b2.
                Inr (didBalanceDecrease \<or> sint s2 < sint s1 \<or> sint b2 < sint b1)))))
              else Inr didBalanceDecrease))))"

definition checkBalanceAndLimit ::
  "LedgerHeader \<Rightarrow> LedgerEntry option \<Rightarrow> LedgerEntry option \<Rightarrow> uint32 \<Rightarrow> ledger_error + string option" where
  "checkBalanceAndLimit h cur prev version =
     (case cur of
        None \<Rightarrow> Inr None
      | Some e \<Rightarrow>
          (let liabs = (if 10 \<le> version
                        then bindE (entrySelling e) (\<lambda>s. bindE (entryBuying e) (\<lambda>b. Inr (s, b))) else Inr (0, 0))
           in (case entryData e of
                 ACCOUNT acc \<Rightarrow>
                   bindE (shouldCheckAccount e prev version) (\<lambda>should.
                   if should
                   then
                     bindE liabs (\<lambda>(s, b).
                     Inr (if sint (accBalance acc) < sint (getMinBalance h (numSubEntries acc) + s) \<or>
                             sint (INT64_MAX - accBalance acc) < sint b
                          then Some ''Balance not compatible with liabilities for account'' else None))
                   else Inr None)
               | TRUSTLINE line \<Rightarrow>
                   bindE liabs (\<lambda>(s, b).
                   Inr (if sint (tlBalance line) < sint s \<or> sint (tlLimit line - tlBalance line) < sint b
                        then Some ''Balance not compatible with liabilities for trustline'' else None))
               | _ \<Rightarrow> Inr None)))"

fun balanceLoop :: "LedgerHeader \<Rightarrow> (LedgerKey \<times> EntryDelta) list \<Rightarrow> ledger_error + string option" where
  "balanceLoop h [] = Inr None"
| "balanceLoop h ((k, d) # ds) =
     bindE (checkBalanceAndLimit h (deltaCurrent d) (deltaPrevious d) (ledgerVersion h)) (\<lambda>s.
     if s \<noteq> None then Inr s else balanceLoop h ds)"

definition LiabilitiesMatchOffers_check :: operation_check where
  "LiabilitiesMatchOffers_check result delta =
     (let h = headerCurrent delta
      in bindE (if 10 \<le> ledgerVersion h then liabilitiesLoop (deltaEntry delta) [] else Inr (None, [])) (\<lambda>(s, m).
         if s \<noteq> None then Inr s
         else if list_ex (\<lambda>(a, l). buyingLiab l \<noteq> 0 \<or> sellingLiab l \<noteq> 0) m
         then Inr (Some ''Change in liabilities differed from change in total liabilities of offers'')
         else balanceLoop h (deltaEntry delta)))"

subsection \<open>The manager\<close>

text \<open>An enabled check comes with its name and whether it is strict: only a strict one throws when it does not hold.
  The failures are recorded under the name of the check, with the ledger sequence.\<close>

record InvariantManager =
  mEnabled :: "(string \<times> bool \<times> operation_check) list"
  mFailureInformation :: "(string \<times> uint32 \<times> string) list"

definition onInvariantFailure :: "string \<Rightarrow> bool \<Rightarrow> string \<Rightarrow> uint32 \<Rightarrow> InvariantManager \<Rightarrow> ledger_error + InvariantManager" where
  "onInvariantFailure name strict message ledger im =
     (if strict then Inl (InvariantDoesNotHold message)
      else Inr (im\<lparr>mFailureInformation := AList.update name (ledger, message) (mFailureInformation im)\<rparr>))"

fun runChecks ::
  "(string \<times> bool \<times> operation_check) list \<Rightarrow> OperationResult \<Rightarrow> LedgerTxnDelta \<Rightarrow> InvariantManager \<Rightarrow>
   ledger_error + InvariantManager" where
  "runChecks [] result delta im = Inr im"
| "runChecks ((name, strict, check) # cs) result delta im =
     bindE (check result delta) (\<lambda>s.
     (case s of
        None \<Rightarrow> runChecks cs result delta im
      | Some message \<Rightarrow>
          bindE (onInvariantFailure name strict message (ledgerSeq (headerCurrent delta)) im) (\<lambda>im'.
          runChecks cs result delta im')))"

definition checkOnOperationApply ::
  "OperationResult \<Rightarrow> LedgerTxnDelta \<Rightarrow> InvariantManager \<Rightarrow> ledger_error + InvariantManager" where
  "checkOnOperationApply result delta im =
     (if ledgerVersion (headerCurrent delta) < 8 then Inr im else runChecks (mEnabled im) result delta im)"

end
