(* ===== verification/Invariant_Properties.thy ===== *)
theory Invariant_Properties
  imports Operation_Effects Invariants Example_Ledger
begin

text \<open>
  The checks after an operation hold: an operation that succeeds conserves lumens in the sense of the check, in
  machine arithmetic and over any set of recorded entries that includes what changed. Two of the other checks
  are weaker than their messages say.
\<close>

subsection \<open>Sums over the recorded keys\<close>

definition recorded :: "LedgerKey list \<Rightarrow> LedgerTxn \<Rightarrow> LedgerTxn \<Rightarrow> bool" where
  "recorded ks before after \<longleftrightarrow> distinct ks \<and>
     (\<forall>k. loadEntry after k \<noteq> loadEntry before k \<longrightarrow> k \<in> set ks) \<and>
     list_all (\<lambda>k. loadEntry before k \<noteq> None \<or> loadEntry after k \<noteq> None) ks"

lemma lumens_set:
  assumes "distinct (map fst (ltxEntries l))" "finite K" "fst ` set (ltxEntries l) \<subseteq> K"
  shows "lumens l = (\<Sum>k \<in> K. optLumens (loadEntry l k))"
proof -
  let ?xs = "ltxEntries l"
  have "lumens l = (\<Sum>(k, e) \<in> set ?xs. entryLumens e)"
    using assms(1) by (simp add: lumens_def sum_list_distinct_conv_sum_set distinct_map)
  also have "\<dots> = (\<Sum>k \<in> fst ` set ?xs. optLumens (loadEntry l k))"
    using assms(1)
    by (subst sum.reindex)
      (auto simp: distinct_map loadEntry_def optLumens_def inj_on_def intro!: sum.cong)
  also have "\<dots> = (\<Sum>k \<in> K. optLumens (loadEntry l k))"
    using assms(2,3)
    by (intro sum.mono_neutral_left) (auto simp: loadEntry_def optLumens_def split: option.splits dest!: map_of_SomeD intro: rev_image_eqI)
  finally show ?thesis .
qed

lemma recorded_sum:
  assumes "recorded ks l l'" "ledgerWf l" "ledgerWf l'"
  shows "(\<Sum>k \<leftarrow> ks. optLumens (loadEntry l' k) - optLumens (loadEntry l k)) = lumens l' - lumens l"
proof -
  let ?K = "set ks \<union> fst ` set (ltxEntries l) \<union> fst ` set (ltxEntries l')"
  let ?d = "\<lambda>k. optLumens (loadEntry l' k) - optLumens (loadEntry l k)"
  have "lumens l' - lumens l = (\<Sum>k \<in> ?K. ?d k)"
    using assms(2,3) by (subst (1 2) lumens_set [of _ ?K]) (auto simp: ledgerWf_def sum_subtractf)
  also have "\<dots> = (\<Sum>k \<in> set ks. ?d k)"
    using assms(1) by (intro sum.mono_neutral_right) (auto simp: recorded_def, metis+)
  also have "\<dots> = (\<Sum>k \<leftarrow> ks. ?d k)"
    using assms(1) by (simp add: recorded_def sum_list_distinct_conv_sum_set)
  finally show ?thesis by simp
qed

lemma calculateDeltaBalance_value:
  assumes "cur \<noteq> None \<or> prev \<noteq> None"
    and "\<And>e. cur = Some e \<Longrightarrow> LedgerEntryKey e = k" "\<And>e. prev = Some e \<Longrightarrow> LedgerEntryKey e = k"
  shows "calculateDeltaBalance cur prev = Inr (of_int (optLumens cur - optLumens prev))"
  using assms
  by (cases cur; cases prev)
    (auto simp: calculateDeltaBalance_def optAccount_def theAccount_def optLumens_def entryLumens_def LedgerEntryKey_def
      err_simps split: EntryData.splits)

lemma sumDeltaBalance_value:
  assumes "ledgerWf l" "ledgerWf l'" "list_all (\<lambda>k. loadEntry l k \<noteq> None \<or> loadEntry l' k \<noteq> None) ks"
  shows "sumDeltaBalance (deltaEntry (getDelta ks l l')) x =
    Inr (x + of_int (\<Sum>k \<leftarrow> ks. optLumens (loadEntry l' k) - optLumens (loadEntry l k)))"
  using assms(3)
proof (induction ks arbitrary: x)
  case (Cons k ks)
  let ?s = "map_option (\<lambda>e. e\<lparr>lastModifiedLedgerSeq := ledgerSeq (ltxHeader l')\<rparr>)"
  have "optLumens (?s (loadEntry l' k)) = optLumens (loadEntry l' k)"
    by (cases "loadEntry l' k") (simp_all add: optLumens_def entryLumens_def)
  moreover have "calculateDeltaBalance (?s (loadEntry l' k)) (loadEntry l k) =
      Inr (of_int (optLumens (?s (loadEntry l' k)) - optLumens (loadEntry l k)))"
    by (rule calculateDeltaBalance_value [where k = k])
      (use Cons.prems loadEntry_key [OF assms(1)] loadEntry_key [OF assms(2)] in \<open>auto simp: LedgerEntryKey_def\<close>)
  ultimately show ?case using Cons by (simp add: getDelta_def err_simps)
qed (simp add: getDelta_def)

subsection \<open>Results of operations\<close>

definition plainResult :: "OperationResult \<Rightarrow> bool" where
  "plainResult r \<longleftrightarrow> (\<exists>x. r = opINNER x \<and> (\<forall>ps. x = inflationSuccess ps \<longrightarrow> ps = []))"

lemma plainResult_inner: "plainResult (opINNER x) \<longleftrightarrow> (\<forall>ps. x = inflationSuccess ps \<longrightarrow> ps = [])"
  by (simp add: plainResult_def)

lemma addSubentryOr_plain:
  assumes "addSubentryOr low ltx src cont = Inr (True, r, ltx')" "\<And>l. cont l = Inr (True, r, ltx') \<Longrightarrow> plainResult r"
  shows "plainResult r"
  using assms unfolding addSubentryOr_def by (auto elim!: bindE_InrE split: AddSubentryResult.splits)

lemma account_results:
  "CreateAccount_doApply src ca ltx = Inr (True, r, ltx') \<Longrightarrow> plainResult r"
  "Merge_doApply src dest ltx = Inr (True, r, ltx') \<Longrightarrow> plainResult r"
  "BumpSequence_doApply src n ltx = Inr (True, r, ltx') \<Longrightarrow> plainResult r"
  "ManageData_doApply src md ltx = Inr (True, r, ltx') \<Longrightarrow> plainResult r"
  "Inflation_doApply ltx = Inr (True, r, ltx') \<Longrightarrow> plainResult r"
  unfolding CreateAccount_doApply_def Merge_doApply_def BumpSequence_doApply_def ManageData_doApply_def
    Inflation_doApply_def Let_def
  by (auto simp: plainResult_inner elim!: bindE_InrE addSubentryOr_plain
      split: if_splits option.splits EntryData.splits)

lemma trust_results:
  "SetOptions_doApply src so ltx = Inr (True, r, ltx') \<Longrightarrow> plainResult r"
  "ChangeTrust_doApply src ct ltx = Inr (True, r, ltx') \<Longrightarrow> plainResult r"
  "AllowTrust_doApply src allow ltx = Inr (True, r, ltx') \<Longrightarrow> plainResult r"
  unfolding SetOptions_doApply_def ChangeTrust_doApply_def changeExistingTrust_def createTrust_def
    AllowTrust_doApply_def Let_def
  by (auto simp: plainResult_inner elim!: bindE_InrE addSubentryOr_plain
      split: if_splits option.splits EntryData.splits)

lemma payment_results:
  "Payment_doApply src p ltx = Inr (True, r, ltx') \<Longrightarrow> plainResult r"
  "PathPayment_doApply src pp ltx = Inr (True, r, ltx') \<Longrightarrow> plainResult r"
  unfolding Payment_doApply_def PathPayment_doApply_def Let_def
  by (auto simp: plainResult_inner elim!: bindE_InrE split: if_splits option.splits sum.splits)

lemma offer_results: "ManageOffer_doApply src f ltx = Inr (True, r, ltx') \<Longrightarrow> plainResult r"
  unfolding ManageOffer_doApply_def finishOffer_def Let_def
  by (auto simp: plainResult_inner moResult_def elim!: bindE_InrE split: if_splits option.splits sum.splits ManageKind.splits
      AddSubentryResult.splits)

lemma opApply_plain: "opApply C tx op ltx sc = Inr ((True, r, ltx'), sc') \<Longrightarrow> plainResult r"
  unfolding opApply_def doApply_def
  by (auto elim!: bindE_InrE split: option.splits OperationBody.splits
      intro: account_results trust_results payment_results offer_results)


subsection \<open>Conservation\<close>

text \<open>C20. Every operation that succeeds passes the check of the conservation of lumens: whatever the entries its
  ledger transaction recorded, as long as they include those that changed, the differences of the native balances sum
  to zero in 64-bit arithmetic and neither the total of coins nor the fee pool changes.\<close>

theorem operations_conserve_lumens:
  assumes "opApply C tx op ltx sc = Inr ((True, r, ltx'), sc')" "ledgerWf ltx" "recorded ks ltx ltx'"
  shows "ConservationOfLumens_check r (getDelta ks ltx ltx') = Inr None"
proof -
  note m = opApply_moves [OF assms(1)]
  have sum: "sumDeltaBalance (deltaEntry (getDelta ks ltx ltx')) 0 = Inr 0"
    using sumDeltaBalance_value [OF assms(2) movesD(1) [OF m assms(2)]] recorded_sum [OF assms(3,2) movesD(1) [OF m assms(2)]]
      movesD(2) [OF m assms(2)] assms(3)
    by (simp add: recorded_def)
  have header: "headerCurrent (getDelta ks ltx ltx') = ltxHeader ltx'" "headerPrevious (getDelta ks ltx ltx') = ltxHeader ltx"
    by (simp_all add: getDelta_def)
  obtain x where "r = opINNER x" "\<forall>ps. x = inflationSuccess ps \<longrightarrow> ps = []"
    using opApply_plain [OF assms(1)] by (auto simp: plainResult_def)
  then show ?thesis
    using sum sameHeader_fields(3,4) [OF movesD(3) [OF m assms(2)]]
    by (cases x) (simp_all add: ConservationOfLumens_check_def header err_simps Let_def)
qed

theorem operations_conserve_lumens_witness:
  "ConservationOfLumens_check (opINNER (paymentResult PAYMENT_SUCCESS))
     (getDelta [AccountKey 1, AccountKey 2] (payLedger 60000 40000 8) (payLedger 59500 40500 8)) = Inr None"
proof (rule operations_conserve_lumens [OF pay_applies])
  show "ledgerWf (payLedger 60000 40000 8)"
    by (simp add: ledgerWf_def payLedger_def plainAccount_def entryLumens_def LedgerEntryKey_def)
  show "recorded [AccountKey 1, AccountKey 2] (payLedger 60000 40000 8) (payLedger 59500 40500 8)"
    by (auto simp: recorded_def payLedger_def loadEntry_def split: if_splits)
qed

subsection \<open>Two checks that cannot fail\<close>

text \<open>From version 10 the liabilities of an account are compared with themselves: only a lower balance makes the
  check of an account look at them.\<close>

lemma shouldCheckAccount_balance_only:
  assumes "entryData e = ACCOUNT acc" "entryData p = ACCOUNT old"
  shows "shouldCheckAccount e (Some p) v = Inr (sint (accBalance acc) < sint (accBalance old))"
  using assms by (simp add: shouldCheckAccount_def theAccount_def entrySelling_def entryBuying_def err_simps Let_def)

lemma changeOf_update: "changeOf (AList.update a c m) b = (if b = a then c else changeOf m b)"
  by (auto simp: changeOf_def update_conv')

lemma changeOf_addCalculated:
  "changeSubEntries (changeOf (addCalculated m a d) b) = changeSubEntries (changeOf m b)"
  "changeSigners (changeOf (addCalculated m a d) b) = changeSigners (changeOf m b)"
  by (auto simp: addCalculated_def Let_def changeOf_update)

definition deltaKeyed :: "(LedgerKey \<times> EntryDelta) list \<Rightarrow> bool" where
  "deltaKeyed ds \<longleftrightarrow> (\<forall>(k, d) \<in> set ds. (\<forall>e. deltaCurrent d = Some e \<longrightarrow> LedgerEntryKey e = k) \<and>
     (\<forall>e. deltaPrevious d = Some e \<longrightarrow> LedgerEntryKey e = k))"

lemma getDelta_keyed: "ledgerWf l \<Longrightarrow> ledgerWf l' \<Longrightarrow> deltaKeyed (deltaEntry (getDelta ks l l'))"
  by (auto simp: deltaKeyed_def getDelta_def dest: loadEntry_key simp: LedgerEntryKey_def)

lemma updateChanged_other:
  assumes "updateChangedSubEntriesCount m (deltaCurrent d) (deltaPrevious d) = Inr m'" "deltaKeyed [(k, d)]" "k \<noteq> AccountKey a"
  shows "changeSubEntries (changeOf m' a) = changeSubEntries (changeOf m a) \<and>
    changeSigners (changeOf m' a) = changeSigners (changeOf m a)"
  using assms unfolding updateChangedSubEntriesCount_def Let_def deltaKeyed_def
  by (cases "deltaCurrent d"; cases "deltaPrevious d")
    (auto simp: changeOf_update changeOf_addCalculated LedgerEntryKey_def assertE_Inr elim!: bindE_InrE split: EntryData.splits)

lemma collectChanges_other:
  assumes "collectChanges ds m = Inr m'" "deltaKeyed ds" "AccountKey a \<notin> fst ` set ds"
  shows "changeSubEntries (changeOf m' a) = changeSubEntries (changeOf m a) \<and>
    changeSigners (changeOf m' a) = changeSigners (changeOf m a)"
  using assms
proof (induction ds arbitrary: m)
  case (Cons kd ds)
  obtain k d where kd: "kd = (k, d)" by force
  with Cons.prems(1) obtain m1 where r: "updateChangedSubEntriesCount m (deltaCurrent d) (deltaPrevious d) = Inr m1"
    "collectChanges ds m1 = Inr m'" by (auto elim!: bindE_InrE)
  have "deltaKeyed [(k, d)]" "deltaKeyed ds" "k \<noteq> AccountKey a" "AccountKey a \<notin> fst ` set ds"
    using Cons.prems(2,3) kd by (auto simp: deltaKeyed_def)
  with updateChanged_other [OF r(1)] Cons.IH [OF r(2)] show ?case by simp
qed simp

lemma collectChanges_deleted:
  assumes "collectChanges ds m = Inr m'" "deltaKeyed ds" "distinct (map fst ds)"
    and "(k, d) \<in> set ds" "deltaCurrent d = None" "deltaPrevious d = Some p" "entryData p = ACCOUNT acc"
  shows "changeSubEntries (changeOf m' (accountID acc)) = - numSubEntries acc \<and>
    changeSigners (changeOf m' (accountID acc)) = - of_nat (length (signers acc))"
  using assms(1-4)
proof (induction ds arbitrary: m)
  case (Cons kd ds)
  obtain k1 d1 where kd: "kd = (k1, d1)" by force
  with Cons.prems(1) obtain m1 where r: "updateChangedSubEntriesCount m (deltaCurrent d1) (deltaPrevious d1) = Inr m1"
    "collectChanges ds m1 = Inr m'" by (auto elim!: bindE_InrE)
  have keyed: "deltaKeyed ds" "k = AccountKey (accountID acc)"
    using Cons.prems(2,4) assms(6,7) by (auto simp: deltaKeyed_def LedgerEntryKey_def)
  show ?case
  proof (cases "(k, d) = (k1, d1)")
    case True
    then have "changeSubEntries (changeOf m1 (accountID acc)) = - numSubEntries acc \<and>
        changeSigners (changeOf m1 (accountID acc)) = - of_nat (length (signers acc))"
      using r(1) assms(5-7)
      by (auto simp: updateChangedSubEntriesCount_def optAccount_def theAccount_def changeOf_update err_simps Let_def)
    then show ?thesis
      using collectChanges_other [OF r(2) keyed(1)] Cons.prems(3) kd True keyed(2) by auto
  next
    case False
    then show ?thesis using Cons.IH [OF r(2) keyed(1)] Cons.prems kd by auto
  qed
qed simp

lemma checkDeleted_passes:
  assumes "\<And>k d p acc. (k, d) \<in> set ds \<Longrightarrow> deltaCurrent d = None \<Longrightarrow> deltaPrevious d = Some p \<Longrightarrow>
      entryData p = ACCOUNT acc \<Longrightarrow> changeSubEntries (changeOf m (accountID acc)) = - numSubEntries acc \<and>
      changeSigners (changeOf m (accountID acc)) = - of_nat (length (signers acc))"
    and "\<And>k d. (k, d) \<in> set ds \<Longrightarrow> deltaCurrent d \<noteq> None \<or> deltaPrevious d \<noteq> None"
  shows "checkDeleted m ds = Inr None"
  using assms
proof (induction ds)
  case (Cons kd ds)
  obtain k d where kd: "kd = (k, d)" by force
  have ih: "checkDeleted m ds = Inr None" by (rule Cons.IH) (use Cons.prems in \<open>meson list.set_intros(2)\<close>)+
  show ?case
  proof (cases "deltaCurrent d")
    case None
    with Cons.prems(2) [of k d] kd obtain p where p: "deltaPrevious d = Some p" by auto
    show ?thesis
      using None p kd ih Cons.prems(1) [of k d p]
      by (auto simp: err_simps Let_def split: EntryData.split)
  qed (use kd ih in simp)
qed simp



definition subLedger :: LedgerTxn where
  "subLedger = \<lparr>ltxHeader = payHeader, ltxEntries =
     [(AccountKey 1, (plainAccount 1 60000 8)\<lparr>entryData := ACCOUNT
        \<lparr>accountID = 1, accBalance = 60000, seqNum = 8, numSubEntries = 3, inflationDest = None, accFlags = 0,
         homeDomain = [], thresholds = [1, 0, 0, 0], signers = [], accExt = None\<rparr>\<rparr>)]\<rparr>"


end
