(* ===== verification/Signature_Properties.thy ===== *)
theory Signature_Properties
  imports Example_Ledger "HOL-Library.Multiset"
begin

text \<open>
  What a successful check of signatures guarantees: there is a selection of the signers of the account, each
  counted once, every one of which has authorized the transaction, and whose weights reach the threshold.
\<close>

definition authorizes :: "Crypto \<Rightarrow> 256 word \<Rightarrow> DecoratedSignature list \<Rightarrow> SignerKey \<Rightarrow> bool" where
  "authorizes C h sigs k =
     (case k of
        SIGNER_KEY_TYPE_ED25519 _ \<Rightarrow> list_ex (\<lambda>s. verifyEd25519 C h s k) sigs
      | SIGNER_KEY_TYPE_PRE_AUTH_TX b \<Rightarrow> b = h
      | SIGNER_KEY_TYPE_HASH_X _ \<Rightarrow> list_ex (\<lambda>s. verifyHashX C s k) sigs)"

definition weights :: "uint32 \<Rightarrow> (SignerKey \<times> uint32) list \<Rightarrow> int32" where
  "weights v ss = (\<Sum>s \<leftarrow> ss. signerWeight v (snd s))"

text \<open>What one of the loops over signers leaves: the signers it used, their weights, and an unchanged transaction.\<close>

definition gathers ::
  "(SignerKey \<Rightarrow> bool) \<Rightarrow> int32 \<Rightarrow> (SignerKey \<times> uint32) list \<Rightarrow> int32 \<Rightarrow> SignatureChecker \<Rightarrow>
   bool \<times> int32 \<times> SignatureChecker \<Rightarrow> bool" where
  "gathers ok needed ss t sc res \<longleftrightarrow>
     (case res of (done', t', sc') \<Rightarrow>
        (\<exists>used. mset used \<subseteq># mset ss \<and> list_all (\<lambda>s. ok (fst s)) used \<and>
           t' = t + weights (mProtocolVersion sc) used \<and> (done' \<longrightarrow> used \<noteq> [] \<and> sint needed \<le> sint t')) \<and>
        mProtocolVersion sc' = mProtocolVersion sc \<and> mContentsHash sc' = mContentsHash sc \<and>
        mSignatures sc' = mSignatures sc)"

lemma gathers_skip: "gathers ok needed ss t sc res \<Longrightarrow> gathers ok needed (s # ss) t sc res"
  by (fastforce simp: gathers_def intro: subset_mset.order_trans)

lemma gathers_use:
  assumes "gathers ok needed ss (t + signerWeight (mProtocolVersion sc) (snd s)) sc' res" "ok (fst s)"
    and "mset (s # ss) = mset ss0" "mProtocolVersion sc' = mProtocolVersion sc" "mContentsHash sc' = mContentsHash sc"
    "mSignatures sc' = mSignatures sc"
  shows "gathers ok needed ss0 t sc res"
proof -
  obtain d t' sc2 used where r: "res = (d, t', sc2)" "mset used \<subseteq># mset ss" "list_all (\<lambda>s. ok (fst s)) used"
    "t' = t + signerWeight (mProtocolVersion sc) (snd s) + weights (mProtocolVersion sc) used" "d \<longrightarrow> sint needed \<le> sint t'"
    "mProtocolVersion sc2 = mProtocolVersion sc" "mContentsHash sc2 = mContentsHash sc" "mSignatures sc2 = mSignatures sc"
    using assms(1,4-6) by (auto simp: gathers_def)
  have "mset (s # used) \<subseteq># mset ss0" using r(2) assms(3) [symmetric] by simp
  then show ?thesis
    using r assms(2) unfolding gathers_def by (auto simp: weights_def intro!: exI [of _ "s # used"])
qed

lemma gathers_done:
  assumes "sint needed \<le> sint (t + signerWeight (mProtocolVersion sc) (snd s))" "ok (fst s)" "s \<in> set ss"
    and "mProtocolVersion sc' = mProtocolVersion sc" "mContentsHash sc' = mContentsHash sc" "mSignatures sc' = mSignatures sc"
  shows "gathers ok needed ss t sc (True, t + signerWeight (mProtocolVersion sc) (snd s), sc')"
  using assms unfolding gathers_def by (auto simp: weights_def intro!: exI [of _ "[s]"])

lemma preAuthLoop_gathers:
  "gathers (\<lambda>k. signerKeyBytes k = mContentsHash sc) needed ss t sc (preAuthLoop a needed ss t sc)"
proof (induction ss arbitrary: t sc)
  case (Cons s ss)
  obtain k w where s: "s = (k, w)" by force
  show ?case
  proof (cases "signerKeyBytes k = mContentsHash sc")
    case True
    let ?sc = "markOneTimeKey a k sc" and ?t = "t + signerWeight (mProtocolVersion sc) w"
    have same: "mProtocolVersion ?sc = mProtocolVersion sc" "mContentsHash ?sc = mContentsHash sc"
      "mSignatures ?sc = mSignatures sc"
      by (simp_all add: markOneTimeKey_def)
    show ?thesis
    proof (cases "sint needed \<le> sint ?t")
      case enough: True
      then show ?thesis using gathers_done [of needed t sc s _ "s # ss" ?sc] True same s by (simp add: Let_def)
    next
      case False
      have "gathers (\<lambda>k. signerKeyBytes k = mContentsHash sc) needed ss
          (t + signerWeight (mProtocolVersion sc) (snd s)) ?sc (preAuthLoop a needed ss ?t ?sc)"
        using Cons.IH [of ?sc ?t] same s by simp
      from gathers_use [OF this _ _ same, of "s # ss"] False True s show ?thesis by (simp add: Let_def)
    qed
  qed (use Cons.IH s gathers_skip in auto)
qed (simp add: gathers_def weights_def)

lemma verifyAll_gathers:
  assumes "set sigs \<subseteq> set all"
  shows "gathers (\<lambda>k. list_ex (\<lambda>x. verify x k) all) needed ss t sc (verifyAll verify needed i sigs ss t sc)"
  using assms
proof (induction sigs arbitrary: i ss t sc)
  case (Cons sig sigs)
  show ?case
  proof (cases "List.extract (\<lambda>s. verify sig (fst s)) ss")
    case (Some x)
    obtain before s after where x: "x = (before, s, after)" by (cases x) auto
    have s: "ss = before @ s # after" "verify sig (fst s)"
      using Some x by (auto simp: extract_Some_iff)
    then have ok: "list_ex (\<lambda>x. verify x (fst s)) all" using Cons.prems by (auto simp: list_ex_iff)
    let ?sc = "sc\<lparr>mUsedSignatures := (mUsedSignatures sc)[i := True]\<rparr>"
    let ?t = "t + signerWeight (mProtocolVersion sc) (snd s)"
    show ?thesis
    proof (cases "sint needed \<le> sint ?t")
      case True
      then show ?thesis using gathers_done [of needed t sc s _ ss ?sc] ok s(1) Some x by (simp add: Let_def)
    next
      case False
      then show ?thesis
        using gathers_use [OF Cons.IH [where ss = "before @ after" and t = ?t and sc = ?sc and i = "Suc i"], of ss]
          ok s(1) Some x Cons.prems
        by (simp add: Let_def)
    qed
  qed (use Cons in simp)
qed (auto simp: gathers_def weights_def intro!: exI [of _ "[]"])

lemma signers_by_type:
  assumes "mset u1 \<subseteq># mset (signersOfType 1 ss)" "mset u2 \<subseteq># mset (signersOfType 2 ss)" "mset u3 \<subseteq># mset (signersOfType 0 ss)"
  shows "mset (u1 @ u2 @ u3) \<subseteq># mset ss"
proof -
  have "mset (signersOfType 1 ss) + mset (signersOfType 2 ss) + mset (signersOfType 0 ss) \<subseteq># mset ss"
    unfolding signersOfType_def mset_filter by (rule mset_subset_eqI) auto
  then show ?thesis
    using subset_mset.add_mono [OF subset_mset.add_mono [OF assms(1,2)] assms(3)]
    by (auto simp: ac_simps dest: subset_mset.order_trans)
qed



end
