(* ===== verification/Transaction_Set.thy ===== *)
theory Transaction_Set
  imports Transaction_Frame "HOL-Library.Multiset"
begin

text \<open>
  The set of transactions a ledger closes with, \<open>src/src/herder/TxSetFrame.cpp\<close>: the order in which it is hashed
  and applied, the surge pricing that cuts it down to size, the removal of invalid transactions, its validity and
  its base fee. The hash of an envelope and of a set are parameters (SHA-256 over XDR). A \<open>std::unordered_map\<close>
  from accounts to queues is an association list; the code's results do not depend on its order except where
  hashes are equal.
\<close>

record TxHashes =
  getFullHash :: "TransactionEnvelope \<Rightarrow> 256 word"
  hashSet :: "256 word \<Rightarrow> TransactionEnvelope list \<Rightarrow> 256 word"

record TxSetFrame =
  mHashIsValid :: bool
  mHash :: "256 word"
  mPreviousLedgerHash :: "256 word"
  mTransactions :: "TransactionEnvelope list"

type_synonym tx_queue = "TransactionEnvelope list"

definition sourceOf :: "TransactionEnvelope \<Rightarrow> AccountID" where
  "sourceOf env = txSourceAccount (envTx env)"

definition seqOf :: "TransactionEnvelope \<Rightarrow> int" where
  "seqOf env = sint (txSeqNum (envTx env))"

subsection \<open>Orders\<close>

definition newTxSet :: "256 word \<Rightarrow> TxSetFrame" where
  "newTxSet previousLedgerHash =
     \<lparr>mHashIsValid = False, mHash = 0, mPreviousLedgerHash = previousLedgerHash, mTransactions = []\<rparr>"

definition txSetAdd :: "TransactionEnvelope \<Rightarrow> TxSetFrame \<Rightarrow> TxSetFrame" where
  "txSetAdd tx fs = fs\<lparr>mTransactions := mTransactions fs @ [tx], mHashIsValid := False\<rparr>"

definition setPreviousLedgerHash :: "256 word \<Rightarrow> TxSetFrame \<Rightarrow> TxSetFrame" where
  "setPreviousLedgerHash h fs = fs\<lparr>mPreviousLedgerHash := h, mHashIsValid := False\<rparr>"

definition removeTx :: "TransactionEnvelope \<Rightarrow> TxSetFrame \<Rightarrow> TxSetFrame" where
  "removeTx tx fs = fs\<lparr>mTransactions := remove1 tx (mTransactions fs), mHashIsValid := False\<rparr>"

definition sortForHash :: "TxHashes \<Rightarrow> TxSetFrame \<Rightarrow> TxSetFrame" where
  "sortForHash H fs = fs\<lparr>mTransactions := sort_key (getFullHash H) (mTransactions fs), mHashIsValid := False\<rparr>"

definition getContentsHash :: "TxHashes \<Rightarrow> TxSetFrame \<Rightarrow> 256 word \<times> TxSetFrame" where
  "getContentsHash H fs =
     (if mHashIsValid fs then (mHash fs, fs)
      else
        (let fs1 = sortForHash H fs;
             h = hashSet H (mPreviousLedgerHash fs1) (mTransactions fs1)
         in (h, fs1\<lparr>mHash := h, mHashIsValid := True\<rparr>)))"

definition addToQueue :: "TransactionEnvelope \<Rightarrow> (AccountID \<times> tx_queue) list \<Rightarrow> (AccountID \<times> tx_queue) list" where
  "addToQueue tx m = AList.update (sourceOf tx) ((case map_of m (sourceOf tx) of None \<Rightarrow> [] | Some q \<Rightarrow> q) @ [tx]) m"

definition buildAccountTxQueues :: "TransactionEnvelope list \<Rightarrow> (AccountID \<times> tx_queue) list" where
  "buildAccountTxQueues txs = map (\<lambda>(a, q). (a, sort_key seqOf q)) (fold addToQueue txs [])"

definition popFronts :: "(AccountID \<times> tx_queue) list \<Rightarrow> (AccountID \<times> tx_queue) list" where
  "popFronts qs = filter (\<lambda>(a, q). q \<noteq> []) (map (\<lambda>(a, q). (a, tl q)) qs)"

lemma popFronts_size:
  "qs \<noteq> [] \<Longrightarrow> (\<Sum>(a, q) \<leftarrow> popFronts qs. Suc (length q)) < (\<Sum>(a, q) \<leftarrow> qs. Suc (length q))"
proof (induction qs)
  case (Cons x qs)
  obtain a q where x: "x = (a, q)" by (cases x)
  show ?case using Cons.IH by (cases q; cases "qs = []") (auto simp: x popFronts_def)
qed simp

function batches :: "(AccountID \<times> tx_queue) list \<Rightarrow> TransactionEnvelope list list" where
  "batches qs = (if qs = [] then [] else map (\<lambda>(a, q). hd q) qs # batches (popFronts qs))"
  by pat_completeness auto
termination
  by (relation "measure (\<lambda>qs. \<Sum>(a, q) \<leftarrow> qs. Suc (length q))") (auto dest: popFronts_size)

definition lessThanXored :: "256 word \<Rightarrow> 256 word \<Rightarrow> 256 word \<Rightarrow> bool" where
  "lessThanXored l r x \<longleftrightarrow> xor x l < xor x r"

text \<open>\<open>std::sort\<close> with \<open>lessThanXored\<close> is a sort by the hash exclusive-or the seed.\<close>

fun applyBatches :: "TxHashes \<Rightarrow> TransactionEnvelope list list \<Rightarrow> TxSetFrame \<Rightarrow> TransactionEnvelope list \<times> TxSetFrame" where
  "applyBatches H [] fs = ([], fs)"
| "applyBatches H (batch # bs) fs =
     (let (setHash, fs1) = getContentsHash H fs;
          (rest, fs2) = applyBatches H bs fs1
      in (sort_key (\<lambda>tx. xor setHash (getFullHash H tx)) batch @ rest, fs2))"

definition sortForApply :: "TxHashes \<Rightarrow> TxSetFrame \<Rightarrow> TransactionEnvelope list \<times> TxSetFrame" where
  "sortForApply H fs = applyBatches H (batches (buildAccountTxQueues (mTransactions fs))) fs"

subsection \<open>Size and fees\<close>

definition MAX_OPS_PER_TX :: nat where "MAX_OPS_PER_TX = 100"

definition sizeOp :: "TxSetFrame \<Rightarrow> nat" where
  "sizeOp fs = foldl (\<lambda>a tx. a + length (txOperations (envTx tx))) 0 (mTransactions fs)"

definition sizeTx :: "TxSetFrame \<Rightarrow> nat" where
  "sizeTx fs = length (mTransactions fs)"

definition setSize :: "LedgerHeader \<Rightarrow> TxSetFrame \<Rightarrow> nat" where
  "setSize lh fs = (if 11 \<le> ledgerVersion lh then sizeOp fs else sizeTx fs)"

fun baseFeeLoop :: "TransactionEnvelope list \<Rightarrow> nat \<Rightarrow> int64 \<Rightarrow> ledger_error + nat \<times> int64" where
  "baseFeeLoop [] ops lowBaseFee = Inr (ops, lowBaseFee)"
| "baseFeeLoop (tx # txs) ops lowBaseFee =
     (let txOps = length (txOperations (envTx tx))
      in bindE (numericE (bigDivide (ucast (txFee (envTx tx))) 1 (of_nat txOps) ROUND_UP)) (\<lambda>txBaseFee.
         baseFeeLoop txs (ops + txOps) (min64 lowBaseFee txBaseFee)))"

definition getBaseFee :: "LedgerHeader \<Rightarrow> TxSetFrame \<Rightarrow> ledger_error + int64" where
  "getBaseFee lh fs =
     (if 11 \<le> ledgerVersion lh
      then
        bindE (baseFeeLoop (mTransactions fs) 0 INT64_MAX) (\<lambda>(ops, lowBaseFee).
        (let maxSize = unat (maxTxSetSize lh);
             surgeOpsCutoff = (if MAX_OPS_PER_TX \<le> maxSize then maxSize - MAX_OPS_PER_TX else 0)
         in Inr (if ops > surgeOpsCutoff then lowBaseFee else ucast (baseFee lh))))
      else Inr (ucast (baseFee lh)))"

definition getTotalFees :: "LedgerHeader \<Rightarrow> TxSetFrame \<Rightarrow> ledger_error + int64" where
  "getTotalFees lh fs =
     bindE (getBaseFee lh fs) (\<lambda>bf. Inr (foldl (\<lambda>t tx. t + getFee lh bf (envTx tx)) 0 (mTransactions fs)))"

subsection \<open>Surge pricing\<close>

text \<open>The comparison of two non-empty queues by the fee rate of their first transactions, exact in 128 bits, then by the hash
  mixed with a random seed. A priority queue gives one of the queues that no other exceeds.\<close>

definition surgeLess :: "TxHashes \<Rightarrow> LedgerHeader \<Rightarrow> 256 word \<Rightarrow> tx_queue \<Rightarrow> tx_queue \<Rightarrow> bool" where
  "surgeLess H h seed tx1 tx2 =
     (if tx1 = [] then tx2 \<noteq> []
      else if tx2 = [] then False
      else
        (let top1 = hd tx1; top2 = hd tx2;
             v1 = unat (txFee (envTx top1)) * unat (getMinFee h (envTx top2));
             v2 = unat (txFee (envTx top2)) * unat (getMinFee h (envTx top1))
         in if v1 < v2 then True
            else if v1 > v2 then False
            else lessThanXored (getFullHash H top1) (getFullHash H top2) seed))"

fun extractTop :: "('q \<Rightarrow> 'q \<Rightarrow> bool) \<Rightarrow> 'q \<Rightarrow> 'q list \<Rightarrow> 'q \<times> 'q list" where
  "extractTop lt q [] = (q, [])"
| "extractTop lt q (p # ps) =
     (if lt q p then (let (t, r) = extractTop lt p ps in (t, q # r))
      else (let (t, r) = extractTop lt q ps in (t, p # r)))"

lemma extractTop_mset: "extractTop lt q qs = (t, r) \<Longrightarrow> add_mset t (mset r) = add_mset q (mset qs)"
proof (induction qs arbitrary: q t r)
  case (Cons p ps)
  then show ?case by (fastforce simp: add_mset_commute split: if_splits prod.splits)
qed simp

lemma extractTop_size:
  assumes "extractTop lt q qs = (t, r)"
  shows "length t + sum_list (map length r) = length q + sum_list (map length qs) \<and> length r = length qs"
proof

  note m = extractTop_mset [OF assms]
  have "sum_mset (image_mset length (add_mset t (mset r))) = sum_mset (image_mset length (add_mset q (mset qs)))"
    using m by simp
  then show "length t + sum_list (map length r) = length q + sum_list (map length qs)"
    by (simp flip: sum_mset_sum_list)
  show "length r = length qs" using arg_cong [OF m, of size] by simp
qed

function surgeLoop ::
  "(tx_queue \<Rightarrow> tx_queue \<Rightarrow> bool) \<Rightarrow> bool \<Rightarrow> nat \<Rightarrow> tx_queue list \<Rightarrow> TransactionEnvelope list \<Rightarrow> TransactionEnvelope list" where
  "surgeLoop lt maxIsOps opsLeft [] updatedSet = updatedSet"
| "surgeLoop lt maxIsOps opsLeft (q # qs) updatedSet =
     (if opsLeft = 0 then updatedSet
      else
        (let (cur, rest) = extractTop lt q qs
         in (case cur of
               [] \<Rightarrow> surgeLoop lt maxIsOps opsLeft rest updatedSet
             | curTopTx # others \<Rightarrow>
                 (let opsCount = (if maxIsOps then length (txOperations (envTx curTopTx)) else MAX_OPS_PER_TX)
                  in if opsCount \<le> opsLeft
                     then surgeLoop lt maxIsOps (opsLeft - opsCount) (if others = [] then rest else others # rest)
                            (updatedSet @ [curTopTx])
                     else surgeLoop lt maxIsOps opsLeft rest updatedSet))))"
  by pat_completeness auto
termination
  by (relation "measure (\<lambda>(lt, m, n, qs, u). sum_list (map length qs) + length qs)")
    (auto dest!: extractTop_size [OF sym])

definition surgePricingFilter :: "TxHashes \<Rightarrow> 256 word \<Rightarrow> LedgerHeader \<Rightarrow> TxSetFrame \<Rightarrow> TxSetFrame" where
  "surgePricingFilter H seed h fs =
     (let maxIsOps = (11 \<le> ledgerVersion h);
          maxSize = unat (maxTxSetSize h);
          opsLeft = (if maxIsOps then maxSize else maxSize * MAX_OPS_PER_TX);
          curSizeOps = (if maxIsOps then sizeOp fs else sizeTx fs * MAX_OPS_PER_TX)
      in if curSizeOps > opsLeft
         then sortForHash H (fs\<lparr>mTransactions :=
                surgeLoop (surgeLess H h seed) maxIsOps opsLeft (map snd (buildAccountTxQueues (mTransactions fs))) []\<rparr>)
         else fs)"

subsection \<open>Validity\<close>

text \<open>\<open>checkOrTrim\<close> with the callbacks of its two callers: one returns false for an invalid transaction and for an
  account that cannot pay its fees, the other removes the transaction or all transactions of the account.\<close>

record Trimming =
  trimFrame :: TxSetFrame
  trimmed :: "TransactionEnvelope list"

definition trimTx :: "TransactionEnvelope \<Rightarrow> Trimming \<Rightarrow> Trimming" where
  "trimTx tx s = \<lparr>trimFrame = removeTx tx (trimFrame s), trimmed = trimmed s @ [tx]\<rparr>"

text \<open>The loop over the transactions of one account: nothing when the check gives up, or the last valid transaction, the
  fees and the state.\<close>

fun accountLoop ::
  "Crypto \<Rightarrow> LedgerTxn \<Rightarrow> bool \<Rightarrow> tx_queue \<Rightarrow> int64 \<Rightarrow> int64 \<Rightarrow> TransactionEnvelope option \<Rightarrow> Trimming \<Rightarrow>
   ledger_error + (TransactionEnvelope option \<times> int64 \<times> Trimming) option" where
  "accountLoop C ltx trim [] lastSeq totFee lastTx s = Inr (Some (lastTx, totFee, s))"
| "accountLoop C ltx trim (tx # txs) lastSeq totFee lastTx s =
     bindE (checkValid C tx ltx lastSeq) (\<lambda>valid.
     if \<not> valid
     then (if trim then accountLoop C ltx trim txs lastSeq totFee lastTx (trimTx tx s) else Inr None)
     else accountLoop C ltx trim txs (txSeqNum (envTx tx)) (totFee + ucast (txFee (envTx tx))) (Some tx) s)"

definition checkAccount ::
  "Crypto \<Rightarrow> LedgerTxn \<Rightarrow> bool \<Rightarrow> tx_queue \<Rightarrow> Trimming \<Rightarrow> ledger_error + Trimming option" where
  "checkAccount C ltx trim q s =
     bindE (accountLoop C ltx trim q 0 0 None s) (\<lambda>r.
     (case r of
        None \<Rightarrow> Inr None
      | Some (None, totFee, s') \<Rightarrow> Inr (Some s')
      | Some (Some lastTx, totFee, s') \<Rightarrow>
          bindE (currentEntry ltx (if accountExists ltx (sourceOf lastTx) then Some (AccountKey (sourceOf lastTx)) else None))
            (\<lambda>source.
          bindE (getAvailableBalance (ltxHeader ltx) source) (\<lambda>available.
          if sint available < sint totFee
          then (if trim then Inr (Some (fold trimTx q s')) else Inr None)
          else Inr (Some s')))))"

fun checkAccounts ::
  "Crypto \<Rightarrow> LedgerTxn \<Rightarrow> bool \<Rightarrow> (AccountID \<times> tx_queue) list \<Rightarrow> Trimming \<Rightarrow> ledger_error + Trimming option" where
  "checkAccounts C ltx trim [] s = Inr (Some s)"
| "checkAccounts C ltx trim ((a, q) # qs) s =
     bindE (checkAccount C ltx trim q s) (\<lambda>r.
     (case r of None \<Rightarrow> Inr None | Some s' \<Rightarrow> checkAccounts C ltx trim qs s'))"

fun hashSorted :: "TxHashes \<Rightarrow> 256 word \<Rightarrow> TransactionEnvelope list \<Rightarrow> bool" where
  "hashSorted H lastHash [] \<longleftrightarrow> True"
| "hashSorted H lastHash (tx # txs) \<longleftrightarrow> \<not> getFullHash H tx < lastHash \<and> hashSorted H (getFullHash H tx) txs"

definition checkOrTrim :: "TxHashes \<Rightarrow> Crypto \<Rightarrow> LedgerTxn \<Rightarrow> bool \<Rightarrow> TxSetFrame \<Rightarrow> ledger_error + bool \<times> Trimming" where
  "checkOrTrim H C ltx trim fs =
     (let s = \<lparr>trimFrame = fs, trimmed = []\<rparr>
      in if \<not> hashSorted H 0 (mTransactions fs) then Inr (False, s)
         else
           bindE (checkAccounts C ltx trim (buildAccountTxQueues (mTransactions fs)) s) (\<lambda>r.
           Inr (case r of None \<Rightarrow> (False, s) | Some s' \<Rightarrow> (True, s'))))"

definition trimInvalid :: "TxHashes \<Rightarrow> Crypto \<Rightarrow> LedgerTxn \<Rightarrow> TxSetFrame \<Rightarrow> ledger_error + TransactionEnvelope list \<times> TxSetFrame" where
  "trimInvalid H C ltx fs =
     bindE (checkOrTrim H C ltx True (sortForHash H fs)) (\<lambda>(_, s). Inr (trimmed s, trimFrame s))"

definition TxSet_checkValid :: "TxHashes \<Rightarrow> Crypto \<Rightarrow> 256 word \<Rightarrow> LedgerTxn \<Rightarrow> TxSetFrame \<Rightarrow> ledger_error + bool" where
  "TxSet_checkValid H C lclHash ltx fs =
     (if lclHash \<noteq> mPreviousLedgerHash fs then Inr False
      else if setSize (ltxHeader ltx) fs > unat (maxTxSetSize (ltxHeader ltx)) then Inr False
      else bindE (checkOrTrim H C ltx False fs) (\<lambda>(ok, _). Inr ok))"

end
