(* ===== verification/Transaction_Queue.thy ===== *)
theory Transaction_Queue
  imports Transaction_Set
begin

text \<open>
  The queue of pending transactions, \<open>src/src/herder/TransactionQueue.cpp\<close>: one map from accounts to their transactions
  per age, youngest first, with the cached maximum of sequence numbers and total of fees, and the sets of banned
  hashes, also by age. \<open>triggerProposal\<close> is the part of \<open>HerderImpl::triggerNextLedger\<close> that prepares the set to
  nominate and \<open>updateTransactionQueue\<close> what the herder does with the queue when a ledger closes. The unordered
  maps are association lists; the counters of sizes are metrics and left out.
\<close>

datatype AddResult = ADD_STATUS_PENDING | ADD_STATUS_DUPLICATE | ADD_STATUS_ERROR | ADD_STATUS_TRY_AGAIN_LATER

record AccountTxQueueInfo =
  mMaxSeq :: int64
  mTotalFees :: int64

record TxMap =
  mCurrentQInfo :: AccountTxQueueInfo
  mapTransactions :: "(256 word \<times> TransactionEnvelope) list"

type_synonym AccountTxMap = "(AccountID \<times> TxMap) list"

record TransactionQueue =
  mPendingTransactions :: "AccountTxMap list"
  mBannedTransactions :: "256 word list list"

definition emptyInfo :: AccountTxQueueInfo where
  "emptyInfo = \<lparr>mMaxSeq = 0, mTotalFees = 0\<rparr>"

definition emptyTxMap :: TxMap where
  "emptyTxMap = \<lparr>mCurrentQInfo = emptyInfo, mapTransactions = []\<rparr>"

definition countTx :: "TransactionEnvelope \<Rightarrow> AccountTxQueueInfo \<Rightarrow> AccountTxQueueInfo" where
  "countTx tx info =
     \<lparr>mMaxSeq = max64 (txSeqNum (envTx tx)) (mMaxSeq info), mTotalFees = mTotalFees info + ucast (txFee (envTx tx))\<rparr>"

definition addTx :: "TxHashes \<Rightarrow> TransactionEnvelope \<Rightarrow> TxMap \<Rightarrow> TxMap" where
  "addTx H tx m =
     (if map_of (mapTransactions m) (getFullHash H tx) \<noteq> None then m
      else \<lparr>mCurrentQInfo = countTx tx (mCurrentQInfo m),
             mapTransactions = mapTransactions m @ [(getFullHash H tx, tx)]\<rparr>)"

definition recalculate :: "TxMap \<Rightarrow> TxMap" where
  "recalculate m = m\<lparr>mCurrentQInfo := fold (\<lambda>(h, tx). countTx tx) (mapTransactions m) emptyInfo\<rparr>"

definition TransactionQueue_new :: "nat \<Rightarrow> nat \<Rightarrow> TransactionQueue" where
  "TransactionQueue_new pendingDepth banDepth =
     \<lparr>mPendingTransactions = replicate pendingDepth [], mBannedTransactions = replicate banDepth []\<rparr>"

definition isBanned :: "TransactionQueue \<Rightarrow> 256 word \<Rightarrow> bool" where
  "isBanned q h \<longleftrightarrow> list_ex (\<lambda>transactions. h \<in> set transactions) (mBannedTransactions q)"

definition ageContains :: "TxHashes \<Rightarrow> TransactionEnvelope \<Rightarrow> AccountTxMap \<Rightarrow> bool" where
  "ageContains H tx m =
     (case map_of m (sourceOf tx) of None \<Rightarrow> False | Some txm \<Rightarrow> map_of (mapTransactions txm) (getFullHash H tx) \<noteq> None)"

definition queueContains :: "TxHashes \<Rightarrow> TransactionQueue \<Rightarrow> TransactionEnvelope \<Rightarrow> bool" where
  "queueContains H q tx \<longleftrightarrow> list_ex (ageContains H tx) (mPendingTransactions q)"

definition addInfo :: "AccountID \<Rightarrow> AccountTxMap \<Rightarrow> AccountTxQueueInfo \<Rightarrow> AccountTxQueueInfo" where
  "addInfo a m info =
     (case map_of m a of
        None \<Rightarrow> info
      | Some txm \<Rightarrow> \<lparr>mMaxSeq = max64 (mMaxSeq info) (mMaxSeq (mCurrentQInfo txm)),
                      mTotalFees = mTotalFees info + mTotalFees (mCurrentQInfo txm)\<rparr>)"

definition getAccountTransactionQueueInfo :: "TransactionQueue \<Rightarrow> AccountID \<Rightarrow> AccountTxQueueInfo" where
  "getAccountTransactionQueueInfo q a = fold (addInfo a) (mPendingTransactions q) emptyInfo"

definition findOrAdd :: "AccountTxMap \<Rightarrow> AccountID \<Rightarrow> TxMap" where
  "findOrAdd acc aid = (case map_of acc aid of None \<Rightarrow> emptyTxMap | Some txm \<Rightarrow> txm)"

text \<open>The first element of the deque is accessed without a check: adding to a queue of depth zero is undefined, here a failed
  assertion.\<close>

definition addPending :: "TxHashes \<Rightarrow> TransactionEnvelope \<Rightarrow> TransactionQueue \<Rightarrow> ledger_error + TransactionQueue" where
  "addPending H tx q =
     (case mPendingTransactions q of
        [] \<Rightarrow> Inl AssertFailure
      | m # ms \<Rightarrow> Inr (q\<lparr>mPendingTransactions :=
                     AList.update (sourceOf tx) (addTx H tx (findOrAdd m (sourceOf tx))) m # ms\<rparr>))"

definition tryAdd ::
  "TxHashes \<Rightarrow> Crypto \<Rightarrow> LedgerTxn \<Rightarrow> TransactionEnvelope \<Rightarrow> TransactionQueue \<Rightarrow> ledger_error + AddResult \<times> TransactionQueue" where
  "tryAdd H C ltx tx q =
     (if isBanned q (getFullHash H tx) then Inr (ADD_STATUS_TRY_AGAIN_LATER, q)
      else if queueContains H q tx then Inr (ADD_STATUS_DUPLICATE, q)
      else
        (let info = getAccountTransactionQueueInfo q (sourceOf tx)
         in bindE (checkValid C tx ltx (mMaxSeq info)) (\<lambda>valid.
            if \<not> valid then Inr (ADD_STATUS_ERROR, q)
            else
              bindE (currentEntry ltx (if accountExists ltx (sourceOf tx) then Some (AccountKey (sourceOf tx)) else None))
                (\<lambda>source.
              bindE (getAvailableBalance (ltxHeader ltx) source) (\<lambda>available.
              if sint (available - ucast (txFee (envTx tx))) < sint (mTotalFees info) then Inr (ADD_STATUS_ERROR, q)
              else bindE (addPending H tx q) (\<lambda>q'. Inr (ADD_STATUS_PENDING, q')))))))"

text \<open>Removing transactions from one age: the accounts whose maps are to be recalculated are collected first.\<close>

definition dropTx :: "TxHashes \<Rightarrow> TransactionEnvelope \<Rightarrow> AccountTxMap \<times> AccountID list \<Rightarrow> AccountTxMap \<times> AccountID list" where
  "dropTx H tx st =
     (let (m, toRecalculate) = st; acc = sourceOf tx; txID = getFullHash H tx
      in case map_of m acc of
           None \<Rightarrow> st
         | Some txm \<Rightarrow>
             (if map_of (mapTransactions txm) txID = None then st
              else
                (let txs = AList.delete txID (mapTransactions txm)
                 in if txs = [] then (AList.delete acc m, toRecalculate)
                    else (AList.update acc (txm\<lparr>mapTransactions := txs\<rparr>) m, List.insert acc toRecalculate))))"

definition removeFromAge :: "TxHashes \<Rightarrow> TransactionEnvelope list \<Rightarrow> AccountTxMap \<Rightarrow> AccountTxMap" where
  "removeFromAge H dropTxs m =
     (if m = [] then m
      else
        (let (m1, toRecalculate) = fold (dropTx H) dropTxs (m, [])
         in map (\<lambda>(a, txm). (a, if a \<in> set toRecalculate then recalculate txm else txm)) m1))"

definition queueRemove :: "TxHashes \<Rightarrow> TransactionEnvelope list \<Rightarrow> TransactionQueue \<Rightarrow> TransactionQueue" where
  "queueRemove H dropTxs q = q\<lparr>mPendingTransactions := map (removeFromAge H dropTxs) (mPendingTransactions q)\<rparr>"

definition ageHashes :: "AccountTxMap \<Rightarrow> 256 word list" where
  "ageHashes m = concat (map (\<lambda>(a, txm). map fst (mapTransactions txm)) m)"

text \<open>\<open>pop_back\<close> and \<open>back\<close> of an empty deque are undefined, here a failed assertion.\<close>

definition queueShift :: "TransactionQueue \<Rightarrow> ledger_error + TransactionQueue" where
  "queueShift q =
     (if mBannedTransactions q = [] \<or> mPendingTransactions q = [] then Inl AssertFailure
      else Inr \<lparr>mPendingTransactions = [] # butlast (mPendingTransactions q),
                mBannedTransactions = remdups (ageHashes (last (mPendingTransactions q))) # butlast (mBannedTransactions q)\<rparr>)"

definition countBanned :: "TransactionQueue \<Rightarrow> nat \<Rightarrow> nat" where
  "countBanned q index = length (mBannedTransactions q ! index)"

definition ageTxs :: "AccountTxMap \<Rightarrow> TransactionEnvelope list" where
  "ageTxs m = concat (map (\<lambda>(a, txm). map snd (mapTransactions txm)) m)"

definition toTxSet :: "256 word \<Rightarrow> TransactionQueue \<Rightarrow> TxSetFrame" where
  "toTxSet lclHash q = fold txSetAdd (concat (map ageTxs (mPendingTransactions q))) (newTxSet lclHash)"

subsection \<open>The herder and its queue\<close>

definition triggerProposal ::
  "TxHashes \<Rightarrow> Crypto \<Rightarrow> 256 word \<Rightarrow> 256 word \<Rightarrow> LedgerTxn \<Rightarrow> TransactionQueue \<Rightarrow>
   ledger_error + (256 word \<times> TxSetFrame) \<times> TransactionQueue" where
  "triggerProposal H C seed lclHash ltx q =
     (let proposedSet = toTxSet lclHash q
      in bindE (trimInvalid H C ltx proposedSet) (\<lambda>(removed, fs1).
         (let q' = queueRemove H removed q;
              fs2 = surgePricingFilter H seed (ltxHeader ltx) fs1
          in bindE (TxSet_checkValid H C lclHash ltx fs2) (\<lambda>valid.
             bindE (throwIf (\<not> valid) ''wanting to emit an invalid txSet'') (\<lambda>_.
             Inr (getContentsHash H fs2, q'))))))"

definition updateTransactionQueue ::
  "TxHashes \<Rightarrow> TransactionEnvelope list \<Rightarrow> TransactionQueue \<Rightarrow> ledger_error + TransactionEnvelope list \<times> TransactionQueue" where
  "updateTransactionQueue H applied q =
     bindE (queueShift (queueRemove H applied q)) (\<lambda>q'. Inr (fst (sortForApply H (toTxSet 0 q')), q'))"

definition recvTransaction ::
  "TxHashes \<Rightarrow> Crypto \<Rightarrow> LedgerTxn \<Rightarrow> TransactionEnvelope \<Rightarrow> TransactionQueue \<Rightarrow> ledger_error + AddResult \<times> TransactionQueue" where
  "recvTransaction H C ltx tx q = tryAdd H C ltx tx q"

end
