(* ===== verification/Transaction_Set_Properties.thy ===== *)
theory Transaction_Set_Properties
  imports Transaction_Set Transaction_Properties
begin

text \<open>
  Transaction sets: the order of application, surge pricing, and that a set prepared for nomination is valid. The
  lemmas on queues (one list of transactions per account, sorted by sequence number) carry all of them.
\<close>

subsection \<open>One queue per account\<close>

abbreviation ofAccount :: "AccountID \<Rightarrow> TransactionEnvelope list \<Rightarrow> TransactionEnvelope list" where
  "ofAccount a txs \<equiv> filter (\<lambda>t. sourceOf t = a) txs"

definition perAccount :: "(AccountID \<times> tx_queue) list \<Rightarrow> bool" where
  "perAccount qs \<longleftrightarrow> distinct (map fst qs) \<and> (\<forall>(a, q) \<in> set qs. q \<noteq> [] \<and> (\<forall>t \<in> set q. sourceOf t = a))"

definition queueOf :: "(AccountID \<times> tx_queue) list \<Rightarrow> AccountID \<Rightarrow> tx_queue" where
  "queueOf qs a = (case map_of qs a of None \<Rightarrow> [] | Some q \<Rightarrow> q)"

lemma perAccount_map_of:
  "perAccount qs \<longleftrightarrow>
     distinct (map fst qs) \<and> (\<forall>a q. map_of qs a = Some q \<longrightarrow> q \<noteq> [] \<and> (\<forall>t \<in> set q. sourceOf t = a))"
  by (cases "distinct (map fst qs)") (auto simp: perAccount_def)

lemma perAccount_Nil [simp]: "perAccount []" by (simp add: perAccount_def)

lemma perAccount_Cons [simp]:
  "perAccount ((a, q) # qs) \<longleftrightarrow> a \<notin> fst ` set qs \<and> q \<noteq> [] \<and> (\<forall>t \<in> set q. sourceOf t = a) \<and> perAccount qs"
  by (auto simp: perAccount_def)

lemma queueOf_Nil [simp]: "queueOf [] a = []" by (simp add: queueOf_def)

lemma queueOf_Cons [simp]: "queueOf ((b, q) # qs) a = (if a = b then q else queueOf qs a)"
  by (simp add: queueOf_def)

lemma queueOf_outside [simp]: "a \<notin> fst ` set qs \<Longrightarrow> queueOf qs a = []"
  by (simp add: queueOf_def map_of_eq_None_iff [THEN iffD2])

lemma queueOf_mem: "perAccount qs \<Longrightarrow> (a, q) \<in> set qs \<longleftrightarrow> q \<noteq> [] \<and> q = queueOf qs a"
  by (induction qs) (auto simp: image_iff split: if_splits)

lemma mset_keys: "mset qs = mset qs' \<Longrightarrow> distinct (map fst qs) = distinct (map fst qs')"
  by (rule mset_eq_imp_distinct_iff) simp

lemma perAccount_perm: "mset qs = mset qs' \<Longrightarrow> perAccount qs = perAccount qs'"
  by (simp add: perAccount_def mset_keys [of qs qs'] mset_eq_setD [of qs qs'])

lemma queueOf_perm:
  assumes "perAccount qs" "mset qs = mset qs'"
  shows "queueOf qs = queueOf qs'"
proof -
  have "map_of qs = map_of qs'"
    using assms mset_keys [OF assms(2)] mset_eq_setD [OF assms(2)]
    by (intro map_of_inject_set [THEN iffD2]) (simp_all add: perAccount_def)
  then show ?thesis by (simp add: queueOf_def fun_eq_iff)
qed

lemma sort_key_Nil_iff [simp]: "sort_key f xs = [] \<longleftrightarrow> xs = []"
  using length_sort [of f xs] by (cases xs) auto

lemma addToQueue_perAccount:
  "perAccount m \<Longrightarrow> perAccount (addToQueue tx m) \<and> queueOf (addToQueue tx m) a = queueOf m a @ ofAccount a [tx]"
  by (auto simp: perAccount_map_of addToQueue_def queueOf_def distinct_update update_conv' split: option.splits if_splits)

lemma addAll_perAccount:
  "perAccount m \<Longrightarrow> perAccount (fold addToQueue txs m) \<and> queueOf (fold addToQueue txs m) a = queueOf m a @ ofAccount a txs"
  by (induction txs arbitrary: m) (simp_all add: addToQueue_perAccount)

lemma sortQueues:
  "perAccount qs \<Longrightarrow> perAccount (map (\<lambda>(a, q). (a, sort_key f q)) qs) \<and>
     queueOf (map (\<lambda>(a, q). (a, sort_key f q)) qs) a = sort_key f (queueOf qs a)"
proof (induction qs)
  case (Cons x qs)
  obtain b q where x: "x = (b, q)" by (cases x)
  have "fst ` (\<lambda>(a, q). (a, sort_key f q)) ` set qs = fst ` set qs" by (simp add: image_image case_prod_beta)
  with Cons show ?case by (simp add: x)
qed simp

lemma build_perAccount [simp]: "perAccount (buildAccountTxQueues txs)"
  by (simp add: buildAccountTxQueues_def sortQueues addAll_perAccount)

lemma queueOf_build [simp]: "queueOf (buildAccountTxQueues txs) a = sort_key seqOf (ofAccount a txs)"
  by (simp add: buildAccountTxQueues_def sortQueues addAll_perAccount)

subsection \<open>Batches\<close>

lemma popFronts_perAccount:
  "perAccount qs \<Longrightarrow> perAccount (popFronts qs) \<and> queueOf (popFronts qs) a = tl (queueOf qs a)"
proof (induction qs)
  case (Cons x qs)
  obtain b q where x: "x = (b, q)" by (cases x)
  have "fst ` set (popFronts qs) \<subseteq> fst ` set qs" by (force simp: popFronts_def)
  moreover have "popFronts (x # qs) = (if tl q = [] then popFronts qs else (b, tl q) # popFronts qs)"
    by (simp add: x popFronts_def)
  ultimately show ?case using Cons by (auto simp: x dest: list.set_sel(2))
qed (simp add: popFronts_def)

lemma heads_ofAccount: "perAccount qs \<Longrightarrow> ofAccount a (map (\<lambda>(a, q). hd q) qs) = take 1 (queueOf qs a)"
proof (induction qs)
  case (Cons x qs)
  obtain b q where x: "x = (b, q)" by (cases x)
  from Cons show ?case by (cases q) (auto simp: x)
qed simp

declare batches.simps [simp del]

lemma batches_ofAccount:
  "perAccount qs \<Longrightarrow> ofAccount a (concat (batches qs)) = queueOf qs a \<and> (\<forall>b \<in> set (batches qs). length (ofAccount a b) \<le> 1)"
proof (induction qs rule: batches.induct)
  case (1 qs)
  show ?case
  proof (cases "qs = []")
    case False
    then have e: "batches qs = map (\<lambda>(a, q). hd q) qs # batches (popFronts qs)" by (subst batches.simps) simp
    have "take 1 (queueOf qs a) @ tl (queueOf qs a) = queueOf qs a" by (cases "queueOf qs a") simp_all
    then show ?thesis unfolding e using 1 False popFronts_perAccount [OF 1(2), of a] heads_ofAccount [OF 1(2), of a] by simp
  qed (simp add: batches.simps)
qed

lemma sort_short: "length xs \<le> 1 \<Longrightarrow> sort_key f xs = xs"
  by (cases xs rule: list.exhaust [case_product list.exhaust]) auto

lemma applyBatches_ofAccount:
  "\<forall>b \<in> set bs. length (ofAccount a b) \<le> 1 \<Longrightarrow> ofAccount a (fst (applyBatches H bs fs)) = ofAccount a (concat bs)"
  by (induction bs arbitrary: fs) (simp_all add: filter_sort sort_short case_prod_beta Let_def)

lemma mset_by_account: "(\<And>a. mset (ofAccount a xs) = mset (ofAccount a ys)) \<Longrightarrow> mset xs = mset ys"
proof (rule multiset_eqI)
  fix t
  assume "\<And>a. mset (ofAccount a xs) = mset (ofAccount a ys)"
  from this [of "sourceOf t"] have "count (mset (ofAccount (sourceOf t) xs)) t = count (mset (ofAccount (sourceOf t) ys)) t" by simp
  then show "count (mset xs) t = count (mset ys) t" by simp
qed


lemma batches_perm:
  "mset qs = mset qs' \<Longrightarrow> map mset (batches qs) = map mset (batches qs')"
proof (induction qs arbitrary: qs' rule: batches.induct)
  case (1 qs)
  have pop: "mset (popFronts qs) = mset (popFronts qs')"
    using 1(2) by (simp add: popFronts_def)
  have heads: "mset (map (\<lambda>(a, q). hd q) qs) = mset (map (\<lambda>(a, q). hd q) qs')"
    using 1(2) by simp
  show ?case
  proof (cases "qs = []")
    case True
    then show ?thesis using 1(2) by simp
  next
    case False
    then have "qs' \<noteq> []" using 1(2) by auto
    with False show ?thesis using 1(1) [OF _ pop] heads
      by (simp add: batches.simps [of qs] batches.simps [of qs'])
  qed
qed

lemma build_perm:
  assumes "mset txs = mset txs'" "inj_on (\<lambda>t. (sourceOf t, seqOf t)) (set txs)"
  shows "mset (buildAccountTxQueues txs) = mset (buildAccountTxQueues txs')"
proof -
  have q: "queueOf (buildAccountTxQueues txs) a = queueOf (buildAccountTxQueues txs') a" for a
  proof -
    have m: "mset (ofAccount a txs) = mset (sort_key seqOf (ofAccount a txs'))" using assms(1) by simp
    have "inj_on seqOf (set (ofAccount a txs))" using assms(2) by (auto simp: inj_on_def)
    then show ?thesis by (simp add: sort_key_inj_key_eq [OF m])
  qed
  have "set (buildAccountTxQueues txs) = set (buildAccountTxQueues txs')"
    using queueOf_mem [OF build_perAccount] q by auto
  moreover have "distinct (buildAccountTxQueues ts)" for ts
    using build_perAccount [of ts] unfolding perAccount_def by (blast dest: distinct_map [THEN iffD1])
  ultimately show ?thesis by (simp add: set_eq_iff_mset_eq_distinct)
qed

subsection \<open>The cached hash\<close>

definition hashCoherent :: "TxHashes \<Rightarrow> TxSetFrame \<Rightarrow> bool" where
  "hashCoherent H fs \<longleftrightarrow> (mHashIsValid fs \<longrightarrow>
     sorted (map (getFullHash H) (mTransactions fs)) \<and> mHash fs = hashSet H (mPreviousLedgerHash fs) (mTransactions fs))"

definition contentsHash :: "TxHashes \<Rightarrow> TxSetFrame \<Rightarrow> 256 word" where
  "contentsHash H fs = hashSet H (mPreviousLedgerHash fs) (sort_key (getFullHash H) (mTransactions fs))"

lemma getContentsHash_coherent:
  assumes "hashCoherent H fs"
  shows "fst (getContentsHash H fs) = contentsHash H fs"
    and "hashCoherent H (snd (getContentsHash H fs))"
    and "contentsHash H (snd (getContentsHash H fs)) = contentsHash H fs"
    and "mPreviousLedgerHash (snd (getContentsHash H fs)) = mPreviousLedgerHash fs"
    and "mset (mTransactions (snd (getContentsHash H fs))) = mset (mTransactions fs)"
  using assms
  by (auto simp: getContentsHash_def Let_def hashCoherent_def contentsHash_def sortForHash_def sorted_sort_id sort_key_id_if_sorted)

lemma applyBatches_frame: "hashCoherent H fs \<Longrightarrow> hashCoherent H (snd (applyBatches H bs fs))"
  by (induction bs arbitrary: fs) (simp_all add: getContentsHash_coherent(2) case_prod_beta Let_def)

lemma applyBatches_coherent:
  "hashCoherent H fs \<Longrightarrow>
     fst (applyBatches H bs fs) = concat (map (sort_key (\<lambda>tx. xor (contentsHash H fs) (getFullHash H tx))) bs)"
  by (induction bs arbitrary: fs) (simp_all add: getContentsHash_coherent case_prod_beta Let_def)

lemma sort_batches_perm:
  "map mset bs = map mset bs' \<Longrightarrow> inj_on f (set (concat bs)) \<Longrightarrow> concat (map (sort_key f) bs) = concat (map (sort_key f) bs')"
proof (induction bs arbitrary: bs')
  case (Cons b bs)
  then obtain c cs where c: "bs' = c # cs" "mset b = mset c" "map mset bs = map mset cs" by auto
  have "inj_on f (set b)" "inj_on f (set (concat bs))" using Cons.prems(2) by (auto intro: inj_on_subset)
  with Cons.IH [OF c(3)] sort_key_inj_key_eq [of b "sort_key f c" f] c(2) show ?case by (simp add: c(1))
qed simp

lemma batches_mset: "mset (concat (batches (buildAccountTxQueues txs))) = mset txs"
  by (rule mset_by_account) (metis batches_ofAccount build_perAccount queueOf_build mset_sort)

lemma xor_cancel: "xor h x = xor h y \<longleftrightarrow> x = y" for h x y :: "'a::len word"
  by (metis xor.left_neutral xor.assoc xor_self_eq)

text \<open>The order of application: of every account it is exactly the order of sequence numbers, and together the transactions
  are those of the set, each as often as in the set.\<close>

lemma sortForApply_ofAccount: "ofAccount a (fst (sortForApply H fs)) = sort_key seqOf (ofAccount a (mTransactions fs))"
proof -
  let ?qs = "buildAccountTxQueues (mTransactions fs)"
  have "ofAccount a (fst (sortForApply H fs)) = ofAccount a (concat (batches ?qs))"
    unfolding sortForApply_def using batches_ofAccount [OF build_perAccount] by (intro applyBatches_ofAccount) blast
  then show ?thesis using batches_ofAccount [OF build_perAccount, of a "mTransactions fs"] by simp
qed

lemma sortForApply_mset: "mset (fst (sortForApply H fs)) = mset (mTransactions fs)"
  by (rule mset_by_account) (simp only: sortForApply_ofAccount mset_sort)

subsection \<open>Surge pricing\<close>

definition surgeCost :: "bool \<Rightarrow> TransactionEnvelope \<Rightarrow> nat" where
  "surgeCost maxIsOps tx = (if maxIsOps then length (txOperations (envTx tx)) else MAX_OPS_PER_TX)"

definition tagged :: "tx_queue list \<Rightarrow> (AccountID \<times> tx_queue) list" where
  "tagged qs = map (\<lambda>q. (sourceOf (hd q), q)) qs"

lemma tagged_simps [simp]: "tagged [] = []" "tagged (q # qs) = (sourceOf (hd q), q) # tagged qs"
  by (simp_all add: tagged_def)

lemma tagged_snd: "perAccount qs \<Longrightarrow> tagged (map snd qs) = qs"
  by (induction qs) auto

lemma extractTop_tagged:
  assumes "extractTop lt q qs = (cur, rest)" "perAccount (tagged (q # qs))"
  shows "perAccount (tagged (cur # rest))" "queueOf (tagged (cur # rest)) = queueOf (tagged (q # qs))"
proof -
  have m: "mset (tagged (cur # rest)) = mset (tagged (q # qs))"
    unfolding tagged_def mset_map using extractTop_mset [OF assms(1)] by (metis mset.simps(2))
  then show "perAccount (tagged (cur # rest))" using perAccount_perm assms(2) by blast
  then show "queueOf (tagged (cur # rest)) = queueOf (tagged (q # qs))" using queueOf_perm m by blast
qed

text \<open>What the loop adds: within the size left, of every account a prefix of its queue, and as much as fits.\<close>

definition surgeChoice :: "bool \<Rightarrow> nat \<Rightarrow> tx_queue list \<Rightarrow> TransactionEnvelope list \<Rightarrow> bool" where
  "surgeChoice m n qs new \<longleftrightarrow> (\<Sum>t \<leftarrow> new. surgeCost m t) \<le> n \<and>
     (\<forall>a. \<exists>k. ofAccount a new = take k (queueOf (tagged qs) a) \<and>
        (k < length (queueOf (tagged qs) a) \<longrightarrow>
           n < (\<Sum>t \<leftarrow> new. surgeCost m t) + max 1 (surgeCost m (queueOf (tagged qs) a ! k))))"

lemma surgeChoice_full: "surgeChoice m 0 qs []"
proof -
  have "\<exists>k. ofAccount a [] = take k (queueOf (tagged qs) a) \<and>
        (k < length (queueOf (tagged qs) a) \<longrightarrow> 0 < max 1 (surgeCost m (queueOf (tagged qs) a ! k)))" for a
    by (rule exI [of _ 0]) (simp add: less_max_iff_disj)
  then show ?thesis by (simp add: surgeChoice_def)
qed

lemma surgeChoice_skip:
  assumes "surgeChoice m n rest new" "perAccount (tagged ((t # ts) # rest))" "n < surgeCost m t"
  shows "surgeChoice m n ((t # ts) # rest) new"
proof -
  have "\<exists>k. ofAccount a new = take k (queueOf (tagged ((t # ts) # rest)) a) \<and>
        (k < length (queueOf (tagged ((t # ts) # rest)) a) \<longrightarrow>
           n < (\<Sum>t \<leftarrow> new. surgeCost m t) + max 1 (surgeCost m (queueOf (tagged ((t # ts) # rest)) a ! k)))" for a
  proof (cases "a = sourceOf t")
    case True
    then have "queueOf (tagged rest) a = []" using assms(2) by simp
    then have "ofAccount a new = []" using assms(1) unfolding surgeChoice_def by (metis take_Nil)
    then show ?thesis using True assms(3) by (intro exI [of _ 0]) simp
  next
    case False
    then show ?thesis using assms(1) by (simp add: surgeChoice_def)
  qed
  then show ?thesis using assms(1) by (simp add: surgeChoice_def)
qed

lemma surgeChoice_take:
  assumes "surgeChoice m (n - surgeCost m t) (if ts = [] then rest else ts # rest) new" "surgeCost m t \<le> n"
    and "perAccount (tagged ((t # ts) # rest))"
  shows "surgeChoice m n ((t # ts) # rest) (t # new)"
proof -
  let ?c = "(\<Sum>t \<leftarrow> new. surgeCost m t)" and ?qs = "if ts = [] then rest else ts # rest"
  have q: "queueOf (tagged ?qs) a = (if a = sourceOf t then ts else queueOf (tagged rest) a)" for a
    using assms(3) by (cases ts) auto
  have "\<exists>k. ofAccount a (t # new) = take k (queueOf (tagged ((t # ts) # rest)) a) \<and>
        (k < length (queueOf (tagged ((t # ts) # rest)) a) \<longrightarrow>
           n < surgeCost m t + ?c + max 1 (surgeCost m (queueOf (tagged ((t # ts) # rest)) a ! k)))" for a
  proof -
    obtain k where k: "ofAccount a new = take k (queueOf (tagged ?qs) a)"
      "k < length (queueOf (tagged ?qs) a) \<Longrightarrow> n - surgeCost m t < ?c + max 1 (surgeCost m (queueOf (tagged ?qs) a ! k))"
      using assms(1) unfolding surgeChoice_def by blast
    show ?thesis
    proof (cases "a = sourceOf t")
      case True
      then show ?thesis using k q [of a] assms(2) by (intro exI [of _ "Suc k"]) auto
    next
      case False
      then show ?thesis using k q [of a] assms(2) by (intro exI [of _ k]) auto
    qed
  qed
  then show ?thesis using assms(1,2) by (auto simp: surgeChoice_def)
qed

lemma surgeLoop_choice:
  "perAccount (tagged qs) \<Longrightarrow> \<exists>new. surgeLoop lt m n qs u = u @ new \<and> surgeChoice m n qs new"
proof (induction lt m n qs u rule: surgeLoop.induct)
  case (1 lt m n u)
  then show ?case by (simp add: surgeChoice_def)
next
  case (2 lt m n q qs u)
  obtain cur rest where e: "extractTop lt q qs = (cur, rest)" by (cases "extractTop lt q qs")
  note p = extractTop_tagged [OF e 2(4)]
  obtain t ts where cur: "cur = t # ts" using p(1) by (cases cur) auto
  have choice: "surgeChoice m n (q # qs) = surgeChoice m n (cur # rest)" by (simp add: surgeChoice_def p(2) fun_eq_iff del: tagged_simps)
  have rest: "perAccount (tagged (if ts = [] then rest else ts # rest))" "perAccount (tagged rest)"
    using p(1) cur by (cases ts; auto)+
  show ?case
  proof (cases "n = 0")
    case True
    then show ?thesis using surgeChoice_full by simp
  next
    case False
    note ih = 2(2,3) [OF False e [symmetric] refl cur refl, folded surgeCost_def]
    show ?thesis
      unfolding choice
      using ih False rest surgeChoice_take [of m n t ts rest] surgeChoice_skip [of m n rest _ t ts] p(1)
      by (cases "surgeCost m t \<le> n") (fastforce simp: e cur simp flip: surgeCost_def)+
  qed
qed


definition txCost :: "LedgerHeader \<Rightarrow> TransactionEnvelope \<Rightarrow> nat" where
  "txCost h tx = (if 11 \<le> ledgerVersion h then length (txOperations (envTx tx)) else 1)"

lemma foldl_add: "foldl (\<lambda>a x. a + f x) n xs = n + sum_list (map f xs)" for n :: "'a::monoid_add"
  by (induction xs arbitrary: n) (simp_all add: add.assoc)

lemma setSize_sum: "setSize h fs = (\<Sum>t \<leftarrow> mTransactions fs. txCost h t)"
  by (simp add: setSize_def sizeOp_def sizeTx_def txCost_def foldl_add sum_list_triv)

lemma surgeCost_sum:
  "(\<Sum>t \<leftarrow> txs. surgeCost (11 \<le> ledgerVersion h) t) =
     (\<Sum>t \<leftarrow> txs. txCost h t) * (if 11 \<le> ledgerVersion h then 1 else MAX_OPS_PER_TX)"
  by (simp add: surgeCost_def txCost_def sum_list_triv)

lemma sum_list_mset_eq: "mset xs = mset ys \<Longrightarrow> sum_list (map f xs) = sum_list (map f ys)" for f :: "'b \<Rightarrow> 'a::comm_monoid_add"
  by (metis mset_map sum_mset_sum_list)

text \<open>What surge pricing keeps of a set, in the terms of the set.\<close>

definition surgeKept :: "LedgerHeader \<Rightarrow> TxSetFrame \<Rightarrow> TxSetFrame \<Rightarrow> AccountID \<Rightarrow> nat \<Rightarrow> bool" where
  "surgeKept h fs fs' a k \<longleftrightarrow>
     (let q = sort_key seqOf (ofAccount a (mTransactions fs))
      in mset (ofAccount a (mTransactions fs')) = mset (take k q) \<and>
         (length q \<le> k \<or> unat (maxTxSetSize h) < setSize h fs' + max 1 (txCost h (q ! k))))"

lemma surgeKept_all: "mTransactions fs' = mTransactions fs \<Longrightarrow> surgeKept h fs fs' a (length (mTransactions fs))"
  by (simp add: surgeKept_def Let_def)

lemma surgeChoice_kept:
  fixes h
  defines "m \<equiv> 11 \<le> ledgerVersion h" and "c \<equiv> if 11 \<le> ledgerVersion h then 1 else MAX_OPS_PER_TX"
  assumes "surgeChoice m (unat (maxTxSetSize h) * c) (map snd (buildAccountTxQueues (mTransactions fs))) new"
    and "mset (mTransactions fs') = mset new"
  shows "setSize h fs' \<le> unat (maxTxSetSize h) \<and> (\<exists>k. surgeKept h fs fs' a k)"
proof -
  let ?q = "sort_key seqOf (ofAccount a (mTransactions fs))"
  have size: "setSize h fs' = (\<Sum>t \<leftarrow> new. txCost h t)" unfolding setSize_sum by (rule sum_list_mset_eq [OF assms(4)])
  have c: "c > 0" "(\<Sum>t \<leftarrow> new. surgeCost m t) = setSize h fs' * c" "max 1 (surgeCost m t) \<le> max 1 (txCost h t) * c" for t
    unfolding m_def c_def surgeCost_sum size by (auto simp: MAX_OPS_PER_TX_def surgeCost_def txCost_def)
  obtain k where k: "ofAccount a new = take k ?q"
      "k < length ?q \<Longrightarrow> unat (maxTxSetSize h) * c < setSize h fs' * c + max 1 (surgeCost m (?q ! k))"
    using assms(3) unfolding surgeChoice_def tagged_snd [OF build_perAccount] queueOf_build c(2) by blast
  have "mset (ofAccount a (mTransactions fs')) = mset (ofAccount a new)" using assms(4) by simp
  moreover have "unat (maxTxSetSize h) < setSize h fs' + max 1 (txCost h (?q ! k))" if "k < length ?q"
  proof -
    have "unat (maxTxSetSize h) * c < (setSize h fs' + max 1 (txCost h (?q ! k))) * c"
      unfolding add_mult_distrib by (rule less_le_trans [OF k(2) [OF that] add_left_mono [OF c(3)]])
    then show ?thesis by simp
  qed
  ultimately have "surgeKept h fs fs' a k" unfolding surgeKept_def Let_def using k(1) by (metis not_less)
  moreover have "setSize h fs' * c \<le> unat (maxTxSetSize h) * c"
    using assms(3) unfolding surgeChoice_def c(2) by simp
  ultimately show ?thesis using c(1) by auto
qed

lemma surgePricingFilter_kept:
  "setSize h (surgePricingFilter H seed h fs) \<le> unat (maxTxSetSize h) \<and> (\<exists>k. surgeKept h fs (surgePricingFilter H seed h fs) a k)"
proof -
  let ?c = "if 11 \<le> ledgerVersion h then 1 else MAX_OPS_PER_TX"
  let ?q = "map snd (buildAccountTxQueues (mTransactions fs))"
  let ?new = "surgeLoop (surgeLess H h seed) (11 \<le> ledgerVersion h) (unat (maxTxSetSize h) * ?c) ?q []"
  let ?cut = "sortForHash H (fs\<lparr>mTransactions := ?new\<rparr>)"
  have run: "surgePricingFilter H seed h fs = (if setSize h fs * ?c > unat (maxTxSetSize h) * ?c then ?cut else fs)"
    by (simp add: surgePricingFilter_def Let_def setSize_def)
  have "surgeChoice (11 \<le> ledgerVersion h) (unat (maxTxSetSize h) * ?c) ?q ?new"
    using surgeLoop_choice [of ?q] tagged_snd [OF build_perAccount] by (metis append_Nil build_perAccount)
  then have "setSize h ?cut \<le> unat (maxTxSetSize h) \<and> (\<exists>k. surgeKept h fs ?cut a k)"
    by (rule surgeChoice_kept) (simp add: sortForHash_def)
  then show ?thesis using run surgeKept_all [of fs fs h a]
    by (cases "setSize h fs * ?c > unat (maxTxSetSize h) * ?c") (auto simp: MAX_OPS_PER_TX_def split: if_splits)
qed

subsection \<open>Valid transactions of an account\<close>

fun validChain :: "Crypto \<Rightarrow> LedgerTxn \<Rightarrow> int64 \<Rightarrow> tx_queue \<Rightarrow> bool" where
  "validChain C ltx lastSeq [] \<longleftrightarrow> True"
| "validChain C ltx lastSeq (tx # txs) \<longleftrightarrow>
     checkValid C tx ltx lastSeq = Inr True \<and> validChain C ltx (txSeqNum (envTx tx)) txs"

definition feesOf :: "tx_queue \<Rightarrow> int64" where
  "feesOf q = (\<Sum>t \<leftarrow> q. ucast (txFee (envTx t)))"

definition lastOr :: "TransactionEnvelope option \<Rightarrow> tx_queue \<Rightarrow> TransactionEnvelope option" where
  "lastOr x q = (if q = [] then x else Some (last q))"

lemma feesOf_simps [simp]: "feesOf [] = 0" "feesOf (t # q) = ucast (txFee (envTx t)) + feesOf q"
  by (simp_all add: feesOf_def)

lemma lastOr_simps [simp]: "lastOr x [] = x" "lastOr x (t # q) = lastOr (Some t) q"
  by (simp_all add: lastOr_def)

lemma accountLoop_trim:
  "accountLoop C ltx True q l f x s = Inr r \<Longrightarrow>
     \<exists>vs ws. r = Some (lastOr x vs, f + feesOf vs, fold trimTx ws s) \<and> mset q = mset vs + mset ws \<and> validChain C ltx l vs"
proof (induction q arbitrary: l f x s)
  case Nil
  then show ?case by (auto intro: exI [of _ "[]"])
next
  case (Cons t q)
  from Cons.prems obtain valid where v: "checkValid C t ltx l = Inr valid" by (auto elim!: bindE_InrE)
  show ?case
  proof (cases valid)
    case True
    then have "accountLoop C ltx True q (txSeqNum (envTx t)) (f + ucast (txFee (envTx t))) (Some t) s = Inr r"
      using Cons.prems v by (simp add: err_simps)
    from Cons.IH [OF this] obtain vs ws where "r = Some (lastOr x (t # vs), f + feesOf (t # vs), fold trimTx ws s)"
      "mset q = mset vs + mset ws" "validChain C ltx (txSeqNum (envTx t)) vs" by (auto simp: add.assoc)
    then show ?thesis using v True by (intro exI [of _ "t # vs"] exI [of _ ws]) simp
  next
    case False
    then have "accountLoop C ltx True q l f x (trimTx t s) = Inr r" using Cons.prems v by (simp add: err_simps)
    from Cons.IH [OF this] obtain vs ws where "r = Some (lastOr x vs, f + feesOf vs, fold trimTx (t # ws) s)"
      "mset q = mset vs + mset ws" "validChain C ltx l vs" by auto
    then show ?thesis by (intro exI [of _ vs] exI [of _ "t # ws"]) simp
  qed
qed

lemma accountLoop_check:
  "validChain C ltx l q \<Longrightarrow> accountLoop C ltx False q l f x s = Inr (Some (lastOr x q, f + feesOf q, s))"
  by (induction q arbitrary: l f x) (simp_all add: err_simps add.assoc)

lemma validChain_take: "validChain C ltx l q \<Longrightarrow> validChain C ltx l (take k q)"
  by (induction q arbitrary: l k) (auto simp: take_Cons split: nat.splits)


definition seqsNonneg :: "LedgerTxn \<Rightarrow> bool" where
  "seqsNonneg ltx \<longleftrightarrow>
     list_all (\<lambda>(k, e). case entryData e of ACCOUNT acc \<Rightarrow> 0 \<le> sint (seqNum acc) | _ \<Rightarrow> True) (ltxEntries ltx)"

lemma seqsNonneg_load: "seqsNonneg ltx \<Longrightarrow> loadEntry ltx k = Some e \<Longrightarrow> entryData e = ACCOUNT acc \<Longrightarrow> 0 \<le> sint (seqNum acc)"
  by (force simp: seqsNonneg_def loadEntry_def list_all_iff dest: map_of_SomeD)

lemma successor_seq: "c \<noteq> INT64_MAX \<Longrightarrow> sint (c + 1 :: int64) = sint c + 1"
proof -
  assume "c \<noteq> INT64_MAX"
  then have "sint c \<noteq> sint INT64_MAX" by (metis signed_word_eqI)
  then have "sint c + 1 < 2 ^ 63" using sint_range(2) [of c] by simp
  then show "sint (c + 1) = sint c + 1" using sint_range(1) [of c] sint_add64 [of c 1] by simp
qed

lemma checkValid_seq:
  assumes "checkValid C t ltx l = Inr True" "seqsNonneg ltx" "0 \<le> sint l"
  shows "sint l < seqOf t"
proof -
  from assms(1) obtain cv code sc sc' where "commonValid C (envTx t) ltx l False sc = Inr (cv, code, sc')" "cv = kFullyValid"
    by (auto simp: checkValid_def Let_def elim!: bindE_InrE split: if_splits)
  then obtain e acc where e: "loadEntry ltx (AccountKey (txSourceAccount (envTx t))) = Some e" "entryData e = ACCOUNT acc"
    "\<not> badSeq (ltxHeader ltx) (envTx t) acc l False"
    by (auto simp: commonValid_def Let_def sourceEntry_Inr theAccount_Inr elim!: bindE_InrE split: option.splits if_splits)
  define c where "c = (if l = 0 then seqNum acc else l)"
  have "c \<noteq> INT64_MAX" "c + 1 = txSeqNum (envTx t)" using e(3) by (simp_all add: badSeq_def c_def Let_def)
  moreover have "sint l \<le> sint c" using seqsNonneg_load [OF assms(2) e(1,2)] by (simp add: c_def)
  ultimately show ?thesis using successor_seq [of c] by (simp add: seqOf_def)
qed

lemma validChain_increasing:
  "validChain C ltx l q \<Longrightarrow> seqsNonneg ltx \<Longrightarrow> 0 \<le> sint l \<Longrightarrow>
     sorted (map seqOf q) \<and> distinct (map seqOf q) \<and> (\<forall>t \<in> set q. sint l < seqOf t)"
proof (induction q arbitrary: l)
  case (Cons t q)
  have "sint l < seqOf t" using checkValid_seq [of C t ltx l] Cons.prems by simp
  moreover have "sorted (map seqOf q)" "distinct (map seqOf q)" "\<forall>u \<in> set q. seqOf t < seqOf u"
    using Cons.IH [of "txSeqNum (envTx t)", folded seqOf_def] Cons.prems calculation by simp_all
  ultimately show ?case by (auto intro: order_less_imp_le dest: order_less_trans)
qed simp

lemma validChain_sort:
  assumes "validChain C ltx 0 q" "seqsNonneg ltx" "mset txs = mset q"
  shows "sort_key seqOf txs = q"
proof -
  have "sorted (map seqOf q)" "inj_on seqOf (set q)"
    using validChain_increasing [OF assms(1,2)] by (simp_all add: distinct_map)
  then show ?thesis using assms(3) mset_eq_setD [OF assms(3)] by (intro sort_key_inj_key_eq) simp_all
qed

lemma feesOf_exact: "length q < 2 ^ 31 \<Longrightarrow> sint (feesOf q) = (\<Sum>t \<leftarrow> q. uint (txFee (envTx t)))"
proof -
  have fee: "sint (ucast f :: int64) = uint f" "uint f < 2 ^ 32" for f :: uint32
  proof -
    show "uint f < 2 ^ 32" using uint_bounded [of f] by simp
    moreover have "- (2 ^ 63) \<le> uint f" by (rule order_trans [of _ 0]) simp_all
    ultimately show "sint (ucast f :: int64) = uint f" by (simp add: sint_uint uint_up_ucast is_up signed_take_bit_int_eq_self_iff)
  qed
  have "sint (feesOf q) = (\<Sum>t \<leftarrow> q. uint (txFee (envTx t))) \<and> (\<Sum>t \<leftarrow> q. uint (txFee (envTx t))) \<le> int (length q) * 2 ^ 32"
    if "length q < 2 ^ 31" for q
    using that
  proof (induction q)
    case (Cons t q)
    let ?s = "(\<Sum>t \<leftarrow> q. uint (txFee (envTx t)))"
    have q: "sint (feesOf q) = ?s" "?s \<le> int (length q) * 2 ^ 32" using Cons by simp_all
    have "0 \<le> ?s" by (rule sum_list_nonneg) auto
    then have "0 \<le> uint (txFee (envTx t)) + ?s" by simp
    moreover have "int (length q) < 2 ^ 31" using Cons.prems by simp
    ultimately have "sint (ucast (txFee (envTx t)) + feesOf q) = uint (txFee (envTx t)) + ?s"
      using q fee(2) [of "txFee (envTx t)"] by (subst sint_add64) (simp_all add: fee(1))
    then show ?case using q(2) fee(2) [of "txFee (envTx t)"] by simp
  qed simp
  then show "length q < 2 ^ 31 \<Longrightarrow> sint (feesOf q) = (\<Sum>t \<leftarrow> q. uint (txFee (envTx t)))" by blast
qed

lemma feesOf_take: "length q < 2 ^ 31 \<Longrightarrow> sint (feesOf (take k q)) \<le> sint (feesOf q)"
proof -
  assume l: "length q < 2 ^ 31"
  have "(\<Sum>t \<leftarrow> take k q @ drop k q. uint (txFee (envTx t))) \<ge> (\<Sum>t \<leftarrow> take k q. uint (txFee (envTx t)))"
    unfolding map_append sum_list_append le_add_same_cancel1 by (rule sum_list_nonneg) auto
  then show "sint (feesOf (take k q)) \<le> sint (feesOf q)" using feesOf_exact [of q] feesOf_exact [of "take k q"] l by simp
qed

subsection \<open>Accounts that pass the check\<close>

definition sourceOfAccount :: "LedgerTxn \<Rightarrow> AccountID \<Rightarrow> ledger_error + LedgerEntry" where
  "sourceOfAccount ltx a = currentEntry ltx (if accountExists ltx a then Some (AccountKey a) else None)"

definition canPay :: "LedgerTxn \<Rightarrow> AccountID \<Rightarrow> int64 \<Rightarrow> bool" where
  "canPay ltx a fee \<longleftrightarrow> (\<exists>e available. sourceOfAccount ltx a = Inr e \<and> getAvailableBalance (ltxHeader ltx) e = Inr available \<and>
     sint fee \<le> sint available)"

definition goodAccount :: "Crypto \<Rightarrow> LedgerTxn \<Rightarrow> AccountID \<Rightarrow> tx_queue \<Rightarrow> bool" where
  "goodAccount C ltx a q \<longleftrightarrow> validChain C ltx 0 q \<and> (\<forall>t \<in> set q. sourceOf t = a) \<and> (q = [] \<or> canPay ltx a (feesOf q))"

lemma goodAccount_take: "goodAccount C ltx a q \<Longrightarrow> length q < 2 ^ 31 \<Longrightarrow> goodAccount C ltx a (take k q)"
  using feesOf_take [of q k] unfolding goodAccount_def canPay_def
  by (auto dest: in_set_takeD validChain_take intro: order_trans)

lemma goodAccount_checks:
  assumes "goodAccount C ltx a q" "q \<noteq> []"
  shows "checkAccount C ltx False q s = Inr (Some s)"
proof -
  have "sourceOf (last q) = a" using assms by (simp add: goodAccount_def)
  moreover obtain e available where "sourceOfAccount ltx a = Inr e" "getAvailableBalance (ltxHeader ltx) e = Inr available"
    "\<not> sint available < sint (feesOf q)"
    using assms by (auto simp: goodAccount_def canPay_def not_less)
  ultimately show ?thesis using assms
    unfolding checkAccount_def sourceOfAccount_def [symmetric] by (simp add: goodAccount_def accountLoop_check lastOr_def)
qed

lemma checkAccounts_good:
  "\<forall>(a, q) \<in> set qs. q \<noteq> [] \<and> goodAccount C ltx a q \<Longrightarrow> checkAccounts C ltx False qs s = Inr (Some s)"
  by (induction qs) (auto simp: goodAccount_checks err_simps)

lemma checkAccount_trims:
  assumes "checkAccount C ltx True q s = Inr r" "\<forall>t \<in> set q. sourceOf t = a"
  obtains vs ws where "r = Some (fold trimTx ws s)" "mset q - mset ws = mset vs" "goodAccount C ltx a vs" "set ws \<subseteq> set q"
proof -
  from assms(1) obtain r1 where r1: "accountLoop C ltx True q 0 0 None s = Inr r1"
    and k: "(case r1 of None \<Rightarrow> Inr None | Some (None, totFee, s') \<Rightarrow> Inr (Some s')
      | Some (Some lastTx, totFee, s') \<Rightarrow>
          bindE (sourceOfAccount ltx (sourceOf lastTx)) (\<lambda>source.
          bindE (getAvailableBalance (ltxHeader ltx) source) (\<lambda>available.
          if sint available < sint totFee then Inr (Some (fold trimTx q s')) else Inr (Some s')))) = Inr r"
    unfolding checkAccount_def sourceOfAccount_def if_True by (rule bindE_InrE)
  obtain vs ws where l: "r1 = Some (lastOr None vs, feesOf vs, fold trimTx ws s)" "mset q = mset vs + mset ws" "validChain C ltx 0 vs"
    using accountLoop_trim [OF r1] by auto
  have src: "set vs \<subseteq> set q" "set ws \<subseteq> set q" using l(2) by (metis Un_upper1 Un_upper2 set_mset_mset set_mset_union)+
  show thesis
  proof (cases "vs = [] \<or> canPay ltx a (feesOf vs)")
    case True
    have "r = Some (fold trimTx ws s)"
    proof (cases "vs = []")
      case False
      then have "sourceOf (last vs) = a" using src(1) assms(2) last_in_set [of vs] by blast
      then show ?thesis using True False k l(1) by (auto simp: canPay_def lastOr_def err_simps)
    qed (use k l(1) in \<open>simp add: lastOr_def\<close>)
    moreover have "goodAccount C ltx a vs" using True l(3) src(1) assms(2) by (auto simp: goodAccount_def)
    ultimately show thesis using that [of ws vs] l(2) src(2) by simp
  next
    case False
    then have "sourceOf (last vs) = a" using src(1) assms(2) last_in_set [of vs] by blast
    then have "r = Some (fold trimTx (ws @ q) s)"
      using False k l(1) by (auto simp: canPay_def lastOr_def err_simps elim!: bindE_InrE split: if_splits)
    moreover have "mset q - mset (ws @ q) = mset []" by simp
    ultimately show thesis using that [of "ws @ q" "[]"] src(2) by (simp add: goodAccount_def)
  qed
qed


lemma trim_mset: "mset (mTransactions (trimFrame (fold trimTx ws s))) = mset (mTransactions (trimFrame s)) - mset ws"
  by (induction ws arbitrary: s) (simp_all add: trimTx_def removeTx_def)

lemma trim_previous: "mPreviousLedgerHash (trimFrame (fold trimTx ws s)) = mPreviousLedgerHash (trimFrame s)"
  by (induction ws arbitrary: s) (simp_all add: trimTx_def removeTx_def)

lemma trim_sorted:
  "sorted (map f (mTransactions (trimFrame s))) \<Longrightarrow> sorted (map f (mTransactions (trimFrame (fold trimTx ws s))))"
  by (induction ws arbitrary: s) (simp_all add: trimTx_def removeTx_def sorted_map_remove1)

lemma trim_ofAccount:
  assumes "\<forall>t \<in> set ws. sourceOf t = a"
  shows "mset (ofAccount b (mTransactions (trimFrame (fold trimTx ws s)))) =
    (if b = a then mset (ofAccount a (mTransactions (trimFrame s))) - mset ws else mset (ofAccount b (mTransactions (trimFrame s))))"
proof -
  have "filter_mset (\<lambda>t. sourceOf t = b) (mset ws) = (if b = a then mset ws else {#})"
    using assms by (auto simp: filter_mset_eq_conv)
  then show ?thesis by (simp add: trim_mset filter_diff_mset)
qed

lemma checkAccounts_trims:
  assumes "checkAccounts C ltx True qs s = Inr r" "perAccount qs"
    and "\<forall>(a, q) \<in> set qs. mset (ofAccount a (mTransactions (trimFrame s))) = mset q"
  shows "\<exists>ws. r = Some (fold trimTx ws s) \<and> set ws \<subseteq> (\<Union>(a, q) \<in> set qs. set q) \<and>
    (\<forall>a \<in> fst ` set qs. \<exists>vs. goodAccount C ltx a vs \<and> mset (ofAccount a (mTransactions (trimFrame (fold trimTx ws s)))) = mset vs)"
  using assms
proof (induction qs arbitrary: s)
  case Nil
  then show ?case by (auto intro: exI [of _ "[]"])
next
  case (Cons x qs)
  obtain a q where x: "x = (a, q)" by (cases x)
  from Cons.prems(1) obtain r1 where r1: "checkAccount C ltx True q s = Inr r1"
    "(case r1 of None \<Rightarrow> Inr None | Some s' \<Rightarrow> checkAccounts C ltx True qs s') = Inr r"
    unfolding x checkAccounts.simps by (rule bindE_InrE)
  have src: "\<forall>t \<in> set q. sourceOf t = a" using Cons.prems(2) by (simp add: x)
  from checkAccount_trims [OF r1(1) src] obtain vs ws where w: "r1 = Some (fold trimTx ws s)" "mset q - mset ws = mset vs"
    "goodAccount C ltx a vs" "set ws \<subseteq> set q" by blast
  let ?s = "fold trimTx ws s"
  have wa: "\<forall>t \<in> set ws. sourceOf t = a" using w(4) src by blast
  have "\<forall>(b, p) \<in> set qs. mset (ofAccount b (mTransactions (trimFrame ?s))) = mset p"
  proof clarify
    fix b p
    assume m: "(b, p) \<in> set qs"
    then have "b \<noteq> a" using Cons.prems(2) by (auto simp: x image_iff)
    then show "mset (ofAccount b (mTransactions (trimFrame ?s))) = mset p"
      unfolding trim_ofAccount [OF wa] using Cons.prems(3) m by auto
  qed
  from Cons.IH [OF _ _ this] r1(2) w(1) Cons.prems(2) obtain ws' where ws': "r = Some (fold trimTx ws' ?s)"
    "set ws' \<subseteq> (\<Union>(a, q) \<in> set qs. set q)"
    "\<forall>a \<in> fst ` set qs. \<exists>vs. goodAccount C ltx a vs \<and> mset (ofAccount a (mTransactions (trimFrame (fold trimTx ws' ?s)))) = mset vs"
    by (auto simp: x)
  have "sourceOf t \<noteq> a" if t: "t \<in> set ws'" for t
  proof -
    obtain b p where b: "(b, p) \<in> set qs" "t \<in> set p" using ws'(2) t by blast
    then have "sourceOf t = b" using Cons.prems(2) by (auto simp: x perAccount_def)
    then show ?thesis using Cons.prems(2) b(1) by (auto simp: x image_iff)
  qed
  then have "ofAccount a ws' = []" by (simp add: filter_empty_conv)
  then have none: "filter_mset (\<lambda>t. sourceOf t = a) (mset ws') = {#}" by (metis mset.simps(1) mset_filter)
  have "mset (ofAccount a (mTransactions (trimFrame (fold trimTx ws' ?s)))) = mset (ofAccount a (mTransactions (trimFrame ?s)))"
    by (simp only: trim_mset mset_filter filter_diff_mset none diff_empty)
  also have "\<dots> = mset vs" using Cons.prems(3) w(2) unfolding trim_ofAccount [OF wa] by (simp add: x)
  finally have "\<exists>vs. goodAccount C ltx a vs \<and> mset (ofAccount a (mTransactions (trimFrame (fold trimTx ws' ?s)))) = mset vs"
    using w(3) by blast
  then show ?case using ws' w(4) by (intro exI [of _ "ws @ ws'"]) (simp add: x, blast)
qed

lemma hashSorted_iff: "hashSorted H l txs \<longleftrightarrow> sorted (map (getFullHash H) txs) \<and> (\<forall>t \<in> set txs. l \<le> getFullHash H t)"
  by (induction txs arbitrary: l) (auto simp: not_less intro: order_trans)

lemma trimInvalid_good:
  assumes "trimInvalid H C ltx fs = Inr (removed, fs1)"
  shows "sorted (map (getFullHash H) (mTransactions fs1))" "mPreviousLedgerHash fs1 = mPreviousLedgerHash fs"
    "\<exists>vs. goodAccount C ltx a vs \<and> mset (ofAccount a (mTransactions fs1)) = mset vs"
    "mset (mTransactions fs1) \<subseteq># mset (mTransactions fs)"
proof -
  let ?fs = "sortForHash H fs"
  let ?s = "\<lparr>trimFrame = ?fs, trimmed = []\<rparr>" and ?qs = "buildAccountTxQueues (mTransactions ?fs)"
  have srt: "sorted (map (getFullHash H) (mTransactions ?fs))" by (simp add: sortForHash_def)
  then have "hashSorted H 0 (mTransactions ?fs)" by (simp add: hashSorted_iff)
  with assms obtain r where r: "checkAccounts C ltx True ?qs ?s = Inr r"
    "fs1 = trimFrame (case r of None \<Rightarrow> ?s | Some s' \<Rightarrow> s')"
    by (auto simp: trimInvalid_def checkOrTrim_def Let_def elim!: bindE_InrE split: option.splits)
  have "\<forall>(a, q) \<in> set ?qs. mset (ofAccount a (mTransactions (trimFrame ?s))) = mset q"
    using queueOf_mem [OF build_perAccount] by (auto simp del: mset_filter)
  from checkAccounts_trims [OF r(1) build_perAccount this] obtain ws where ws: "r = Some (fold trimTx ws ?s)"
    "\<forall>a \<in> fst ` set ?qs. \<exists>vs. goodAccount C ltx a vs \<and> mset (ofAccount a (mTransactions (trimFrame (fold trimTx ws ?s)))) = mset vs"
    by blast
  then have f: "fs1 = trimFrame (fold trimTx ws ?s)" using r(2) by simp
  show "sorted (map (getFullHash H) (mTransactions fs1))" unfolding f by (rule trim_sorted) (simp add: srt)
  show "mPreviousLedgerHash fs1 = mPreviousLedgerHash fs" unfolding f by (simp add: trim_previous sortForHash_def)
  show sub: "mset (mTransactions fs1) \<subseteq># mset (mTransactions fs)" unfolding f by (simp add: trim_mset sortForHash_def)
  show "\<exists>vs. goodAccount C ltx a vs \<and> mset (ofAccount a (mTransactions fs1)) = mset vs"
  proof (cases "a \<in> fst ` set ?qs")
    case True
    then show ?thesis using ws(2) f by blast
  next
    case False
    then have "ofAccount a (mTransactions ?fs) = []" using queueOf_outside [OF False] unfolding queueOf_build by simp
    then have "ofAccount a (mTransactions fs1) = []"
      using set_mset_mono [OF sub] by (auto simp: filter_empty_conv sortForHash_def)
    then show ?thesis by (intro exI [of _ "[]"]) (simp add: goodAccount_def del: mset_filter)
  qed
qed

lemma surgePricingFilter_frame:
  "sorted (map (getFullHash H) (mTransactions fs)) \<Longrightarrow>
     sorted (map (getFullHash H) (mTransactions (surgePricingFilter H seed h fs))) \<and>
     mPreviousLedgerHash (surgePricingFilter H seed h fs) = mPreviousLedgerHash fs"
  by (simp add: surgePricingFilter_def Let_def sortForHash_def)


lemma trimInvalid_stale: "trimInvalid H C ltx fs = Inr (removed, fs1) \<Longrightarrow> \<not> mHashIsValid fs1"
proof -
  have trim: "\<not> mHashIsValid (trimFrame (fold trimTx ws s))" if "\<not> mHashIsValid (trimFrame s)" for ws s
    using that by (induction ws arbitrary: s) (simp_all add: trimTx_def removeTx_def)
  have loop: "\<not> mHashIsValid (trimFrame s')" if "checkAccounts C ltx True qs s = Inr (Some s')" "\<not> mHashIsValid (trimFrame s)" for qs s s'
    using that
  proof (induction qs arbitrary: s)
    case (Cons x qs)
    obtain a q where x: "x = (a, q)" by (cases x)
    from Cons.prems(1) obtain r1 where r: "checkAccount C ltx True q s = Inr r1"
      "(case r1 of None \<Rightarrow> Inr None | Some s' \<Rightarrow> checkAccounts C ltx True qs s') = Inr (Some s')"
      unfolding x checkAccounts.simps by (rule bindE_InrE)
    then obtain s1 where s1: "r1 = Some s1" by (cases r1) auto
    have "\<exists>ws. s1 = fold trimTx ws s"
    proof -
      from r(1) obtain r2 where a: "accountLoop C ltx True q 0 0 None s = Inr r2"
        by (auto simp: checkAccount_def elim!: bindE_InrE)
      from accountLoop_trim [OF this] obtain vs ws where "r2 = Some (lastOr None vs, feesOf vs, fold trimTx ws s)" by auto
      then have "s1 = fold trimTx ws s \<or> s1 = fold trimTx (ws @ q) s"
        using r(1) a s1 by (auto simp: checkAccount_def elim!: bindE_InrE split: option.splits if_splits)
      then show ?thesis by blast
    qed
    then show ?case using Cons.IH [of s1] r(2) s1 trim Cons.prems(2) by auto
  qed simp
  assume "trimInvalid H C ltx fs = Inr (removed, fs1)"
  then show ?thesis
    by (auto simp: trimInvalid_def checkOrTrim_def Let_def sortForHash_def elim!: bindE_InrE dest!: loop split: option.splits if_splits)
qed

text \<open>When the removal of invalid transactions returns, surge pricing leaves a set that passes the full check.\<close>

lemma trimmed_set_valid:
  assumes "trimInvalid H C ltx fs = Inr (removed, fs1)" "mPreviousLedgerHash fs = lclHash" "seqsNonneg ltx"
    and "length (mTransactions fs) < 2 ^ 31"
    and "mTransactions fs2 = mTransactions (surgePricingFilter H seed (ltxHeader ltx) fs1)" "mPreviousLedgerHash fs2 = lclHash"
  shows "TxSet_checkValid H C lclHash ltx fs2 = Inr True"
proof -
  let ?h = "ltxHeader ltx"
  note t = trimInvalid_good [OF assms(1)]
  have good: "goodAccount C ltx a (sort_key seqOf (ofAccount a (mTransactions fs2)))" for a
  proof -
    obtain vs where vs: "goodAccount C ltx a vs" "mset (ofAccount a (mTransactions fs1)) = mset vs" using t(3) by blast
    have "mset vs \<subseteq># mset (mTransactions fs1)" unfolding vs(2) [symmetric] by simp
    then have "length vs < 2 ^ 31" using t(4) assms(4) by (metis le_less_trans size_mset size_mset_mono)
    then have take: "goodAccount C ltx a (take k vs)" for k using goodAccount_take vs(1) by blast
    have "sort_key seqOf (ofAccount a (mTransactions fs1)) = vs"
      using validChain_sort [of C, OF _ assms(3) vs(2)] vs(1) by (simp add: goodAccount_def)
    then obtain k where "mset (ofAccount a (mTransactions fs2)) = mset (take k vs)"
      using surgePricingFilter_kept [of ?h H seed fs1 a] unfolding surgeKept_def Let_def assms(5) by metis
    then show ?thesis using validChain_sort [of C ltx "take k vs"] assms(3) take [of k] by (simp add: goodAccount_def del: mset_filter)
  qed
  have "\<forall>(a, q) \<in> set (buildAccountTxQueues (mTransactions fs2)). q \<noteq> [] \<and> goodAccount C ltx a q"
    using queueOf_mem [OF build_perAccount] good by auto
  then have "checkAccounts C ltx False (buildAccountTxQueues (mTransactions fs2)) s = Inr (Some s)" for s
    by (rule checkAccounts_good)
  moreover have "hashSorted H 0 (mTransactions fs2)"
    using surgePricingFilter_frame [OF t(1)] by (simp add: hashSorted_iff assms(5))
  moreover have "setSize ?h fs2 \<le> unat (maxTxSetSize ?h)" using surgePricingFilter_kept by (simp add: setSize_sum assms(5))
  ultimately show ?thesis by (simp add: TxSet_checkValid_def checkOrTrim_def Let_def assms(6))
qed

subsection \<open>Properties\<close>

text \<open>The frames a node can hold: an empty one, changed by any of the operations of the class.\<close>

inductive txset_reachable :: "TxHashes \<Rightarrow> TxSetFrame \<Rightarrow> bool" for H where
  new: "txset_reachable H (newTxSet p)"
| add: "txset_reachable H fs \<Longrightarrow> txset_reachable H (txSetAdd tx fs)"
| remove: "txset_reachable H fs \<Longrightarrow> txset_reachable H (removeTx tx fs)"
| previous: "txset_reachable H fs \<Longrightarrow> txset_reachable H (setPreviousLedgerHash p fs)"
| sort: "txset_reachable H fs \<Longrightarrow> txset_reachable H (sortForHash H fs)"
| hash: "txset_reachable H fs \<Longrightarrow> txset_reachable H (snd (getContentsHash H fs))"
| apply_order: "txset_reachable H fs \<Longrightarrow> txset_reachable H (snd (sortForApply H fs))"
| surge: "txset_reachable H fs \<Longrightarrow> txset_reachable H (surgePricingFilter H seed h fs)"
| trim: "txset_reachable H fs \<Longrightarrow> trimInvalid H C ltx fs = Inr (removed, fs1) \<Longrightarrow> txset_reachable H fs1"

lemma reachable_coherent: "txset_reachable H fs \<Longrightarrow> hashCoherent H fs"
proof (induction rule: txset_reachable.induct)
  case (trim fs C ltx removed fs1)
  then show ?case using trimInvalid_stale by (auto simp: hashCoherent_def)
next
  case (apply_order fs)
  then show ?case by (simp add: sortForApply_def applyBatches_frame)
qed (simp_all add: getContentsHash_coherent(2), simp_all add: hashCoherent_def newTxSet_def txSetAdd_def removeTx_def
      setPreviousLedgerHash_def sortForHash_def surgePricingFilter_def Let_def)

text \<open>C16. All nodes apply a set in the same order. Two frames with the same transactions, whatever the calls that filled,
  sorted, hashed and cut them before, give the same hash and the same order of application on the same previous
  ledger, when no two transactions have the same hash and no two of an account the same sequence number. The hash
  cached in a frame is therefore never stale.\<close>

theorem sortForApply_deterministic:
  assumes "txset_reachable H fs" "txset_reachable H fs'" "mset (mTransactions fs) = mset (mTransactions fs')"
    and "mPreviousLedgerHash fs = mPreviousLedgerHash fs'"
    and "inj_on (getFullHash H) (set (mTransactions fs))" "inj_on (\<lambda>t. (sourceOf t, seqOf t)) (set (mTransactions fs))"
  shows "fst (sortForApply H fs) = fst (sortForApply H fs') \<and> fst (getContentsHash H fs) = fst (getContentsHash H fs') \<and>
    mset (fst (sortForApply H fs)) = mset (mTransactions fs) \<and>
    filter (\<lambda>t. sourceOf t = a) (fst (sortForApply H fs)) = sort_key seqOf (filter (\<lambda>t. sourceOf t = a) (mTransactions fs))"
proof -
  have "sort_key (getFullHash H) (mTransactions fs) = sort_key (getFullHash H) (mTransactions fs')"
    using assms(3,5) by (intro sort_key_inj_key_eq) simp_all
  then have h: "contentsHash H fs = contentsHash H fs'" by (simp add: contentsHash_def assms(4))
  have b: "map mset (batches (buildAccountTxQueues (mTransactions fs))) = map mset (batches (buildAccountTxQueues (mTransactions fs')))"
    using batches_perm build_perm assms(3,6) by blast
  have "inj_on (\<lambda>tx. xor (contentsHash H fs) (getFullHash H tx)) (set (concat (batches (buildAccountTxQueues (mTransactions fs)))))"
    unfolding mset_eq_setD [OF batches_mset] using assms(5) by (simp add: inj_on_def xor_cancel)
  from sort_batches_perm [OF b this] have "fst (sortForApply H fs) = fst (sortForApply H fs')"
    by (simp add: sortForApply_def applyBatches_coherent reachable_coherent assms(1,2) h)
  moreover have "fst (getContentsHash H fs) = fst (getContentsHash H fs')"
    by (simp add: getContentsHash_coherent reachable_coherent assms(1,2) h)
  ultimately show ?thesis using sortForApply_mset [of H fs] sortForApply_ofAccount [of a H fs] by blast
qed

text \<open>C19. Surge pricing keeps a set within the size limit; of every account it keeps the transactions that come first by sequence
  number, and it stops at a transaction only when that one does not fit besides what is kept.\<close>

theorem surgePricingFilter_fits:
  "setSize h (surgePricingFilter H seed h fs) \<le> unat (maxTxSetSize h) \<and> (\<exists>k. surgeKept h fs (surgePricingFilter H seed h fs) a k)"
  by (rule surgePricingFilter_kept)

subsection \<open>Witnesses\<close>

definition seqEnvelope :: "AccountID \<Rightarrow> int64 \<Rightarrow> uint32 \<Rightarrow> TransactionEnvelope" where
  "seqEnvelope a n f = payEnvelope\<lparr>envTx := payTx\<lparr>txSourceAccount := a, txSeqNum := n, txFee := f\<rparr>\<rparr>"

definition exampleHashes :: TxHashes where
  "exampleHashes = \<lparr>getFullHash = (\<lambda>t. ucast (txSeqNum (envTx t)) XOR 5), hashSet = (\<lambda>p txs. p + of_nat (length txs))\<rparr>"

definition smallLedger :: LedgerTxn where
  "smallLedger = (payLedger 60000 40000 8)\<lparr>ltxHeader := payHeader\<lparr>maxTxSetSize := 1\<rparr>\<rparr>"

definition frameOf :: "TransactionEnvelope list \<Rightarrow> TxSetFrame" where
  "frameOf txs = fold txSetAdd txs (newTxSet 3)"

lemma frameOf_reachable: "txset_reachable H (frameOf txs)"
proof -
  have "txset_reachable H fs \<Longrightarrow> txset_reachable H (fold txSetAdd txs fs)" for fs
    by (induction txs arbitrary: fs) (auto intro: txset_reachable.add)
  then show ?thesis by (simp add: frameOf_def txset_reachable.new)
qed

theorem sortForApply_deterministic_witness:
  "fst (sortForApply exampleHashes (frameOf [seqEnvelope 1 10 100, seqEnvelope 1 9 100])) =
   fst (sortForApply exampleHashes (snd (getContentsHash exampleHashes (frameOf [seqEnvelope 1 9 100, seqEnvelope 1 10 100]))))"
  (is "fst (sortForApply _ ?f) = fst (sortForApply _ ?g)")
proof -
  have "mset (mTransactions ?f) = mset (mTransactions ?g)" "mPreviousLedgerHash ?f = mPreviousLedgerHash ?g"
    "inj_on (getFullHash exampleHashes) (set (mTransactions ?f))" "inj_on (\<lambda>t. (sourceOf t, seqOf t)) (set (mTransactions ?f))"
    by (auto simp: frameOf_def newTxSet_def txSetAdd_def getContentsHash_def sortForHash_def Let_def exampleHashes_def
        seqEnvelope_def sourceOf_def seqOf_def)
  then show ?thesis
    using sortForApply_deterministic [OF frameOf_reachable txset_reachable.hash [OF frameOf_reachable]] by blast
qed

end
