(* ===== verification/Transaction_Queue_Properties.thy ===== *)
theory Transaction_Queue_Properties
  imports Transaction_Queue Transaction_Set_Properties
begin

text \<open>
  The queue of transactions over any sequence of the herder's calls: the cached information on an account is exact,
  a transaction is pending at most once, none stays pending or banned for ever, and the set prepared from the
  queue is valid.
\<close>

subsection \<open>Runs of the queue\<close>

datatype queue_call =
    Receive LedgerTxn TransactionEnvelope
  | Propose "256 word" "256 word" LedgerTxn
  | Closed "TransactionEnvelope list"

definition queueCall :: "TxHashes \<Rightarrow> Crypto \<Rightarrow> queue_call \<Rightarrow> TransactionQueue \<Rightarrow> ledger_error + TransactionQueue" where
  "queueCall H C c q =
     (case c of
        Receive ltx tx \<Rightarrow> bindE (recvTransaction H C ltx tx q) (\<lambda>(r, q'). Inr q')
      | Propose seed lclHash ltx \<Rightarrow> bindE (triggerProposal H C seed lclHash ltx q) (\<lambda>(r, q'). Inr q')
      | Closed applied \<Rightarrow> bindE (updateTransactionQueue H applied q) (\<lambda>(r, q'). Inr q'))"

fun queueStates :: "TxHashes \<Rightarrow> Crypto \<Rightarrow> queue_call list \<Rightarrow> TransactionQueue \<Rightarrow> ledger_error + TransactionQueue list" where
  "queueStates H C [] q = Inr []"
| "queueStates H C (c # cs) q =
     bindE (queueCall H C c q) (\<lambda>q'. bindE (queueStates H C cs q') (\<lambda>qs. Inr (q' # qs)))"

definition isClosed :: "queue_call \<Rightarrow> bool" where
  "isClosed c = (case c of Closed _ \<Rightarrow> True | _ \<Rightarrow> False)"

inductive queue_reachable :: "TxHashes \<Rightarrow> Crypto \<Rightarrow> TransactionQueue \<Rightarrow> bool" for H C where
  new: "queue_reachable H C (TransactionQueue_new pendingDepth banDepth)"
| call: "queue_reachable H C q \<Longrightarrow> queueCall H C c q = Inr q' \<Longrightarrow> queue_reachable H C q'"

text \<open>Every call adds one transaction to the youngest age, or removes some, or removes some and shifts the ages.\<close>

lemma queueCall_cases:
  assumes "queueCall H C c q = Inr q'"
  obtains (same) "\<not> isClosed c" "q' = q"
  | (added) tx m ms where "\<not> isClosed c" "\<not> isBanned q (getFullHash H tx)" "\<not> queueContains H q tx" "mPendingTransactions q = m # ms"
      "q' = q\<lparr>mPendingTransactions := AList.update (sourceOf tx) (addTx H tx (findOrAdd m (sourceOf tx))) m # ms\<rparr>"
  | (removed) txs where "\<not> isClosed c" "q' = queueRemove H txs q"
  | (shifted) txs where "isClosed c" "queueShift (queueRemove H txs q) = Inr q'"
proof (cases c)
  case (Receive ltx tx)
  with assms obtain r where "tryAdd H C ltx tx q = Inr (r, q')"
    by (auto simp: queueCall_def recvTransaction_def elim!: bindE_InrE)
  then have "q' = q \<or> \<not> isBanned q (getFullHash H tx) \<and> \<not> queueContains H q tx \<and> addPending H tx q = Inr q'"
    by (auto simp: tryAdd_def Let_def elim!: bindE_InrE split: if_splits)
  then show thesis
    using same added [of tx] Receive by (auto simp: isClosed_def addPending_def split: list.splits)
next
  case (Propose seed lclHash ltx)
  with assms obtain txs where "q' = queueRemove H txs q"
    by (auto simp: queueCall_def triggerProposal_def Let_def elim!: bindE_InrE)
  then show thesis using removed [of txs] Propose by (simp add: isClosed_def)
next
  case (Closed applied)
  with assms show thesis
    using shifted [of applied] by (auto simp: queueCall_def updateTransactionQueue_def isClosed_def elim!: bindE_InrE)
qed

subsection \<open>One age\<close>

definition hashesOf :: "AccountTxMap \<Rightarrow> AccountID \<Rightarrow> 256 word set" where
  "hashesOf m a = (case map_of m a of None \<Rightarrow> {} | Some txm \<Rightarrow> fst ` set (mapTransactions txm))"

lemma ageContains_hashesOf: "ageContains H tx m \<longleftrightarrow> getFullHash H tx \<in> hashesOf m (sourceOf tx)"
proof (cases "map_of m (sourceOf tx)")
  case (Some txm)
  have "map_of (mapTransactions txm) h \<noteq> None \<longleftrightarrow> h \<in> fst ` set (mapTransactions txm)" for h by (metis map_of_eq_None_iff)
  with Some show ?thesis by (simp add: ageContains_def hashesOf_def)
qed (simp add: ageContains_def hashesOf_def)

lemma hashesOf_add:
  "hashesOf (AList.update a (addTx H tx (findOrAdd m a)) m) b =
     (if b = a then insert (getFullHash H tx) (hashesOf m a) else hashesOf m b)"
proof -
  have "fst ` set (mapTransactions (addTx H tx txm)) = insert (getFullHash H tx) (fst ` set (mapTransactions txm))" for txm
    by (cases "map_of (mapTransactions txm) (getFullHash H tx)") (force simp: addTx_def dest: map_of_SomeD)+
  then show ?thesis
    by (cases "map_of m a") (simp_all add: hashesOf_def update_conv' findOrAdd_def emptyTxMap_def)
qed

definition txMapWf :: "TxHashes \<Rightarrow> AccountID \<Rightarrow> TxMap \<Rightarrow> bool" where
  "txMapWf H a txm \<longleftrightarrow> mapTransactions txm \<noteq> [] \<and> distinct (map fst (mapTransactions txm)) \<and>
     (\<forall>(h, t) \<in> set (mapTransactions txm). h = getFullHash H t \<and> sourceOf t = a)"

definition infoExact :: "TxMap \<Rightarrow> bool" where
  "infoExact txm \<longleftrightarrow> mCurrentQInfo txm = fold (\<lambda>(h, tx). countTx tx) (mapTransactions txm) emptyInfo"

definition ageWf :: "TxHashes \<Rightarrow> AccountTxMap \<Rightarrow> bool" where
  "ageWf H m \<longleftrightarrow> distinct (map fst m) \<and> (\<forall>a txm. map_of m a = Some txm \<longrightarrow> txMapWf H a txm \<and> infoExact txm)"

lemma addTx_wf:
  assumes "txMapWf H (sourceOf tx) txm \<or> txm = emptyTxMap" "infoExact txm"
  shows "txMapWf H (sourceOf tx) (addTx H tx txm) \<and> infoExact (addTx H tx txm)"
  using assms
  by (auto simp: addTx_def txMapWf_def infoExact_def emptyTxMap_def map_of_eq_None_iff)

lemma add_ageWf:
  assumes "ageWf H m"
  shows "ageWf H (AList.update (sourceOf tx) (addTx H tx (findOrAdd m (sourceOf tx))) m)"
proof -
  have "infoExact emptyTxMap" by (simp add: infoExact_def emptyTxMap_def)
  then have "txMapWf H (sourceOf tx) (findOrAdd m (sourceOf tx)) \<or> findOrAdd m (sourceOf tx) = emptyTxMap"
    "infoExact (findOrAdd m (sourceOf tx))"
    using assms by (auto simp: ageWf_def findOrAdd_def split: option.splits)
  from addTx_wf [OF this] assms show ?thesis by (auto simp: ageWf_def distinct_update update_conv' split: if_splits simp del: map_of_eq_Some_iff)
qed

text \<open>While transactions are dropped, only the accounts noted may have inexact information.\<close>

definition dropState :: "TxHashes \<Rightarrow> AccountTxMap \<times> AccountID list \<Rightarrow> bool" where
  "dropState H st \<longleftrightarrow> distinct (map fst (fst st)) \<and>
     (\<forall>a txm. map_of (fst st) a = Some txm \<longrightarrow> txMapWf H a txm \<and> (a \<in> set (snd st) \<or> infoExact txm))"

lemma txMapWf_delete:
  assumes "txMapWf H a txm" "AList.delete h (mapTransactions txm) \<noteq> []"
  shows "txMapWf H a (txm\<lparr>mapTransactions := AList.delete h (mapTransactions txm)\<rparr>)"
  using assms by (auto simp: txMapWf_def AList.delete_eq distinct_map_filter)

lemma dropTx_state:
  assumes "dropState H st"
  shows "dropState H (dropTx H tx st)"
proof (cases "map_of (fst st) (sourceOf tx)")
  case None
  then show ?thesis using assms by (cases st) (simp add: dropTx_def Let_def)
next
  case (Some txm)
  obtain m r where st: "st = (m, r)" by (cases st)
  have wf: "txMapWf H (sourceOf tx) txm" using assms Some by (simp add: dropState_def)
  show ?thesis
    using assms Some txMapWf_delete [OF wf, of "getFullHash H tx"]
    by (auto simp: st dropTx_def Let_def dropState_def distinct_delete distinct_update update_conv' delete_conv'
        split: if_splits simp del: map_of_eq_Some_iff)
qed

lemma dropTx_hashes:
  "hashesOf (fst (dropTx H tx st)) a = hashesOf (fst st) a - (if a = sourceOf tx then {getFullHash H tx} else {})"
proof (cases "map_of (fst st) (sourceOf tx)")
  case None
  then show ?thesis by (cases st) (auto simp: dropTx_def Let_def hashesOf_def)
next
  case (Some txm)
  obtain m r where st: "st = (m, r)" by (cases st)
  have del: "fst ` set (AList.delete h xs) = fst ` set xs - {h}" for h and xs :: "(256 word \<times> TransactionEnvelope) list"
    by (auto simp: AList.delete_eq image_iff)
  have "fst ` set xs \<subseteq> {h}" if "AList.delete h xs = []" for h and xs :: "(256 word \<times> TransactionEnvelope) list"
    using del [of h xs] that by auto
  then show ?thesis
    using Some
    by (auto simp: st dropTx_def Let_def hashesOf_def update_conv' delete_conv' del map_of_eq_None_iff image_iff split: if_splits)
qed


lemma dropAll_state: "dropState H st \<Longrightarrow> dropState H (fold (dropTx H) txs st)"
  by (induction txs arbitrary: st) (simp_all add: dropTx_state)

lemma dropAll_hashes:
  "hashesOf (fst (fold (dropTx H) txs st)) a = hashesOf (fst st) a - getFullHash H ` set (ofAccount a txs)"
  by (induction txs arbitrary: st) (auto simp: dropTx_hashes)

lemma removeFromAge_fold:
  "removeFromAge H txs m =
     map (\<lambda>(a, txm). (a, if a \<in> set (snd (fold (dropTx H) txs (m, []))) then recalculate txm else txm)) (fst (fold (dropTx H) txs (m, [])))"
proof -
  have "fold (dropTx H) txs ([], []) = ([], [])" by (induction txs) (simp_all add: dropTx_def)
  then show ?thesis by (simp add: removeFromAge_def case_prod_beta)
qed

lemma map_of_map_key: "map_of (map (\<lambda>(a, x). (a, f a x)) xs) k = map_option (f k) (map_of xs k)"
  by (induction xs) auto

lemma remove_lookup:
  "map_of (removeFromAge H txs m) a =
     map_option (\<lambda>txm. if a \<in> set (snd (fold (dropTx H) txs (m, []))) then recalculate txm else txm)
       (map_of (fst (fold (dropTx H) txs (m, []))) a)"
  unfolding removeFromAge_fold by (rule map_of_map_key)

lemma hashesOf_remove: "hashesOf (removeFromAge H txs m) a = hashesOf m a - getFullHash H ` set (ofAccount a txs)"
proof -
  have "hashesOf (removeFromAge H txs m) a = hashesOf (fst (fold (dropTx H) txs (m, []))) a"
    by (auto simp: hashesOf_def remove_lookup recalculate_def split: option.splits)
  then show ?thesis by (simp add: dropAll_hashes)
qed

lemma recalculate_wf: "txMapWf H a (recalculate txm) = txMapWf H a txm" "infoExact (recalculate txm)"
  by (simp_all add: txMapWf_def infoExact_def recalculate_def)

lemma remove_ageWf:
  assumes "ageWf H m"
  shows "ageWf H (removeFromAge H txs m)"
proof -
  have "dropState H (m, [])" using assms by (simp add: ageWf_def dropState_def)
  then have d: "dropState H (fold (dropTx H) txs (m, []))" by (rule dropAll_state)
  have "map fst (removeFromAge H txs m) = map fst (fst (fold (dropTx H) txs (m, [])))"
    by (simp add: removeFromAge_fold case_prod_beta)
  with d show ?thesis unfolding ageWf_def remove_lookup
    by (auto simp: dropState_def recalculate_wf simp del: map_of_eq_Some_iff) (metis recalculate_wf(2))
qed

subsection \<open>The invariant of the queue\<close>

definition queueWf :: "TxHashes \<Rightarrow> TransactionQueue \<Rightarrow> bool" where
  "queueWf H q \<longleftrightarrow> (\<forall>m \<in> set (mPendingTransactions q). ageWf H m) \<and>
     (\<forall>a i j. i < j \<and> j < length (mPendingTransactions q) \<longrightarrow>
        hashesOf (mPendingTransactions q ! i) a \<inter> hashesOf (mPendingTransactions q ! j) a = {})"

lemma queueContains_hashes: "queueContains H q tx \<longleftrightarrow> (\<exists>m \<in> set (mPendingTransactions q). getFullHash H tx \<in> hashesOf m (sourceOf tx))"
  by (simp add: queueContains_def list_ex_iff ageContains_hashesOf)

lemma disjoint_sub:
  assumes "queueWf H q" "length ms = length (mPendingTransactions q)" "\<forall>m \<in> set ms. ageWf H m"
    and "\<And>i a. i < length ms \<Longrightarrow> hashesOf (ms ! i) a \<subseteq> hashesOf (mPendingTransactions q ! i) a"
  shows "queueWf H (q\<lparr>mPendingTransactions := ms\<rparr>)"
proof -
  have "hashesOf (ms ! i) a \<inter> hashesOf (ms ! j) a = {}" if "i < j" "j < length ms" for a i j
  proof -
    have "hashesOf (mPendingTransactions q ! i) a \<inter> hashesOf (mPendingTransactions q ! j) a = {}"
      using that assms(1,2) by (simp add: queueWf_def)
    then show ?thesis using that assms(4) [of i a] assms(4) [of j a] by auto
  qed
  with assms(3) show ?thesis by (simp add: queueWf_def)
qed

lemma remove_queueWf: "queueWf H q \<Longrightarrow> queueWf H (queueRemove H txs q)"
  unfolding queueRemove_def
  by (rule disjoint_sub) (auto simp: remove_ageWf queueWf_def hashesOf_remove)

lemma add_queueWf:
  assumes "queueWf H q" "\<not> queueContains H q tx" "mPendingTransactions q = m # ms"
  shows "queueWf H (q\<lparr>mPendingTransactions := AList.update (sourceOf tx) (addTx H tx (findOrAdd m (sourceOf tx))) m # ms\<rparr>)"
proof -
  let ?m = "AList.update (sourceOf tx) (addTx H tx (findOrAdd m (sourceOf tx))) m"
  have "hashesOf ((?m # ms) ! i) a \<inter> hashesOf ((?m # ms) ! j) a = {}" if ij: "i < j" "j < length (?m # ms)" for a i j
  proof -
    have old: "hashesOf ((m # ms) ! i) a \<inter> hashesOf ((m # ms) ! j) a = {}" using assms(1) ij unfolding queueWf_def assms(3) by simp
    obtain j' where j: "j = Suc j'" using ij(1) by (cases j) auto
    then have "getFullHash H tx \<notin> hashesOf (ms ! j') (sourceOf tx)" using assms(2,3) ij(2) by (auto simp: queueContains_hashes)
    then show ?thesis using old j by (cases i) (auto simp: hashesOf_add)
  qed
  moreover have "ageWf H ?m" "\<forall>m \<in> set ms. ageWf H m" using assms(1,3) add_ageWf by (auto simp: queueWf_def)
  ultimately show ?thesis by (simp add: queueWf_def)
qed

lemma shift_queueWf:
  assumes "queueWf H q" "queueShift q = Inr q'"
  shows "queueWf H q'"
proof -
  let ?p = "mPendingTransactions q"
  have q': "mPendingTransactions q' = [] # butlast ?p" using assms(2) by (auto simp: queueShift_def split: if_splits)
  have "hashesOf ((([] :: AccountTxMap) # butlast ?p) ! i) a \<inter> hashesOf (([] # butlast ?p) ! j) a = {}"
    if ij: "i < j" "j < length (([] :: AccountTxMap) # butlast ?p)" for a i j
  proof (cases i)
    case 0
    then show ?thesis by (simp add: hashesOf_def)
  next
    case (Suc i')
    then obtain j' where "j = Suc j'" "i' < j'" "j' < length ?p - 1" using ij by (cases j) auto
    then show ?thesis using assms(1) Suc by (simp add: queueWf_def nth_butlast)
  qed
  moreover have "\<forall>m \<in> set ([] # butlast ?p). ageWf H m" using assms(1) by (auto simp: queueWf_def ageWf_def dest: in_set_butlastD)
  ultimately show ?thesis unfolding queueWf_def q' by simp
qed

lemma call_queueWf: "queueCall H C c q = Inr q' \<Longrightarrow> queueWf H q \<Longrightarrow> queueWf H q'"
  by (erule queueCall_cases) (auto intro: remove_queueWf add_queueWf shift_queueWf)

lemma reachable_queueWf: "queue_reachable H C q \<Longrightarrow> queueWf H q"
proof (induction rule: queue_reachable.induct)
  case (new p b)
  then show ?case by (auto simp: queueWf_def TransactionQueue_new_def ageWf_def hashesOf_def)
qed (rule call_queueWf)


subsection \<open>What is pending\<close>

definition pendingTxs :: "TransactionQueue \<Rightarrow> TransactionEnvelope list" where
  "pendingTxs q = concat (map ageTxs (mPendingTransactions q))"

lemma toTxSet_txs [simp]: "mTransactions (toTxSet l q) = pendingTxs q" "mPreviousLedgerHash (toTxSet l q) = l"
proof -
  have "mTransactions (fold txSetAdd txs fs) = mTransactions fs @ txs \<and> mPreviousLedgerHash (fold txSetAdd txs fs) = mPreviousLedgerHash fs" for txs fs
    by (induction txs arbitrary: fs) (simp_all add: txSetAdd_def)
  then show "mTransactions (toTxSet l q) = pendingTxs q" "mPreviousLedgerHash (toTxSet l q) = l"
    by (simp_all add: toTxSet_def newTxSet_def pendingTxs_def)
qed

lemma ageWf_sources: "ageWf H m \<Longrightarrow> (a, txm) \<in> set m \<Longrightarrow> (h, t) \<in> set (mapTransactions txm) \<Longrightarrow> sourceOf t = a \<and> h = getFullHash H t"
  by (fastforce simp: ageWf_def txMapWf_def)

lemma ageTxs_ofAccount:
  assumes "ageWf H m"
  shows "ofAccount a (ageTxs m) = (case map_of m a of None \<Rightarrow> [] | Some txm \<Rightarrow> map snd (mapTransactions txm))"
proof -
  have "ofAccount a (ageTxs xs) = (case map_of xs a of None \<Rightarrow> [] | Some txm \<Rightarrow> map snd (mapTransactions txm))"
    if "distinct (map fst xs)" "\<forall>(b, txm) \<in> set xs. \<forall>t \<in> set (map snd (mapTransactions txm)). sourceOf t = b" for xs
    using that
  proof (induction xs)
    case (Cons x xs)
    obtain b txm where x: "x = (b, txm)" by (cases x)
    have "b \<notin> fst ` set xs" using Cons.prems(1) by (simp add: x)
    then have "map_of xs b = None" by (simp add: map_of_eq_None_iff)
    with Cons show ?case by (cases "a = b") (auto simp: x ageTxs_def filter_id_conv filter_empty_conv)
  qed (simp add: ageTxs_def)
  moreover have "distinct (map fst m)" using assms by (simp add: ageWf_def)
  ultimately show ?thesis using ageWf_sources [OF assms] by fastforce
qed

lemma ageTxs_hashes: "ageWf H m \<Longrightarrow> getFullHash H ` set (ofAccount a (ageTxs m)) = hashesOf m a \<and> distinct (map (getFullHash H) (ofAccount a (ageTxs m)))"
proof (cases "map_of m a")
  case (Some txm)
  assume wf: "ageWf H m"
  then have "txMapWf H a txm" using Some by (simp add: ageWf_def del: map_of_eq_Some_iff)
  then have k: "map (getFullHash H) (map snd (mapTransactions txm)) = map fst (mapTransactions txm)" "distinct (map fst (mapTransactions txm))"
    by (auto simp: txMapWf_def)
  have "ofAccount a (ageTxs m) = map snd (mapTransactions txm)" by (simp add: ageTxs_ofAccount [OF wf] Some)
  moreover have "hashesOf m a = set (map fst (mapTransactions txm))" by (simp add: hashesOf_def Some)
  ultimately show ?thesis using k by (metis set_map)
qed (simp add: ageTxs_ofAccount hashesOf_def)

lemma pendingTxs_ofAccount: "ofAccount a (pendingTxs q) = concat (map (\<lambda>m. ofAccount a (ageTxs m)) (mPendingTransactions q))"
  by (simp add: pendingTxs_def filter_concat comp_def)

lemma pending_once:
  assumes "queueWf H q"
  shows "distinct (map (getFullHash H) (ofAccount a (pendingTxs q)))"
proof -
  have "distinct (map (getFullHash H) (concat (map (\<lambda>m. ofAccount a (ageTxs m)) ms)))"
    if "\<forall>m \<in> set ms. ageWf H m" "sorted_wrt (\<lambda>m m'. hashesOf m a \<inter> hashesOf m' a = {}) ms" for ms
    using that
  proof (induction ms)
    case (Cons m ms)
    have "getFullHash H ` set (concat (map (\<lambda>m. ofAccount a (ageTxs m)) ms)) = (\<Union>m \<in> set ms. hashesOf m a)"
      using Cons.prems(1) ageTxs_hashes [of H _ a] by (auto simp: image_UN)
    then show ?case using Cons ageTxs_hashes [of H m a] by (auto simp: map_concat comp_def)
  qed simp
  moreover have "sorted_wrt (\<lambda>m m'. hashesOf m a \<inter> hashesOf m' a = {}) (mPendingTransactions q)"
    using assms by (simp add: queueWf_def sorted_wrt_iff_nth_less)
  ultimately show ?thesis using assms unfolding pendingTxs_ofAccount queueWf_def by blast
qed

subsection \<open>The cached information\<close>

definition infoSpec :: "TransactionEnvelope list \<Rightarrow> AccountTxQueueInfo \<Rightarrow> bool" where
  "infoSpec txs info \<longleftrightarrow> sint (mMaxSeq info) = Max (insert 0 (seqOf ` set txs)) \<and> mTotalFees info = feesOf txs"

lemma feesOf_append [simp]: "feesOf (xs @ ys) = feesOf xs + feesOf ys"
  by (simp add: feesOf_def)

lemma Max_zero_union: "finite A \<Longrightarrow> finite B \<Longrightarrow> Max (insert 0 (A \<union> B)) = max (Max (insert 0 A)) (Max (insert 0 B))" for A B :: "int set"
proof -
  assume "finite A" "finite B"
  then have "Max (insert 0 A \<union> insert 0 B) = max (Max (insert 0 A)) (Max (insert 0 B))" by (intro Max_Un) auto
  then show ?thesis by simp
qed

lemma infoSpec_empty: "infoSpec [] emptyInfo"
  by (simp add: infoSpec_def emptyInfo_def)

lemma infoSpec_append:
  "infoSpec xs i \<Longrightarrow> infoSpec ys j \<Longrightarrow>
     infoSpec (xs @ ys) \<lparr>mMaxSeq = max64 (mMaxSeq i) (mMaxSeq j), mTotalFees = mTotalFees i + mTotalFees j\<rparr>"
  by (simp add: infoSpec_def image_Un Max_zero_union sint_max64)

lemma infoSpec_countTx: "infoSpec xs i \<Longrightarrow> infoSpec (xs @ [t]) (countTx t i)"
proof -
  have "Max (insert 0 (insert x A)) = max x (Max (insert 0 A))" if "finite A" for x :: int and A
    using that by (subst insert_commute, subst Max_insert) simp_all
  from this [of "seqOf ` set xs" "seqOf t"] show "infoSpec xs i \<Longrightarrow> infoSpec (xs @ [t]) (countTx t i)"
    by (simp add: infoSpec_def countTx_def sint_max64 seqOf_def)
qed

lemma infoSpec_fold: "infoSpec xs i \<Longrightarrow> infoSpec (xs @ map snd ys) (fold (\<lambda>(h, tx). countTx tx) ys i)"
proof (induction ys arbitrary: xs i)
  case (Cons y ys)
  then show ?case using Cons.IH [OF infoSpec_countTx [OF Cons.prems, of "snd y"]] by (simp add: case_prod_beta)
qed simp

lemma infoSpec_age:
  assumes "ageWf H m" "infoSpec xs i"
  shows "infoSpec (xs @ ofAccount a (ageTxs m)) (addInfo a m i)"
proof (cases "map_of m a")
  case (Some txm)
  then have "infoExact txm" using assms(1) by (simp add: ageWf_def del: map_of_eq_Some_iff)
  then have "infoSpec (map snd (mapTransactions txm)) (mCurrentQInfo txm)"
    using infoSpec_fold [OF infoSpec_empty, of "mapTransactions txm"] by (simp add: infoExact_def)
  from infoSpec_append [OF assms(2) this] show ?thesis by (simp add: Some ageTxs_ofAccount [OF assms(1)] addInfo_def)
qed (use assms in \<open>simp add: ageTxs_ofAccount addInfo_def\<close>)

lemma infoSpec_queue:
  assumes "queueWf H q"
  shows "infoSpec (ofAccount a (pendingTxs q)) (getAccountTransactionQueueInfo q a)"
proof -
  have "infoSpec (xs @ concat (map (\<lambda>m. ofAccount a (ageTxs m)) ms)) (fold (addInfo a) ms i)"
    if "infoSpec xs i" "\<forall>m \<in> set ms. ageWf H m" for ms xs i
    using that
  proof (induction ms arbitrary: xs i)
    case (Cons m ms)
    then show ?case using Cons.IH [OF infoSpec_age [of H m xs i a]] by simp
  qed simp
  from this [OF infoSpec_empty] assms show ?thesis
    unfolding pendingTxs_ofAccount getAccountTransactionQueueInfo_def queueWf_def by fastforce
qed

subsection \<open>Expiry\<close>

definition youngAbsent :: "nat \<Rightarrow> AccountID \<Rightarrow> 256 word \<Rightarrow> AccountTxMap list \<Rightarrow> bool" where
  "youngAbsent n a h ms \<longleftrightarrow> (\<forall>i. i < n \<and> i < length ms \<longrightarrow> h \<notin> hashesOf (ms ! i) a)"

lemma youngAbsent_shift: "youngAbsent n a h ms \<Longrightarrow> youngAbsent (Suc n) a h ([] # butlast ms)"
  by (auto simp: youngAbsent_def nth_Cons nth_butlast hashesOf_def[of "[]"] split: nat.splits)

lemma youngAbsent_remove: "youngAbsent n a h ms \<Longrightarrow> youngAbsent n a h (map (removeFromAge H txs) ms)"
  by (simp add: youngAbsent_def hashesOf_remove)

lemma youngAbsent_add:
  "youngAbsent n a h (m # ms) \<Longrightarrow> (sourceOf tx, getFullHash H tx) \<noteq> (a, h) \<Longrightarrow>
     youngAbsent n a h (AList.update (sourceOf tx) (addTx H tx (findOrAdd m (sourceOf tx))) m # ms)"
  by (auto simp: youngAbsent_def nth_Cons hashesOf_add split: nat.splits if_splits)

lemma queueShift_Inr:
  "queueShift q = Inr q' \<longleftrightarrow> mBannedTransactions q \<noteq> [] \<and> mPendingTransactions q \<noteq> [] \<and>
     q' = \<lparr>mPendingTransactions = [] # butlast (mPendingTransactions q),
           mBannedTransactions = remdups (ageHashes (last (mPendingTransactions q))) # butlast (mBannedTransactions q)\<rparr>"
  by (auto simp: queueShift_def)

lemma queueCall_depth:
  assumes "queueCall H C c q = Inr q'"
  shows "length (mPendingTransactions q') = length (mPendingTransactions q) \<and>
         length (mBannedTransactions q') = length (mBannedTransactions q)"
  using assms by (cases rule: queueCall_cases) (auto simp: queueRemove_def queueShift_Inr)


lemma pending_expires:
  assumes "queueStates H C cs q = Inr qs" "\<forall>q' \<in> set (q # qs). queueContains H q' tx"
    and "youngAbsent n (sourceOf tx) (getFullHash H tx) (mPendingTransactions q)"
  shows "n + length (filter isClosed cs) < length (mPendingTransactions q)"
  using assms
proof (induction cs arbitrary: q qs n)
  case Nil
  then obtain i where "i < length (mPendingTransactions q)" "getFullHash H tx \<in> hashesOf (mPendingTransactions q ! i) (sourceOf tx)"
    by (auto simp: queueContains_hashes in_set_conv_nth)
  with Nil.prems(3) show ?case by (auto simp: youngAbsent_def not_less dest: spec [of _ i])
next
  case (Cons c cs)
  let ?a = "sourceOf tx" and ?h = "getFullHash H tx"
  from Cons.prems(1) obtain q1 qs1 where c: "queueCall H C c q = Inr q1" "queueStates H C cs q1 = Inr qs1" "qs = q1 # qs1"
    by (auto elim!: bindE_InrE)
  have "youngAbsent (if isClosed c then Suc n else n) ?a ?h (mPendingTransactions q1)"
    using c(1)
  proof (cases rule: queueCall_cases)
    case (added u m ms)
    then have "(sourceOf u, getFullHash H u) \<noteq> (?a, ?h)" using Cons.prems(2) by (auto simp: queueContains_hashes)
    then show ?thesis using added Cons.prems(3) youngAbsent_add by simp
  next
    case (shifted txs)
    then show ?thesis using Cons.prems(3) by (auto simp: queueShift_Inr queueRemove_def intro: youngAbsent_shift youngAbsent_remove)
  qed (use Cons.prems(3) in \<open>auto simp: queueRemove_def intro: youngAbsent_remove\<close>)
  from Cons.IH [OF c(2) _ this] Cons.prems(2) c(3) queueCall_depth [OF c(1)] show ?case by auto
qed

definition banAbsent :: "nat \<Rightarrow> 256 word \<Rightarrow> TransactionQueue \<Rightarrow> bool" where
  "banAbsent n h q \<longleftrightarrow> (\<forall>a. youngAbsent n a h (mPendingTransactions q)) \<and>
     (\<forall>j. j + length (mPendingTransactions q) < n \<and> j < length (mBannedTransactions q) \<longrightarrow> h \<notin> set (mBannedTransactions q ! j))"

lemma ageHashes_hashesOf: "ageWf H m \<Longrightarrow> h \<in> set (ageHashes m) \<Longrightarrow> \<exists>a. h \<in> hashesOf m a"
proof -
  assume m: "ageWf H m" "h \<in> set (ageHashes m)"
  from m(2) obtain a txm where t: "(a, txm) \<in> set m" "h \<in> fst ` set (mapTransactions txm)" by (auto simp: ageHashes_def)
  then have "map_of m a = Some txm" using m(1) by (simp add: ageWf_def)
  with t(2) show ?thesis by (intro exI [of _ a]) (simp add: hashesOf_def)
qed

lemma banAbsent_shift:
  assumes "banAbsent n h q" "queueShift q = Inr q'" "queueWf H q"
  shows "banAbsent (Suc n) h q'"
proof -
  let ?p = "mPendingTransactions q" and ?b = "mBannedTransactions q"
  have q': "mPendingTransactions q' = [] # butlast ?p" "mBannedTransactions q' = remdups (ageHashes (last ?p)) # butlast ?b"
    and ne: "?p \<noteq> []" "?b \<noteq> []" using assms(2) by (auto simp: queueShift_Inr)
  have "h \<notin> set (mBannedTransactions q' ! j)" if j: "j + length ?p < Suc n" "j < length ?b" for j
  proof (cases j)
    case 0
    have "length ?p - 1 < n" "length ?p - 1 < length ?p" using j 0 ne(1) by (cases ?p; simp)+
    then have "h \<notin> hashesOf (last ?p) a" for a
      using assms(1) unfolding banAbsent_def youngAbsent_def last_conv_nth [OF ne(1)] by blast
    moreover have "ageWf H (last ?p)" using assms(3) ne(1) by (simp add: queueWf_def)
    ultimately show ?thesis using ageHashes_hashesOf q'(2) 0 by fastforce
  next
    case (Suc j')
    then show ?thesis using assms(1) j q'(2) by (simp add: banAbsent_def nth_butlast)
  qed
  then show ?thesis using assms(1) youngAbsent_shift q' ne by (auto simp: banAbsent_def)
qed

lemma ban_expires:
  assumes "queueStates H C cs q = Inr qs" "\<forall>q' \<in> set (q # qs). isBanned q' h" "banAbsent n h q" "queueWf H q"
  shows "n + length (filter isClosed cs) < length (mPendingTransactions q) + length (mBannedTransactions q)"
  using assms
proof (induction cs arbitrary: q qs n)
  case Nil
  then obtain j where "j < length (mBannedTransactions q)" "h \<in> set (mBannedTransactions q ! j)"
    by (auto simp: isBanned_def list_ex_iff in_set_conv_nth [of _ "mBannedTransactions q"])
  with Nil.prems(3) show ?case by (auto simp: banAbsent_def not_less dest: spec [of _ j])
next
  case (Cons c cs)
  from Cons.prems(1) obtain q1 qs1 where c: "queueCall H C c q = Inr q1" "queueStates H C cs q1 = Inr qs1" "qs = q1 # qs1"
    by (auto elim!: bindE_InrE)
  have rem: "banAbsent n h (queueRemove H txs q)" "queueWf H (queueRemove H txs q)" for txs
  proof -
    show "banAbsent n h (queueRemove H txs q)" using Cons.prems(3) by (simp add: banAbsent_def queueRemove_def youngAbsent_remove)
    show "queueWf H (queueRemove H txs q)" using Cons.prems(4) by (rule remove_queueWf)
  qed
  have "banAbsent (if isClosed c then Suc n else n) h q1"
    using c(1)
  proof (cases rule: queueCall_cases)
    case (added u m ms)
    then have "getFullHash H u \<noteq> h" using Cons.prems(2) by auto
    then show ?thesis using added Cons.prems(3) by (auto simp: banAbsent_def intro: youngAbsent_add)
  next
    case (shifted txs)
    then show ?thesis using banAbsent_shift [OF rem(1) _ rem(2)] by auto
  qed (use Cons.prems(3) rem(1) in auto)
  from Cons.IH [OF c(2) _ this call_queueWf [OF c(1) Cons.prems(4)]] Cons.prems(2) c(3) queueCall_depth [OF c(1)] show ?case by auto
qed


subsection \<open>Properties\<close>

text \<open>C18. In every state of the queue, what it reports of an account is exact for the transactions it would put into a set: the
  largest sequence number, or zero, and the total of fees; and of no account does it hold a hash twice.\<close>

theorem queue_info_exact:
  assumes "queue_reachable H C q"
  shows "let txs = filter (\<lambda>t. sourceOf t = a) (mTransactions (toTxSet l q)); info = getAccountTransactionQueueInfo q a
    in sint (mMaxSeq info) = Max (insert 0 (seqOf ` set txs)) \<and> mTotalFees info = (\<Sum>t \<leftarrow> txs. ucast (txFee (envTx t))) \<and>
       distinct (map (getFullHash H) txs)"
  using infoSpec_queue [OF reachable_queueWf [OF assms], of a] pending_once [OF reachable_queueWf [OF assms], of a]
  by (simp add: infoSpec_def feesOf_def Let_def)

text \<open>C17. Nothing stays in the queue for ever. Whatever is received, proposed and removed meanwhile, by the time as many ledgers
  closed as the queue has ages, every transaction has left it at least once; and by the time as many closed as it has
  ages and ban sets, every hash has at some point been free to be submitted.\<close>

theorem queue_expiry:
  assumes "queue_reachable H C q" "queueStates H C calls q = Inr qs"
  shows "(length (mPendingTransactions q) \<le> length (filter isClosed calls) \<longrightarrow> (\<exists>q' \<in> set (q # qs). \<not> queueContains H q' tx)) \<and>
    (length (mPendingTransactions q) + length (mBannedTransactions q) \<le> length (filter isClosed calls) \<longrightarrow>
       (\<exists>q' \<in> set (q # qs). \<not> isBanned q' h))"
proof -
  have "youngAbsent 0 a k ms" "banAbsent 0 k q" for a k ms by (simp_all add: youngAbsent_def banAbsent_def)
  then show ?thesis
    using pending_expires [OF assms(2), of tx 0] ban_expires [OF assms(2), of h 0] reachable_queueWf [OF assms(1)] by force
qed

text \<open>C15. A set prepared from the queue is valid. Whenever the removal of invalid transactions returns, so does the proposal: the
  set that surge pricing leaves passes the full check of a transaction set, so the exception for an invalid set is
  never raised, and what was removed as invalid is in the queue no more.\<close>

theorem proposal_valid:
  assumes "trimInvalid H C ltx (toTxSet lclHash q) = Inr (removed, fs1)" "seqsNonneg ltx"
    and "length (mTransactions (toTxSet lclHash q)) < 2 ^ 31"
  shows "\<exists>hash fs2 q'. triggerProposal H C seed lclHash ltx q = Inr ((hash, fs2), q') \<and>
    TxSet_checkValid H C lclHash ltx fs2 = Inr True \<and> (\<forall>t \<in> set removed. \<not> queueContains H q' t)"
proof -
  let ?fs = "surgePricingFilter H seed (ltxHeader ltx) fs1" and ?q = "queueRemove H removed q"
  note t = trimInvalid_good [OF assms(1)] and s = surgePricingFilter_frame [of H fs1 seed "ltxHeader ltx"]
  have "mTransactions (snd (getContentsHash H ?fs)) = mTransactions ?fs"
    using s t(1) by (simp add: getContentsHash_def sortForHash_def Let_def sort_key_id_if_sorted)
  moreover have prev: "mPreviousLedgerHash ?fs = lclHash" using s t(1,2) by simp
  moreover have "mPreviousLedgerHash (snd (getContentsHash H ?fs)) = lclHash"
    using prev by (simp add: getContentsHash_def sortForHash_def Let_def)
  ultimately have "TxSet_checkValid H C lclHash ltx fs = Inr True" if "fs = ?fs \<or> fs = snd (getContentsHash H ?fs)" for fs
    using trimmed_set_valid [OF assms(1) _ assms(2,3), of lclHash fs seed] that by auto
  moreover have "\<forall>t \<in> set removed. \<not> queueContains H ?q t"
    by (auto simp: queueContains_hashes queueRemove_def hashesOf_remove)
  ultimately show ?thesis
    using assms(1) by (cases "getContentsHash H ?fs") (simp add: triggerProposal_def Let_def throwIf_def)
qed

subsection \<open>Witnesses\<close>

definition twoTxMap :: TxMap where
  "twoTxMap = \<lparr>mCurrentQInfo = \<lparr>mMaxSeq = 10, mTotalFees = 1000\<rparr>,
     mapTransactions = [(12, seqEnvelope 1 9 100), (15, seqEnvelope 1 10 900)]\<rparr>"

definition exampleQueue :: TransactionQueue where
  "exampleQueue = \<lparr>mPendingTransactions = [[(1, twoTxMap)], []], mBannedTransactions = [[], []]\<rparr>"

definition exampleReceived :: "queue_call list" where
  "exampleReceived = [Receive smallLedger (seqEnvelope 1 9 100), Receive smallLedger (seqEnvelope 1 10 900),
     Receive smallLedger (seqEnvelope 1 12 100)]"

lemma example_received:
  "map_sum id last (queueStates exampleHashes exampleCrypto exampleReceived (TransactionQueue_new 2 2)) = Inr exampleQueue"
  by code_simp

lemma states_reachable: "queue_reachable H C q \<Longrightarrow> queueStates H C cs q = Inr qs \<Longrightarrow> q' \<in> set qs \<Longrightarrow> queue_reachable H C q'"
proof (induction cs arbitrary: q qs)
  case (Cons c cs)
  then obtain q1 qs1 where c: "queueCall H C c q = Inr q1" "queueStates H C cs q1 = Inr qs1" "qs = q1 # qs1"
    by (auto elim!: bindE_InrE)
  have "queue_reachable H C q1" using queue_reachable.call [OF Cons.prems(1) c(1)] .
  then show ?case using Cons.IH [OF _ c(2)] Cons.prems(3) c(3) by auto
qed simp


lemma exampleQueue_reachable: "queue_reachable exampleHashes exampleCrypto exampleQueue"
proof -
  obtain qs where qs: "queueStates exampleHashes exampleCrypto exampleReceived (TransactionQueue_new 2 2) = Inr qs" "last qs = exampleQueue"
    using example_received
    by (cases "queueStates exampleHashes exampleCrypto exampleReceived (TransactionQueue_new 2 2)") auto
  then have "qs \<noteq> []" by (auto simp: exampleReceived_def elim!: bindE_InrE)
  with qs(2) have "exampleQueue \<in> set qs" using last_in_set by metis
  then show ?thesis using states_reachable [OF queue_reachable.new qs(1)] by blast
qed

theorem queue_info_exact_witness:
  "sint (mMaxSeq (getAccountTransactionQueueInfo exampleQueue 1)) =
     Max (insert 0 (seqOf ` set (filter (\<lambda>t. sourceOf t = 1) (mTransactions (toTxSet 3 exampleQueue)))))"
  using queue_info_exact [OF exampleQueue_reachable] unfolding Let_def by blast

definition closedStates :: "TransactionQueue list" where
  "closedStates =
     [\<lparr>mPendingTransactions = [[], [(1, twoTxMap)]], mBannedTransactions = [[], []]\<rparr>,
      \<lparr>mPendingTransactions = [[], []], mBannedTransactions = [[12, 15], []]\<rparr>,
      \<lparr>mPendingTransactions = [[], []], mBannedTransactions = [[], [12, 15]]\<rparr>,
      \<lparr>mPendingTransactions = [[], []], mBannedTransactions = [[], []]\<rparr>]"

theorem queue_expiry_witness:
  "queueContains exampleHashes exampleQueue (seqEnvelope 1 9 100) \<and>
   (\<exists>q' \<in> set (exampleQueue # closedStates). \<not> queueContains exampleHashes q' (seqEnvelope 1 9 100)) \<and>
   (\<exists>q' \<in> set (exampleQueue # closedStates). \<not> isBanned q' 12)"
proof -
  have "queueStates exampleHashes exampleCrypto (replicate 4 (Closed [])) exampleQueue = Inr closedStates" by code_simp
  from queue_expiry [OF exampleQueue_reachable this]
  have "(\<exists>q' \<in> set (exampleQueue # closedStates). \<not> queueContains exampleHashes q' (seqEnvelope 1 9 100)) \<and>
   (\<exists>q' \<in> set (exampleQueue # closedStates). \<not> isBanned q' 12)"
    by (simp add: exampleQueue_def isClosed_def)
  moreover have "queueContains exampleHashes exampleQueue (seqEnvelope 1 9 100)" by code_simp
  ultimately show ?thesis by blast
qed

definition staleQueue :: TransactionQueue where
  "staleQueue = \<lparr>mPendingTransactions = [[(1, \<lparr>mCurrentQInfo = \<lparr>mMaxSeq = 10, mTotalFees = 1100\<rparr>,
     mapTransactions = [(13, seqEnvelope 1 8 100), (12, seqEnvelope 1 9 100), (15, seqEnvelope 1 10 900)]\<rparr>)], []],
     mBannedTransactions = [[], []]\<rparr>"

theorem proposal_valid_witness:
  "\<exists>hash fs2 q'. triggerProposal exampleHashes exampleCrypto 11 3 smallLedger staleQueue = Inr ((hash, fs2), q') \<and>
    TxSet_checkValid exampleHashes exampleCrypto 3 smallLedger fs2 = Inr True \<and> \<not> queueContains exampleHashes q' (seqEnvelope 1 8 100)"
proof -
  have t: "trimInvalid exampleHashes exampleCrypto smallLedger (toTxSet 3 staleQueue) =
    Inr ([seqEnvelope 1 8 100], sortForHash exampleHashes (frameOf [seqEnvelope 1 9 100, seqEnvelope 1 10 900]))" by code_simp
  moreover have "seqsNonneg smallLedger" by code_simp
  moreover have "length (mTransactions (toTxSet 3 staleQueue)) < 2 ^ 31" by (simp add: pendingTxs_def staleQueue_def ageTxs_def)
  ultimately show ?thesis using proposal_valid [OF t, of 11] by simp
qed

end
