(* ===== verification/Upgrades.thy ===== *)
theory Upgrades
  imports Operation_Types
begin

text \<open>
  Upgrades of the ledger, \<open>src/src/herder/Upgrades.cpp\<close>: the parameters an operator sets, the upgrades a node nominates
  and accepts, and their application, with the recalculation of all liabilities that a new protocol version or a
  higher reserve needs. Decoding an opaque upgrade is a parameter (XDR), which gives nothing when decoding throws;
  the time of an upgrade is in seconds. A \<open>std::map\<close> from assets is an association list: its order only decides
  which of several failures is reported. Printing, JSON and the database are left out.
\<close>

type_synonym UpgradeType = "uint8 list"

datatype LedgerUpgrade =
    LEDGER_UPGRADE_VERSION uint32
  | LEDGER_UPGRADE_BASE_FEE uint32
  | LEDGER_UPGRADE_MAX_TX_SET_SIZE uint32
  | LEDGER_UPGRADE_BASE_RESERVE uint32

record UpgradeParameters =
  mUpgradeTime :: int
  mProtocolVersion :: "uint32 option"
  mBaseFee :: "uint32 option"
  mMaxTxSize :: "uint32 option"
  mBaseReserve :: "uint32 option"

datatype UpgradeValidity = VALID | XDR_INVALID | INVALID

subsection \<open>Choosing and checking upgrades\<close>

definition setParameters :: "uint32 \<Rightarrow> UpgradeParameters \<Rightarrow> ledger_error + UpgradeParameters" where
  "setParameters supported params =
     bindE (throwIf (case mProtocolVersion params of None \<Rightarrow> False | Some v \<Rightarrow> v > supported) ''Protocol version error'')
       (\<lambda>_. Inr params)"

definition timeForUpgrade :: "UpgradeParameters \<Rightarrow> uint64 \<Rightarrow> bool" where
  "timeForUpgrade p time \<longleftrightarrow> mUpgradeTime p \<le> sint time"

definition wanted :: "(uint32 \<Rightarrow> LedgerUpgrade) \<Rightarrow> uint32 option \<Rightarrow> uint32 \<Rightarrow> LedgerUpgrade list" where
  "wanted mk param current = (case param of None \<Rightarrow> [] | Some v \<Rightarrow> if current \<noteq> v then [mk v] else [])"

definition createUpgradesFor :: "UpgradeParameters \<Rightarrow> LedgerHeader \<Rightarrow> LedgerUpgrade list" where
  "createUpgradesFor p h =
     (if \<not> timeForUpgrade p (closeTime h) then []
      else wanted LEDGER_UPGRADE_VERSION (mProtocolVersion p) (ledgerVersion h) @
           wanted LEDGER_UPGRADE_BASE_FEE (mBaseFee p) (baseFee h) @
           wanted LEDGER_UPGRADE_MAX_TX_SET_SIZE (mMaxTxSize p) (maxTxSetSize h) @
           wanted LEDGER_UPGRADE_BASE_RESERVE (mBaseReserve p) (baseReserve h))"

definition resetParam :: "uint32 \<Rightarrow> uint32 option \<Rightarrow> bool \<Rightarrow> uint32 option \<times> bool" where
  "resetParam v param updated = (if param = Some v then (None, True) else (param, updated))"

fun removeUpgrades ::
  "(UpgradeType \<Rightarrow> LedgerUpgrade option) \<Rightarrow> UpgradeType list \<Rightarrow> UpgradeParameters \<Rightarrow> bool \<Rightarrow> UpgradeParameters \<times> bool" where
  "removeUpgrades decode [] res updated = (res, updated)"
| "removeUpgrades decode (u # us) res updated =
     (case decode u of
        None \<Rightarrow> removeUpgrades decode us res updated
      | Some (LEDGER_UPGRADE_VERSION v) \<Rightarrow>
          (let (p, b) = resetParam v (mProtocolVersion res) updated in removeUpgrades decode us (res\<lparr>mProtocolVersion := p\<rparr>) b)
      | Some (LEDGER_UPGRADE_BASE_FEE v) \<Rightarrow>
          (let (p, b) = resetParam v (mBaseFee res) updated in removeUpgrades decode us (res\<lparr>mBaseFee := p\<rparr>) b)
      | Some (LEDGER_UPGRADE_MAX_TX_SET_SIZE v) \<Rightarrow>
          (let (p, b) = resetParam v (mMaxTxSize res) updated in removeUpgrades decode us (res\<lparr>mMaxTxSize := p\<rparr>) b)
      | Some (LEDGER_UPGRADE_BASE_RESERVE v) \<Rightarrow>
          (let (p, b) = resetParam v (mBaseReserve res) updated in removeUpgrades decode us (res\<lparr>mBaseReserve := p\<rparr>) b))"

definition upgradeAllowed :: "LedgerUpgrade \<Rightarrow> LedgerHeader \<Rightarrow> uint32 \<Rightarrow> bool" where
  "upgradeAllowed u h maxLedgerVersion =
     (case u of
        LEDGER_UPGRADE_VERSION newVersion \<Rightarrow> newVersion \<le> maxLedgerVersion \<and> newVersion > ledgerVersion h
      | LEDGER_UPGRADE_BASE_FEE v \<Rightarrow> v \<noteq> 0
      | LEDGER_UPGRADE_MAX_TX_SET_SIZE v \<Rightarrow> v \<noteq> 0
      | LEDGER_UPGRADE_BASE_RESERVE v \<Rightarrow> v \<noteq> 0)"

definition isValidForApply ::
  "(UpgradeType \<Rightarrow> LedgerUpgrade option) \<Rightarrow> UpgradeType \<Rightarrow> LedgerHeader \<Rightarrow> uint32 \<Rightarrow> UpgradeValidity \<times> LedgerUpgrade option" where
  "isValidForApply decode opaqueUpgrade h maxLedgerVersion =
     (case decode opaqueUpgrade of
        None \<Rightarrow> (XDR_INVALID, None)
      | Some u \<Rightarrow> (if upgradeAllowed u h maxLedgerVersion then VALID else INVALID, Some u))"

definition isValidForNomination :: "UpgradeParameters \<Rightarrow> LedgerUpgrade \<Rightarrow> LedgerHeader \<Rightarrow> bool" where
  "isValidForNomination p u h \<longleftrightarrow>
     timeForUpgrade p (closeTime h) \<and>
     (case u of
        LEDGER_UPGRADE_VERSION v \<Rightarrow> mProtocolVersion p = Some v
      | LEDGER_UPGRADE_BASE_FEE v \<Rightarrow> mBaseFee p = Some v
      | LEDGER_UPGRADE_MAX_TX_SET_SIZE v \<Rightarrow> mMaxTxSize p = Some v
      | LEDGER_UPGRADE_BASE_RESERVE v \<Rightarrow> mBaseReserve p = Some v)"

definition upgradeIsValid ::
  "(UpgradeType \<Rightarrow> LedgerUpgrade option) \<Rightarrow> UpgradeParameters \<Rightarrow> UpgradeType \<Rightarrow> bool \<Rightarrow> uint32 \<Rightarrow> LedgerHeader \<Rightarrow> bool" where
  "upgradeIsValid decode p upgrade nomination supported h =
     (case isValidForApply decode upgrade h supported of
        (VALID, Some u) \<Rightarrow> (if nomination then isValidForNomination p u h else True)
      | _ \<Rightarrow> False)"

subsection \<open>Liabilities\<close>

type_synonym initial_liabilities = "(Asset \<times> int64 option) list"
type_synonym asset_liabilities = "(Asset \<times> Liabilities) list"

definition issues :: "AccountID \<Rightarrow> Asset \<Rightarrow> ledger_error + bool" where
  "issues a asset = (if asset = ASSET_TYPE_NATIVE then Inr False else bindE (getIssuer asset) (\<lambda>i. Inr (a = i)))"

definition addLiabilities :: "AccountID \<Rightarrow> Asset \<Rightarrow> int64 \<Rightarrow> initial_liabilities \<Rightarrow> ledger_error + initial_liabilities" where
  "addLiabilities a asset delta ls =
     (let ls1 = (if map_of ls asset = None then ls @ [(asset, Some 0)] else ls)
      in bindE (issues a asset) (\<lambda>isIssuer.
         if isIssuer then Inr ls1
         else
           (case map_of ls1 asset of
              Some (Some v) \<Rightarrow>
                bindE (addBalance64 v delta INT64_MAX) (\<lambda>(ok, v').
                Inr (AList.update asset (if ok then Some v' else None) ls1))
            | _ \<Rightarrow> Inr ls1)))"

definition theTrustLine :: "LedgerEntry \<Rightarrow> ledger_error + TrustLineEntry" where
  "theTrustLine e = (case entryData e of TRUSTLINE line \<Rightarrow> Inr line | _ \<Rightarrow> Inl WrongUnion)"

definition getAvailableBalanceExcludingLiabilities ::
  "LedgerTxn \<Rightarrow> AccountID \<Rightarrow> Asset \<Rightarrow> int64 \<Rightarrow> ledger_error + int64" where
  "getAvailableBalanceExcludingLiabilities ltx a asset balanceAboveReserve =
     (if asset = ASSET_TYPE_NATIVE then Inr balanceAboveReserve
      else
        bindE (issues a asset) (\<lambda>isIssuer.
        if isIssuer then Inr INT64_MAX
        else
          (case loadEntry ltx (TrustLineKey a asset) of
             None \<Rightarrow> Inr 0
           | Some e \<Rightarrow>
               bindE (isAuthorized e) (\<lambda>auth.
               if auth then bindE (theTrustLine e) (\<lambda>line. Inr (tlBalance line)) else Inr 0))))"

definition getAvailableLimitExcludingLiabilities ::
  "LedgerTxn \<Rightarrow> AccountID \<Rightarrow> Asset \<Rightarrow> int64 \<Rightarrow> ledger_error + int64" where
  "getAvailableLimitExcludingLiabilities ltx a asset balance =
     (if asset = ASSET_TYPE_NATIVE then Inr (INT64_MAX - balance)
      else
        bindE (issues a asset) (\<lambda>isIssuer.
        if isIssuer then Inr INT64_MAX
        else
          (case loadEntry ltx (TrustLineKey a asset) of
             None \<Rightarrow> Inr 0
           | Some e \<Rightarrow>
               bindE (isAuthorized e) (\<lambda>auth.
               if auth then bindE (theTrustLine e) (\<lambda>line. Inr (tlLimit line - tlBalance line)) else Inr 0))))"

definition shouldDeleteOffer ::
  "Asset \<Rightarrow> int64 \<Rightarrow> initial_liabilities \<Rightarrow> (Asset \<Rightarrow> int64 \<Rightarrow> ledger_error + int64) \<Rightarrow> ledger_error + bool" where
  "shouldDeleteOffer asset effectiveBalance liabilities getCap =
     (case map_of liabilities asset of
        None \<Rightarrow> Inl (RuntimeError ''liabilities were not calculated'')
      | Some None \<Rightarrow> Inr True
      | Some (Some v) \<Rightarrow> bindE (getCap asset effectiveBalance) (\<lambda>cap. Inr (sint v > sint cap)))"

datatype UpdateOfferResult = Unchanged | Adjusted | AdjustedToZero | Erased

definition liabilitiesAt :: "asset_liabilities \<Rightarrow> Asset \<Rightarrow> Liabilities" where
  "liabilitiesAt ls asset = extOrNew (map_of ls asset)"

definition addKeptBuying ::
  "LedgerHeader \<Rightarrow> LedgerEntry \<Rightarrow> OfferEntry \<Rightarrow> asset_liabilities \<Rightarrow> ledger_error + asset_liabilities" where
  "addKeptBuying h e oe ls =
     bindE (issues (sellerID oe) (buying oe)) (\<lambda>isIssuer.
     if isIssuer then Inr ls
     else
       bindE (getOfferBuyingLiabilities h e) (\<lambda>d.
       bindE (addBalance64 (buyingLiab (liabilitiesAt ls (buying oe))) d INT64_MAX) (\<lambda>(ok, v).
       bindE (throwIf (\<not> ok) ''could not add buying liabilities'') (\<lambda>_.
       Inr (AList.update (buying oe) ((liabilitiesAt ls (buying oe))\<lparr>buyingLiab := v\<rparr>) ls)))))"

definition addKeptSelling ::
  "LedgerHeader \<Rightarrow> LedgerEntry \<Rightarrow> OfferEntry \<Rightarrow> asset_liabilities \<Rightarrow> ledger_error + asset_liabilities" where
  "addKeptSelling h e oe ls =
     bindE (issues (sellerID oe) (selling oe)) (\<lambda>isIssuer.
     if isIssuer then Inr ls
     else
       bindE (getOfferSellingLiabilities h e) (\<lambda>d.
       bindE (addBalance64 (sellingLiab (liabilitiesAt ls (selling oe))) d INT64_MAX) (\<lambda>(ok, v).
       bindE (throwIf (\<not> ok) ''could not add selling liabilities'') (\<lambda>_.
       Inr (AList.update (selling oe) ((liabilitiesAt ls (selling oe))\<lparr>sellingLiab := v\<rparr>) ls)))))"

definition keepOffer ::
  "LedgerTxn \<Rightarrow> LedgerKey \<Rightarrow> asset_liabilities \<Rightarrow> ledger_error + UpdateOfferResult \<times> asset_liabilities \<times> LedgerTxn" where
  "keepOffer ltx k ls =
     bindE (currentEntry ltx (Some k)) (\<lambda>e.
     bindE (theOffer e) (\<lambda>oe.
     bindE (adjustOffer (price oe) (amount oe) INT64_MAX) (\<lambda>adjAmount.
     (let oe' = oe\<lparr>amount := adjAmount\<rparr>; e' = e\<lparr>entryData := OFFER oe'\<rparr>
      in bindE (addKeptBuying (ltxHeader ltx) e' oe' ls) (\<lambda>ls1.
         bindE (addKeptSelling (ltxHeader ltx) e' oe' ls1) (\<lambda>ls2.
         Inr (if adjAmount \<noteq> amount oe then Adjusted else Unchanged, ls2, storeEntry ltx k e')))))))"

definition updateOffer ::
  "LedgerTxn \<Rightarrow> LedgerKey \<Rightarrow> int64 \<Rightarrow> int64 \<Rightarrow> asset_liabilities \<Rightarrow> initial_liabilities \<Rightarrow> initial_liabilities \<Rightarrow>
   ledger_error + UpdateOfferResult \<times> asset_liabilities \<times> LedgerTxn" where
  "updateOffer ltx k balance balanceAboveReserve ls initialBuying initialSelling =
     bindE (currentEntry ltx (Some k)) (\<lambda>e.
     bindE (theOffer e) (\<lambda>oe.
     bindE (shouldDeleteOffer (selling oe) balanceAboveReserve initialSelling
              (getAvailableBalanceExcludingLiabilities ltx (sellerID oe))) (\<lambda>eraseSelling.
     bindE (if eraseSelling then Inr True
            else shouldDeleteOffer (buying oe) balance initialBuying
                   (getAvailableLimitExcludingLiabilities ltx (sellerID oe))) (\<lambda>erase.
     if erase then Inr (Erased, ls, eraseEntry ltx k)
     else
       bindE (adjustOffer (price oe) (amount oe) INT64_MAX) (\<lambda>adj.
       if adj = 0 then Inr (AdjustedToZero, ls, eraseEntry ltx k) else keepOffer ltx k ls)))))"

text \<open>The offers of an account, with the liabilities they have in total.\<close>

fun initialLiabilities ::
  "LedgerTxn \<Rightarrow> LedgerKey list \<Rightarrow> initial_liabilities \<Rightarrow> initial_liabilities \<Rightarrow>
   ledger_error + initial_liabilities \<times> initial_liabilities" where
  "initialLiabilities ltx [] bs ss = Inr (bs, ss)"
| "initialLiabilities ltx (k # ks) bs ss =
     bindE (currentEntry ltx (Some k)) (\<lambda>e.
     bindE (theOffer e) (\<lambda>oe.
     bindE (getOfferBuyingLiabilities (ltxHeader ltx) e) (\<lambda>b.
     bindE (addLiabilities (sellerID oe) (buying oe) b bs) (\<lambda>bs1.
     bindE (getOfferSellingLiabilities (ltxHeader ltx) e) (\<lambda>s.
     bindE (addLiabilities (sellerID oe) (selling oe) s ss) (\<lambda>ss1.
     initialLiabilities ltx ks bs1 ss1))))))"

fun updateOffers ::
  "AccountID \<Rightarrow> int64 \<Rightarrow> int64 \<Rightarrow> initial_liabilities \<Rightarrow> initial_liabilities \<Rightarrow> LedgerKey list \<Rightarrow> asset_liabilities \<Rightarrow> LedgerTxn \<Rightarrow>
   ledger_error + asset_liabilities \<times> LedgerTxn" where
  "updateOffers a balance aboveReserve bs ss [] ls ltx = Inr (ls, ltx)"
| "updateOffers a balance aboveReserve bs ss (k # ks) ls ltx =
     bindE (updateOffer ltx k balance aboveReserve ls bs ss) (\<lambda>(res, ls1, ltx1).
     bindE (if res = AdjustedToZero \<or> res = Erased
            then bindE (onEntry ltx1 (AccountKey a) (\<lambda>e. addNumEntries (ltxHeader ltx1) e (- 1))) (\<lambda>(r, ltx2). Inr ltx2)
            else Inr ltx1) (\<lambda>ltx2.
     updateOffers a balance aboveReserve bs ss ks ls1 ltx2))"

definition lineLiabilities :: "LedgerTxn \<Rightarrow> TrustLineWrapper \<Rightarrow> ledger_error + int64 \<times> int64" where
  "lineLiabilities ltx w =
     (case w of
        InactiveLine \<Rightarrow> Inl lineNotActive
      | NonIssuerLine k \<Rightarrow>
          bindE (currentEntry ltx (Some k)) (\<lambda>e.
          bindE (getSellingLiabilities (ltxHeader ltx) e) (\<lambda>s.
          bindE (getBuyingLiabilities (ltxHeader ltx) e) (\<lambda>b. Inr (s, b))))
      | IssuerLine \<Rightarrow> Inr (0, 0))"

definition settleAsset :: "AccountID \<Rightarrow> Asset \<times> Liabilities \<Rightarrow> LedgerTxn \<Rightarrow> ledger_error + LedgerTxn" where
  "settleAsset a al ltx =
     (let (asset, liab) = al; h = ltxHeader ltx
      in if asset = ASSET_TYPE_NATIVE
         then
           bindE (currentEntry ltx (Some (AccountKey a))) (\<lambda>e.
           bindE (getSellingLiabilities h e) (\<lambda>s.
           bindE (getBuyingLiabilities h e) (\<lambda>b.
           bindE (onEntry ltx (AccountKey a) (\<lambda>e. addSellingLiabilities h e (sellingLiab liab - s))) (\<lambda>(ok, ltx1).
           bindE (throwIf (\<not> ok) ''invalid selling liabilities during upgrade'') (\<lambda>_.
           bindE (onEntry ltx1 (AccountKey a) (\<lambda>e. addBuyingLiabilities h e (buyingLiab liab - b))) (\<lambda>(ok', ltx2).
           bindE (throwIf (\<not> ok') ''invalid buying liabilities during upgrade'') (\<lambda>_. Inr ltx2)))))))
         else
           bindE (loadTrustLine ltx a asset) (\<lambda>w.
           bindE (lineLiabilities ltx w) (\<lambda>(s, b).
           bindE (lineAddSellingLiabilities ltx w (sellingLiab liab - s)) (\<lambda>(ok, ltx1).
           bindE (throwIf (\<not> ok) ''invalid selling liabilities during upgrade'') (\<lambda>_.
           bindE (lineAddBuyingLiabilities ltx1 w (buyingLiab liab - b)) (\<lambda>(ok', ltx2).
           bindE (throwIf (\<not> ok') ''invalid buying liabilities during upgrade'') (\<lambda>_. Inr ltx2)))))))"

fun settleAssets :: "AccountID \<Rightarrow> asset_liabilities \<Rightarrow> LedgerTxn \<Rightarrow> ledger_error + LedgerTxn" where
  "settleAssets a [] ltx = Inr ltx"
| "settleAssets a (al # als) ltx = bindE (settleAsset a al ltx) (\<lambda>ltx'. settleAssets a als ltx')"

definition prepareAccount :: "AccountID \<Rightarrow> LedgerKey list \<Rightarrow> LedgerTxn \<Rightarrow> ledger_error + LedgerTxn" where
  "prepareAccount a ks ltx =
     bindE (initialLiabilities ltx ks [] []) (\<lambda>(bs, ss).
     bindE (throwIf (loadEntry ltx (AccountKey a) = None) ''account does not exist'') (\<lambda>_.
     bindE (currentEntry ltx (Some (AccountKey a))) (\<lambda>e.
     bindE (theAccount e) (\<lambda>acc.
     (let balance = accBalance acc; aboveReserve = balance - getMinBalance (ltxHeader ltx) (numSubEntries acc)
      in bindE (updateOffers a balance aboveReserve bs ss ks [] ltx) (\<lambda>(ls, ltx1). settleAssets a ls ltx1))))))"

definition offerKeysOf :: "LedgerTxn \<Rightarrow> AccountID \<Rightarrow> LedgerKey list" where
  "offerKeysOf ltx a =
     map fst (filter (\<lambda>(k, e). case k of OfferKey s i \<Rightarrow> s = a | _ \<Rightarrow> False) (ltxEntries ltx))"

definition offerSellers :: "LedgerTxn \<Rightarrow> AccountID list" where
  "offerSellers ltx =
     sort (remdups (concat (map (\<lambda>(k, e). case k of OfferKey s i \<Rightarrow> [s] | _ \<Rightarrow> []) (ltxEntries ltx))))"

fun prepareAccounts :: "(AccountID \<times> LedgerKey list) list \<Rightarrow> LedgerTxn \<Rightarrow> ledger_error + LedgerTxn" where
  "prepareAccounts [] ltx = Inr ltx"
| "prepareAccounts ((a, ks) # rest) ltx = bindE (prepareAccount a ks ltx) (\<lambda>ltx'. prepareAccounts rest ltx')"

definition loadAllOffers :: "LedgerTxn \<Rightarrow> (AccountID \<times> LedgerKey list) list" where
  "loadAllOffers ltx = map (\<lambda>a. (a, offerKeysOf ltx a)) (offerSellers ltx)"

definition prepareLiabilities :: "LedgerTxn \<Rightarrow> ledger_error + LedgerTxn" where
  "prepareLiabilities ltx = prepareAccounts (loadAllOffers ltx) ltx"

subsection \<open>Applying an upgrade\<close>

definition onHeader :: "(LedgerHeader \<Rightarrow> LedgerHeader) \<Rightarrow> LedgerTxn \<Rightarrow> LedgerTxn" where
  "onHeader f ltx = ltx\<lparr>ltxHeader := f (ltxHeader ltx)\<rparr>"

definition applyVersionUpgrade :: "LedgerTxn \<Rightarrow> uint32 \<Rightarrow> ledger_error + LedgerTxn" where
  "applyVersionUpgrade ltx newVersion =
     (let prevVersion = ledgerVersion (ltxHeader ltx);
          ltx1 = onHeader (\<lambda>h. h\<lparr>ledgerVersion := newVersion\<rparr>) ltx
      in if 10 \<le> newVersion \<and> prevVersion < 10 then prepareLiabilities ltx1 else Inr ltx1)"

definition applyReserveUpgrade :: "LedgerTxn \<Rightarrow> uint32 \<Rightarrow> ledger_error + LedgerTxn" where
  "applyReserveUpgrade ltx newReserve =
     (let didReserveIncrease = newReserve > baseReserve (ltxHeader ltx);
          ltx1 = onHeader (\<lambda>h. h\<lparr>baseReserve := newReserve\<rparr>) ltx
      in if 10 \<le> ledgerVersion (ltxHeader ltx) \<and> didReserveIncrease then prepareLiabilities ltx1 else Inr ltx1)"

definition upgradeApplyTo :: "LedgerUpgrade \<Rightarrow> LedgerTxn \<Rightarrow> ledger_error + LedgerTxn" where
  "upgradeApplyTo u ltx =
     (case u of
        LEDGER_UPGRADE_VERSION v \<Rightarrow> applyVersionUpgrade ltx v
      | LEDGER_UPGRADE_BASE_FEE v \<Rightarrow> Inr (onHeader (\<lambda>h. h\<lparr>baseFee := v\<rparr>) ltx)
      | LEDGER_UPGRADE_MAX_TX_SET_SIZE v \<Rightarrow> Inr (onHeader (\<lambda>h. h\<lparr>maxTxSetSize := v\<rparr>) ltx)
      | LEDGER_UPGRADE_BASE_RESERVE v \<Rightarrow> applyReserveUpgrade ltx v)"

end
