(* ===== verification/Ledger_Close.thy ===== *)
theory Ledger_Close
  imports Transaction_Set Upgrades
begin

text \<open>
  Closing a ledger and following the network, \<open>src/src/ledger/LedgerManagerImpl.cpp\<close> and \<open>SyncingLedgerChain.cpp\<close>: fees,
  transactions and upgrades of a close in the order the code performs them, and the states of a node that is
  booting, synchronised or catching up. The record \<open>CloseEnv\<close> holds what other parts of the program decide: hashes,
  signatures, the enabled invariants, the decoding of upgrades, the hash of a header (of the previous hash, the
  value, the results and the state, since the bucket list enters it) and the checkpoint frequency. Catching up
  itself is work of other classes: the requests for it are logged and its callbacks are operations. A closure
  posted to the main thread is a flag. Metrics, prefetching and the database are left out.
\<close>

record VIIValue =
  svTxSetHash :: "256 word"
  svCloseTime :: uint64
  svUpgrades :: "UpgradeType list"

record LedgerCloseData =
  lcdLedgerSeq :: uint32
  lcdTxSet :: TxSetFrame
  lcdValue :: VIIValue

type_synonym tx_result = "TransactionResultCode \<times> OperationResult list"

record CloseEnv =
  closeHashes :: TxHashes
  closeCrypto :: Crypto
  closeInvariants :: invariant_check
  decodeUpgrade :: "UpgradeType \<Rightarrow> LedgerUpgrade option"
  headerHash :: "256 word \<Rightarrow> VIIValue \<Rightarrow> tx_result list \<Rightarrow> LedgerTxn \<Rightarrow> 256 word"
  LEDGER_PROTOCOL_VERSION :: uint32
  checkpointFrequency :: uint32

subsection \<open>Fees and transactions\<close>

fun processFeesSeqNums :: "int64 \<Rightarrow> TransactionEnvelope list \<Rightarrow> LedgerTxn \<Rightarrow> ledger_error + int64 list \<times> LedgerTxn" where
  "processFeesSeqNums bf [] ltx = Inr ([], ltx)"
| "processFeesSeqNums bf (tx # txs) ltx =
     bindE (processFeeSeqNum bf (envTx tx) ltx) (\<lambda>(fee, ltx1).
     bindE (processFeesSeqNums bf txs ltx1) (\<lambda>(fees, ltx2). Inr (fee # fees, ltx2)))"

text \<open>What a transaction commits before its operations: its sequence number and the removal of its one-time signers.
  When an operation throws, this stays; when one of these throws, nothing does.\<close>

definition applyCommitted :: "Crypto \<Rightarrow> TransactionEnvelope \<Rightarrow> LedgerTxn \<Rightarrow> LedgerTxn" where
  "applyCommitted C env ltx =
     (let tx = envTx env;
          sc = SignatureChecker_new (ledgerVersion (ltxHeader ltx)) (envContentsHash env) (envSignatures env)
      in case bindE (commonValid C tx ltx 0 True sc) (\<lambda>(cv, code, sc1).
              bindE (if validationRank kInvalidUpdateSeqNum \<le> validationRank cv then processSeqNum tx ltx else Inr ltx) (\<lambda>ltx1.
              if validationRank kInvalidPostAuth \<le> validationRank cv
              then bindE (processSignatures C tx ltx1 code sc1) (\<lambda>(bad, ltx2, sc2). Inr ltx2)
              else Inr ltx1)) of
           Inl e \<Rightarrow> ltx
         | Inr ltx2 \<Rightarrow> ltx2)"

definition applyOrInternalError ::
  "invariant_check \<Rightarrow> Crypto \<Rightarrow> TransactionEnvelope \<Rightarrow> LedgerTxn \<Rightarrow> ledger_error + tx_result \<times> LedgerTxn" where
  "applyOrInternalError invCheck C env ltx =
     (case applyTransaction invCheck C env ltx of
        Inr r \<Rightarrow> Inr r
      | Inl (InvariantDoesNotHold m) \<Rightarrow> Inl (InvariantDoesNotHold m)
      | Inl e \<Rightarrow> Inr ((txINTERNAL_ERROR, []), applyCommitted C env ltx))"

fun applyTransactions ::
  "invariant_check \<Rightarrow> Crypto \<Rightarrow> TransactionEnvelope list \<Rightarrow> LedgerTxn \<Rightarrow> ledger_error + tx_result list \<times> LedgerTxn" where
  "applyTransactions invCheck C [] ltx = Inr ([], ltx)"
| "applyTransactions invCheck C (tx # txs) ltx =
     bindE (applyOrInternalError invCheck C tx ltx) (\<lambda>(r, ltx1).
     bindE (applyTransactions invCheck C txs ltx1) (\<lambda>(rs, ltx2). Inr (r # rs, ltx2)))"

subsection \<open>Upgrades\<close>

text \<open>An upgrade that is not valid fails the close; one that throws while it is applied is dropped.\<close>

fun applyUpgrades :: "CloseEnv \<Rightarrow> UpgradeType list \<Rightarrow> LedgerTxn \<Rightarrow> ledger_error + LedgerTxn" where
  "applyUpgrades E [] ltx = Inr ltx"
| "applyUpgrades E (u # us) ltx =
     (case isValidForApply (decodeUpgrade E) u (ltxHeader ltx) (LEDGER_PROTOCOL_VERSION E) of
        (VALID, Some up) \<Rightarrow> applyUpgrades E us (case upgradeApplyTo up ltx of Inl e \<Rightarrow> ltx | Inr ltx' \<Rightarrow> ltx')
      | (XDR_INVALID, _) \<Rightarrow> Inl (RuntimeError ''Unknown upgrade at index'')
      | _ \<Rightarrow> Inl (RuntimeError ''Invalid upgrade at index''))"

subsection \<open>The ledger manager\<close>

datatype LedgerManagerState = LM_BOOTING_STATE | LM_SYNCED_STATE | LM_CATCHING_UP_STATE

datatype CatchupState =
    CATCHUP_NONE | WAITING_FOR_TRIGGER_LEDGER | APPLYING_HISTORY | APPLYING_BUFFERED_LEDGERS | WAITING_FOR_CLOSING_LEDGER

datatype CatchupMode = ONLINE | OFFLINE

record LedgerManager =
  lclHash :: "256 word"
  lmLedger :: LedgerTxn
  lmState :: LedgerManagerState
  mCatchupState :: CatchupState
  mCatchupTriggerLedger :: uint32
  mSyncingLedgers :: "LedgerCloseData list"
  catchupRequests :: "(uint32 \<times> CatchupMode) list"
  replayPosted :: bool

definition lclSeq :: "LedgerManager \<Rightarrow> uint32" where
  "lclSeq lm = ledgerSeq (ltxHeader (lmLedger lm))"

definition closeLedger :: "CloseEnv \<Rightarrow> LedgerCloseData \<Rightarrow> LedgerManager \<Rightarrow> ledger_error + tx_result list \<times> LedgerManager" where
  "closeLedger E lcd lm =
     (let H = closeHashes E; sv = lcdValue lcd;
          ltx0 = onHeader (\<lambda>h. h\<lparr>ledgerSeq := ledgerSeq h + 1\<rparr>) (lmLedger lm)
      in bindE (throwIf (ledgerVersion (ltxHeader ltx0) > LEDGER_PROTOCOL_VERSION E)
                  ''cannot apply ledger with not supported version'') (\<lambda>_.
         bindE (throwIf (mPreviousLedgerHash (lcdTxSet lcd) \<noteq> lclHash lm) ''txset mismatch'') (\<lambda>_.
         (let (contentsHash, fs1) = getContentsHash H (lcdTxSet lcd)
          in bindE (throwIf (contentsHash \<noteq> svTxSetHash sv) ''corrupt transaction set'') (\<lambda>_.
             (let ltx1 = onHeader (\<lambda>h. h\<lparr>closeTime := svCloseTime sv\<rparr>) ltx0;
                  (txs, fs2) = sortForApply H fs1
              in bindE (getBaseFee (ltxHeader ltx1) fs2) (\<lambda>bf.
                 bindE (processFeesSeqNums bf txs ltx1) (\<lambda>(fees, ltx2).
                 bindE (applyTransactions (closeInvariants E) (closeCrypto E) txs ltx2) (\<lambda>(results, ltx3).
                 bindE (applyUpgrades E (svUpgrades sv) ltx3) (\<lambda>ltx4.
                 Inr (results, lm\<lparr>lmLedger := ltx4, lclHash := headerHash E (lclHash lm) sv results ltx4\<rparr>)))))))))))"

definition setState :: "LedgerManagerState \<Rightarrow> LedgerManager \<Rightarrow> LedgerManager" where
  "setState s lm =
     (if s \<noteq> lmState lm
      then (let lm1 = lm\<lparr>lmState := s\<rparr> in if s \<noteq> LM_CATCHING_UP_STATE then lm1\<lparr>mCatchupState := CATCHUP_NONE\<rparr> else lm1)
      else lm)"

definition setCatchupState :: "CatchupState \<Rightarrow> LedgerManager \<Rightarrow> LedgerManager" where
  "setCatchupState s lm = setState LM_CATCHING_UP_STATE (lm\<lparr>mCatchupState := s\<rparr>)"

definition bootstrap :: "LedgerManager \<Rightarrow> LedgerManager" where
  "bootstrap lm = setState LM_SYNCED_STATE lm"

datatype CloseLedgerIfResult = CLOSED | CLOSE_TOO_OLD | CLOSE_TOO_NEW

definition closeLedgerIf :: "CloseEnv \<Rightarrow> LedgerCloseData \<Rightarrow> LedgerManager \<Rightarrow> ledger_error + CloseLedgerIfResult \<times> LedgerManager" where
  "closeLedgerIf E lcd lm =
     (if lclSeq lm + 1 = lcdLedgerSeq lcd
      then
        if lclHash lm = mPreviousLedgerHash (lcdTxSet lcd)
        then bindE (closeLedger E lcd lm) (\<lambda>(rs, lm'). Inr (CLOSED, lm'))
        else Inl (RuntimeError ''Network consensus inconsistency'')
      else if lcdLedgerSeq lcd \<le> lclSeq lm then Inr (CLOSE_TOO_OLD, lm)
      else Inr (CLOSE_TOO_NEW, lm))"

datatype SyncingLedgerChainAddResult = CHAIN_CONTIGUOUS | CHAIN_TOO_OLD | CHAIN_TOO_NEW

definition chainPush :: "LedgerCloseData \<Rightarrow> LedgerCloseData list \<Rightarrow> SyncingLedgerChainAddResult \<times> LedgerCloseData list" where
  "chainPush lcd chain =
     (if chain = [] \<or> lcdLedgerSeq (last chain) + 1 = lcdLedgerSeq lcd then (CHAIN_CONTIGUOUS, chain @ [lcd])
      else if lcdLedgerSeq lcd \<le> lcdLedgerSeq (last chain) then (CHAIN_TOO_OLD, chain)
      else (CHAIN_TOO_NEW, chain))"

definition addToSyncingLedgers :: "LedgerCloseData \<Rightarrow> LedgerManager \<Rightarrow> LedgerManager" where
  "addToSyncingLedgers lcd lm = lm\<lparr>mSyncingLedgers := snd (chainPush lcd (mSyncingLedgers lm))\<rparr>"

definition nextCheckpointLedger :: "uint32 \<Rightarrow> uint32 \<Rightarrow> uint32" where
  "nextCheckpointLedger freq ledger = (if ledger = 0 then freq else ((ledger + freq - 1) div freq) * freq)"

text \<open>Online catchup has the target just before the first buffered ledger; \<open>CURRENT\<close> is the target zero.\<close>

definition startCatchup :: "uint32 \<Rightarrow> CatchupMode \<Rightarrow> LedgerManager \<Rightarrow> ledger_error + LedgerManager" where
  "startCatchup toLedger mode lm =
     bindE (throwIf (toLedger \<noteq> 0 \<and> toLedger \<le> lclSeq lm) ''Target ledger is not newer than LCL'') (\<lambda>_.
     (let lm1 = setCatchupState APPLYING_HISTORY lm
      in bindE (assertE AssertFailure ((mode = OFFLINE) = (mSyncingLedgers lm1 = []))) (\<lambda>_.
         Inr (lm1\<lparr>catchupRequests := catchupRequests lm1 @ [(toLedger, mode)]\<rparr>))))"

definition startCatchupIf :: "uint32 \<Rightarrow> LedgerManager \<Rightarrow> ledger_error + LedgerManager" where
  "startCatchupIf lastReceived lm =
     bindE (assertE AssertFailure (mSyncingLedgers lm \<noteq> [])) (\<lambda>_.
     bindE (assertE AssertFailure (mCatchupState lm \<noteq> CATCHUP_NONE)) (\<lambda>_.
     if mCatchupState lm \<noteq> WAITING_FOR_TRIGGER_LEDGER then Inr lm
     else if mCatchupTriggerLedger lm \<le> lastReceived
     then
       (let lm1 = setCatchupState APPLYING_HISTORY lm
        in startCatchup (lcdLedgerSeq (hd (mSyncingLedgers lm1)) - 1) ONLINE lm1)
     else Inr lm))"

definition initializeCatchup :: "CloseEnv \<Rightarrow> LedgerCloseData \<Rightarrow> LedgerManager \<Rightarrow> ledger_error + LedgerManager" where
  "initializeCatchup E lcd lm =
     bindE (assertE AssertFailure (lmState lm \<noteq> LM_CATCHING_UP_STATE)) (\<lambda>_.
     bindE (assertE AssertFailure (mCatchupState lm = CATCHUP_NONE)) (\<lambda>_.
     bindE (assertE AssertFailure (mSyncingLedgers lm = [])) (\<lambda>_.
     (let lm1 = setState LM_CATCHING_UP_STATE lm;
          lm2 = lm1\<lparr>mCatchupTriggerLedger := nextCheckpointLedger (checkpointFrequency E) (lcdLedgerSeq lcd) + 1\<rparr>;
          lm3 = setCatchupState WAITING_FOR_TRIGGER_LEDGER lm2
      in startCatchupIf (lcdLedgerSeq lcd) (addToSyncingLedgers lcd lm3)))))"

definition continueCatchup :: "LedgerCloseData \<Rightarrow> LedgerManager \<Rightarrow> ledger_error + LedgerManager" where
  "continueCatchup lcd lm =
     bindE (assertE AssertFailure (lmState lm = LM_CATCHING_UP_STATE)) (\<lambda>_.
     startCatchupIf (lcdLedgerSeq lcd) (addToSyncingLedgers lcd lm))"

definition finalizeCatchup :: "CloseEnv \<Rightarrow> LedgerCloseData \<Rightarrow> LedgerManager \<Rightarrow> ledger_error + LedgerManager" where
  "finalizeCatchup E lcd lm =
     bindE (assertE AssertFailure (lmState lm = LM_CATCHING_UP_STATE)) (\<lambda>_.
     bindE (assertE AssertFailure (mCatchupState lm = WAITING_FOR_CLOSING_LEDGER)) (\<lambda>_.
     bindE (assertE AssertFailure (mSyncingLedgers lm = [])) (\<lambda>_.
     bindE (closeLedgerIf E lcd lm) (\<lambda>(r, lm1).
     (case r of
        CLOSED \<Rightarrow> Inr (setState LM_SYNCED_STATE lm1)
      | CLOSE_TOO_OLD \<Rightarrow> Inr lm1
      | CLOSE_TOO_NEW \<Rightarrow> initializeCatchup E lcd (setState LM_BOOTING_STATE lm1))))))"

definition valueExternalized :: "CloseEnv \<Rightarrow> LedgerCloseData \<Rightarrow> LedgerManager \<Rightarrow> ledger_error + LedgerManager" where
  "valueExternalized E lcd lm =
     (if lmState lm = LM_CATCHING_UP_STATE
      then (if mCatchupState lm = WAITING_FOR_CLOSING_LEDGER then finalizeCatchup E lcd lm else continueCatchup lcd lm)
      else
        bindE (closeLedgerIf E lcd lm) (\<lambda>(r, lm1).
        (case r of
           CLOSED \<Rightarrow> Inr (setState LM_SYNCED_STATE lm1)
         | CLOSE_TOO_OLD \<Rightarrow> Inr lm1
         | CLOSE_TOO_NEW \<Rightarrow> initializeCatchup E lcd lm1)))"

definition applyBufferedLedgers :: "LedgerManager \<Rightarrow> ledger_error + LedgerManager" where
  "applyBufferedLedgers lm =
     bindE (assertE AssertFailure (mCatchupState lm = APPLYING_BUFFERED_LEDGERS)) (\<lambda>_.
     Inr (if mSyncingLedgers lm = [] then setCatchupState WAITING_FOR_CLOSING_LEDGER lm else lm\<lparr>replayPosted := True\<rparr>))"

definition replayBufferedLedger :: "CloseEnv \<Rightarrow> LedgerManager \<Rightarrow> ledger_error + LedgerManager" where
  "replayBufferedLedger E lm =
     (case mSyncingLedgers lm of
        [] \<Rightarrow> Inl AssertFailure
      | lcd # rest \<Rightarrow>
          (let lm1 = lm\<lparr>mSyncingLedgers := rest, replayPosted := False\<rparr>
           in bindE (assertE AssertFailure (lcdLedgerSeq lcd = lclSeq lm1 + 1)) (\<lambda>_.
              bindE (closeLedger E lcd lm1) (\<lambda>(rs, lm2). applyBufferedLedgers lm2))))"

datatype ProgressState = APPLIED_BUCKETS | APPLIED_TRANSACTIONS | CATCHUP_FINISHED

definition historyCaughtup ::
  "bool \<Rightarrow> ProgressState \<Rightarrow> 256 word \<Rightarrow> LedgerTxn \<Rightarrow> CatchupMode \<Rightarrow> LedgerManager \<Rightarrow> ledger_error + LedgerManager" where
  "historyCaughtup failed progress lastHash lastLedger mode lm =
     bindE (assertE AssertFailure (mCatchupState lm = APPLYING_HISTORY)) (\<lambda>_.
     if failed then Inr ((setState LM_BOOTING_STATE lm)\<lparr>mSyncingLedgers := []\<rparr>)
     else
       (case progress of
          APPLIED_BUCKETS \<Rightarrow> Inr (lm\<lparr>lmLedger := lastLedger, lclHash := lastHash\<rparr>)
        | APPLIED_TRANSACTIONS \<Rightarrow>
            bindE (assertE AssertFailure (lastHash = lclHash lm)) (\<lambda>_.
            bindE (assertE AssertFailure (ltxHeader lastLedger = ltxHeader (lmLedger lm))) (\<lambda>_. Inr lm))
        | CATCHUP_FINISHED \<Rightarrow>
            (if mode = ONLINE then applyBufferedLedgers (setCatchupState APPLYING_BUFFERED_LEDGERS lm)
             else Inr (setState LM_SYNCED_STATE lm))))"

end
