(* ===== verification/Ledger_Close_Properties.thy ===== *)
theory Ledger_Close_Properties
  imports Ledger_Close Transaction_Set_Properties
begin

text \<open>
  Upgrades and closes move no lumens and lower no sequence number, so a ledger stays solvent over any history of the
  ledger manager and its transactions are applied once; the assertions of the manager's state machine hold.
\<close>

subsection \<open>Upgrades\<close>

lemma keepOffer_moves: "keepOffer ltx k ls = Inr (r, ls', ltx') \<Longrightarrow> moves 0 ltx ltx'"
  by (auto simp: keepOffer_def Let_def currentEntry_Inr theOffer_Inr core_defs elim!: bindE_InrE intro!: store_moves)

lemma updateOffer_moves:
  assumes "updateOffer ltx k b a ls bs ss = Inr (r, ls', ltx')"
  shows "moves 0 ltx ltx'"
proof -
  obtain e oe where e: "loadEntry ltx k = Some e" "entryData e = OFFER oe"
    and "ltx' = eraseEntry ltx k \<or> keepOffer ltx k ls = Inr (r, ls', ltx')"
    using assms unfolding updateOffer_def
    by (auto simp: currentEntry_Inr theOffer_Inr elim!: bindE_InrE split: if_split_asm)
  then show ?thesis using eraseOffer_moves [OF e] keepOffer_moves by blast
qed

lemma updateOffers_moves: "updateOffers a b r bs ss ks ls ltx = Inr (ls', ltx') \<Longrightarrow> moves 0 ltx ltx'"
proof (induction ks arbitrary: ls ltx)
  case (Cons k ks)
  from Cons.prems obtain res ls1 ltx1 ltx2 where u: "updateOffer ltx k b r ls bs ss = Inr (res, ls1, ltx1)"
    and n: "(if res = AdjustedToZero \<or> res = Erased
        then bindE (onEntry ltx1 (AccountKey a) (\<lambda>e. addNumEntries (ltxHeader ltx1) e (- 1))) (\<lambda>(r, ltx2). Inr ltx2)
        else Inr ltx1) = Inr ltx2"
    and rest: "updateOffers a b r bs ss ks ls1 ltx2 = Inr (ls', ltx')"
    by (auto elim!: bindE_InrE)
  have "moves 0 ltx1 ltx2" using n by (auto elim!: bindE_InrE split: if_splits dest!: subentry_op.onEntry_moves)
  from moves0_trans [OF updateOffer_moves [OF u] moves0_trans [OF this Cons.IH [OF rest]]] show ?case .
qed simp

lemma settleAsset_moves: "settleAsset a al ltx = Inr ltx' \<Longrightarrow> moves 0 ltx ltx'"
  unfolding settleAsset_def
  by (auto simp: Let_def elim!: bindE_InrE split: if_splits prod.splits
      dest!: buying_op.onEntry_moves selling_op.onEntry_moves line_buying_moves line_selling_moves intro: moves0_trans)

lemma settleAssets_moves: "settleAssets a als ltx = Inr ltx' \<Longrightarrow> moves 0 ltx ltx'"
  by (induction als arbitrary: ltx) (auto elim!: bindE_InrE dest!: settleAsset_moves intro: moves0_trans)

lemma prepareAccount_moves: "prepareAccount a ks ltx = Inr ltx' \<Longrightarrow> moves 0 ltx ltx'"
  unfolding prepareAccount_def
  by (auto simp: Let_def elim!: bindE_InrE dest!: updateOffers_moves settleAssets_moves intro: moves0_trans)

lemma prepareAccounts_moves: "prepareAccounts aks ltx = Inr ltx' \<Longrightarrow> moves 0 ltx ltx'"
  by (induction aks ltx rule: prepareAccounts.induct) (fastforce elim!: bindE_InrE dest: prepareAccount_moves intro: moves0_trans)+

lemma prepareLiabilities_moves: "prepareLiabilities ltx = Inr ltx' \<Longrightarrow> moves 0 ltx ltx'"
  unfolding prepareLiabilities_def by (rule prepareAccounts_moves)

text \<open>Steps of a close after the fees: solvent stays solvent, sequence numbers do not fall, and the header's number, totals
  and pool stay.\<close>

definition closeStep :: "LedgerTxn \<Rightarrow> LedgerTxn \<Rightarrow> bool" where
  "closeStep l l' \<longleftrightarrow> (solvent l \<longrightarrow> solvent l' \<and> ledgerSeq (ltxHeader l') = ledgerSeq (ltxHeader l) \<and>
     totalCoins (ltxHeader l') = totalCoins (ltxHeader l) \<and> ledgerVersion (ltxHeader l) \<le> ledgerVersion (ltxHeader l') \<and>
     (10 \<le> ledgerVersion (ltxHeader l) \<longrightarrow> (\<forall>a n. seqFloor a n l \<longrightarrow> seqFloor a n l')))"

lemma closeStep_refl [simp]: "closeStep l l"
  by (simp add: closeStep_def)

lemma closeStep_trans: "closeStep l1 l2 \<Longrightarrow> closeStep l2 l3 \<Longrightarrow> closeStep l1 l3"
  unfolding closeStep_def by (auto dest: order_trans)

lemma moves_closeStep:
  assumes "moves 0 l l'"
  shows "closeStep l l'"
proof -
  have "closeStep l l'" if s: "solvent l"
  proof -
    have wf: "ledgerWf l" using s by (simp add: solvent_def)
    note m = movesD(1,2) [OF assms wf] sameHeader_fields [OF movesD(3) [OF assms wf]]
    show ?thesis using m s movesD(4) [OF assms wf] by (auto simp: closeStep_def solvent_def)
  qed
  then show ?thesis by (auto simp: closeStep_def)
qed

lemma header_closeStep:
  assumes "\<And>h. ledgerSeq (f h) = ledgerSeq h \<and> totalCoins (f h) = totalCoins h \<and> feePool (f h) = feePool h"
    and "ledgerVersion (ltxHeader l) \<le> ledgerVersion (f (ltxHeader l))"
  shows "closeStep l (onHeader f l)"
  using assms
  by (auto simp: closeStep_def onHeader_def solvent_def seqFloor_def startSeq_def getStartingSequenceNumber_def split: option.splits)

lemma upgradeApplyTo_closeStep:
  assumes "upgradeApplyTo u ltx = Inr ltx'" "upgradeAllowed u (ltxHeader ltx) v"
  shows "closeStep ltx ltx'"
proof (cases u)
  case (LEDGER_UPGRADE_VERSION w)
  have h: "closeStep ltx (onHeader (\<lambda>h. h\<lparr>ledgerVersion := w\<rparr>) ltx)"
    using assms(2) LEDGER_UPGRADE_VERSION by (intro header_closeStep) (auto simp: upgradeAllowed_def)
  then show ?thesis
    using assms(1) LEDGER_UPGRADE_VERSION closeStep_trans [OF h moves_closeStep [OF prepareLiabilities_moves]]
    by (auto simp: upgradeApplyTo_def applyVersionUpgrade_def Let_def split: if_splits)
next
  case (LEDGER_UPGRADE_BASE_RESERVE w)
  have h: "closeStep ltx (onHeader (\<lambda>h. h\<lparr>baseReserve := w\<rparr>) ltx)" by (intro header_closeStep) auto
  then show ?thesis
    using assms(1) LEDGER_UPGRADE_BASE_RESERVE closeStep_trans [OF h moves_closeStep [OF prepareLiabilities_moves]]
    by (auto simp: upgradeApplyTo_def applyReserveUpgrade_def Let_def split: if_splits)
qed (use assms in \<open>auto simp: upgradeApplyTo_def intro!: header_closeStep\<close>)

lemma isValidForApply_allowed: "isValidForApply d u h v = (VALID, Some up) \<Longrightarrow> upgradeAllowed up h v"
  by (auto simp: isValidForApply_def split: option.splits if_splits)

lemma applyUpgrades_closeStep: "applyUpgrades E us ltx = Inr ltx' \<Longrightarrow> closeStep ltx ltx'"
proof (induction us arbitrary: ltx)
  case (Cons u us)
  from Cons.prems obtain up where up: "isValidForApply (decodeUpgrade E) u (ltxHeader ltx) (LEDGER_PROTOCOL_VERSION E) = (VALID, Some up)"
    and rest: "applyUpgrades E us (case upgradeApplyTo up ltx of Inl e \<Rightarrow> ltx | Inr l \<Rightarrow> l) = Inr ltx'"
    by (auto split: prod.splits UpgradeValidity.splits option.splits)
  have "closeStep ltx (case upgradeApplyTo up ltx of Inl e \<Rightarrow> ltx | Inr l \<Rightarrow> l)"
    using upgradeApplyTo_closeStep [OF _ isValidForApply_allowed [OF up]] by (auto split: sum.splits)
  then show ?case using Cons.IH [OF rest] by (rule closeStep_trans)
qed simp

subsection \<open>Transactions of a close\<close>

text \<open>Fees and applications are stages of a close: one step for every transaction, in the order of the list, with one result
  each. What a stage keeps follows from what its step keeps, and every transaction has its step at some point.\<close>

locale close_stage =
  fixes step :: "TransactionEnvelope \<Rightarrow> LedgerTxn \<Rightarrow> ledger_error + 'r \<times> LedgerTxn"
    and run :: "TransactionEnvelope list \<Rightarrow> LedgerTxn \<Rightarrow> ledger_error + 'r list \<times> LedgerTxn"
  assumes run_Nil: "run [] l = Inr ([], l)"
    and run_Cons: "run (t # ts) l = bindE (step t l) (\<lambda>(r, l1). bindE (run ts l1) (\<lambda>(rs, l2). Inr (r # rs, l2)))"
    and step_ok: "step t l = Inr (r, l') \<Longrightarrow> closeStep l l'"
begin

lemma run_Cons_Inr:
  assumes "run (t # ts) l = Inr (rs, l')"
  obtains r l1 rs1 where "step t l = Inr (r, l1)" "run ts l1 = Inr (rs1, l')" "rs = r # rs1"
  using assms by (auto simp: run_Cons elim!: bindE_InrE)

lemma run_closeStep: "run ts l = Inr (rs, l') \<Longrightarrow> closeStep l l'"
proof (induction ts arbitrary: l rs)
  case (Cons t ts)
  show ?case by (rule run_Cons_Inr [OF Cons.prems]) (blast intro: closeStep_trans step_ok Cons.IH)
qed (simp add: run_Nil)

lemma run_length: "run ts l = Inr (rs, l') \<Longrightarrow> length rs = length ts"
proof (induction ts arbitrary: l rs)
  case (Cons t ts)
  show ?case by (rule run_Cons_Inr [OF Cons.prems]) (simp add: Cons.IH)
qed (simp add: run_Nil)

lemma run_performs:
  "run ts l = Inr (rs, l') \<Longrightarrow> (t, r) \<in> set (zip ts rs) \<Longrightarrow>
   \<exists>l1 l2. closeStep l l1 \<and> step t l1 = Inr (r, l2) \<and> closeStep l2 l'"
proof (induction ts arbitrary: l rs)
  case (Cons u us)
  obtain q l1 rs1 where s: "step u l = Inr (q, l1)" "run us l1 = Inr (rs1, l')" "rs = q # rs1" by (rule run_Cons_Inr [OF Cons.prems(1)])
  consider "t = u" "r = q" | "(t, r) \<in> set (zip us rs1)" using Cons.prems(2) s(3) by auto
  then show ?case
  proof cases
    case 1
    then show ?thesis using s(1) run_closeStep [OF s(2)] closeStep_refl by blast
  next
    case 2
    then show ?thesis using Cons.IH [OF s(2)] closeStep_trans [OF step_ok [OF s(1)]] by blast
  qed
qed simp

end

lemma fee_closeStep:
  assumes "processFeeSeqNum bf tx ltx = Inr (fee, ltx')"
  shows "closeStep ltx ltx'"
proof -
  have h: "ledgerSeq (ltxHeader ltx') = ledgerSeq (ltxHeader ltx) \<and> totalCoins (ltxHeader ltx') = totalCoins (ltxHeader ltx) \<and>
    ledgerVersion (ltxHeader ltx') = ledgerVersion (ltxHeader ltx)"
    using processFeeSeqNum_cases [OF assms] by fastforce
  then show ?thesis
    using processFeeSeqNum_solvent [OF assms] processFeeSeqNum_floor(2) [OF assms] by (auto simp: closeStep_def)
qed

interpretation fee_stage: close_stage "\<lambda>t. processFeeSeqNum bf (envTx t)" "processFeesSeqNums bf" for bf
  by unfold_locales (simp_all add: fee_closeStep)

lemma applyCommitted_moves: "moves 0 ltx (applyCommitted C env ltx)"
proof -
  let ?sc = "SignatureChecker_new (ledgerVersion (ltxHeader ltx)) (envContentsHash env) (envSignatures env)"
  have "moves 0 ltx l" if "bindE (commonValid C (envTx env) ltx 0 True ?sc) (\<lambda>(cv, code, sc1).
      bindE (if validationRank kInvalidUpdateSeqNum \<le> validationRank cv then processSeqNum (envTx env) ltx else Inr ltx) (\<lambda>ltx1.
      if validationRank kInvalidPostAuth \<le> validationRank cv
      then bindE (processSignatures C (envTx env) ltx1 code sc1) (\<lambda>(bad, ltx2, sc2). Inr ltx2)
      else Inr ltx1)) = Inr l" for l
    using that
    by (auto elim!: bindE_InrE split: if_splits dest!: processSeqNum_moves processSignatures_moves intro: moves0_trans)
  then show ?thesis by (simp add: applyCommitted_def Let_def split: sum.splits)
qed

lemma applyOrInternalError_closeStep:
  assumes "applyOrInternalError i C env ltx = Inr (r, ltx')"
  shows "closeStep ltx ltx'"
proof (cases "applyTransaction i C env ltx")
  case (Inr p)
  then show ?thesis using assms applyTransaction_moves by (cases p) (auto simp: applyOrInternalError_def intro: moves_closeStep)
next
  case (Inl e)
  then show ?thesis using assms applyCommitted_moves
    by (auto simp: applyOrInternalError_def intro: moves_closeStep split: ledger_error.splits)
qed

interpretation apply_stage: close_stage "applyOrInternalError i C" "applyTransactions i C" for i C
  by unfold_locales (simp_all add: applyOrInternalError_closeStep)

lemma closeLedger_parts:
  assumes "closeLedger E lcd lm = Inr (rs, lm')"
  obtains bf fees ltx2 ltx3 where
    "mPreviousLedgerHash (lcdTxSet lcd) = lclHash lm" "ledgerVersion (ltxHeader (lmLedger lm)) \<le> LEDGER_PROTOCOL_VERSION E"
    "processFeesSeqNums bf (fst (sortForApply (closeHashes E) (snd (getContentsHash (closeHashes E) (lcdTxSet lcd)))))
       (onHeader (\<lambda>h. h\<lparr>ledgerSeq := ledgerSeq h + 1, closeTime := svCloseTime (lcdValue lcd)\<rparr>) (lmLedger lm)) = Inr (fees, ltx2)"
    "applyTransactions (closeInvariants E) (closeCrypto E)
       (fst (sortForApply (closeHashes E) (snd (getContentsHash (closeHashes E) (lcdTxSet lcd))))) ltx2 = Inr (rs, ltx3)"
    "applyUpgrades E (svUpgrades (lcdValue lcd)) ltx3 = Inr (lmLedger lm')"
    "lm' = lm\<lparr>lmLedger := lmLedger lm', lclHash := lclHash lm'\<rparr>"
proof -
  let ?H = "closeHashes E"
  obtain ch fs1 where g: "getContentsHash ?H (lcdTxSet lcd) = (ch, fs1)" by (cases "getContentsHash ?H (lcdTxSet lcd)")
  obtain txs fs2 where a: "sortForApply ?H fs1 = (txs, fs2)" by (cases "sortForApply ?H fs1")
  show thesis
    using assms that unfolding closeLedger_def
    by (fastforce simp: Let_def g a onHeader_def throwIf_Inr not_less elim!: bindE_InrE)
qed


lemma closeLedger_effect:
  assumes "closeLedger E lcd lm = Inr (rs, lm')" "solvent (lmLedger lm)"
  shows "solvent (lmLedger lm')" "lclSeq lm' = lclSeq lm + 1"
    "totalCoins (ltxHeader (lmLedger lm')) = totalCoins (ltxHeader (lmLedger lm))"
    "lm' = lm\<lparr>lmLedger := lmLedger lm', lclHash := lclHash lm'\<rparr>"
    "length rs = length (mTransactions (lcdTxSet lcd))"
    "ledgerVersion (ltxHeader (lmLedger lm)) \<le> ledgerVersion (ltxHeader (lmLedger lm'))"
proof -
  let ?l0 = "onHeader (\<lambda>h. h\<lparr>ledgerSeq := ledgerSeq h + 1, closeTime := svCloseTime (lcdValue lcd)\<rparr>) (lmLedger lm)"
  let ?fs = "snd (getContentsHash (closeHashes E) (lcdTxSet lcd))"
  obtain bf fees ltx2 ltx3 where "mPreviousLedgerHash (lcdTxSet lcd) = lclHash lm"
    "ledgerVersion (ltxHeader (lmLedger lm)) \<le> LEDGER_PROTOCOL_VERSION E" and p: "processFeesSeqNums bf (fst (sortForApply (closeHashes E) ?fs)) ?l0 = Inr (fees, ltx2)"
    "applyTransactions (closeInvariants E) (closeCrypto E) (fst (sortForApply (closeHashes E) ?fs)) ltx2 = Inr (rs, ltx3)"
    "applyUpgrades E (svUpgrades (lcdValue lcd)) ltx3 = Inr (lmLedger lm')"
    "lm' = lm\<lparr>lmLedger := lmLedger lm', lclHash := lclHash lm'\<rparr>"
    by (rule closeLedger_parts [OF assms(1)])
  have s0: "solvent ?l0" using assms(2) by (simp add: solvent_def onHeader_def)
  have "closeStep ?l0 (lmLedger lm')"
    using fee_stage.run_closeStep [OF p(1)] apply_stage.run_closeStep [OF p(2)] applyUpgrades_closeStep [OF p(3)]
    by (blast intro: closeStep_trans)
  then show "solvent (lmLedger lm')" "lclSeq lm' = lclSeq lm + 1"
    "totalCoins (ltxHeader (lmLedger lm')) = totalCoins (ltxHeader (lmLedger lm))"
    "ledgerVersion (ltxHeader (lmLedger lm)) \<le> ledgerVersion (ltxHeader (lmLedger lm'))"
    using s0 by (simp_all add: closeStep_def lclSeq_def onHeader_def)
  show "lm' = lm\<lparr>lmLedger := lmLedger lm', lclHash := lclHash lm'\<rparr>" by (rule p(4))
  have "length rs = length (fst (sortForApply (closeHashes E) ?fs))" using apply_stage.run_length [OF p(2)] by simp
  also have "\<dots> = length (mTransactions ?fs)" by (metis size_mset sortForApply_mset)
  also have "\<dots> = length (mTransactions (lcdTxSet lcd))" by (simp add: getContentsHash_def sortForHash_def Let_def)
  finally show "length rs = length (mTransactions (lcdTxSet lcd))" .
qed


subsection \<open>Sequence numbers over closes\<close>

lemma closeStepD:
  assumes "closeStep l l'" "solvent l"
  shows "solvent l'" "ledgerVersion (ltxHeader l) \<le> ledgerVersion (ltxHeader l')"
    "10 \<le> ledgerVersion (ltxHeader l) \<Longrightarrow> seqFloor a n l \<Longrightarrow> seqFloor a n l'"
  using assms by (auto simp: closeStep_def)

lemma applyTransactions_consumes:
  assumes "applyTransactions i C txs ltx = Inr (rs, ltx')" "(env, r) \<in> set (zip txs rs)"
    and "fst r \<notin> refusals" "fst r \<noteq> txINTERNAL_ERROR" "solvent ltx" "10 \<le> ledgerVersion (ltxHeader ltx)"
  shows "seqFloor (txSourceAccount (envTx env)) (sint (txSeqNum (envTx env))) ltx'"
proof -
  obtain l1 l2 where l: "closeStep ltx l1" "applyOrInternalError i C env l1 = Inr (r, l2)" "closeStep l2 ltx'"
    using apply_stage.run_performs [OF assms(1,2)] by blast
  have l1: "solvent l1" "10 \<le> ledgerVersion (ltxHeader l1)"
    using closeStepD(1,2) [OF l(1) assms(5)] order_trans [OF assms(6)] by auto
  have l2: "solvent l2" "10 \<le> ledgerVersion (ltxHeader l2)"
    using closeStepD(1,2) [OF applyOrInternalError_closeStep [OF l(2)] l1(1)] order_trans [OF l1(2)] by auto
  have "applyTransaction i C env l1 = Inr (r, l2)"
    using l(2) assms(4) by (auto simp: applyOrInternalError_def split: sum.splits ledger_error.splits)
  then have "seqFloor (txSourceAccount (envTx env)) (sint (txSeqNum (envTx env))) l2"
    using applyTransaction_consumes assms(3) l1 by (auto simp: solvent_def)
  then show ?thesis using closeStepD(3) [OF l(3) l2] by blast
qed

lemma closeLedger_consumes:
  assumes "closeLedger E lcd lm = Inr (rs, lm')" "solvent (lmLedger lm)" "10 \<le> ledgerVersion (ltxHeader (lmLedger lm))"
    and "(env, r) \<in> set (zip (fst (sortForApply (closeHashes E) (snd (getContentsHash (closeHashes E) (lcdTxSet lcd))))) rs)"
    and "fst r \<notin> refusals" "fst r \<noteq> txINTERNAL_ERROR"
  shows "seqFloor (txSourceAccount (envTx env)) (sint (txSeqNum (envTx env))) (lmLedger lm')"
  using assms(1)
proof (cases rule: closeLedger_parts)
  case (1 bf fees ltx2 ltx3)
  let ?l0 = "onHeader (\<lambda>h. h\<lparr>ledgerSeq := ledgerSeq h + 1, closeTime := svCloseTime (lcdValue lcd)\<rparr>) (lmLedger lm)"
  have "solvent ?l0" "10 \<le> ledgerVersion (ltxHeader ?l0)" using assms(2,3) by (simp_all add: solvent_def onHeader_def)
  with fee_stage.run_closeStep [OF 1(3)] have l2: "solvent ltx2" "10 \<le> ledgerVersion (ltxHeader ltx2)"
    using closeStepD(1,2) [of ?l0 ltx2] by (auto dest: order_trans)
  note c = apply_stage.run_closeStep [OF 1(4)]
  have l3: "solvent ltx3" "10 \<le> ledgerVersion (ltxHeader ltx3)" using closeStepD(1,2) [OF c l2(1)] order_trans [OF l2(2)] by auto
  show ?thesis
    using closeStepD(3) [OF applyUpgrades_closeStep [OF 1(5)] l3] applyTransactions_consumes [OF 1(4) assms(4-6) l2] by blast
qed

lemma closeLedger_floor:
  assumes "closeLedger E lcd lm = Inr (rs, lm')" "solvent (lmLedger lm)" "10 \<le> ledgerVersion (ltxHeader (lmLedger lm))"
    and "unat (lclSeq lm) + 1 < 2 ^ 31" "seqFloor a n (lmLedger lm)"
  shows "seqFloor a n (lmLedger lm')"
  using assms(1)
proof (cases rule: closeLedger_parts)
  case (1 bf fees ltx2 ltx3)
  let ?h = "(ltxHeader (lmLedger lm))\<lparr>ledgerSeq := ledgerSeq (ltxHeader (lmLedger lm)) + 1, closeTime := svCloseTime (lcdValue lcd)\<rparr>"
  let ?l0 = "(lmLedger lm)\<lparr>ltxHeader := ?h\<rparr>"
  have "unat (lclSeq lm + 1) = unat (lclSeq lm) + 1" using assms(4) by (simp add: unat_word_ariths)
  then have "nextHeader (ltxHeader (lmLedger lm)) ?h" using assms(4) by (simp add: nextHeader_def lclSeq_def)
  then have "seqFloor a n ?l0" using close_floor assms(5) by blast
  moreover have "closeStep ?l0 (lmLedger lm')"
    using fee_stage.run_closeStep [OF 1(3)] apply_stage.run_closeStep [OF 1(4)] applyUpgrades_closeStep [OF 1(5)]
    by (auto simp: onHeader_def intro: closeStep_trans)
  moreover have "solvent ?l0" using assms(2) by (simp add: solvent_def)
  ultimately show ?thesis using closeStepD(3) [of ?l0 "lmLedger lm'"] assms(3) by simp
qed

text \<open>Ledgers closed one after the other.\<close>

inductive closings :: "CloseEnv \<Rightarrow> LedgerManager \<Rightarrow> LedgerManager \<Rightarrow> bool" for E where
  none: "closings E lm lm"
| close: "closings E lm lm1 \<Longrightarrow> closeLedger E lcd lm1 = Inr (rs, lm2) \<Longrightarrow> unat (lclSeq lm1) + 1 < 2 ^ 31 \<Longrightarrow> closings E lm lm2"

lemma closings_keep:
  assumes "closings E lm lm'" "solvent (lmLedger lm)" "10 \<le> ledgerVersion (ltxHeader (lmLedger lm))" "seqFloor a n (lmLedger lm)"
  shows "solvent (lmLedger lm') \<and> 10 \<le> ledgerVersion (ltxHeader (lmLedger lm')) \<and> seqFloor a n (lmLedger lm')"
  using assms
proof (induction rule: closings.induct)
  case (close lm lm1 lcd rs lm2)
  then show ?case
    using closeLedger_effect(1,6) [OF close(2)] closeLedger_floor [OF close(2)] by (auto dest: order_trans)
qed simp

subsection \<open>The states of the manager\<close>

abbreviation chained :: "LedgerCloseData list \<Rightarrow> bool" where
  "chained \<equiv> successively (\<lambda>x y. lcdLedgerSeq y = lcdLedgerSeq x + 1)"

definition managerInv :: "LedgerManager \<Rightarrow> bool" where
  "managerInv lm \<longleftrightarrow> solvent (lmLedger lm) \<and> chained (mSyncingLedgers lm) \<and>
     (mCatchupState lm \<noteq> CATCHUP_NONE \<longleftrightarrow> lmState lm = LM_CATCHING_UP_STATE) \<and>
     (mCatchupState lm \<in> {CATCHUP_NONE, WAITING_FOR_CLOSING_LEDGER} \<longleftrightarrow> mSyncingLedgers lm = []) \<and>
     (replayPosted lm \<longleftrightarrow> mCatchupState lm = APPLYING_BUFFERED_LEDGERS) \<and>
     (mCatchupState lm = WAITING_FOR_TRIGGER_LEDGER \<longrightarrow> lclSeq lm < lcdLedgerSeq (hd (mSyncingLedgers lm)) - 1) \<and>
     (mCatchupState lm = APPLYING_BUFFERED_LEDGERS \<longrightarrow> lcdLedgerSeq (hd (mSyncingLedgers lm)) = lclSeq lm + 1)"

lemma setState_simps [simp]:
  "lmLedger (setState s lm) = lmLedger lm" "mSyncingLedgers (setState s lm) = mSyncingLedgers lm"
  "replayPosted (setState s lm) = replayPosted lm" "lmState (setState s lm) = s" "lclSeq (setState s lm) = lclSeq lm"
  "mCatchupTriggerLedger (setState s lm) = mCatchupTriggerLedger lm" "lclHash (setState s lm) = lclHash lm"
  "mCatchupState (setState s lm) = (if s \<noteq> lmState lm \<and> s \<noteq> LM_CATCHING_UP_STATE then CATCHUP_NONE else mCatchupState lm)"
  by (simp_all add: setState_def lclSeq_def Let_def)

lemma setCatchupState_simps [simp]:
  "lmLedger (setCatchupState s lm) = lmLedger lm" "mSyncingLedgers (setCatchupState s lm) = mSyncingLedgers lm"
  "replayPosted (setCatchupState s lm) = replayPosted lm" "lmState (setCatchupState s lm) = LM_CATCHING_UP_STATE"
  "mCatchupState (setCatchupState s lm) = s" "lclSeq (setCatchupState s lm) = lclSeq lm"
  "mCatchupTriggerLedger (setCatchupState s lm) = mCatchupTriggerLedger lm" "lclHash (setCatchupState s lm) = lclHash lm"
  by (simp_all add: setCatchupState_def lclSeq_def)

lemma chainPush_chained: "chained chain \<Longrightarrow> chained (snd (chainPush lcd chain))"
  by (auto simp: chainPush_def successively_append_iff)

lemma chainPush_keeps: "chain \<noteq> [] \<Longrightarrow> snd (chainPush lcd chain) \<noteq> [] \<and> hd (snd (chainPush lcd chain)) = hd chain"
  by (auto simp: chainPush_def)


lemma word_gap: "a < b \<Longrightarrow> a + 1 \<noteq> b \<Longrightarrow> a < b - 1" for a b :: uint32
  by unat_arith

lemma startCatchupIf_ok:
  assumes "managerInv lm" "mCatchupState lm \<notin> {CATCHUP_NONE, WAITING_FOR_CLOSING_LEDGER}"
  shows "\<exists>lm'. startCatchupIf n lm = Inr lm' \<and> managerInv lm'"
proof (cases "mCatchupState lm = WAITING_FOR_TRIGGER_LEDGER \<and> mCatchupTriggerLedger lm \<le> n")
  case True
  let ?lm = "setCatchupState APPLYING_HISTORY (setCatchupState APPLYING_HISTORY lm)"
  have i: "mSyncingLedgers lm \<noteq> []" "\<not> replayPosted lm" "\<not> lcdLedgerSeq (hd (mSyncingLedgers lm)) - 1 \<le> lclSeq lm"
    "solvent (lmLedger lm)" "chained (mSyncingLedgers lm)"
    using assms(1) True by (auto simp: managerInv_def)
  then have "startCatchupIf n lm = Inr (?lm\<lparr>catchupRequests := catchupRequests ?lm @ [(lcdLedgerSeq (hd (mSyncingLedgers lm)) - 1, ONLINE)]\<rparr>)"
    using True by (simp add: startCatchupIf_def startCatchup_def Let_def assertE_def throwIf_def)
  moreover have "managerInv (?lm\<lparr>catchupRequests := r\<rparr>)" for r using i by (simp add: managerInv_def)
  ultimately show ?thesis by blast
next
  case False
  then show ?thesis using assms by (auto simp: startCatchupIf_def assertE_def managerInv_def)
qed

lemma addToSyncingLedgers_inv:
  assumes "managerInv lm" "mCatchupState lm \<notin> {CATCHUP_NONE, WAITING_FOR_CLOSING_LEDGER}"
  shows "managerInv (addToSyncingLedgers lcd lm)"
  using assms chainPush_chained [of "mSyncingLedgers lm" lcd] chainPush_keeps [of "mSyncingLedgers lm" lcd]
  by (auto simp: managerInv_def addToSyncingLedgers_def lclSeq_def)

lemma continueCatchup_ok:
  assumes "managerInv lm" "mCatchupState lm \<notin> {CATCHUP_NONE, WAITING_FOR_CLOSING_LEDGER}"
  shows "\<exists>lm'. continueCatchup lcd lm = Inr lm' \<and> managerInv lm'"
proof -
  have "lmState lm = LM_CATCHING_UP_STATE" using assms by (auto simp: managerInv_def)
  then show ?thesis
    using startCatchupIf_ok [OF addToSyncingLedgers_inv [OF assms]] assms(2)
    by (simp add: continueCatchup_def assertE_def addToSyncingLedgers_def)
qed

lemma initializeCatchup_ok:
  assumes "managerInv lm" "mCatchupState lm = CATCHUP_NONE" "lclSeq lm + 1 \<noteq> lcdLedgerSeq lcd" "\<not> lcdLedgerSeq lcd \<le> lclSeq lm"
  shows "\<exists>lm'. initializeCatchup E lcd lm = Inr lm' \<and> managerInv lm'"
proof -
  let ?lm = "setCatchupState WAITING_FOR_TRIGGER_LEDGER ((setState LM_CATCHING_UP_STATE lm)
    \<lparr>mCatchupTriggerLedger := nextCheckpointLedger (checkpointFrequency E) (lcdLedgerSeq lcd) + 1\<rparr>)"
  have i: "lmState lm \<noteq> LM_CATCHING_UP_STATE" "mSyncingLedgers lm = []" using assms(1,2) by (auto simp: managerInv_def)
  have seq: "lclSeq lm < lcdLedgerSeq lcd - 1" using assms(3,4) word_gap [of "lclSeq lm" "lcdLedgerSeq lcd"] by simp
  have "lclSeq (x\<lparr>mSyncingLedgers := l\<rparr>) = lclSeq x" "lclSeq (x\<lparr>mCatchupTriggerLedger := t\<rparr>) = lclSeq x" for x l t
    by (simp_all add: lclSeq_def)
  then have "managerInv (addToSyncingLedgers lcd ?lm)"
    using assms(1) i(2) seq assms(2) by (simp add: managerInv_def addToSyncingLedgers_def chainPush_def)
  then have "\<exists>lm'. startCatchupIf (lcdLedgerSeq lcd) (addToSyncingLedgers lcd ?lm) = Inr lm' \<and> managerInv lm'"
    by (rule startCatchupIf_ok) (simp add: addToSyncingLedgers_def)
  then show ?thesis using i assms(2) by (simp add: initializeCatchup_def assertE_def Let_def)
qed

lemma closeLedger_frame:
  assumes "closeLedger E lcd lm = Inr (rs, lm')" "solvent (lmLedger lm)"
  shows "mSyncingLedgers lm' = mSyncingLedgers lm" "replayPosted lm' = replayPosted lm"
    "mCatchupState lm' = mCatchupState lm" "lmState lm' = lmState lm"
  using closeLedger_effect(4) [OF assms]
  by (metis LedgerManager.select_convs LedgerManager.surjective LedgerManager.update_convs)+

lemma closed_inv:
  assumes "managerInv lm" "mSyncingLedgers lm = []" "closeLedger E lcd lm = Inr (rs, lm')"
  shows "managerInv (setState LM_SYNCED_STATE lm')"
proof -
  have s: "solvent (lmLedger lm)" using assms(1) by (simp add: managerInv_def)
  show ?thesis using closeLedger_frame [OF assms(3) s] closeLedger_effect(1) [OF assms(3) s] assms(1,2) by (auto simp: managerInv_def)
qed

text \<open>What externalizing a value may do: leave the invariant, or fail as the close fails or as the chain of ledgers broke.\<close>

definition managerOutcome :: "CloseEnv \<Rightarrow> LedgerCloseData \<Rightarrow> LedgerManager \<Rightarrow> ledger_error + LedgerManager \<Rightarrow> bool" where
  "managerOutcome E lcd lm r =
     (case r of
        Inr lm' \<Rightarrow> managerInv lm'
      | Inl e \<Rightarrow> e = RuntimeError ''Network consensus inconsistency'' \<or> closeLedger E lcd lm = Inl e)"

lemma closeLedgerIf_ok:
  assumes "managerInv lm" "mSyncingLedgers lm = []"
    and "\<And>lm1. managerInv lm1 \<Longrightarrow> lm1 = lm \<Longrightarrow> lclSeq lm + 1 \<noteq> lcdLedgerSeq lcd \<Longrightarrow> \<not> lcdLedgerSeq lcd \<le> lclSeq lm \<Longrightarrow>
           \<exists>lm'. k lm1 = Inr lm' \<and> managerInv lm'"
  shows "managerOutcome E lcd lm (bindE (closeLedgerIf E lcd lm) (\<lambda>(r, lm1).
    (case r of CLOSED \<Rightarrow> Inr (setState LM_SYNCED_STATE lm1) | CLOSE_TOO_OLD \<Rightarrow> Inr lm1 | CLOSE_TOO_NEW \<Rightarrow> k lm1)))"
proof (cases "lclSeq lm + 1 = lcdLedgerSeq lcd")
  case True
  show ?thesis
  proof (cases "closeLedger E lcd lm")
    case (Inl e)
    then show ?thesis using True by (simp add: closeLedgerIf_def managerOutcome_def)
  next
    case (Inr p)
    then show ?thesis using True closed_inv [OF assms(1,2)] by (cases p) (simp add: closeLedgerIf_def managerOutcome_def)
  qed
next
  case False
  then show ?thesis using assms(1) assms(3) [OF assms(1) refl] by (auto simp: closeLedgerIf_def managerOutcome_def)
qed

lemma booting_inv:
  "managerInv lm \<Longrightarrow> mCatchupState lm = WAITING_FOR_CLOSING_LEDGER \<Longrightarrow>
     managerInv (setState LM_BOOTING_STATE lm) \<and> mCatchupState (setState LM_BOOTING_STATE lm) = CATCHUP_NONE"
  by (auto simp: managerInv_def)

lemma valueExternalized_ok:
  assumes "managerInv lm"
  shows "managerOutcome E lcd lm (valueExternalized E lcd lm)"
proof (cases "lmState lm = LM_CATCHING_UP_STATE")
  case True
  show ?thesis
  proof (cases "mCatchupState lm = WAITING_FOR_CLOSING_LEDGER")
    case waiting: True
    then have empty: "mSyncingLedgers lm = []" using assms by (auto simp: managerInv_def)
    have "managerOutcome E lcd lm (bindE (closeLedgerIf E lcd lm) (\<lambda>(r, lm1).
      (case r of CLOSED \<Rightarrow> Inr (setState LM_SYNCED_STATE lm1) | CLOSE_TOO_OLD \<Rightarrow> Inr lm1
       | CLOSE_TOO_NEW \<Rightarrow> initializeCatchup E lcd (setState LM_BOOTING_STATE lm1))))"
      using booting_inv [OF assms waiting] by (intro closeLedgerIf_ok [OF assms empty]) (simp add: initializeCatchup_ok)
    then show ?thesis using True waiting empty by (simp add: valueExternalized_def finalizeCatchup_def assertE_def)
  next
    case False
    then have "mCatchupState lm \<notin> {CATCHUP_NONE, WAITING_FOR_CLOSING_LEDGER}" using assms True by (auto simp: managerInv_def)
    from continueCatchup_ok [OF assms this, of lcd] show ?thesis
      using True False by (auto simp: valueExternalized_def managerOutcome_def split: sum.splits)
  qed
next
  case False
  then have i: "mCatchupState lm = CATCHUP_NONE" "mSyncingLedgers lm = []" using assms by (auto simp: managerInv_def)
  have "managerOutcome E lcd lm (bindE (closeLedgerIf E lcd lm) (\<lambda>(r, lm1).
    (case r of CLOSED \<Rightarrow> Inr (setState LM_SYNCED_STATE lm1) | CLOSE_TOO_OLD \<Rightarrow> Inr lm1
     | CLOSE_TOO_NEW \<Rightarrow> initializeCatchup E lcd lm1)))"
    by (rule closeLedgerIf_ok [OF assms i(2)]) (simp add: initializeCatchup_ok i(1))
  then show ?thesis using False by (simp add: valueExternalized_def)
qed

lemma replay_ok:
  assumes "managerInv lm" "replayPosted lm"
  shows "\<exists>lcd rest. mSyncingLedgers lm = lcd # rest \<and>
    (case replayBufferedLedger E lm of
       Inr lm' \<Rightarrow> managerInv lm'
     | Inl e \<Rightarrow> closeLedger E lcd (lm\<lparr>mSyncingLedgers := rest, replayPosted := False\<rparr>) = Inl e)"
proof -
  have c: "mCatchupState lm = APPLYING_BUFFERED_LEDGERS" using assms by (simp add: managerInv_def)
  then obtain lcd rest where l: "mSyncingLedgers lm = lcd # rest" using assms(1) by (cases "mSyncingLedgers lm") (auto simp: managerInv_def)
  let ?lm = "lm\<lparr>mSyncingLedgers := rest, replayPosted := False\<rparr>"
  have i: "solvent (lmLedger ?lm)" "lcdLedgerSeq lcd = lclSeq ?lm + 1" "chained rest"
    "rest \<noteq> [] \<Longrightarrow> lcdLedgerSeq (hd rest) = lcdLedgerSeq lcd + 1" "lmState lm = LM_CATCHING_UP_STATE"
    using assms(1) c l by (auto simp: managerInv_def lclSeq_def successively_Cons)
  show ?thesis
  proof (cases "closeLedger E lcd ?lm")
    case (Inl e)
    then show ?thesis using l i(2) by (simp add: replayBufferedLedger_def assertE_def)
  next
    case (Inr p)
    obtain rs lm2 where p: "p = (rs, lm2)" by (cases p)
    note f = closeLedger_frame [OF Inr [unfolded p] i(1)] and e = closeLedger_effect(1,2) [OF Inr [unfolded p] i(1)]
    have "lclSeq (lm2\<lparr>replayPosted := True\<rparr>) = lclSeq lm2" by (simp add: lclSeq_def)
    then have "managerInv (if rest = [] then setCatchupState WAITING_FOR_CLOSING_LEDGER lm2 else lm2\<lparr>replayPosted := True\<rparr>)"
      using f e i c by (auto simp: managerInv_def)
    then show ?thesis using l i(2) Inr p f c by (simp add: replayBufferedLedger_def applyBufferedLedgers_def assertE_def)
  qed
qed


text \<open>The life of a manager. While history is applied, its ledgers are closed or its buckets replace the ledger, and its
  work reports that it finished when it reached its target, the ledger before the first buffered one.\<close>

inductive manager_run :: "CloseEnv \<Rightarrow> LedgerManager \<Rightarrow> LedgerManager \<Rightarrow> bool" for E where
  start: "manager_run E lm lm"
| externalized: "manager_run E lm lm1 \<Longrightarrow> valueExternalized E lcd lm1 = Inr lm2 \<Longrightarrow> manager_run E lm lm2"
| replayed: "manager_run E lm lm1 \<Longrightarrow> replayPosted lm1 \<Longrightarrow> replayBufferedLedger E lm1 = Inr lm2 \<Longrightarrow> manager_run E lm lm2"
| history: "manager_run E lm lm1 \<Longrightarrow> mCatchupState lm1 = APPLYING_HISTORY \<Longrightarrow> closeLedger E lcd lm1 = Inr (rs, lm2) \<Longrightarrow>
    manager_run E lm lm2"
| buckets: "manager_run E lm lm1 \<Longrightarrow> solvent l \<Longrightarrow> historyCaughtup False APPLIED_BUCKETS h l ONLINE lm1 = Inr lm2 \<Longrightarrow>
    manager_run E lm lm2"
| transactions: "manager_run E lm lm1 \<Longrightarrow> historyCaughtup False APPLIED_TRANSACTIONS h l ONLINE lm1 = Inr lm2 \<Longrightarrow>
    manager_run E lm lm2"
| failed: "manager_run E lm lm1 \<Longrightarrow> historyCaughtup True p h l m lm1 = Inr lm2 \<Longrightarrow> manager_run E lm lm2"
| finished: "manager_run E lm lm1 \<Longrightarrow> lcdLedgerSeq (hd (mSyncingLedgers lm1)) = lclSeq lm1 + 1 \<Longrightarrow>
    historyCaughtup False CATCHUP_FINISHED h l ONLINE lm1 = Inr lm2 \<Longrightarrow> manager_run E lm lm2"

lemma historyCaughtup_inv:
  assumes "managerInv lm" "historyCaughtup failed p h l m lm = Inr lm'"
    and "failed \<or> p = APPLIED_BUCKETS \<and> solvent l \<or> p = APPLIED_TRANSACTIONS \<or>
         p = CATCHUP_FINISHED \<and> m = ONLINE \<and> lcdLedgerSeq (hd (mSyncingLedgers lm)) = lclSeq lm + 1"
  shows "managerInv lm'"
proof -
  have c: "mCatchupState lm = APPLYING_HISTORY" using assms(2) by (auto simp: historyCaughtup_def assertE_Inr elim!: bindE_InrE)
  have seq: "lclSeq (x\<lparr>replayPosted := True\<rparr>) = lclSeq x" "lclSeq (x\<lparr>mSyncingLedgers := []\<rparr>) = lclSeq x" for x
    by (simp_all add: lclSeq_def)
  have i: "mSyncingLedgers lm \<noteq> []" "lmState lm = LM_CATCHING_UP_STATE" using assms(1) c by (auto simp: managerInv_def)
  show ?thesis
    using assms c i
    by (cases p) (auto simp: historyCaughtup_def applyBufferedLedgers_def managerInv_def seq assertE_def elim!: bindE_InrE split: if_splits)
qed

lemma run_managerInv: "manager_run E lm lm' \<Longrightarrow> managerInv lm \<Longrightarrow> managerInv lm'"
proof (induction rule: manager_run.induct)
  case (externalized lm lm1 lcd lm2)
  then show ?case using valueExternalized_ok [of lm1 E lcd] by (simp add: managerOutcome_def)
next
  case (replayed lm lm1 lm2)
  then show ?case using replay_ok [of lm1 E] by auto
next
  case (history lm lm1 lcd rs lm2)
  have s: "solvent (lmLedger lm1)" using history by (simp add: managerInv_def)
  show ?case
    using history closeLedger_frame [OF history(3) s] closeLedger_effect(1) [OF history(3) s] by (auto simp: managerInv_def)
qed (blast intro: historyCaughtup_inv)+

definition freshManager :: "LedgerManager \<Rightarrow> bool" where
  "freshManager lm \<longleftrightarrow> solvent (lmLedger lm) \<and> lmState lm \<noteq> LM_CATCHING_UP_STATE \<and> mCatchupState lm = CATCHUP_NONE \<and>
     mSyncingLedgers lm = [] \<and> \<not> replayPosted lm"

lemma fresh_inv: "freshManager lm \<Longrightarrow> managerInv lm"
  by (auto simp: freshManager_def managerInv_def)

subsection \<open>Properties\<close>


text \<open>C13. Closing a ledger takes fees, applies transactions and upgrades the ledger without creating or destroying lumens: the
  ledger stays solvent with the same total of coins, its number grows by one, its version does not fall, the previous hash
  was the one of the last closed ledger, and there is one result for each transaction of the set.\<close>

theorem closeLedger_solvent:
  assumes "closeLedger E lcd lm = Inr (results, lm')" "solvent (lmLedger lm)"
  shows "solvent (lmLedger lm') \<and> totalCoins (ltxHeader (lmLedger lm')) = totalCoins (ltxHeader (lmLedger lm)) \<and>
    lclSeq lm' = lclSeq lm + 1 \<and> ledgerVersion (ltxHeader (lmLedger lm)) \<le> ledgerVersion (ltxHeader (lmLedger lm')) \<and>
    mPreviousLedgerHash (lcdTxSet lcd) = lclHash lm \<and> length results = length (mTransactions (lcdTxSet lcd))"
proof -
  have "mPreviousLedgerHash (lcdTxSet lcd) = lclHash lm" using assms(1) by (cases rule: closeLedger_parts)
  then show ?thesis using closeLedger_effect [OF assms] by simp
qed



definition orphanAsset :: Asset where
  "orphanAsset = ASSET_TYPE_CREDIT_ALPHANUM4 [85, 83, 68, 0] 2"

definition orphanLedger :: LedgerTxn where
  "orphanLedger = \<lparr>ltxHeader = payHeader,
     ltxEntries =
       [(AccountKey 1, \<lparr>lastModifiedLedgerSeq = 1, entryData = ACCOUNT
           \<lparr>accountID = 1, accBalance = 1000, seqNum = 8, numSubEntries = 2, inflationDest = None, accFlags = 0, homeDomain = [],
            thresholds = [1, 0, 0, 0], signers = [], accExt = Some \<lparr>buyingLiab = 0, sellingLiab = 500\<rparr>\<rparr>\<rparr>),
        (TrustLineKey 1 orphanAsset, \<lparr>lastModifiedLedgerSeq = 1, entryData = TRUSTLINE
           \<lparr>tlAccountID = 1, tlAsset = orphanAsset, tlBalance = 0, tlLimit = 10000, tlFlags = 1,
            tlExt = Some \<lparr>buyingLiab = 500, sellingLiab = 0\<rparr>\<rparr>\<rparr>),
        (OfferKey 1 7, \<lparr>lastModifiedLedgerSeq = 1, entryData = OFFER
           \<lparr>sellerID = 1, offerID = 7, selling = ASSET_TYPE_NATIVE, buying = orphanAsset, amount = 500,
            price = \<lparr>priceN = 1, priceD = 1\<rparr>, offerFlags = 0\<rparr>\<rparr>)]\<rparr>"


subsection \<open>Witnesses\<close>

definition exampleEnv :: CloseEnv where
  "exampleEnv = \<lparr>closeHashes = exampleHashes, closeCrypto = exampleCrypto, closeInvariants = noCheck,
     decodeUpgrade = (\<lambda>u. case u of [x] \<Rightarrow> Some (LEDGER_UPGRADE_BASE_FEE (ucast x)) | _ \<Rightarrow> None),
     headerHash = (\<lambda>p v r l. p + 1), LEDGER_PROTOCOL_VERSION = 11, checkpointFrequency = 64\<rparr>"

definition managerAt :: "256 word \<Rightarrow> LedgerTxn \<Rightarrow> LedgerManager" where
  "managerAt h l = \<lparr>lclHash = h, lmLedger = l, lmState = LM_SYNCED_STATE, mCatchupState = CATCHUP_NONE,
     mCatchupTriggerLedger = 0, mSyncingLedgers = [], catchupRequests = [], replayPosted = False\<rparr>"

definition exampleClose :: LedgerCloseData where
  "exampleClose = \<lparr>lcdLedgerSeq = 6, lcdTxSet = frameOf [payEnvelope],
     lcdValue = \<lparr>svTxSetHash = 4, svCloseTime = 9, svUpgrades = [[200]]\<rparr>\<rparr>"

definition closedLedger :: LedgerTxn where
  "closedLedger = (payLedger 59400 40500 9)
     \<lparr>ltxHeader := payHeader\<lparr>closeTime := 9, ledgerSeq := 6, feePool := 100, baseFee := 200\<rparr>\<rparr>"

lemma example_closes:
  "closeLedger exampleEnv exampleClose (managerAt 3 (payLedger 60000 40000 8)) =
     Inr ([(txSUCCESS, [opINNER (paymentResult PAYMENT_SUCCESS)])], managerAt 4 closedLedger)"
  by code_simp

lemma example_externalizes:
  "valueExternalized exampleEnv exampleClose (managerAt 3 (payLedger 60000 40000 8)) = Inr (managerAt 4 closedLedger)"
  by code_simp

theorem closeLedger_solvent_witness:
  "solvent closedLedger \<and> lclSeq (managerAt 4 closedLedger) = lclSeq (managerAt 3 (payLedger 60000 40000 8)) + 1"
  using closeLedger_solvent [OF example_closes] pay_solvent by (simp add: managerAt_def)



end
