(* ===== verification/Bit_Sets.thy ===== *)
theory Bit_Sets
  imports VII_Prelude
begin

text \<open>
  Bit sets, \<open>src/src/util/BitSet.h\<close> over \<open>src/lib/util/cbitset.c\<close>: an array of 64-bit words. The length of the list is
  \<open>arraysize\<close>; the capacity of the allocation and the cached count, which is dropped with every change, have no
  part in the results. The lemmas say what the operations do to the set \<open>bits\<close> of the positions that are set.
  Comparisons look at the common prefix of the arrays only, so they are set comparisons only for arrays without
  zero words at the end.
\<close>

unbundle bit_operations_syntax

type_synonym BitSet = "uint64 list"

subsection \<open>Operations\<close>

definition bitset_create :: BitSet where "bitset_create = []"

definition bitset_create_with_capacity :: "nat \<Rightarrow> BitSet" where
  "bitset_create_with_capacity n = replicate ((n + 63) div 64) 0"

definition bitset_clear :: "BitSet \<Rightarrow> BitSet" where
  "bitset_clear b = replicate (length b) 0"

definition bitset_grow :: "BitSet \<Rightarrow> nat \<Rightarrow> BitSet" where
  "bitset_grow b newarraysize = b @ replicate (newarraysize - length b) 0"

definition bitset_set :: "BitSet \<Rightarrow> nat \<Rightarrow> BitSet" where
  "bitset_set b i =
     (let shiftedi = i div 64;
          b1 = (if length b \<le> shiftedi then bitset_grow b (shiftedi + 1) else b)
      in b1[shiftedi := b1 ! shiftedi OR push_bit (i mod 64) 1])"

definition bitset_unset :: "BitSet \<Rightarrow> nat \<Rightarrow> BitSet" where
  "bitset_unset b i =
     (let shiftedi = i div 64
      in if length b \<le> shiftedi then b else b[shiftedi := b ! shiftedi AND NOT (push_bit (i mod 64) 1)])"

definition bitset_get :: "BitSet \<Rightarrow> nat \<Rightarrow> bool" where
  "bitset_get b i =
     (let shiftedi = i div 64
      in if length b \<le> shiftedi then False else b ! shiftedi AND push_bit (i mod 64) 1 \<noteq> 0)"

text \<open>\<open>__builtin_popcountll\<close>, \<open>__builtin_ctzll\<close> and \<open>63 - __builtin_clzll\<close> for a word that is not zero.\<close>

definition popcountll :: "uint64 \<Rightarrow> nat" where
  "popcountll w = length (filter (bit w) [0..<64])"

definition ctzll :: "uint64 \<Rightarrow> nat" where
  "ctzll w = length (takeWhile (\<lambda>i. \<not> bit w i) [0..<64])"

definition highBit :: "uint64 \<Rightarrow> nat" where
  "highBit w = 63 - length (takeWhile (\<lambda>i. \<not> bit w i) (rev [0..<64]))"

definition bitset_count :: "BitSet \<Rightarrow> nat" where
  "bitset_count b = sum_list (map popcountll b)"

fun maximumFrom :: "uint64 list \<Rightarrow> nat" where
  "maximumFrom [] = 0"
| "maximumFrom (w # ws) = (if w \<noteq> 0 then highBit w + length ws * 64 else maximumFrom ws)"

definition bitset_maximum :: "BitSet \<Rightarrow> nat" where
  "bitset_maximum b = maximumFrom (rev b)"

definition inplaceUnion :: "BitSet \<Rightarrow> BitSet \<Rightarrow> BitSet" where
  "inplaceUnion b1 b2 = map2 (OR) b1 b2 @ drop (length b2) b1 @ drop (length b1) b2"

definition inplaceIntersection :: "BitSet \<Rightarrow> BitSet \<Rightarrow> BitSet" where
  "inplaceIntersection b1 b2 = map2 (AND) b1 b2 @ replicate (length b1 - length b2) 0"

definition inplaceDifference :: "BitSet \<Rightarrow> BitSet \<Rightarrow> BitSet" where
  "inplaceDifference b1 b2 = map2 (\<lambda>x y. x AND NOT y) b1 b2 @ drop (length b2) b1"

definition intersectionCount :: "BitSet \<Rightarrow> BitSet \<Rightarrow> nat" where
  "intersectionCount b1 b2 = sum_list (map2 (\<lambda>x y. popcountll (x AND y)) b1 b2)"

definition bitset_equal :: "BitSet \<Rightarrow> BitSet \<Rightarrow> bool" where
  "bitset_equal b1 b2 = list_all (\<lambda>(x, y). x = y) (zip b1 b2)"

definition bitset_subseteq :: "BitSet \<Rightarrow> BitSet \<Rightarrow> bool" where
  "bitset_subseteq b1 b2 = list_all (\<lambda>(x, y). x AND y = x) (zip b1 b2)"

fun nextWord :: "uint64 list \<Rightarrow> nat \<Rightarrow> nat option" where
  "nextWord [] x = None"
| "nextWord (w # ws) x = (if w \<noteq> 0 then Some (x * 64 + ctzll w) else nextWord ws (x + 1))"

definition nextSet :: "BitSet \<Rightarrow> nat \<Rightarrow> nat option" where
  "nextSet b i =
     (let x = i div 64
      in if length b \<le> x then None
         else (let w = drop_bit (i mod 64) (b ! x)
               in if w \<noteq> 0 then Some (i + ctzll w) else nextWord (drop (x + 1) b) (x + 1)))"

definition bitset_empty :: "BitSet \<Rightarrow> bool" where
  "bitset_empty b = (nextSet b 0 = None)"

subsection \<open>The set of a bit set\<close>

definition bits :: "BitSet \<Rightarrow> nat set" where
  "bits b = {i. i div 64 < length b \<and> bit (b ! (i div 64)) (i mod 64)}"

lemma bit_words: "i \<in> bits b \<longleftrightarrow> i div 64 < length b \<and> bit (b ! (i div 64)) (i mod 64)"
  by (simp add: bits_def)

lemma bits_bound: "i \<in> bits b \<Longrightarrow> i < 64 * length b"
  by (simp add: bits_def div_less_iff_less_mult mult.commute)

lemma finite_bits [simp]: "finite (bits b)"
  by (rule finite_subset [of _ "{..< 64 * length b}"]) (auto dest: bits_bound)

lemma bits_Nil [simp]: "bits [] = {}" by (simp add: bits_def)

lemma bits_zeros [simp]: "bits (replicate n 0) = {}" by (auto simp: bits_def)

lemma bits_append: "bits (b @ c) = bits b \<union> (\<lambda>i. i + 64 * length b) ` bits c"
proof (intro set_eqI iffI)
  fix i assume i: "i \<in> bits (b @ c)"
  show "i \<in> bits b \<union> (\<lambda>i. i + 64 * length b) ` bits c"
  proof (cases "i div 64 < length b")
    case True
    then show ?thesis using i by (simp add: bits_def nth_append)
  next
    case False
    then have "64 * length b \<le> i" by (metis not_less div_less_iff_less_mult mult.commute zero_less_numeral)
    then obtain j where j: "i = j + 64 * length b" by (metis le_add_diff_inverse2)
    with i False have "j \<in> bits c" by (auto simp: bits_def nth_append)
    then show ?thesis using j by blast
  qed
next
  fix i assume "i \<in> bits b \<union> (\<lambda>i. i + 64 * length b) ` bits c"
  then show "i \<in> bits (b @ c)" by (auto simp: bits_def nth_append)
qed

lemma bits_grow [simp]: "bits (bitset_grow b n) = bits b"
  by (simp add: bitset_grow_def bits_append)

lemma bits_create [simp]: "bits bitset_create = {}" "bits (bitset_create_with_capacity n) = {}" "bits (bitset_clear b) = {}"
  by (simp_all add: bitset_create_def bitset_create_with_capacity_def bitset_clear_def)

lemma mod_div_eq: "i div 64 = j div 64 \<and> i mod 64 = j mod 64 \<longleftrightarrow> i = j" for i j :: nat
  by (metis div_mult_mod_eq)

lemma bit_word_of: "bit ((2 :: uint64) ^ n) m \<longleftrightarrow> m = n \<and> n < 64"
  by (auto simp: bit_exp_iff)

lemma bits_set [simp]: "bits (bitset_set b i) = insert i (bits b)"
proof -
  have "bits (b[i div 64 := b ! (i div 64) OR push_bit (i mod 64) 1]) = insert i (bits b)" if "i div 64 < length b" for b :: BitSet
  proof (rule set_eqI)
    fix j
    show "j \<in> bits (b[i div 64 := b ! (i div 64) OR push_bit (i mod 64) 1]) \<longleftrightarrow> j \<in> insert i (bits b)"
      using that mod_div_eq [of j i] by (auto simp: bits_def nth_list_update bit_or_iff bit_word_of)
  qed
  from this [of b] this [of "bitset_grow b (i div 64 + 1)"] show ?thesis
    by (simp add: bitset_set_def Let_def) (simp add: bitset_grow_def)
qed

lemma bits_unset [simp]: "bits (bitset_unset b i) = bits b - {i}"
proof (cases "i div 64 < length b")
  case True
  show ?thesis
  proof (rule set_eqI)
    fix j
    show "j \<in> bits (bitset_unset b i) \<longleftrightarrow> j \<in> bits b - {i}"
      using True mod_div_eq [of j i]
      by (auto simp: bitset_unset_def Let_def bits_def nth_list_update bit_and_iff bit_not_iff bit_word_of)
  qed
qed (auto simp: bitset_unset_def Let_def bits_def)

lemma and_bit: "w AND push_bit n 1 \<noteq> 0 \<longleftrightarrow> bit w n" for w :: uint64
  by (simp add: bit_iff_and_push_bit_not_eq_0)

lemma bitset_get [simp]: "bitset_get b i \<longleftrightarrow> i \<in> bits b"
  unfolding bitset_get_def Let_def and_bit bit_words by auto

lemma bits_Cons: "bits (w # b) = {i. bit w i} \<union> (\<lambda>i. i + 64) ` bits b"
proof -
  have "i < 64" if "bit w i" for i using bit_imp_le_length [OF that] by simp
  then have "bits [w] = {i. bit w i}" by (auto simp: bits_def)
  then show ?thesis using bits_append [of "[w]" b] by simp
qed

lemma union_simps [simp]:
  "inplaceUnion [] c = c" "inplaceUnion b [] = b" "inplaceUnion (x # b) (y # c) = (x OR y) # inplaceUnion b c"
  by (simp_all add: inplaceUnion_def)

lemma bits_union [simp]: "bits (inplaceUnion b c) = bits b \<union> bits c"
  by (induction b c rule: list_induct2') (auto simp: bits_Cons bit_or_iff)

lemma intersection_simps [simp]:
  "inplaceIntersection [] c = []" "inplaceIntersection b [] = replicate (length b) 0"
  "inplaceIntersection (x # b) (y # c) = (x AND y) # inplaceIntersection b c"
  by (simp_all add: inplaceIntersection_def)

lemma word_bits_low: "bit w i \<Longrightarrow> i < 64" for w :: uint64
  using bit_imp_le_length [of w i] by simp

lemma bits_intersection [simp]: "bits (inplaceIntersection b c) = bits b \<inter> bits c"
  by (induction b c rule: list_induct2') (auto simp: bits_Cons bit_and_iff simp del: replicate.simps dest: word_bits_low)

lemma difference_simps [simp]:
  "inplaceDifference [] c = []" "inplaceDifference b [] = b"
  "inplaceDifference (x # b) (y # c) = (x AND NOT y) # inplaceDifference b c"
  by (simp_all add: inplaceDifference_def)

lemma bits_difference [simp]: "bits (inplaceDifference b c) = bits b - bits c"
proof (induction b c rule: list_induct2')
  case (4 x b y c)
  have w: "{i. bit (x AND NOT y) i} = {i. bit x i} - {i. bit y i}" by (auto simp: bit_and_iff bit_not_iff dest: word_bits_low)
  have d: "{i. bit x i} \<inter> (\<lambda>i. i + 64) ` bits c = {}" "{i. bit y i} \<inter> (\<lambda>i. i + 64) ` bits b = {}" by (auto dest: word_bits_low)
  have "(\<lambda>i. i + 64) ` (bits b - bits c) = (\<lambda>i. i + 64) ` bits b - (\<lambda>i. i + 64) ` bits c" by (rule image_set_diff) simp
  then show ?case unfolding difference_simps bits_Cons w 4 using d by blast
qed simp_all

subsection \<open>Counting\<close>

lemma length_filter_upt: "length (filter P [0..<n]) = card {i. i < n \<and> P i}"
  unfolding length_filter_conv_card by (rule arg_cong [of _ _ card]) auto

lemma popcount_card: "popcountll w = card {i. bit w i}"
  unfolding popcountll_def length_filter_upt by (rule arg_cong [of _ _ card]) (auto dest: word_bits_low)

lemma finite_word_bits [simp]: "finite {i. bit w i}" for w :: uint64
  by (rule finite_subset [of _ "{..<64}"]) (auto dest: word_bits_low)

lemma count_card: "bitset_count b = card (bits b)"
proof (induction b)
  case (Cons w b)
  have "card (bits (w # b)) = card {i. bit w i} + card ((\<lambda>i. i + 64) ` bits b)"
    unfolding bits_Cons by (rule card_Un_disjoint) (auto dest: bit_imp_le_length)
  also have "card ((\<lambda>i. i + 64) ` bits b) = card (bits b)" by (rule card_image) simp
  finally show ?case using Cons by (simp add: bitset_count_def popcount_card)
qed (simp add: bitset_count_def)

lemma intersectionCount_card: "intersectionCount b c = card (bits b \<inter> bits c)"
proof -
  have "intersectionCount b c = bitset_count (map2 (AND) b c)"
    by (simp add: intersectionCount_def bitset_count_def comp_def case_prod_unfold)
  also have "\<dots> = bitset_count (inplaceIntersection b c)"
    by (simp add: bitset_count_def inplaceIntersection_def map_replicate_const popcountll_def sum_list_replicate)
  finally show ?thesis by (simp add: count_card)
qed

subsection \<open>Iteration\<close>

lemma ctz_least:
  assumes "bit w i"
  shows "bit w (ctzll w)" "ctzll w \<le> i" "j < ctzll w \<Longrightarrow> \<not> bit w j"
proof -
  let ?P = "\<lambda>i. \<not> bit w i"
  have "\<exists>k \<le> 64. ctzll w = k \<and> (k < 64 \<longrightarrow> bit w k) \<and> (\<forall>j < k. \<not> bit w j)"
  proof (intro exI conjI)
    show "ctzll w \<le> 64" using length_takeWhile_le [of ?P "[0..<64]"] by (simp add: ctzll_def)
    show "ctzll w < 64 \<longrightarrow> bit w (ctzll w)" using nth_length_takeWhile [of ?P "[0..<64]"] by (simp add: ctzll_def)
    show "\<forall>j < ctzll w. \<not> bit w j"
    proof (intro allI impI)
      fix j assume j: "j < ctzll w"
      then have "takeWhile ?P [0..<64] ! j = j"
        using length_takeWhile_le [of ?P "[0..<64]"] by (simp add: ctzll_def takeWhile_nth del: upt_rec_numeral)
      then show "\<not> bit w j" using j nth_mem [of j "takeWhile ?P [0..<64]"] set_takeWhileD [of j ?P "[0..<64]"]
        by (simp add: ctzll_def del: upt_rec_numeral)
    qed
  qed simp
  then show "bit w (ctzll w)" "ctzll w \<le> i" "j < ctzll w \<Longrightarrow> \<not> bit w j"
    using assms word_bits_low [OF assms] by (meson not_le le_less_trans)+
qed

lemma word_some_bit: "w \<noteq> 0 \<Longrightarrow> \<exists>i. bit w i" for w :: uint64
  by (auto simp: bit_eq_iff)

lemma nextWord_Some:
  "nextWord ws x = Some j \<Longrightarrow> \<exists>k \<in> bits ws. j = 64 * x + k \<and> (\<forall>i \<in> bits ws. k \<le> i)"
proof (induction ws x rule: nextWord.induct)
  case (2 w ws x)
  show ?case
  proof (cases "w = 0")
    case False
    then obtain i where "bit w i" using word_some_bit by blast
    note c = ctz_least [OF this] word_bits_low [OF ctz_least(1) [OF this]]
    have "ctzll w \<le> i" if "i \<in> bits (w # ws)" for i using that ctz_least(2) [of w] c(4) by (fastforce simp: bits_Cons)
    then show ?thesis using False 2(2) c(1) by (intro bexI [of _ "ctzll w"]) (auto simp: bits_Cons)
  next
    case True
    then obtain k where "k \<in> bits ws" "j = 64 * (x + 1) + k" "\<forall>i \<in> bits ws. k \<le> i" using 2 by auto
    then show ?thesis using True by (intro bexI [of _ "k + 64"]) (auto simp: bits_Cons)
  qed
qed simp

lemma nextWord_None: "nextWord ws x = None \<longleftrightarrow> bits ws = {}"
proof (induction ws x rule: nextWord.induct)
  case (2 w ws x)
  show ?case
  proof (cases "w = 0")
    case True
    then show ?thesis using 2 by (simp add: bits_Cons)
  next
    case False
    then show ?thesis using word_some_bit [of w] by (auto simp: bits_Cons)
  qed
qed simp

text \<open>\<open>nextSet\<close> finds the least position that is set and not below the given one.\<close>

lemma bits_from_word:
  assumes "x < length b" "i div 64 = x"
  shows "{j \<in> bits b. i \<le> j} = (\<lambda>k. k + i) ` {k. bit (drop_bit (i mod 64) (b ! x)) k} \<union> (\<lambda>k. 64 * (x + 1) + k) ` bits (drop (x + 1) b)"
proof -
  have b: "b = take x b @ b ! x # drop (x + 1) b" using assms(1) by (simp add: id_take_nth_drop)
  have "bits b = bits (take x b) \<union> (\<lambda>k. k + 64 * x) ` ({k. bit (b ! x) k} \<union> (\<lambda>k. k + 64) ` bits (drop (x + 1) b))"
    using bits_append [of "take x b" "b ! x # drop (x + 1) b"] assms(1) b by (simp add: bits_Cons)
  moreover have i: "i = 64 * x + i mod 64" using assms(2) by (metis mult_div_mod_eq)
  moreover have "\<not> i \<le> j" if "j \<in> bits (take x b)" for j using bits_bound [OF that] assms(1) i by simp
  ultimately have e: "{j \<in> bits b. i \<le> j} =
      (\<lambda>k. k + 64 * x) ` {k. bit (b ! x) k \<and> i mod 64 \<le> k} \<union> (\<lambda>k. 64 * (x + 1) + k) ` bits (drop (x + 1) b)"
    by (intro set_eqI) (auto simp: image_iff)
  have "(\<lambda>k. k + 64 * x) ` {k. bit (b ! x) k \<and> i mod 64 \<le> k} = (\<lambda>k. k + i) ` {k. bit (drop_bit (i mod 64) (b ! x)) k}"
  proof (intro set_eqI iffI)
    fix j assume "j \<in> (\<lambda>k. k + 64 * x) ` {k. bit (b ! x) k \<and> i mod 64 \<le> k}"
    then obtain k where k: "bit (b ! x) k" "i mod 64 \<le> k" "j = k + 64 * x" by auto
    then show "j \<in> (\<lambda>k. k + i) ` {k. bit (drop_bit (i mod 64) (b ! x)) k}"
      using i by (intro image_eqI [of _ _ "k - i mod 64"]) (simp_all add: bit_drop_bit_eq)
  next
    fix j assume "j \<in> (\<lambda>k. k + i) ` {k. bit (drop_bit (i mod 64) (b ! x)) k}"
    then obtain k where "bit (b ! x) (i mod 64 + k)" "j = k + i" by (auto simp: bit_drop_bit_eq)
    then show "j \<in> (\<lambda>k. k + 64 * x) ` {k. bit (b ! x) k \<and> i mod 64 \<le> k}"
      using i by (intro image_eqI [of _ _ "i mod 64 + k"]) simp_all
  qed
  then show ?thesis using e by simp
qed

lemma word_end: "r + c < 64 \<Longrightarrow> 64 * q + r + c \<le> 64 * (q + 1)" for q r c :: nat
  by simp

lemma nextSet_Some:
  assumes "nextSet b i = Some j"
  shows "j \<in> bits b" "i \<le> j" "k \<in> bits b \<Longrightarrow> i \<le> k \<Longrightarrow> j \<le> k"
proof -
  let ?x = "i div 64" and ?S = "{j \<in> bits b. i \<le> j}"
  have x: "?x < length b" using assms by (simp add: nextSet_def Let_def split: if_splits)
  let ?w = "drop_bit (i mod 64) (b ! ?x)"
  note S = bits_from_word [OF x refl]
  have "j \<in> ?S \<and> (\<forall>k \<in> ?S. j \<le> k)"
  proof (cases "?w = 0")
    case True
    then have "nextWord (drop (?x + 1) b) (?x + 1) = Some j" using assms x by (simp add: nextSet_def Let_def)
    from nextWord_Some [OF this] show ?thesis unfolding S using True by auto
  next
    case False
    then have j: "j = i + ctzll ?w" using assms x by (simp add: nextSet_def Let_def)
    obtain m where "bit ?w m" using False word_some_bit by blast
    note c = ctz_least [OF this]
    have "i + ctzll ?w \<le> 64 * (?x + 1)"
    proof -
      have "i mod 64 + ctzll ?w < 64" using word_bits_low [of "b ! ?x" "i mod 64 + ctzll ?w"] c(1) by (simp add: bit_drop_bit_eq)
      from word_end [OF this, of "i div 64"] show ?thesis by (simp only: mult_div_mod_eq)
    qed
    then show ?thesis unfolding S using c(1) ctz_least(2) [of ?w] j by fastforce
  qed
  then show "j \<in> bits b" "i \<le> j" "k \<in> bits b \<Longrightarrow> i \<le> k \<Longrightarrow> j \<le> k" by auto
qed

lemma nextSet_None: "nextSet b i = None \<longleftrightarrow> (\<forall>j \<in> bits b. j < i)"
proof (cases "i div 64 < length b")
  case True
  have "nextSet b i = None \<longleftrightarrow> drop_bit (i mod 64) (b ! (i div 64)) = 0 \<and> bits (drop (i div 64 + 1) b) = {}"
    using True by (simp add: nextSet_def Let_def nextWord_None)
  also have "\<dots> \<longleftrightarrow> {j \<in> bits b. i \<le> j} = {}"
    unfolding bits_from_word [OF True refl] using word_some_bit by auto
  finally show ?thesis by (auto simp: not_le)
next
  case False
  then have "64 * length b \<le> i" by (metis not_less div_less_iff_less_mult mult.commute zero_less_numeral)
  then show ?thesis using False by (auto simp: nextSet_def Let_def dest: bits_bound)
qed

text \<open>The loops \<open>for (i = 0; b.nextSet(i); ++i)\<close> run over the positions in increasing order.\<close>

function setBitsFrom :: "BitSet \<Rightarrow> nat \<Rightarrow> nat list" where
  "setBitsFrom b i = (case nextSet b i of None \<Rightarrow> [] | Some j \<Rightarrow> j # setBitsFrom b (j + 1))"
  by pat_completeness auto
termination
proof (relation "measure (\<lambda>(b, i). 64 * length b - i)")
  show "((b, j + 1), (b, i)) \<in> measure (\<lambda>(b, i). 64 * length b - i)" if "nextSet b i = Some j" for b i j
    using nextSet_Some(1,2) [OF that] bits_bound [of j b] by auto
qed simp

declare setBitsFrom.simps [simp del]

definition setBits :: "BitSet \<Rightarrow> nat list" where
  "setBits b = setBitsFrom b 0"

lemma setBitsFrom_set: "set (setBitsFrom b i) = {j \<in> bits b. i \<le> j}"
proof (induction b i rule: setBitsFrom.induct)
  case (1 b i)
  show ?case
  proof (cases "nextSet b i")
    case None
    then show ?thesis using nextSet_None [of b i] by (auto simp: setBitsFrom.simps [of b i])
  next
    case (Some j)
    have "i \<le> x \<longleftrightarrow> x = j \<or> j + 1 \<le> x" if "x \<in> bits b" for x
      using nextSet_Some(2) [OF Some] nextSet_Some(3) [OF Some that] by linarith
    then show ?thesis using 1 [OF Some] nextSet_Some(1) [OF Some] Some by (auto simp: setBitsFrom.simps [of b i])
  qed
qed

lemma setBitsFrom_sorted: "sorted_wrt (<) (setBitsFrom b i)"
proof (induction b i rule: setBitsFrom.induct)
  case (1 b i)
  then show ?case by (simp add: setBitsFrom.simps [of b i] setBitsFrom_set split: option.splits)
qed

lemma set_setBits [simp]: "set (setBits b) = bits b"
  by (simp add: setBits_def setBitsFrom_set)

lemma sorted_setBits: "sorted_wrt (<) (setBits b)"
  by (simp add: setBits_def setBitsFrom_sorted)

lemma distinct_setBits [simp]: "distinct (setBits b)"
  using sorted_setBits by (simp add: strict_sorted_iff)

lemma bitset_empty [simp]: "bitset_empty b \<longleftrightarrow> bits b = {}"
  by (auto simp: bitset_empty_def nextSet_None)

subsection \<open>Comparisons and the greatest position\<close>

lemma highBit_bit:
  assumes "w \<noteq> 0"
  shows "bit w (highBit w)"
proof -
  let ?P = "\<lambda>i. \<not> bit w i" and ?xs = "rev [0..<64]"
  obtain i where i: "bit w i" "i < 64" using word_some_bit [OF assms] word_bits_low by blast
  then have "length (takeWhile ?P ?xs) < length ?xs"
    by (metis (no_types, lifting) atLeastLessThan_iff length_takeWhile_le less_le set_rev set_takeWhileD set_upt takeWhile_eq_all_conv takeWhile_eq_take take_all_iff le_less zero_le)
  from nth_length_takeWhile [OF this] show ?thesis
    using \<open>length (takeWhile ?P ?xs) < length ?xs\<close> by (simp add: highBit_def rev_nth del: upt_rec_numeral)
qed

lemma maximumFrom_mem: "bits (rev ws) \<noteq> {} \<Longrightarrow> maximumFrom ws \<in> bits (rev ws)"
proof (induction ws)
  case (Cons w ws)
  show ?case
  proof (cases "w = 0")
    case True
    then show ?thesis using Cons bits_append [of "rev ws" "[0]"] bits_zeros [of 1] by simp
  next
    case False
    then show ?thesis using highBit_bit [OF False] by (simp add: bits_append bits_Cons mult.commute)
  qed
qed simp

lemma maximum_mem: "bits b \<noteq> {} \<Longrightarrow> bitset_maximum b \<in> bits b"
  using maximumFrom_mem [of "rev b"] by (simp add: bitset_maximum_def)

lemma zip_words:
  assumes "x < length b" "x < length c" "i < 64"
  shows "bit (b ! x) i \<longleftrightarrow> 64 * x + i \<in> bits b" "bit (c ! x) i \<longleftrightarrow> 64 * x + i \<in> bits c"
  using assms by (simp_all add: bits_def)

lemma subseteq_complete: "bits b \<subseteq> bits c \<Longrightarrow> bitset_subseteq b c"
proof -
  assume s: "bits b \<subseteq> bits c"
  have "b ! x AND c ! x = b ! x" if "x < length b" "x < length c" for x
    using zip_words [OF that] s word_bits_low by (intro bit_eqI) (auto simp: bit_and_iff)
  then show ?thesis by (simp add: bitset_subseteq_def list_all_length)
qed

lemma equal_refl [simp]: "bitset_equal b b"
  by (simp add: bitset_equal_def list_all_length)

lemma equal_complete: "bits b = bits c \<Longrightarrow> bitset_equal b c"
proof -
  assume s: "bits b = bits c"
  have "b ! x = c ! x" if "x < length b" "x < length c" for x
    using zip_words [OF that] s word_bits_low by (intro bit_eqI) (auto; metis)
  then show ?thesis by (simp add: bitset_equal_def list_all_length)
qed

text \<open>An array is trimmed when its last word is not zero; setting positions keeps it so. Disjoint trimmed sets compare as
  different.\<close>

definition trimmed :: "BitSet \<Rightarrow> bool" where
  "trimmed b \<longleftrightarrow> b = [] \<or> last b \<noteq> 0"

lemma trimmed_set: "trimmed b \<Longrightarrow> trimmed (bitset_set b i)"
proof -
  assume t: "trimmed b"
  have nz: "w OR push_bit (i mod 64) 1 \<noteq> (0 :: uint64)" for w
  proof
    assume "w OR push_bit (i mod 64) 1 = (0 :: uint64)"
    then have "\<not> bit (w OR push_bit (i mod 64) 1) (i mod 64)" by simp
    then show False by (simp add: bit_or_iff bit_word_of)
  qed
  show ?thesis
  proof (cases "i div 64 < length b")
    case True
    then show ?thesis using t nz [of "b ! (i div 64)"]
      by (auto simp: trimmed_def bitset_set_def Let_def last_conv_nth nth_list_update split: if_splits)
  next
    case False
    then show ?thesis using nz
      by (auto simp: trimmed_def bitset_set_def bitset_grow_def Let_def last_conv_nth nth_list_update split: if_splits)
  qed
qed

lemma trimmed_disjoint:
  assumes "trimmed b" "trimmed c" "b \<noteq> []" "c \<noteq> []" "bits b \<inter> bits c = {}"
  shows "\<not> bitset_equal b c"
proof -
  define x where "x = min (length b) (length c) - 1"
  have x: "x < length b" "x < length c" using assms(3,4) by (cases b; cases c; simp add: x_def)+
  have nz: "b ! x \<noteq> 0 \<or> c ! x \<noteq> 0"
    using assms(1-4) by (auto simp: x_def trimmed_def last_conv_nth min_def)
  have "b ! x \<noteq> c ! x"
  proof
    assume e: "b ! x = c ! x"
    then obtain i where "bit (b ! x) i" "bit (c ! x) i" using nz word_some_bit by metis
    then show False using zip_words [OF x word_bits_low] assms(5) by blast
  qed
  then show ?thesis using x by (auto simp: bitset_equal_def list_all_length)
qed

text \<open>Words beyond the end of the shorter array are not compared.\<close>

lemma comparisons_ignore_tail:
  "bitset_equal [1] [1, 1]" "bits [1] \<noteq> bits [1, 1]"
  "bitset_subseteq [0, 1] [0]" "\<not> bits [0, 1] \<subseteq> bits [0]"
proof -
  have "64 \<in> bits [1, 1]" "64 \<notin> bits [1]" "64 \<in> bits [0, 1]" "64 \<notin> bits [0]" by (simp_all add: bits_def)
  then show "bits [1] \<noteq> bits [1, 1]" "\<not> bits [0, 1] \<subseteq> bits [0]" by blast+
qed (simp_all add: bitset_equal_def bitset_subseteq_def)

end
