(* ===== verification/Quorum_Intersection.thy ===== *)
theory Quorum_Intersection
  imports Bit_Sets Quorum_Set_Utils
begin

text \<open>
  The check that a network enjoys quorum intersection, \<open>src/src/herder/QuorumIntersectionCheckerImpl.cpp\<close>: the graph of the
  quorum sets over bit sets, its components by Tarjan's algorithm and the search through minimal quorums of the greatest
  component. The random numbers that break ties between split nodes come from a function \<open>draw\<close> of the number of draws
  so far and the upper bound. The quorums found are kept as \<open>mPotentialSplit\<close>. Statistics and logging are left
  out. A throwing \<open>at\<close>, a failed assertion and a pop from an empty stack are errors; the recursion of \<open>scc\<close> has a fuel,
  which \<open>calculateSCCs\<close> chooses one above the number of nodes, the greatest depth.
\<close>

datatype qic_error = OutOfRange | AssertionFailed | EmptyStack | OutOfFuel

definition vectorAt :: "'a list \<Rightarrow> nat \<Rightarrow> qic_error + 'a" where
  "vectorAt xs i = (if i < length xs then Inr (xs ! i) else Inl OutOfRange)"

datatype QBitSet =
  QBitSet (qbThreshold: uint32) (qbNodes: BitSet) (qbInnerSets: "QBitSet list") (qbAllSuccessors: BitSet)

type_synonym QGraph = "QBitSet list"

definition getSuccessors :: "BitSet \<Rightarrow> QGraph \<Rightarrow> BitSet" where
  "getSuccessors nodes inner = foldl (\<lambda>out i. inplaceUnion out (qbAllSuccessors i)) nodes inner"

definition QBitSet_new :: "uint32 \<Rightarrow> BitSet \<Rightarrow> QGraph \<Rightarrow> QBitSet" where
  "QBitSet_new t nodes inner = QBitSet t nodes inner (getSuccessors nodes inner)"

subsection \<open>Tarjan's algorithm\<close>

record SCCNode =
  nodeIndex :: int
  nodeLowLink :: int
  nodeOnStack :: bool

text \<open>The end of the vector \<open>mStack\<close> is the head of the list.\<close>

record TarjanSCCCalculator =
  tscNodes :: "SCCNode list"
  tscStack :: "nat list"
  tscIndex :: int
  tscSCCs :: "BitSet list"

definition lowerLink :: "nat \<Rightarrow> int \<Rightarrow> TarjanSCCCalculator \<Rightarrow> TarjanSCCCalculator" where
  "lowerLink i m s =
     (let v = tscNodes s ! i in s\<lparr>tscNodes := (tscNodes s)[i := v\<lparr>nodeLowLink := min (nodeLowLink v) m\<rparr>]\<rparr>)"

fun popScc :: "nat \<Rightarrow> nat list \<Rightarrow> SCCNode list \<Rightarrow> BitSet \<Rightarrow> qic_error + nat list \<times> SCCNode list \<times> BitSet" where
  "popScc i [] ns newScc = Inl EmptyStack"
| "popScc i (j # st) ns newScc =
     bindE (vectorAt ns j) (\<lambda>w.
     (let newScc' = bitset_set newScc j; ns' = ns[j := w\<lparr>nodeOnStack := False\<rparr>]
      in if j = i then Inr (st, ns', newScc') else popScc i st ns' newScc'))"

definition enterNode :: "nat \<Rightarrow> TarjanSCCCalculator \<Rightarrow> TarjanSCCCalculator" where
  "enterNode i s =
     s\<lparr>tscNodes := (tscNodes s)[i := \<lparr>nodeIndex = tscIndex s, nodeLowLink = tscIndex s, nodeOnStack = True\<rparr>],
       tscStack := i # tscStack s, tscIndex := tscIndex s + 1\<rparr>"

definition finishNode :: "nat \<Rightarrow> TarjanSCCCalculator \<Rightarrow> qic_error + TarjanSCCCalculator" where
  "finishNode i s =
     (let v = tscNodes s ! i
      in if nodeLowLink v = nodeIndex v
         then
           bindE (popScc i (tscStack s) (tscNodes s) (bitset_set bitset_create i)) (\<lambda>(st, ns, newScc).
           Inr (s\<lparr>tscStack := st, tscNodes := ns, tscSCCs := tscSCCs s @ [newScc]\<rparr>))
         else Inr s)"

fun scc :: "nat \<Rightarrow> QGraph \<Rightarrow> nat \<Rightarrow> TarjanSCCCalculator \<Rightarrow> qic_error + TarjanSCCCalculator"
  and sccEdges :: "nat \<Rightarrow> QGraph \<Rightarrow> nat \<Rightarrow> nat list \<Rightarrow> TarjanSCCCalculator \<Rightarrow> qic_error + TarjanSCCCalculator" where
  "scc 0 G i s = Inl OutOfFuel"
| "scc (Suc k) G i s =
     bindE (vectorAt (tscNodes s) i) (\<lambda>v.
     bindE (vectorAt G i) (\<lambda>q.
     bindE (sccEdges k G i (setBits (qbAllSuccessors q)) (enterNode i s)) (\<lambda>s1. finishNode i s1)))"
| "sccEdges k G i [] s = Inr s"
| "sccEdges k G i (j # js) s =
     bindE (vectorAt (tscNodes s) j) (\<lambda>w.
     bindE (if nodeIndex w = - 1
            then bindE (scc k G j s) (\<lambda>s1. Inr (lowerLink i (nodeLowLink (tscNodes s1 ! j)) s1))
            else if nodeOnStack w then Inr (lowerLink i (nodeIndex w) s)
            else Inr s) (\<lambda>s2.
     sccEdges k G i js s2))"

fun sccRoots :: "QGraph \<Rightarrow> nat list \<Rightarrow> TarjanSCCCalculator \<Rightarrow> qic_error + TarjanSCCCalculator" where
  "sccRoots G [] s = Inr s"
| "sccRoots G (i # is) s =
     bindE (vectorAt (tscNodes s) i) (\<lambda>v.
     bindE (if nodeIndex v = - 1 then scc (length G + 1) G i s else Inr s) (\<lambda>s1. sccRoots G is s1))"

definition calculateSCCs :: "QGraph \<Rightarrow> qic_error + BitSet list" where
  "calculateSCCs G =
     bindE (sccRoots G [0..<length G]
       \<lparr>tscNodes = replicate (length G) \<lparr>nodeIndex = - 1, nodeLowLink = - 1, nodeOnStack = False\<rparr>,
        tscStack = [], tscIndex = 0, tscSCCs = []\<rparr>) (\<lambda>s. Inr (tscSCCs s))"

subsection \<open>The checker\<close>

record QuorumIntersectionChecker =
  mBitNumPubKeys :: "NodeID list"
  mGraph :: QGraph
  mSCCs :: "BitSet list"
  mMaxSCC :: BitSet

text \<open>What the search changes: the number of draws and the last pair of disjoint quorums.\<close>

record QicState =
  draws :: nat
  mPotentialSplit :: "NodeID list \<times> NodeID list"

fun convertSCPQuorumSet :: "(NodeID \<times> nat) list \<Rightarrow> SCPQuorumSet \<Rightarrow> QBitSet" where
  "convertSCPQuorumSet nums (SCPQuorumSet t vs is) =
     QBitSet_new t
       (fold (\<lambda>v b. case map_of nums v of None \<Rightarrow> b | Some i \<Rightarrow> bitset_set b i) vs
          (bitset_create_with_capacity (length nums)))
       (map (convertSCPQuorumSet nums) is)"

type_synonym QuorumMap = "(NodeID \<times> SCPQuorumSet option) list"

definition pubKeys :: "QuorumMap \<Rightarrow> NodeID list" where
  "pubKeys qmap = map fst (filter (\<lambda>(n, q). q \<noteq> None) qmap)"

fun buildNodes :: "(NodeID \<times> nat) list \<Rightarrow> QuorumMap \<Rightarrow> QGraph \<Rightarrow> qic_error + QGraph" where
  "buildNodes nums [] g = Inr g"
| "buildNodes nums ((n, None) # rest) g = buildNodes nums rest g"
| "buildNodes nums ((n, Some q) # rest) g =
     bindE (derefE AssertionFailed (map_of nums n)) (\<lambda>nodeNum.
     bindE (assertE AssertionFailed (nodeNum = length g)) (\<lambda>_.
     buildNodes nums rest (g @ [convertSCPQuorumSet nums q])))"

definition buildGraph :: "QuorumMap \<Rightarrow> qic_error + QGraph" where
  "buildGraph qmap = buildNodes (zip (pubKeys qmap) [0..<length (pubKeys qmap)]) qmap []"

definition maxSCC :: "BitSet list \<Rightarrow> BitSet" where
  "maxSCC sccs = foldl (\<lambda>m s. if bitset_count m < bitset_count s then s else m) bitset_create sccs"

definition QuorumIntersectionChecker_new :: "QuorumMap \<Rightarrow> qic_error + QuorumIntersectionChecker" where
  "QuorumIntersectionChecker_new qmap =
     bindE (buildGraph qmap) (\<lambda>g.
     bindE (calculateSCCs g) (\<lambda>sccs.
     Inr \<lparr>mBitNumPubKeys = pubKeys qmap, mGraph = g, mSCCs = sccs, mMaxSCC = maxSCC sccs\<rparr>))"

subsection \<open>Quorums\<close>

fun containsQuorumSlice :: "BitSet \<Rightarrow> QBitSet \<Rightarrow> bool"
  and innerSlices :: "BitSet \<Rightarrow> nat \<Rightarrow> nat \<Rightarrow> QBitSet list \<Rightarrow> bool" where
  "containsQuorumSlice bs (QBitSet t nodes inner succs) =
     (let intersecting = intersectionCount bs nodes
      in if unat t \<le> intersecting then True
         else
           (let innerThreshold = unat t - intersecting
            in if length inner < innerThreshold then False
               else if intersectionCount bs succs < unat t then False
               else innerSlices bs innerThreshold (length inner - innerThreshold + 1) inner))"
| "innerSlices bs innerThreshold innerFailLimit [] = False"
| "innerSlices bs innerThreshold innerFailLimit (q # qs) =
     (if containsQuorumSlice bs q
      then (if innerThreshold - 1 = 0 then True else innerSlices bs (innerThreshold - 1) innerFailLimit qs)
      else (if innerFailLimit - 1 = 0 then False else innerSlices bs innerThreshold (innerFailLimit - 1) qs))"

definition containsQuorumSliceForNode :: "QGraph \<Rightarrow> BitSet \<Rightarrow> nat \<Rightarrow> qic_error + bool" where
  "containsQuorumSliceForNode G bs node =
     (if \<not> bitset_get bs node then Inr False
      else bindE (vectorAt G node) (\<lambda>q. Inr (containsQuorumSlice bs q)))"

fun filterNodesWithSlice :: "QGraph \<Rightarrow> BitSet \<Rightarrow> nat list \<Rightarrow> BitSet \<Rightarrow> qic_error + BitSet" where
  "filterNodesWithSlice G nodes [] filtered = Inr filtered"
| "filterNodesWithSlice G nodes (i # is) filtered =
     bindE (containsQuorumSliceForNode G nodes i) (\<lambda>ok.
     filterNodesWithSlice G nodes is (if ok then bitset_set filtered i else filtered))"

lemma filterNodesWithSlice_bits:
  "filterNodesWithSlice G nodes is b = Inr b' \<Longrightarrow> bits b \<subseteq> bits b' \<and> bits b' \<subseteq> bits b \<union> set is"
proof (induction "is" arbitrary: b)
  case (Cons i "is")
  from Cons.prems obtain ok where "filterNodesWithSlice G nodes is (if ok then bitset_set b i else b) = Inr b'"
    by (auto simp: bindE_Inr)
  from Cons.IH [OF this] show ?case by (auto split: if_splits)
qed simp

function contractToMaximalQuorum :: "QGraph \<Rightarrow> BitSet \<Rightarrow> qic_error + BitSet" where
  "contractToMaximalQuorum G nodes =
     bindE (filterNodesWithSlice G nodes (setBits nodes) (bitset_create_with_capacity (bitset_count nodes))) (\<lambda>filtered.
     if bitset_count filtered = bitset_count nodes \<or> bitset_empty filtered then Inr filtered
     else contractToMaximalQuorum G filtered)"
  by pat_completeness auto
termination
proof (relation "measure (\<lambda>(G, b). bitset_count b)", goal_cases)
  case (2 G nodes filtered)
  then have "card (bits filtered) \<le> card (bits nodes)"
    using filterNodesWithSlice_bits [OF 2(1)] by (intro card_mono) auto
  then show ?case using 2(2) by (simp add: count_card)
qed simp

declare contractToMaximalQuorum.simps [simp del]

definition isAQuorum :: "QGraph \<Rightarrow> BitSet \<Rightarrow> qic_error + bool" where
  "isAQuorum G nodes = bindE (contractToMaximalQuorum G nodes) (\<lambda>q. Inr (\<not> bitset_empty q))"

fun minimalLoop :: "QGraph \<Rightarrow> nat list \<Rightarrow> BitSet \<Rightarrow> qic_error + bool" where
  "minimalLoop G [] minQ = Inr True"
| "minimalLoop G (i # is) minQ =
     (let minQ1 = bitset_unset minQ i
      in bindE (isAQuorum G minQ1) (\<lambda>q. if q then Inr False else minimalLoop G is (bitset_set minQ1 i)))"

definition isMinimalQuorum :: "QGraph \<Rightarrow> BitSet \<Rightarrow> qic_error + bool" where
  "isMinimalQuorum G nodes =
     bindE (contractToMaximalQuorum G nodes) (\<lambda>c.
     bindE (assertE AssertionFailed (bitset_equal c nodes)) (\<lambda>_.
     if bitset_empty nodes then Inr False else minimalLoop G (setBits nodes) nodes))"

fun lookupKeys :: "NodeID list \<Rightarrow> nat list \<Rightarrow> qic_error + NodeID list" where
  "lookupKeys keys [] = Inr []"
| "lookupKeys keys (i # is) = bindE (vectorAt keys i) (\<lambda>n. bindE (lookupKeys keys is) (\<lambda>ns. Inr (n # ns)))"

definition noteFoundDisjointQuorums ::
  "QuorumIntersectionChecker \<Rightarrow> BitSet \<Rightarrow> BitSet \<Rightarrow> QicState \<Rightarrow> qic_error + QicState" where
  "noteFoundDisjointQuorums Q nodes disjQ s =
     bindE (lookupKeys (mBitNumPubKeys Q) (setBits nodes)) (\<lambda>ns.
     bindE (lookupKeys (mBitNumPubKeys Q) (setBits disjQ)) (\<lambda>ds. Inr (s\<lparr>mPotentialSplit := (ns, ds)\<rparr>)))"

definition hasDisjointQuorum :: "QuorumIntersectionChecker \<Rightarrow> BitSet \<Rightarrow> QicState \<Rightarrow> qic_error + bool \<times> QicState" where
  "hasDisjointQuorum Q nodes s =
     bindE (contractToMaximalQuorum (mGraph Q) (inplaceDifference (mMaxSCC Q) nodes)) (\<lambda>disjQ.
     if \<not> bitset_empty disjQ
     then bindE (noteFoundDisjointQuorums Q nodes disjQ s) (\<lambda>s1. Inr (True, s1))
     else Inr (False, s))"

subsection \<open>The search for minimal quorums\<close>

record SplitChoice =
  inDegrees :: "nat list"
  maxNode :: nat
  maxCount :: nat
  maxDegree :: nat
  splitDraws :: nat

definition countEdge :: "(nat \<Rightarrow> nat \<Rightarrow> nat) \<Rightarrow> nat \<Rightarrow> SplitChoice \<Rightarrow> qic_error + SplitChoice" where
  "countEdge draw j c =
     bindE (vectorAt (inDegrees c) j) (\<lambda>d.
     (let currDegree = d + 1;
          c1 = c\<lparr>inDegrees := (inDegrees c)[j := currDegree]\<rparr>
      in if maxDegree c1 \<le> currDegree
         then
           if currDegree = maxDegree c1
           then
             (let c2 = c1\<lparr>maxCount := maxCount c1 + 1, splitDraws := splitDraws c1 + 1\<rparr>
              in if draw (splitDraws c1) (maxCount c2) = 0 then Inr c2
                 else Inr (c2\<lparr>maxDegree := currDegree, maxNode := j\<rparr>))
           else Inr (c1\<lparr>maxCount := 1, maxDegree := currDegree, maxNode := j\<rparr>)
         else Inr c1))"

fun countEdges :: "(nat \<Rightarrow> nat \<Rightarrow> nat) \<Rightarrow> nat list \<Rightarrow> SplitChoice \<Rightarrow> qic_error + SplitChoice" where
  "countEdges draw [] c = Inr c"
| "countEdges draw (j # js) c = bindE (countEdge draw j c) (\<lambda>c1. countEdges draw js c1)"

fun countNodes :: "(nat \<Rightarrow> nat \<Rightarrow> nat) \<Rightarrow> QGraph \<Rightarrow> BitSet \<Rightarrow> nat list \<Rightarrow> SplitChoice \<Rightarrow> qic_error + SplitChoice" where
  "countNodes draw G remaining [] c = Inr c"
| "countNodes draw G remaining (i # is) c =
     bindE (vectorAt G i) (\<lambda>q.
     bindE (countEdges draw (setBits (inplaceIntersection (qbAllSuccessors q) remaining)) c) (\<lambda>c1.
     countNodes draw G remaining is c1))"

definition pickSplitNode :: "(nat \<Rightarrow> nat \<Rightarrow> nat) \<Rightarrow> QGraph \<Rightarrow> BitSet \<Rightarrow> QicState \<Rightarrow> qic_error + nat \<times> QicState" where
  "pickSplitNode draw G remaining s =
     bindE (assertE AssertionFailed (\<not> bitset_empty remaining)) (\<lambda>_.
     bindE (countNodes draw G remaining (setBits remaining)
              \<lparr>inDegrees = replicate (length G) 0, maxNode = bitset_maximum remaining, maxCount = 1, maxDegree = 0,
               splitDraws = draws s\<rparr>) (\<lambda>c.
     Inr (maxNode c, s\<lparr>draws := splitDraws c\<rparr>)))"

definition maxCommit :: "QuorumIntersectionChecker \<Rightarrow> nat" where
  "maxCommit Q = bitset_count (mMaxSCC Q) div 2 + 1"

lemma countEdge_maxNode: "countEdge draw j c = Inr c' \<Longrightarrow> maxNode c' \<in> {maxNode c, j}"
  by (auto simp: countEdge_def bindE_Inr Let_def split: if_splits)

lemma countEdges_maxNode: "countEdges draw js c = Inr c' \<Longrightarrow> maxNode c' \<in> insert (maxNode c) (set js)"
proof (induction js arbitrary: c)
  case (Cons j js)
  then obtain c1 where "countEdge draw j c = Inr c1" "countEdges draw js c1 = Inr c'" by (auto simp: bindE_Inr)
  then show ?case using Cons.IH countEdge_maxNode by fastforce
qed simp

lemma countNodes_maxNode:
  "countNodes draw G remaining is c = Inr c' \<Longrightarrow> maxNode c \<in> bits remaining \<Longrightarrow> maxNode c' \<in> bits remaining"
proof (induction "is" arbitrary: c)
  case (Cons i "is")
  from Cons.prems(1) obtain q c1 where
    "countEdges draw (setBits (inplaceIntersection (qbAllSuccessors q) remaining)) c = Inr c1"
    "countNodes draw G remaining is c1 = Inr c'" by (auto simp: bindE_Inr)
  then show ?case using Cons.IH countEdges_maxNode Cons.prems(2) by fastforce
qed simp

lemma pickSplitNode_mem: "pickSplitNode draw G remaining s = Inr (i, s') \<Longrightarrow> i \<in> bits remaining"
  using maximum_mem [of remaining] by (auto simp: pickSplitNode_def bindE_Inr assertE_Inr dest!: countNodes_maxNode)

lemma count_unset: "i \<in> bits b \<Longrightarrow> bitset_count (bitset_unset b i) < bitset_count b"
  unfolding count_card bits_unset by (rule card_Diff1_less) simp_all

function anyMinQuorumHasDisjointQuorum ::
  "(nat \<Rightarrow> nat \<Rightarrow> nat) \<Rightarrow> QuorumIntersectionChecker \<Rightarrow> BitSet \<Rightarrow> BitSet \<Rightarrow> QicState \<Rightarrow> qic_error + bool \<times> QicState" where
  "anyMinQuorumHasDisjointQuorum draw Q committed remaining s =
     (if maxCommit Q < bitset_count committed then Inr (False, s)
      else
        bindE (contractToMaximalQuorum (mGraph Q) committed) (\<lambda>committedQuorum.
        if \<not> bitset_empty committedQuorum
        then
          bindE (isMinimalQuorum (mGraph Q) committedQuorum) (\<lambda>minimal.
          if minimal then hasDisjointQuorum Q committedQuorum s else Inr (False, s))
        else
          bindE (contractToMaximalQuorum (mGraph Q) (inplaceUnion committed remaining)) (\<lambda>extensionQuorum.
          if bitset_empty extensionQuorum then Inr (False, s)
          else if \<not> bitset_subseteq committed extensionQuorum then Inr (False, s)
          else if bitset_empty remaining then Inr (False, s)
          else
            bindE (pickSplitNode draw (mGraph Q) remaining s) (\<lambda>(split, s1).
            (let remaining1 = bitset_unset remaining split
             in bindE (anyMinQuorumHasDisjointQuorum draw Q committed remaining1 s1) (\<lambda>(found, s2).
                if found then Inr (True, s2)
                else anyMinQuorumHasDisjointQuorum draw Q (bitset_set committed split) remaining1 s2))))))"
  by pat_completeness auto
termination
proof (relation "measure (\<lambda>(d, Q, c, r, s). bitset_count r)", goal_cases)
  case (2 draw Q committed remaining s a b ss split s1 r1)
  then have "split \<in> bits remaining" by (auto dest: pickSplitNode_mem)
  then show ?case using 2 by (auto dest: count_unset)
next
  case (3 draw Q committed remaining s a b ss split s1 r1 p found s2)
  then have "split \<in> bits remaining" by (auto dest: pickSplitNode_mem)
  then show ?case using 3 by (auto dest: count_unset)
qed simp

declare anyMinQuorumHasDisjointQuorum.simps [simp del]

fun otherSccLoop :: "QuorumIntersectionChecker \<Rightarrow> BitSet list \<Rightarrow> QicState \<Rightarrow> qic_error + bool \<times> QicState" where
  "otherSccLoop Q [] s = Inr (False, s)"
| "otherSccLoop Q (c # cs) s =
     (if bitset_equal c (mMaxSCC Q) then otherSccLoop Q cs s
      else
        bindE (contractToMaximalQuorum (mGraph Q) c) (\<lambda>other.
        if \<not> bitset_empty other
        then
          bindE (contractToMaximalQuorum (mGraph Q) (mMaxSCC Q)) (\<lambda>m.
          bindE (noteFoundDisjointQuorums Q m other s) (\<lambda>s1. Inr (True, s1)))
        else otherSccLoop Q cs s))"

definition networkEnjoysQuorumIntersection ::
  "(nat \<Rightarrow> nat \<Rightarrow> nat) \<Rightarrow> QuorumIntersectionChecker \<Rightarrow> QicState \<Rightarrow> qic_error + bool \<times> QicState" where
  "networkEnjoysQuorumIntersection draw Q s =
     bindE (otherSccLoop Q (mSCCs Q) s) (\<lambda>(foundDisjoint, s1).
     bindE (contractToMaximalQuorum (mGraph Q) (mMaxSCC Q)) (\<lambda>q.
     if bitset_empty q then Inr (True, s1)
     else if foundDisjoint then Inr (False, s1)
     else
       bindE (anyMinQuorumHasDisjointQuorum draw Q bitset_create (mMaxSCC Q) s1) (\<lambda>(found, s2). Inr (\<not> found, s2))))"

end
