(* ===== verification/Quorum_Components.thy ===== *)
theory Quorum_Components
  imports Quorum_Intersection
begin

text \<open>
  What Tarjan's algorithm computes for the checker: it never fails, its components are disjoint, not empty and cover the
  graph, and every edge that leaves a component leads to an earlier one. Nodes that reach each other are therefore
  in the same component.
\<close>

abbreviation idx :: "TarjanSCCCalculator \<Rightarrow> nat \<Rightarrow> int" where "idx s j \<equiv> nodeIndex (tscNodes s ! j)"
abbreviation low :: "TarjanSCCCalculator \<Rightarrow> nat \<Rightarrow> int" where "low s j \<equiv> nodeLowLink (tscNodes s ! j)"

definition settled :: "TarjanSCCCalculator \<Rightarrow> nat set" where
  "settled s = (\<Union>c \<in> set (tscSCCs s). bits c)"

definition unseen :: "TarjanSCCCalculator \<Rightarrow> nat set" where
  "unseen s = {j. j < length (tscNodes s) \<and> idx s j = - 1}"

text \<open>A list of components in the order of their discovery.\<close>

fun components :: "(nat \<Rightarrow> nat set) \<Rightarrow> BitSet list \<Rightarrow> nat set \<Rightarrow> bool" where
  "components E [] S \<longleftrightarrow> True"
| "components E (c # cs) S \<longleftrightarrow>
     bits c \<noteq> {} \<and> trimmed c \<and> bits c \<inter> S = {} \<and> (\<forall>u \<in> bits c. E u \<subseteq> bits c \<union> S) \<and> components E cs (bits c \<union> S)"

lemma components_snoc:
  "components E (cs @ [c]) S \<longleftrightarrow> components E cs S \<and> bits c \<noteq> {} \<and> trimmed c \<and>
     bits c \<inter> ((\<Union>c \<in> set cs. bits c) \<union> S) = {} \<and> (\<forall>u \<in> bits c. E u \<subseteq> bits c \<union> (\<Union>c \<in> set cs. bits c) \<union> S)"
  by (induction cs arbitrary: S) (auto simp: Un_assoc)

lemma popScc_pops:
  assumes "i \<notin> set pre" "\<forall>j \<in> set (pre @ [i]). j < length ns" "trimmed b"
  shows "\<exists>ns' b'. popScc i (pre @ i # rest) ns b = Inr (rest, ns', b') \<and> bits b' = bits b \<union> set (pre @ [i]) \<and> trimmed b' \<and>
    length ns' = length ns \<and> (\<forall>j < length ns. ns' ! j = (if j \<in> set (pre @ [i]) then (ns ! j)\<lparr>nodeOnStack := False\<rparr> else ns ! j))"
  using assms
proof (induction pre arbitrary: ns b)
  case Nil
  then show ?case by (auto simp: vectorAt_def Let_def nth_list_update trimmed_set)
next
  case (Cons j pre)
  let ?ns = "ns[j := (ns ! j)\<lparr>nodeOnStack := False\<rparr>]"
  obtain ns' b' where "popScc i (pre @ i # rest) ?ns (bitset_set b j) = Inr (rest, ns', b')"
    "bits b' = bits (bitset_set b j) \<union> set (pre @ [i])" "trimmed b'" "length ns' = length ?ns"
    "\<forall>k < length ?ns. ns' ! k = (if k \<in> set (pre @ [i]) then (?ns ! k)\<lparr>nodeOnStack := False\<rparr> else ?ns ! k)"
    using Cons.IH [of ?ns "bitset_set b j"] Cons.prems trimmed_set by auto
  then show ?case using Cons.prems by (auto simp: vectorAt_def Let_def nth_list_update)
qed

text \<open>A set is connected when every set that is closed under edges and meets it contains it; it lies in one component.\<close>

definition connected :: "(nat \<Rightarrow> nat set) \<Rightarrow> nat set \<Rightarrow> bool" where
  "connected E Q \<longleftrightarrow> (\<forall>T. (\<forall>x \<in> T. E x \<subseteq> T) \<and> T \<inter> Q \<noteq> {} \<longrightarrow> Q \<subseteq> T)"

lemma connected_component:
  assumes "components E cs S" "\<forall>x \<in> S. E x \<subseteq> S" "Q \<inter> S = {}" "Q \<noteq> {}" "Q \<subseteq> (\<Union>c \<in> set cs. bits c) \<union> S" "connected E Q"
  shows "\<exists>c \<in> set cs. Q \<subseteq> bits c"
  using assms
proof (induction cs arbitrary: S)
  case (Cons c cs)
  have cl: "\<forall>x \<in> bits c \<union> S. E x \<subseteq> bits c \<union> S" using Cons.prems(1,2) by auto
  show ?case
  proof (cases "Q \<inter> bits c = {}")
    case True
    have "\<exists>d \<in> set cs. Q \<subseteq> bits d"
      by (rule Cons.IH [of "bits c \<union> S"]) (use Cons.prems cl True in auto)
    then show ?thesis by auto
  next
    case False
    then have "Q \<subseteq> bits c \<union> S" using Cons.prems(6) cl unfolding connected_def by blast
    then show ?thesis using Cons.prems(3) by auto
  qed
qed auto

lemma components_disjoint:
  "components E cs S \<Longrightarrow> c \<in> set cs \<Longrightarrow> d \<in> set cs \<Longrightarrow> bits c \<noteq> bits d \<Longrightarrow> bits c \<inter> bits d = {}"
proof -
  have out: "components E cs S \<Longrightarrow> c \<in> set cs \<Longrightarrow> bits c \<inter> S = {}" for cs S c
    by (induction cs arbitrary: S) auto
  show "components E cs S \<Longrightarrow> c \<in> set cs \<Longrightarrow> d \<in> set cs \<Longrightarrow> bits c \<noteq> bits d \<Longrightarrow> bits c \<inter> bits d = {}"
  proof (induction cs arbitrary: S)
    case (Cons e cs)
    then show ?case using out [of cs "bits e \<union> S"] by auto
  qed simp
qed

lemma components_mem: "components E cs S \<Longrightarrow> c \<in> set cs \<Longrightarrow> bits c \<noteq> {} \<and> trimmed c"
  by (induction cs arbitrary: S) auto

lemma components_equal:
  assumes "components E cs S" "c \<in> set cs" "d \<in> set cs"
  shows "bitset_equal c d \<longleftrightarrow> bits c = bits d"
proof
  show "bits c = bits d" if "bitset_equal c d"
    using that trimmed_disjoint [of c d] components_mem [OF assms(1,2)] components_mem [OF assms(1,3)]
      components_disjoint [OF assms] by (metis bits_Nil)
qed (rule equal_complete)

locale component_graph =
  fixes G :: QGraph
  assumes closed: "i < length G \<Longrightarrow> j \<in> bits (qbAllSuccessors (G ! i)) \<Longrightarrow> j < length G"
begin

definition edges :: "nat \<Rightarrow> nat set" where
  "edges i = (if i < length G then bits (qbAllSuccessors (G ! i)) else {})"

definition tinv :: "TarjanSCCCalculator \<Rightarrow> bool" where
  "tinv s \<longleftrightarrow> length (tscNodes s) = length G \<and> 0 \<le> tscIndex s \<and>
     (\<forall>j < length G. - 1 \<le> idx s j \<and> idx s j < tscIndex s) \<and>
     (\<forall>j < length G. nodeOnStack (tscNodes s ! j) \<longleftrightarrow> j \<in> set (tscStack s)) \<and>
     set (tscStack s) \<subseteq> {..<length G} \<and> sorted_wrt (\<lambda>x y. idx s y < idx s x) (tscStack s) \<and>
     set (tscStack s) \<inter> settled s = {} \<and> set (tscStack s) \<union> settled s = {..<length G} - unseen s \<and>
     components edges (tscSCCs s) {}"

definition fine :: "TarjanSCCCalculator \<Rightarrow> int \<Rightarrow> nat \<Rightarrow> bool" where
  "fine s L w \<longleftrightarrow> w \<in> settled s \<or> w \<in> set (tscStack s) \<and> L \<le> idx s w"

text \<open>Between two states the stack has grown, and what was seen has kept its index and, outside \<open>X\<close>, its link.\<close>

definition grows :: "nat set \<Rightarrow> TarjanSCCCalculator \<Rightarrow> TarjanSCCCalculator \<Rightarrow> bool" where
  "grows X s s' \<longleftrightarrow> (\<exists>new. tscStack s' = new @ tscStack s \<and> (\<forall>j \<in> set new. tscIndex s \<le> idx s' j)) \<and>
     (\<forall>j < length G. idx s j \<noteq> - 1 \<longrightarrow> idx s' j = idx s j \<and> (j \<notin> X \<longrightarrow> low s' j = low s j)) \<and>
     settled s \<subseteq> settled s' \<and> tscIndex s \<le> tscIndex s' \<and> unseen s' \<subseteq> unseen s"

lemma tinvD:
  assumes "tinv s"
  shows "length (tscNodes s) = length G" "j < length G \<Longrightarrow> idx s j < tscIndex s"
    "j \<in> set (tscStack s) \<Longrightarrow> j < length G" "j \<in> set (tscStack s) \<Longrightarrow> 0 \<le> idx s j" "j \<in> set (tscStack s) \<Longrightarrow> idx s j \<noteq> - 1"
    "j < length G \<Longrightarrow> idx s j \<noteq> - 1 \<Longrightarrow> j \<in> set (tscStack s) \<or> j \<in> settled s"
    "j \<in> settled s \<Longrightarrow> idx s j \<noteq> - 1" "j \<in> settled s \<Longrightarrow> j < length G"
    "j < length G \<Longrightarrow> nodeOnStack (tscNodes s ! j) \<longleftrightarrow> j \<in> set (tscStack s)"
proof -
  show "length (tscNodes s) = length G" "j < length G \<Longrightarrow> idx s j < tscIndex s" "j \<in> set (tscStack s) \<Longrightarrow> j < length G"
    "j < length G \<Longrightarrow> nodeOnStack (tscNodes s ! j) \<longleftrightarrow> j \<in> set (tscStack s)"
    using assms by (auto simp: tinv_def)
  have u: "set (tscStack s) \<union> settled s = {j. j < length G \<and> idx s j \<noteq> - 1}" using assms by (auto simp: tinv_def unseen_def)
  show "j < length G \<Longrightarrow> idx s j \<noteq> - 1 \<Longrightarrow> j \<in> set (tscStack s) \<or> j \<in> settled s" using u by blast
  show "j \<in> settled s \<Longrightarrow> idx s j \<noteq> - 1" "j \<in> settled s \<Longrightarrow> j < length G" using u by blast+
  show n: "j \<in> set (tscStack s) \<Longrightarrow> idx s j \<noteq> - 1" using u by blast
  show "j \<in> set (tscStack s) \<Longrightarrow> 0 \<le> idx s j"
  proof -
    assume "j \<in> set (tscStack s)"
    then have "j < length G" "idx s j \<noteq> - 1" using u by blast+
    moreover from this have "- 1 \<le> idx s j" using assms by (simp add: tinv_def)
    ultimately show ?thesis by simp
  qed
qed

lemma fine_mono:
  assumes "fine s L w" "grows X s s'" "tinv s" "L' \<le> L"
  shows "fine s' L' w"
proof (cases "w \<in> settled s")
  case True
  then show ?thesis using assms(2) by (auto simp: fine_def grows_def)
next
  case False
  then have w: "w \<in> set (tscStack s)" "L \<le> idx s w" using assms(1) by (auto simp: fine_def)
  then have "idx s' w = idx s w" using assms(2) tinvD(3,5) [OF assms(3)] by (auto simp: grows_def)
  then show ?thesis using w assms(2,4) by (auto simp: fine_def grows_def)
qed

lemma grows_refl [simp]: "grows X s s" by (auto simp: grows_def)

lemma grows_mono: "grows X s s' \<Longrightarrow> X \<subseteq> Y \<Longrightarrow> grows Y s s'"
  unfolding grows_def by blast

lemma grows_trans:
  assumes "grows X s s'" "grows X s' s''" "tinv s'"
  shows "grows X s s''"
proof -
  obtain n1 n2 where n: "tscStack s' = n1 @ tscStack s" "\<forall>j \<in> set n1. tscIndex s \<le> idx s' j"
    "tscStack s'' = n2 @ tscStack s'" "\<forall>j \<in> set n2. tscIndex s' \<le> idx s'' j"
    using assms(1,2) by (auto simp: grows_def)
  have "\<forall>j \<in> set (n2 @ n1). tscIndex s \<le> idx s'' j"
  proof
    fix j assume j: "j \<in> set (n2 @ n1)"
    have le: "tscIndex s \<le> tscIndex s'" using assms(1) by (simp add: grows_def)
    show "tscIndex s \<le> idx s'' j"
    proof (cases "j \<in> set n2")
      case True
      then show ?thesis using n(4) le by force
    next
      case False
      then have "j \<in> set n1" "j \<in> set (tscStack s')" using j n(1) by auto
      then show ?thesis using n(2) assms(2) tinvD(3,5) [OF assms(3), of j] by (auto simp: grows_def)
    qed
  qed
  then have "\<exists>new. tscStack s'' = new @ tscStack s \<and> (\<forall>j \<in> set new. tscIndex s \<le> idx s'' j)"
    using n(1,3) by (intro exI [of _ "n2 @ n1"]) simp
  moreover have "\<forall>j < length G. idx s j \<noteq> - 1 \<longrightarrow> idx s'' j = idx s j \<and> (j \<notin> X \<longrightarrow> low s'' j = low s j)"
    using assms(1,2) by (auto simp: grows_def)
  ultimately show ?thesis using assms(1,2) by (auto simp: grows_def)
qed

definition inside :: "nat \<Rightarrow> TarjanSCCCalculator \<Rightarrow> nat set \<Rightarrow> nat list \<Rightarrow> bool" where
  "inside i s D rest \<longleftrightarrow> low s i \<le> idx s i \<and> (\<forall>w \<in> D. fine s (low s i) w) \<and>
     (\<exists>pre. tscStack s = pre @ i # rest \<and> (\<forall>u \<in> set pre. \<forall>w \<in> edges u. fine s (low s i) w))"

lemma enter:
  assumes "tinv s" "i < length G" "idx s i = - 1"
  shows "tinv (enterNode i s)" "grows {} s (enterNode i s)" "inside i (enterNode i s) {} (tscStack s)"
    "low (enterNode i s) i = tscIndex s" "idx (enterNode i s) i = tscIndex s" "unseen (enterNode i s) = unseen s - {i}"
proof -
  note d = tinvD [OF assms(1)]
  have i: "i \<notin> set (tscStack s)" "i \<notin> settled s" using d(5,7) assms(3) by blast+
  have n: "tscNodes (enterNode i s) ! j =
      (if j = i then \<lparr>nodeIndex = tscIndex s, nodeLowLink = tscIndex s, nodeOnStack = True\<rparr> else tscNodes s ! j)"
    if "j < length G" for j using that assms(2) d(1) by (simp add: enterNode_def nth_list_update)
  have f: "length (tscNodes (enterNode i s)) = length G" "tscStack (enterNode i s) = i # tscStack s"
    "tscIndex (enterNode i s) = tscIndex s + 1" "tscSCCs (enterNode i s) = tscSCCs s" "settled (enterNode i s) = settled s"
    using d(1) by (simp_all add: enterNode_def settled_def)
  show u: "unseen (enterNode i s) = unseen s - {i}"
    using assms n f(1) d(1) by (auto simp: unseen_def tinv_def split: if_splits)
  show "low (enterNode i s) i = tscIndex s" "idx (enterNode i s) i = tscIndex s" using n [OF assms(2)] by simp_all
  have st: "sorted_wrt (\<lambda>x y. idx (enterNode i s) y < idx (enterNode i s) x) (tscStack s)"
    using assms(1) n d(3) i(1) by (auto simp: tinv_def intro: sorted_wrt_mono_rel [rotated])
  have "i \<in> unseen s" using assms by (simp add: unseen_def d(1))
  then have part: "insert i (set (tscStack s) \<union> settled s) = {..<length G} - (unseen s - {i})"
    using assms(1,2) by (auto simp: tinv_def)
  show "tinv (enterNode i s)"
    unfolding tinv_def f u
    using assms(1,2) n st i part d(2,3) by (auto simp: tinv_def less_imp_le intro: less_trans)
  show "grows {} s (enterNode i s)"
    using assms(3) n u f by (auto simp: grows_def assms(2))
  show "inside i (enterNode i s) {} (tscStack s)" using n [OF assms(2)] f(2) by (simp add: inside_def)
qed

lemma lower:
  assumes "tinv s" "i < length G"
  shows "low (lowerLink i m s) i = min (low s i) m" "idx (lowerLink i m s) j = idx s j" "tinv (lowerLink i m s)"
    "grows {i} s (lowerLink i m s)" "fine (lowerLink i m s) L w = fine s L w" "tscStack (lowerLink i m s) = tscStack s"
    "unseen (lowerLink i m s) = unseen s" "tscIndex (lowerLink i m s) = tscIndex s"
proof -
  let ?s = "lowerLink i m s"
  have f: "tscStack ?s = tscStack s" "tscIndex ?s = tscIndex s" "tscSCCs ?s = tscSCCs s" "settled ?s = settled s"
    "length (tscNodes ?s) = length (tscNodes s)"
    by (simp_all add: lowerLink_def Let_def settled_def)
  have i: "i < length (tscNodes s)" using assms tinvD(1) by simp
  then show lw: "low ?s i = min (low s i) m" by (simp add: lowerLink_def Let_def)
  have ix: "idx ?s j = idx s j" "nodeOnStack (tscNodes ?s ! j) = nodeOnStack (tscNodes s ! j)" "j \<noteq> i \<Longrightarrow> low ?s j = low s j" for j
    using i by (cases "j = i"; simp add: lowerLink_def Let_def)+
  show "idx ?s j = idx s j" by (rule ix(1))
  show u: "unseen ?s = unseen s" by (simp add: unseen_def ix f)
  show "tinv ?s" using assms(1) unfolding tinv_def f ix u .
  show "grows {i} s ?s" by (auto simp: grows_def f ix u)
  show "fine ?s L w = fine s L w" by (simp add: fine_def f ix)
  show "tscStack ?s = tscStack s" "tscIndex ?s = tscIndex s" by (rule f(1), rule f(2))
qed

lemma inside_grows:
  assumes "inside i s D rest" "tinv s" "grows {} s s'" "i < length G"
    and "tscStack s' = new @ tscStack s" "\<forall>u \<in> set new. \<forall>w \<in> edges u. fine s' L w" "tinv s'"
  shows "inside i (lowerLink i L s') D rest"
proof -
  obtain pre where p: "tscStack s = pre @ i # rest" "\<forall>u \<in> set pre. \<forall>w \<in> edges u. fine s (low s i) w"
    and d: "low s i \<le> idx s i" "\<forall>w \<in> D. fine s (low s i) w" using assms(1) by (auto simp: inside_def)
  have "i \<in> set (tscStack s)" using p(1) by simp
  then have k: "idx s' i = idx s i" "low s' i = low s i"
    using assms(3,4) tinvD(5) [OF assms(2)] by (auto simp: grows_def)
  note l = lower [OF assms(7,4), of L]
  have f: "fine s (low s i) w \<Longrightarrow> fine (lowerLink i L s') (min (low s' i) L) w" for w
    unfolding l(5) k by (rule fine_mono [OF _ assms(3,2) min.cobounded1])
  have g: "fine s' L w \<Longrightarrow> fine (lowerLink i L s') (min (low s' i) L) w" for w
    unfolding l(5) by (rule fine_mono [OF _ grows_refl [of UNIV] assms(7) min.cobounded2])
  show ?thesis
    unfolding inside_def l(1,2,6)
    using d f g p assms(5,6) k by (auto intro!: exI [of _ "new @ pre"])
qed

lemma inside_target:
  assumes "inside i s D rest" "tinv s" "i < length G" "fine s m w"
  shows "inside i (lowerLink i m s) (insert w D) rest"
proof -
  note l = lower [OF assms(2,3), of m]
  have f: "fine s (low s i) x \<Longrightarrow> fine (lowerLink i m s) (min (low s i) m) x"
    "fine s m x \<Longrightarrow> fine (lowerLink i m s) (min (low s i) m) x" for x
    unfolding l(5) by (erule fine_mono [OF _ grows_refl [of UNIV] assms(2)], simp)+
  show ?thesis
    using assms(1,4) f unfolding inside_def l(1,2,6) by auto
qed

definition atLeastAll :: "int \<Rightarrow> TarjanSCCCalculator \<Rightarrow> bool" where
  "atLeastAll B s \<longleftrightarrow> B \<le> tscIndex s \<and> (\<forall>w \<in> set (tscStack s). B \<le> idx s w)"

lemma atLeastAll_grows: "atLeastAll B s \<Longrightarrow> grows X s s' \<Longrightarrow> tinv s \<Longrightarrow> atLeastAll B s'"
proof -
  assume b: "atLeastAll B s" and g: "grows X s s'" and t: "tinv s"
  have "B \<le> idx s' w" if "w \<in> set (tscStack s')" for w
  proof (cases "w \<in> set (tscStack s)")
    case True
    then show ?thesis using b g tinvD(3,5) [OF t] by (auto simp: grows_def atLeastAll_def)
  next
    case False
    then show ?thesis using b g that by (force simp: grows_def atLeastAll_def)
  qed
  then show ?thesis using b g by (auto simp: grows_def atLeastAll_def)
qed

definition sccPost :: "TarjanSCCCalculator \<Rightarrow> nat \<Rightarrow> TarjanSCCCalculator \<Rightarrow> bool" where
  "sccPost s i s' \<longleftrightarrow> tinv s' \<and> grows {} s s' \<and> idx s' i \<noteq> - 1 \<and> low s' i \<le> idx s' i \<and>
     (\<exists>new. tscStack s' = new @ tscStack s \<and> (\<forall>u \<in> set new. \<forall>w \<in> edges u. fine s' (low s' i) w) \<and>
        (new \<noteq> [] \<longrightarrow> low s' i < tscIndex s)) \<and>
     (\<forall>B. atLeastAll B s \<longrightarrow> B \<le> low s' i)"

definition edgesPost :: "nat \<Rightarrow> nat set \<Rightarrow> nat list \<Rightarrow> TarjanSCCCalculator \<Rightarrow> TarjanSCCCalculator \<Rightarrow> bool" where
  "edgesPost i D rest s s' \<longleftrightarrow> tinv s' \<and> grows {i} s s' \<and> inside i s' D rest \<and>
     (\<forall>B. atLeastAll B s \<and> B \<le> low s i \<longrightarrow> B \<le> low s' i)"

text \<open>A node whose link is its own index closes a component: no edge from above it on the stack leads below it.\<close>

lemma finish_pops:
  assumes "tinv s" "inside i s (edges i) rest" "i < length G" "low s i = idx s i"
  shows "\<exists>s'. finishNode i s = Inr s' \<and> tinv s' \<and> tscStack s' = rest \<and> settled s \<subseteq> settled s' \<and> unseen s' = unseen s \<and>
    tscIndex s' = tscIndex s \<and> (\<forall>j < length G. idx s' j = idx s j \<and> low s' j = low s j)"
proof -
  obtain pre where p: "tscStack s = pre @ i # rest" "\<forall>u \<in> set pre. \<forall>w \<in> edges u. fine s (low s i) w"
    and e: "\<forall>w \<in> edges i. fine s (low s i) w" using assms(2) by (auto simp: inside_def)
  note d = tinvD [OF assms(1)]
  have sorted: "sorted_wrt (\<lambda>x y. idx s y < idx s x) (pre @ i # rest)" using assms(1) p(1) by (simp add: tinv_def)
  then have above: "\<forall>j \<in> set pre. idx s i < idx s j" and under: "\<forall>j \<in> set rest. idx s j < idx s i"
    by (auto simp: sorted_wrt_append)
  then have fresh: "i \<notin> set pre" by auto
  have lens: "\<forall>j \<in> set (pre @ [i]). j < length (tscNodes s)" using d(1,3) p(1) by auto
  obtain ns' b' where pop: "popScc i (tscStack s) (tscNodes s) (bitset_set bitset_create i) = Inr (rest, ns', b')"
    and b: "bits b' = set (pre @ [i])" "trimmed b'" and ns: "length ns' = length (tscNodes s)"
      "\<forall>j < length (tscNodes s). ns' ! j = (if j \<in> set (pre @ [i]) then (tscNodes s ! j)\<lparr>nodeOnStack := False\<rparr> else tscNodes s ! j)"
    using popScc_pops [OF fresh lens trimmed_set [of bitset_create i], of rest]
    unfolding p(1) by (auto simp: trimmed_def bitset_create_def)
  define s' where "s' = s\<lparr>tscStack := rest, tscNodes := ns', tscSCCs := tscSCCs s @ [b']\<rparr>"
  have fin: "finishNode i s = Inr s'" using assms(4) pop by (simp add: finishNode_def s'_def)
  have ix: "idx s' j = idx s j" "low s' j = low s j" if "j < length G" for j using that ns(2) d(1) by (simp_all add: s'_def)
  have u: "unseen s' = unseen s" using ix ns(1) d(1) by (auto simp: unseen_def s'_def)
  have st: "settled s' = settled s \<union> set (pre @ [i])" using b(1) by (auto simp: settled_def s'_def)
  have fin_edges: "edges v \<subseteq> set (pre @ [i]) \<union> settled s" if v: "v \<in> set (pre @ [i])" for v
  proof
    fix w assume "w \<in> edges v"
    then have "fine s (idx s i) w" using v p(2) e assms(4) by auto
    then show "w \<in> set (pre @ [i]) \<union> settled s" using p(1) under by (auto simp: fine_def)
  qed
  have old: "set (tscStack s) \<inter> settled s = {}" "set (tscStack s) \<union> settled s = {..<length G} - unseen s" "components edges (tscSCCs s) {}"
    using assms(1) by (auto simp: tinv_def)
  have "components edges (tscSCCs s') {}"
    using old fin_edges b p(1) by (fastforce simp: s'_def components_snoc settled_def)
  moreover have "\<forall>j < length G. nodeOnStack (tscNodes s' ! j) \<longleftrightarrow> j \<in> set rest"
    using d(9) ns(2) d(1) p(1) sorted by (auto simp: s'_def sorted_wrt_append)
  moreover have "sorted_wrt (\<lambda>x y. idx s' y < idx s' x) rest"
    using sorted d(3) p(1) ix by (auto simp: sorted_wrt_append intro: sorted_wrt_mono_rel [rotated])
  moreover have "set rest \<inter> settled s' = {}" using old(1) p(1) sorted by (auto simp: st sorted_wrt_append)
  moreover have "set rest \<union> settled s' = {..<length G} - unseen s'" using old(2) p(1) by (auto simp: st u)
  moreover have "set rest \<subseteq> {..<length G}" using d(3) p(1) by auto
  ultimately have "tinv s'"
    using assms(1) ix ns(1) unfolding tinv_def by (simp add: s'_def)
  then show ?thesis using fin ix u st by (auto simp: s'_def)
qed

lemma scc_finish:
  assumes "tinv s" "i < length G" "idx s i = - 1" "edgesPost i (edges i) (tscStack s) (enterNode i s) s1"
  shows "\<exists>s'. finishNode i s1 = Inr s' \<and> sccPost s i s'"
proof -
  note n = enter [OF assms(1-3)]
  have t1: "tinv s1" and g1: "grows {i} (enterNode i s) s1" and in1: "inside i s1 (edges i) (tscStack s)"
    and b1: "\<And>B. atLeastAll B (enterNode i s) \<Longrightarrow> B \<le> low (enterNode i s) i \<Longrightarrow> B \<le> low s1 i"
    using assms(4) by (auto simp: edgesPost_def)
  have keep: "idx s1 j = idx s j \<and> low s1 j = low s j" if "j < length G" "idx s j \<noteq> - 1" for j
  proof -
    have "j \<noteq> i" using that(2) assms(3) by auto
    moreover have "idx (enterNode i s) j = idx s j \<and> low (enterNode i s) j = low s j" using that n(2) by (auto simp: grows_def)
    ultimately show ?thesis using g1 that by (auto simp: grows_def)
  qed
  have up: "settled s \<subseteq> settled s1" "tscIndex s \<le> tscIndex s1" "unseen s1 \<subseteq> unseen s"
    using n(2) g1 by (auto simp: grows_def)
  have idx1: "idx s1 i = tscIndex s" using g1 n(5) assms(1,2) by (auto simp: grows_def tinv_def)
  have low1: "low s1 i \<le> idx s1 i" using in1 by (simp add: inside_def)
  have bound: "B \<le> low s1 i" if "atLeastAll B s" for B
    using b1 [of B] atLeastAll_grows [OF that n(2) assms(1)] that n(4) by (simp add: atLeastAll_def)
  have nonneg: "idx s1 i \<noteq> - 1" using idx1 assms(1) by (simp add: tinv_def)
  show ?thesis
  proof (cases "low s1 i = idx s1 i")
    case True
    obtain s' where f: "finishNode i s1 = Inr s'" "tinv s'" "tscStack s' = tscStack s" "settled s1 \<subseteq> settled s'" "unseen s' = unseen s1"
      "tscIndex s' = tscIndex s1" "\<And>j. j < length G \<Longrightarrow> idx s' j = idx s1 j \<and> low s' j = low s1 j"
      using finish_pops [OF t1 in1 assms(2) True] by blast
    have "grows {} s s'" using keep up f(3-7) by (auto simp: grows_def)
    then have "sccPost s i s'"
      using f(2,3) f(7) [OF assms(2)] low1 bound nonneg by (simp add: sccPost_def)
    then show ?thesis using f(1) by blast
  next
    case False
    obtain pre where p: "tscStack s1 = pre @ i # tscStack s" "\<forall>u \<in> set pre. \<forall>w \<in> edges u. fine s1 (low s1 i) w"
      "\<forall>w \<in> edges i. fine s1 (low s1 i) w" using in1 by (auto simp: inside_def)
    have "idx s1 i < idx s1 j" if "j \<in> set pre" for j
      using t1 p(1) that by (auto simp: tinv_def sorted_wrt_append)
    then have "\<forall>j \<in> set (pre @ [i]). tscIndex s \<le> idx s1 j" using idx1 by (auto intro: less_imp_le)
    then have "grows {} s s1" using keep up p(1) by (auto simp: grows_def)
    then have "sccPost s i s1"
      using t1 nonneg low1 bound p False idx1 unfolding sccPost_def by (auto intro!: exI [of _ "pre @ [i]"])
    then show ?thesis using False by (auto simp: finishNode_def)
  qed
qed

lemma edges_step_new:
  assumes "tinv s" "i < length G" "j < length G" "inside i s D rest" "idx s j = - 1" "sccPost s j s1"
  shows "edgesPost i (insert j D) rest s (lowerLink i (low s1 j) s1)"
proof -
  have t1: "tinv s1" and g: "grows {} s s1" and j1: "idx s1 j \<noteq> - 1" "low s1 j \<le> idx s1 j"
    and b: "\<And>B. atLeastAll B s \<Longrightarrow> B \<le> low s1 j" using assms(6) by (auto simp: sccPost_def)
  obtain new where new: "tscStack s1 = new @ tscStack s" "\<forall>u \<in> set new. \<forall>w \<in> edges u. fine s1 (low s1 j) w"
    using assms(6) by (auto simp: sccPost_def)
  let ?m = "low s1 j"
  note l = lower [OF t1 assms(2), of ?m]
  have "inside i (lowerLink i ?m s1) D rest" by (rule inside_grows [OF assms(4,1) g assms(2) new t1])
  moreover have "fine (lowerLink i ?m s1) (min (low s1 i) ?m) j"
    unfolding l(5) using tinvD(6) [OF t1 assms(3) j1(1)] j1(2) by (auto simp: fine_def)
  ultimately have "inside i (lowerLink i ?m s1) (insert j D) rest" by (auto simp: inside_def l(1))
  moreover have "grows {i} s (lowerLink i ?m s1)" by (rule grows_trans [OF grows_mono [OF g] l(4) t1]) simp
  moreover have "low s1 i = low s i"
  proof -
    have "i \<in> set (tscStack s)" using assms(4) by (auto simp: inside_def)
    then show ?thesis using g assms(2) tinvD(5) [OF assms(1)] by (auto simp: grows_def)
  qed
  ultimately show ?thesis using l(1,3) b by (auto simp: edgesPost_def)
qed

lemma edges_step_seen:
  assumes "tinv s" "i < length G" "j < length G" "inside i s D rest" "idx s j \<noteq> - 1"
  shows "edgesPost i (insert j D) rest s (if nodeOnStack (tscNodes s ! j) then lowerLink i (idx s j) s else s)"
proof (cases "nodeOnStack (tscNodes s ! j)")
  case True
  then have j: "j \<in> set (tscStack s)" using tinvD(9) [OF assms(1,3)] by simp
  then have "fine s (idx s j) j" by (simp add: fine_def)
  from inside_target [OF assms(4,1,2) this] show ?thesis
    using True lower(1,3,4) [OF assms(1,2), of "idx s j"] j by (auto simp: edgesPost_def atLeastAll_def)
next
  case False
  then have "j \<in> settled s" using tinvD(6,9) [OF assms(1,3)] assms(5) by auto
  then show ?thesis using False assms(1,4) by (auto simp: edgesPost_def inside_def fine_def)
qed

lemma edgesPost_trans:
  assumes "edgesPost i D rest s s1" "edgesPost i D' rest s1 s2" "tinv s"
  shows "edgesPost i D' rest s s2"
proof -
  have "grows {i} s s2" using assms by (auto simp: edgesPost_def intro: grows_trans)
  moreover have "B \<le> low s2 i" if "atLeastAll B s" "B \<le> low s i" for B
    using that assms atLeastAll_grows [OF that(1) _ assms(3)] by (auto simp: edgesPost_def)
  ultimately show ?thesis using assms(2) by (simp add: edgesPost_def)
qed

lemma card_unseen_grows: "tinv s \<Longrightarrow> grows X s s' \<Longrightarrow> card (unseen s') \<le> card (unseen s)"
  unfolding grows_def by (rule card_mono) (auto simp: unseen_def)

lemma scc_correct:
  "H = G \<Longrightarrow> tinv s \<Longrightarrow> i < length G \<Longrightarrow> idx s i = - 1 \<Longrightarrow> card (unseen s) \<le> k \<Longrightarrow>
     \<exists>s'. scc k H i s = Inr s' \<and> sccPost s i s'"
  "H = G \<Longrightarrow> tinv s \<Longrightarrow> i < length G \<Longrightarrow> set js \<subseteq> {..<length G} \<Longrightarrow> inside i s D rest \<Longrightarrow> card (unseen s) \<le> k \<Longrightarrow>
     \<exists>s'. sccEdges k H i js s = Inr s' \<and> edgesPost i (D \<union> set js) rest s s'"
proof (induction k H i s and k H i js s arbitrary: and D rest rule: scc_sccEdges.induct)
  case (1 H i s)
  have "i \<in> unseen s" "finite (unseen s)" using 1 tinvD(1) by (auto simp: unseen_def)
  then show ?case using 1 by auto
next
  case (2 k H i s)
  note n = enter [OF 2(3-5)]
  have q: "vectorAt (tscNodes s) i = Inr (tscNodes s ! i)" "vectorAt H i = Inr (G ! i)"
    using 2(2,4) tinvD(1) [OF 2(3)] by (simp_all add: vectorAt_def)
  have succs: "set (setBits (qbAllSuccessors (G ! i))) = edges i" "edges i \<subseteq> {..<length G}"
    using 2(4) closed by (auto simp: edges_def)
  have "i \<in> unseen s" "finite (unseen s)" using 2 tinvD(1) by (auto simp: unseen_def)
  then have "card (unseen (enterNode i s)) \<le> k" using 2(6) n(6) by simp
  then obtain s1 where s1: "sccEdges k H i (setBits (qbAllSuccessors (G ! i))) (enterNode i s) = Inr s1"
    "edgesPost i (edges i) (tscStack s) (enterNode i s) s1"
    using 2(1) [OF q 2(2) n(1) 2(4) _ n(3)] succs by auto
  from scc_finish [OF 2(3-5) s1(2)] show ?case using q s1(1) by simp
next
  case (3 k H i s)
  then show ?case by (auto simp: edgesPost_def)
next
  case (4 k H i j js s)
  have j: "j < length G" "vectorAt (tscNodes s) j = Inr (tscNodes s ! j)"
    using 4(6) tinvD(1) [OF 4(4)] by (auto simp: vectorAt_def)
  let ?step = "if idx s j = - 1 then bindE (scc k H j s) (\<lambda>s1. Inr (lowerLink i (low s1 j) s1))
    else if nodeOnStack (tscNodes s ! j) then Inr (lowerLink i (idx s j) s) else Inr s"
  have "\<exists>s1. ?step = Inr s1 \<and> edgesPost i (insert j D) rest s s1"
  proof (cases "idx s j = - 1")
    case True
    then obtain s1 where "scc k H j s = Inr s1" "sccPost s j s1" using 4(1) [OF j(2) _ 4(3,4) j(1) _ 4(8)] by auto
    then show ?thesis using edges_step_new [OF 4(4,5) j(1) 4(7) True] True by simp
  next
    case False
    then show ?thesis using edges_step_seen [OF 4(4,5) j(1) 4(7) False] by (cases "nodeOnStack (tscNodes s ! j)") auto
  qed
  then obtain s1 where s1: "?step = Inr s1" "edgesPost i (insert j D) rest s s1" by blast
  then have p: "tinv s1" "inside i s1 (insert j D) rest" "grows {i} s s1" by (auto simp: edgesPost_def)
  have "card (unseen s1) \<le> k" using card_unseen_grows [OF 4(4) p(3)] 4(8) by simp
  then obtain s2 where "sccEdges k H i js s1 = Inr s2" "edgesPost i (insert j D \<union> set js) rest s1 s2"
    using 4(2) [OF j(2) s1(1) 4(3) p(1) 4(5) _ p(2)] 4(6) by auto
  then show ?case using edgesPost_trans [OF s1(2) _ 4(4)] j(2) s1(1) by auto
qed

lemma roots_correct:
  "tinv s \<Longrightarrow> tscStack s = [] \<Longrightarrow> set is \<subseteq> {..<length G} \<Longrightarrow>
   \<exists>s'. sccRoots G is s = Inr s' \<and> tinv s' \<and> tscStack s' = [] \<and> unseen s' \<subseteq> unseen s - set is"
proof (induction "is" arbitrary: s)
  case (Cons i "is")
  have i: "i < length G" "vectorAt (tscNodes s) i = Inr (tscNodes s ! i)"
    using Cons.prems tinvD(1) [OF Cons.prems(1)] by (auto simp: vectorAt_def)
  have "\<exists>s1. (if idx s i = - 1 then scc (length G + 1) G i s else Inr s) = Inr s1 \<and> tinv s1 \<and> tscStack s1 = [] \<and>
      unseen s1 \<subseteq> unseen s - {i}"
  proof (cases "idx s i = - 1")
    case True
    have "card (unseen s) \<le> card {..<length G}"
      using tinvD(1) [OF Cons.prems(1)] by (intro card_mono) (auto simp: unseen_def)
    then obtain s1 where s1: "scc (length G + 1) G i s = Inr s1" "sccPost s i s1"
      using scc_correct(1) [OF refl Cons.prems(1) i(1) True, of "length G + 1"] by auto
    have "tscIndex s \<le> low s1 i" using s1(2) Cons.prems(2) by (simp add: sccPost_def atLeastAll_def)
    then show ?thesis using True s1 Cons.prems(2) by (auto simp: sccPost_def grows_def unseen_def)
  next
    case False
    then show ?thesis using Cons.prems by (auto simp: unseen_def)
  qed
  then obtain s1 where s1: "(if idx s i = - 1 then scc (length G + 1) G i s else Inr s) = Inr s1" "tinv s1" "tscStack s1 = []"
    "unseen s1 \<subseteq> unseen s - {i}" by blast
  then show ?case using Cons.IH [OF s1(2,3)] Cons.prems(3) i(2) by fastforce
qed simp

lemma calculateSCCs_correct:
  "\<exists>cs. calculateSCCs G = Inr cs \<and> components edges cs {} \<and> (\<Union>c \<in> set cs. bits c) = {..<length G}"
proof -
  let ?s = "\<lparr>tscNodes = replicate (length G) \<lparr>nodeIndex = - 1, nodeLowLink = - 1, nodeOnStack = False\<rparr>,
        tscStack = [], tscIndex = 0, tscSCCs = []\<rparr>"
  have "tinv ?s" by (auto simp: tinv_def settled_def unseen_def)
  then obtain s' where s': "sccRoots G [0..<length G] ?s = Inr s'" "tinv s'" "tscStack s' = []"
    "unseen s' \<subseteq> unseen ?s - {0..<length G}"
    using roots_correct [of ?s "[0..<length G]"] by (auto simp: atLeast0LessThan)
  then have "settled s' = {..<length G}" by (auto simp: tinv_def unseen_def)
  then show ?thesis using s' by (auto simp: calculateSCCs_def tinv_def settled_def)
qed

end

end
