(* ===== verification/Quorum_Intersection_Properties.thy ===== *)
theory Quorum_Intersection_Properties
  imports Quorum_Components
begin

text \<open>
  The checker decides quorum intersection: quorums as sets of nodes (a locale, interpreted on the graph of a quorum map), the
  equivalence of slices over bit sets with those of the consensus code, and the search through minimal quorums.
\<close>

subsection \<open>Quorum systems\<close>

locale quorum_system =
  fixes V :: "'a set" and sl :: "'a \<Rightarrow> 'a set \<Rightarrow> bool" and succs :: "'a \<Rightarrow> 'a set"
  assumes fin: "finite V" and mono: "sl i U \<Longrightarrow> U \<subseteq> W \<Longrightarrow> sl i W" and only_succs: "sl i U \<Longrightarrow> sl i (U \<inter> succs i)"
begin

definition quorum :: "'a set \<Rightarrow> bool" where
  "quorum U \<longleftrightarrow> U \<noteq> {} \<and> U \<subseteq> V \<and> (\<forall>i \<in> U. sl i U)"

definition minimal :: "'a set \<Rightarrow> bool" where
  "minimal U \<longleftrightarrow> quorum U \<and> (\<forall>W. quorum W \<longrightarrow> W \<subseteq> U \<longrightarrow> W = U)"

definition greatest :: "'a set \<Rightarrow> 'a set" where
  "greatest N = \<Union>{U. quorum U \<and> U \<subseteq> N}"

lemma quorum_finite: "quorum U \<Longrightarrow> finite U"
  using fin by (auto simp: quorum_def intro: finite_subset)

lemma greatest_subset: "greatest N \<subseteq> N" by (auto simp: greatest_def)

lemma greatest_contains: "quorum U \<Longrightarrow> U \<subseteq> N \<Longrightarrow> U \<subseteq> greatest N" by (auto simp: greatest_def)

lemma greatest_quorum: "greatest N \<noteq> {} \<Longrightarrow> quorum (greatest N)"
proof -
  assume n: "greatest N \<noteq> {}"
  have "sl i (greatest N)" if "i \<in> greatest N" for i
  proof -
    obtain U where "quorum U" "U \<subseteq> N" "i \<in> U" using \<open>i \<in> greatest N\<close> by (auto simp: greatest_def)
    then show ?thesis using mono [of i U "greatest N"] greatest_contains by (auto simp: quorum_def)
  qed
  then show ?thesis using n by (auto simp: quorum_def greatest_def)
qed

lemma greatest_empty: "greatest N = {} \<longleftrightarrow> (\<forall>U. quorum U \<longrightarrow> \<not> U \<subseteq> N)"
proof
  assume "greatest N = {}"
  then show "\<forall>U. quorum U \<longrightarrow> \<not> U \<subseteq> N" using greatest_contains [of _ N] by (auto simp: quorum_def)
next
  assume "\<forall>U. quorum U \<longrightarrow> \<not> U \<subseteq> N"
  then show "greatest N = {}" by (auto simp: greatest_def)
qed

lemma greatest_self: "quorum U \<Longrightarrow> greatest U = U"
  using greatest_contains [of U U] greatest_subset by blast

lemma greatest_filter:
  assumes "F = {i \<in> N. sl i N}"
  shows "greatest N = greatest F"
proof -
  have "U \<subseteq> F" if "quorum U" "U \<subseteq> N" for U
    using that mono unfolding quorum_def assms by blast
  moreover have "F \<subseteq> N" using assms by blast
  ultimately show ?thesis unfolding greatest_def by (intro arg_cong [of _ _ Union]) auto
qed

lemma contains_minimal:
  assumes "quorum U"
  obtains W where "minimal W" "W \<subseteq> U"
proof -
  have "finite {W. quorum W \<and> W \<subseteq> U}" using quorum_finite [OF assms] by simp
  from finite_has_minimal2 [OF this, of U] obtain W where "quorum W" "W \<subseteq> U" "\<forall>X. quorum X \<and> X \<subseteq> U \<longrightarrow> X \<subseteq> W \<longrightarrow> W = X"
    using assms by auto
  then have "minimal W" unfolding minimal_def by blast
  with \<open>W \<subseteq> U\<close> show thesis by (rule that [rotated])
qed

text \<open>The part of a quorum in a set that is closed under dependencies is a quorum, so minimal quorums are connected.\<close>

lemma quorum_closed_part:
  assumes "quorum U" "\<forall>x \<in> T. succs x \<subseteq> T" "T \<inter> U \<noteq> {}"
  shows "quorum (U \<inter> T)"
proof -
  have "sl i (U \<inter> T)" if "i \<in> U \<inter> T" for i
    using that assms(1,2) only_succs [of i U] mono [of i "U \<inter> succs i" "U \<inter> T"] by (auto simp: quorum_def)
  then show ?thesis using assms(1,3) by (auto simp: quorum_def)
qed

lemma minimal_closed:
  "minimal U \<Longrightarrow> \<forall>x \<in> T. succs x \<subseteq> T \<Longrightarrow> T \<inter> U \<noteq> {} \<Longrightarrow> U \<subseteq> T"
  using quorum_closed_part [of U T] unfolding minimal_def by blast

lemma minimal_iff:
  "minimal U \<longleftrightarrow> quorum U \<and> (\<forall>i \<in> U. greatest (U - {i}) = {})"
proof
  assume "minimal U"
  then show "quorum U \<and> (\<forall>i \<in> U. greatest (U - {i}) = {})" unfolding minimal_def greatest_empty by blast
next
  assume r: "quorum U \<and> (\<forall>i \<in> U. greatest (U - {i}) = {})"
  have "W = U" if w: "quorum W" "W \<subseteq> U" for W
  proof (rule ccontr)
    assume "W \<noteq> U"
    then obtain i where "i \<in> U" "W \<subseteq> U - {i}" using w(2) by blast
    then show False using r w(1) unfolding greatest_empty by blast
  qed
  then show "minimal U" using r by (auto simp: minimal_def)
qed

end

subsection \<open>Slices over bit sets\<close>

fun qslice :: "QBitSet \<Rightarrow> nat set \<Rightarrow> bool" where
  "qslice (QBitSet t nodes inner succs) U \<longleftrightarrow>
     unat t \<le> card (bits nodes \<inter> U) + length (filter (\<lambda>q. qslice q U) inner)"

text \<open>Successors are collected at every level; without shared nodes the count of the successors bounds the threshold.\<close>

fun collected :: "QBitSet \<Rightarrow> bool" where
  "collected (QBitSet t nodes inner succs) \<longleftrightarrow>
     bits succs = bits nodes \<union> (\<Union>q \<in> set inner. bits (qbAllSuccessors q)) \<and> (\<forall>q \<in> set inner. collected q)"

fun unshared :: "QBitSet \<Rightarrow> bool" where
  "unshared (QBitSet t nodes inner succs) \<longleftrightarrow>
     1 \<le> unat t \<and> (\<forall>q \<in> set inner. unshared q \<and> bits nodes \<inter> bits (qbAllSuccessors q) = {}) \<and>
     sorted_wrt (\<lambda>p q. bits (qbAllSuccessors p) \<inter> bits (qbAllSuccessors q) = {}) inner"

lemma qslice_mono: "qslice q U \<Longrightarrow> U \<subseteq> W \<Longrightarrow> qslice q W"
proof (induction q)
  case (QBitSet t nodes inner succs)
  have "card (bits nodes \<inter> U) \<le> card (bits nodes \<inter> W)" using QBitSet.prems(2) by (intro card_mono) auto
  moreover have "length (filter (\<lambda>q. qslice q U) inner) \<le> length (filter (\<lambda>q. qslice q W) inner)"
    using QBitSet by (intro length_filter_disj) auto
  ultimately show ?case using QBitSet.prems(1) by simp
qed

lemma qslice_succs: "collected q \<Longrightarrow> bits (qbAllSuccessors q) \<subseteq> S \<Longrightarrow> qslice q U \<longleftrightarrow> qslice q (U \<inter> S)"
proof (induction q)
  case (QBitSet t nodes inner succs)
  have "qslice q U = qslice q (U \<inter> S)" if "q \<in> set inner" for q
    by (rule QBitSet.IH [OF that]) (use QBitSet.prems that in auto)
  then have "filter (\<lambda>q. qslice q U) inner = filter (\<lambda>q. qslice q (U \<inter> S)) inner" by (intro filter_cong) auto
  moreover have "bits nodes \<inter> U = bits nodes \<inter> (U \<inter> S)" using QBitSet.prems by auto
  ultimately show ?case by simp
qed

lemma satisfied_inner:
  assumes "sorted_wrt (\<lambda>p q. F p \<inter> F q = {}) qs" "\<forall>q \<in> set qs. P q \<longrightarrow> F q \<inter> U \<noteq> {}" "\<forall>q \<in> set qs. finite (F q)"
  shows "length (filter P qs) \<le> card ((\<Union>q \<in> set qs. F q) \<inter> U)"
  using assms
proof (induction qs)
  case (Cons q qs)
  have "card ((\<Union>q \<in> set (q # qs). F q) \<inter> U) = card (F q \<inter> U) + card ((\<Union>q \<in> set qs. F q) \<inter> U)"
    using Cons.prems by (subst card_Un_disjoint [symmetric]) (auto simp: Int_Un_distrib2)
  moreover have "P q \<Longrightarrow> 1 \<le> card (F q \<inter> U)" using Cons.prems(2,3) by (simp add: Suc_le_eq card_gt_0_iff)
  ultimately show ?case using Cons by auto
qed simp

lemma qslice_bound: "collected q \<Longrightarrow> unshared q \<Longrightarrow> qslice q U \<Longrightarrow> unat (qbThreshold q) \<le> card (bits (qbAllSuccessors q) \<inter> U)"
proof (induction q)
  case (QBitSet t nodes inner succs)
  let ?F = "\<lambda>q. bits (qbAllSuccessors q)"
  have "?F q \<inter> U \<noteq> {}" if "q \<in> set inner" "qslice q U" for q
  proof -
    have "unat (qbThreshold q) \<le> card (?F q \<inter> U)" using QBitSet that by auto
    moreover have "1 \<le> unat (qbThreshold q)" using QBitSet.prems(2) that(1) by (cases q) auto
    ultimately show ?thesis by auto
  qed
  then have "length (filter (\<lambda>q. qslice q U) inner) \<le> card ((\<Union>q \<in> set inner. ?F q) \<inter> U)"
    using QBitSet.prems(2) by (intro satisfied_inner) auto
  moreover have "card (bits succs \<inter> U) = card (bits nodes \<inter> U) + card ((\<Union>q \<in> set inner. ?F q) \<inter> U)"
    using QBitSet.prems(1,2) by (subst card_Un_disjoint [symmetric]) (auto simp: Int_Un_distrib2)
  ultimately show ?case using QBitSet.prems(3) by simp
qed

lemma containsQuorumSlice_correct:
  "collected q \<Longrightarrow> unshared q \<Longrightarrow> containsQuorumSlice bs q \<longleftrightarrow> qslice q (bits bs)"
  "(\<forall>q \<in> set qs. collected q \<and> unshared q) \<Longrightarrow> 1 \<le> m \<Longrightarrow> 1 \<le> f \<Longrightarrow> m + f = length qs + 1 \<Longrightarrow>
     innerSlices bs m f qs \<longleftrightarrow> m \<le> length (filter (\<lambda>q. qslice q (bits bs)) qs)"
proof (induction bs q and bs m f qs rule: containsQuorumSlice_innerSlices.induct)
  case (1 bs t nodes inner succs)
  let ?n = "card (bits nodes \<inter> bits bs)" and ?k = "length (filter (\<lambda>q. qslice q (bits bs)) inner)"
  have c: "intersectionCount bs nodes = ?n" "intersectionCount bs succs = card (bits succs \<inter> bits bs)"
    by (simp_all add: intersectionCount_card Int_commute)
  have k: "?k \<le> length inner" by simp
  have prune: "qslice (QBitSet t nodes inner succs) (bits bs) \<Longrightarrow> unat t \<le> card (bits succs \<inter> bits bs)"
    using qslice_bound [OF 1(2,3)] by simp
  have inner: "\<not> unat t \<le> ?n \<Longrightarrow> \<not> length inner < unat t - ?n \<Longrightarrow> \<not> card (bits succs \<inter> bits bs) < unat t \<Longrightarrow>
      innerSlices bs (unat t - ?n) (length inner - (unat t - ?n) + 1) inner \<longleftrightarrow> unat t - ?n \<le> ?k"
    using 1(1) [OF refl] 1(2,3) c by (auto simp: not_less)
  consider "unat t \<le> ?n" | "\<not> unat t \<le> ?n" "length inner < unat t - ?n"
    | "\<not> unat t \<le> ?n" "\<not> length inner < unat t - ?n" "card (bits succs \<inter> bits bs) < unat t"
    | "\<not> unat t \<le> ?n" "\<not> length inner < unat t - ?n" "\<not> card (bits succs \<inter> bits bs) < unat t" by blast
  then show ?case
  proof cases
    case 4
    then show ?thesis using inner [OF 4] unfolding containsQuorumSlice.simps c Let_def by auto
  qed (use prune k in \<open>auto simp: c Let_def\<close>)
next
  case (2 bs m f)
  then show ?case by simp
next
  case (3 bs m f q qs)
  obtain k where k: "length (filter (\<lambda>q. qslice q (bits bs)) qs) = k" "k \<le> length qs" by simp
  show ?case using 3 k(2) by (auto simp: Suc_le_eq k(1))
qed

subsection \<open>The graph of a quorum map\<close>

definition graphOf :: "QuorumMap \<Rightarrow> QGraph" where
  "graphOf qmap = map (convertSCPQuorumSet (zip (pubKeys qmap) [0..<length (pubKeys qmap)])) (List.map_filter snd qmap)"

lemma length_graphOf [simp]: "length (graphOf qmap) = length (pubKeys qmap)"
  by (induction qmap) (auto simp: graphOf_def pubKeys_def map_filter_simps)

lemma nums_lookup:
  assumes "distinct keys"
  shows "map_of (zip keys [0..<length keys]) v = Some i \<longleftrightarrow> i < length keys \<and> keys ! i = v"
  using assms by (auto simp: map_of_zip_nth in_set_zip dest!: map_of_SomeD)

lemma nums_low: "map_of (zip keys [0..<length keys]) v = Some i \<Longrightarrow> i < length keys"
  by (auto dest!: map_of_SomeD simp: in_set_zip)

lemma validators_bits:
  "bits (fold (\<lambda>v b. case map_of nums v of None \<Rightarrow> b | Some i \<Rightarrow> bitset_set b i) vs b) =
     bits b \<union> {i. \<exists>v \<in> set vs. map_of nums v = Some i}"
  by (induction vs arbitrary: b) (auto split: option.splits)

lemma getSuccessors_bits: "bits (getSuccessors b inner) = bits b \<union> (\<Union>q \<in> set inner. bits (qbAllSuccessors q))"
  unfolding getSuccessors_def by (induction inner arbitrary: b) auto

lemma convert_collected: "collected (convertSCPQuorumSet nums q)"
  by (induction nums q rule: convertSCPQuorumSet.induct) (auto simp: QBitSet_new_def getSuccessors_bits)

lemma convert_succs:
  "bits (qbAllSuccessors (convertSCPQuorumSet nums q)) = {i. \<exists>v \<in> set (forAllNodes q). map_of nums v = Some i}"
proof (induction nums q rule: convertSCPQuorumSet.induct)
  case (1 nums t vs "is")
  then show ?case by (auto simp: QBitSet_new_def getSuccessors_bits validators_bits forAllNodes_inner_concat)
qed

lemma buildNodes_graph:
  assumes "distinct keys"
  shows "pubKeys rest = drop (length g) keys \<Longrightarrow> length g \<le> length keys \<Longrightarrow> buildNodes (zip keys [0..<length keys]) rest g =
    Inr (g @ map (convertSCPQuorumSet (zip keys [0..<length keys])) (List.map_filter snd rest))"
proof (induction rest arbitrary: g)
  case (Cons nq rest)
  obtain n q where nq: "nq = (n, q)" by (cases nq)
  show ?case
  proof (cases q)
    case None
    then show ?thesis using Cons nq by (simp add: pubKeys_def map_filter_simps)
  next
    case (Some r)
    have e: "n # pubKeys rest = drop (length g) keys" using Cons.prems(1) by (simp add: nq Some pubKeys_def)
    then have l: "length g < length keys" by (metis drop_all list.distinct(1) not_less)
    have "n # pubKeys rest = keys ! length g # drop (Suc (length g)) keys" unfolding e Cons_nth_drop_Suc [OF l] ..
    then have "n = keys ! length g" "pubKeys rest = drop (Suc (length g)) keys" by simp_all
    then have "map_of (zip keys [0..<length keys]) n = Some (length g)" using nums_lookup [OF assms] l by simp
    then show ?thesis
      using Cons.IH [of "g @ [convertSCPQuorumSet (zip keys [0..<length keys]) r]"] \<open>pubKeys rest = drop (Suc (length g)) keys\<close> l
      by (simp add: nq Some map_filter_simps assertE_def)
  qed
qed (simp add: map_filter_simps)

lemma buildGraph_correct: "distinct (map fst qmap) \<Longrightarrow> buildGraph qmap = Inr (graphOf qmap)"
proof -
  assume "distinct (map fst qmap)"
  then have "distinct (pubKeys qmap)" by (simp add: pubKeys_def distinct_map_filter)
  from buildNodes_graph [OF this, of qmap "[]"] show ?thesis by (simp add: buildGraph_def graphOf_def)
qed

interpretation network: component_graph "graphOf qmap" for qmap
proof
  fix i j assume i: "i < length (graphOf qmap)" "j \<in> bits (qbAllSuccessors (graphOf qmap ! i))"
  have "graphOf qmap ! i \<in> set (graphOf qmap)" by (rule nth_mem [OF i(1)])
  then obtain q where "graphOf qmap ! i = convertSCPQuorumSet (zip (pubKeys qmap) [0..<length (pubKeys qmap)]) q"
    by (auto simp: graphOf_def)
  then show "j < length (graphOf qmap)" using i(2) nums_low by (auto simp: convert_succs)
qed

lemma graphOf_collected: "q \<in> set (graphOf qmap) \<Longrightarrow> collected q"
  by (auto simp: graphOf_def convert_collected)

interpretation network: quorum_system "{..<length (pubKeys qmap)}" "\<lambda>i U. i < length (pubKeys qmap) \<and> qslice (graphOf qmap ! i) U"
  "network.edges qmap" for qmap
proof
  fix i U W
  show "i < length (pubKeys qmap) \<and> qslice (graphOf qmap ! i) U \<Longrightarrow> U \<subseteq> W \<Longrightarrow> i < length (pubKeys qmap) \<and> qslice (graphOf qmap ! i) W"
    using qslice_mono by blast
  assume a: "i < length (pubKeys qmap) \<and> qslice (graphOf qmap ! i) U"
  then show "i < length (pubKeys qmap) \<and> qslice (graphOf qmap ! i) (U \<inter> network.edges qmap i)"
    using qslice_succs [OF graphOf_collected [OF nth_mem], of i qmap "network.edges qmap i" U] by (simp add: network.edges_def)
qed simp

text \<open>Slices of the graph are slices of the quorum sets.\<close>

lemma convert_slice:
  assumes "distinct keys" "U \<subseteq> {..<length keys}"
  shows "levels_ok extra q \<Longrightarrow> distinct (forAllNodes q) \<Longrightarrow>
    qslice (convertSCPQuorumSet (zip keys [0..<length keys]) q) U \<longleftrightarrow> slice q ((!) keys ` U)"
proof (induction q)
  case (SCPQuorumSet t vs qs)
  let ?nums = "zip keys [0..<length keys]"
  have inner: "qslice (convertSCPQuorumSet ?nums q) U \<longleftrightarrow> slice q ((!) keys ` U)" if "q \<in> set qs" for q
  proof (rule SCPQuorumSet.IH [OF that])
    show "levels_ok extra q" using SCPQuorumSet.prems(1) that by (simp add: list_all_iff)
    show "distinct (forAllNodes q)"
      using SCPQuorumSet.prems(2) that by (auto simp: forAllNodes_inner_concat distinct_concat_iff)
  qed
  have "length (filter (\<lambda>q. qslice q U) (map (convertSCPQuorumSet ?nums) qs)) = length (filter (\<lambda>q. slice q ((!) keys ` U)) qs)"
    using inner by (simp add: filter_map comp_def cong: filter_cong)
  moreover have "card ({i. \<exists>v \<in> set vs. map_of ?nums v = Some i} \<inter> U) = length (filter (\<lambda>v. v \<in> (!) keys ` U) vs)"
  proof -
    have e: "{i. \<exists>v \<in> set vs. map_of ?nums v = Some i} \<inter> U = {i \<in> U. keys ! i \<in> set vs}"
      using assms(2) unfolding nums_lookup [OF assms(1)] by auto
    have "(!) keys ` {i \<in> U. keys ! i \<in> set vs} = set (filter (\<lambda>v. v \<in> (!) keys ` U) vs)" by auto
    moreover have "inj_on ((!) keys) {i \<in> U. keys ! i \<in> set vs}"
      using assms by (intro inj_on_nth) auto
    moreover have "distinct (filter (\<lambda>v. v \<in> (!) keys ` U) vs)" using SCPQuorumSet.prems(2) by simp
    ultimately show ?thesis unfolding e by (simp only: card_image [symmetric] distinct_card)
  qed
  moreover have "effThreshold t = unat t" using SCPQuorumSet.prems(1) by (auto simp: effThreshold_def)
  ultimately show ?case by (simp add: QBitSet_new_def validators_bits)
qed

definition saneMap :: "QuorumMap \<Rightarrow> bool" where
  "saneMap qmap \<longleftrightarrow> distinct (map fst qmap) \<and>
     list_all (\<lambda>(n, q). case q of None \<Rightarrow> True | Some r \<Rightarrow> isQuorumSetSane r False) qmap"

lemma same_number: "distinct keys \<Longrightarrow> map_of (zip keys [0..<length keys]) v = Some i \<Longrightarrow>
    map_of (zip keys [0..<length keys]) w = Some i \<Longrightarrow> v = w"
  using nums_lookup by metis

lemma numbers_disjoint:
  assumes "distinct keys" "A \<inter> B = {}"
  shows "{i. \<exists>v \<in> A. map_of (zip keys [0..<length keys]) v = Some i} \<inter> {i. \<exists>v \<in> B. map_of (zip keys [0..<length keys]) v = Some i} = {}"
  using same_number [OF assms(1)] assms(2) by blast

lemma convert_unshared:
  assumes "distinct keys"
  shows "levels_ok extra q \<Longrightarrow> distinct (forAllNodes q) \<Longrightarrow> unshared (convertSCPQuorumSet (zip keys [0..<length keys]) q)"
proof (induction q)
  case (SCPQuorumSet t vs qs)
  let ?nums = "zip keys [0..<length keys]" and ?c = "convertSCPQuorumSet (zip keys [0..<length keys])"
  have d: "distinct (concat (map forAllNodes qs))" "set vs \<inter> set (concat (map forAllNodes qs)) = {}"
    using SCPQuorumSet.prems(2) by (auto simp: forAllNodes_inner_concat)
  have "unshared (?c q)" if "q \<in> set qs" for q
    using SCPQuorumSet.IH [OF that] SCPQuorumSet.prems(1) that d(1) by (simp add: list_all_iff distinct_concat_iff)
  moreover have "{i. \<exists>v \<in> set vs. map_of ?nums v = Some i} \<inter> bits (qbAllSuccessors (?c q)) = {}" if "q \<in> set qs" for q
    unfolding convert_succs by (rule numbers_disjoint [OF assms]) (use that d(2) in auto)
  moreover have "sorted_wrt (\<lambda>p q. bits (qbAllSuccessors p) \<inter> bits (qbAllSuccessors q) = {}) (map ?c qs)"
    using d(1)
  proof (induction qs)
    case (Cons q qs)
    have "bits (qbAllSuccessors (?c q)) \<inter> bits (qbAllSuccessors (?c r)) = {}" if "r \<in> set qs" for r
      unfolding convert_succs by (rule numbers_disjoint [OF assms]) (use that Cons.prems in auto)
    then show ?case using Cons by simp
  qed simp
  moreover have "1 \<le> unat t" using SCPQuorumSet.prems(1) by simp
  ultimately show ?case by (simp add: QBitSet_new_def validators_bits)
qed

lemma saneMap_keys: "saneMap qmap \<Longrightarrow> distinct (pubKeys qmap)"
  by (simp add: saneMap_def pubKeys_def distinct_map_filter)

lemma saneMap_member:
  assumes "saneMap qmap" "r \<in> set (List.map_filter snd qmap)"
  shows "levels_ok False r" "distinct (forAllNodes r)"
proof -
  obtain n where "(n, Some r) \<in> set qmap" using assms(2) by (auto simp: List.map_filter_def)
  then have "qset_sane False r" using assms(1) by (auto simp: saneMap_def list_all_iff isQuorumSetSane_eq)
  then show "levels_ok False r" "distinct (forAllNodes r)" by (simp_all add: qset_sane_def)
qed

lemma graphOf_unshared: "saneMap qmap \<Longrightarrow> q \<in> set (graphOf qmap) \<Longrightarrow> unshared q"
  using convert_unshared [OF saneMap_keys] saneMap_member by (fastforce simp: graphOf_def)

subsection \<open>Quorums of the graph\<close>

lemma filter_slices:
  assumes "saneMap qmap" "set is \<subseteq> {..<length (graphOf qmap)}" "set is \<subseteq> bits nodes"
  shows "\<exists>b'. filterNodesWithSlice (graphOf qmap) nodes is b = Inr b' \<and>
    bits b' = bits b \<union> {i \<in> set is. qslice (graphOf qmap ! i) (bits nodes)}"
  using assms(2,3)
proof (induction "is" arbitrary: b)
  case (Cons i "is")
  have i: "graphOf qmap ! i \<in> set (graphOf qmap)" using Cons.prems(1) by simp
  have "containsQuorumSlice nodes (graphOf qmap ! i) \<longleftrightarrow> qslice (graphOf qmap ! i) (bits nodes)"
    by (rule containsQuorumSlice_correct(1) [OF graphOf_collected [OF i] graphOf_unshared [OF assms(1) i]])
  then have step: "containsQuorumSliceForNode (graphOf qmap) nodes i = Inr (qslice (graphOf qmap ! i) (bits nodes))"
    using Cons.prems by (simp add: containsQuorumSliceForNode_def vectorAt_def)
  show ?case
    using Cons.IH [of "if qslice (graphOf qmap ! i) (bits nodes) then bitset_set b i else b"] Cons.prems step by auto
qed simp

lemma contract_correct:
  assumes "saneMap qmap"
  shows "G = graphOf qmap \<Longrightarrow> bits b \<subseteq> {..<length (graphOf qmap)} \<Longrightarrow>
    \<exists>q. contractToMaximalQuorum G b = Inr q \<and> bits q = network.greatest qmap (bits b)"
proof (induction G b rule: contractToMaximalQuorum.induct)
  case (1 G b)
  have G: "G = graphOf qmap" by (rule 1(2))
  obtain f where f: "filterNodesWithSlice G b (setBits b) (bitset_create_with_capacity (bitset_count b)) = Inr f"
    "bits f = {i \<in> bits b. qslice (graphOf qmap ! i) (bits b)}"
    using filter_slices [OF assms, of "setBits b" b "bitset_create_with_capacity (bitset_count b)"] 1(3) unfolding G by auto
  have fb: "bits f = {i \<in> bits b. i < length (pubKeys qmap) \<and> qslice (graphOf qmap ! i) (bits b)}" using f(2) 1(3) by auto
  have g: "network.greatest qmap (bits b) = network.greatest qmap (bits f)" by (rule network.greatest_filter [OF fb])
  have s: "contractToMaximalQuorum G b =
      (if card (bits f) = card (bits b) \<or> bits f = {} then Inr f else contractToMaximalQuorum G f)"
    unfolding contractToMaximalQuorum.simps [of G b] f(1) by (simp add: count_card)
  consider "bits f = {}" | "bits f \<noteq> {}" "bits f = bits b" | "bits f \<noteq> {}" "bits f \<noteq> bits b" by blast
  then show ?case
  proof cases
    case 1
    then show ?thesis using g network.greatest_subset [of qmap "bits f"] by (simp add: s)
  next
    case 2
    then have "network.quorum qmap (bits b)" using fb unfolding network.quorum_def by blast
    then show ?thesis using 2 network.greatest_self by (simp add: s)
  next
    case 3
    then have "card (bits f) < card (bits b)" using f(2) by (intro psubset_card_mono) auto
    then show ?thesis using 1(1) [OF f(1) _ G] 3(1) f(2) 1(3) g by (auto simp: s count_card)
  qed
qed

lemma isAQuorum_correct:
  assumes "saneMap qmap" "bits b \<subseteq> {..<length (graphOf qmap)}"
  shows "isAQuorum (graphOf qmap) b = Inr (network.greatest qmap (bits b) \<noteq> {})"
  using contract_correct [OF assms(1) refl assms(2)] by (auto simp: isAQuorum_def)

lemma minimalLoop_correct:
  assumes "saneMap qmap" "bits b \<subseteq> {..<length (graphOf qmap)}" "set is \<subseteq> bits b"
  shows "minimalLoop (graphOf qmap) is b = Inr (\<forall>i \<in> set is. network.greatest qmap (bits b - {i}) = {})"
  using assms(2,3)
proof (induction "is" arbitrary: b)
  case (Cons i "is")
  have "isAQuorum (graphOf qmap) (bitset_unset b i) = Inr (network.greatest qmap (bits b - {i}) \<noteq> {})"
    using isAQuorum_correct [OF assms(1), of "bitset_unset b i"] Cons.prems(1) by auto
  moreover have "bits (bitset_set (bitset_unset b i) i) = bits b" using Cons.prems(2) by auto
  ultimately show ?case using Cons.IH [of "bitset_set (bitset_unset b i) i"] Cons.prems by (auto simp: Let_def)
qed simp

lemma isMinimalQuorum_correct:
  assumes "saneMap qmap" "network.quorum qmap (bits b)"
  shows "isMinimalQuorum (graphOf qmap) b = Inr (network.minimal qmap (bits b))"
proof -
  have b: "bits b \<subseteq> {..<length (graphOf qmap)}" "bits b \<noteq> {}" using assms(2) by (simp_all add: network.quorum_def)
  obtain c where c: "contractToMaximalQuorum (graphOf qmap) b = Inr c" "bits c = bits b"
    using contract_correct [OF assms(1) refl b(1)] network.greatest_self [OF assms(2)] by auto
  then show ?thesis
    using b minimalLoop_correct [OF assms(1) b(1), of "setBits b"] assms(2) equal_complete [OF c(2)]
    by (simp add: isMinimalQuorum_def assertE_def network.minimal_iff)
qed

lemma lookupKeys_correct: "set is \<subseteq> {..<length keys} \<Longrightarrow> lookupKeys keys is = Inr (map ((!) keys) is)"
  by (induction "is") (simp_all add: vectorAt_def)

subsection \<open>The search\<close>

text \<open>A checker as its constructor builds it, and what it reports as a split.\<close>

definition checkerFor :: "QuorumMap \<Rightarrow> QuorumIntersectionChecker \<Rightarrow> bool" where
  "checkerFor qmap Q \<longleftrightarrow> mBitNumPubKeys Q = pubKeys qmap \<and> mGraph Q = graphOf qmap \<and>
     components (network.edges qmap) (mSCCs Q) {} \<and> (\<Union>c \<in> set (mSCCs Q). bits c) = {..<length (graphOf qmap)} \<and>
     mMaxSCC Q = maxSCC (mSCCs Q)"

lemma new_checker: "saneMap qmap \<Longrightarrow> \<exists>Q. QuorumIntersectionChecker_new qmap = Inr Q \<and> checkerFor qmap Q"
  using buildGraph_correct [of qmap] network.calculateSCCs_correct [of qmap]
  by (auto simp: QuorumIntersectionChecker_new_def checkerFor_def saneMap_def)

definition splitOf :: "QuorumMap \<Rightarrow> NodeID list \<times> NodeID list \<Rightarrow> bool" where
  "splitOf qmap p \<longleftrightarrow> (\<exists>A B. network.quorum qmap A \<and> network.quorum qmap B \<and> A \<inter> B = {} \<and>
     set (fst p) = (!) (pubKeys qmap) ` A \<and> set (snd p) = (!) (pubKeys qmap) ` B)"

lemma note_correct:
  assumes "checkerFor qmap Q" "network.quorum qmap (bits a)" "network.quorum qmap (bits b)" "bits a \<inter> bits b = {}"
  shows "\<exists>s'. noteFoundDisjointQuorums Q a b s = Inr s' \<and> splitOf qmap (mPotentialSplit s')"
proof -
  have "bits a \<subseteq> {..<length (pubKeys qmap)}" "bits b \<subseteq> {..<length (pubKeys qmap)}"
    using assms(2,3) by (simp_all add: network.quorum_def)
  then show ?thesis
    using assms lookupKeys_correct [of "setBits a"] lookupKeys_correct [of "setBits b"]
    by (auto simp: noteFoundDisjointQuorums_def checkerFor_def splitOf_def)
qed

lemma maxSCC_mem: "maxSCC cs \<in> insert bitset_create (set cs)"
proof -
  have "foldl (\<lambda>m s. if bitset_count m < bitset_count s then s else m) b cs \<in> insert b (set cs)" for b
    by (induction cs arbitrary: b) auto
  then show ?thesis by (simp add: maxSCC_def)
qed

lemma max_low: "checkerFor qmap Q \<Longrightarrow> bits (mMaxSCC Q) \<subseteq> {..<length (graphOf qmap)}"
  using maxSCC_mem [of "mSCCs Q"] unfolding checkerFor_def by fastforce

lemma hasDisjoint_correct:
  assumes "saneMap qmap" "checkerFor qmap Q" "network.quorum qmap (bits b)"
  shows "\<exists>s'. hasDisjointQuorum Q b s = Inr (network.greatest qmap (bits (mMaxSCC Q) - bits b) \<noteq> {}, s') \<and>
    (network.greatest qmap (bits (mMaxSCC Q) - bits b) \<noteq> {} \<longrightarrow> splitOf qmap (mPotentialSplit s'))"
proof -
  obtain d where d: "contractToMaximalQuorum (graphOf qmap) (inplaceDifference (mMaxSCC Q) b) = Inr d"
    "bits d = network.greatest qmap (bits (mMaxSCC Q) - bits b)"
    using contract_correct [OF assms(1) refl, of "inplaceDifference (mMaxSCC Q) b"] max_low [OF assms(2)] by auto
  have G: "mGraph Q = graphOf qmap" using assms(2) by (simp add: checkerFor_def)
  show ?thesis
  proof (cases "bits d = {}")
    case True
    then show ?thesis using d G by (auto simp: hasDisjointQuorum_def)
  next
    case False
    then have "network.quorum qmap (bits d)" using d(2) network.greatest_quorum by simp
    moreover have "bits b \<inter> bits d = {}" using d(2) network.greatest_subset [of qmap "bits (mMaxSCC Q) - bits b"] by auto
    ultimately obtain s' where "noteFoundDisjointQuorums Q b d s = Inr s'" "splitOf qmap (mPotentialSplit s')"
      using note_correct [OF assms(2,3)] by blast
    then show ?thesis using False d G by (auto simp: hasDisjointQuorum_def)
  qed
qed

lemma countEdges_total:
  "set js \<subseteq> {..<length (inDegrees c)} \<Longrightarrow> \<exists>c'. countEdges draw js c = Inr c' \<and> length (inDegrees c') = length (inDegrees c)"
proof (induction js arbitrary: c)
  case (Cons j js)
  have "\<exists>c'. countEdge draw j c = Inr c' \<and> length (inDegrees c') = length (inDegrees c)"
    using Cons.prems by (simp add: countEdge_def vectorAt_def Let_def)
  then obtain c' where "countEdge draw j c = Inr c'" "length (inDegrees c') = length (inDegrees c)" by blast
  then show ?case using Cons.IH [of c'] Cons.prems by simp
qed simp

lemma countNodes_total:
  "set is \<subseteq> {..<length G} \<Longrightarrow> bits remaining \<subseteq> {..<length (inDegrees c)} \<Longrightarrow> \<exists>c'. countNodes draw G remaining is c = Inr c'"
proof (induction "is" arbitrary: c)
  case (Cons i "is")
  obtain c1 where "countEdges draw (setBits (inplaceIntersection (qbAllSuccessors (G ! i)) remaining)) c = Inr c1"
    "length (inDegrees c1) = length (inDegrees c)"
    using countEdges_total [of "setBits (inplaceIntersection (qbAllSuccessors (G ! i)) remaining)" c] Cons.prems(2) by auto
  then show ?case using Cons by (simp add: vectorAt_def)
qed simp

lemma pickSplitNode_total:
  assumes "bits remaining \<subseteq> {..<length G}" "bits remaining \<noteq> {}"
  shows "\<exists>i s'. pickSplitNode draw G remaining s = Inr (i, s')"
proof -
  let ?c = "\<lparr>inDegrees = replicate (length G) 0, maxNode = bitset_maximum remaining, maxCount = 1, maxDegree = 0,
               splitDraws = draws s\<rparr>"
  obtain c where "countNodes draw G remaining (setBits remaining) ?c = Inr c"
    using countNodes_total [of "setBits remaining" G remaining ?c draw] assms by auto
  then show ?thesis using assms by (simp add: pickSplitNode_def assertE_def)
qed

text \<open>A minimal quorum of at most half of the greatest component, with a quorum beside it.\<close>

definition smallSplit :: "QuorumMap \<Rightarrow> QuorumIntersectionChecker \<Rightarrow> nat set \<Rightarrow> bool" where
  "smallSplit qmap Q U \<longleftrightarrow> network.minimal qmap U \<and> card U \<le> maxCommit Q \<and> network.greatest qmap (bits (mMaxSCC Q) - U) \<noteq> {}"

lemma minimal_inside:
  assumes "network.minimal qmap U" "network.greatest qmap C \<noteq> {}" "C \<subseteq> U"
  shows "U = network.greatest qmap C"
  using assms network.greatest_quorum [OF assms(2)] network.greatest_subset [of qmap C] unfolding network.minimal_def by blast

text \<open>What a search between the committed nodes \<open>C\<close> and the remaining nodes \<open>R\<close> has to find.\<close>

definition searched :: "QuorumMap \<Rightarrow> QuorumIntersectionChecker \<Rightarrow> nat set \<Rightarrow> nat set \<Rightarrow> qic_error + bool \<times> QicState \<Rightarrow> bool" where
  "searched qmap Q C R res \<longleftrightarrow> (\<exists>found s'. res = Inr (found, s') \<and> (found \<longrightarrow> splitOf qmap (mPotentialSplit s')) \<and>
     ((\<exists>U. smallSplit qmap Q U \<and> C \<subseteq> U \<and> U \<subseteq> C \<union> R) \<longrightarrow> found))"

lemma searched_nothing:
  "(\<And>U. smallSplit qmap Q U \<Longrightarrow> C \<subseteq> U \<Longrightarrow> U \<subseteq> C \<union> R \<Longrightarrow> False) \<Longrightarrow> searched qmap Q C R (Inr (False, s))"
  by (auto simp: searched_def)

lemma searched_committed:
  assumes "saneMap qmap" "checkerFor qmap Q" "bits cq = network.greatest qmap C" "bits cq \<noteq> {}"
  shows "searched qmap Q C R (bindE (isMinimalQuorum (graphOf qmap) cq)
    (\<lambda>minimal. if minimal then hasDisjointQuorum Q cq s else Inr (False, s)))"
proof -
  have q: "network.quorum qmap (bits cq)" using assms(3,4) network.greatest_quorum by simp
  have U: "U = bits cq" if "smallSplit qmap Q U" "C \<subseteq> U" for U
    using minimal_inside [of qmap U C] that assms(3,4) by (simp add: smallSplit_def)
  obtain s' where h: "hasDisjointQuorum Q cq s = Inr (network.greatest qmap (bits (mMaxSCC Q) - bits cq) \<noteq> {}, s')"
    "network.greatest qmap (bits (mMaxSCC Q) - bits cq) \<noteq> {} \<longrightarrow> splitOf qmap (mPotentialSplit s')"
    using hasDisjoint_correct [OF assms(1,2) q] by blast
  show ?thesis
  proof (cases "network.minimal qmap (bits cq)")
    case True
    have "(\<exists>U. smallSplit qmap Q U \<and> C \<subseteq> U \<and> U \<subseteq> C \<union> R) \<longrightarrow> network.greatest qmap (bits (mMaxSCC Q) - bits cq) \<noteq> {}"
      using U unfolding smallSplit_def by blast
    then show ?thesis using h True isMinimalQuorum_correct [OF assms(1) q] by (simp add: searched_def)
  next
    case False
    have "searched qmap Q C R (Inr (False, s))" by (rule searched_nothing) (use U False in \<open>auto simp: smallSplit_def\<close>)
    then show ?thesis using False isMinimalQuorum_correct [OF assms(1) q] by simp
  qed
qed

lemma searched_exhausted:
  assumes "network.greatest qmap C = {}" "network.greatest qmap (C \<union> R) = {} \<or> \<not> C \<subseteq> network.greatest qmap (C \<union> R) \<or> R = {}"
  shows "searched qmap Q C R (Inr (False, s))"
proof (rule searched_nothing)
  fix U assume U: "smallSplit qmap Q U" "C \<subseteq> U" "U \<subseteq> C \<union> R"
  then have q: "network.quorum qmap U" "U \<noteq> {}" by (auto simp: smallSplit_def network.minimal_def network.quorum_def)
  have "U \<subseteq> network.greatest qmap (C \<union> R)" by (rule network.greatest_contains [OF q(1) U(3)])
  then have "R = {}" using assms(2) U(2) q(2) by blast
  then have "U \<subseteq> network.greatest qmap C" using network.greatest_contains [OF q(1)] U(3) by blast
  then show False using assms(1) q(2) by blast
qed

lemma searched_split:
  assumes "i \<in> R" "searched qmap Q C (R - {i}) (Inr (f1, s2))" "\<not> f1 \<Longrightarrow> searched qmap Q (insert i C) (R - {i}) res"
  shows "searched qmap Q C R (if f1 then Inr (True, s2) else res)"
proof (cases f1)
  case False
  have sub: "insert i C \<subseteq> U \<and> U \<subseteq> insert i C \<union> (R - {i})" if U: "smallSplit qmap Q U" "C \<subseteq> U" "U \<subseteq> C \<union> R" for U
  proof -
    have "\<not> U \<subseteq> C \<union> (R - {i})" using assms(2) False U(1,2) by (auto simp: searched_def)
    then show ?thesis using U(2,3) by blast
  qed
  obtain found s' where r: "res = Inr (found, s')" "found \<longrightarrow> splitOf qmap (mPotentialSplit s')"
    "(\<exists>U. smallSplit qmap Q U \<and> insert i C \<subseteq> U \<and> U \<subseteq> insert i C \<union> (R - {i})) \<longrightarrow> found"
    using assms(3) [OF False] unfolding searched_def by blast
  have "(\<exists>U. smallSplit qmap Q U \<and> C \<subseteq> U \<and> U \<subseteq> C \<union> R) \<longrightarrow> found" using r(3) sub by blast
  then show ?thesis using False r(1,2) by (simp add: searched_def)
qed (use assms(2) in \<open>auto simp: searched_def\<close>)

lemma search_correct:
  assumes "saneMap qmap"
  shows "checkerFor qmap Q \<Longrightarrow> bits c \<union> bits r \<subseteq> bits (mMaxSCC Q) \<Longrightarrow>
    searched qmap Q (bits c) (bits r) (anyMinQuorumHasDisjointQuorum draw Q c r s)"
proof (induction draw Q c r s rule: anyMinQuorumHasDisjointQuorum.induct)
  case (1 draw Q c r s)
  have low: "bits c \<union> bits r \<subseteq> {..<length (graphOf qmap)}" using 1(4) max_low [OF 1(3)] by blast
  have G: "mGraph Q = graphOf qmap" using 1(3) by (simp add: checkerFor_def)
  obtain cq where cq: "contractToMaximalQuorum (mGraph Q) c = Inr cq" "bits cq = network.greatest qmap (bits c)"
    using contract_correct [OF assms refl, of c] low unfolding G by auto
  obtain eq where eq: "contractToMaximalQuorum (mGraph Q) (inplaceUnion c r) = Inr eq"
    "bits eq = network.greatest qmap (bits c \<union> bits r)"
    using contract_correct [OF assms refl, of "inplaceUnion c r"] low unfolding G by auto
  note run = anyMinQuorumHasDisjointQuorum.simps [of draw Q c r s] cq(1) eq(1)
  consider (big) "maxCommit Q < bitset_count c" | (com) "\<not> maxCommit Q < bitset_count c" "bits cq \<noteq> {}"
    | (none) "\<not> maxCommit Q < bitset_count c" "bits cq = {}" "bits eq = {} \<or> \<not> bitset_subseteq c eq \<or> bits r = {}"
    | (go) "\<not> maxCommit Q < bitset_count c" "bits cq = {}" "bits eq \<noteq> {}" "bitset_subseteq c eq" "bits r \<noteq> {}" by blast
  then show ?case
  proof cases
    case big
    have "card (bits c) \<le> card U" if "bits c \<subseteq> U" "U \<subseteq> bits c \<union> bits r" for U
      using that by (intro card_mono) (auto intro: finite_subset)
    then have "card U \<le> maxCommit Q \<Longrightarrow> bits c \<subseteq> U \<Longrightarrow> U \<subseteq> bits c \<union> bits r \<Longrightarrow> False" for U
      using big by (metis count_card le_trans not_le)
    then have "searched qmap Q (bits c) (bits r) (Inr (False, s))" by (intro searched_nothing) (auto simp: smallSplit_def)
    then show ?thesis using big by (simp add: run)
  next
    case com
    then show ?thesis using searched_committed [OF assms 1(3) cq(2) com(2)] by (simp add: run G [symmetric])
  next
    case none
    then have "network.greatest qmap (bits c \<union> bits r) = {} \<or> \<not> bits c \<subseteq> network.greatest qmap (bits c \<union> bits r) \<or> bits r = {}"
      using eq(2) subseteq_complete by blast
    from searched_exhausted [OF _ this] show ?thesis using none cq(2) by (auto simp: run)
  next
    case go
    have rG: "bits r \<subseteq> {..<length (mGraph Q)}" using low G by auto
    obtain i s1 where i: "pickSplitNode draw (mGraph Q) r s = Inr (i, s1)" using pickSplitNode_total [OF rG go(5)] by blast
    have ir: "i \<in> bits r" by (rule pickSplitNode_mem [OF i])
    have prems: "\<not> \<not> bitset_empty cq" "\<not> bitset_empty eq" "\<not> \<not> bitset_subseteq c eq" "\<not> bitset_empty r" using go by simp_all
    have "searched qmap Q (bits c) (bits r - {i}) (anyMinQuorumHasDisjointQuorum draw Q c (bitset_unset r i) s1)"
      using 1(1) [OF go(1) cq(1) prems(1) eq(1) prems(2-4) i refl refl 1(3)] 1(4) by auto
    moreover from this obtain f1 s2 where e1: "anyMinQuorumHasDisjointQuorum draw Q c (bitset_unset r i) s1 = Inr (f1, s2)"
      by (auto simp: searched_def)
    moreover have "\<not> f1 \<Longrightarrow> searched qmap Q (insert i (bits c)) (bits r - {i})
        (anyMinQuorumHasDisjointQuorum draw Q (bitset_set c i) (bitset_unset r i) s2)"
      using 1(2) [OF go(1) cq(1) prems(1) eq(1) prems(2-4) i refl refl e1 refl _ 1(3)] 1(4) ir by auto
    ultimately have "searched qmap Q (bits c) (bits r)
        (if f1 then Inr (True, s2) else anyMinQuorumHasDisjointQuorum draw Q (bitset_set c i) (bitset_unset r i) s2)"
      by (intro searched_split [OF ir]) simp_all
    then show ?thesis using go i e1 by (simp add: run)
  qed
qed

subsection \<open>Quorums of the network\<close>

definition networkQuorum :: "QuorumMap \<Rightarrow> NodeID set \<Rightarrow> bool" where
  "networkQuorum qmap U \<longleftrightarrow> U \<noteq> {} \<and> (\<forall>n \<in> U. \<exists>q. map_of qmap n = Some (Some q) \<and> slice q U)"

definition knownSets :: "QuorumMap \<Rightarrow> (NodeID \<times> SCPQuorumSet) list" where
  "knownSets qmap = List.map_filter (\<lambda>(n, q). map_option (Pair n) q) qmap"

lemma knownSets_parts: "pubKeys qmap = map fst (knownSets qmap)" "List.map_filter snd qmap = map snd (knownSets qmap)"
  by (induction qmap) (auto simp: knownSets_def pubKeys_def map_filter_simps split: option.splits)

lemma set_knownSets: "set (knownSets qmap) = {(n, q). (n, Some q) \<in> set qmap}"
  by (force simp: knownSets_def List.map_filter_def)

lemma graphOf_slice:
  assumes "saneMap qmap" "i < length (pubKeys qmap)" "A \<subseteq> {..<length (pubKeys qmap)}"
  shows "\<exists>q. map_of qmap (pubKeys qmap ! i) = Some (Some q) \<and> (qslice (graphOf qmap ! i) A \<longleftrightarrow> slice q ((!) (pubKeys qmap) ` A))"
proof -
  let ?q = "snd (knownSets qmap ! i)"
  have i: "i < length (knownSets qmap)" using assms(2) by (simp add: knownSets_parts)
  have "(pubKeys qmap ! i, ?q) \<in> set (knownSets qmap)" using i by (simp add: knownSets_parts)
  then have "map_of qmap (pubKeys qmap ! i) = Some (Some ?q)" using assms(1) by (simp add: set_knownSets saneMap_def)
  moreover have "graphOf qmap ! i = convertSCPQuorumSet (zip (pubKeys qmap) [0..<length (pubKeys qmap)]) ?q"
    using i by (simp add: graphOf_def knownSets_parts(2))
  moreover have "?q \<in> set (List.map_filter snd qmap)" using i by (simp add: knownSets_parts(2))
  ultimately show ?thesis
    using convert_slice [OF saneMap_keys [OF assms(1)] assms(3) saneMap_member [OF assms(1)]] by simp
qed

lemma quorum_image:
  assumes "saneMap qmap" "A \<subseteq> {..<length (pubKeys qmap)}"
  shows "networkQuorum qmap ((!) (pubKeys qmap) ` A) \<longleftrightarrow> network.quorum qmap A"
  using graphOf_slice [OF assms(1) _ assms(2)] assms(2) by (fastforce simp: networkQuorum_def network.quorum_def)

lemma quorum_numbers:
  assumes "networkQuorum qmap U"
  obtains A where "A \<subseteq> {..<length (pubKeys qmap)}" "U = (!) (pubKeys qmap) ` A"
proof -
  have "U \<subseteq> set (pubKeys qmap)"
  proof
    fix n assume "n \<in> U"
    then obtain q where "map_of qmap n = Some (Some q)" using assms by (auto simp: networkQuorum_def)
    then have "(n, q) \<in> set (knownSets qmap)" by (simp add: set_knownSets map_of_SomeD)
    then show "n \<in> set (pubKeys qmap)" by (force simp: knownSets_parts)
  qed
  then have "U = (!) (pubKeys qmap) ` {i. i < length (pubKeys qmap) \<and> pubKeys qmap ! i \<in> U}" by (fastforce simp: in_set_conv_nth)
  then show thesis by (intro that [of "{i. i < length (pubKeys qmap) \<and> pubKeys qmap ! i \<in> U}"]) auto
qed

lemma key_image_Int:
  assumes "saneMap qmap" "A \<subseteq> {..<length (pubKeys qmap)}" "B \<subseteq> {..<length (pubKeys qmap)}"
  shows "(!) (pubKeys qmap) ` A \<inter> (!) (pubKeys qmap) ` B = (!) (pubKeys qmap) ` (A \<inter> B)"
  by (rule inj_on_image_Int [OF inj_on_nth [OF saneMap_keys [OF assms(1)]] assms(2,3), symmetric]) simp

definition intersecting :: "QuorumMap \<Rightarrow> bool" where
  "intersecting qmap \<longleftrightarrow> (\<forall>U W. networkQuorum qmap U \<and> networkQuorum qmap W \<longrightarrow> U \<inter> W \<noteq> {})"

lemma intersecting_numbers:
  assumes "saneMap qmap"
  shows "intersecting qmap \<longleftrightarrow> (\<forall>A B. network.quorum qmap A \<and> network.quorum qmap B \<longrightarrow> A \<inter> B \<noteq> {})"
proof -
  let ?k = "(!) (pubKeys qmap)"
  show ?thesis
  proof
    assume l: "intersecting qmap"
    show "\<forall>A B. network.quorum qmap A \<and> network.quorum qmap B \<longrightarrow> A \<inter> B \<noteq> {}"
    proof (intro allI impI)
      fix A B assume q: "network.quorum qmap A \<and> network.quorum qmap B"
      then have lt: "A \<subseteq> {..<length (pubKeys qmap)}" "B \<subseteq> {..<length (pubKeys qmap)}" by (auto simp: network.quorum_def)
      then have "?k ` A \<inter> ?k ` B \<noteq> {}" using l q quorum_image [OF assms] unfolding intersecting_def by blast
      then show "A \<inter> B \<noteq> {}" using key_image_Int [OF assms lt] by auto
    qed
  next
    assume r: "\<forall>A B. network.quorum qmap A \<and> network.quorum qmap B \<longrightarrow> A \<inter> B \<noteq> {}"
    have "U \<inter> W \<noteq> {}" if q: "networkQuorum qmap U" "networkQuorum qmap W" for U W
    proof -
      obtain A where a: "A \<subseteq> {..<length (pubKeys qmap)}" "U = ?k ` A" by (rule quorum_numbers [OF q(1)])
      obtain B where b: "B \<subseteq> {..<length (pubKeys qmap)}" "W = ?k ` B" by (rule quorum_numbers [OF q(2)])
      have "network.quorum qmap A" "network.quorum qmap B"
        using q quorum_image [OF assms a(1)] quorum_image [OF assms b(1)] a(2) b(2) by simp_all
      then have "A \<inter> B \<noteq> {}" using r by simp
      then show ?thesis using a(2) b(2) by auto
    qed
    then show "intersecting qmap" by (auto simp: intersecting_def)
  qed
qed

lemma splitOf_network:
  assumes "saneMap qmap" "splitOf qmap p"
  shows "networkQuorum qmap (set (fst p)) \<and> networkQuorum qmap (set (snd p)) \<and> set (fst p) \<inter> set (snd p) = {}"
proof -
  obtain A B where ab: "network.quorum qmap A" "network.quorum qmap B" "A \<inter> B = {}"
    "set (fst p) = (!) (pubKeys qmap) ` A" "set (snd p) = (!) (pubKeys qmap) ` B" using assms(2) by (auto simp: splitOf_def)
  then have lt: "A \<subseteq> {..<length (pubKeys qmap)}" "B \<subseteq> {..<length (pubKeys qmap)}" by (auto simp: network.quorum_def)
  show ?thesis using ab quorum_image [OF assms(1)] lt key_image_Int [OF assms(1) lt] by simp
qed

subsection \<open>The answer\<close>

lemma note_total:
  assumes "checkerFor qmap Q" "bits a \<subseteq> {..<length (pubKeys qmap)}" "bits b \<subseteq> {..<length (pubKeys qmap)}"
  shows "\<exists>s'. noteFoundDisjointQuorums Q a b s = Inr s'"
  using assms lookupKeys_correct [of "setBits a"] lookupKeys_correct [of "setBits b"]
  by (auto simp: noteFoundDisjointQuorums_def checkerFor_def)

lemma component_low: "checkerFor qmap Q \<Longrightarrow> c \<in> set (mSCCs Q) \<Longrightarrow> bits c \<subseteq> {..<length (pubKeys qmap)}"
  by (auto simp: checkerFor_def)

lemma maxSCC_component: "checkerFor qmap Q \<Longrightarrow> c \<in> set (mSCCs Q) \<Longrightarrow> mMaxSCC Q \<in> set (mSCCs Q)"
proof -
  assume c: "checkerFor qmap Q" "c \<in> set (mSCCs Q)"
  have grow: "bitset_count b \<le> bitset_count (foldl (\<lambda>m s. if bitset_count m < bitset_count s then s else m) b cs)" for b cs
    by (induction cs arbitrary: b) (auto intro: le_trans less_imp_le)
  have "c \<in> set cs \<Longrightarrow> bitset_count c \<le> bitset_count (foldl (\<lambda>m s. if bitset_count m < bitset_count s then s else m) b cs)" for b cs
  proof (induction cs arbitrary: b)
    case (Cons d cs)
    show ?case
    proof (cases "c = d")
      case True
      then show ?thesis using grow [of "if bitset_count b < bitset_count d then d else b" cs] by (auto split: if_splits)
    qed (use Cons in auto)
  qed simp
  then have "bitset_count c \<le> bitset_count (maxSCC (mSCCs Q))" using c(2) by (simp add: maxSCC_def)
  moreover have "0 < bitset_count c" using c components_mem [of "network.edges qmap" "mSCCs Q" "{}" c] by (simp add: checkerFor_def count_card card_gt_0_iff)
  moreover have "bitset_count bitset_create = 0" by (simp add: count_card)
  ultimately have "maxSCC (mSCCs Q) \<noteq> bitset_create" by (metis not_le)
  then show ?thesis using maxSCC_mem [of "mSCCs Q"] c(1) by (auto simp: checkerFor_def)
qed

lemma otherScc_correct:
  assumes "saneMap qmap" "checkerFor qmap Q"
  shows "set cs \<subseteq> set (mSCCs Q) \<Longrightarrow> \<exists>found s'. otherSccLoop Q cs s = Inr (found, s') \<and>
    (found \<longleftrightarrow> (\<exists>c \<in> set cs. bits c \<noteq> bits (mMaxSCC Q) \<and> network.greatest qmap (bits c) \<noteq> {})) \<and>
    (found \<and> network.greatest qmap (bits (mMaxSCC Q)) \<noteq> {} \<longrightarrow> splitOf qmap (mPotentialSplit s'))"
proof (induction cs)
  case (Cons c cs)
  have G: "mGraph Q = graphOf qmap" and comps: "components (network.edges qmap) (mSCCs Q) {}" using assms(2) by (simp_all add: checkerFor_def)
  have c: "c \<in> set (mSCCs Q)" using Cons.prems by simp
  have eqv: "bitset_equal c (mMaxSCC Q) \<longleftrightarrow> bits c = bits (mMaxSCC Q)"
    by (rule components_equal [OF comps c maxSCC_component [OF assms(2) c]])
  obtain oc where oc: "contractToMaximalQuorum (mGraph Q) c = Inr oc" "bits oc = network.greatest qmap (bits c)"
    using contract_correct [OF assms(1) G, of c] component_low [OF assms(2) c] by auto
  obtain m where m: "contractToMaximalQuorum (mGraph Q) (mMaxSCC Q) = Inr m" "bits m = network.greatest qmap (bits (mMaxSCC Q))"
    using contract_correct [OF assms(1) G, of "mMaxSCC Q"] max_low [OF assms(2)] by auto
  show ?case
  proof (cases "bits c \<noteq> bits (mMaxSCC Q) \<and> bits oc \<noteq> {}")
    case True
    have disjoint: "bits c \<inter> bits (mMaxSCC Q) = {}"
      using components_disjoint [OF comps c maxSCC_component [OF assms(2) c]] True by blast
    have "\<exists>s'. noteFoundDisjointQuorums Q m oc s = Inr s' \<and> (bits m \<noteq> {} \<longrightarrow> splitOf qmap (mPotentialSplit s'))"
    proof (cases "bits m = {}")
      case True
      then show ?thesis
        using note_total [OF assms(2), of m oc s] network.greatest_subset [of qmap "bits c"] oc(2) component_low [OF assms(2) c] by auto
    next
      case False
      have q: "network.quorum qmap (bits m)" "network.quorum qmap (bits oc)" using m(2) oc(2) False True network.greatest_quorum by auto
      have "bits m \<inter> bits oc = {}"
        using network.greatest_subset [of qmap "bits c"] network.greatest_subset [of qmap "bits (mMaxSCC Q)"] m(2) oc(2) disjoint by auto
      then show ?thesis using note_correct [OF assms(2) q] by blast
    qed
    then show ?thesis using True eqv oc m by auto
  next
    case False
    then have "otherSccLoop Q (c # cs) s = otherSccLoop Q cs s" using eqv oc by auto
    then show ?thesis using Cons False oc(2) by auto
  qed
qed auto

lemma minimal_in_component:
  assumes "checkerFor qmap Q" "network.minimal qmap U"
  shows "\<exists>c \<in> set (mSCCs Q). U \<subseteq> bits c"
proof (rule connected_component [of "network.edges qmap" _ "{}"])
  show "connected (network.edges qmap) U" unfolding connected_def using network.minimal_closed [OF assms(2)] by blast
  show "components (network.edges qmap) (mSCCs Q) {}" using assms(1) by (simp add: checkerFor_def)
  show "U \<noteq> {}" "U \<subseteq> (\<Union>c \<in> set (mSCCs Q). bits c) \<union> {}"
    using assms by (auto simp: network.minimal_def network.quorum_def checkerFor_def)
qed simp_all

text \<open>If quorums of other components are excluded, disjoint quorums leave a small minimal one in the greatest component.\<close>

lemma disjoint_small:
  assumes "checkerFor qmap Q" "network.quorum qmap A" "network.quorum qmap B" "A \<inter> B = {}"
    and none: "\<And>c. c \<in> set (mSCCs Q) \<Longrightarrow> bits c \<noteq> bits (mMaxSCC Q) \<Longrightarrow> network.greatest qmap (bits c) = {}"
  shows "\<exists>U. smallSplit qmap Q U \<and> U \<subseteq> bits (mMaxSCC Q)"
proof -
  obtain A' where A: "network.minimal qmap A'" "A' \<subseteq> A" by (rule network.contains_minimal [OF assms(2)])
  obtain B' where B: "network.minimal qmap B'" "B' \<subseteq> B" by (rule network.contains_minimal [OF assms(3)])
  have inMax: "U \<subseteq> bits (mMaxSCC Q)" if U: "network.minimal qmap U" for U
  proof -
    obtain c where c: "c \<in> set (mSCCs Q)" "U \<subseteq> bits c" using minimal_in_component [OF assms(1) U] by blast
    then have "network.greatest qmap (bits c) \<noteq> {}"
      using U unfolding network.minimal_def network.greatest_empty by blast
    then show ?thesis using none [OF c(1)] c(2) by blast
  qed
  have small: "smallSplit qmap Q U" if "network.minimal qmap U" "network.minimal qmap W" "U \<inter> W = {}" "card U \<le> card W" for U W
  proof -
    have "card U + card W = card (U \<union> W)"
      using that inMax [OF that(1)] inMax [OF that(2)] by (intro card_Un_disjoint [symmetric]) (auto intro: finite_subset)
    also have "\<dots> \<le> card (bits (mMaxSCC Q))" using inMax that by (intro card_mono) auto
    finally have "card U \<le> maxCommit Q" using that(4) by (simp add: maxCommit_def count_card)
    moreover have "network.greatest qmap (bits (mMaxSCC Q) - U) \<noteq> {}"
      using that(2,3) inMax [OF that(2)] unfolding network.greatest_empty network.minimal_def by blast
    ultimately show ?thesis using that(1) by (simp add: smallSplit_def)
  qed
  have d: "A' \<inter> B' = {}" using A(2) B(2) assms(4) by blast
  show ?thesis
  proof (cases "card A' \<le> card B'")
    case True
    then show ?thesis using small [OF A(1) B(1) d] inMax [OF A(1)] by blast
  next
    case False
    then show ?thesis using small [OF B(1) A(1)] d inMax [OF B(1)] by (metis inf_commute nat_le_linear)
  qed
qed

lemma enjoys_correct:
  assumes "saneMap qmap" "checkerFor qmap Q"
  shows "\<exists>r s'. networkEnjoysQuorumIntersection draw Q s = Inr (r, s') \<and>
    (r \<longleftrightarrow> network.greatest qmap (bits (mMaxSCC Q)) = {} \<or> intersecting qmap) \<and> (\<not> r \<longrightarrow> splitOf qmap (mPotentialSplit s'))"
proof -
  have G: "mGraph Q = graphOf qmap" using assms(2) by (simp add: checkerFor_def)
  obtain m where m: "contractToMaximalQuorum (mGraph Q) (mMaxSCC Q) = Inr m" "bits m = network.greatest qmap (bits (mMaxSCC Q))"
    using contract_correct [OF assms(1) G, of "mMaxSCC Q"] max_low [OF assms(2)] by auto
  obtain f1 s1 where o: "otherSccLoop Q (mSCCs Q) s = Inr (f1, s1)"
    "f1 \<longleftrightarrow> (\<exists>c \<in> set (mSCCs Q). bits c \<noteq> bits (mMaxSCC Q) \<and> network.greatest qmap (bits c) \<noteq> {})"
    "f1 \<and> network.greatest qmap (bits (mMaxSCC Q)) \<noteq> {} \<longrightarrow> splitOf qmap (mPotentialSplit s1)"
    using otherScc_correct [OF assms subset_refl] by blast
  have disproof: "splitOf qmap p \<Longrightarrow> \<not> intersecting qmap" for p
    using splitOf_network [OF assms(1), of p] unfolding intersecting_def by blast
  consider "bits m = {}" | "bits m \<noteq> {}" f1 | "bits m \<noteq> {}" "\<not> f1" by blast
  then show ?thesis
  proof cases
    case 3
    have "searched qmap Q {} (bits (mMaxSCC Q)) (anyMinQuorumHasDisjointQuorum draw Q bitset_create (mMaxSCC Q) s1)"
      using search_correct [OF assms, of bitset_create "mMaxSCC Q"] by simp
    then obtain f2 s2 where e: "anyMinQuorumHasDisjointQuorum draw Q bitset_create (mMaxSCC Q) s1 = Inr (f2, s2)"
      "f2 \<longrightarrow> splitOf qmap (mPotentialSplit s2)" "(\<exists>U. smallSplit qmap Q U \<and> U \<subseteq> bits (mMaxSCC Q)) \<longrightarrow> f2"
      unfolding searched_def by auto
    have "intersecting qmap" if "\<not> f2"
      unfolding intersecting_numbers [OF assms(1)]
      using disjoint_small [OF assms(2)] e(3) that o(2) 3(2) by blast
    moreover have "f2 \<Longrightarrow> \<not> intersecting qmap" using e(2) disproof by blast
    ultimately show ?thesis using 3 m o(1) e(1,2) by (auto simp: networkEnjoysQuorumIntersection_def)
  qed (use m o disproof in \<open>auto simp: networkEnjoysQuorumIntersection_def\<close>)
qed

lemma greatest_main:
  assumes "saneMap qmap" "M \<subseteq> {..<length (graphOf qmap)}"
  shows "network.greatest qmap M = {} \<longleftrightarrow> \<not> (\<exists>U. networkQuorum qmap U \<and> U \<subseteq> (!) (pubKeys qmap) ` M)"
proof -
  have M: "M \<subseteq> {..<length (pubKeys qmap)}" using assms(2) by simp
  have "(\<exists>U. networkQuorum qmap U \<and> U \<subseteq> (!) (pubKeys qmap) ` M) \<longleftrightarrow> (\<exists>A \<subseteq> M. network.quorum qmap A)"
    using quorum_image [OF assms(1)] M by (auto simp: subset_image_iff)
  then show ?thesis unfolding network.greatest_empty by blast
qed

text \<open>C5. The check of quorum intersection is exact unless the greatest component has no quorum. For every map of distinct
  nodes to sane quorum sets and all random choices, the checker is built and returns without an error. It answers true
  exactly when every two quorums of the network intersect or the greatest component that Tarjan's algorithm found contains no
  quorum; when it answers false, the reported split is a pair of disjoint quorums.\<close>

theorem checker_decides_intersection:
  assumes "saneMap qmap"
  shows "\<exists>Q r s'. QuorumIntersectionChecker_new qmap = Inr Q \<and> networkEnjoysQuorumIntersection draw Q s = Inr (r, s') \<and>
    (r \<longleftrightarrow> intersecting qmap \<or> \<not> (\<exists>U. networkQuorum qmap U \<and> U \<subseteq> (!) (pubKeys qmap) ` bits (mMaxSCC Q))) \<and>
    (\<not> r \<longrightarrow> networkQuorum qmap (set (fst (mPotentialSplit s'))) \<and> networkQuorum qmap (set (snd (mPotentialSplit s'))) \<and>
       set (fst (mPotentialSplit s')) \<inter> set (snd (mPotentialSplit s')) = {})"
proof -
  obtain Q where Q: "QuorumIntersectionChecker_new qmap = Inr Q" "checkerFor qmap Q" using new_checker [OF assms] by blast
  have "network.greatest qmap (bits (mMaxSCC Q)) = {} \<longleftrightarrow>
      \<not> (\<exists>U. networkQuorum qmap U \<and> U \<subseteq> (!) (pubKeys qmap) ` bits (mMaxSCC Q))"
    by (rule greatest_main [OF assms max_low [OF Q(2)]])
  then show ?thesis using Q enjoys_correct [OF assms Q(2), of draw s] splitOf_network [OF assms] by blast
qed

definition exampleMap :: QuorumMap where
  "exampleMap = (let q = SCPQuorumSet 2 [1, 2, 3] [] in [(1, Some q), (2, Some q), (3, Some q)])"

lemma exampleMap_intersecting: "intersecting exampleMap"
  by (auto simp: intersecting_def networkQuorum_def exampleMap_def Let_def effThreshold_def split: if_splits)

theorem checker_decides_intersection_witness:
  "\<exists>Q s'. QuorumIntersectionChecker_new exampleMap = Inr Q \<and>
     networkEnjoysQuorumIntersection (\<lambda>n hi. 0) Q \<lparr>draws = 0, mPotentialSplit = ([], [])\<rparr> = Inr (True, s')"
proof -
  have "saneMap exampleMap" by code_simp
  from checker_decides_intersection [OF this, of "\<lambda>n hi. 0" "\<lparr>draws = 0, mPotentialSplit = ([], [])\<rparr>"] exampleMap_intersecting
  show ?thesis by auto
qed

definition haltedMap :: QuorumMap where
  "haltedMap = (let q = SCPQuorumSet 3 [1, 2, 9] []
     in [(1, Some q), (2, Some q), (4, Some (SCPQuorumSet 1 [4] [])), (5, Some (SCPQuorumSet 1 [5] []))])"

lemma halted_run:
  "case QuorumIntersectionChecker_new haltedMap of
     Inl e \<Rightarrow> False
   | Inr Q \<Rightarrow> (case networkEnjoysQuorumIntersection (\<lambda>n hi. 0) Q \<lparr>draws = 0, mPotentialSplit = ([], [])\<rparr> of
        Inl e \<Rightarrow> False | Inr (r, s') \<Rightarrow> r)"
  by code_simp

text \<open>C38. A network with disjoint quorums can pass the check. When the greatest component has no quorum, because it
  depends on a node whose quorum set is not known, the checker answers true without regard to the quorums of the other
  components, here two nodes that trust only themselves.\<close>

theorem checker_misses_split:
  "\<exists>Q s'. QuorumIntersectionChecker_new haltedMap = Inr Q \<and>
     networkEnjoysQuorumIntersection (\<lambda>n hi. 0) Q \<lparr>draws = 0, mPotentialSplit = ([], [])\<rparr> = Inr (True, s') \<and>
     networkQuorum haltedMap {4} \<and> networkQuorum haltedMap {5}"
proof -
  have "networkQuorum haltedMap {4}" "networkQuorum haltedMap {5}"
    by (simp_all add: networkQuorum_def haltedMap_def Let_def effThreshold_def)
  then show ?thesis using halted_run by (auto split: sum.splits)
qed

end
