(* ===== verification/Spec2Isabelle.thy ===== *)
theory Spec2Isabelle
  imports Network_Run Quorum_Properties Numeric_Properties Ballot_Properties SCP_Properties Crossing_Properties
    Transaction_Properties Invariant_Properties Signature_Properties Transaction_Queue_Properties
    Ledger_Close_Properties Quorum_Intersection_Properties
begin

text \<open>
  \<^bold>\<open>The program.\<close> vii-core is the node of a payment network. Nodes agree on the transactions of the next
  ledger with the consensus protocol of \<open>src/src/scp\<close>; the ledger then applies them
  (\<open>src/src/transactions\<close>, \<open>src/src/ledger\<close>), and checks of \<open>src/src/invariant\<close> run after every operation.
  This library models these parts, operation by operation, and proves what makes them correct. Errors are values:
  every assertion, exception, null dereference and wrong union access of the code is an \<open>Inl\<close> of a sum
  type, every early return a branch. Machine integers are words of the width the code uses.

  \<^bold>\<open>Consensus.\<close> \<open>SCP_Types\<close> has the messages of \<open>xdr/vii-SCP.x\<close>; \<open>Quorum_Sets\<close> the slices, blocking sets
  and the quorum loop of \<open>LocalNode.cpp\<close>; \<open>Quorum_Set_Utils\<close> the sanity check and normalisation of
  \<open>QuorumSetUtils.cpp\<close>; \<open>Slot_State\<close> the variables of a slot as a record, the driver's queries
  (\<open>SCPDriver\<close>) as a record of functions and its notifications as a log; \<open>Ballot_Protocol\<close> and
  \<open>Nomination_Protocol\<close> every operation of the two protocols; \<open>Slot_Protocol\<close> \<open>Slot.cpp\<close> and the
  map of slots of \<open>SCP.cpp\<close>. \<open>Ballot_Steps\<close> is the abstract transition system of the ballot protocol,
  \<open>Ballot_Refinement\<close> and \<open>Slot_Refinement\<close> show that every call is a sequence of its steps;
  \<open>Ballot_Invariant\<close>, \<open>Ballot_Frame\<close>, \<open>Nomination_Invariant\<close> the invariants; \<open>Ballot_Termination\<close> that all
  calls end; \<open>Agreement\<close> and \<open>Network_Run\<close> a network of nodes that run the code among arbitrary others, with lost,
  duplicated and reordered messages. \<open>Quorum_Properties\<close>, \<open>Closest_Blocking\<close>, \<open>Ballot_Properties\<close>,
  \<open>SCP_Properties\<close> state the properties of the parts; \<open>Example_Slot\<close> has concrete nodes. The locales
  \<open>ballot_emission\<close>, \<open>emission_frame\<close>, \<open>emission_total\<close>, \<open>nomination_reentry\<close> are the contracts of the
  re-entrant calls, interpreted on the code's own functions.

  \<^bold>\<open>Quorum intersection.\<close> Agreement rests on quorums that intersect, which
  \<open>herder/QuorumIntersectionCheckerImpl.cpp\<close> checks for the quorum sets a node knows. \<open>Bit_Sets\<close> is \<open>util/BitSet.h\<close> with
  \<open>lib/util/cbitset.c\<close> on lists of 64-bit words and what each operation does to the set of bits;
  \<open>Quorum_Intersection\<close> has the graph, the components by Tarjan's algorithm, the contraction to the greatest
  quorum and the search through minimal quorums. \<open>Quorum_Components\<close> proves in the locale \<open>component_graph\<close> that \<open>scc\<close>
  finds exactly the strongly connected components, \<open>Quorum_Intersection_Properties\<close> proves the search in the locale
  \<open>quorum_system\<close>; both are interpreted as \<open>network\<close> on the graph that the checker builds. The checker is exact unless
  the greatest component has no quorum, where it answers true; an example shows that disjoint quorums are missed then.

  \<^bold>\<open>Arithmetic.\<close> \<open>UInt128\<close> is \<open>lib/util/uint128_t\<close> on pairs of 64-bit words, \<open>Numeric\<close> the scaled divisions
  of \<open>util/numeric.cpp\<close> and the node weights; \<open>Numeric_Properties\<close> shows that they are exact and when they fail.

  \<^bold>\<open>Ledger entries and offers.\<close> \<open>Ledger_Types\<close> and \<open>Ledger_Balance\<close> have the entries of the XDR files and the
  balance and liability operations of \<open>TransactionUtils.cpp\<close> and \<open>TrustLineWrapper.cpp\<close>; \<open>Offer_Exchange\<close> and
  \<open>Offer_Crossing\<close> are \<open>OfferExchange.cpp\<close>: the exchange in three protocol generations, crossing an offer,
  the best offer and the conversion loop. A ledger transaction is a header and a store of entries by key; a
  nested one that is rolled back is dropped, one that commits is kept. \<open>Exchange_Properties\<close>,
  \<open>Balance_Properties\<close> and \<open>Crossing_Properties\<close> show that crossings stay within the limits of both
  sides, never fail on well-formed ledgers and account for what they move.

  \<^bold>\<open>Operations and transactions.\<close> \<open>Operation_Types\<close> has the operations and results of
  \<open>xdr/vii-transaction.x\<close>; \<open>Account_Operations\<close>, \<open>Trust_Operations\<close>, \<open>Payment_Operations\<close> and
  \<open>Offer_Operations\<close> the operation frames with \<open>doCheckValid\<close> and \<open>doApply\<close> of each; \<open>Signature_Checker\<close> the
  weights of signatures; \<open>Transaction_Frame\<close> \<open>OperationFrame.cpp\<close> and \<open>TransactionFrame.cpp\<close>: validation, fees,
  sequence numbers, one-time signers and application; \<open>Invariants\<close> the checks after an operation and their
  manager. \<open>Ledger_Effects\<close> defines the relation \<open>moves\<close> between ledgers (entries filed under their own
  keys, the change of the total of native balances, headers, sequence numbers that never fall) and the locale
  \<open>neutral_entry_op\<close> of operations that keep an entry's key, balance and sequence number, interpreted for
  liabilities and sub-entries; \<open>Operation_Effects\<close> proves \<open>moves 0\<close> for every operation;
  \<open>Transaction_Properties\<close>, \<open>Invariant_Properties\<close> and \<open>Signature_Properties\<close> draw the consequences:
  no transaction is applied twice, the ledger stays solvent, lumens are conserved, signatures are sound.
  \<open>Example_Ledger\<close> has a concrete ledger and a signed payment.

  \<^bold>\<open>From the queue to a closed ledger.\<close> \<open>Transaction_Set\<close> is \<open>herder/TxSetFrame.cpp\<close>: a set with its cached hash, the
  order of application in batches, surge pricing, trimming and the validity check. \<open>Transaction_Queue\<close> is
  \<open>herder/TransactionQueue.cpp\<close>, ages of transactions per account and sets of banned hashes, with the parts of
  \<open>HerderImpl.cpp\<close> that submit a transaction, propose a set and update the queue. \<open>Upgrades\<close> is
  \<open>herder/Upgrades.cpp\<close> with \<open>prepareLiabilities\<close>. \<open>Ledger_Close\<close> is \<open>ledger/LedgerManagerImpl.cpp\<close>: \<open>closeLedger\<close>
  with fees, transactions and upgrades in the order of the code, and the state machine that buffers ledgers while
  the node catches up. \<open>Transaction_Set_Properties\<close> shows that the order of application depends only on which
  transactions a set has, that surge pricing fits the limit and keeps prefixes; \<open>Transaction_Queue_Properties\<close>
  that the cached sums of the queue are exact, that nothing stays in it for ever and that proposals are valid;
  \<open>Ledger_Close_Properties\<close> that closing keeps the ledger solvent, that a transaction of a closed ledger is refused for
  ever after, and that the assertions of the ledger manager hold. Its locale \<open>close_stage\<close> is what the two loops of a
  close share, interpreted for fees and for application. The run \<open>manager_run\<close> of the last has the
  callers' contract in its rules: catching up from history reports that it finished when it is at the ledger it was
  asked for, and the buckets it installs hold a solvent ledger; an offline catchup, which only a command
  starts, is not part of it. \<open>std::sort\<close> is a stable sort, which only matters for equal keys; an unordered map is a list, and
  the theorems on results hold for every order where the code's order is unspecified.

  \<^bold>\<open>Parameters.\<close> The answers of the consensus driver, the verification of an Ed25519 signature and SHA-256 (the record
  \<open>Crypto\<close>), the hash of a transaction's contents, the hashes of transactions and sets (\<open>TxHashes\<close>) and, in \<open>CloseEnv\<close>,
  the decoding of upgrades, the hash of a ledger header and the checkpoint frequency are arguments, as are
  the random numbers that the quorum intersection checker draws; the theorems hold
  for all of them, save where a hypothesis asks that different transactions have different hashes.

  \<^bold>\<open>Bounds.\<close> The ballot protocol takes a fuel that bounds its catch-up loop and its nesting; \<open>enoughFuel\<close>,
  \<open>2 ^ 33 + 60\<close>, is more rounds than 32-bit counters allow, and \<open>ballot_protocol_ends\<close> proves that it never
  runs out; examples use 60. The 128-bit division runs at most 129 rounds, which is proved to be enough. The
  conversion loop and the search for minimal quorums have a termination measure and no fuel; the recursion of \<open>scc\<close> has
  the number of nodes plus one as its fuel, which is proved to be enough.

  \<^bold>\<open>Not modelled.\<close> Protocol versions before 8 cache the source account between loads; the model answers such a load
  with the error \<open>EarlierProtocol\<close>. The bookkeeping of nested ledger transactions (active entries, the last
  modified stamp outside the delta of the invariants, recorded but unchanged entries) is flattened, and the results
  of operations that fail their signature check are not kept. SQL storage, metrics, logging, JSON and text output are I/O.
  The rest of the herder (timers, fetching of sets, persistence), buckets, history, the work of catching up, overlay,
  the work scheduler and the application shell are mostly I/O and glue and are not modelled; of the ledger
  manager, genesis, loading and storing the last ledger and metrics are left out; nested ledger transactions
  are used through the flat view that their commits and rollbacks give.
\<close>

section \<open>Safety of the consensus protocol\<close>

text \<open>C1. Agreement: in every execution of the network, whatever the nodes outside \<open>H\<close> send and
  whatever is lost, duplicated or reordered, two nodes of \<open>H\<close> that run the code of a slot and
  externalize do so with the same value, provided any two quorums of \<open>H\<close> share a node of \<open>H\<close>.\<close>

theorem externalize_agreement:
  assumes "network H Ds i ln G"
    and "\<forall>m \<in> H. mNodeID (ln m) = m"
    and "\<forall>n \<in> H. \<forall>D \<in> Ds n. \<forall>m \<in> H. getQSet D (mQSetHash (ln m)) = Some (mQSet (ln m))"
    and "quorumIntersection H (\<lambda>m. mQSet (ln m))"
    and "n \<in> H" "m \<in> H" "externalized (G n) = Some v" "externalized (G m) = Some w"
  shows "v = w"
proof -
  note ok = network_ok [OF assms(1-3)]
  from ok assms(5,7) obtain U where "n \<in> U" "backed H ln G v U" unfolding node_ok_def by blast
  moreover from ok assms(6,8) obtain V where "m \<in> V" "backed H ln G w V"
    unfolding node_ok_def by blast
  ultimately show ?thesis using backed_agree [OF assms(4)] assms(5,6) by blast
qed

theorem externalize_agreement_witness:
  "\<exists>v w. externalized (exampleNodes 1) = Some v \<and> externalized (exampleNodes 2) = Some w \<and> v = w"
proof -
  obtain v w where "externalized (exampleNodes 1) = Some v" "externalized (exampleNodes 2) = Some w"
    using exampleNodes_externalized by blast
  with externalize_agreement [OF exampleNodes_network exampleNodes_ids exampleNodes_qsets
      exampleNodes_intersection, of 1 2 v w] show ?thesis by simp
qed

text \<open>C2. Refinement: whatever envelope a slot processes, on every path that does not fail, the
  code performs a sequence of steps of the abstract ballot protocol, each under its guard, and
  keeps the slot well formed.\<close>

theorem slotProcessEnvelope_refines:
  assumes "slotProcessEnvelope k D e self s = Inr (r, s')" "slot_ok s"
  shows "ballot_steps D {e} s s' \<and> slot_ok s'"
  using slotProcessEnvelope_steps [OF assms, of "{e}"] slot_ok_steps assms(2) by blast

theorem slotProcessEnvelope_refines_witness:
  "\<exists>r s'. slotProcessEnvelope 60 exampleDriver exampleExternalize False (Slot_new 1 (exampleNode 1)) =
       Inr (r, s') \<and> ballot_steps exampleDriver {exampleExternalize} (Slot_new 1 (exampleNode 1)) s' \<and>
     slot_ok s'"
  using slotProcessEnvelope_refines [OF _ slot_ok_new] exampleExternalize_processed by blast

text \<open>C3. Stability: over any sequence of calls to a slot the phase never goes back, within a phase the
  current ballot never decreases, the value of the commit ballot is fixed once the node has
  accepted a commit, and after externalizing the protocol variables never change.\<close>

theorem slot_run_stable:
  assumes "slot_run (Slot_new i ln) s" "slot_run s t"
  shows "phase_num (mPhase (bp s)) \<le> phase_num (mPhase (bp t)) \<and>
    (mPhase (bp t) = mPhase (bp s) \<longrightarrow> ballotLe (mCurrentBallot (bp s)) (mCurrentBallot (bp t))) \<and>
    (mPhase (bp s) \<noteq> SCP_PHASE_PREPARE \<longrightarrow>
       map_option bvalue (mCommit (bp t)) = map_option bvalue (mCommit (bp s))) \<and>
    (mPhase (bp s) = SCP_PHASE_EXTERNALIZE \<longrightarrow>
       mCommit (bp t) = mCommit (bp s) \<and> mHighBallot (bp t) = mHighBallot (bp s) \<and>
       mCurrentBallot (bp t) = mCurrentBallot (bp s))"
proof -
  have "slot_ok s" using slot_run_ok [OF assms(1) slot_ok_new] by blast
  then have "stable s t" using slot_run_ok [OF assms(2)] by blast
  then show ?thesis by (auto simp: stable_defs)
qed

theorem slot_run_stable_witness:
  "\<exists>s. slot_run (Slot_new 1 (exampleNode 1)) s \<and>
     phase_num (mPhase (bp (Slot_new 1 (exampleNode 1)))) \<le> phase_num (mPhase (bp s))"
proof -
  obtain r s where "slotProcessEnvelope 60 exampleDriver exampleExternalize False
      (Slot_new 1 (exampleNode 1)) = Inr (r, s)"
    using exampleExternalize_processed by blast
  then have "slot_run (Slot_new 1 (exampleNode 1)) s" by (rule slot_run_op [OF slot_op.receive])
  with slot_run_stable [OF slot_run_refl this] show ?thesis by blast
qed

end
